(* ===== verification/Fifo.thy ===== *)
theory Fifo
  imports Prelude
begin

text \<open>
  The interface of a first-in first-out store: what the message queue relies on when it calls
  the linked list, and what a message task relies on when it calls the message queue. The laws
  are stated against the list of items in the store, oldest first. The client lemmas say that
  a whole sequence of items comes out in the order it went in, each exactly once.
\<close>

text \<open>Enqueue a sequence, each item in the memory cell that comes with it.\<close>

fun enq_all :: "(addr \<Rightarrow> 'a \<Rightarrow> 'w \<Rightarrow> 'w option) \<Rightarrow> (addr \<times> 'a) list \<Rightarrow> 'w \<Rightarrow> 'w option" where
  "enq_all enq [] w = Some w"
| "enq_all enq ((a, x) # ps) w = do { w1 \<leftarrow> enq a x w; enq_all enq ps w1 }"

text \<open>Dequeue \<open>n\<close> times; items found, in order.\<close>

fun deq_n :: "('w \<Rightarrow> ('a option \<times> 'w) option) \<Rightarrow> nat \<Rightarrow> 'w \<Rightarrow> ('a list \<times> 'w) option" where
  "deq_n deq 0 w = Some ([], w)"
| "deq_n deq (Suc n) w = do {
     (r, w1) \<leftarrow> deq w;
     (rs, w2) \<leftarrow> deq_n deq n w1;
     Some ((case r of None \<Rightarrow> rs | Some x \<Rightarrow> x # rs), w2)
   }"

locale fifo_store =
  fixes rep :: "'w \<Rightarrow> 'a list \<Rightarrow> bool"
    and live :: "'w \<Rightarrow> addr set"
    and ok :: "'a \<Rightarrow> bool"
    and enq :: "addr \<Rightarrow> 'a \<Rightarrow> 'w \<Rightarrow> 'w option"
    and deq :: "'w \<Rightarrow> ('a option \<times> 'w) option"
  assumes enq_law: "rep w xs \<Longrightarrow> ok x \<Longrightarrow> a \<noteq> NULL \<Longrightarrow> a \<notin> live w \<Longrightarrow>
      \<exists>w'. enq a x w = Some w' \<and> rep w' (xs @ [x]) \<and> live w' = insert a (live w)"
    and deq_law: "rep w (x # xs) \<Longrightarrow> \<exists>w'. deq w = Some (Some x, w') \<and> rep w' xs"
    and deq_empty_law: "rep w [] \<Longrightarrow> deq w = Some (None, w)"
begin

lemma enq_all_rep:
  assumes "rep w xs" "\<forall>x\<in>snd ` set ps. ok x" "distinct (map fst ps)"
    "NULL \<notin> fst ` set ps" "fst ` set ps \<inter> live w = {}"
  shows "\<exists>w'. enq_all enq ps w = Some w' \<and> rep w' (xs @ map snd ps)"
  using assms
proof (induction ps arbitrary: w xs)
  case (Cons p ps)
  obtain a x where p: "p = (a, x)" by (cases p)
  from Cons.prems p obtain w1 where w1: "enq a x w = Some w1" "rep w1 (xs @ [x])"
    "live w1 = insert a (live w)"
    using enq_law [of w xs x a] by auto
  from Cons.prems p w1 Cons.IH [of w1 "xs @ [x]"] show ?case by auto
qed simp

lemma deq_n_rep:
  "rep w (xs @ ys) \<Longrightarrow> \<exists>w'. deq_n deq (length xs) w = Some (xs, w') \<and> rep w' ys"
proof (induction xs arbitrary: w)
  case (Cons x xs)
  then obtain w1 where "deq w = Some (Some x, w1)" "rep w1 (xs @ ys)"
    using deq_law [of w x "xs @ ys"] by auto
  with Cons.IH [of w1] show ?case by auto
qed simp

text \<open>Everything that is put into an empty store is taken out once, in the same order.\<close>

lemma enq_then_deq:
  assumes "rep w []" "\<forall>x\<in>snd ` set ps. ok x" "distinct (map fst ps)"
    "NULL \<notin> fst ` set ps" "fst ` set ps \<inter> live w = {}"
  shows "\<exists>w1 w2. enq_all enq ps w = Some w1 \<and>
     deq_n deq (length ps) w1 = Some (map snd ps, w2) \<and> rep w2 []"
proof -
  from enq_all_rep [OF assms] obtain w1 where "enq_all enq ps w = Some w1" "rep w1 (map snd ps)"
    by auto
  then show ?thesis using deq_n_rep [of w1 "map snd ps" "[]"] by auto
qed

end

end
