(* ===== verification/LinkedList.thy ===== *)
theory LinkedList
  imports Fifo
begin

text \<open>
  The doubly linked list of \<open>gps/utils/linked_list.c\<close>, at the level of its pointers. Elements
  live in a memory \<open>elems\<close> from addresses to \<open>list_element\<close> structs; a load, store or free at
  an address that holds no live element is a memory fault, and every operation returns
  \<open>None\<close> when it faults (or, for the two loops, does not end). The address \<open>malloc\<close> returns
  is an argument of \<open>linked_list_add\<close> (\<open>NULL\<close> when it fails).
  The lemmas show that, from a well-formed list, no operation faults, that each keeps the list
  well formed, and that it refines a queue of data pointers (newest first).
\<close>

section \<open>Data\<close>

datatype linked_list_err_type =
  eLINKED_LIST_SUCCESS | eLINKED_LIST_FAILURE_GENERAL | eLINKED_LIST_INVALID_PARAMETER
| eLINKED_LIST_INVALID_HANDLE | eLINKED_LIST_UNAVAILABLE_RESOURCE
| eLINKED_LIST_INSUFFICIENT_BUFFER | eLINKED_LIST_EMPTY

record list_element =
  next_ptr :: addr
  prev_ptr :: addr
  data_ptr :: addr
  has_dealloc :: bool \<comment> \<open>\<open>dealloc_func\<close> is not \<open>NULL\<close>\<close>

record list_state =
  p_head :: addr
  p_tail :: addr

text \<open>
  The world an operation works in: the list object behind the handle (\<open>None\<close> for a \<open>NULL\<close>
  handle), the live elements, and the data pointers handed to a \<open>dealloc\<close> callback so far.
\<close>

record ll_world =
  list_data :: "list_state option"
  elems :: "addr \<rightharpoonup> list_element"
  deallocs :: "addr list"

section \<open>Memory accesses\<close>

definition load_elem :: "ll_world \<Rightarrow> addr \<Rightarrow> list_element option" where
  "load_elem w a = (if a = NULL then None else elems w a)"

definition upd_elem :: "addr \<Rightarrow> (list_element \<Rightarrow> list_element) \<Rightarrow> ll_world \<Rightarrow> ll_world option" where
  "upd_elem a f w = (case load_elem w a of None \<Rightarrow> None
     | Some e \<Rightarrow> Some (w\<lparr>elems := (elems w)(a \<mapsto> f e)\<rparr>))"

definition free_elem :: "addr \<Rightarrow> ll_world \<Rightarrow> ll_world option" where
  "free_elem a w = (case load_elem w a of None \<Rightarrow> None
     | Some e \<Rightarrow> Some (w\<lparr>elems := (elems w)(a := None)\<rparr>))"

definition call_dealloc :: "addr \<Rightarrow> ll_world \<Rightarrow> ll_world" where
  "call_dealloc d w = w\<lparr>deallocs := deallocs w @ [d]\<rparr>"

section \<open>Operations\<close>

text \<open>\<open>out\<close>: the \<open>list_data\<close> argument is not \<open>NULL\<close>; \<open>mem\<close>: \<open>calloc\<close> succeeded.\<close>

definition linked_list_init :: "bool \<Rightarrow> bool \<Rightarrow> ll_world \<Rightarrow> linked_list_err_type \<times> ll_world" where
  "linked_list_init out mem w =
     (if \<not> out then (eLINKED_LIST_INVALID_PARAMETER, w)
      else if \<not> mem then (eLINKED_LIST_FAILURE_GENERAL, w)
      else (eLINKED_LIST_SUCCESS, w\<lparr>list_data := Some \<lparr>p_head = NULL, p_tail = NULL\<rparr>\<rparr>))"

definition linked_list_add ::
  "addr \<Rightarrow> addr \<Rightarrow> bool \<Rightarrow> ll_world \<Rightarrow> (linked_list_err_type \<times> ll_world) option" where
  "linked_list_add elem data_obj dealloc w =
     (case list_data w of
        None \<Rightarrow> Some (eLINKED_LIST_INVALID_HANDLE, w)
      | Some p_list \<Rightarrow>
          if data_obj = NULL then Some (eLINKED_LIST_INVALID_PARAMETER, w)
          else if elem = NULL then Some (eLINKED_LIST_FAILURE_GENERAL, w)
          else
            let tmp = p_head p_list;
                w1 = w\<lparr>elems := (elems w)(elem \<mapsto>
                        \<lparr>next_ptr = tmp, prev_ptr = NULL, data_ptr = data_obj, has_dealloc = dealloc\<rparr>)\<rparr>
            in if tmp \<noteq> NULL
               then do {
                 w2 \<leftarrow> upd_elem tmp (\<lambda>e. e\<lparr>prev_ptr := elem\<rparr>) w1;
                 Some (eLINKED_LIST_SUCCESS, w2\<lparr>list_data := Some (p_list\<lparr>p_head := elem\<rparr>)\<rparr>)
               }
               else Some (eLINKED_LIST_SUCCESS,
                          w1\<lparr>list_data := Some (p_list\<lparr>p_head := elem, p_tail := elem\<rparr>)\<rparr>))"

text \<open>The second component is what was written to \<open>*data_obj\<close>, if anything was.\<close>

definition linked_list_remove ::
  "bool \<Rightarrow> ll_world \<Rightarrow> (linked_list_err_type \<times> addr option \<times> ll_world) option" where
  "linked_list_remove out w =
     (case list_data w of
        None \<Rightarrow> Some (eLINKED_LIST_INVALID_HANDLE, None, w)
      | Some p_list \<Rightarrow>
          if \<not> out then Some (eLINKED_LIST_INVALID_PARAMETER, None, w)
          else if p_tail p_list = NULL then Some (eLINKED_LIST_UNAVAILABLE_RESOURCE, None, w)
          else do {
            e \<leftarrow> load_elem w (p_tail p_list);
            w1 \<leftarrow> (if prev_ptr e \<noteq> NULL
                   then do {
                     w' \<leftarrow> upd_elem (prev_ptr e) (\<lambda>x. x\<lparr>next_ptr := NULL\<rparr>) w;
                     Some (w'\<lparr>list_data := Some (p_list\<lparr>p_tail := prev_ptr e\<rparr>)\<rparr>)
                   }
                   else Some (w\<lparr>list_data := Some (p_list\<lparr>p_tail := NULL, p_head := NULL\<rparr>)\<rparr>));
            w2 \<leftarrow> free_elem (p_tail p_list) w1;
            Some (eLINKED_LIST_SUCCESS, Some (data_ptr e), w2)
          })"

text \<open>
  \<open>linked_list_empty\<close> returns an \<open>int\<close>: the error code for a \<open>NULL\<close> handle, else 1 or 0.
\<close>

definition linked_list_empty :: "ll_world \<Rightarrow> int" where
  "linked_list_empty w =
     (case list_data w of None \<Rightarrow> -3 | Some p_list \<Rightarrow> if p_head p_list = NULL then 1 else 0)"

partial_function (option) flush_loop :: "list_state \<Rightarrow> ll_world \<Rightarrow> (list_state \<times> ll_world) option" where
  "flush_loop p_list w =
     (if p_head p_list = NULL then Some (p_list, w)
      else do {
        e \<leftarrow> load_elem w (p_head p_list);
        w1 \<leftarrow> free_elem (p_head p_list) (if has_dealloc e then call_dealloc (data_ptr e) w else w);
        flush_loop (p_list\<lparr>p_head := next_ptr e\<rparr>) w1
      })"

definition linked_list_flush :: "ll_world \<Rightarrow> (linked_list_err_type \<times> ll_world) option" where
  "linked_list_flush w =
     (case list_data w of
        None \<Rightarrow> Some (eLINKED_LIST_INVALID_HANDLE, w)
      | Some p_list \<Rightarrow> do {
          (s, w1) \<leftarrow> flush_loop p_list w;
          Some (eLINKED_LIST_SUCCESS, w1\<lparr>list_data := Some (s\<lparr>p_tail := NULL\<rparr>)\<rparr>)
        })"

definition linked_list_destroy :: "bool \<Rightarrow> ll_world \<Rightarrow> (linked_list_err_type \<times> ll_world) option" where
  "linked_list_destroy out w =
     (if \<not> out then Some (eLINKED_LIST_INVALID_HANDLE, w)
      else do {
        (_, w1) \<leftarrow> linked_list_flush w;
        Some (eLINKED_LIST_SUCCESS, w1\<lparr>list_data := None\<rparr>)
      })"

text \<open>
  The body of \<open>linked_list_search\<close> once an element satisfies \<open>equal\<close> and is to be removed:
  unlink it, run its \<open>dealloc\<close> when its data is not copied out, free it.
\<close>

definition unlink_elem :: "bool \<Rightarrow> addr \<Rightarrow> list_state \<Rightarrow> ll_world \<Rightarrow> (list_state \<times> ll_world) option" where
  "unlink_elem copied tmp p_list w = do {
     e \<leftarrow> load_elem w tmp;
     (s1, w1) \<leftarrow> (if prev_ptr e = NULL then Some (p_list\<lparr>p_head := next_ptr e\<rparr>, w)
                  else do { w' \<leftarrow> upd_elem (prev_ptr e) (\<lambda>x. x\<lparr>next_ptr := next_ptr e\<rparr>) w;
                            Some (p_list, w') });
     (s2, w2) \<leftarrow> (if next_ptr e = NULL then Some (s1\<lparr>p_tail := prev_ptr e\<rparr>, w1)
                  else do { w' \<leftarrow> upd_elem (next_ptr e) (\<lambda>x. x\<lparr>prev_ptr := prev_ptr e\<rparr>) w1;
                            Some (s1, w') });
     w3 \<leftarrow> upd_elem tmp (\<lambda>x. x\<lparr>prev_ptr := NULL, next_ptr := NULL\<rparr>) w2;
     w4 \<leftarrow> free_elem tmp (if \<not> copied \<and> has_dealloc e then call_dealloc (data_ptr e) w3 else w3);
     Some (s2, w4)
   }"

partial_function (option) search_loop ::
  "(addr \<Rightarrow> bool) \<Rightarrow> bool \<Rightarrow> bool \<Rightarrow> addr \<Rightarrow> list_state \<Rightarrow> ll_world \<Rightarrow>
   (addr option \<times> list_state \<times> ll_world) option" where
  "search_loop eq out rm tmp p_list w =
     (if tmp = NULL then Some (None, p_list, w)
      else do {
        e \<leftarrow> load_elem w tmp;
        (if eq (data_ptr e)
         then (if rm
               then do { (s, w1) \<leftarrow> unlink_elem out tmp p_list w; Some (Some (data_ptr e), s, w1) }
               else Some (Some (data_ptr e), p_list, w))
         else search_loop eq out rm (next_ptr e) p_list w)
      })"

text \<open>
  \<open>eq\<close> is the client's \<open>equal(data_0, _)\<close> (\<open>None\<close>: the pointer is \<open>NULL\<close>), \<open>out\<close> says that
  \<open>data_p\<close> is given; the middle component is the value \<open>*data_p\<close> gets.
\<close>

definition linked_list_search ::
  "bool \<Rightarrow> (addr \<Rightarrow> bool) option \<Rightarrow> bool \<Rightarrow> ll_world \<Rightarrow>
   (linked_list_err_type \<times> addr option \<times> ll_world) option" where
  "linked_list_search out equal rm w =
     (case (list_data w, equal) of
        (Some p_list, Some eq) \<Rightarrow>
          if p_tail p_list = NULL then Some (eLINKED_LIST_UNAVAILABLE_RESOURCE, None, w)
          else do {
            (found, s, w1) \<leftarrow> search_loop eq out rm (p_head p_list) p_list w;
            Some (eLINKED_LIST_SUCCESS,
                  (if out then Some (case found of None \<Rightarrow> NULL | Some d \<Rightarrow> d) else None),
                  w1\<lparr>list_data := Some s\<rparr>)
          }
      | _ \<Rightarrow> Some (eLINKED_LIST_INVALID_HANDLE, None, w))"

section \<open>Well-formed lists\<close>

text \<open>
  \<open>chain m p as n\<close>: the addresses \<open>as\<close> hold live elements, linked in this order both ways,
  the first pointing back to \<open>p\<close> and the last on to \<open>n\<close>.
\<close>

fun chain :: "(addr \<rightharpoonup> list_element) \<Rightarrow> addr \<Rightarrow> addr list \<Rightarrow> addr \<Rightarrow> bool" where
  "chain m p [] n \<longleftrightarrow> True"
| "chain m p (a # as) n \<longleftrightarrow> a \<noteq> NULL \<and>
     (case m a of None \<Rightarrow> False
      | Some e \<Rightarrow> prev_ptr e = p \<and> next_ptr e = (if as = [] then n else hd0 as)) \<and>
     chain m a as n"

definition ll_rep :: "ll_world \<Rightarrow> addr list \<Rightarrow> bool" where
  "ll_rep w as \<longleftrightarrow> distinct as \<and> chain (elems w) NULL as NULL \<and>
     list_data w = Some \<lparr>p_head = hd0 as, p_tail = last0 as\<rparr>"

text \<open>What the element at an address stores, and the queue a list stands for, newest first.\<close>

definition item_at :: "ll_world \<Rightarrow> addr \<Rightarrow> addr \<times> bool" where
  "item_at w a = (case elems w a of None \<Rightarrow> (NULL, False) | Some e \<Rightarrow> (data_ptr e, has_dealloc e))"

definition ll_abs :: "ll_world \<Rightarrow> (addr \<times> bool) list \<Rightarrow> bool" where
  "ll_abs w xs \<longleftrightarrow> (\<exists>as. ll_rep w as \<and> map (item_at w) as = xs \<and> NULL \<notin> fst ` set xs)"

lemma chain_cong:
  "(\<And>a. a \<in> set as \<Longrightarrow> m a = m' a) \<Longrightarrow> chain m p as n = chain m' p as n"
  by (induction m p as n rule: chain.induct) auto

lemma chain_upd_other [simp]: "a \<notin> set as \<Longrightarrow> chain (m(a := v)) p as n = chain m p as n"
  by (rule chain_cong) auto

lemma chain_not_NULL: "chain m p as n \<Longrightarrow> NULL \<notin> set as"
  by (induction m p as n rule: chain.induct) auto

lemma chain_live: "chain m p as n \<Longrightarrow> a \<in> set as \<Longrightarrow> \<exists>e. m a = Some e"
  by (induction m p as n rule: chain.induct) (auto split: option.splits)

lemma chain_append:
  "chain m p (as @ bs) n \<longleftrightarrow>
     chain m p as (if bs = [] then n else hd0 bs) \<and> chain m (if as = [] then p else last0 as) bs n"
proof (induction as arbitrary: p)
  case (Cons a as)
  then show ?case by (cases as) (auto split: option.splits)
qed simp

lemma hd0_NULL_iff: "chain m p as n \<Longrightarrow> hd0 as = NULL \<longleftrightarrow> as = []"
  by (cases as) auto

lemma last0_NULL_iff: "chain m p as n \<Longrightarrow> last0 as = NULL \<longleftrightarrow> as = []"
  by (metis chain_not_NULL last0_def last0_in)

lemma ll_rep_not_NULL: "ll_rep w as \<Longrightarrow> NULL \<notin> set as"
  by (auto simp: ll_rep_def dest: chain_not_NULL)

lemma ll_rep_list_data: "ll_rep w as \<Longrightarrow> list_data w = Some \<lparr>p_head = hd0 as, p_tail = last0 as\<rparr>"
  by (simp add: ll_rep_def)

lemma item_at_upd_links [simp]:
  assumes "elems w a = Some e" "data_ptr (f e) = data_ptr e" "has_dealloc (f e) = has_dealloc e"
  shows "item_at (w\<lparr>elems := (elems w)(a \<mapsto> f e)\<rparr>) b = item_at w b"
  using assms by (simp add: item_at_def)

lemma item_at_cong: "elems w a = elems w' a \<Longrightarrow> item_at w a = item_at w' a"
  by (simp add: item_at_def)

section \<open>Operations on well-formed lists\<close>

lemmas mem_defs = load_elem_def upd_elem_def free_elem_def

lemma linked_list_add_rep:
  assumes rep: "ll_rep w as" and new: "a \<noteq> NULL" "elems w a = None" and d: "d \<noteq> NULL"
  shows "\<exists>w'. linked_list_add a d f w = Some (eLINKED_LIST_SUCCESS, w') \<and>
    ll_rep w' (a # as) \<and> item_at w' a = (d, f) \<and>
    (\<forall>b\<in>set as. item_at w' b = item_at w b) \<and> deallocs w' = deallocs w"
proof (cases as)
  case Nil
  with assms show ?thesis
    by (auto simp: linked_list_add_def ll_rep_def item_at_def)
next
  case (Cons b bs)
  from rep Cons new have "a \<notin> set (b # bs)" "b \<noteq> NULL"
    by (auto simp: ll_rep_def dest: chain_live split: option.splits)
  with assms Cons show ?thesis
    by (auto simp: linked_list_add_def ll_rep_def item_at_def mem_defs split: option.splits)
qed

lemma linked_list_remove_rep:
  assumes rep: "ll_rep w (as @ [a])"
  shows "\<exists>w'.
    linked_list_remove True w = Some (eLINKED_LIST_SUCCESS, Some (fst (item_at w a)), w') \<and>
    ll_rep w' as \<and> (\<forall>b\<in>set as. item_at w' b = item_at w b) \<and>
    elems w' a = None \<and> deallocs w' = deallocs w"
proof (cases as rule: rev_cases)
  case Nil
  with rep show ?thesis
    by (auto simp: linked_list_remove_def ll_rep_def item_at_def mem_defs split: option.splits)
next
  case (snoc bs b)
  from rep snoc obtain ea eb where ea: "elems w a = Some ea" "prev_ptr ea = b"
    and eb: "elems w b = Some eb" and ne: "a \<noteq> NULL" "b \<noteq> NULL" "a \<noteq> b" "a \<notin> set bs" "b \<notin> set bs"
    by (auto simp: ll_rep_def chain_append split: option.splits)
  define w' where "w' = w\<lparr>elems := (elems w)(b \<mapsto> eb\<lparr>next_ptr := NULL\<rparr>, a := None),
    list_data := Some \<lparr>p_head = hd0 as, p_tail = b\<rparr>\<rparr>"
  from rep snoc ea eb ne
  have "linked_list_remove True w = Some (eLINKED_LIST_SUCCESS, Some (data_ptr ea), w')"
    by (auto simp: linked_list_remove_def ll_rep_def mem_defs w'_def fun_upd_twist)
  moreover from rep snoc ea eb ne have "ll_rep w' as"
    by (auto simp: ll_rep_def w'_def chain_append)
  moreover from ea eb ne snoc have "\<forall>x\<in>set as. item_at w' x = item_at w x" "elems w' a = None"
    "deallocs w' = deallocs w" "data_ptr ea = fst (item_at w a)"
    by (auto simp: item_at_def w'_def)
  ultimately show ?thesis by auto
qed

lemma flush_loop_rep:
  assumes "chain (elems w) p as NULL" "distinct as" "p_head s = hd0 as"
  shows "\<exists>w'. flush_loop s w = Some (s\<lparr>p_head := NULL\<rparr>, w') \<and>
    elems w' = (elems w) |` (- set as) \<and>
    deallocs w' = deallocs w @ map fst (filter snd (map (item_at w) as))"
  using assms
proof (induction as arbitrary: p s w)
  case Nil
  then show ?case by (subst flush_loop.simps) (auto simp: restrict_map_def)
next
  case (Cons a as)
  then obtain e where e: "elems w a = Some e" "a \<noteq> NULL" "next_ptr e = hd0 as"
    by (auto split: option.splits if_splits)
  define w1 where "w1 = (if has_dealloc e then call_dealloc (data_ptr e) w else w)
    \<lparr>elems := (elems w)(a := None)\<rparr>"
  from Cons.prems have "chain (elems w1) a as NULL"
    by (simp add: w1_def call_dealloc_def)
  with Cons.prems Cons.IH [of w1 a "s\<lparr>p_head := next_ptr e\<rparr>"] e obtain w' where w':
    "flush_loop (s\<lparr>p_head := next_ptr e\<rparr>) w1 = Some (s\<lparr>p_head := NULL\<rparr>, w')"
    "elems w' = (elems w1) |` (- set as)"
    "deallocs w' = deallocs w1 @ map fst (filter snd (map (item_at w1) as))"
    by auto
  have "flush_loop s w = flush_loop (s\<lparr>p_head := next_ptr e\<rparr>) w1"
    using Cons.prems e by (subst flush_loop.simps) (auto simp: mem_defs w1_def call_dealloc_def)
  moreover have "map (item_at w1) as = map (item_at w) as"
    using Cons.prems by (auto simp: w1_def call_dealloc_def item_at_def)
  moreover have "item_at w a = (data_ptr e, has_dealloc e)"
    using e by (simp add: item_at_def)
  moreover have "elems w1 = (elems w)(a := None)"
    "deallocs w1 = deallocs w @ (if has_dealloc e then [data_ptr e] else [])"
    by (simp_all add: w1_def call_dealloc_def)
  moreover from this w'(2) have "elems w' = (elems w) |` (- set (a # as))"
    by (auto simp: restrict_map_def fun_eq_iff)
  ultimately show ?case
    using w'(1,3) by (simp del: map_eq_conv)
qed

lemma linked_list_flush_rep:
  assumes "ll_rep w as"
  shows "\<exists>w'. linked_list_flush w = Some (eLINKED_LIST_SUCCESS, w') \<and>
    ll_rep w' [] \<and> elems w' = (elems w) |` (- set as) \<and>
    deallocs w' = deallocs w @ map fst (filter snd (map (item_at w) as))"
proof -
  let ?s = "\<lparr>p_head = hd0 as, p_tail = last0 as\<rparr>"
  from assms obtain w' where "flush_loop ?s w = Some (?s\<lparr>p_head := NULL\<rparr>, w')"
    "elems w' = (elems w) |` (- set as)"
    "deallocs w' = deallocs w @ map fst (filter snd (map (item_at w) as))"
    using flush_loop_rep [of w NULL as ?s] by (auto simp: ll_rep_def)
  with assms show ?thesis
    by (auto simp: linked_list_flush_def ll_rep_def)
qed

lemma unlink_elem_rep:
  assumes rep: "ll_rep w (xs @ a # ys)" and e: "elems w a = Some e"
  shows "\<exists>s w'.
    unlink_elem out a \<lparr>p_head = hd0 (xs @ a # ys), p_tail = last0 (xs @ a # ys)\<rparr> w = Some (s, w') \<and>
    ll_rep (w'\<lparr>list_data := Some s\<rparr>) (xs @ ys) \<and>
    (\<forall>b\<in>set (xs @ ys). item_at w' b = item_at w b) \<and> elems w' a = None \<and>
    deallocs w' = deallocs w @ (if \<not> out \<and> has_dealloc e then [data_ptr e] else [])"
proof -
  have nn: "NULL \<notin> set (xs @ a # ys)" using rep by (rule ll_rep_not_NULL)
  show ?thesis
  proof (cases xs rule: rev_cases)
    case Nil
    with rep e nn show ?thesis
      by (cases ys) (auto simp: unlink_elem_def ll_rep_def item_at_def mem_defs call_dealloc_def
        split: option.splits)
  next
    case (snoc zs z)
    with rep e nn show ?thesis
      by (cases ys) (auto simp: unlink_elem_def ll_rep_def item_at_def mem_defs call_dealloc_def
        chain_append split: option.splits)
  qed
qed

lemma search_loop_skip:
  assumes "chain (elems w) p (xs @ ys) NULL" "\<forall>x\<in>set xs. \<not> eq (fst (item_at w x))"
  shows "search_loop eq out rm (hd0 (xs @ ys)) s w = search_loop eq out rm (hd0 ys) s w"
  using assms
proof (induction xs arbitrary: p)
  case (Cons x xs)
  then obtain e where e: "elems w x = Some e"
    by (cases "elems w x") auto
  with Cons.prems have "x \<noteq> NULL" "next_ptr e = hd0 (xs @ ys)" "\<not> eq (data_ptr e)"
    "chain (elems w) x (xs @ ys) NULL"
    by (auto simp: item_at_def split: if_splits)
  moreover from this(4) Cons.prems(2)
  have "search_loop eq out rm (hd0 (xs @ ys)) s w = search_loop eq out rm (hd0 ys) s w"
    by (intro Cons.IH [of x]) simp_all
  ultimately show ?case
    using e by (subst search_loop.simps) (simp add: mem_defs)
qed simp

lemma search_loop_NULL [simp]: "search_loop eq out rm NULL s w = Some (None, s, w)"
  by (subst search_loop.simps) simp

section \<open>Refinement of a queue of data pointers\<close>

lemma ll_abs_list_data: "ll_abs w xs \<Longrightarrow> \<exists>s. list_data w = Some s"
  by (auto simp: ll_abs_def ll_rep_def)

lemma linked_list_init_abs:
  "ll_abs (snd (linked_list_init True True w)) []"
  by (auto simp: linked_list_init_def ll_abs_def ll_rep_def)

lemma linked_list_add_abs:
  assumes "ll_abs w xs" "a \<noteq> NULL" "elems w a = None" "d \<noteq> NULL"
  shows "\<exists>w'. linked_list_add a d f w = Some (eLINKED_LIST_SUCCESS, w') \<and>
    ll_abs w' ((d, f) # xs) \<and> dom (elems w') = insert a (dom (elems w)) \<and> deallocs w' = deallocs w"
proof -
  from assms(1) obtain as where as: "ll_rep w as" "map (item_at w) as = xs" "NULL \<notin> fst ` set xs"
    by (auto simp: ll_abs_def)
  from linked_list_add_rep [OF as(1) assms(2-4), of f] obtain w' where w':
    "linked_list_add a d f w = Some (eLINKED_LIST_SUCCESS, w')" "ll_rep w' (a # as)"
    "item_at w' a = (d, f)" "\<forall>b\<in>set as. item_at w' b = item_at w b" "deallocs w' = deallocs w"
    by auto
  moreover have "dom (elems w') = insert a (dom (elems w))"
    using w'(1) assms(2-4)
    by (auto simp: linked_list_add_def mem_defs Let_def split: option.splits if_splits)
  moreover have "ll_abs w' ((d, f) # xs)"
    using w' as assms(4) by (auto simp: ll_abs_def intro!: exI [of _ "a # as"])
  ultimately show ?thesis by auto
qed

lemma linked_list_remove_abs:
  assumes "ll_abs w (xs @ [(d, f)])"
  shows "\<exists>w'. linked_list_remove True w = Some (eLINKED_LIST_SUCCESS, Some d, w') \<and>
    ll_abs w' xs \<and> dom (elems w') \<subseteq> dom (elems w) \<and> deallocs w' = deallocs w"
proof -
  from assms obtain as' where as': "ll_rep w as'" "map (item_at w) as' = xs @ [(d, f)]"
    "NULL \<notin> fst ` set (xs @ [(d, f)])" unfolding ll_abs_def by blast
  then obtain as a where as: "as' = as @ [a]" "map (item_at w) as = xs" "item_at w a = (d, f)"
    by (cases as' rule: rev_cases) auto
  from linked_list_remove_rep [of w as a] as'(1) as obtain w' where w':
    "linked_list_remove True w = Some (eLINKED_LIST_SUCCESS, Some d, w')" "ll_rep w' as"
    "\<forall>b\<in>set as. item_at w' b = item_at w b" "deallocs w' = deallocs w"
    by auto
  moreover have "dom (elems w') \<subseteq> dom (elems w)"
    using w'(1) by (auto simp: linked_list_remove_def mem_defs Let_def bind_eq_Some_conv
      split: option.splits if_splits)
  moreover have "ll_abs w' xs"
    using w' as as'(3) by (auto simp: ll_abs_def intro!: exI [of _ as])
  ultimately show ?thesis by auto
qed

lemma linked_list_remove_abs_empty:
  "ll_abs w [] \<Longrightarrow> linked_list_remove True w = Some (eLINKED_LIST_UNAVAILABLE_RESOURCE, None, w)"
  by (auto simp: ll_abs_def ll_rep_def linked_list_remove_def)

lemma linked_list_empty_abs: "ll_abs w xs \<Longrightarrow> linked_list_empty w = (if xs = [] then 1 else 0)"
  by (auto simp: ll_abs_def ll_rep_def linked_list_empty_def hd0_NULL_iff)

lemma linked_list_flush_abs:
  assumes "ll_abs w xs"
  shows "\<exists>w'. linked_list_flush w = Some (eLINKED_LIST_SUCCESS, w') \<and> ll_abs w' [] \<and>
    dom (elems w') \<subseteq> dom (elems w) \<and> deallocs w' = deallocs w @ map fst (filter snd xs)"
proof -
  from assms obtain as where as: "ll_rep w as" "map (item_at w) as = xs"
    unfolding ll_abs_def by blast
  from linked_list_flush_rep [OF as(1)] as(2) show ?thesis
    by (auto simp: ll_abs_def restrict_map_def split: if_splits)
qed

lemma linked_list_search_miss:
  assumes "ll_abs w xs" "xs \<noteq> []" "find (\<lambda>x. eq (fst x)) xs = None"
  shows "linked_list_search out (Some eq) rm w =
    Some (eLINKED_LIST_SUCCESS, (if out then Some NULL else None), w)"
proof -
  from assms(1) obtain as where as: "ll_rep w as" "map (item_at w) as = xs"
    unfolding ll_abs_def by blast
  let ?s = "\<lparr>p_head = hd0 as, p_tail = last0 as\<rparr>"
  from assms(3) have "\<forall>x\<in>set xs. \<not> eq (fst x)"
    by (rule find_None_all)
  with as(2) have "\<forall>x\<in>set as. \<not> eq (fst (item_at w x))" by auto
  with as(1) have "search_loop eq out rm (hd0 as) ?s w = Some (None, ?s, w)"
    using search_loop_skip [of w NULL as "[]" eq out rm ?s] by (simp add: ll_rep_def)
  with as assms(2) show ?thesis
    by (auto simp: linked_list_search_def ll_rep_def last0_NULL_iff)
qed

lemma linked_list_search_hit:
  assumes abs: "ll_abs w (ys @ (d, f) # zs)" and hit: "eq d" "\<forall>y\<in>set ys. \<not> eq (fst y)"
  shows "\<exists>w'. linked_list_search out (Some eq) rm w =
      Some (eLINKED_LIST_SUCCESS, (if out then Some d else None), w') \<and>
    ll_abs w' (if rm then ys @ zs else ys @ (d, f) # zs) \<and>
    deallocs w' = deallocs w @ (if rm \<and> \<not> out \<and> f then [d] else [])"
proof -
  from abs obtain as' where as': "ll_rep w as'" "map (item_at w) as' = ys @ (d, f) # zs"
    "NULL \<notin> fst ` set (ys @ (d, f) # zs)" unfolding ll_abs_def by blast
  then obtain xs a bs where as: "as' = xs @ a # bs" "map (item_at w) xs = ys"
    "item_at w a = (d, f)" "map (item_at w) bs = zs"
    by (auto simp: map_eq_append_conv)
  from as'(1) as obtain e where e: "elems w a = Some e" "data_ptr e = d" "has_dealloc e = f"
    "a \<noteq> NULL"
    by (cases "elems w a") (auto simp: ll_rep_def chain_append item_at_def)
  let ?s = "\<lparr>p_head = hd0 as', p_tail = last0 as'\<rparr>"
  have loop: "search_loop eq out rm (hd0 as') ?s w = search_loop eq out rm a ?s w"
    using search_loop_skip [of w NULL xs "a # bs" eq out rm ?s] as as'(1) hit(2)
    by (auto simp: ll_rep_def)
  have "chain (elems w) NULL as' NULL" "as' \<noteq> []"
    using as'(1) as(1) by (simp_all add: ll_rep_def)
  then have tail: "list_data w = Some ?s" "p_tail ?s \<noteq> NULL"
    using as'(1) by (simp_all add: ll_rep_def last0_NULL_iff)
  have step: "search_loop eq out rm a ?s w =
      (if rm then do { (s, w1) \<leftarrow> unlink_elem out a ?s w; Some (Some d, s, w1) }
       else Some (Some d, ?s, w))"
    using e hit(1) by (subst search_loop.simps) (simp add: load_elem_def)
  show ?thesis
  proof (cases rm)
    case False
    then have "linked_list_search out (Some eq) rm w =
        Some (eLINKED_LIST_SUCCESS, (if out then Some d else None), w)"
      using loop step tail by (simp add: linked_list_search_def)
    with False abs show ?thesis by simp
  next
    case True
    from unlink_elem_rep [of w xs a bs e out] as as'(1) e obtain s w' where u:
      "unlink_elem out a ?s w = Some (s, w')" "ll_rep (w'\<lparr>list_data := Some s\<rparr>) (xs @ bs)"
      "\<forall>b\<in>set (xs @ bs). item_at w' b = item_at w b"
      "deallocs w' = deallocs w @ (if \<not> out \<and> has_dealloc e then [data_ptr e] else [])"
      by auto
    have "map (item_at (w'\<lparr>list_data := Some s\<rparr>)) (xs @ bs) = ys @ zs"
      using u(3) as by (auto simp: item_at_def)
    with u(2) as'(3) have "ll_abs (w'\<lparr>list_data := Some s\<rparr>) (ys @ zs)"
      by (auto simp: ll_abs_def intro!: exI [of _ "xs @ bs"])
    moreover have "linked_list_search out (Some eq) rm w = Some (eLINKED_LIST_SUCCESS,
        (if out then Some d else None), w'\<lparr>list_data := Some s\<rparr>)"
      using True loop step tail u(1) by (simp add: linked_list_search_def)
    ultimately show ?thesis using True u(4) e by auto
  qed
qed

section \<open>The list as a first-in first-out store\<close>

definition ll_enq :: "bool \<Rightarrow> addr \<Rightarrow> addr \<Rightarrow> ll_world \<Rightarrow> ll_world option" where
  "ll_enq f a d w = (case linked_list_add a d f w of
     Some (eLINKED_LIST_SUCCESS, w') \<Rightarrow> Some w' | _ \<Rightarrow> None)"

definition ll_deq :: "ll_world \<Rightarrow> (addr option \<times> ll_world) option" where
  "ll_deq w = (case linked_list_remove True w of
     Some (eLINKED_LIST_SUCCESS, r, w') \<Rightarrow> Some (r, w')
   | Some (eLINKED_LIST_UNAVAILABLE_RESOURCE, _, w') \<Rightarrow> Some (None, w')
   | _ \<Rightarrow> None)"

definition ll_fifo :: "bool \<Rightarrow> ll_world \<Rightarrow> addr list \<Rightarrow> bool" where
  "ll_fifo f w ds \<longleftrightarrow> ll_abs w (rev (map (\<lambda>d. (d, f)) ds))"

interpretation ll: fifo_store "ll_fifo f" "\<lambda>w. dom (elems w)" "\<lambda>d. d \<noteq> NULL" "ll_enq f" ll_deq
proof
  fix w xs x and a :: addr
  assume "ll_fifo f w xs" "x \<noteq> NULL" "a \<noteq> NULL" "a \<notin> dom (elems w)"
  then show "\<exists>w'. ll_enq f a x w = Some w' \<and> ll_fifo f w' (xs @ [x]) \<and>
      dom (elems w') = insert a (dom (elems w))"
    using linked_list_add_abs [of w "rev (map (\<lambda>d. (d, f)) xs)" a x f]
    by (fastforce simp: ll_enq_def ll_fifo_def domIff)
next
  fix w x xs
  assume "ll_fifo f w (x # xs)"
  then show "\<exists>w'. ll_deq w = Some (Some x, w') \<and> ll_fifo f w' xs"
    using linked_list_remove_abs [of w "rev (map (\<lambda>d. (d, f)) xs)" x f]
    by (auto simp: ll_deq_def ll_fifo_def)
next
  fix w
  assume "ll_fifo f w []"
  then show "ll_deq w = Some (None, w)"
    using linked_list_remove_abs_empty [of w] by (auto simp: ll_deq_def ll_fifo_def)
qed

section \<open>Properties\<close>

definition empty_list_world :: ll_world where
  "empty_list_world = \<lparr>list_data = Some \<lparr>p_head = NULL, p_tail = NULL\<rparr>, elems = Map.empty, deallocs = []\<rparr>"

lemma ll_rep_empty_world: "ll_rep empty_list_world []"
  by (simp add: ll_rep_def empty_list_world_def)

lemma ll_fifo_empty_world: "ll_fifo f empty_list_world []"
  using ll_rep_empty_world by (auto simp: ll_fifo_def ll_abs_def)

text \<open>
  items added to an empty linked list are removed in the order they were added, each exactly
  once and without a memory fault, and the list is empty afterwards.
\<close>

theorem linked_list_fifo:
  assumes "ll_fifo f w []" "\<forall>d\<in>snd ` set ps. d \<noteq> NULL" "distinct (map fst ps)"
    "NULL \<notin> fst ` set ps" "fst ` set ps \<inter> dom (elems w) = {}"
  shows "\<exists>w1 w2. enq_all (ll_enq f) ps w = Some w1 \<and>
    deq_n ll_deq (length ps) w1 = Some (map snd ps, w2) \<and> ll_fifo f w2 []"
  using assms by (rule ll.enq_then_deq)

theorem linked_list_fifo_witness:
  "\<exists>w1 w2. enq_all (ll_enq True) [(16, 7), (32, 5), (48, 7)] empty_list_world = Some w1 \<and>
    deq_n ll_deq 3 w1 = Some ([7, 5, 7], w2) \<and> ll_fifo True w2 []"
  using linked_list_fifo [OF ll_fifo_empty_world, of "[(16, 7), (32, 5), (48, 7)]" True]
  by (simp add: empty_list_world_def numeral_3_eq_3)

text \<open>
  searching a non-empty list finds the first (newest) matching element; when asked to, it
  unlinks exactly that element, keeps the rest in order, and runs its \<open>dealloc\<close> exactly when the
  data pointer is not handed to the caller.
\<close>

theorem linked_list_search_first_match:
  assumes "ll_abs w xs" "xs \<noteq> []"
  shows "\<exists>w'. linked_list_search out (Some eq) rm w =
      Some (eLINKED_LIST_SUCCESS,
        (if out then Some (case find (\<lambda>x. eq (fst x)) xs of None \<Rightarrow> NULL | Some x \<Rightarrow> fst x) else None), w') \<and>
    ll_abs w' (if rm then remove_first (\<lambda>x. eq (fst x)) xs else xs) \<and>
    deallocs w' = deallocs w @ (case find (\<lambda>x. eq (fst x)) xs of None \<Rightarrow> []
      | Some (d, f) \<Rightarrow> if rm \<and> \<not> out \<and> f then [d] else [])"
proof (cases "find (\<lambda>x. eq (fst x)) xs")
  case None
  then have "remove_first (\<lambda>x. eq (fst x)) xs = xs"
    by (intro remove_first_none find_None_all)
  with None assms show ?thesis by (simp add: linked_list_search_miss)
next
  case (Some x)
  then obtain ys zs where s: "xs = ys @ x # zs" "eq (fst x)" "\<forall>y\<in>set ys. \<not> eq (fst y)"
    by (rule find_split)
  obtain d f where x: "x = (d, f)" by (cases x)
  from s(2,3) have "remove_first (\<lambda>x. eq (fst x)) xs = ys @ zs"
    unfolding s(1) by (intro remove_first_split) auto
  with Some s x assms linked_list_search_hit [of w ys d f zs eq out rm] show ?thesis by auto
qed

lemma search_example_world:
  "ll_abs \<lparr>list_data = Some \<lparr>p_head = 8, p_tail = 4\<rparr>,
     elems = [4 \<mapsto> \<lparr>next_ptr = 0, prev_ptr = 8, data_ptr = 50, has_dealloc = True\<rparr>,
              8 \<mapsto> \<lparr>next_ptr = 4, prev_ptr = 0, data_ptr = 60, has_dealloc = True\<rparr>], deallocs = []\<rparr>
   [(60, True), (50, True)]"
  by (auto simp: ll_abs_def ll_rep_def item_at_def intro!: exI [of _ "[8, 4]"])

theorem linked_list_search_first_match_witness:
  "\<exists>w'. linked_list_search False (Some (\<lambda>d. d = 50)) True
       \<lparr>list_data = Some \<lparr>p_head = 8, p_tail = 4\<rparr>,
         elems = [4 \<mapsto> \<lparr>next_ptr = 0, prev_ptr = 8, data_ptr = 50, has_dealloc = True\<rparr>,
                  8 \<mapsto> \<lparr>next_ptr = 4, prev_ptr = 0, data_ptr = 60, has_dealloc = True\<rparr>], deallocs = []\<rparr> =
     Some (eLINKED_LIST_SUCCESS, None, w') \<and> ll_abs w' [(60, True)] \<and> deallocs w' = [50]"
  using linked_list_search_first_match
    [OF search_example_world, of False "\<lambda>d. d = 50" True] by simp

end
