(* ===== verification/MsgQueue.thy ===== *)
theory MsgQueue
  imports LinkedList
begin

text \<open>
  The blocking message queue of \<open>gps/utils/msg_q.c\<close> and the message task of
  \<open>gps/utils/MsgTask.cpp\<close> that reads from it. The mutex is a field of the queue: an operation
  that finds it held does not proceed (\<open>None\<close>), so that an operation that forgot to release it
  would block every later one. Waiting on the condition variable is a result of its own:
  \<open>Waiting\<close> carries the queue as the waiter leaves it, with the mutex released.
\<close>

section \<open>Data\<close>

text \<open>
  \<open>eMSG_Q_OTHER\<close> is a value of the C enum's type that is none of its enumerators:
  \<open>msg_q_rmv\<close> casts \<open>eLINKED_LIST_EMPTY\<close> (-6) to it.
\<close>

datatype msq_q_err_type =
  eMSG_Q_SUCCESS | eMSG_Q_FAILURE_GENERAL | eMSG_Q_INVALID_PARAMETER | eMSG_Q_INVALID_HANDLE
| eMSG_Q_UNAVAILABLE_RESOURCE | eMSG_Q_INSUFFICIENT_BUFFER | eMSG_Q_OTHER int

record msg_q =
  msg_list :: ll_world
  list_mutex :: bool
  unblocked :: int

datatype rcv_result = Received msq_q_err_type "addr option" msg_q | Waiting msg_q

fun convert_linked_list_err_type :: "linked_list_err_type \<Rightarrow> msq_q_err_type" where
  "convert_linked_list_err_type eLINKED_LIST_SUCCESS = eMSG_Q_SUCCESS"
| "convert_linked_list_err_type eLINKED_LIST_INVALID_PARAMETER = eMSG_Q_INVALID_PARAMETER"
| "convert_linked_list_err_type eLINKED_LIST_INVALID_HANDLE = eMSG_Q_INVALID_HANDLE"
| "convert_linked_list_err_type eLINKED_LIST_UNAVAILABLE_RESOURCE = eMSG_Q_UNAVAILABLE_RESOURCE"
| "convert_linked_list_err_type eLINKED_LIST_INSUFFICIENT_BUFFER = eMSG_Q_INSUFFICIENT_BUFFER"
| "convert_linked_list_err_type _ = eMSG_Q_FAILURE_GENERAL"

definition mutex_lock :: "msg_q \<Rightarrow> msg_q option" where
  "mutex_lock q = (if list_mutex q then None else Some (q\<lparr>list_mutex := True\<rparr>))"

definition mutex_unlock :: "msg_q \<Rightarrow> msg_q" where
  "mutex_unlock q = q\<lparr>list_mutex := False\<rparr>"

section \<open>Operations\<close>

text \<open>
  The handle a queue operation gets is \<open>None\<close> when it is \<open>NULL\<close>. \<open>msg_q_init\<close> takes what its
  allocations and the pthread initialisers return, and the memory the list lives in.
\<close>

definition msg_q_init ::
  "bool \<Rightarrow> bool \<Rightarrow> bool \<Rightarrow> bool \<Rightarrow> bool \<Rightarrow> ll_world \<Rightarrow> (msq_q_err_type \<times> msg_q option) option" where
  "msg_q_init out q_mem list_mem mutex_ok cond_ok w =
     (if \<not> out then Some (eMSG_Q_INVALID_PARAMETER, None)
      else if \<not> q_mem then Some (eMSG_Q_FAILURE_GENERAL, None)
      else
        let (rv, w1) = linked_list_init True list_mem w in
        if rv \<noteq> eLINKED_LIST_SUCCESS then Some (eMSG_Q_FAILURE_GENERAL, None)
        else if \<not> mutex_ok
        then do { _ \<leftarrow> linked_list_destroy True w1; Some (eMSG_Q_FAILURE_GENERAL, None) }
        else if \<not> cond_ok
        then do { _ \<leftarrow> linked_list_destroy True w1; Some (eMSG_Q_FAILURE_GENERAL, None) }
        else Some (eMSG_Q_SUCCESS, Some \<lparr>msg_list = w1, list_mutex = False, unblocked = 0\<rparr>))"

definition msg_q_init2 ::
  "bool \<Rightarrow> bool \<Rightarrow> bool \<Rightarrow> bool \<Rightarrow> ll_world \<Rightarrow> msg_q option option" where
  "msg_q_init2 q_mem list_mem mutex_ok cond_ok w = do {
     (rv, q) \<leftarrow> msg_q_init True q_mem list_mem mutex_ok cond_ok w;
     Some (if eMSG_Q_SUCCESS \<noteq> rv then None else q)
   }"

text \<open>
  \<open>msg_q_destroy\<close> dereferences \<open>*msg_q_data\<close> with no check, so a \<open>NULL\<close> queue faults. What is
  left is the memory of the list (for the \<open>dealloc\<close> calls made) and a \<open>NULL\<close> handle.
\<close>

definition msg_q_destroy :: "bool \<Rightarrow> msg_q option \<Rightarrow> (msq_q_err_type \<times> msg_q option \<times> ll_world option) option" where
  "msg_q_destroy out h =
     (if \<not> out then Some (eMSG_Q_INVALID_HANDLE, h, None)
      else case h of None \<Rightarrow> None
        | Some q \<Rightarrow> do {
            (_, w) \<leftarrow> linked_list_destroy True (msg_list q);
            Some (eMSG_Q_SUCCESS, None, Some w)
          })"

definition msg_q_snd ::
  "msg_q option \<Rightarrow> addr \<Rightarrow> addr \<Rightarrow> bool \<Rightarrow> (msq_q_err_type \<times> msg_q option) option" where
  "msg_q_snd h elem msg_obj dealloc =
     (case h of
        None \<Rightarrow> Some (eMSG_Q_INVALID_HANDLE, h)
      | Some q0 \<Rightarrow>
          if msg_obj = NULL then Some (eMSG_Q_INVALID_PARAMETER, h)
          else do {
            q \<leftarrow> mutex_lock q0;
            (if unblocked q \<noteq> 0
             then Some (eMSG_Q_UNAVAILABLE_RESOURCE, Some (mutex_unlock q))
             else do {
               (rv, w) \<leftarrow> linked_list_add elem msg_obj dealloc (msg_list q);
               Some (convert_linked_list_err_type rv, Some (mutex_unlock (q\<lparr>msg_list := w\<rparr>)))
             })
          })"

text \<open>
  The wait loop of \<open>msg_q_rcv\<close> and what follows it, with the mutex held. \<open>pthread_cond_wait\<close>
  releases the mutex; when the waiter is woken it holds the mutex again and tests the loop
  condition again, which is \<open>msg_q_rcv_resume\<close>.
\<close>

definition rcv_locked :: "msg_q \<Rightarrow> rcv_result option" where
  "rcv_locked q =
     (if linked_list_empty (msg_list q) \<noteq> 0 \<and> unblocked q = 0
      then Some (Waiting (mutex_unlock q))
      else do {
        (rv, r, w) \<leftarrow> linked_list_remove True (msg_list q);
        Some (Received (convert_linked_list_err_type rv) r (mutex_unlock (q\<lparr>msg_list := w\<rparr>)))
      })"

definition msg_q_rcv_resume :: "msg_q \<Rightarrow> rcv_result option" where
  "msg_q_rcv_resume q0 = do { q \<leftarrow> mutex_lock q0; rcv_locked q }"

text \<open>\<open>Inl\<close>: refused before the queue is looked at.\<close>

definition msg_q_rcv :: "msg_q option \<Rightarrow> bool \<Rightarrow> (msq_q_err_type + rcv_result) option" where
  "msg_q_rcv h out =
     (case h of
        None \<Rightarrow> Some (Inl eMSG_Q_INVALID_HANDLE)
      | Some q0 \<Rightarrow>
          if \<not> out then Some (Inl eMSG_Q_INVALID_PARAMETER)
          else do {
            q \<leftarrow> mutex_lock q0;
            (if unblocked q \<noteq> 0
             then Some (Inr (Received eMSG_Q_UNAVAILABLE_RESOURCE None (mutex_unlock q)))
             else do { r \<leftarrow> rcv_locked q; Some (Inr r) })
          })"

definition msg_q_rmv :: "msg_q option \<Rightarrow> bool \<Rightarrow> (msq_q_err_type \<times> addr option \<times> msg_q option) option" where
  "msg_q_rmv h out =
     (case h of
        None \<Rightarrow> Some (eMSG_Q_INVALID_HANDLE, None, h)
      | Some q0 \<Rightarrow>
          if \<not> out then Some (eMSG_Q_INVALID_PARAMETER, None, h)
          else do {
            q \<leftarrow> mutex_lock q0;
            (if unblocked q \<noteq> 0
             then Some (eMSG_Q_UNAVAILABLE_RESOURCE, None, Some (mutex_unlock q))
             else if linked_list_empty (msg_list q) \<noteq> 0
             then Some (eMSG_Q_OTHER (-6), None, Some (mutex_unlock q))
             else do {
               (rv, r, w) \<leftarrow> linked_list_remove True (msg_list q);
               Some (convert_linked_list_err_type rv, r, Some (mutex_unlock (q\<lparr>msg_list := w\<rparr>)))
             })
          })"

definition msg_q_flush :: "msg_q option \<Rightarrow> (msq_q_err_type \<times> msg_q option) option" where
  "msg_q_flush h =
     (case h of
        None \<Rightarrow> Some (eMSG_Q_INVALID_HANDLE, h)
      | Some q0 \<Rightarrow> do {
          q \<leftarrow> mutex_lock q0;
          (rv, w) \<leftarrow> linked_list_flush (msg_list q);
          Some (convert_linked_list_err_type rv, Some (mutex_unlock (q\<lparr>msg_list := w\<rparr>)))
        })"

definition msg_q_unblock :: "msg_q option \<Rightarrow> (msq_q_err_type \<times> msg_q option) option" where
  "msg_q_unblock h =
     (case h of
        None \<Rightarrow> Some (eMSG_Q_INVALID_HANDLE, h)
      | Some q0 \<Rightarrow> do {
          q \<leftarrow> mutex_lock q0;
          (if unblocked q \<noteq> 0
           then Some (eMSG_Q_UNAVAILABLE_RESOURCE, Some (mutex_unlock q))
           else Some (eMSG_Q_SUCCESS, Some (mutex_unlock (q\<lparr>unblocked := 1\<rparr>))))
        })"

section \<open>The message task\<close>

text \<open>
  \<open>MTRunnable::run\<close>: receive a message, process it, delete it. The result is whether the
  thread calls \<open>run\<close> again and the message it processed; \<open>None\<close> of the inner option means
  that the thread is blocked in \<open>msg_q_rcv\<close>.
\<close>

definition mt_run :: "msg_q option \<Rightarrow> ((bool \<times> addr option \<times> msg_q option) option) option" where
  "mt_run h = do {
     res \<leftarrow> msg_q_rcv h True;
     (case res of
        Inl _ \<Rightarrow> Some (Some (False, None, h))
      | Inr (Waiting q) \<Rightarrow> Some None
      | Inr (Received rv r q) \<Rightarrow>
          if rv \<noteq> eMSG_Q_SUCCESS then Some (Some (False, None, Some q))
          else Some (Some (True, r, Some q)))
   }"

text \<open>
  The thread's \<open>while (run())\<close> loop for at most \<open>n\<close> calls, with the messages processed; the
  flag says that the thread has ended.
\<close>

fun mt_loop :: "nat \<Rightarrow> msg_q option \<Rightarrow> (addr list \<times> bool \<times> msg_q option) option" where
  "mt_loop 0 h = Some ([], False, h)"
| "mt_loop (Suc n) h = do {
     r \<leftarrow> mt_run h;
     (case r of
        None \<Rightarrow> Some ([], False, h)
      | Some (False, _, h1) \<Rightarrow> Some ([], True, h1)
      | Some (True, m, h1) \<Rightarrow> do {
          (ms, fin, h2) \<leftarrow> mt_loop n h1;
          Some ((case m of None \<Rightarrow> ms | Some x \<Rightarrow> x # ms), fin, h2)
        })
   }"

definition mt_interrupt :: "msg_q option \<Rightarrow> msg_q option option" where
  "mt_interrupt h = map_option snd (msg_q_unblock h)"

text \<open>\<open>MsgTask::sendMsg\<close> without delay: a \<open>NULL\<close> message is only logged.\<close>

definition sendMsg :: "msg_q option \<Rightarrow> addr \<Rightarrow> addr \<Rightarrow> msg_q option option" where
  "sendMsg h elem msg = (if msg = NULL then Some h else map_option snd (msg_q_snd h elem msg True))"

definition mt_destroy :: "msg_q option \<Rightarrow> ll_world option option" where
  "mt_destroy h = do {
     (_, h1) \<leftarrow> msg_q_flush h;
     (_, _, w) \<leftarrow> msg_q_destroy True h1;
     Some w
   }"

section \<open>The queue as a first-in first-out store\<close>

definition mq_rep :: "msg_q \<Rightarrow> addr list \<Rightarrow> bool" where
  "mq_rep q ds \<longleftrightarrow> \<not> list_mutex q \<and> unblocked q = 0 \<and> ll_fifo True (msg_list q) ds"

definition mq_enq :: "addr \<Rightarrow> addr \<Rightarrow> msg_q \<Rightarrow> msg_q option" where
  "mq_enq elem d q = do {
     (rv, h) \<leftarrow> msg_q_snd (Some q) elem d True;
     (if rv = eMSG_Q_SUCCESS then h else None)
   }"

definition mq_deq :: "msg_q \<Rightarrow> (addr option \<times> msg_q) option" where
  "mq_deq q = do {
     res \<leftarrow> msg_q_rcv (Some q) True;
     (case res of
        Inr (Received rv r q') \<Rightarrow> if rv = eMSG_Q_SUCCESS then Some (r, q') else None
      | Inr (Waiting q') \<Rightarrow> Some (None, q')
      | Inl _ \<Rightarrow> None)
   }"

lemmas mq_defs = msg_q_snd_def msg_q_rcv_def msg_q_rmv_def rcv_locked_def mutex_lock_def mutex_unlock_def

lemma ll_enq_Some: "ll_enq f a d w = Some w' \<longleftrightarrow> linked_list_add a d f w = Some (eLINKED_LIST_SUCCESS, w')"
  by (auto simp: ll_enq_def split: option.splits linked_list_err_type.splits)

lemma ll_fifo_empty: "ll_fifo f w ds \<Longrightarrow> linked_list_empty w = (if ds = [] then 1 else 0)"
  by (auto simp: ll_fifo_def linked_list_empty_abs)

lemma ll_fifo_remove:
  assumes "ll_fifo f w (d # ds)"
  shows "\<exists>w'. linked_list_remove True w = Some (eLINKED_LIST_SUCCESS, Some d, w') \<and> ll_fifo f w' ds"
  using assms linked_list_remove_abs [of w "rev (map (\<lambda>d. (d, f)) ds)" d f]
  by (auto simp: ll_fifo_def)

interpretation mq: fifo_store mq_rep "\<lambda>q. dom (elems (msg_list q))" "\<lambda>d. d \<noteq> NULL" mq_enq mq_deq
proof
  fix q ds d and a :: addr
  assume a: "mq_rep q ds" "d \<noteq> NULL" "a \<noteq> NULL" "a \<notin> dom (elems (msg_list q))"
  with ll.enq_law [of True "msg_list q" ds d a] obtain w' where
    "linked_list_add a d True (msg_list q) = Some (eLINKED_LIST_SUCCESS, w')"
    "ll_fifo True w' (ds @ [d])" "dom (elems w') = insert a (dom (elems (msg_list q)))"
    by (auto simp: mq_rep_def ll_enq_Some)
  with a show "\<exists>q'. mq_enq a d q = Some q' \<and> mq_rep q' (ds @ [d]) \<and>
      dom (elems (msg_list q')) = insert a (dom (elems (msg_list q)))"
    by (auto simp: mq_rep_def mq_enq_def mq_defs)
next
  fix q d ds
  assume a: "mq_rep q (d # ds)"
  then obtain w' where
    "linked_list_remove True (msg_list q) = Some (eLINKED_LIST_SUCCESS, Some d, w')"
    "ll_fifo True w' ds"
    using ll_fifo_remove [of True "msg_list q" d ds] by (auto simp: mq_rep_def)
  with a show "\<exists>q'. mq_deq q = Some (Some d, q') \<and> mq_rep q' ds"
    by (auto simp: mq_rep_def mq_deq_def mq_defs ll_fifo_empty)
next
  fix q
  assume "mq_rep q []"
  then show "mq_deq q = Some (None, q)"
    by (auto simp: mq_rep_def mq_deq_def mq_defs ll_fifo_empty)
qed

lemma mq_deq_Some:
  "mq_deq q = Some (Some d, q') \<Longrightarrow>
     msg_q_rcv (Some q) True = Some (Inr (Received eMSG_Q_SUCCESS (Some d) q'))"
  by (cases "msg_q_rcv (Some q) True")
    (auto simp: mq_deq_def split: sum.splits rcv_result.splits if_splits)

lemma mt_run_deq: "mq_deq q = Some (Some d, q') \<Longrightarrow> mt_run (Some q) = Some (Some (True, Some d, Some q'))"
  by (simp add: mt_run_def mq_deq_Some)

lemma mt_run_waits: "mq_rep q [] \<Longrightarrow> mt_run (Some q) = Some None"
  by (auto simp: mt_run_def mq_rep_def mq_defs ll_fifo_empty)

lemma mt_loop_drains:
  "mq_rep q ds \<Longrightarrow>
     \<exists>q'. mt_loop (Suc (length ds)) (Some q) = Some (ds, False, Some q') \<and> mq_rep q' []"
proof (induction ds arbitrary: q)
  case Nil
  then show ?case by (simp add: mt_run_waits)
next
  case (Cons d ds)
  then obtain q' where "mq_deq q = Some (Some d, q')" "mq_rep q' ds"
    using mq.deq_law by blast
  with Cons.IH [of q'] show ?case
    by (auto simp: mt_run_deq mt_loop.simps(2) [of "Suc (length ds)"] simp del: mt_loop.simps)
qed

section \<open>The mutex\<close>

text \<open>Whatever the list does, an operation that ends has released the mutex.\<close>

definition mutex_free :: "msg_q option \<Rightarrow> bool" where
  "mutex_free h \<longleftrightarrow> (case h of None \<Rightarrow> True | Some q \<Rightarrow> \<not> list_mutex q)"

definition rcv_free :: "rcv_result \<Rightarrow> bool" where
  "rcv_free r \<longleftrightarrow> (case r of Received _ _ q \<Rightarrow> \<not> list_mutex q | Waiting q \<Rightarrow> \<not> list_mutex q)"

lemma snd_releases: "mutex_free h \<Longrightarrow> msg_q_snd h a d f = Some (rv, h') \<Longrightarrow> mutex_free h'"
  by (auto simp: mutex_free_def mq_defs bind_eq_Some_conv split: option.splits if_splits)

lemma rcv_releases:
  "mutex_free h \<Longrightarrow> msg_q_rcv h out = Some (Inr r) \<Longrightarrow> rcv_free r"
  "msg_q_rcv_resume q = Some r \<Longrightarrow> rcv_free r"
  by (auto simp: mutex_free_def rcv_free_def mq_defs msg_q_rcv_resume_def bind_eq_Some_conv
      split: option.splits if_splits)

lemma rmv_releases: "mutex_free h \<Longrightarrow> msg_q_rmv h out = Some (rv, r, h') \<Longrightarrow> mutex_free h'"
  by (auto simp: mutex_free_def mq_defs bind_eq_Some_conv split: option.splits if_splits)

lemma flush_releases: "mutex_free h \<Longrightarrow> msg_q_flush h = Some (rv, h') \<Longrightarrow> mutex_free h'"
  by (auto simp: mutex_free_def msg_q_flush_def mutex_lock_def mutex_unlock_def bind_eq_Some_conv
      split: option.splits if_splits)

lemma unblock_releases: "mutex_free h \<Longrightarrow> msg_q_unblock h = Some (rv, h') \<Longrightarrow> mutex_free h'"
  by (auto simp: mutex_free_def msg_q_unblock_def mutex_lock_def mutex_unlock_def bind_eq_Some_conv
      split: option.splits if_splits)

section \<open>Properties\<close>

text \<open>
  C11: messages sent to a queue are processed by its task in the order they were sent, each
  exactly once, and the task then waits on an empty queue with the mutex released.
\<close>

theorem msg_task_processes_in_order:
  assumes "mq_rep q []" "\<forall>x\<in>snd ` set ps. x \<noteq> NULL" "distinct (map fst ps)" "NULL \<notin> fst ` set ps"
    "fst ` set ps \<inter> dom (elems (msg_list q)) = {}"
  shows "\<exists>q1 q2. enq_all mq_enq ps q = Some q1 \<and>
    mt_loop (length ps + 1) (Some q1) = Some (map snd ps, False, Some q2) \<and> mq_rep q2 []"
proof -
  from mq.enq_all_rep [OF assms] obtain q1 where "enq_all mq_enq ps q = Some q1"
    "mq_rep q1 (map snd ps)" by auto
  then show ?thesis using mt_loop_drains [of q1 "map snd ps"] by auto
qed

definition empty_queue :: msg_q where
  "empty_queue = \<lparr>msg_list = empty_list_world, list_mutex = False, unblocked = 0\<rparr>"

lemma mq_rep_empty_queue: "mq_rep empty_queue []"
  using ll_fifo_empty_world by (simp add: mq_rep_def empty_queue_def)

lemma msg_q_init_empty:
  "msg_q_init True True True True True (empty_list_world\<lparr>list_data := None\<rparr>) =
     Some (eMSG_Q_SUCCESS, Some empty_queue)"
  by (simp add: msg_q_init_def linked_list_init_def empty_queue_def empty_list_world_def)

theorem msg_task_processes_in_order_witness:
  "\<exists>q1 q2. enq_all mq_enq [(16, 7), (32, 5)] empty_queue = Some q1 \<and>
    mt_loop 3 (Some q1) = Some ([7, 5], False, Some q2) \<and> mq_rep q2 []"
  using msg_task_processes_in_order [OF mq_rep_empty_queue, of "[(16, 7), (32, 5)]"]
  by (simp add: empty_queue_def empty_list_world_def numeral_3_eq_3 del: mt_loop.simps)

text \<open>
  once a queue is unblocked it accepts and delivers nothing more: sending, receiving and
  removing report that the resource is unavailable and leave the queue as it is, and a task that
  was waiting on the empty queue ends when it is woken.
\<close>

theorem unblock_ends_the_queue:
  assumes "mq_rep q ds"
  shows "\<exists>q'. msg_q_unblock (Some q) = Some (eMSG_Q_SUCCESS, Some q') \<and>
    (\<forall>a d f. d \<noteq> NULL \<longrightarrow> msg_q_snd (Some q') a d f = Some (eMSG_Q_UNAVAILABLE_RESOURCE, Some q')) \<and>
    msg_q_rcv (Some q') True = Some (Inr (Received eMSG_Q_UNAVAILABLE_RESOURCE None q')) \<and>
    msg_q_rmv (Some q') True = Some (eMSG_Q_UNAVAILABLE_RESOURCE, None, Some q') \<and>
    mt_run (Some q') = Some (Some (False, None, Some q')) \<and>
    (ds = [] \<longrightarrow> msg_q_rcv_resume q' = Some (Received eMSG_Q_UNAVAILABLE_RESOURCE None q'))"
proof -
  let ?q = "q\<lparr>unblocked := 1\<rparr>"
  from assms have "msg_q_unblock (Some q) = Some (eMSG_Q_SUCCESS, Some ?q)"
    by (simp add: mq_rep_def msg_q_unblock_def mutex_lock_def mutex_unlock_def)
  moreover from assms
  have "ds = [] \<longrightarrow> msg_q_rcv_resume ?q = Some (Received eMSG_Q_UNAVAILABLE_RESOURCE None ?q)"
    using linked_list_remove_abs_empty [of "msg_list q"]
    by (auto simp: mq_rep_def msg_q_rcv_resume_def mq_defs ll_fifo_def)
  ultimately show ?thesis using assms
    by (auto simp: mq_rep_def mq_defs mt_run_def)
qed

theorem unblock_ends_the_queue_witness:
  "\<exists>q'. msg_q_unblock (Some empty_queue) = Some (eMSG_Q_SUCCESS, Some q') \<and>
    msg_q_rcv_resume q' = Some (Received eMSG_Q_UNAVAILABLE_RESOURCE None q') \<and>
    mt_run (Some q') = Some (Some (False, None, Some q'))"
  using unblock_ends_the_queue [OF mq_rep_empty_queue] by auto

text \<open>
  destroying a message task deallocates every message that was not delivered, each exactly
  once, newest first.
\<close>

theorem mt_destroy_deallocates_all:
  assumes "mq_rep q ds"
  shows "\<exists>w. mt_destroy (Some q) = Some (Some w) \<and> deallocs w = deallocs (msg_list q) @ rev ds \<and>
    list_data w = None"
proof -
  have ds: "map fst (filter snd (rev (map (\<lambda>d. (d, True)) ds))) = rev ds"
    by (induction ds) auto
  from assms have "ll_abs (msg_list q) (rev (map (\<lambda>d. (d, True)) ds))"
    by (simp add: mq_rep_def ll_fifo_def)
  from linked_list_flush_abs [OF this] ds obtain w where
    w: "linked_list_flush (msg_list q) = Some (eLINKED_LIST_SUCCESS, w)" "ll_abs w []"
      "deallocs w = deallocs (msg_list q) @ rev ds" by auto
  from linked_list_flush_abs [OF w(2)] obtain w' where
    "linked_list_flush w = Some (eLINKED_LIST_SUCCESS, w')" "deallocs w' = deallocs w" by auto
  with w assms show ?thesis
    by (auto simp: mt_destroy_def msg_q_flush_def msg_q_destroy_def linked_list_destroy_def
      mutex_lock_def mutex_unlock_def mq_rep_def)
qed

theorem mt_destroy_deallocates_all_witness:
  "\<exists>w. mt_destroy (Some empty_queue) = Some (Some w) \<and> deallocs w = []"
  using mt_destroy_deallocates_all [OF mq_rep_empty_queue]
  by (auto simp: empty_queue_def empty_list_world_def)

text \<open>every queue operation that ends, on whatever list, has released the mutex.\<close>

theorem queue_operations_release_mutex:
  assumes "mutex_free h"
  shows "(\<forall>a d f rv h'. msg_q_snd h a d f = Some (rv, h') \<longrightarrow> mutex_free h') \<and>
    (\<forall>out r. msg_q_rcv h out = Some (Inr r) \<longrightarrow> rcv_free r) \<and>
    (\<forall>out rv r h'. msg_q_rmv h out = Some (rv, r, h') \<longrightarrow> mutex_free h') \<and>
    (\<forall>rv h'. msg_q_flush h = Some (rv, h') \<longrightarrow> mutex_free h') \<and>
    (\<forall>rv h'. msg_q_unblock h = Some (rv, h') \<longrightarrow> mutex_free h')"
  by (intro conjI allI impI)
    (erule snd_releases [OF assms] rcv_releases(1) [OF assms] rmv_releases [OF assms]
      flush_releases [OF assms] unblock_releases [OF assms])+

theorem queue_operations_release_mutex_witness:
  "mutex_free (Some empty_queue) \<and>
   (\<exists>h'. msg_q_snd (Some empty_queue) 16 7 True = Some (eMSG_Q_SUCCESS, h') \<and> mutex_free h')"
proof -
  have free: "mutex_free (Some empty_queue)" by (simp add: mutex_free_def empty_queue_def)
  have "\<exists>h'. msg_q_snd (Some empty_queue) 16 7 True = Some (eMSG_Q_SUCCESS, h')"
    by (simp add: msg_q_snd_def mutex_lock_def empty_queue_def linked_list_add_def empty_list_world_def)
  then show ?thesis using free queue_operations_release_mutex [OF free] by blast
qed

end
