(* ===== verification/LocHeap.thy ===== *)
theory LocHeap
  imports Prelude "HOL-Library.Multiset"
begin

text \<open>
  The heap of \<open>gps/utils/LocHeap.cpp\<close>: a binary tree of nodes, each with the size of its subtree,
  ordered only vertically. The \<open>ranks\<close> method of the elements is virtual in the code and a
  parameter here. The interface \<open>rankable\<close> states what a ranking has to satisfy on the elements
  in use, \<open>ranked_queue\<close> what a container of ranked elements promises; the heap is shown to
  keep that promise for every ranking that is \<open>rankable\<close>.
\<close>

section \<open>Data and operations\<close>

text \<open>A \<open>LocHeapNode\<close> is its \<open>mSize\<close>, \<open>mLeft\<close>, \<open>mData\<close> and \<open>mRight\<close>.\<close>

datatype 'a heap_node = NULLNode | HNode int "'a heap_node" 'a "'a heap_node"

definition outRanks :: "('a \<Rightarrow> 'a \<Rightarrow> int) \<Rightarrow> 'a \<Rightarrow> 'a \<Rightarrow> bool" where
  "outRanks ranks x y \<longleftrightarrow> ranks x y > 0"

fun mSize :: "'a heap_node \<Rightarrow> int" where
  "mSize NULLNode = 0"
| "mSize (HNode n l d r) = n"

text \<open>
  \<open>LocHeapNode::push\<close> with a fresh node that holds \<open>x\<close>; the node with the higher ranking data
  stays on top. Pushing into no tree is what \<open>LocHeap::push\<close> does with a \<open>NULL\<close> \<open>mTree\<close>.
\<close>

fun node_push :: "('a \<Rightarrow> 'a \<Rightarrow> int) \<Rightarrow> 'a \<Rightarrow> 'a heap_node \<Rightarrow> 'a heap_node" where
  "node_push ranks x NULLNode = HNode 1 NULLNode x NULLNode"
| "node_push ranks x (HNode n l d r) =
     (let top = (if outRanks ranks x d then x else d);
          low = (if outRanks ranks x d then d else x)
      in if l = NULLNode then HNode (n + 1) (HNode 1 NULLNode low NULLNode) top r
         else if r = NULLNode then HNode (n + 1) l top (HNode 1 NULLNode low NULLNode)
         else if mSize l \<le> mSize r then HNode (n + 1) (node_push ranks low l) top r
         else HNode (n + 1) l top (node_push ranks low r))"

text \<open>
  \<open>LocHeapNode::pop\<close>: the data of the top sinks along the higher ranked children to a leaf,
  which is taken out. \<open>None\<close> is the dereference of a \<open>NULL\<close> top.
\<close>

fun node_pop :: "('a \<Rightarrow> 'a \<Rightarrow> int) \<Rightarrow> 'a heap_node \<Rightarrow> ('a \<times> 'a heap_node) option" where
  "node_pop ranks NULLNode = None"
| "node_pop ranks (HNode n NULLNode d NULLNode) = Some (d, NULLNode)"
| "node_pop ranks (HNode n NULLNode d (HNode m rl rd rr)) =
     map_option (\<lambda>(p, r'). (p, HNode (n - 1) NULLNode rd r')) (node_pop ranks (HNode m rl d rr))"
| "node_pop ranks (HNode n (HNode k ll ld lr) d NULLNode) =
     map_option (\<lambda>(p, l'). (p, HNode (n - 1) l' ld NULLNode)) (node_pop ranks (HNode k ll d lr))"
| "node_pop ranks (HNode n (HNode k ll ld lr) d (HNode m rl rd rr)) =
     (if outRanks ranks ld rd
      then map_option (\<lambda>(p, l'). (p, HNode (n - 1) l' ld (HNode m rl rd rr))) (node_pop ranks (HNode k ll d lr))
      else map_option (\<lambda>(p, r'). (p, HNode (n - 1) (HNode k ll ld lr) rd r')) (node_pop ranks (HNode m rl d rr)))"

text \<open>
  \<open>LocHeapNode::remove\<close>: the data removed, if found, and the tree. The result for no tree
  stands for the code's tests that a child exists. Elements are compared by address in the code.
\<close>

fun node_remove :: "('a \<Rightarrow> 'a \<Rightarrow> int) \<Rightarrow> 'a \<Rightarrow> 'a heap_node \<Rightarrow> 'a option \<times> 'a heap_node" where
  "node_remove ranks x NULLNode = (None, NULLNode)"
| "node_remove ranks x (HNode n l d r) =
     (if x = d then (case node_pop ranks (HNode n l d r) of None \<Rightarrow> (None, HNode n l d r)
                     | Some (p, t) \<Rightarrow> (Some p, t))
      else if \<not> outRanks ranks x d then
        (case node_remove ranks x l of
           (Some p, l') \<Rightarrow> (Some p, HNode (n - 1) l' d r)
         | (None, _) \<Rightarrow>
             (case node_remove ranks x r of
                (Some p, r') \<Rightarrow> (Some p, HNode (n - 1) l d r')
              | (None, _) \<Rightarrow> (None, HNode n l d r)))
      else (None, HNode n l d r))"

fun node_data :: "'a heap_node \<Rightarrow> 'a option" where
  "node_data NULLNode = None"
| "node_data (HNode n l d r) = Some d"

text \<open>\<open>LocHeapNode::checkNodes\<close>, the consistency check of the unit test build.\<close>

fun checkNodes :: "('a \<Rightarrow> 'a \<Rightarrow> int) \<Rightarrow> 'a heap_node \<Rightarrow> bool" where
  "checkNodes ranks NULLNode = True"
| "checkNodes ranks (HNode n l d r) =
     ((case node_data l of None \<Rightarrow> True | Some ld \<Rightarrow> \<not> outRanks ranks ld d \<and> checkNodes ranks l) \<and>
      (case node_data r of None \<Rightarrow> True | Some rd \<Rightarrow> \<not> outRanks ranks rd d \<and> checkNodes ranks r) \<and>
      n - mSize l - mSize r = 1)"

text \<open>The \<open>LocHeap\<close> methods; \<open>mTree\<close> is the whole state.\<close>

definition heap_push :: "('a \<Rightarrow> 'a \<Rightarrow> int) \<Rightarrow> 'a \<Rightarrow> 'a heap_node \<Rightarrow> 'a heap_node" where
  "heap_push ranks x t = node_push ranks x t"

definition heap_peek :: "'a heap_node \<Rightarrow> 'a option" where
  "heap_peek t = node_data t"

definition heap_pop :: "('a \<Rightarrow> 'a \<Rightarrow> int) \<Rightarrow> 'a heap_node \<Rightarrow> 'a option \<times> 'a heap_node" where
  "heap_pop ranks t = (case node_pop ranks t of None \<Rightarrow> (None, t) | Some (p, t') \<Rightarrow> (Some p, t'))"

definition heap_remove :: "('a \<Rightarrow> 'a \<Rightarrow> int) \<Rightarrow> 'a \<Rightarrow> 'a heap_node \<Rightarrow> 'a option \<times> 'a heap_node" where
  "heap_remove ranks x t = node_remove ranks x t"

section \<open>Contents and invariant\<close>

fun heap_mset :: "'a heap_node \<Rightarrow> 'a multiset" where
  "heap_mset NULLNode = {#}"
| "heap_mset (HNode n l d r) = add_mset d (heap_mset l + heap_mset r)"

text \<open>Every \<open>mSize\<close> is the number of nodes below and including it.\<close>

fun sizes_ok :: "'a heap_node \<Rightarrow> bool" where
  "sizes_ok NULLNode \<longleftrightarrow> True"
| "sizes_ok (HNode n l d r) \<longleftrightarrow> n = 1 + mSize l + mSize r \<and> sizes_ok l \<and> sizes_ok r"

text \<open>No element outranks one above it.\<close>

fun heap_ordered :: "('a \<Rightarrow> 'a \<Rightarrow> int) \<Rightarrow> 'a heap_node \<Rightarrow> bool" where
  "heap_ordered ranks NULLNode \<longleftrightarrow> True"
| "heap_ordered ranks (HNode n l d r) \<longleftrightarrow>
     (\<forall>x\<in>#heap_mset l + heap_mset r. \<not> outRanks ranks x d) \<and>
     heap_ordered ranks l \<and> heap_ordered ranks r"

definition heap_inv :: "('a \<Rightarrow> 'a \<Rightarrow> int) \<Rightarrow> 'a set \<Rightarrow> 'a heap_node \<Rightarrow> bool" where
  "heap_inv ranks C t \<longleftrightarrow> heap_ordered ranks t \<and> sizes_ok t \<and> set_mset (heap_mset t) \<subseteq> C"

lemma mSize_size: "sizes_ok t \<Longrightarrow> mSize t = int (size (heap_mset t))"
  by (induction t) auto

lemma node_push_HNode:
  "node_push ranks x (HNode n l d r) =
     (if l = NULLNode \<or> (r \<noteq> NULLNode \<and> mSize l \<le> mSize r)
      then HNode (n + 1) (node_push ranks (if outRanks ranks x d then d else x) l)
             (if outRanks ranks x d then x else d) r
      else HNode (n + 1) l (if outRanks ranks x d then x else d)
             (node_push ranks (if outRanks ranks x d then d else x) r))"
  by (cases l; cases r) (simp_all add: Let_def)

declare node_push.simps(2) [simp del]

lemmas mset_rules = union_mset_add_mset_left union_mset_add_mset_right add_mset_commute

lemma heap_mset_push [simp]: "heap_mset (node_push ranks x t) = add_mset x (heap_mset t)"
proof (induction t arbitrary: x)
  case (HNode n l d r)
  show ?case
    by (cases "outRanks ranks x d")
      (simp_all only: node_push_HNode heap_mset.simps HNode.IH if_distrib [of heap_mset] if_distribR
        if_True if_False mset_rules if_cancel)
qed simp

lemma mSize_push [simp]: "mSize (node_push ranks x t) = mSize t + 1"
  by (cases t) (simp_all add: node_push_HNode)

lemma sizes_ok_push: "sizes_ok t \<Longrightarrow> sizes_ok (node_push ranks x t)"
  by (induction t arbitrary: x) (simp_all add: node_push_HNode)

lemma node_pop_Some: "t \<noteq> NULLNode \<Longrightarrow> \<exists>t'. node_pop ranks t = Some (the (node_data t), t')"
  by (induction ranks t rule: node_pop.induct) auto

text \<open>
  The recursive case of \<open>node_pop\<close> in one equation: pop the subtree whose data replaces the top,
  with the top's data put into it.
\<close>

fun set_data :: "'a \<Rightarrow> 'a heap_node \<Rightarrow> 'a heap_node" where
  "set_data x NULLNode = NULLNode"
| "set_data x (HNode n l d r) = HNode n l x r"

definition take_left :: "('a \<Rightarrow> 'a \<Rightarrow> int) \<Rightarrow> 'a heap_node \<Rightarrow> 'a heap_node \<Rightarrow> bool" where
  "take_left ranks l r \<longleftrightarrow> r = NULLNode \<or>
     (l \<noteq> NULLNode \<and> outRanks ranks (the (node_data l)) (the (node_data r)))"

lemma node_pop_HNode:
  assumes "node_pop ranks (HNode n l d r) = Some (p, t)"
  obtains (leaf) "l = NULLNode" "r = NULLNode" "t = NULLNode" "p = d"
  | (left) l' ld where "take_left ranks l r" "node_data l = Some ld"
      "node_pop ranks (set_data d l) = Some (p, l')" "t = HNode (n - 1) l' ld r"
  | (right) r' rd where "\<not> take_left ranks l r" "node_data r = Some rd"
      "node_pop ranks (set_data d r) = Some (p, r')" "t = HNode (n - 1) l rd r'"
  using assms
  by (cases l; cases r) (auto simp: take_left_def split: if_splits)

lemma heap_mset_set_data: "node_data t = Some d \<Longrightarrow> heap_mset t = add_mset d (heap_mset t - {#d#})"
  "node_data t = Some d \<Longrightarrow> heap_mset (set_data x t) = add_mset x (heap_mset t - {#d#})"
  by (cases t; simp)+

lemma node_data_in: "node_data t = Some d \<Longrightarrow> d \<in># heap_mset t"
  by (cases t) auto

lemma mset_sink:
  assumes "H = add_mset c L" "add_mset d L = add_mset p M"
  shows "add_mset d (H + R) = add_mset p (add_mset c (M + R))"
    and "add_mset d (R + H) = add_mset p (add_mset c (R + M))"
proof -
  have "add_mset d (H + R) = add_mset c (add_mset d L + R)"
    unfolding assms(1) by (simp only: mset_rules)
  also have "\<dots> = add_mset p (add_mset c (M + R))"
    unfolding assms(2) by (simp only: mset_rules)
  finally show left: "add_mset d (H + R) = add_mset p (add_mset c (M + R))" .
  then show "add_mset d (R + H) = add_mset p (add_mset c (R + M))"
    by (simp only: add.commute [of R])
qed

lemma node_pop_induct [consumes 1, case_names leaf left right]:
  assumes "node_pop ranks t = Some (p, t')"
    and "\<And>n d. P (HNode n NULLNode d NULLNode) d NULLNode"
    and "\<And>n l d r p l' ld. take_left ranks l r \<Longrightarrow> node_data l = Some ld \<Longrightarrow>
      node_pop ranks (set_data d l) = Some (p, l') \<Longrightarrow> P (set_data d l) p l' \<Longrightarrow>
      P (HNode n l d r) p (HNode (n - 1) l' ld r)"
    and "\<And>n l d r p r' rd. \<not> take_left ranks l r \<Longrightarrow> node_data r = Some rd \<Longrightarrow>
      node_pop ranks (set_data d r) = Some (p, r') \<Longrightarrow> P (set_data d r) p r' \<Longrightarrow>
      P (HNode n l d r) p (HNode (n - 1) l rd r')"
  shows "P t p t'"
  using assms(1)
proof (induction "size t" arbitrary: t p t' rule: less_induct)
  case less
  then obtain n l d r where t: "t = HNode n l d r" by (cases t) auto
  from less.prems have "node_pop ranks (HNode n l d r) = Some (p, t')" unfolding t .
  then show ?case
  proof (cases rule: node_pop_HNode)
    case (left l' ld)
    then have "size (set_data d l) < size t" by (cases l) (auto simp: t)
    from less.hyps [OF this left(3)] left show ?thesis unfolding t by (simp add: assms(3))
  next
    case (right r' rd)
    then have "size (set_data d r) < size t" by (cases r) (auto simp: t)
    from less.hyps [OF this right(3)] right show ?thesis unfolding t by (simp add: assms(4))
  qed (simp add: t assms(2))
qed

lemma heap_mset_pop: "node_pop ranks t = Some (p, t') \<Longrightarrow> heap_mset t = add_mset p (heap_mset t')"
proof (induction rule: node_pop_induct)
  case (left n l d r p l' ld)
  from left(4) have "add_mset d (heap_mset l - {#ld#}) = add_mset p (heap_mset l')"
    by (simp only: heap_mset_set_data(2) [OF left(2)])
  from mset_sink(1) [OF heap_mset_set_data(1) [OF left(2)] this] show ?case by simp
next
  case (right n l d r p r' rd)
  from right(4) have "add_mset d (heap_mset r - {#rd#}) = add_mset p (heap_mset r')"
    by (simp only: heap_mset_set_data(2) [OF right(2)])
  from mset_sink(2) [OF heap_mset_set_data(1) [OF right(2)] this] show ?case by simp
qed simp

lemma set_data_facts [simp]:
  "mSize (set_data x t) = mSize t" "sizes_ok (set_data x t) = sizes_ok t"
  "node_data (set_data x t) = None \<longleftrightarrow> node_data t = None"
  by (cases t; simp)+

lemma sizes_ok_pop:
  assumes "node_pop ranks t = Some (p, t')" "sizes_ok t"
  shows "sizes_ok t' \<and> mSize t' = mSize t - 1"
  using assms by (induction rule: node_pop_induct) auto

lemma node_pop_data:
  assumes "node_pop ranks t = Some (p, t')"
  shows "node_data t = Some p"
  using assms node_pop_Some [of t ranks] by (cases t) auto

section \<open>Rankings\<close>

text \<open>
  What the heap needs of \<open>ranks\<close> on a set \<open>C\<close> of elements: outranking is asymmetric, and not
  outranking is transitive (the elements that rank equal form layers).
\<close>

locale rankable =
  fixes ranks :: "'a \<Rightarrow> 'a \<Rightarrow> int" and C :: "'a set"
  assumes asym: "x \<in> C \<Longrightarrow> y \<in> C \<Longrightarrow> outRanks ranks x y \<Longrightarrow> \<not> outRanks ranks y x"
    and neg_trans: "x \<in> C \<Longrightarrow> y \<in> C \<Longrightarrow> z \<in> C \<Longrightarrow>
      \<not> outRanks ranks x y \<Longrightarrow> \<not> outRanks ranks y z \<Longrightarrow> \<not> outRanks ranks x z"
begin

lemma irrefl: "x \<in> C \<Longrightarrow> \<not> outRanks ranks x x"
  using asym by blast

lemma heap_ordered_push:
  "heap_ordered ranks t \<Longrightarrow> set_mset (heap_mset t) \<subseteq> C \<Longrightarrow> x \<in> C \<Longrightarrow> heap_ordered ranks (node_push ranks x t)"
proof (induction t arbitrary: x)
  case (HNode n l d r)
  define top where "top = (if outRanks ranks x d then x else d)"
  define low where "low = (if outRanks ranks x d then d else x)"
  have C: "top \<in> C" "low \<in> C" "d \<in> C" using HNode.prems by (auto simp: top_def low_def)
  have low: "\<not> outRanks ranks low top" and d: "\<not> outRanks ranks d top"
    using HNode.prems irrefl asym by (auto simp: low_def top_def)
  have below: "\<not> outRanks ranks y top" if "y \<in># heap_mset l + heap_mset r" for y
    using HNode.prems that neg_trans [of y d top] C d by auto
  have sub: "heap_ordered ranks (node_push ranks low l)" "heap_ordered ranks (node_push ranks low r)"
    using HNode.prems by (simp_all add: HNode.IH [OF _ _ C(2)])
  have "\<forall>y\<in>#heap_mset (node_push ranks low l) + heap_mset r. \<not> outRanks ranks y top"
    "\<forall>y\<in>#heap_mset l + heap_mset (node_push ranks low r). \<not> outRanks ranks y top"
    using below low by (simp_all add: ball_Un)
  with HNode.prems(1) sub show ?case
    unfolding node_push_HNode top_def [symmetric] low_def [symmetric] by (simp del: heap_mset_push)
qed simp

text \<open>
  Popping works on a tree whose two subtrees are ordered, whatever its top: that is the shape
  of the tree each recursive call gets, with the old top's data put into a subtree.
\<close>

definition subtrees_ordered :: "'a heap_node \<Rightarrow> bool" where
  "subtrees_ordered t \<longleftrightarrow> (case t of NULLNode \<Rightarrow> True
     | HNode n l d r \<Rightarrow> heap_ordered ranks l \<and> heap_ordered ranks r)"

lemma subtrees_ordered_set_data: "heap_ordered ranks t \<Longrightarrow> subtrees_ordered (set_data x t)"
  by (cases t) (auto simp: subtrees_ordered_def)

lemma top_not_outranked:
  "heap_ordered ranks t \<Longrightarrow> set_mset (heap_mset t) \<subseteq> C \<Longrightarrow> node_data t = Some d \<Longrightarrow>
     y \<in># heap_mset t \<Longrightarrow> \<not> outRanks ranks y d"
  using irrefl by (cases t) auto

lemma popped_subtree_mset:
  assumes "node_data l = Some ld" "node_pop ranks (set_data d l) = Some (p, l')"
  shows "heap_mset l' = heap_mset l - {#ld#}"
proof -
  have "p = d" using node_pop_data [OF assms(2)] assms(1) by (cases l) auto
  with heap_mset_pop [OF assms(2)] heap_mset_set_data(2) [OF assms(1)] show ?thesis by simp
qed

lemma heap_ordered_pop_sub:
  assumes "node_pop ranks t = Some (p, t')" "subtrees_ordered t"
    "set_mset (heap_mset t) \<subseteq> C"
  shows "heap_ordered ranks t'"
  using assms
proof (induction rule: node_pop_induct)
  case (left n l d r p l' ld)
  have l: "heap_ordered ranks l" "heap_ordered ranks r" and C: "set_mset (heap_mset l) \<subseteq> C"
    "set_mset (heap_mset r) \<subseteq> C" "d \<in> C" using left.prems by (auto simp: subtrees_ordered_def)
  have "set_mset (heap_mset (set_data d l)) \<subseteq> C"
    using C heap_mset_set_data(2) [OF left(2)] by (auto dest: in_diffD)
  with l left.IH have "heap_ordered ranks l'" by (simp add: subtrees_ordered_set_data)
  moreover have "\<not> outRanks ranks y ld" if "y \<in># heap_mset l'" for y
    using that popped_subtree_mset [OF left(2,3)] top_not_outranked [OF l(1) C(1) left(2)]
    by (auto dest: in_diffD)
  moreover have "\<not> outRanks ranks y ld" if y: "y \<in># heap_mset r" for y
  proof -
    from y obtain rd where rd: "node_data r = Some rd" by (cases r) auto
    then have "outRanks ranks ld rd" using left(1,2) y by (auto simp: take_left_def)
    have mem: "ld \<in> C" "rd \<in> C" "y \<in> C"
      using C y node_data_in [OF left(2)] node_data_in [OF rd] by auto
    from mem(1,2) \<open>outRanks ranks ld rd\<close> have "\<not> outRanks ranks rd ld" by (rule asym)
    with neg_trans [OF mem(3,2,1) top_not_outranked [OF l(2) C(2) rd y]] show ?thesis by blast
  qed
  ultimately show ?case using l by auto
next
  case (right n l d r p r' rd)
  have l: "heap_ordered ranks l" "heap_ordered ranks r" and C: "set_mset (heap_mset l) \<subseteq> C"
    "set_mset (heap_mset r) \<subseteq> C" "d \<in> C" using right.prems by (auto simp: subtrees_ordered_def)
  have "set_mset (heap_mset (set_data d r)) \<subseteq> C"
    using C heap_mset_set_data(2) [OF right(2)] by (auto dest: in_diffD)
  with l right.IH have "heap_ordered ranks r'" by (simp add: subtrees_ordered_set_data)
  moreover have "\<not> outRanks ranks y rd" if "y \<in># heap_mset r'" for y
    using that popped_subtree_mset [OF right(2,3)] top_not_outranked [OF l(2) C(2) right(2)]
    by (auto dest: in_diffD)
  moreover have "\<not> outRanks ranks y rd" if y: "y \<in># heap_mset l" for y
  proof -
    from y obtain ld where ld: "node_data l = Some ld" by (cases l) auto
    then have "\<not> outRanks ranks ld rd" using right(1,2) y by (auto simp: take_left_def)
    have mem: "ld \<in> C" "rd \<in> C" "y \<in> C"
      using C y node_data_in [OF right(2)] node_data_in [OF ld] by auto
    from neg_trans [OF mem(3,1,2) top_not_outranked [OF l(1) C(1) ld y]]
      \<open>\<not> outRanks ranks ld rd\<close> show ?thesis by blast
  qed
  ultimately show ?case using l by auto
qed simp

lemma heap_inv_pop:
  assumes "heap_inv ranks C t" "node_pop ranks t = Some (p, t')"
  shows "heap_inv ranks C t' \<and> node_data t = Some p \<and> heap_mset t = add_mset p (heap_mset t')"
proof -
  have "subtrees_ordered t"
    using assms(1) by (cases t) (auto simp: heap_inv_def subtrees_ordered_def)
  with assms heap_ordered_pop_sub [OF assms(2)] sizes_ok_pop [OF assms(2)] heap_mset_pop [OF assms(2)]
    node_pop_data [OF assms(2)] show ?thesis by (auto simp: heap_inv_def)
qed


lemma heap_inv_push: "heap_inv ranks C t \<Longrightarrow> x \<in> C \<Longrightarrow> heap_inv ranks C (node_push ranks x t)"
  using heap_ordered_push by (simp add: heap_inv_def sizes_ok_push)

lemma heap_inv_sub:
  "heap_inv ranks C (HNode n l d r) \<Longrightarrow> heap_inv ranks C l \<and> heap_inv ranks C r \<and> d \<in> C"
  by (simp add: heap_inv_def)

text \<open>
  Removing finds the element wherever it is: the branches that are not searched are below an
  element it outranks, where it cannot be.
\<close>

lemma heap_inv_remove:
  assumes "heap_inv ranks C t" "x \<in> C" "node_remove ranks x t = (res, t')"
  shows "heap_inv ranks C t' \<and>
    (if x \<in># heap_mset t then res = Some x \<and> heap_mset t = add_mset x (heap_mset t')
     else res = None \<and> t' = t)"
  using assms
proof (induction t arbitrary: res t')
  case (HNode n l d r)
  note inv = HNode.prems(1) and sub = heap_inv_sub [OF HNode.prems(1)]
  show ?case
  proof (cases "x = d")
    case True
    obtain t1 where "node_pop ranks (HNode n l d r) = Some (d, t1)"
      using node_pop_Some [of "HNode n l d r" ranks] by auto
    with True HNode.prems(3) heap_inv_pop [OF inv] show ?thesis by auto
  next
    case ne: False
    show ?thesis
    proof (cases "outRanks ranks x d")
      case True
      with inv have "x \<notin># heap_mset l + heap_mset r" by (auto simp: heap_inv_def)
      with ne True HNode.prems show ?thesis by auto
    next
      case False
      obtain rl l' where L: "node_remove ranks x l = (rl, l')" by fastforce
      obtain rr r' where R: "node_remove ranks x r = (rr, r')" by fastforce
      note IHl = HNode.IH(1) [OF _ \<open>x \<in> C\<close> L] and IHr = HNode.IH(2) [OF _ \<open>x \<in> C\<close> R]
      show ?thesis
      proof (cases "x \<in># heap_mset l")
        case True
        with IHl sub have l': "heap_inv ranks C l'" "rl = Some x" "heap_mset l = add_mset x (heap_mset l')"
          by auto
        with inv have "heap_inv ranks C (HNode (n - 1) l' d r)"
          using mSize_size [of l] mSize_size [of l'] by (auto simp: heap_inv_def)
        with l' L ne False True HNode.prems(3) show ?thesis by auto
      next
        case nl: False
        with IHl sub have rl: "rl = None" by auto
        show ?thesis
        proof (cases "x \<in># heap_mset r")
          case True
          with IHr sub have r': "heap_inv ranks C r'" "rr = Some x" "heap_mset r = add_mset x (heap_mset r')"
            by auto
          with inv have "heap_inv ranks C (HNode (n - 1) l d r')"
            using mSize_size [of r] mSize_size [of r'] by (auto simp: heap_inv_def)
          with r' L R rl ne False True HNode.prems(3) show ?thesis by auto
        next
          case nr: False
          with IHr sub have "rr = None" by auto
          with L R rl ne False nl nr HNode.prems(3) inv show ?thesis by auto
        qed
      qed
    qed
  qed
qed simp

text \<open>
  The unit test check compares each node with its children only; by transitivity that is the
  whole invariant.
\<close>

lemma checkNodes_heap_inv:
  "set_mset (heap_mset t) \<subseteq> C \<Longrightarrow> checkNodes ranks t \<longleftrightarrow> heap_inv ranks C t"
proof (induction t)
  case (HNode n l d r)
  have sub: "set_mset (heap_mset l) \<subseteq> C" "set_mset (heap_mset r) \<subseteq> C" "d \<in> C"
    using HNode.prems by auto
  have below: "(\<forall>y\<in>#heap_mset t. \<not> outRanks ranks y d) \<longleftrightarrow>
      (case node_data t of None \<Rightarrow> True | Some e \<Rightarrow> \<not> outRanks ranks e d)"
    if t: "heap_inv ranks C t" for t
  proof (cases "node_data t")
    case None
    then show ?thesis by (cases t) auto
  next
    case (Some e)
    have tt: "heap_ordered ranks t" "set_mset (heap_mset t) \<subseteq> C" using t by (auto simp: heap_inv_def)
    have "\<not> outRanks ranks y d" if "\<not> outRanks ranks e d" "y \<in># heap_mset t" for y
      using neg_trans [of y e d] top_not_outranked [OF tt Some that(2)] that tt node_data_in [OF Some] sub
      by blast
    with Some node_data_in [OF Some] show ?thesis by auto
  qed
  have nd: "node_data t = None \<Longrightarrow> t = NULLNode" for t :: "'a heap_node" by (cases t) auto
  from HNode.IH sub have IH: "checkNodes ranks l \<longleftrightarrow> heap_inv ranks C l"
    "checkNodes ranks r \<longleftrightarrow> heap_inv ranks C r" by auto
  have "checkNodes ranks (HNode n l d r) \<longleftrightarrow> heap_inv ranks C l \<and> heap_inv ranks C r \<and>
      (case node_data l of None \<Rightarrow> True | Some e \<Rightarrow> \<not> outRanks ranks e d) \<and>
      (case node_data r of None \<Rightarrow> True | Some e \<Rightarrow> \<not> outRanks ranks e d) \<and> n - mSize l - mSize r = 1"
    using IH by (auto dest: nd split: option.splits simp: heap_inv_def)
  also have "\<dots> \<longleftrightarrow> heap_inv ranks C (HNode n l d r)"
    using below [of l] below [of r] sub by (auto simp: heap_inv_def)
  finally show ?case .
qed (simp add: heap_inv_def)

end

section \<open>Containers of ranked elements\<close>

text \<open>Pop \<open>n\<close> times, as long as there is something.\<close>

fun pop_n :: "('q \<Rightarrow> 'a option \<times> 'q) \<Rightarrow> nat \<Rightarrow> 'q \<Rightarrow> 'a list \<times> 'q" where
  "pop_n pop 0 q = ([], q)"
| "pop_n pop (Suc n) q = (case pop q of
     (None, q') \<Rightarrow> ([], q')
   | (Some x, q') \<Rightarrow> (case pop_n pop n q' of (xs, q'') \<Rightarrow> (x # xs, q'')))"

locale ranked_queue = rankable ranks C
  for ranks :: "'a \<Rightarrow> 'a \<Rightarrow> int" and C :: "'a set" +
  fixes content :: "'q \<Rightarrow> 'a multiset"
    and inv :: "'q \<Rightarrow> bool"
    and push :: "'a \<Rightarrow> 'q \<Rightarrow> 'q"
    and peek :: "'q \<Rightarrow> 'a option"
    and pop :: "'q \<Rightarrow> 'a option \<times> 'q"
    and remove :: "'a \<Rightarrow> 'q \<Rightarrow> 'a option \<times> 'q"
  assumes content_C: "inv q \<Longrightarrow> set_mset (content q) \<subseteq> C"
    and push_law: "inv q \<Longrightarrow> x \<in> C \<Longrightarrow> inv (push x q) \<and> content (push x q) = add_mset x (content q)"
    and peek_None: "inv q \<Longrightarrow> peek q = None \<Longrightarrow> content q = {#}"
    and peek_Some: "inv q \<Longrightarrow> peek q = Some x \<Longrightarrow>
      x \<in># content q \<and> (\<forall>y\<in>#content q. \<not> outRanks ranks y x)"
    and pop_law: "inv q \<Longrightarrow> pop q = (r, q') \<Longrightarrow> r = peek q \<and> inv q' \<and>
      content q = (case r of None \<Rightarrow> content q' | Some x \<Rightarrow> add_mset x (content q'))"
    and remove_law: "inv q \<Longrightarrow> x \<in> C \<Longrightarrow> remove x q = (r, q') \<Longrightarrow> inv q' \<and>
      (if x \<in># content q then r = Some x \<and> content q = add_mset x (content q')
       else r = None \<and> content q' = content q)"
begin

text \<open>Popping everything sorts: highest ranking first.\<close>

lemma pop_all_sorted:
  "inv q \<Longrightarrow> size (content q) = n \<Longrightarrow> pop_n pop n q = (xs, q') \<Longrightarrow>
     mset xs = content q \<and> content q' = {#} \<and> inv q' \<and> sorted_wrt (\<lambda>x y. \<not> outRanks ranks y x) xs"
proof (induction n arbitrary: q xs q')
  case (Suc n)
  obtain r q1 where pop: "pop q = (r, q1)" by fastforce
  from Suc.prems(2) have "content q \<noteq> {#}" by auto
  then obtain x where x: "peek q = Some x" using peek_None [OF Suc.prems(1)] by (cases "peek q") auto
  note law = pop_law [OF Suc.prems(1) pop]
  from law x have r: "r = Some x" "inv q1" "content q = add_mset x (content q1)" by auto
  obtain ys q2 where ys: "pop_n pop n q1 = (ys, q2)" by fastforce
  from Suc.IH [OF r(2) _ ys] Suc.prems(2) r(3)
  have IH: "mset ys = content q1" "content q2 = {#}" "inv q2" "sorted_wrt (\<lambda>x y. \<not> outRanks ranks y x) ys"
    by auto
  have "\<forall>y\<in>set ys. \<not> outRanks ranks y x"
    using peek_Some [OF Suc.prems(1) x] r(3) IH(1) by (metis set_mset_mset union_iff add_mset_add_single)
  with IH r pop ys Suc.prems(3) show ?case by auto
qed simp

end

text \<open>The heap is such a container, for every ranking.\<close>

sublocale rankable \<subseteq> ranked_queue ranks C heap_mset "heap_inv ranks C" "heap_push ranks" heap_peek
  "heap_pop ranks" "heap_remove ranks"
proof unfold_locales
  fix t x
  assume t: "heap_inv ranks C t"
  then have tt: "heap_ordered ranks t" "set_mset (heap_mset t) \<subseteq> C" by (auto simp: heap_inv_def)
  then show "set_mset (heap_mset t) \<subseteq> C" by simp
  show "x \<in> C \<Longrightarrow> heap_inv ranks C (heap_push ranks x t) \<and> heap_mset (heap_push ranks x t) = add_mset x (heap_mset t)"
    using heap_inv_push [OF t] by (simp add: heap_push_def)
  show "heap_peek t = None \<Longrightarrow> heap_mset t = {#}"
    by (cases t) (auto simp: heap_peek_def)
  show "heap_peek t = Some x \<Longrightarrow> x \<in># heap_mset t \<and> (\<forall>y\<in>#heap_mset t. \<not> outRanks ranks y x)"
    using node_data_in top_not_outranked [OF tt] by (auto simp: heap_peek_def)
next
  fix t r t'
  assume "heap_inv ranks C t" "heap_pop ranks t = (r, t')"
  then show "r = heap_peek t \<and> heap_inv ranks C t' \<and>
      heap_mset t = (case r of None \<Rightarrow> heap_mset t' | Some x \<Rightarrow> add_mset x (heap_mset t'))"
    using heap_inv_pop [of t] node_pop_Some [of t ranks]
    by (cases t) (auto simp: heap_pop_def heap_peek_def split: option.splits)
next
  fix t x r t'
  assume "heap_inv ranks C t" "x \<in> C" "heap_remove ranks x t = (r, t')"
  then show "heap_inv ranks C t' \<and> (if x \<in># heap_mset t then r = Some x \<and> heap_mset t = add_mset x (heap_mset t')
      else r = None \<and> heap_mset t' = heap_mset t)"
    using heap_inv_remove [of t x r t'] by (auto simp: heap_remove_def)
qed

end
