(* ===== verification/LocTimer.thy ===== *)
theory LocTimer
  imports LocHeap
begin

text \<open>
  The timer service of \<open>gps/utils/LocTimer.cpp\<close>: clients (\<open>LocTimer\<close>), their delegates
  (\<open>LocTimerDelegate\<close>), one container with its heap of delegates and its timer fd, and the
  message task in whose context all heap management is done. A delegate is named by its address;
  an access to one that was deleted is a fault (\<open>None\<close>). The steps of the service interleave
  freely: clients start and stop timers, the timer fd expires, the task processes a message.
\<close>

section \<open>Times and ranking\<close>

record timespec =
  tv_sec :: int
  tv_nsec :: int

text \<open>A delegate in the heap: its address and its \<open>mFutureTime\<close>, which never changes.\<close>

type_synonym delegate = "addr \<times> timespec"

text \<open>Conversion of a 64-bit difference to \<open>int\<close>.\<close>

definition to_int32 :: "int \<Rightarrow> int" where
  "to_int32 n = signed_take_bit 31 n"

definition timer_ranks :: "delegate \<Rightarrow> delegate \<Rightarrow> int" where
  "timer_ranks x y =
     (let rank = to_int32 (tv_sec (snd y) - tv_sec (snd x))
      in if rank = 0 then to_int32 (tv_nsec (snd y) - tv_nsec (snd x)) else rank)"

text \<open>The time \<open>LocTimer::start\<close> computes; \<open>timeOutInMs\<close> is an \<open>unsigned int\<close>.\<close>

definition future_time :: "timespec \<Rightarrow> u32 \<Rightarrow> timespec" where
  "future_time now timeOutInMs =
     (let sec = tv_sec now + uint (timeOutInMs div 1000);
          nsec = tv_nsec now + uint ((timeOutInMs mod 1000) * 1000000)
      in if nsec \<ge> 1000000000
         then \<lparr>tv_sec = sec + nsec div 1000000000, tv_nsec = nsec mod 1000000000\<rparr>
         else \<lparr>tv_sec = sec, tv_nsec = nsec\<rparr>)"

definition time_ok :: "timespec \<Rightarrow> bool" where
  "time_ok t \<longleftrightarrow> 0 \<le> tv_sec t \<and> tv_sec t < 2 ^ 31 \<and> 0 \<le> tv_nsec t \<and> tv_nsec t < 1000000000"

definition timer_dom :: "delegate set" where
  "timer_dom = {x. time_ok (snd x)}"

definition ns :: "timespec \<Rightarrow> int" where
  "ns t = tv_sec t * 1000000000 + tv_nsec t"

section \<open>State\<close>

record delegate_state =
  mClient :: "addr option"
  mContainer :: bool
  mFutureTime :: timespec

datatype timer_msg = MsgTimerPush delegate | MsgTimerRemove delegate | MsgTimerExpire

record timer_sys =
  mTimer :: "addr \<Rightarrow> addr option" \<comment> \<open>of each client\<close>
  live :: "addr \<rightharpoonup> delegate_state"
  mTree :: "delegate heap_node"
  timerfd :: "timespec option" \<comment> \<open>\<open>None\<close>: disarmed\<close>
  polled :: bool
  mMsgs :: "timer_msg list"
  fired :: "addr list" \<comment> \<open>clients called back, in order\<close>

definition timer_init :: timer_sys where
  "timer_init = \<lparr>mTimer = \<lambda>_. None, live = Map.empty, mTree = NULLNode, timerfd = None,
     polled = False, mMsgs = [], fired = []\<rparr>"

section \<open>Operations\<close>

definition updateSoonestTime :: "delegate option \<Rightarrow> timer_sys \<Rightarrow> timer_sys" where
  "updateSoonestTime priorTop s =
     (let curTop = heap_peek (mTree s) in
      if curTop \<noteq> priorTop then
        (case curTop of
           None \<Rightarrow> s\<lparr>polled := False, timerfd := None\<rparr>
         | Some cur \<Rightarrow>
             if (case priorTop of None \<Rightarrow> True | Some p \<Rightarrow> outRanks timer_ranks cur p)
             then s\<lparr>polled := True, timerfd := Some (snd cur)\<rparr>
             else s)
      else s)"

text \<open>The result of \<open>start\<close> and the state; \<open>a\<close> is the address of the new delegate.\<close>

definition LocTimer_start ::
  "addr \<Rightarrow> addr \<Rightarrow> timespec \<Rightarrow> u32 \<Rightarrow> bool \<Rightarrow> timer_sys \<Rightarrow> bool \<times> timer_sys" where
  "LocTimer_start c a now timeOutInMs container s =
     (if mTimer s c = None \<and> container then
        let t = future_time now timeOutInMs in
        (True, s\<lparr>mTimer := (mTimer s)(c := Some a),
                 live := (live s)(a \<mapsto> \<lparr>mClient = Some c, mContainer = True, mFutureTime = t\<rparr>),
                 mMsgs := mMsgs s @ [MsgTimerPush (a, t)]\<rparr>)
      else (False, s))"

definition destroyLocked :: "addr \<Rightarrow> timer_sys \<Rightarrow> timer_sys option" where
  "destroyLocked a s =
     (case live s a of
        None \<Rightarrow> None
      | Some st \<Rightarrow>
          let st' = st\<lparr>mClient := None, mContainer := False\<rparr>;
              s' = s\<lparr>live := (live s)(a \<mapsto> st')\<rparr>
          in if mContainer st
             then Some (s'\<lparr>mMsgs := mMsgs s @ [MsgTimerRemove (a, mFutureTime st)]\<rparr>)
             else Some s')"

definition LocTimer_stop :: "addr \<Rightarrow> timer_sys \<Rightarrow> (bool \<times> timer_sys) option" where
  "LocTimer_stop c s =
     (case mTimer s c of
        None \<Rightarrow> Some (False, s)
      | Some a \<Rightarrow> map_option (\<lambda>s'. (True, s')) (destroyLocked a (s\<lparr>mTimer := (mTimer s)(c := None)\<rparr>)))"

text \<open>\<open>LocTimerDelegate::expire\<close>, with the client's \<open>timeOutCallback\<close> as an entry of \<open>fired\<close>.\<close>

definition delegate_expire :: "addr \<Rightarrow> timer_sys \<Rightarrow> timer_sys option" where
  "delegate_expire a s =
     (case live s a of
        None \<Rightarrow> None
      | Some st \<Rightarrow>
          (case mClient st of
             None \<Rightarrow> Some s
           | Some c \<Rightarrow> do {
               (stopped, s') \<leftarrow> LocTimer_stop c s;
               Some (if stopped then s'\<lparr>fired := fired s' @ [c]\<rparr> else s')
             }))"

definition popIfOutRanks :: "timespec \<Rightarrow> timer_sys \<Rightarrow> delegate option \<times> timer_sys" where
  "popIfOutRanks now s =
     (case heap_peek (mTree s) of
        None \<Rightarrow> (None, s)
      | Some d \<Rightarrow>
          if \<not> outRanks timer_ranks (NULL, now) d
          then (case heap_pop timer_ranks (mTree s) of (r, t) \<Rightarrow> (r, s\<lparr>mTree := t\<rparr>))
          else (None, s))"

partial_function (option) expire_loop ::
  "timespec \<Rightarrow> delegate option \<Rightarrow> timer_sys \<Rightarrow> timer_sys option" where
  "expire_loop now timer s =
     (case timer of
        None \<Rightarrow> Some s
      | Some d \<Rightarrow> do {
          s1 \<leftarrow> delegate_expire (fst d) s;
          expire_loop now (fst (popIfOutRanks now s1)) (snd (popIfOutRanks now s1))
        })"

definition push_proc :: "delegate \<Rightarrow> timer_sys \<Rightarrow> timer_sys" where
  "push_proc d s = updateSoonestTime (heap_peek (mTree s)) (s\<lparr>mTree := heap_push timer_ranks d (mTree s)\<rparr>)"

definition remove_proc :: "delegate \<Rightarrow> timer_sys \<Rightarrow> timer_sys option" where
  "remove_proc d s =
     (case live s (fst d) of
        None \<Rightarrow> None
      | Some _ \<Rightarrow>
          let priorTop = heap_peek (mTree s);
              (r, t) = heap_remove timer_ranks d (mTree s);
              s1 = s\<lparr>mTree := t\<rparr>;
              s2 = (if priorTop = r then updateSoonestTime None s1 else s1)
          in Some (s2\<lparr>live := (live s2)(fst d := None)\<rparr>))"

definition expire_proc :: "timespec \<Rightarrow> timer_sys \<Rightarrow> timer_sys option" where
  "expire_proc now s = do {
     s1 \<leftarrow> (case heap_pop timer_ranks (mTree s) of (r, t) \<Rightarrow> expire_loop now r (s\<lparr>mTree := t\<rparr>));
     Some (updateSoonestTime None s1)
   }"

text \<open>The message task takes the next message.\<close>

fun timer_proc :: "timespec \<Rightarrow> timer_msg \<Rightarrow> timer_sys \<Rightarrow> timer_sys option" where
  "timer_proc now (MsgTimerPush d) s = Some (push_proc d s)"
| "timer_proc now (MsgTimerRemove d) s = remove_proc d s"
| "timer_proc now MsgTimerExpire s = expire_proc now s"

text \<open>\<open>LocTimerContainer::expire\<close>, called by the polling thread when the timer fd expires.\<close>

definition container_expire :: "timer_sys \<Rightarrow> timer_sys" where
  "container_expire s = s\<lparr>timerfd := None, polled := False, mMsgs := mMsgs s @ [MsgTimerExpire]\<rparr>"

text \<open>The C entry point takes a 64-bit number of milliseconds and passes it on as 32 bits.\<close>

definition loc_timer_start ::
  "addr \<Rightarrow> addr \<Rightarrow> timespec \<Rightarrow> u64 \<Rightarrow> bool \<Rightarrow> timer_sys \<Rightarrow> bool \<times> timer_sys" where
  "loc_timer_start c a now msec container s = LocTimer_start c a now (ucast msec) container s"

text \<open>One step of the service at time \<open>now\<close>.\<close>

inductive timer_step :: "timespec \<Rightarrow> timer_sys \<Rightarrow> timer_sys \<Rightarrow> bool" where
  start: "a \<noteq> NULL \<Longrightarrow> live s a = None \<Longrightarrow> time_ok (future_time now ms) \<Longrightarrow>
    timer_step now s (snd (LocTimer_start c a now ms container s))"
| stop: "LocTimer_stop c s = Some (b, s') \<Longrightarrow> timer_step now s s'"
| fd: "timerfd s = Some t \<Longrightarrow> polled s \<Longrightarrow> ns t \<le> ns now \<Longrightarrow> timer_step now s (container_expire s)"
| msg: "mMsgs s = m # rest \<Longrightarrow> timer_proc now m (s\<lparr>mMsgs := rest\<rparr>) = Some s' \<Longrightarrow> timer_step now s s'"

section \<open>The ranking of delegates\<close>

lemma to_int32_id: "- (2 ^ 31) \<le> n \<Longrightarrow> n < 2 ^ 31 \<Longrightarrow> to_int32 n = n"
  by (simp add: to_int32_def signed_take_bit_int_eq_self)

lemma timer_outRanks:
  assumes "x \<in> timer_dom" "y \<in> timer_dom"
  shows "outRanks timer_ranks x y \<longleftrightarrow> ns (snd x) < ns (snd y)"
proof -
  have "to_int32 (tv_sec (snd y) - tv_sec (snd x)) = tv_sec (snd y) - tv_sec (snd x)"
    "to_int32 (tv_nsec (snd y) - tv_nsec (snd x)) = tv_nsec (snd y) - tv_nsec (snd x)"
    using assms by (auto simp: timer_dom_def time_ok_def intro!: to_int32_id)
  with assms show ?thesis
    by (auto simp: outRanks_def timer_ranks_def timer_dom_def time_ok_def ns_def Let_def)
qed

interpretation timers: rankable timer_ranks timer_dom
  by unfold_locales (auto simp: timer_outRanks)

lemma future_time_ns:
  assumes "0 \<le> tv_nsec now" "tv_nsec now < 1000000000"
  shows "ns (future_time now ms) = ns now + uint ms * 1000000 \<and>
    0 \<le> tv_nsec (future_time now ms) \<and> tv_nsec (future_time now ms) < 1000000000"
proof -
  have m: "uint (ms mod 1000) < 1000" "0 \<le> uint (ms mod 1000)"
    by (simp_all add: uint_mod)
  have p: "uint ((ms mod 1000) * 1000000) = uint (ms mod 1000) * 1000000"
    using m by (subst uint_word_arith_bintrs) (simp add: take_bit_int_eq_self)
  have d: "uint ms = 1000 * uint (ms div 1000) + uint (ms mod 1000)"
    by (simp add: uint_div uint_mod)
  from assms m show ?thesis
    unfolding future_time_def Let_def p d ns_def
    by (auto simp: algebra_simps)
qed

section \<open>Invariant of the service\<close>

declare split_paired_All [simp del] split_paired_Ex [simp del]

fun pushes :: "timer_msg list \<Rightarrow> delegate list" where
  "pushes [] = []"
| "pushes (MsgTimerPush d # ms) = d # pushes ms"
| "pushes (_ # ms) = pushes ms"

fun removes :: "timer_msg list \<Rightarrow> delegate list" where
  "removes [] = []"
| "removes (MsgTimerRemove d # ms) = d # removes ms"
| "removes (_ # ms) = removes ms"

lemma pushes_append [simp]: "pushes (ms @ ms') = pushes ms @ pushes ms'"
  by (induction ms rule: pushes.induct) auto

lemma removes_append [simp]: "removes (ms @ ms') = removes ms @ removes ms'"
  by (induction ms rule: removes.induct) auto

lemma set_pushes: "d \<in> set (pushes ms) \<longleftrightarrow> MsgTimerPush d \<in> set ms"
  by (induction ms rule: pushes.induct) auto

lemma set_removes: "d \<in> set (removes ms) \<longleftrightarrow> MsgTimerRemove d \<in> set ms"
  by (induction ms rule: removes.induct) auto

text \<open>The delegates that are in the heap or on their way into it.\<close>

definition owned :: "timer_sys \<Rightarrow> delegate multiset" where
  "owned s = mset (pushes (mMsgs s)) + heap_mset (mTree s)"

text \<open>No delegate is pushed after it is removed.\<close>

definition push_first :: "timer_msg list \<Rightarrow> bool" where
  "push_first ms \<longleftrightarrow> sorted_wrt (\<lambda>m m'. \<forall>d. m = MsgTimerRemove d \<longrightarrow> m' \<noteq> MsgTimerPush d) ms"

text \<open>
  The parts of the invariant: delegates in the heap or pushed are live and there once; a
  delegate has a removal under way exactly when it left its container; clients and delegates
  point to each other. \<open>X\<close> are addresses of delegates that are just being moved.
\<close>

definition owned_live :: "timer_sys \<Rightarrow> bool" where
  "owned_live s \<longleftrightarrow> (\<forall>d. count (owned s) d \<le> 1 \<and>
     (d \<in># owned s \<longrightarrow> (\<exists>st. live s (fst d) = Some st \<and> mFutureTime st = snd d)))"

definition removes_live :: "timer_sys \<Rightarrow> bool" where
  "removes_live s \<longleftrightarrow> distinct (removes (mMsgs s)) \<and> push_first (mMsgs s) \<and>
     (\<forall>d\<in>set (removes (mMsgs s)). \<exists>st. live s (fst d) = Some st \<and> mFutureTime st = snd d \<and> \<not> mContainer st)"

definition delegates_ok :: "addr set \<Rightarrow> timer_sys \<Rightarrow> bool" where
  "delegates_ok X s \<longleftrightarrow> (\<forall>a st. live s a = Some st \<longrightarrow> time_ok (mFutureTime st) \<and>
     (mContainer st \<longleftrightarrow> mClient st \<noteq> None) \<and>
     (mContainer st \<and> a \<notin> X \<longrightarrow> (a, mFutureTime st) \<in># owned s) \<and>
     (\<not> mContainer st \<longrightarrow> (a, mFutureTime st) \<in> set (removes (mMsgs s))))"

definition clients_ok :: "timer_sys \<Rightarrow> bool" where
  "clients_ok s \<longleftrightarrow> (\<forall>c a. mTimer s c = Some a \<longleftrightarrow> (\<exists>st. live s a = Some st \<and> mClient st = Some c))"

definition timer_inv :: "addr set \<Rightarrow> timer_sys \<Rightarrow> bool" where
  "timer_inv X s \<longleftrightarrow> heap_inv timer_ranks timer_dom (mTree s) \<and> owned_live s \<and> removes_live s \<and>
     delegates_ok X s \<and> clients_ok s"

lemmas timer_inv_defs = timer_inv_def owned_live_def removes_live_def delegates_ok_def clients_ok_def

lemma timer_inv_init: "timer_inv {} timer_init"
  by (simp add: timer_inv_defs timer_init_def heap_inv_def owned_def push_first_def)

text \<open>Frame: the timer fd, the poll flag and the callbacks are not part of the invariant.\<close>

lemma timer_inv_frame [simp]:
  "timer_inv X (s\<lparr>polled := p, timerfd := t\<rparr>) = timer_inv X s"
  "timer_inv X (s\<lparr>fired := f\<rparr>) = timer_inv X s"
  by (simp_all add: timer_inv_defs owned_def)

lemma updateSoonestTime_frame [simp]:
  "timer_inv X (updateSoonestTime p s) = timer_inv X s"
  "mTree (updateSoonestTime p s) = mTree s" "live (updateSoonestTime p s) = live s"
  "mMsgs (updateSoonestTime p s) = mMsgs s" "fired (updateSoonestTime p s) = fired s"
  "mTimer (updateSoonestTime p s) = mTimer s" "owned (updateSoonestTime p s) = owned s"
  by (simp_all add: updateSoonestTime_def Let_def owned_def split: option.splits)

lemma timer_inv_cong:
  "mTree s = mTree s' \<Longrightarrow> live s = live s' \<Longrightarrow> mMsgs s = mMsgs s' \<Longrightarrow> mTimer s = mTimer s' \<Longrightarrow>
     timer_inv X s = timer_inv X s'"
  by (simp add: timer_inv_defs owned_def)

text \<open>Popping the heap takes a delegate out of \<open>owned\<close>.\<close>

lemma timer_inv_pop:
  assumes inv: "timer_inv {} s" and pop: "heap_pop timer_ranks (mTree s) = (Some d, t)"
  shows "timer_inv {fst d} (s\<lparr>mTree := t\<rparr>)" "d \<notin># owned (s\<lparr>mTree := t\<rparr>)"
    "\<exists>st. live s (fst d) = Some st \<and> mFutureTime st = snd d"
    "heap_mset (mTree s) = add_mset d (heap_mset t)"
proof -
  from inv have h: "heap_inv timer_ranks timer_dom (mTree s)" by (simp add: timer_inv_def)
  from timers.pop_law [OF h pop] have t: "heap_inv timer_ranks timer_dom t"
    "heap_mset (mTree s) = add_mset d (heap_mset t)" by auto
  then show "heap_mset (mTree s) = add_mset d (heap_mset t)" by simp
  have o: "owned s = add_mset d (owned (s\<lparr>mTree := t\<rparr>))"
    using t(2) by (simp add: owned_def)
  have ol: "count (owned s) x \<le> 1" "x \<in># owned s \<Longrightarrow> \<exists>st. live s (fst x) = Some st \<and> mFutureTime st = snd x"
    for x using inv by (auto simp: timer_inv_def owned_live_def)
  have c: "count (owned (s\<lparr>mTree := t\<rparr>)) x \<le> count (owned s) x" for x by (simp add: o)
  from ol(1) [of d] show d: "d \<notin># owned (s\<lparr>mTree := t\<rparr>)" by (simp add: o not_in_iff)
  from ol(2) [of d] show "\<exists>st. live s (fst d) = Some st \<and> mFutureTime st = snd d" by (simp add: o)
  have "owned_live (s\<lparr>mTree := t\<rparr>)"
    unfolding owned_live_def
  proof (intro allI conjI impI)
    fix x
    from c [of x] ol(1) [of x] show "count (owned (s\<lparr>mTree := t\<rparr>)) x \<le> 1" by (rule le_trans)
    assume "x \<in># owned (s\<lparr>mTree := t\<rparr>)"
    then show "\<exists>st. live (s\<lparr>mTree := t\<rparr>) (fst x) = Some st \<and> mFutureTime st = snd x"
      using ol(2) [of x] by (simp add: o)
  qed
  moreover have "delegates_ok {fst d} (s\<lparr>mTree := t\<rparr>)"
    using inv by (cases d) (auto simp: timer_inv_def delegates_ok_def o)
  ultimately show "timer_inv {fst d} (s\<lparr>mTree := t\<rparr>)"
    using inv t(1) by (simp add: timer_inv_def removes_live_def clients_ok_def)
qed

text \<open>Stopping a running client: its delegate lets go of client and container.\<close>

lemma timer_inv_live:
  assumes "timer_inv X s" "live s a = Some st"
  shows "time_ok (mFutureTime st)" "mContainer st \<longleftrightarrow> mClient st \<noteq> None"
    "mContainer st \<Longrightarrow> a \<notin> X \<Longrightarrow> (a, mFutureTime st) \<in># owned s"
    "\<not> mContainer st \<Longrightarrow> (a, mFutureTime st) \<in> set (removes (mMsgs s))"
    "mClient st = Some c \<Longrightarrow> mTimer s c = Some a"
  using assms unfolding timer_inv_def delegates_ok_def clients_ok_def by blast+

lemma timer_inv_client:
  assumes "timer_inv X s" "mTimer s c = Some a"
  shows "\<exists>st. live s a = Some st \<and> mClient st = Some c \<and> mContainer st"
  using assms unfolding timer_inv_def delegates_ok_def clients_ok_def by (metis option.distinct(1))

lemma timer_inv_owned:
  assumes "timer_inv X s" "d \<in># owned s"
  shows "\<exists>st. live s (fst d) = Some st \<and> mFutureTime st = snd d"
  using assms unfolding timer_inv_def owned_live_def by blast

lemma timer_inv_remove:
  assumes "timer_inv X s" "d \<in> set (removes (mMsgs s))"
  shows "\<exists>st. live s (fst d) = Some st \<and> mFutureTime st = snd d \<and> \<not> mContainer st"
  using assms unfolding timer_inv_def removes_live_def by blast

lemma timer_inv_stop:
  assumes inv: "timer_inv X s" and run: "mTimer s c = Some a"
  shows "\<exists>s'. LocTimer_stop c s = Some (True, s') \<and> timer_inv (X - {a}) s' \<and> mTree s' = mTree s \<and>
    mTimer s' = (mTimer s)(c := None) \<and> fired s' = fired s \<and> owned s' = owned s \<and>
    (\<exists>d. mMsgs s' = mMsgs s @ [MsgTimerRemove d])"
proof -
  from timer_inv_client [OF inv run] obtain st where
    st: "live s a = Some st" "mClient st = Some c" "mContainer st" by auto
  define st' where "st' = st\<lparr>mClient := None, mContainer := False\<rparr>"
  define s' where "s' = s\<lparr>mTimer := (mTimer s)(c := None), live := (live s)(a \<mapsto> st'),
    mMsgs := mMsgs s @ [MsgTimerRemove (a, mFutureTime st)]\<rparr>"
  have stop: "LocTimer_stop c s = Some (True, s')"
    using st run by (simp add: LocTimer_stop_def destroyLocked_def s'_def st'_def Let_def)
  have o: "owned s' = owned s" by (simp add: owned_def s'_def)
  have r: "removes (mMsgs s') = removes (mMsgs s) @ [(a, mFutureTime st)]" by (simp add: s'_def)
  have new: "(a, mFutureTime st) \<notin> set (removes (mMsgs s))"
    using timer_inv_remove [OF inv, of "(a, mFutureTime st)"] st by auto
  have only: "b = a" if "live s b = Some sb" "mClient sb = Some c" for b sb
    using timer_inv_live(5) [OF inv that] run by simp
  have "owned_live s'"
    unfolding owned_live_def o
  proof (intro allI conjI impI)
    fix x
    show "count (owned s) x \<le> 1" using inv unfolding timer_inv_def owned_live_def by blast
    assume "x \<in># owned s"
    from timer_inv_owned [OF inv this] st
    show "\<exists>st. live s' (fst x) = Some st \<and> mFutureTime st = snd x"
      by (cases "fst x = a") (auto simp: s'_def st'_def)
  qed
  moreover have "removes_live s'"
    unfolding removes_live_def r
  proof (intro conjI ballI)
    show "distinct (removes (mMsgs s) @ [(a, mFutureTime st)])" "push_first (mMsgs s')"
      using inv new by (simp_all add: s'_def timer_inv_def removes_live_def push_first_def sorted_wrt_append)
    fix d
    assume "d \<in> set (removes (mMsgs s) @ [(a, mFutureTime st)])"
    then have "d \<in> set (removes (mMsgs s)) \<or> (fst d = a \<and> snd d = mFutureTime st)" by auto
    then show "\<exists>st. live s' (fst d) = Some st \<and> mFutureTime st = snd d \<and> \<not> mContainer st"
      using timer_inv_remove [OF inv, of d] st by (cases "fst d = a") (auto simp: s'_def st'_def)
  qed
  moreover have "delegates_ok (X - {a}) s'"
    unfolding delegates_ok_def o r using timer_inv_live [OF inv] st
    by (auto simp: s'_def st'_def)
  moreover have "clients_ok s'"
    using inv st unfolding clients_ok_def timer_inv_def
    by (auto simp: s'_def st'_def dest: only)
  ultimately have "timer_inv (X - {a}) s'"
    using inv by (simp add: timer_inv_def s'_def)
  with stop o show ?thesis by (simp add: s'_def)
qed

lemma timer_inv_weaken: "timer_inv {} s \<Longrightarrow> timer_inv X s"
  by (auto simp: timer_inv_def delegates_ok_def)

lemma timer_inv_unlinked:
  assumes "timer_inv {a} s" "live s a = Some st" "mClient st = None"
  shows "timer_inv {} s"
proof -
  have "delegates_ok {} s"
    unfolding delegates_ok_def
  proof (intro allI impI)
    fix b st'
    assume b: "live s b = Some st'"
    from assms b have "mContainer st' \<longrightarrow> b \<noteq> a" using timer_inv_live(2) [OF assms(1) b] by auto
    with timer_inv_live [OF assms(1) b] show "time_ok (mFutureTime st') \<and>
      (mContainer st' \<longleftrightarrow> mClient st' \<noteq> None) \<and>
      (mContainer st' \<and> b \<notin> {} \<longrightarrow> (b, mFutureTime st') \<in># owned s) \<and>
      (\<not> mContainer st' \<longrightarrow> (b, mFutureTime st') \<in> set (removes (mMsgs s)))" by auto
  qed
  with assms(1) show ?thesis by (simp add: timer_inv_def)
qed

text \<open>
  Expiring a popped delegate calls its client back at most once, and only if the client was
  running; either way the delegate has left its container afterwards.
\<close>

lemma delegate_expire_inv:
  assumes inv: "timer_inv {a} s" and a: "live s a = Some st"
  shows "\<exists>s'. delegate_expire a s = Some s' \<and> timer_inv {} s' \<and> mTree s' = mTree s \<and> owned s' = owned s \<and>
    fired s' = fired s @ (case mClient st of None \<Rightarrow> [] | Some c \<Rightarrow> [c]) \<and>
    mTimer s' = (case mClient st of None \<Rightarrow> mTimer s | Some c \<Rightarrow> (mTimer s)(c := None))"
proof (cases "mClient st")
  case None
  with a timer_inv_unlinked [OF inv a] show ?thesis by (simp add: delegate_expire_def)
next
  case (Some c)
  from timer_inv_stop [OF inv timer_inv_live(5) [OF inv a Some]] obtain s' where
    "LocTimer_stop c s = Some (True, s')" "timer_inv {} s'" "mTree s' = mTree s"
    "mTimer s' = (mTimer s)(c := None)" "fired s' = fired s" "owned s' = owned s" by auto
  with a Some show ?thesis by (simp add: delegate_expire_def owned_def)
qed

lemma expire_loop_inv:
  assumes "timer_inv X s" "case timer of None \<Rightarrow> X = {} | Some d \<Rightarrow> X = {fst d} \<and> live s (fst d) \<noteq> None"
  shows "\<exists>s'. expire_loop now timer s = Some s' \<and> timer_inv {} s' \<and>
    (\<exists>fs. fired s' = fired s @ fs \<and> distinct fs \<and> (\<forall>c\<in>set fs. mTimer s c \<noteq> None \<and> mTimer s' c = None)) \<and>
    (\<forall>c. mTimer s' c \<noteq> None \<longrightarrow> mTimer s' c = mTimer s c) \<and>
    (timer \<noteq> None \<and> time_ok now \<longrightarrow> (\<forall>d\<in>#heap_mset (mTree s'). ns now < ns (snd d))) \<and>
    (\<forall>d st c. timer = Some d \<longrightarrow> live s (fst d) = Some st \<longrightarrow> mClient st = Some c \<longrightarrow>
       (\<exists>fs. fired s' = fired s @ c # fs))"
  using assms
proof (induction "size (heap_mset (mTree s))" arbitrary: s timer X rule: less_induct)
  case less
  show ?case
  proof (cases timer)
    case None
    with less.prems show ?thesis by (subst expire_loop.simps) (auto intro!: exI [of _ "[]"])
  next
    case (Some d)
    with less.prems obtain st where st: "live s (fst d) = Some st" and X: "timer_inv {fst d} s" by auto
    define cs where "cs = (case mClient st of None \<Rightarrow> [] | Some c \<Rightarrow> [c])"
    from delegate_expire_inv [OF X st] obtain s1 where s1: "delegate_expire (fst d) s = Some s1"
      "timer_inv {} s1" "mTree s1 = mTree s" "fired s1 = fired s @ cs"
      "mTimer s1 = (case mClient st of None \<Rightarrow> mTimer s | Some c \<Rightarrow> (mTimer s)(c := None))"
      by (auto simp: cs_def)
    have running: "\<forall>c\<in>set cs. mTimer s c \<noteq> None"
      using timer_inv_live(5) [OF X st] by (auto simp: cs_def split: option.splits)
    have t1: "mTimer s1 c = (if c \<in> set cs then None else mTimer s c)" for c
      using s1(5) by (auto simp: cs_def split: option.splits)
    have dcs: "distinct cs" by (auto simp: cs_def split: option.splits)
    have step: "expire_loop now timer s =
        expire_loop now (fst (popIfOutRanks now s1)) (snd (popIfOutRanks now s1))"
      using s1(1) Some by (subst expire_loop.simps) simp
    have h: "heap_inv timer_ranks timer_dom (mTree s1)" using s1(2) by (simp add: timer_inv_def)
    show ?thesis
    proof (cases "\<exists>e. heap_peek (mTree s1) = Some e \<and> \<not> outRanks timer_ranks (NULL, now) e")
      case False
      have "popIfOutRanks now s1 = (None, s1)"
        using False by (auto simp: popIfOutRanks_def split: option.splits)
      then have "expire_loop now timer s = Some s1"
        unfolding step by (subst expire_loop.simps) simp
      moreover have "ns now < ns (snd e)" if "time_ok now" "e \<in># heap_mset (mTree s1)" for e
      proof -
        from that(2) obtain u where u: "heap_peek (mTree s1) = Some u"
          using timers.peek_None [OF h] by (cases "heap_peek (mTree s1)") auto
        with False have "outRanks timer_ranks (NULL, now) u" by auto
        moreover have "u \<in> timer_dom" "e \<in> timer_dom" "\<not> outRanks timer_ranks e u"
          using timers.peek_Some [OF h u] timers.content_C [OF h] that(2) by auto
        ultimately show ?thesis
          using that(1) timer_outRanks [of "(NULL, now)" u] timer_outRanks [of e u]
          by (auto simp: timer_dom_def)
      qed
      ultimately show ?thesis using s1(2,4) running dcs t1 st Some
        by (auto simp: cs_def intro!: exI [of _ cs])
    next
      case True
      then obtain e t where e: "heap_peek (mTree s1) = Some e" "heap_pop timer_ranks (mTree s1) = (Some e, t)"
        and pop: "popIfOutRanks now s1 = (Some e, s1\<lparr>mTree := t\<rparr>)"
        using timers.pop_law [OF h] by (cases "heap_pop timer_ranks (mTree s1)") (fastforce simp: popIfOutRanks_def)
      note p = timer_inv_pop [OF s1(2) e(2)]
      have "size (heap_mset (mTree (s1\<lparr>mTree := t\<rparr>))) < size (heap_mset (mTree s))"
        using p(4) s1(3) by simp
      from less.hyps [OF this p(1), of "Some e"] p(3) obtain s' fs where s': "expire_loop now (Some e) (s1\<lparr>mTree := t\<rparr>) = Some s'"
        "timer_inv {} s'" "fired s' = fired s1 @ fs" "distinct fs"
        "\<forall>c\<in>set fs. mTimer s1 c \<noteq> None \<and> mTimer s' c = None"
        "\<forall>c. mTimer s' c \<noteq> None \<longrightarrow> mTimer s' c = mTimer s1 c"
        "time_ok now \<longrightarrow> (\<forall>d\<in>#heap_mset (mTree s'). ns now < ns (snd d))" by auto
      have "fired s' = fired s @ (cs @ fs)" using s'(3) s1(4) by simp
      moreover have "distinct (cs @ fs)" using dcs s'(4,5) t1 by auto
      moreover have "\<forall>c\<in>set (cs @ fs). mTimer s c \<noteq> None \<and> mTimer s' c = None"
        using running s'(5,6) t1 by (auto split: if_splits)
      moreover have "\<forall>c. mTimer s' c \<noteq> None \<longrightarrow> mTimer s' c = mTimer s c"
        using s'(6) t1 by metis
      ultimately show ?thesis using s'(1,2,7) step pop st Some by (auto simp: cs_def)
    qed
  qed
qed

section \<open>Steps keep the invariant and do not fault\<close>

lemma timer_inv_push_proc:
  assumes inv: "timer_inv {} s" and m: "mMsgs s = MsgTimerPush d # rest"
  shows "timer_inv {} (push_proc d (s\<lparr>mMsgs := rest\<rparr>))"
proof -
  define s' where "s' = s\<lparr>mMsgs := rest, mTree := heap_push timer_ranks d (mTree s)\<rparr>"
  have "d \<in># owned s" by (simp add: owned_def m)
  from timer_inv_owned [OF inv this] obtain st where st: "live s (fst d) = Some st" "mFutureTime st = snd d" by auto
  with timer_inv_live(1) [OF inv st(1)] have d: "d \<in> timer_dom" by (simp add: timer_dom_def)
  have h: "heap_inv timer_ranks timer_dom (mTree s)" using inv by (simp add: timer_inv_def)
  from timers.push_law [OF h d] have p: "heap_inv timer_ranks timer_dom (mTree s')" "owned s' = owned s"
    by (simp_all add: s'_def owned_def m)
  have "timer_inv {} s'"
    using inv p unfolding timer_inv_def owned_live_def removes_live_def delegates_ok_def clients_ok_def p(2)
    by (simp add: s'_def m push_first_def)
  then show ?thesis by (simp add: push_proc_def s'_def)
qed

lemma timer_inv_skip:
  assumes "timer_inv {} s" "mMsgs s = MsgTimerExpire # rest"
  shows "timer_inv {} (s\<lparr>mMsgs := rest\<rparr>)"
  using assms by (simp add: timer_inv_defs owned_def push_first_def)

lemma timer_inv_remove_proc:
  assumes inv: "timer_inv {} s" and m: "mMsgs s = MsgTimerRemove d # rest"
  shows "\<exists>s'. remove_proc d (s\<lparr>mMsgs := rest\<rparr>) = Some s' \<and> timer_inv {} s' \<and>
    fired s' = fired s \<and> mTimer s' = mTimer s"
proof -
  have h: "heap_inv timer_ranks timer_dom (mTree s)" using inv by (simp add: timer_inv_def)
  have "d \<in> set (removes (mMsgs s))" by (simp add: m)
  from timer_inv_remove [OF inv this] obtain st where
    st: "live s (fst d) = Some st" "mFutureTime st = snd d" "\<not> mContainer st" by auto
  with timer_inv_live(1,2) [OF inv st(1)] have d: "d \<in> timer_dom" "mClient st = None"
    by (simp_all add: timer_dom_def)
  obtain r t where rt: "heap_remove timer_ranks d (mTree s) = (r, t)" by fastforce
  from timers.remove_law [OF h d(1) rt] have law: "heap_inv timer_ranks timer_dom t"
    "heap_mset t = heap_mset (mTree s) - {#d#}" by (auto split: if_splits)
  define s1 where "s1 = s\<lparr>mMsgs := rest, mTree := t, live := (live s)(fst d := None)\<rparr>"
  have np: "d \<notin> set (pushes rest)"
    using inv by (auto simp: timer_inv_def removes_live_def push_first_def m set_pushes)
  have o: "owned s1 = owned s - {#d#}"
  proof (rule multiset_eqI)
    fix x
    from np have "count (mset (pushes rest)) d = 0" by (simp flip: not_in_iff)
    then show "count (owned s1) x = count (owned s - {#d#}) x"
      by (cases "x = d") (simp_all add: s1_def owned_def law(2) m del: count_mset_0_iff count_eq_zero_iff)
  qed
  have cnt: "count (owned s) x \<le> 1" for x using inv unfolding timer_inv_def owned_live_def by blast
  have nd: "d \<notin># owned s1" using cnt [of d] by (simp add: o not_in_iff)
  have "owned_live s1"
    unfolding owned_live_def
  proof (intro allI conjI impI)
    fix x
    show "count (owned s1) x \<le> 1" using cnt [of x] by (simp add: o)
    assume x: "x \<in># owned s1"
    then have "x \<in># owned s" by (simp add: o in_diffD)
    from timer_inv_owned [OF inv this] obtain sx where
      sx: "live s (fst x) = Some sx" "mFutureTime sx = snd x" by auto
    have "fst x \<noteq> fst d" using sx st x nd by (metis option.inject prod.expand)
    with sx show "\<exists>st. live s1 (fst x) = Some st \<and> mFutureTime st = snd x" by (simp add: s1_def)
  qed
  moreover have "removes_live s1"
    unfolding removes_live_def
  proof (intro conjI ballI)
    show dist: "distinct (removes (mMsgs s1))" "push_first (mMsgs s1)"
      using inv by (simp_all add: s1_def timer_inv_def removes_live_def push_first_def m)
    fix x
    assume x: "x \<in> set (removes (mMsgs s1))"
    then have "x \<in> set (removes (mMsgs s))" by (simp add: s1_def m)
    from timer_inv_remove [OF inv this] obtain sx where
      sx: "live s (fst x) = Some sx" "mFutureTime sx = snd x" "\<not> mContainer sx" by auto
    have "x \<noteq> d" using inv x by (auto simp: timer_inv_def removes_live_def m s1_def)
    then have "fst x \<noteq> fst d" using sx st by (metis option.inject prod.expand)
    with sx show "\<exists>st. live s1 (fst x) = Some st \<and> mFutureTime st = snd x \<and> \<not> mContainer st"
      by (simp add: s1_def)
  qed
  moreover have "delegates_ok {} s1"
    unfolding delegates_ok_def
  proof (intro allI impI)
    fix a sa
    assume "live s1 a = Some sa"
    then have sa: "live s a = Some sa" "a \<noteq> fst d" by (auto simp: s1_def split: if_splits)
    have ne: "(a, mFutureTime sa) \<noteq> d" using sa(2) by auto
    have r1: "removes (mMsgs s1) = removes rest" by (simp add: s1_def)
    show "time_ok (mFutureTime sa) \<and> (mContainer sa \<longleftrightarrow> mClient sa \<noteq> None) \<and>
      (mContainer sa \<and> a \<notin> {} \<longrightarrow> (a, mFutureTime sa) \<in># owned s1) \<and>
      (\<not> mContainer sa \<longrightarrow> (a, mFutureTime sa) \<in> set (removes (mMsgs s1)))"
      using timer_inv_live(1-4) [OF inv sa(1)] ne by (auto simp: o m r1 in_diff_count)
  qed
  moreover have "clients_ok s1"
    using inv st d(2) unfolding clients_ok_def timer_inv_def by (auto simp: s1_def)
  ultimately have inv1: "timer_inv {} s1" using law(1) by (simp add: timer_inv_def s1_def)
  define s2 where "s2 = (if heap_peek (mTree s) = r
    then updateSoonestTime None (s\<lparr>mMsgs := rest, mTree := t\<rparr>) else s\<lparr>mMsgs := rest, mTree := t\<rparr>)"
  have "remove_proc d (s\<lparr>mMsgs := rest\<rparr>) = Some (s2\<lparr>live := (live s2)(fst d := None)\<rparr>)"
    using st rt by (simp add: remove_proc_def s2_def Let_def)
  moreover have "timer_inv {} (s2\<lparr>live := (live s2)(fst d := None)\<rparr>)"
    by (rule timer_inv_cong [THEN iffD1, OF _ _ _ _ inv1]) (simp_all add: s1_def s2_def)
  ultimately show ?thesis by (auto simp: s2_def)
qed

lemma timer_inv_expire_proc:
  assumes "timer_inv {} s"
  shows "\<exists>s'. expire_proc now s = Some s' \<and> timer_inv {} s' \<and>
    (\<exists>fs. fired s' = fired s @ fs \<and> distinct fs \<and> (\<forall>c\<in>set fs. mTimer s c \<noteq> None \<and> mTimer s' c = None)) \<and>
    (time_ok now \<longrightarrow> (\<forall>d\<in>#heap_mset (mTree s'). ns now < ns (snd d))) \<and>
    (\<forall>d st c. heap_peek (mTree s) = Some d \<longrightarrow> live s (fst d) = Some st \<longrightarrow> mClient st = Some c \<longrightarrow>
       (\<exists>fs. fired s' = fired s @ c # fs))"
proof (cases "heap_pop timer_ranks (mTree s)")
  case (Pair r t)
  have h: "heap_inv timer_ranks timer_dom (mTree s)" using assms by (simp add: timer_inv_def)
  show ?thesis
  proof (cases r)
    case None
    with timers.pop_law [OF h Pair] timers.peek_None [OF h]
    have "t = NULLNode" "mTree s = NULLNode" by (cases t; cases "mTree s"; auto)+
    then have "s\<lparr>mTree := t\<rparr> = s" by simp
    with None Pair assms \<open>mTree s = NULLNode\<close> show ?thesis
      by (simp add: expire_proc_def expire_loop.simps heap_peek_def)
  next
    case (Some d)
    note p = timer_inv_pop [OF assms, of d t]
    have "heap_peek (mTree s) = Some d" using timers.pop_law [OF h Pair] Some by simp
    with expire_loop_inv [OF p(1), of "Some d" now] p(3) Pair Some show ?thesis
      by (auto simp: expire_proc_def)
  qed
qed

lemma timer_inv_start:
  assumes inv: "timer_inv {} s" and a: "live s a = None" "time_ok (future_time now ms)"
  shows "timer_inv {} (snd (LocTimer_start c a now ms container s))"
proof (cases "mTimer s c = None \<and> container")
  case True
  define t where "t = future_time now ms"
  define s' where "s' = snd (LocTimer_start c a now ms container s)"
  have s': "s' = s\<lparr>mTimer := (mTimer s)(c := Some a),
      live := (live s)(a \<mapsto> \<lparr>mClient = Some c, mContainer = True, mFutureTime = t\<rparr>),
      mMsgs := mMsgs s @ [MsgTimerPush (a, t)]\<rparr>"
    using True by (simp add: s'_def LocTimer_start_def t_def Let_def)
  have o: "owned s' = add_mset (a, t) (owned s)" by (simp add: s' owned_def)
  have none: "mClient sb \<noteq> Some c" if "live s b = Some sb" for b sb
    using timer_inv_live(5) [OF inv that] True by auto
  have new: "fst d \<noteq> a" if "d \<in># owned s \<or> d \<in> set (removes (mMsgs s))" for d
    using that timer_inv_owned [OF inv, of d] timer_inv_remove [OF inv, of d] a(1) by auto
  have "owned_live s'"
    unfolding owned_live_def o
  proof (intro allI conjI impI)
    fix x
    have "count (owned s) x \<le> 1" "x = (a, t) \<Longrightarrow> count (owned s) x = 0"
      using inv new [of x] by (auto simp: timer_inv_def owned_live_def simp flip: not_in_iff)
    then show "count (add_mset (a, t) (owned s)) x \<le> 1" by auto
    assume "x \<in># add_mset (a, t) (owned s)"
    then show "\<exists>st. live s' (fst x) = Some st \<and> mFutureTime st = snd x"
      using timer_inv_owned [OF inv, of x] new [of x] by (auto simp: s')
  qed
  moreover have "removes_live s'"
    unfolding removes_live_def
  proof (intro conjI ballI)
    have "MsgTimerRemove (a, t) \<notin> set (mMsgs s)"
      using new [of "(a, t)"] by (auto simp: set_removes)
    then show "distinct (removes (mMsgs s'))" "push_first (mMsgs s')"
      using inv by (auto simp: s' timer_inv_def removes_live_def push_first_def sorted_wrt_append)
    fix x
    assume "x \<in> set (removes (mMsgs s'))"
    then have "x \<in> set (removes (mMsgs s))" by (simp add: s')
    with timer_inv_remove [OF inv this] new [of x]
    show "\<exists>st. live s' (fst x) = Some st \<and> mFutureTime st = snd x \<and> \<not> mContainer st" by (simp add: s')
  qed
  moreover have "delegates_ok {} s'"
    using timer_inv_live(1-4) [OF inv] a(2) unfolding delegates_ok_def o
    by (auto simp: s' t_def)
  moreover have "clients_ok s'"
    using inv a(1) True unfolding clients_ok_def timer_inv_def by (auto simp: s' dest: none)
  ultimately show ?thesis using inv unfolding s'_def [symmetric] by (simp add: timer_inv_def s')
next
  case False
  with inv show ?thesis by (auto simp: LocTimer_start_def)
qed

lemma timer_inv_proc:
  assumes inv: "timer_inv {} s" and m: "mMsgs s = m # rest"
  shows "\<exists>s'. timer_proc now m (s\<lparr>mMsgs := rest\<rparr>) = Some s' \<and> timer_inv {} s' \<and>
    (\<exists>fs. fired s' = fired s @ fs \<and> distinct fs \<and> (\<forall>c\<in>set fs. mTimer s c \<noteq> None \<and> mTimer s' c = None))"
proof (cases m)
  case (MsgTimerPush d)
  with timer_inv_push_proc [OF inv] m show ?thesis
    by (auto simp: push_proc_def intro!: exI [of _ "[]"])
next
  case (MsgTimerRemove d)
  with timer_inv_remove_proc [OF inv, of d rest] m show ?thesis
    by (auto intro!: exI [of _ "[]"])
next
  case MsgTimerExpire
  with timer_inv_expire_proc [OF timer_inv_skip [OF inv], of rest now] m show ?thesis by auto
qed

lemma timer_step_inv: "timer_step now s s' \<Longrightarrow> timer_inv {} s \<Longrightarrow> timer_inv {} s'"
proof (induction rule: timer_step.induct)
  case (start a s now ms c container)
  then show ?case by (intro timer_inv_start)
next
  case (stop c s b s' now)
  then show ?case
    using timer_inv_stop [of "{}" s c] by (cases "mTimer s c") (auto simp: LocTimer_stop_def)
next
  case (fd s t now)
  then show ?case
    by (simp add: container_expire_def timer_inv_defs owned_def push_first_def sorted_wrt_append)
next
  case (msg s m rest now s')
  then show ?case using timer_inv_proc [of s m rest now] by auto
qed

inductive timer_reach :: "timer_sys \<Rightarrow> bool" where
  init: "timer_reach timer_init"
| step: "timer_reach s \<Longrightarrow> timer_step now s s' \<Longrightarrow> timer_reach s'"

lemma timer_reach_inv: "timer_reach s \<Longrightarrow> timer_inv {} s"
  by (induction rule: timer_reach.induct) (auto intro: timer_inv_init timer_step_inv)

text \<open>A schedule as a list, to compute with.\<close>

datatype timer_event = Start addr addr timespec u32 | Stop addr | Fd timespec | Proc timespec

fun timer_exec :: "timer_event list \<Rightarrow> timer_sys \<Rightarrow> timer_sys option" where
  "timer_exec [] s = Some s"
| "timer_exec (Start c a now ms # es) s =
     (if a \<noteq> NULL \<and> live s a = None \<and> time_ok (future_time now ms)
      then timer_exec es (snd (LocTimer_start c a now ms True s)) else None)"
| "timer_exec (Stop c # es) s = do { (_, s') \<leftarrow> LocTimer_stop c s; timer_exec es s' }"
| "timer_exec (Fd now # es) s =
     (case timerfd s of None \<Rightarrow> None
      | Some t \<Rightarrow> if polled s \<and> ns t \<le> ns now then timer_exec es (container_expire s) else None)"
| "timer_exec (Proc now # es) s =
     (case mMsgs s of [] \<Rightarrow> None
      | m # rest \<Rightarrow> do { s' \<leftarrow> timer_proc now m (s\<lparr>mMsgs := rest\<rparr>); timer_exec es s' })"

lemma timer_exec_reach: "timer_exec es s = Some s' \<Longrightarrow> timer_reach s \<Longrightarrow> timer_reach s'"
proof (induction es s rule: timer_exec.induct)
  case (2 c a now ms es s)
  then show ?case by (auto intro: timer_reach.step timer_step.start split: if_splits)
next
  case (3 c es s)
  then show ?case
    by (auto simp: bind_eq_Some_conv) (blast intro: timer_reach.step timer_step.stop)
next
  case (4 now es s)
  then show ?case by (auto intro: timer_reach.step timer_step.fd split: option.splits if_splits)
next
  case (5 now es s)
  then show ?case
    by (auto simp: bind_eq_Some_conv split: list.splits) (blast intro: timer_reach.step timer_step.msg)
qed simp

section \<open>Properties\<close>

text \<open>
  C5: in every state the service can reach, however starts, stops, expirations and messages
  interleave, everything the heap and the message queue refer to is a live delegate, and
  neither the next message nor a stop accesses a delegate that was deleted.
\<close>

theorem timer_service_memory_safe:
  assumes "timer_reach s"
  shows "(\<forall>d\<in>#heap_mset (mTree s). live s (fst d) \<noteq> None) \<and>
    (\<forall>d. MsgTimerPush d \<in> set (mMsgs s) \<or> MsgTimerRemove d \<in> set (mMsgs s) \<longrightarrow> live s (fst d) \<noteq> None) \<and>
    (\<forall>now m rest. mMsgs s = m # rest \<longrightarrow> timer_proc now m (s\<lparr>mMsgs := rest\<rparr>) \<noteq> None) \<and>
    (\<forall>c. LocTimer_stop c s \<noteq> None)"
proof -
  note inv = timer_reach_inv [OF assms]
  have o: "live s (fst d) \<noteq> None" if "d \<in># owned s \<or> d \<in> set (removes (mMsgs s))" for d
    using that timer_inv_owned [OF inv, of d] timer_inv_remove [OF inv, of d] by auto
  have "LocTimer_stop c s \<noteq> None" for c
    using timer_inv_stop [OF inv, of c] by (cases "mTimer s c") (auto simp: LocTimer_stop_def)
  moreover have "timer_proc now m (s\<lparr>mMsgs := rest\<rparr>) \<noteq> None" if "mMsgs s = m # rest" for now m rest
    using timer_inv_proc [OF inv that, of now] by auto
  ultimately show ?thesis
    using o by (auto simp: owned_def set_pushes [symmetric] set_removes [symmetric] simp del: not_None_eq)
qed

theorem timer_service_memory_safe_witness:
  "\<exists>s. timer_exec [Start 1 100 \<lparr>tv_sec = 5, tv_nsec = 0\<rparr> 10, Proc \<lparr>tv_sec = 5, tv_nsec = 0\<rparr>, Stop 1] timer_init = Some s \<and>
     mMsgs s \<noteq> [] \<and> live s 100 \<noteq> None \<and> timer_proc \<lparr>tv_sec = 6, tv_nsec = 0\<rparr> (hd (mMsgs s)) (s\<lparr>mMsgs := tl (mMsgs s)\<rparr>) \<noteq> None"
proof -
  define now where "now = \<lparr>tv_sec = 5, tv_nsec = 0\<rparr>"
  define s where "s = the (timer_exec [Start 1 100 now 10, Proc now, Stop 1] timer_init)"
  have run: "timer_exec [Start 1 100 now 10, Proc now, Stop 1] timer_init = Some s"
    and m: "\<exists>d rest. mMsgs s = MsgTimerRemove d # rest \<and> fst d = 100"
    by (simp_all add: s_def now_def timer_init_def LocTimer_start_def LocTimer_stop_def destroyLocked_def
      push_proc_def heap_push_def updateSoonestTime_def heap_peek_def future_time_def time_ok_def Let_def)
  from m obtain d rest where d: "mMsgs s = MsgTimerRemove d # rest" "fst d = 100" by auto
  from timer_service_memory_safe [OF timer_exec_reach [OF run timer_reach.init]] d
  have "live s 100 \<noteq> None" "timer_proc \<lparr>tv_sec = 6, tv_nsec = 0\<rparr> (MsgTimerRemove d) (s\<lparr>mMsgs := rest\<rparr>) \<noteq> None"
    by (metis list.set_intros(1))+
  with run d show ?thesis by (auto simp: now_def simp del: timer_proc.simps timer_exec.simps)
qed

text \<open>
  C32: processing a message calls back only clients whose timer was running, each at most once,
  and leaves their timers stopped; so a timer is never called back after it was stopped, and at
  most once for each start.
\<close>

theorem timer_callbacks_only_running:
  assumes "timer_reach s" "mMsgs s = m # rest"
  shows "\<exists>s' fs. timer_proc now m (s\<lparr>mMsgs := rest\<rparr>) = Some s' \<and> fired s' = fired s @ fs \<and> distinct fs \<and>
    (\<forall>c\<in>set fs. mTimer s c \<noteq> None \<and> mTimer s' c = None)"
  using timer_inv_proc [OF timer_reach_inv [OF assms(1)] assms(2), of now] by blast

abbreviation sched_early :: "timer_event list" where
  "sched_early \<equiv> [Start 1 100 \<lparr>tv_sec = 5, tv_nsec = 0\<rparr> 10, Start 2 200 \<lparr>tv_sec = 5, tv_nsec = 0\<rparr> 60000,
     Proc \<lparr>tv_sec = 5, tv_nsec = 0\<rparr>, Proc \<lparr>tv_sec = 5, tv_nsec = 0\<rparr>, Stop 1,
     Fd \<lparr>tv_sec = 5, tv_nsec = 10000000\<rparr>, Proc \<lparr>tv_sec = 5, tv_nsec = 10000000\<rparr>]"

lemmas timer_eval = timer_init_def LocTimer_start_def LocTimer_stop_def destroyLocked_def
  push_proc_def heap_push_def updateSoonestTime_def heap_peek_def future_time_def time_ok_def Let_def
  remove_proc_def expire_proc_def heap_remove_def heap_pop_def container_expire_def popIfOutRanks_def
  delegate_expire_def timer_ranks_def to_int32_def outRanks_def ns_def node_push_HNode

definition early_state :: timer_sys where
  "early_state = \<lparr>mTimer = (\<lambda>_. None)(2 \<mapsto> 200),
     live = [200 \<mapsto> \<lparr>mClient = Some 2, mContainer = True, mFutureTime = \<lparr>tv_sec = 65, tv_nsec = 0\<rparr>\<rparr>],
     mTree = HNode 1 NULLNode (200, \<lparr>tv_sec = 65, tv_nsec = 0\<rparr>) NULLNode,
     timerfd = Some \<lparr>tv_sec = 65, tv_nsec = 0\<rparr>, polled = True, mMsgs = [MsgTimerExpire], fired = []\<rparr>"

lemma early_state_run: "timer_exec sched_early timer_init = Some early_state"
  by (simp add: timer_eval early_state_def fun_eq_iff)

theorem timer_callbacks_only_running_witness:
  "\<exists>s' fs. timer_proc \<lparr>tv_sec = 5, tv_nsec = 10000000\<rparr> MsgTimerExpire (early_state\<lparr>mMsgs := []\<rparr>) = Some s' \<and>
     fired s' = fs \<and> distinct fs \<and> list_all (\<lambda>c. mTimer early_state c \<noteq> None \<and> mTimer s' c = None) fs"
proof -
  have m: "mMsgs early_state = [MsgTimerExpire]" "fired early_state = []" by (simp_all add: early_state_def)
  from timer_callbacks_only_running [OF timer_exec_reach [OF early_state_run timer_reach.init] m(1)] m(2)
  show ?thesis by (force simp: list_all_iff simp del: timer_proc.simps)
qed

text \<open>
  processing an expiration leaves no due timer behind, but it calls back the soonest
  timer without looking at its time, so that timer may be called back early: in the witness, a
  schedule in which the timer that expired is stopped while its expiration is on the way calls
  back another one 59.99 seconds before its time.
\<close>

theorem expiration_fires_soonest_timer:
  assumes "timer_reach s" "mMsgs s = MsgTimerExpire # rest" "heap_peek (mTree s) = Some d"
    "live s (fst d) = Some st" "mClient st = Some c" "time_ok now"
  shows "\<exists>s' fs. timer_proc now MsgTimerExpire (s\<lparr>mMsgs := rest\<rparr>) = Some s' \<and> fired s' = fired s @ c # fs \<and>
    (\<forall>e\<in>#heap_mset (mTree s'). ns now < ns (snd e))"
proof -
  from timer_inv_skip [OF timer_reach_inv [OF assms(1)] assms(2)]
  have "timer_inv {} (s\<lparr>mMsgs := rest\<rparr>)" .
  from timer_inv_expire_proc [OF this, of now] assms show ?thesis by fastforce
qed

theorem expiration_fires_soonest_timer_witness:
  "\<exists>s' fs. timer_proc \<lparr>tv_sec = 5, tv_nsec = 10000000\<rparr> MsgTimerExpire (early_state\<lparr>mMsgs := []\<rparr>) = Some s' \<and>
     fired s' = 2 # fs \<and> live early_state 200 = Some \<lparr>mClient = Some 2, mContainer = True,
       mFutureTime = \<lparr>tv_sec = 65, tv_nsec = 0\<rparr>\<rparr> \<and> mTimer early_state 2 = Some 200"
proof -
  have f: "mMsgs early_state = MsgTimerExpire # []" "fired early_state = []"
    "heap_peek (mTree early_state) = Some (200, \<lparr>tv_sec = 65, tv_nsec = 0\<rparr>)"
    "live early_state 200 = Some \<lparr>mClient = Some 2, mContainer = True, mFutureTime = \<lparr>tv_sec = 65, tv_nsec = 0\<rparr>\<rparr>"
    "mTimer early_state 2 = Some 200"
    by (simp_all add: early_state_def heap_peek_def)
  have "\<exists>s' fs. timer_proc \<lparr>tv_sec = 5, tv_nsec = 10000000\<rparr> MsgTimerExpire (early_state\<lparr>mMsgs := []\<rparr>) = Some s' \<and>
     fired s' = fired early_state @ 2 # fs \<and>
     (\<forall>e\<in>#heap_mset (mTree s'). ns \<lparr>tv_sec = 5, tv_nsec = 10000000\<rparr> < ns (snd e))"
    by (rule expiration_fires_soonest_timer [OF timer_exec_reach [OF early_state_run timer_reach.init] f(1,3),
          where c = 2 and st = "\<lparr>mClient = Some 2, mContainer = True, mFutureTime = \<lparr>tv_sec = 65, tv_nsec = 0\<rparr>\<rparr>"])
      (simp_all add: f(4) time_ok_def)
  with f show ?thesis by (auto simp del: timer_proc.simps)
qed

text \<open>
  the time \<open>start\<close> computes is exactly the requested delay after now, with a normalised
  nanosecond part, for every 32-bit delay.
\<close>

theorem future_time_exact:
  assumes "0 \<le> tv_nsec now" "tv_nsec now < 1000000000"
  shows "ns (future_time now ms) = ns now + uint ms * 1000000 \<and>
    0 \<le> tv_nsec (future_time now ms) \<and> tv_nsec (future_time now ms) < 1000000000"
  using assms by (rule future_time_ns)

theorem future_time_exact_witness:
  "ns (future_time \<lparr>tv_sec = 5, tv_nsec = 999000000\<rparr> 1002) = 7001000000 \<and>
   tv_nsec (future_time \<lparr>tv_sec = 5, tv_nsec = 999000000\<rparr> 1002) < 1000000000"
  using future_time_exact [of "\<lparr>tv_sec = 5, tv_nsec = 999000000\<rparr>" 1002] by (simp add: ns_def)

lemma ucast_add_push_bit_32: "(ucast (msec + push_bit 32 k :: u64) :: u32) = ucast msec"
  by transfer (simp add: take_bit_take_bit push_bit_eq_mult take_bit_eq_mod mod_mod_cancel)

text \<open>
  the C entry point drops the upper half of its 64-bit delay: a delay and the same delay
  plus any multiple of \<open>2 ^ 32\<close> milliseconds start the same timer.
\<close>

theorem loc_timer_start_truncates:
  "loc_timer_start c a now (msec + push_bit 32 k) container s = loc_timer_start c a now msec container s"
  by (simp only: loc_timer_start_def ucast_add_push_bit_32)

lemma heap_inv_pushes:
  "heap_inv timer_ranks timer_dom t \<Longrightarrow> set ds \<subseteq> timer_dom \<Longrightarrow>
     heap_inv timer_ranks timer_dom (fold (heap_push timer_ranks) ds t) \<and>
     heap_mset (fold (heap_push timer_ranks) ds t) = heap_mset t + mset ds"
proof (induction ds arbitrary: t)
  case (Cons d ds)
  with timers.push_law [of t d] show ?case by auto
qed simp

lemma heap_inv_NULLNode [simp]: "heap_inv timer_ranks timer_dom NULLNode"
  by (simp add: heap_inv_def)

text \<open>
  C28: the timer heap sorts: timers pushed in any order are popped with the soonest time
  first, every one of them exactly once.
\<close>

theorem heap_pops_timers_in_order:
  assumes "set ds \<subseteq> timer_dom"
    "pop_n (heap_pop timer_ranks) (length ds) (fold (heap_push timer_ranks) ds NULLNode) = (xs, t')"
  shows "mset xs = mset ds \<and> sorted_wrt (\<lambda>x y. ns (snd x) \<le> ns (snd y)) xs \<and> heap_peek t' = None"
proof -
  have inv: "heap_inv timer_ranks timer_dom (fold (heap_push timer_ranks) ds NULLNode)"
    and m: "heap_mset (fold (heap_push timer_ranks) ds NULLNode) = mset ds"
    using heap_inv_pushes [of NULLNode ds] assms(1) by simp_all
  note srt = timers.pop_all_sorted [OF inv _ assms(2), unfolded m size_mset, OF refl]
  then have "set xs \<subseteq> timer_dom" using assms(1) by (metis set_mset_mset)
  with srt have "sorted_wrt (\<lambda>x y. ns (snd x) \<le> ns (snd y)) xs"
    by (auto simp: timer_outRanks subset_iff not_less elim!: sorted_wrt_mono_rel [rotated])
  moreover have "heap_peek t' = None" using srt by (cases t') (auto simp: heap_peek_def)
  ultimately show ?thesis using srt by blast
qed

theorem heap_pops_timers_in_order_witness:
  "\<exists>xs t'. pop_n (heap_pop timer_ranks) (length [1::nat, 2, 3]) (fold (heap_push timer_ranks)
       [(1, \<lparr>tv_sec = 9, tv_nsec = 5\<rparr>), (2, \<lparr>tv_sec = 9, tv_nsec = 4\<rparr>), (3, \<lparr>tv_sec = 2, tv_nsec = 7\<rparr>)] NULLNode) = (xs, t') \<and>
     mset xs = {#(1, \<lparr>tv_sec = 9, tv_nsec = 5\<rparr>), (2, \<lparr>tv_sec = 9, tv_nsec = 4\<rparr>), (3, \<lparr>tv_sec = 2, tv_nsec = 7\<rparr>)#} \<and>
     sorted_wrt (\<lambda>x y. ns (snd x) \<le> ns (snd y)) xs"
proof -
  let ?ds = "[(1, \<lparr>tv_sec = 9, tv_nsec = 5\<rparr>), (2, \<lparr>tv_sec = 9, tv_nsec = 4\<rparr>), (3, \<lparr>tv_sec = 2, tv_nsec = 7\<rparr>)] :: delegate list"
  obtain xs t' where e: "pop_n (heap_pop timer_ranks) (length ?ds) (fold (heap_push timer_ranks) ?ds NULLNode) = (xs, t')"
    by fastforce
  have "set ?ds \<subseteq> timer_dom" by (simp add: timer_dom_def time_ok_def)
  from heap_pops_timers_in_order [OF this e] e show ?thesis by (intro exI [of _ xs] exI [of _ t']) simp
qed

text \<open>
  the consistency check of the heap's unit test, which compares each node with its two
  children and counts sizes, accepts the tree after every push, pop and removal, and a removal
  finds the timer wherever it is in the tree.
\<close>

theorem heap_operations_pass_checkNodes:
  assumes "checkNodes timer_ranks t" "set_mset (heap_mset t) \<subseteq> timer_dom" "d \<in> timer_dom"
  shows "checkNodes timer_ranks (heap_push timer_ranks d t) \<and>
    checkNodes timer_ranks (snd (heap_pop timer_ranks t)) \<and>
    checkNodes timer_ranks (snd (heap_remove timer_ranks d t)) \<and>
    (fst (heap_remove timer_ranks d t) = Some d \<longleftrightarrow> d \<in># heap_mset t)"
proof -
  have t: "heap_inv timer_ranks timer_dom t" using assms by (simp add: timers.checkNodes_heap_inv)
  have chk: "checkNodes timer_ranks u" if "heap_inv timer_ranks timer_dom u" for u
    using that timers.checkNodes_heap_inv [of u] by (simp add: heap_inv_def)
  obtain r u where u: "heap_remove timer_ranks d t = (r, u)" by fastforce
  obtain p v where v: "heap_pop timer_ranks t = (p, v)" by fastforce
  from timers.push_law [OF t assms(3)] timers.pop_law [OF t v] timers.remove_law [OF t assms(3) u] chk u v
  show ?thesis by (auto split: if_splits)
qed

theorem heap_operations_pass_checkNodes_witness:
  "\<exists>t. heap_mset t = {#(1, \<lparr>tv_sec = 9, tv_nsec = 5\<rparr>), (2, \<lparr>tv_sec = 9, tv_nsec = 4\<rparr>)#} \<and>
     checkNodes timer_ranks (snd (heap_remove timer_ranks (1, \<lparr>tv_sec = 9, tv_nsec = 5\<rparr>) t)) \<and>
     fst (heap_remove timer_ranks (1, \<lparr>tv_sec = 9, tv_nsec = 5\<rparr>) t) = Some (1, \<lparr>tv_sec = 9, tv_nsec = 5\<rparr>)"
proof -
  let ?t = "HNode 2 (HNode 1 NULLNode (1, \<lparr>tv_sec = 9, tv_nsec = 5\<rparr>) NULLNode) (2, \<lparr>tv_sec = 9, tv_nsec = 4\<rparr>) NULLNode
    :: delegate heap_node"
  have "checkNodes timer_ranks ?t" by (simp add: outRanks_def timer_ranks_def to_int32_def)
  from heap_operations_pass_checkNodes [OF this, of "(1, \<lparr>tv_sec = 9, tv_nsec = 5\<rparr>)"]
  have "checkNodes timer_ranks (snd (heap_remove timer_ranks (1, \<lparr>tv_sec = 9, tv_nsec = 5\<rparr>) ?t)) \<and>
     fst (heap_remove timer_ranks (1, \<lparr>tv_sec = 9, tv_nsec = 5\<rparr>) ?t) = Some (1, \<lparr>tv_sec = 9, tv_nsec = 5\<rparr>)"
    by (simp add: timer_dom_def time_ok_def)
  then show ?thesis by (intro exI [of _ ?t]) simp
qed

end
