(* ===== verification/SetMap.thy ===== *)
theory SetMap
  imports Prelude "HOL-Library.AList"
begin

text \<open>
  \<open>gps/utils/LocUnorderedSetMap.h\<close>: a map from keys to non-empty sets of values. An unordered
  set is the list of its elements in iteration order, an unordered map the list of its entries.
  What a client relies on is stated over the relation the map holds (locale
  \<open>relation_index\<close>); two indexes kept as converses of each other are the locale
  \<open>index_pair\<close>.
\<close>

type_synonym ('k, 'v) setmap = "('k \<times> 'v list) list"

section \<open>Sets\<close>

text \<open>The trimmed set, and \<open>goneVals\<close> with what was removed.\<close>

fun trimSet :: "'v list \<Rightarrow> 'v list \<Rightarrow> 'v list \<Rightarrow> 'v list \<times> 'v list" where
  "trimSet fromSet [] gone = (fromSet, gone)"
| "trimSet fromSet (v # rVals) gone =
     (if v \<in> set fromSet then trimSet (remove1 v fromSet) rVals (List.insert v gone)
      else trimSet fromSet rVals gone)"

text \<open>
  The loop advances the iterator \<open>b\<close> after it erased the element it points to: undefined, a
  fault here. So it ends only when there is nothing in common.
\<close>

fun intersect_loop :: "'v list \<Rightarrow> 'v list \<Rightarrow> 'v list option" where
  "intersect_loop s1 [] = Some []"
| "intersect_loop s1 (b # s2) = (if b \<in> set s1 then None else intersect_loop s1 s2)"

definition removeAndReturnInterset :: "'v list \<Rightarrow> 'v list \<Rightarrow> ('v list \<times> 'v list \<times> 'v list) option" where
  "removeAndReturnInterset s1 s2 = map_option (\<lambda>common. (common, s1, s2)) (intersect_loop s1 s2)"

section \<open>The map\<close>

definition getValSet :: "'k \<Rightarrow> ('k, 'v) setmap \<Rightarrow> 'v list" where
  "getValSet key m = (case map_of m key of Some S \<Rightarrow> S | None \<Rightarrow> [])"

definition getKeys :: "('k, 'v) setmap \<Rightarrow> 'k list" where
  "getKeys m = fold (\<lambda>entry keys. List.insert (fst entry) keys) m []"

definition setmap_remove :: "'k \<Rightarrow> ('k, 'v) setmap \<Rightarrow> bool \<times> ('k, 'v) setmap" where
  "setmap_remove key m = (map_of m key \<noteq> None, AList.delete key m)"

text \<open>Trim the entry of a key that is in the map: is the entry gone, the map, \<open>goneVals\<close>.\<close>

definition trim_entry ::
  "'k \<Rightarrow> 'v list \<Rightarrow> 'v list \<Rightarrow> 'v list \<Rightarrow> ('k, 'v) setmap \<Rightarrow> bool \<times> ('k, 'v) setmap \<times> 'v list" where
  "trim_entry key S rVals goneVals m =
     (case trimSet S rVals goneVals of (S', goneVals') \<Rightarrow>
        if S' = [] then (True, AList.delete key m, goneVals')
        else (False, AList.update key S' m, goneVals'))"

fun trimOrRemove ::
  "'k list \<Rightarrow> 'v list \<Rightarrow> 'k list \<Rightarrow> 'v list \<Rightarrow> ('k, 'v) setmap \<Rightarrow> ('k, 'v) setmap \<times> 'k list \<times> 'v list" where
  "trimOrRemove [] rVals goneKeys goneVals m = (m, goneKeys, goneVals)"
| "trimOrRemove (key # keys) rVals goneKeys goneVals m =
     (case map_of m key of
        None \<Rightarrow> trimOrRemove keys rVals goneKeys goneVals m
      | Some S \<Rightarrow>
          (case trim_entry key S rVals goneVals m of (removed, m', goneVals') \<Rightarrow>
             trimOrRemove keys rVals (if removed then List.insert key goneKeys else goneKeys) goneVals' m'))"

text \<open>\<open>add\<close> for one key; was a new entry added.\<close>

definition add_entry :: "'k \<Rightarrow> 'v list \<Rightarrow> ('k, 'v) setmap \<Rightarrow> bool \<times> ('k, 'v) setmap" where
  "add_entry key newVals m =
     (if newVals \<noteq> [] then
        (case map_of m key of
           Some S \<Rightarrow> (False, AList.update key (fold List.insert newVals S) m)
         | None \<Rightarrow> (True, AList.update key newVals m))
      else (False, m))"

fun add_keys :: "'k list \<Rightarrow> 'v list \<Rightarrow> 'k list \<Rightarrow> ('k, 'v) setmap \<Rightarrow> ('k, 'v) setmap \<times> 'k list" where
  "add_keys [] newVals newKeys m = (m, newKeys)"
| "add_keys (key # keys) newVals newKeys m =
     (case add_entry key newVals m of (added, m') \<Rightarrow>
        add_keys keys newVals (if added then List.insert key newKeys else newKeys) m')"

text \<open>The removed values, the values left in \<open>newVals\<close> and the map; \<open>None\<close> is a fault.\<close>

definition setmap_update ::
  "'k \<Rightarrow> 'v list \<Rightarrow> ('k, 'v) setmap \<Rightarrow> ('v list \<times> 'v list \<times> ('k, 'v) setmap) option" where
  "setmap_update key newVals m =
     (if newVals = [] then Some ([], newVals, AList.delete key m)
      else map_option (\<lambda>(common, cur, new). (common, new, AList.update key newVals m))
             (removeAndReturnInterset (getValSet key m) newVals))"

section \<open>The relation a map holds\<close>

definition setmap_rel :: "('k, 'v) setmap \<Rightarrow> ('k \<times> 'v) set" where
  "setmap_rel m = {(k, v). v \<in> set (getValSet k m)}"

text \<open>No key twice, no value twice, and no entry with an empty set.\<close>

definition setmap_inv :: "('k, 'v) setmap \<Rightarrow> bool" where
  "setmap_inv m \<longleftrightarrow> distinct (map fst m) \<and> (\<forall>k S. map_of m k = Some S \<longrightarrow> S \<noteq> [] \<and> distinct S)"

lemma rel_iff: "(k, v) \<in> setmap_rel m \<longleftrightarrow> (\<exists>S. map_of m k = Some S \<and> v \<in> set S)"
  by (cases "map_of m k") (auto simp: setmap_rel_def getValSet_def)

lemma set_eqI2: "(\<And>a b. (a, b) \<in> A \<longleftrightarrow> (a, b) \<in> B) \<Longrightarrow> A = B"
  by auto

lemma inv_entry: "setmap_inv m \<Longrightarrow> map_of m k = Some S \<Longrightarrow> S \<noteq> [] \<and> distinct S"
  by (simp add: setmap_inv_def)

lemma inv_delete: "setmap_inv m \<Longrightarrow> setmap_inv (AList.delete k m)"
  by (auto simp: setmap_inv_def AList.delete_conv' intro: AList.distinct_delete split: if_splits)

lemma inv_update: "setmap_inv m \<Longrightarrow> S \<noteq> [] \<Longrightarrow> distinct S \<Longrightarrow> setmap_inv (AList.update k S m)"
  by (auto simp: setmap_inv_def AList.update_conv' intro: AList.distinct_update split: if_splits)

lemma rel_delete: "setmap_rel (AList.delete k m) = {p \<in> setmap_rel m. fst p \<noteq> k}"
  by (auto simp: rel_iff AList.delete_conv' split: if_splits)

lemma rel_update: "setmap_rel (AList.update k S m) = {p \<in> setmap_rel m. fst p \<noteq> k} \<union> {k} \<times> set S"
  by (auto simp: rel_iff AList.update_conv' split: if_splits)

lemma Domain_rel:
  assumes "setmap_inv m"
  shows "k \<in> Domain (setmap_rel m) \<longleftrightarrow> map_of m k \<noteq> None"
proof (cases "map_of m k")
  case (Some S)
  with inv_entry [OF assms Some] have "\<exists>v. v \<in> set S" by (cases S) auto
  with Some show ?thesis by (simp add: Domain_iff rel_iff)
qed (simp add: Domain_iff rel_iff)

lemma set_getValSet: "set (getValSet k m) = setmap_rel m `` {k}"
  by (auto simp: setmap_rel_def)

lemma set_fold_insert [simp]: "set (fold List.insert xs S) = set S \<union> set xs"
  by (induction xs arbitrary: S) auto

lemma distinct_fold_insert [simp]: "distinct S \<Longrightarrow> distinct (fold List.insert xs S)"
  by (induction xs arbitrary: S) auto

lemma set_getKeys: "setmap_inv m \<Longrightarrow> set (getKeys m) = Domain (setmap_rel m)"
proof -
  assume "setmap_inv m"
  moreover have "set (fold (\<lambda>entry keys. List.insert (fst entry) keys) m ks) = set ks \<union> fst ` set m" for ks
    by (induction m arbitrary: ks) auto
  ultimately have "k \<in> set (getKeys m) \<longleftrightarrow> k \<in> Domain (setmap_rel m)" for k
    by (simp add: getKeys_def Domain_rel map_of_eq_None_iff)
  then show ?thesis by blast
qed

section \<open>What each operation does to the relation\<close>

lemma trimSet_fst: "distinct S \<Longrightarrow> fst (trimSet S rVals gone) = filter (\<lambda>v. v \<notin> set rVals) S"
proof (induction rVals arbitrary: S gone)
  case (Cons v rVals)
  then have "filter (\<lambda>w. w \<notin> set rVals) (remove1 v S) = filter (\<lambda>w. w \<notin> set (v # rVals)) S"
    by (simp add: distinct_remove1_removeAll removeAll_filter_not_eq) (metis (lifting))
  with Cons show ?case by (auto intro!: filter_cong)
qed simp

lemma trimSet_snd: "distinct S \<Longrightarrow> set (snd (trimSet S rVals gone)) = set gone \<union> (set S \<inter> set rVals)"
  by (induction rVals arbitrary: S gone) auto

lemma trim_entry_law:
  assumes "setmap_inv m" "map_of m k = Some S" "trim_entry k S rVals gone m = (removed, m', gone')"
  shows "setmap_inv m' \<and> setmap_rel m' = setmap_rel m - {k} \<times> set rVals \<and>
    set gone' = set gone \<union> (set S \<inter> set rVals) \<and> (removed \<longleftrightarrow> set S \<subseteq> set rVals)"
proof -
  obtain S' g where S': "trimSet S rVals gone = (S', g)" by fastforce
  from inv_entry [OF assms(1,2)] have d: "distinct S" by simp
  from trimSet_fst [OF d, of rVals gone] trimSet_snd [OF d, of rVals gone] S'
  have eqs: "S' = filter (\<lambda>v. v \<notin> set rVals) S" "set g = set gone \<union> (set S \<inter> set rVals)" by auto
  have k: "(k, v) \<in> setmap_rel m \<longleftrightarrow> v \<in> set S" for v using assms(2) by (simp add: rel_iff)
  show ?thesis
  proof (cases "S' = []")
    case True
    then have sub: "set S \<subseteq> set rVals" using eqs(1) by (auto simp: filter_empty_conv)
    have "setmap_rel (AList.delete k m) = setmap_rel m - {k} \<times> set rVals"
      using sub k by (auto simp: rel_delete)
    with True sub assms S' eqs show ?thesis by (auto simp: trim_entry_def inv_delete)
  next
    case False
    then have sub: "\<not> set S \<subseteq> set rVals" using eqs(1) by (auto simp: filter_empty_conv)
    have "(a, b) \<in> setmap_rel (AList.update k S' m) \<longleftrightarrow> (a, b) \<in> setmap_rel m - {k} \<times> set rVals" for a b
      using k [of b] eqs(1) by (cases "a = k") (simp_all add: rel_update)
    then have "setmap_rel (AList.update k S' m) = setmap_rel m - {k} \<times> set rVals" by (rule set_eqI2)
    moreover have "setmap_inv (AList.update k S' m)"
      using inv_update [OF assms(1) False] d eqs(1) by simp
    ultimately show ?thesis using False sub assms S' eqs by (auto simp: trim_entry_def)
  qed
qed

lemma trim_step_vals:
  "R1 = R - {k} \<times> V \<Longrightarrow> (g \<union> (R `` {k} \<inter> V)) \<union> (V \<inter> R1 `` K) = g \<union> (V \<inter> R `` insert k K)"
  by auto

lemma trim_step_keys:
  assumes "R1 = R - {k} \<times> V" "R' = R1 - K \<times> V" "removed \<longleftrightarrow> R `` {k} \<subseteq> V" "R `` {k} \<noteq> {}"
  shows "set (if removed then List.insert k g else g) \<union> (K \<inter> (Domain R1 - Domain R')) =
    set g \<union> (insert k K \<inter> (Domain R - Domain R'))"
proof -
  have k: "k \<in> Domain R" "k \<in> Domain R1 \<longleftrightarrow> \<not> removed" "removed \<Longrightarrow> k \<notin> Domain R'"
    using assms by auto
  have r: "\<not> removed \<Longrightarrow> k \<in> Domain R'" using assms(1-3) by auto
  have o: "a \<noteq> k \<Longrightarrow> a \<in> Domain R1 \<longleftrightarrow> a \<in> Domain R" for a using assms(1) by auto
  show ?thesis
  proof (rule set_eqI)
    fix a
    show "a \<in> set (if removed then List.insert k g else g) \<union> (K \<inter> (Domain R1 - Domain R')) \<longleftrightarrow>
      a \<in> set g \<union> (insert k K \<inter> (Domain R - Domain R'))"
      using k r o [of a] by (cases "a = k"; cases removed) simp_all
  qed
qed

lemma trimOrRemove_law:
  "setmap_inv m \<Longrightarrow> trimOrRemove keys rVals gk gv m = (m', gk', gv') \<Longrightarrow>
     setmap_inv m' \<and> setmap_rel m' = setmap_rel m - set keys \<times> set rVals \<and>
     set gk' = set gk \<union> (set keys \<inter> (Domain (setmap_rel m) - Domain (setmap_rel m'))) \<and>
     set gv' = set gv \<union> (set rVals \<inter> setmap_rel m `` set keys)"
proof (induction keys arbitrary: m gk gv)
  case (Cons k keys)
  show ?case
  proof (cases "map_of m k")
    case None
    with Cons.IH [OF Cons.prems(1), of gk gv] Cons.prems
    have IH: "setmap_inv m'" "setmap_rel m' = setmap_rel m - set keys \<times> set rVals"
      "set gk' = set gk \<union> (set keys \<inter> (Domain (setmap_rel m) - Domain (setmap_rel m')))"
      "set gv' = set gv \<union> (set rVals \<inter> setmap_rel m `` set keys)" by auto
    have "(k, v) \<notin> setmap_rel m" for v using None by (simp add: rel_iff)
    with IH show ?thesis by auto
  next
    case (Some S)
    obtain removed m1 gv1 where t: "trim_entry k S rVals gv m = (removed, m1, gv1)"
      by (metis prod_cases3)
    note law = trim_entry_law [OF Cons.prems(1) Some t]
    from Some have S: "set S = setmap_rel m `` {k}" by (auto simp: rel_iff)
    with inv_entry [OF Cons.prems(1) Some] have ne: "setmap_rel m `` {k} \<noteq> {}" by (metis set_empty)
    from Cons.IH [of m1 "if removed then List.insert k gk else gk" gv1] Cons.prems(2) Some t law
    have IH: "setmap_inv m'" "setmap_rel m' = setmap_rel m1 - set keys \<times> set rVals"
      "set gk' = set (if removed then List.insert k gk else gk) \<union>
         (set keys \<inter> (Domain (setmap_rel m1) - Domain (setmap_rel m')))"
      "set gv' = set gv1 \<union> (set rVals \<inter> setmap_rel m1 `` set keys)" by auto
    from law have m1: "setmap_rel m1 = setmap_rel m - {k} \<times> set rVals"
      "set gv1 = set gv \<union> (setmap_rel m `` {k} \<inter> set rVals)" "removed \<longleftrightarrow> setmap_rel m `` {k} \<subseteq> set rVals"
      by (simp_all add: S)
    from trim_step_vals [OF m1(1)] IH(4) m1(2)
    have "set gv' = set gv \<union> (set rVals \<inter> setmap_rel m `` set (k # keys))" by simp
    moreover from trim_step_keys [OF m1(1) IH(2) m1(3) ne] IH(3)
    have "set gk' = set gk \<union> (set (k # keys) \<inter> (Domain (setmap_rel m) - Domain (setmap_rel m')))" by simp
    moreover have "setmap_rel m' = setmap_rel m - set (k # keys) \<times> set rVals" using IH(2) m1(1) by auto
    ultimately show ?thesis using IH(1) by blast
  qed
qed simp

lemma add_entry_law:
  assumes "setmap_inv m" "distinct vs" "add_entry k vs m = (added, m')"
  shows "setmap_inv m' \<and> setmap_rel m' = setmap_rel m \<union> {k} \<times> set vs \<and>
    (added \<longleftrightarrow> vs \<noteq> [] \<and> k \<notin> Domain (setmap_rel m))"
proof (cases "map_of m k")
  case None
  then have "(k, v) \<notin> setmap_rel m" for v by (simp add: rel_iff)
  with None assms Domain_rel [OF assms(1), of k] show ?thesis
    by (auto simp: add_entry_def rel_update inv_update split: if_splits)
next
  case (Some S)
  then have k: "(k, v) \<in> setmap_rel m \<longleftrightarrow> v \<in> set S" for v by (simp add: rel_iff)
  from inv_entry [OF assms(1) Some] have S: "S \<noteq> []" "distinct S" by auto
  then have "fold List.insert vs S \<noteq> []" by (metis set_fold_insert set_empty Un_empty)
  with S assms(1) have "setmap_inv (AList.update k (fold List.insert vs S) m)" by (simp add: inv_update)
  with Some k assms Domain_rel [OF assms(1), of k] show ?thesis
    by (auto simp: add_entry_def rel_update split: if_splits)
qed

lemma add_keys_law:
  "setmap_inv m \<Longrightarrow> distinct vs \<Longrightarrow> add_keys keys vs nk m = (m', nk') \<Longrightarrow>
     setmap_inv m' \<and> setmap_rel m' = setmap_rel m \<union> set keys \<times> set vs \<and>
     set nk' = set nk \<union> (if vs = [] then {} else set keys - Domain (setmap_rel m))"
proof (induction keys arbitrary: m nk)
  case (Cons k keys)
  obtain added m1 where a: "add_entry k vs m = (added, m1)" by fastforce
  note law = add_entry_law [OF Cons.prems(1,2) a]
  from Cons.IH [of m1 "if added then List.insert k nk else nk"] Cons.prems a law
  have IH: "setmap_inv m'" "setmap_rel m' = setmap_rel m1 \<union> set keys \<times> set vs"
    "set nk' = set (if added then List.insert k nk else nk) \<union> (if vs = [] then {} else set keys - Domain (setmap_rel m1))"
    by auto
  have "Domain (setmap_rel m1) = (if vs = [] then Domain (setmap_rel m) else insert k (Domain (setmap_rel m)))"
    using law by (cases vs) auto
  with IH law show ?case by auto
qed simp

lemma intersect_loop_Some: "intersect_loop s1 s2 = (if set s1 \<inter> set s2 = {} then Some [] else None)"
  by (induction s2) auto

lemma setmap_update_eq:
  "setmap_update k vs m =
     (if vs = [] then Some ([], [], AList.delete k m)
      else if set (getValSet k m) \<inter> set vs = {} then Some ([], vs, AList.update k vs m) else None)"
  by (auto simp: setmap_update_def removeAndReturnInterset_def intersect_loop_Some)

section \<open>What clients of an index rely on\<close>

locale relation_index =
  fixes rel :: "'m \<Rightarrow> ('k \<times> 'v) set"
    and inv :: "'m \<Rightarrow> bool"
    and add1 :: "'k \<Rightarrow> 'v list \<Rightarrow> 'm \<Rightarrow> bool \<times> 'm"
    and add :: "'k list \<Rightarrow> 'v list \<Rightarrow> 'k list \<Rightarrow> 'm \<Rightarrow> 'm \<times> 'k list"
    and trim :: "'k list \<Rightarrow> 'v list \<Rightarrow> 'k list \<Rightarrow> 'v list \<Rightarrow> 'm \<Rightarrow> 'm \<times> 'k list \<times> 'v list"
    and get :: "'k \<Rightarrow> 'm \<Rightarrow> 'v list"
    and remove :: "'k \<Rightarrow> 'm \<Rightarrow> bool \<times> 'm"
  assumes add1_law: "inv m \<Longrightarrow> distinct vs \<Longrightarrow> add1 k vs m = (b, m') \<Longrightarrow>
      inv m' \<and> rel m' = rel m \<union> {k} \<times> set vs"
    and add_law: "inv m \<Longrightarrow> distinct vs \<Longrightarrow> add keys vs [] m = (m', new) \<Longrightarrow>
      inv m' \<and> rel m' = rel m \<union> set keys \<times> set vs \<and>
      set new = (if vs = [] then {} else set keys - Domain (rel m))"
    and trim_law: "inv m \<Longrightarrow> trim keys vs [] [] m = (m', gk, gv) \<Longrightarrow>
      inv m' \<and> rel m' = rel m - set keys \<times> set vs \<and>
      set gk = set keys \<inter> (Domain (rel m) - Domain (rel m')) \<and> set gv = set vs \<inter> rel m `` set keys"
    and get_law: "set (get k m) = rel m `` {k}"
    and remove_law: "inv m \<Longrightarrow> remove k m = (b, m') \<Longrightarrow> inv m' \<and> rel m' = {p \<in> rel m. fst p \<noteq> k}"

text \<open>
  A forward index from owners to things and a backward index from things to owners. Each
  update of the pair is one on the forward index and one on the backward index.
\<close>

locale index_pair =
  fwd: relation_index relF invF add1F addF trimF getF removeF +
  bwd: relation_index relB invB add1B addB trimB getB removeB
  for relF :: "'f \<Rightarrow> ('o \<times> 't) set" and invF add1F addF trimF getF removeF
    and relB :: "'b \<Rightarrow> ('t \<times> 'o) set" and invB add1B addB trimB getB removeB
begin

definition pair_inv :: "'f \<Rightarrow> 'b \<Rightarrow> bool" where
  "pair_inv f b \<longleftrightarrow> invF f \<and> invB b \<and> relB b = (relF f)\<inverse>"

lemma add_both:
  assumes "pair_inv f b" "distinct ts" "add1F ow ts f = (x, f')" "addB ts [ow] [] b = (b', new)"
  shows "pair_inv f' b'" "relF f' = relF f \<union> {ow} \<times> set ts"
    "set new = set ts - Domain (relB b)" "Domain (relB b') = Domain (relB b) \<union> set new"
proof -
  from fwd.add1_law [OF _ assms(2,3)] assms(1) have f: "invF f'" "relF f' = relF f \<union> {ow} \<times> set ts"
    by (auto simp: pair_inv_def)
  from bwd.add_law [OF _ _ assms(4)] assms(1)
  have b: "invB b'" "relB b' = relB b \<union> set ts \<times> {ow}" "set new = set ts - Domain (relB b)"
    by (auto simp: pair_inv_def)
  from f b assms(1) show "pair_inv f' b'" by (auto simp: pair_inv_def)
  show "relF f' = relF f \<union> {ow} \<times> set ts" "set new = set ts - Domain (relB b)" by (fact f(2) b(3))+
  from b show "Domain (relB b') = Domain (relB b) \<union> set new" by auto
qed

lemma trim_both:
  assumes "pair_inv f b" "trimF [ow] ts [] [] f = (f', gk, gv)" "trimB gv [ow] [] [] b = (b', gone, x)"
  shows "pair_inv f' b'" "relF f' = relF f - {ow} \<times> set ts"
    "Domain (relB b') = Domain (relB b) - set gone" "set gone \<subseteq> Domain (relB b)"
proof -
  from fwd.trim_law [OF _ assms(2)] assms(1)
  have f: "invF f'" "relF f' = relF f - {ow} \<times> set ts" "set gv = set ts \<inter> relF f `` {ow}"
    by (auto simp: pair_inv_def)
  from bwd.trim_law [OF _ assms(3)] assms(1)
  have b: "invB b'" "relB b' = relB b - set gv \<times> {ow}" "set gone = set gv \<inter> (Domain (relB b) - Domain (relB b'))"
    by (auto simp: pair_inv_def)
  have "relB b' = (relF f')\<inverse>" using b(2) f(2,3) assms(1) by (auto simp: pair_inv_def)
  with f b show "pair_inv f' b'" by (simp add: pair_inv_def)
  show "relF f' = relF f - {ow} \<times> set ts" by (fact f(2))
  from b show "Domain (relB b') = Domain (relB b) - set gone" "set gone \<subseteq> Domain (relB b)" by auto
qed

lemma remove_both:
  assumes "pair_inv f b" "removeF ow f = (y, f')" "trimB (getF ow f) [ow] [] [] b = (b', gone, x)"
  shows "pair_inv f' b'" "relF f' = {p \<in> relF f. fst p \<noteq> ow}"
    "Domain (relB b') = Domain (relB b) - set gone" "set gone \<subseteq> Domain (relB b)"
proof -
  from fwd.remove_law [OF _ assms(2)] assms(1)
  have f: "invF f'" "relF f' = {p \<in> relF f. fst p \<noteq> ow}" by (auto simp: pair_inv_def)
  from bwd.trim_law [OF _ assms(3)] assms(1) fwd.get_law [of ow f]
  have b: "invB b'" "relB b' = relB b - (relF f `` {ow}) \<times> {ow}"
    "set gone = relF f `` {ow} \<inter> (Domain (relB b) - Domain (relB b'))"
    by (auto simp: pair_inv_def)
  have "relB b' = (relF f')\<inverse>" using b(2) f(2) assms(1) by (auto simp: pair_inv_def)
  with f b show "pair_inv f' b'" by (simp add: pair_inv_def)
  show "relF f' = {p \<in> relF f. fst p \<noteq> ow}" by (fact f(2))
  from b show "Domain (relB b') = Domain (relB b) - set gone" "set gone \<subseteq> Domain (relB b)" by auto
qed

end

interpretation index: relation_index setmap_rel setmap_inv add_entry add_keys trimOrRemove getValSet setmap_remove
proof (unfold_locales, goal_cases)
  case (1 m vs k b m')
  from add_entry_law [OF this] show ?case by simp
next
  case (2 m vs keys m' new)
  from add_keys_law [OF this] show ?case by simp
next
  case (3 m keys vs m' gk gv)
  from trimOrRemove_law [OF this] show ?case by simp
next
  case (4 k m)
  show ?case by (rule set_getValSet)
next
  case (5 m k b m')
  then show ?case by (auto simp: setmap_remove_def inv_delete rel_delete)
qed

interpretation indexes: index_pair setmap_rel setmap_inv add_entry add_keys trimOrRemove getValSet setmap_remove
    setmap_rel setmap_inv add_entry add_keys trimOrRemove getValSet setmap_remove
  by unfold_locales

end
