(* ===== verification/OsObserver.thy ===== *)
theory OsObserver
  imports SetMap
begin

text \<open>
  \<open>gps/core/SystemStatusOsObserver.cpp\<close>: clients subscribe to data items of the framework. Two
  indexes, from clients to items and from items to clients, decide what is requested from the
  framework and who is told of an update. Requests are messages processed one at a time.
  The data items and the system status they are recorded in are parameters (\<open>di_ops\<close>).
\<close>

section \<open>Data and state\<close>

text \<open>
  Of a data item \<open>'d\<close>: its id; recording it in the system status \<open>'ss\<close>, which says whether it
  is handled and may update the item; a copy from the factory, which may fail; and the cached
  item after \<open>copyFrom\<close> the new one.
\<close>

record ('d, 'ss) di_ops =
  getId :: "'d \<Rightarrow> nat"
  eventDataItemNotify :: "'d \<Rightarrow> 'ss \<Rightarrow> bool \<times> 'd \<times> 'ss"
  createNewDataItem :: "'d \<Rightarrow> 'd option"
  copyFrom :: "'d \<Rightarrow> 'd \<Rightarrow> 'd"

text \<open>Calls to the subscription object and to clients, as they are made.\<close>

datatype 'd os_call =
    NewSubscriptionObj addr
  | FwSubscribe "nat list"
  | FwRequestData "nat list"
  | FwUnsubscribe "nat list"
  | ClientNotify addr "'d list"

record ('d, 'ss) os_observer =
  mSystemStatus :: 'ss
  mSubscriptionObj :: addr
  mClientToDataItems :: "(addr, nat) setmap"
  mDataItemToClients :: "(nat, addr) setmap"
  mDataItemCache :: "(nat \<times> 'd) list"
  calls :: "'d os_call list"

datatype 'd os_msg =
    SetSubsObj addr
  | HandleSubscribeReq "nat list" addr bool
  | HandleUpdateSubscriptionReq "nat list" addr
  | HandleUnsubscribeReq "nat list" addr
  | HandleUnsubscribeAllReq addr
  | HandleNotify "'d list"

definition os_init :: "'ss \<Rightarrow> ('d, 'ss) os_observer" where
  "os_init ss = \<lparr>mSystemStatus = ss, mSubscriptionObj = NULL, mClientToDataItems = [],
     mDataItemToClients = [], mDataItemCache = [], calls = []\<rparr>"

section \<open>The interface: what is sent to the task\<close>

definition setSubscriptionObj :: "addr \<Rightarrow> 'd os_msg list" where
  "setSubscriptionObj obj = (if obj = NULL then [] else [SetSubsObj obj])"

definition os_subscribe :: "nat list \<Rightarrow> addr \<Rightarrow> bool \<Rightarrow> 'd os_msg list" where
  "os_subscribe l client toRequestData =
     (if l = [] \<or> client = NULL then [] else [HandleSubscribeReq l client toRequestData])"

definition os_updateSubscription :: "nat list \<Rightarrow> addr \<Rightarrow> 'd os_msg list" where
  "os_updateSubscription l client =
     (if l = [] \<or> client = NULL then [] else [HandleUpdateSubscriptionReq l client])"

definition os_unsubscribe :: "nat list \<Rightarrow> addr \<Rightarrow> 'd os_msg list" where
  "os_unsubscribe l client = (if l = [] \<or> client = NULL then [] else [HandleUnsubscribeReq l client])"

definition os_unsubscribeAll :: "addr \<Rightarrow> 'd os_msg list" where
  "os_unsubscribeAll client = (if client = NULL then [] else [HandleUnsubscribeAllReq client])"

text \<open>Items the factory cannot copy are skipped.\<close>

definition os_notify :: "('d, 'ss) di_ops \<Rightarrow> 'd list \<Rightarrow> 'd os_msg list" where
  "os_notify ops dlist =
     (let dataItemVec = List.map_filter (createNewDataItem ops) dlist
      in if dlist \<noteq> [] \<and> dataItemVec \<noteq> [] then [HandleNotify dataItemVec] else [])"

section \<open>Processing\<close>

definition sendCachedDataItems ::
  "nat list \<Rightarrow> addr \<Rightarrow> ('d, 'ss) os_observer \<Rightarrow> ('d, 'ss) os_observer" where
  "sendCachedDataItems ids to s =
     (if to = NULL then s
      else let dataItems = List.map_filter (map_of (mDataItemCache s)) ids
           in if dataItems = [] then s else s\<lparr>calls := calls s @ [ClientNotify to dataItems]\<rparr>)"

definition updateCache ::
  "('d, 'ss) di_ops \<Rightarrow> 'd \<Rightarrow> ('d, 'ss) os_observer \<Rightarrow> bool \<times> 'd \<times> ('d, 'ss) os_observer" where
  "updateCache ops d s =
     (case eventDataItemNotify ops d (mSystemStatus s) of (handled, d', ss) \<Rightarrow>
        let s1 = s\<lparr>mSystemStatus := ss\<rparr> in
        if handled then
          (case map_of (mDataItemCache s1) (getId ops d') of
             None \<Rightarrow>
               (case createNewDataItem ops d' of
                  Some c \<Rightarrow> (True, d', s1\<lparr>mDataItemCache := AList.update (getId ops d') c (mDataItemCache s1)\<rparr>)
                | None \<Rightarrow> (True, d', s1))
           | Some c \<Rightarrow> (True, d', s1\<lparr>mDataItemCache := AList.update (getId ops d') (copyFrom ops c d') (mDataItemCache s1)\<rparr>))
        else (False, d', s1))"

definition set_subs_proc :: "addr \<Rightarrow> ('d, 'ss) os_observer \<Rightarrow> ('d, 'ss) os_observer" where
  "set_subs_proc obj s =
     (let s1 = s\<lparr>mSubscriptionObj := obj, calls := calls s @ [NewSubscriptionObj obj]\<rparr> in
      if mDataItemToClients s1 \<noteq> [] then
        let dis = getKeys (mDataItemToClients s1)
        in s1\<lparr>calls := calls s1 @ [FwSubscribe dis, FwRequestData dis]\<rparr>
      else s1)"

definition subscribe_proc ::
  "nat list \<Rightarrow> addr \<Rightarrow> bool \<Rightarrow> ('d, 'ss) os_observer \<Rightarrow> ('d, 'ss) os_observer" where
  "subscribe_proc items client toRequestData s =
     (let (d2c, toSubscribe) = add_keys items [client] [] (mDataItemToClients s);
          (_, c2d) = add_entry client items (mClientToDataItems s);
          s1 = sendCachedDataItems items client (s\<lparr>mDataItemToClients := d2c, mClientToDataItems := c2d\<rparr>)
      in if mSubscriptionObj s1 \<noteq> NULL then
           if toRequestData then s1\<lparr>calls := calls s1 @ [FwRequestData toSubscribe]\<rparr>
           else if toSubscribe \<noteq> [] then s1\<lparr>calls := calls s1 @ [FwSubscribe toSubscribe]\<rparr>
           else s1
         else s1)"

definition update_subscription_proc ::
  "nat list \<Rightarrow> addr \<Rightarrow> ('d, 'ss) os_observer \<Rightarrow> ('d, 'ss) os_observer option" where
  "update_subscription_proc items client s =
     (case setmap_update client items (mClientToDataItems s) of
        None \<Rightarrow> None
      | Some (gone, items', c2d) \<Rightarrow>
          let (d2c, toUnsubscribe, _) = trimOrRemove gone [client] [] [] (mDataItemToClients s);
              (d2c', toSubscribe) = add_keys items' [client] [] d2c;
              s1 = sendCachedDataItems items' client (s\<lparr>mClientToDataItems := c2d, mDataItemToClients := d2c'\<rparr>);
              s2 = (if mSubscriptionObj s1 \<noteq> NULL \<and> toSubscribe \<noteq> []
                    then s1\<lparr>calls := calls s1 @ [FwSubscribe toSubscribe]\<rparr> else s1)
          in Some (if mSubscriptionObj s2 \<noteq> NULL \<and> toUnsubscribe \<noteq> []
                   then s2\<lparr>calls := calls s2 @ [FwUnsubscribe toUnsubscribe]\<rparr> else s2))"

definition unsubscribe_proc ::
  "nat list \<Rightarrow> addr \<Rightarrow> ('d, 'ss) os_observer \<Rightarrow> ('d, 'ss) os_observer" where
  "unsubscribe_proc items client s =
     (let (c2d, clientToRemove, unused) = trimOrRemove [client] items [] [] (mClientToDataItems s);
          (d2c, toUnsubscribe, _) = trimOrRemove unused [client] [] [] (mDataItemToClients s);
          s1 = s\<lparr>mClientToDataItems := c2d, mDataItemToClients := d2c\<rparr>
      in if mSubscriptionObj s1 \<noteq> NULL \<and> toUnsubscribe \<noteq> []
         then s1\<lparr>calls := calls s1 @ [FwUnsubscribe toUnsubscribe]\<rparr> else s1)"

definition unsubscribe_all_proc :: "addr \<Rightarrow> ('d, 'ss) os_observer \<Rightarrow> ('d, 'ss) os_observer" where
  "unsubscribe_all_proc client s =
     (let diByClient = getValSet client (mClientToDataItems s) in
      if diByClient \<noteq> [] then
        let (_, c2d) = setmap_remove client (mClientToDataItems s);
            (d2c, toUnsubscribe, _) = trimOrRemove diByClient [client] [] [] (mDataItemToClients s);
            s1 = s\<lparr>mClientToDataItems := c2d, mDataItemToClients := d2c\<rparr>
        in if toUnsubscribe \<noteq> [] \<and> mSubscriptionObj s1 \<noteq> NULL
           then s1\<lparr>calls := calls s1 @ [FwUnsubscribe toUnsubscribe]\<rparr> else s1
      else s)"

text \<open>The ids of the items that were handled, and the observer with its cache updated.\<close>

fun update_caches ::
  "('d, 'ss) di_ops \<Rightarrow> 'd list \<Rightarrow> nat list \<Rightarrow> ('d, 'ss) os_observer \<Rightarrow> nat list \<times> ('d, 'ss) os_observer" where
  "update_caches ops [] ids s = (ids, s)"
| "update_caches ops (item # v) ids s =
     (case updateCache ops item s of (updated, item', s') \<Rightarrow>
        update_caches ops v (if updated then List.insert (getId ops item') ids else ids) s')"

text \<open>The clients of any of the items.\<close>

definition clients_of :: "nat list \<Rightarrow> (nat, addr) setmap \<Rightarrow> addr list" where
  "clients_of ids d2c = fold (\<lambda>each clients. fold List.insert (getValSet each d2c) clients) ids []"

definition notify_client ::
  "nat list \<Rightarrow> addr \<Rightarrow> ('d, 'ss) os_observer \<Rightarrow> ('d, 'ss) os_observer" where
  "notify_client toBeSent client s =
     sendCachedDataItems (filter (\<lambda>i. i \<in> set toBeSent) (getValSet client (mClientToDataItems s))) client s"

definition notify_proc :: "('d, 'ss) di_ops \<Rightarrow> 'd list \<Rightarrow> ('d, 'ss) os_observer \<Rightarrow> ('d, 'ss) os_observer" where
  "notify_proc ops v s =
     (case update_caches ops v [] s of (ids, s1) \<Rightarrow>
        fold (notify_client ids) (clients_of ids (mDataItemToClients s1)) s1)"

fun os_proc :: "('d, 'ss) di_ops \<Rightarrow> 'd os_msg \<Rightarrow> ('d, 'ss) os_observer \<Rightarrow> ('d, 'ss) os_observer option" where
  "os_proc ops (SetSubsObj obj) s = Some (set_subs_proc obj s)"
| "os_proc ops (HandleSubscribeReq l c r) s = Some (subscribe_proc l c r s)"
| "os_proc ops (HandleUpdateSubscriptionReq l c) s = update_subscription_proc l c s"
| "os_proc ops (HandleUnsubscribeReq l c) s = Some (unsubscribe_proc l c s)"
| "os_proc ops (HandleUnsubscribeAllReq c) s = Some (unsubscribe_all_proc c s)"
| "os_proc ops (HandleNotify v) s = Some (notify_proc ops v s)"

fun os_run :: "('d, 'ss) di_ops \<Rightarrow> 'd os_msg list \<Rightarrow> ('d, 'ss) os_observer \<Rightarrow> ('d, 'ss) os_observer option" where
  "os_run ops [] s = Some s"
| "os_run ops (m # ms) s = (case os_proc ops m s of None \<Rightarrow> None | Some s' \<Rightarrow> os_run ops ms s')"

section \<open>Invariant\<close>

text \<open>
  What the framework was asked for since the subscription object was set, by a subscription or
  by a single request of data, and not told to stop.
\<close>

fun asked_step :: "'d os_call \<Rightarrow> nat set \<Rightarrow> nat set" where
  "asked_step (NewSubscriptionObj obj) A = {}"
| "asked_step (FwSubscribe l) A = A \<union> set l"
| "asked_step (FwRequestData l) A = A \<union> set l"
| "asked_step (FwUnsubscribe l) A = A - set l"
| "asked_step (ClientNotify c ds) A = A"

definition fw_asked :: "'d os_call list \<Rightarrow> nat set" where
  "fw_asked cs = fold asked_step cs {}"

lemma fw_asked_snoc [simp]: "fw_asked (cs @ [c]) = asked_step c (fw_asked cs)"
  by (simp add: fw_asked_def)

lemma fw_asked_snoc3 [simp]:
  "fw_asked (cs @ [c, c', c'']) = asked_step c'' (asked_step c' (asked_step c (fw_asked cs)))"
  by (simp add: fw_asked_def)

text \<open>
  What it is subscribed to: a single request of data is no subscription.  Documentation of
  \<open>IDataItemSubscription\<close>: a subscription adds to those before, an end takes away.
\<close>

fun fw_step :: "'d os_call \<Rightarrow> nat set \<Rightarrow> nat set" where
  "fw_step (NewSubscriptionObj obj) A = {}"
| "fw_step (FwSubscribe l) A = A \<union> set l"
| "fw_step (FwRequestData l) A = A"
| "fw_step (FwUnsubscribe l) A = A - set l"
| "fw_step (ClientNotify c ds) A = A"

definition fw_subscribed :: "'d os_call list \<Rightarrow> nat set" where
  "fw_subscribed cs = fold fw_step cs {}"

lemma fw_subscribed_simps [simp]:
  "fw_subscribed (cs @ [c]) = fw_step c (fw_subscribed cs)"
  "fw_subscribed (cs @ [c, c', c'']) = fw_step c'' (fw_step c' (fw_step c (fw_subscribed cs)))"
  by (simp_all add: fw_subscribed_def)

lemma subscribed_asked: "fw_subscribed cs \<subseteq> fw_asked cs"
proof -
  have "A \<subseteq> B \<Longrightarrow> fold fw_step cs A \<subseteq> fold asked_step cs B" for A B
  proof (induction cs arbitrary: A B)
    case (Cons c cs)
    then have "fw_step c A \<subseteq> asked_step c B" by (cases c) auto
    with Cons.IH show ?case by simp
  qed simp
  then show ?thesis by (simp add: fw_subscribed_def fw_asked_def)
qed

definition os_inv :: "('d, 'ss) os_observer \<Rightarrow> bool" where
  "os_inv s \<longleftrightarrow> indexes.pair_inv (mClientToDataItems s) (mDataItemToClients s) \<and>
     (mSubscriptionObj s \<noteq> NULL \<longrightarrow> fw_asked (calls s) = Domain (setmap_rel (mDataItemToClients s))) \<and>
     NULL \<notin> Domain (setmap_rel (mClientToDataItems s))"

text \<open>Requests as the interface sends them, updates of subscriptions aside.\<close>

fun msg_ok :: "'d os_msg \<Rightarrow> bool" where
  "msg_ok (SetSubsObj obj) \<longleftrightarrow> True"
| "msg_ok (HandleSubscribeReq l c r) \<longleftrightarrow> distinct l \<and> c \<noteq> NULL"
| "msg_ok (HandleUpdateSubscriptionReq l c) \<longleftrightarrow> False"
| "msg_ok (HandleUnsubscribeReq l c) \<longleftrightarrow> True"
| "msg_ok (HandleUnsubscribeAllReq c) \<longleftrightarrow> True"
| "msg_ok (HandleNotify v) \<longleftrightarrow> True"

lemma os_inv_init: "os_inv (os_init ss)"
  by (simp add: os_inv_def os_init_def indexes.pair_inv_def setmap_inv_def setmap_rel_def getValSet_def)

lemma send_frame [simp]:
  "mSubscriptionObj (sendCachedDataItems ids to s) = mSubscriptionObj s"
  "mClientToDataItems (sendCachedDataItems ids to s) = mClientToDataItems s"
  "mDataItemToClients (sendCachedDataItems ids to s) = mDataItemToClients s"
  "mDataItemCache (sendCachedDataItems ids to s) = mDataItemCache s"
  "fw_asked (calls (sendCachedDataItems ids to s)) = fw_asked (calls s)"
  by (simp_all add: sendCachedDataItems_def Let_def)

lemma os_inv_set_subs:
  assumes "os_inv s"
  shows "os_inv (set_subs_proc obj s)"
proof -
  have inv: "indexes.pair_inv (mClientToDataItems s) (mDataItemToClients s)" "setmap_inv (mDataItemToClients s)"
    using assms by (simp_all add: os_inv_def indexes.pair_inv_def)
  have n: "NULL \<notin> Domain (setmap_rel (mClientToDataItems s))" using assms by (simp add: os_inv_def)
  have "setmap_rel ([] :: (nat, addr) setmap) = {}" by (simp add: setmap_rel_def getValSet_def)
  then have e: "mDataItemToClients s = [] \<Longrightarrow> Domain (setmap_rel (mDataItemToClients s)) = {}" by simp
  show ?thesis
    by (cases "mDataItemToClients s = []")
      (use inv n e in \<open>simp_all add: os_inv_def set_subs_proc_def Let_def set_getKeys\<close>)
qed

lemma subscribe_proc_effect:
  assumes "os_inv s" "distinct items" "c \<noteq> NULL"
  shows "os_inv (subscribe_proc items c r s) \<and>
    setmap_rel (mClientToDataItems (subscribe_proc items c r s)) =
      setmap_rel (mClientToDataItems s) \<union> {c} \<times> set items"
proof -
  obtain d2c new where d: "add_keys items [c] [] (mDataItemToClients s) = (d2c, new)" by fastforce
  obtain x c2d where c: "add_entry c items (mClientToDataItems s) = (x, c2d)" by fastforce
  from assms(1) have "indexes.pair_inv (mClientToDataItems s) (mDataItemToClients s)" by (simp add: os_inv_def)
  note both = indexes.add_both [OF this assms(2) c d]
  from both assms(1,3) show ?thesis
    by (auto simp: os_inv_def subscribe_proc_def d c Let_def)
qed

lemma unsubscribe_proc_effect:
  assumes "os_inv s"
  shows "os_inv (unsubscribe_proc items c s) \<and>
    setmap_rel (mClientToDataItems (unsubscribe_proc items c s)) =
      setmap_rel (mClientToDataItems s) - {c} \<times> set items"
proof -
  obtain c2d gk gv where c: "trimOrRemove [c] items [] [] (mClientToDataItems s) = (c2d, gk, gv)"
    by (metis prod_cases3)
  obtain d2c gone x where d: "trimOrRemove gv [c] [] [] (mDataItemToClients s) = (d2c, gone, x)"
    by (metis prod_cases3)
  from assms(1) have "indexes.pair_inv (mClientToDataItems s) (mDataItemToClients s)" by (simp add: os_inv_def)
  note both = indexes.trim_both [OF this c d]
  from both assms show ?thesis
    by (auto simp: os_inv_def unsubscribe_proc_def d c Let_def simp del: trimOrRemove.simps)
qed

lemma unsubscribe_all_proc_effect:
  assumes "os_inv s"
  shows "os_inv (unsubscribe_all_proc c s) \<and>
    setmap_rel (mClientToDataItems (unsubscribe_all_proc c s)) =
      {p \<in> setmap_rel (mClientToDataItems s). fst p \<noteq> c}"
proof (cases "getValSet c (mClientToDataItems s) = []")
  case True
  with set_getValSet [of c "mClientToDataItems s"] assms show ?thesis
    by (auto simp: unsubscribe_all_proc_def)
next
  case False
  obtain y c2d where c: "setmap_remove c (mClientToDataItems s) = (y, c2d)" by fastforce
  obtain d2c gone x where d: "trimOrRemove (getValSet c (mClientToDataItems s)) [c] [] [] (mDataItemToClients s) = (d2c, gone, x)"
    by (metis prod_cases3)
  from assms(1) have "indexes.pair_inv (mClientToDataItems s) (mDataItemToClients s)" by (simp add: os_inv_def)
  note both = indexes.remove_both [OF this c d]
  from both assms False show ?thesis
    by (auto simp: os_inv_def unsubscribe_all_proc_def d c Let_def)
qed

section \<open>Notifications\<close>

lemma updateCache_frame:
  "updateCache ops d s = (b, d', s') \<Longrightarrow> mSubscriptionObj s' = mSubscriptionObj s \<and>
     mClientToDataItems s' = mClientToDataItems s \<and> mDataItemToClients s' = mDataItemToClients s \<and> calls s' = calls s"
  by (auto simp: updateCache_def Let_def split: prod.splits if_splits option.splits)

lemma update_caches_frame:
  "update_caches ops v ids s = (ids', s') \<Longrightarrow> mSubscriptionObj s' = mSubscriptionObj s \<and>
     mClientToDataItems s' = mClientToDataItems s \<and> mDataItemToClients s' = mDataItemToClients s \<and> calls s' = calls s"
proof (induction v arbitrary: ids s)
  case (Cons item v)
  obtain b d' s1 where u: "updateCache ops item s = (b, d', s1)" by (metis prod_cases3)
  with updateCache_frame [OF u] Cons.IH [of _ s1] Cons.prems show ?case by auto
qed simp

lemma distinct_clients_of: "distinct (clients_of ids d2c)"
proof -
  have "distinct cs \<Longrightarrow> distinct (fold (\<lambda>each clients. fold List.insert (getValSet each d2c) clients) ids cs)" for cs
    by (induction ids arbitrary: cs) auto
  then show ?thesis by (simp add: clients_of_def)
qed

lemma set_clients_of: "set (clients_of ids d2c) = setmap_rel d2c `` set ids"
proof -
  have "set (fold (\<lambda>each clients. fold List.insert (getValSet each d2c) clients) ids cs) =
      set cs \<union> setmap_rel d2c `` set ids" for cs
    by (induction ids arbitrary: cs) (auto simp: set_getValSet)
  then show ?thesis by (simp add: clients_of_def)
qed

text \<open>The items a client is sent in a state, of those with the given ids.\<close>

definition due_items :: "nat list \<Rightarrow> addr \<Rightarrow> ('d, 'ss) os_observer \<Rightarrow> 'd list" where
  "due_items ids c s = List.map_filter (map_of (mDataItemCache s))
     (filter (\<lambda>i. i \<in> set ids) (getValSet c (mClientToDataItems s)))"

lemma set_due_items:
  "set (due_items ids c s) = {d. \<exists>i\<in>set ids. (c, i) \<in> setmap_rel (mClientToDataItems s) \<and> map_of (mDataItemCache s) i = Some d}"
  by (auto simp: due_items_def setmap_rel_def List.map_filter_def) force?

lemma notify_client_eq:
  "notify_client ids c s = (if c = NULL \<or> due_items ids c s = [] then s
     else s\<lparr>calls := calls s @ [ClientNotify c (due_items ids c s)]\<rparr>)"
  by (simp add: notify_client_def sendCachedDataItems_def due_items_def Let_def)

lemma notify_clients_eq:
  "fold (notify_client ids) cs s = s\<lparr>calls := calls s @
     map (\<lambda>c. ClientNotify c (due_items ids c s)) (filter (\<lambda>c. c \<noteq> NULL \<and> due_items ids c s \<noteq> []) cs)\<rparr>"
proof (induction cs arbitrary: s)
  case (Cons c cs)
  have due: "due_items ids c' (s\<lparr>calls := x\<rparr>) = due_items ids c' s" for c' x by (simp add: due_items_def)
  have "fold (notify_client ids) (c # cs) s = fold (notify_client ids) cs (notify_client ids c s)" by simp
  also have "\<dots> = (notify_client ids c s)\<lparr>calls := calls (notify_client ids c s) @
     map (\<lambda>c'. ClientNotify c' (due_items ids c' (notify_client ids c s)))
       (filter (\<lambda>c'. c' \<noteq> NULL \<and> due_items ids c' (notify_client ids c s) \<noteq> []) cs)\<rparr>" by (rule Cons.IH)
  also have "(\<lambda>c'. due_items ids c' (notify_client ids c s)) = (\<lambda>c'. due_items ids c' s)"
    by (simp add: notify_client_eq due)
  finally show ?case by (simp add: notify_client_eq)
qed simp

lemma fw_asked_notify [simp]: "fw_asked (cs @ map (\<lambda>c. ClientNotify c (f c)) ns) = fw_asked cs"
proof -
  have "fold asked_step (map (\<lambda>c. ClientNotify c (f c)) ns) A = A" for A by (induction ns arbitrary: A) auto
  then show ?thesis by (simp add: fw_asked_def)
qed

lemma notify_proc_eq:
  assumes "update_caches ops v [] s = (ids, s1)"
  shows "notify_proc ops v s = s1\<lparr>calls := calls s @
    map (\<lambda>c. ClientNotify c (due_items ids c s1))
      (filter (\<lambda>c. c \<noteq> NULL \<and> due_items ids c s1 \<noteq> []) (clients_of ids (mDataItemToClients s)))\<rparr>"
  using update_caches_frame [OF assms] assms by (simp add: notify_proc_def notify_clients_eq)

lemma os_inv_notify: "os_inv s \<Longrightarrow> os_inv (notify_proc ops v s)"
proof -
  assume "os_inv s"
  obtain ids s1 where u: "update_caches ops v [] s = (ids, s1)" by fastforce
  with notify_proc_eq [OF u] update_caches_frame [OF u] \<open>os_inv s\<close> show ?thesis by (simp add: os_inv_def)
qed

lemma os_inv_run:
  "list_all msg_ok ms \<Longrightarrow> os_inv s \<Longrightarrow> \<exists>s'. os_run ops ms s = Some s' \<and> os_inv s'"
proof (induction ms arbitrary: s)
  case (Cons m ms)
  have "\<exists>s1. os_proc ops m s = Some s1 \<and> os_inv s1"
    using Cons.prems by (cases m) (simp_all add: os_inv_set_subs os_inv_notify
      subscribe_proc_effect [THEN conjunct1] unsubscribe_proc_effect [THEN conjunct1]
      unsubscribe_all_proc_effect [THEN conjunct1])
  with Cons show ?case by auto
qed simp

lemma os_run_inv: "list_all msg_ok ms \<Longrightarrow> os_run ops ms (os_init ss) = Some s \<Longrightarrow> os_inv s"
  using os_inv_run [OF _ os_inv_init, of ms ops ss] by fastforce

lemma os_indexes_total: "list_all msg_ok ms \<Longrightarrow> \<exists>s. os_run ops ms (os_init ss) = Some s"
  using os_inv_run [OF _ os_inv_init, of ms ops ss] by blast

text \<open>
  Without single requests of data, all that the framework was asked for is subscribed to: the
  observer itself asks for data only of items that it also subscribes to.
\<close>

fun no_request :: "'d os_msg \<Rightarrow> bool" where
  "no_request (HandleSubscribeReq l c r) \<longleftrightarrow> \<not> r"
| "no_request _ \<longleftrightarrow> True"

lemma send_subscribed [simp]:
  "fw_subscribed (calls (sendCachedDataItems ids to s)) = fw_subscribed (calls s)"
  by (simp add: sendCachedDataItems_def Let_def)

lemma notify_subscribed: "fw_subscribed (calls (notify_proc ops v s)) = fw_subscribed (calls s)"
proof -
  obtain ids s1 where u: "update_caches ops v [] s = (ids, s1)" by fastforce
  have "fold fw_step (map (\<lambda>c. ClientNotify c (f c)) ns) A = A" for f ns A by (induction ns arbitrary: A) auto
  then show ?thesis by (simp add: notify_proc_eq [OF u] fw_subscribed_def)
qed

lemma notify_asked: "fw_asked (calls (notify_proc ops v s)) = fw_asked (calls s)"
proof -
  obtain ids s1 where "update_caches ops v [] s = (ids, s1)" by fastforce
  from notify_proc_eq [OF this] show ?thesis by simp
qed

lemma step_all_subscribed:
  assumes "msg_ok m" "no_request m" "os_proc ops m s = Some s'" "fw_subscribed (calls s) = fw_asked (calls s)"
  shows "fw_subscribed (calls s') = fw_asked (calls s')"
proof (cases m)
  case (HandleNotify v)
  with assms show ?thesis by (auto simp: notify_subscribed notify_asked)
next
  case (HandleSubscribeReq l c r)
  with assms show ?thesis by (auto simp: subscribe_proc_def Let_def split: prod.splits)
next
  case (HandleUnsubscribeReq l c)
  with assms show ?thesis by (auto simp: unsubscribe_proc_def Let_def split: prod.splits)
next
  case (HandleUnsubscribeAllReq c)
  with assms show ?thesis by (auto simp: unsubscribe_all_proc_def Let_def split: prod.splits)
qed (use assms in \<open>auto simp: set_subs_proc_def Let_def\<close>)

lemma run_all_subscribed:
  "list_all msg_ok ms \<Longrightarrow> list_all no_request ms \<Longrightarrow> os_run ops ms s = Some s' \<Longrightarrow>
    fw_subscribed (calls s) = fw_asked (calls s) \<Longrightarrow> fw_subscribed (calls s') = fw_asked (calls s')"
proof (induction ms arbitrary: s)
  case (Cons m ms)
  then obtain s1 where "os_proc ops m s = Some s1" "os_run ops ms s1 = Some s'" by (auto split: option.splits)
  with Cons step_all_subscribed [of m ops s s1] show ?case by simp
qed simp

definition toy_ops :: "(nat \<times> nat, nat list) di_ops" where
  "toy_ops = \<lparr>getId = fst, eventDataItemNotify = \<lambda>d ss. (fst d < 100, d, fst d # ss),
     createNewDataItem = Some, copyFrom = \<lambda>c d. (fst c, snd d)\<rparr>"

lemmas os_proc_eval = os_init_def set_subs_proc_def subscribe_proc_def unsubscribe_proc_def
  unsubscribe_all_proc_def update_subscription_proc_def sendCachedDataItems_def Let_def toy_ops_def
  add_entry_def trim_entry_def getValSet_def getKeys_def setmap_remove_def setmap_update_eq
  notify_proc_def notify_client_def clients_of_def updateCache_def List.map_filter_simps

section \<open>Properties\<close>

text \<open>
  C8: as long as clients subscribe, request data and unsubscribe (and do not use
  \<open>updateSubscription\<close>), every sequence of requests is processed without a fault, and the two
  indexes stay converses of each other.  Once there is a subscription object, exactly the items
  that some client has are asked for, and only such items are subscribed to; all of them are when
  no client made a single request of data.
\<close>

theorem os_indexes_stay_converse:
  assumes "list_all msg_ok ms"
  shows "\<exists>s. os_run ops ms (os_init ss) = Some s \<and>
    setmap_rel (mDataItemToClients s) = (setmap_rel (mClientToDataItems s))\<inverse> \<and>
    (mSubscriptionObj s \<noteq> NULL \<longrightarrow> fw_asked (calls s) = Range (setmap_rel (mClientToDataItems s)) \<and>
      fw_subscribed (calls s) \<subseteq> Range (setmap_rel (mClientToDataItems s)) \<and>
      (list_all no_request ms \<longrightarrow> fw_subscribed (calls s) = Range (setmap_rel (mClientToDataItems s))))"
proof -
  obtain s where s: "os_run ops ms (os_init ss) = Some s" "os_inv s"
    using os_inv_run [OF assms os_inv_init, of ops ss] by (elim exE conjE)
  have d: "setmap_rel (mDataItemToClients s) = (setmap_rel (mClientToDataItems s))\<inverse>"
    using s(2) by (simp add: os_inv_def indexes.pair_inv_def)
  then have a: "mSubscriptionObj s \<noteq> NULL \<longrightarrow> fw_asked (calls s) = Range (setmap_rel (mClientToDataItems s))"
    using s(2) by (simp add: os_inv_def Domain_converse)
  have "fw_subscribed (calls (os_init ss)) = fw_asked (calls (os_init ss))"
    by (simp add: os_init_def fw_subscribed_def fw_asked_def)
  from run_all_subscribed [OF assms _ s(1) this] a subscribed_asked [of "calls s"] s(1) d show ?thesis
    by (intro exI [of _ s]) auto
qed

theorem os_indexes_stay_converse_witness:
  "(\<exists>s. os_run toy_ops [HandleSubscribeReq [5, 6] 11 False, SetSubsObj 9, HandleSubscribeReq [6, 7] 12 True,
       HandleUnsubscribeReq [5] 11, HandleNotify [(6, 1)], HandleUnsubscribeAllReq 12] (os_init []) = Some s \<and>
     mSubscriptionObj s = 9 \<and> fw_asked (calls s) = {6} \<and> mDataItemToClients s = [(6, [11])]) \<and>
   (\<exists>s. os_run toy_ops [SetSubsObj 9, HandleSubscribeReq [6, 7] 12 False, HandleUnsubscribeReq [7] 12] (os_init []) = Some s \<and>
     fw_subscribed (calls s) = {6})"
proof
  let ?ms = "[HandleSubscribeReq [5, 6] 11 False, SetSubsObj 9, HandleSubscribeReq [6, 7] 12 True,
       HandleUnsubscribeReq [5] 11, HandleNotify [(6, 1)], HandleUnsubscribeAllReq 12] :: (nat \<times> nat) os_msg list"
  obtain s where s: "os_run toy_ops ?ms (os_init []) = Some s"
    "mSubscriptionObj s \<noteq> NULL \<Longrightarrow> fw_asked (calls s) = Range (setmap_rel (mClientToDataItems s))"
    using os_indexes_stay_converse [of ?ms toy_ops "[]"] by auto
  then have "mSubscriptionObj s = 9 \<and> mClientToDataItems s = [(11, [6])] \<and> mDataItemToClients s = [(6, [11])]"
    by (auto simp: os_proc_eval)
  with s show "\<exists>s. os_run toy_ops ?ms (os_init []) = Some s \<and>
     mSubscriptionObj s = 9 \<and> fw_asked (calls s) = {6} \<and> mDataItemToClients s = [(6, [11])]"
    by (auto simp: setmap_rel_def getValSet_def split: if_splits)
next
  let ?ms = "[SetSubsObj 9, HandleSubscribeReq [6, 7] 12 False, HandleUnsubscribeReq [7] 12] :: (nat \<times> nat) os_msg list"
  obtain s where s: "os_run toy_ops ?ms (os_init []) = Some s"
    "mSubscriptionObj s \<noteq> NULL \<Longrightarrow> fw_subscribed (calls s) = Range (setmap_rel (mClientToDataItems s))"
    using os_indexes_stay_converse [of ?ms toy_ops "[]"] by auto
  then have "mSubscriptionObj s = 9 \<and> mClientToDataItems s = [(12, [6])]"
    by (auto simp: os_proc_eval)
  with s show "\<exists>s. os_run toy_ops ?ms (os_init []) = Some s \<and> fw_subscribed (calls s) = {6}"
    by (auto simp: setmap_rel_def getValSet_def split: if_splits)
qed

text \<open>
  An item that one client requested once is never subscribed to for a client that subscribes
  to it later: it is no new key of the index.
\<close>

theorem requested_item_is_not_subscribed:
  "\<exists>s. os_run ops [SetSubsObj 9, HandleSubscribeReq [5] 11 True, HandleSubscribeReq [5] 12 False] (os_init ss) = Some s
    \<and> (12, 5) \<in> setmap_rel (mClientToDataItems s) \<and> fw_subscribed (calls s) = {}"
  by (auto simp: os_init_def set_subs_proc_def subscribe_proc_def sendCachedDataItems_def Let_def add_entry_def
      getValSet_def setmap_rel_def fw_subscribed_def List.map_filter_simps)

text \<open>
  C24: an update reaches exactly the clients that subscribed to one of the updated items that
  are in the cache, each client is called once, with exactly the items it subscribed to.
\<close>

theorem notify_reaches_subscribers:
  assumes "list_all msg_ok ms" "os_run ops ms (os_init ss) = Some s" "update_caches ops v [] s = (ids, s1)"
  shows "\<exists>ns. calls (notify_proc ops v s) = calls s @ map (\<lambda>(c, ds). ClientNotify c ds) ns \<and>
    distinct (map fst ns) \<and>
    (\<forall>c ds. (c, ds) \<in> set ns \<longrightarrow> ds \<noteq> [] \<and> set ds = {d. \<exists>i\<in>set ids. (c, i) \<in> setmap_rel (mClientToDataItems s) \<and>
       map_of (mDataItemCache s1) i = Some d}) \<and>
    (\<forall>c i d. i \<in> set ids \<and> (c, i) \<in> setmap_rel (mClientToDataItems s) \<and> map_of (mDataItemCache s1) i = Some d
       \<longrightarrow> c \<in> fst ` set ns)"
proof -
  let ?sel = "filter (\<lambda>c. c \<noteq> NULL \<and> due_items ids c s1 \<noteq> []) (clients_of ids (mDataItemToClients s))"
  let ?ns = "map (\<lambda>c. (c, due_items ids c s1)) ?sel"
  have c2d: "mClientToDataItems s1 = mClientToDataItems s" using update_caches_frame [OF assms(3)] by simp
  from os_run_inv [OF assms(1,2)] have inv: "os_inv s" .
  have "set (clients_of ids (mDataItemToClients s)) = {c. \<exists>i\<in>set ids. (c, i) \<in> setmap_rel (mClientToDataItems s)}"
    using inv by (auto simp: set_clients_of os_inv_def indexes.pair_inv_def)
  moreover have "due_items ids c s1 \<noteq> [] \<longleftrightarrow> (\<exists>d. d \<in> set (due_items ids c s1))" for c
    by (cases "due_items ids c s1") auto
  ultimately have mem: "c \<in> set ?sel"
    if "i \<in> set ids" "(c, i) \<in> setmap_rel (mClientToDataItems s)" "map_of (mDataItemCache s1) i = Some d" for c i d
    using that inv unfolding set_due_items c2d os_inv_def by auto
  show ?thesis
  proof (intro exI [of _ ?ns] conjI allI impI)
    show "calls (notify_proc ops v s) = calls s @ map (\<lambda>(c, ds). ClientNotify c ds) ?ns"
      by (simp add: notify_proc_eq [OF assms(3)] comp_def)
    show "distinct (map fst ?ns)" by (simp add: comp_def distinct_clients_of)
    fix c ds
    assume "(c, ds) \<in> set ?ns"
    then show "ds \<noteq> []" "set ds = {d. \<exists>i\<in>set ids. (c, i) \<in> setmap_rel (mClientToDataItems s) \<and>
       map_of (mDataItemCache s1) i = Some d}"
      using set_due_items [of ids c s1] unfolding c2d by auto
  next
    fix c i d
    assume "i \<in> set ids \<and> (c, i) \<in> setmap_rel (mClientToDataItems s) \<and> map_of (mDataItemCache s1) i = Some d"
    with mem show "c \<in> fst ` set ?ns" by (auto simp: image_iff)
  qed
qed

theorem notify_reaches_subscribers_witness:
  "\<exists>s ns. os_run toy_ops [HandleSubscribeReq [5, 6] 11 False, HandleSubscribeReq [6, 700] 12 True] (os_init []) = Some s \<and>
     calls (notify_proc toy_ops [(6, 1), (700, 2)] s) = calls s @ map (\<lambda>(c, ds). ClientNotify c ds) ns \<and>
     map fst ns = [11, 12]"
proof -
  let ?ms = "[HandleSubscribeReq [5, 6] 11 False, HandleSubscribeReq [6, 700] 12 True] :: (nat \<times> nat) os_msg list"
  define s where s2: "s = \<lparr>mSystemStatus = [] :: nat list, mSubscriptionObj = NULL,
      mClientToDataItems = [(11, [5, 6]), (12, [6, 700])], mDataItemToClients = [(5, [11]), (6, [12, 11]), (700, [12])],
      mDataItemCache = [] :: (nat \<times> nat \<times> nat) list, calls = []\<rparr>"
  have "os_run toy_ops ?ms (os_init []) = Some s" by (simp add: os_proc_eval s2)
  note s = this s2
  define s1 where "s1 = s\<lparr>mSystemStatus := [700, 6], mDataItemCache := [(6, 6, 1)]\<rparr>"
  have u: "update_caches toy_ops [(6, 1), (700, 2)] [] s = ([6], s1)"
    by (simp add: s(2) os_proc_eval s1_def)
  have "list_all msg_ok ?ms" by simp
  from notify_reaches_subscribers [OF this s(1) u]
  obtain ns where ns: "calls (notify_proc toy_ops [(6, 1), (700, 2)] s) = calls s @ map (\<lambda>(c, ds). ClientNotify c ds) ns"
    by blast
  have "calls (notify_proc toy_ops [(6, 1), (700, 2)] s) = [ClientNotify 11 [(6, 1)], ClientNotify 12 [(6, 1)]]"
    by (simp add: s(2) os_proc_eval)
  with ns s(2) have "map (\<lambda>(c, ds). ClientNotify c ds) ns = [ClientNotify 11 [(6, 1)], ClientNotify 12 [(6, 1)]]" by simp
  then have "map fst ns = [11, 12]" by (auto simp: map_eq_Cons_conv)
  then show ?thesis by (intro exI [of _ s] exI [of _ ns] conjI s(1) ns)
qed

lemma converse_after_update:
  assumes "R\<inverse> \<union> A \<times> {c} = ({p \<in> R. fst p \<noteq> c} \<union> {c} \<times> A)\<inverse>" "R `` {c} \<inter> A = {}"
  shows "R `` {c} = {}"
proof (rule equals0I)
  fix i
  assume "i \<in> R `` {c}"
  then have "(i, c) \<in> R\<inverse> \<union> A \<times> {c}" "i \<notin> A" using assms(2) by auto
  then show False unfolding assms(1) by simp
qed

text \<open>
  \<open>updateSubscription\<close> does not do what its comments say. When the client already has one of
  the items, it advances an erased iterator; otherwise none of the client's old items is given
  up: the client stays registered for each of them in the index by item, though it is gone from
  the index by client, and the framework is not told.
\<close>

theorem update_subscription_keeps_dropped_items:
  assumes "os_inv s" "items \<noteq> []" "distinct items" "c \<noteq> NULL"
  shows "(update_subscription_proc items c s = None \<longleftrightarrow>
      setmap_rel (mClientToDataItems s) `` {c} \<inter> set items \<noteq> {}) \<and>
    (\<forall>s'. update_subscription_proc items c s = Some s' \<longrightarrow>
      setmap_rel (mClientToDataItems s') `` {c} = set items \<and>
      setmap_rel (mDataItemToClients s') = setmap_rel (mDataItemToClients s) \<union> set items \<times> {c} \<and>
      (os_inv s' \<longleftrightarrow> setmap_rel (mClientToDataItems s) `` {c} = {}))"
proof -
  have R: "set (getValSet c (mClientToDataItems s)) = setmap_rel (mClientToDataItems s) `` {c}"
    by (rule set_getValSet)
  obtain d2c new where d: "add_keys items [c] [] (mDataItemToClients s) = (d2c, new)" by fastforce
  from assms(1) have pair: "setmap_inv (mClientToDataItems s)" "setmap_inv (mDataItemToClients s)"
    "setmap_rel (mDataItemToClients s) = (setmap_rel (mClientToDataItems s))\<inverse>"
    by (auto simp: os_inv_def indexes.pair_inv_def)
  from add_keys_law [OF pair(2) _ d]
  have d2c: "setmap_inv d2c" "setmap_rel d2c = setmap_rel (mDataItemToClients s) \<union> set items \<times> {c}"
    "set new = set items - Domain (setmap_rel (mDataItemToClients s))" by auto
  show ?thesis
  proof (cases "setmap_rel (mClientToDataItems s) `` {c} \<inter> set items = {}")
    case False
    with R assms(2) show ?thesis by (simp add: update_subscription_proc_def setmap_update_eq)
  next
    case True
    obtain s' where s': "update_subscription_proc items c s = Some s'"
      "mClientToDataItems s' = AList.update c items (mClientToDataItems s)" "mDataItemToClients s' = d2c"
      "mSubscriptionObj s' = mSubscriptionObj s"
      "fw_asked (calls s') = (if mSubscriptionObj s \<noteq> NULL then fw_asked (calls s) \<union> set new else fw_asked (calls s))"
      using True R assms(2) d by (simp add: update_subscription_proc_def setmap_update_eq Let_def)
    have c2d: "setmap_rel (mClientToDataItems s') =
        {p \<in> setmap_rel (mClientToDataItems s). fst p \<noteq> c} \<union> {c} \<times> set items"
      by (simp add: s'(2) rel_update)
    have "os_inv s' \<longleftrightarrow> setmap_rel (mClientToDataItems s) `` {c} = {}"
    proof
      assume "os_inv s'"
      then have "setmap_rel d2c = (setmap_rel (mClientToDataItems s'))\<inverse>"
        by (simp add: os_inv_def indexes.pair_inv_def s'(3))
      then show "setmap_rel (mClientToDataItems s) `` {c} = {}"
        by (rule converse_after_update [OF _ True, unfolded pair(3) [symmetric] d2c(2) [symmetric] c2d [symmetric]])
    next
      assume e: "setmap_rel (mClientToDataItems s) `` {c} = {}"
      then have "setmap_rel d2c = (setmap_rel (mClientToDataItems s'))\<inverse>"
        unfolding d2c(2) c2d pair(3) by auto
      moreover have "Domain (setmap_rel d2c) = Domain (setmap_rel (mDataItemToClients s)) \<union> set new"
        using d2c(2,3) by auto
      moreover have "setmap_inv (mClientToDataItems s')"
        unfolding s'(2) by (rule inv_update [OF pair(1) assms(2,3)])
      moreover have "NULL \<notin> Domain (setmap_rel (mClientToDataItems s'))"
        using assms(1,4) unfolding c2d os_inv_def by auto
      ultimately show "os_inv s'" using assms(1) d2c(1) s'(3-5) by (simp add: os_inv_def indexes.pair_inv_def)
    qed
    moreover have "setmap_rel (mClientToDataItems s') `` {c} = set items" unfolding c2d by auto
    ultimately show ?thesis using True s'(1,3) d2c(2) by simp
  qed
qed

theorem update_subscription_keeps_dropped_items_witness:
  "\<exists>s s'. os_run toy_ops [SetSubsObj 9, HandleSubscribeReq [5, 6] 11 False] (os_init []) = Some s \<and>
     update_subscription_proc [6] 11 s = None \<and>
     update_subscription_proc [7] 11 s = Some s' \<and> mDataItemToClients s' = [(5, [11]), (6, [11]), (7, [11])] \<and>
     setmap_rel (mClientToDataItems s') `` {11} = {7} \<and> \<not> os_inv s'"
proof -
  define s where s2: "s = \<lparr>mSystemStatus = [] :: nat list, mSubscriptionObj = 9, mClientToDataItems = [(11, [5, 6])],
      mDataItemToClients = [(5, [11]), (6, [11])], mDataItemCache = [] :: (nat \<times> nat \<times> nat) list,
      calls = [NewSubscriptionObj 9, FwSubscribe [6, 5]]\<rparr>"
  have "os_run toy_ops [SetSubsObj 9, HandleSubscribeReq [5, 6] 11 False] (os_init []) = Some s"
    by (simp add: os_proc_eval s2)
  note s = this s2
  have inv: "os_inv s" by (rule os_run_inv [OF _ s(1)]) simp
  have r: "setmap_rel (mClientToDataItems s) `` {11} = {5, 6}"
    by (auto simp: s(2) setmap_rel_def getValSet_def split: if_splits)
  define s' where "s' = s\<lparr>mClientToDataItems := [(11, [7])], mDataItemToClients := [(5, [11]), (6, [11]), (7, [11])],
    calls := calls s @ [FwSubscribe [7]]\<rparr>"
  then have s': "update_subscription_proc [7] 11 s = Some s'" "mDataItemToClients s' = [(5, [11]), (6, [11]), (7, [11])]"
    by (simp_all add: s(2) os_proc_eval)
  from update_subscription_keeps_dropped_items [OF inv, of "[7]" 11] s' r
  have "setmap_rel (mClientToDataItems s') `` {11} = {7} \<and> \<not> os_inv s'" by simp
  moreover from update_subscription_keeps_dropped_items [OF inv, of "[6]" 11] r
  have "update_subscription_proc [6] 11 s = None" by simp
  ultimately show ?thesis using s(1) s' by blast
qed

text \<open>
  unsubscribing takes from the client exactly the items named, from other clients nothing,
  and asks the framework to stop exactly the items nobody has any more; unsubscribing from all
  leaves nothing of the client.
\<close>

theorem unsubscribe_exact:
  assumes "list_all msg_ok ms" "os_run ops ms (os_init ss) = Some s" "mSubscriptionObj s \<noteq> NULL"
  shows "setmap_rel (mClientToDataItems (unsubscribe_proc items c s)) = setmap_rel (mClientToDataItems s) - {c} \<times> set items \<and>
    fw_asked (calls (unsubscribe_proc items c s)) = Range (setmap_rel (mClientToDataItems s) - {c} \<times> set items) \<and>
    setmap_rel (mClientToDataItems (unsubscribe_all_proc c s)) = {p \<in> setmap_rel (mClientToDataItems s). fst p \<noteq> c} \<and>
    fw_asked (calls (unsubscribe_all_proc c s)) = Range {p \<in> setmap_rel (mClientToDataItems s). fst p \<noteq> c}"
proof -
  from os_run_inv [OF assms(1,2)] have inv: "os_inv s" .
  have obj: "mSubscriptionObj (unsubscribe_proc items c s) = mSubscriptionObj s"
    "mSubscriptionObj (unsubscribe_all_proc c s) = mSubscriptionObj s"
    by (simp_all add: unsubscribe_proc_def unsubscribe_all_proc_def Let_def split: prod.split)
  from unsubscribe_proc_effect [OF inv, of items c] unsubscribe_all_proc_effect [OF inv, of c] assms(3)
  show ?thesis unfolding os_inv_def indexes.pair_inv_def obj by (simp add: Domain_converse)
qed

theorem unsubscribe_exact_witness:
  "\<exists>s. os_run toy_ops [SetSubsObj 9, HandleSubscribeReq [5, 6] 11 False, HandleSubscribeReq [6, 7] 12 False] (os_init []) = Some s \<and>
     mClientToDataItems s = [(11, [5, 6]), (12, [6, 7])] \<and>
     fw_asked (calls (unsubscribe_all_proc 11 s)) = Range {p \<in> setmap_rel (mClientToDataItems s). fst p \<noteq> 11} \<and>
     fw_asked (calls (unsubscribe_proc [6] 11 s)) = Range (setmap_rel (mClientToDataItems s) - {11} \<times> {6})"
proof -
  let ?ms = "[SetSubsObj 9, HandleSubscribeReq [5, 6] 11 False, HandleSubscribeReq [6, 7] 12 False] :: (nat \<times> nat) os_msg list"
  from os_indexes_total [of ?ms toy_ops "[]"]
  obtain s where r: "os_run toy_ops ?ms (os_init []) = Some s" by auto
  then have "mSubscriptionObj s = 9 \<and> mClientToDataItems s = [(11, [5, 6]), (12, [6, 7])]"
    by (auto simp: os_proc_eval)
  with r have s: "os_run toy_ops ?ms (os_init []) = Some s" "mSubscriptionObj s = 9"
    "mClientToDataItems s = [(11, [5, 6]), (12, [6, 7])]" by auto
  have "list_all msg_ok ?ms" by simp
  from unsubscribe_exact [OF this s(1), of "[6]" 11] s show ?thesis by (intro exI [of _ s]) simp
qed

end
