(* ===== verification/Steps.thy ===== *)
theory Steps
  imports Prelude
begin

text \<open>
  Systems driven by a sequence of operations, each of which may fault (\<open>None\<close>): running a
  sequence, and the two contracts a component may have, keeping an invariant (locale
  \<open>invariant_system\<close>) and also never faulting (locale \<open>total_system\<close>).
\<close>

fun run :: "('op \<Rightarrow> 's \<Rightarrow> 's option) \<Rightarrow> 'op list \<Rightarrow> 's \<Rightarrow> 's option" where
  "run step [] s = Some s"
| "run step (x # xs) s = (case step x s of None \<Rightarrow> None | Some s' \<Rightarrow> run step xs s')"

lemma run_append: "run step (xs @ ys) s = (case run step xs s of None \<Rightarrow> None | Some s' \<Rightarrow> run step ys s')"
  by (induction xs arbitrary: s) (auto split: option.splits)

lemma run_ConsE:
  assumes "run step (x # xs) s = Some s'"
  obtains s1 where "step x s = Some s1" "run step xs s1 = Some s'"
  using assms by (auto split: option.splits)

locale invariant_system =
  fixes step :: "'op \<Rightarrow> 's \<Rightarrow> 's option"
    and inv :: "'s \<Rightarrow> bool"
    and allowed :: "'op \<Rightarrow> bool"
  assumes step_inv: "inv s \<Longrightarrow> allowed x \<Longrightarrow> step x s = Some s' \<Longrightarrow> inv s'"
begin

lemma run_inv: "inv s \<Longrightarrow> list_all allowed xs \<Longrightarrow> run step xs s = Some s' \<Longrightarrow> inv s'"
proof (induction xs arbitrary: s)
  case (Cons x xs)
  from Cons.prems(3) obtain s1 where "step x s = Some s1" "run step xs s1 = Some s'" by (rule run_ConsE)
  with Cons step_inv [of s x s1] show ?case by simp
qed simp

end

locale total_system = invariant_system +
  assumes step_total: "inv s \<Longrightarrow> allowed x \<Longrightarrow> step x s \<noteq> None"
begin

lemma run_total: "inv s \<Longrightarrow> list_all allowed xs \<Longrightarrow> \<exists>s'. run step xs s = Some s' \<and> inv s'"
proof (induction xs arbitrary: s)
  case (Cons x xs)
  with step_total [of s x] obtain s1 where s1: "step x s = Some s1" by auto
  with Cons step_inv [of s x s1] show ?case by simp
qed simp

end

end
