(* ===== verification/Agps.thy ===== *)
theory Agps
  imports Steps "HOL-Library.Multiset"
begin

text \<open>
  \<open>gps/gnss/Agps.cpp\<close>: the manager of assisted GPS data connections. One state machine per
  kind of connection keeps the list of its subscribers; requests and releases from the modem
  and data call events from the framework drive it. Its callbacks to the modem and to the
  framework are entries of a log.
\<close>

unbundle bit_operations_syntax

section \<open>Data\<close>

datatype AgpsState = AGPS_STATE_INVALID | AGPS_STATE_RELEASED | AGPS_STATE_PENDING
  | AGPS_STATE_ACQUIRED | AGPS_STATE_RELEASING

datatype AgpsEvent = AGPS_EVENT_INVALID | AGPS_EVENT_SUBSCRIBE | AGPS_EVENT_UNSUBSCRIBE
  | AGPS_EVENT_GRANTED | AGPS_EVENT_RELEASED | AGPS_EVENT_DENIED

datatype AgpsNotificationType = FOR_ALL_SUBSCRIBERS | FOR_INACTIVE_SUBSCRIBERS | FOR_ACTIVE_SUBSCRIBERS

text \<open>\<open>AGpsExtType\<close> codes, type bits and masks.\<close>

abbreviation AGPS_TYPE_INVALID :: int where "AGPS_TYPE_INVALID \<equiv> - 1"
abbreviation AGPS_TYPE_SUPL :: int where "AGPS_TYPE_SUPL \<equiv> 1"
abbreviation AGPS_TYPE_WWAN_ANY :: int where "AGPS_TYPE_WWAN_ANY \<equiv> 3"
abbreviation AGPS_TYPE_SUPL_ES :: int where "AGPS_TYPE_SUPL_ES \<equiv> 5"
abbreviation AGPS_ATL_TYPE_SUPL :: u32 where "AGPS_ATL_TYPE_SUPL \<equiv> 1"
abbreviation AGPS_ATL_TYPE_SUPL_ES :: u32 where "AGPS_ATL_TYPE_SUPL_ES \<equiv> 2"
abbreviation AGPS_ATL_TYPE_WWAN :: u32 where "AGPS_ATL_TYPE_WWAN \<equiv> 4"
abbreviation APN_TYPE_SUPL_BIT :: u32 where "APN_TYPE_SUPL_BIT \<equiv> 16"
abbreviation APN_TYPE_EMERGENCY_BIT :: u32 where "APN_TYPE_EMERGENCY_BIT \<equiv> 512"
abbreviation LOC_GPS_CAPABILITY_MSB :: u32 where "LOC_GPS_CAPABILITY_MSB \<equiv> 2"
abbreviation LOC_GPS_CAPABILITY_MSA :: u32 where "LOC_GPS_CAPABILITY_MSA \<equiv> 4"
abbreviation MAX_APN_LEN :: nat where "MAX_APN_LEN \<equiv> 100"

record AgpsSubscriber =
  mConnHandle :: int
  mWaitForCloseComplete :: bool
  mIsInactive :: bool
  mSubApnTypeMask :: u32

text \<open>
  Callbacks: \<open>mAtlOpenStatusCb\<close>, \<open>mAtlCloseStatusCb\<close>, and the request to the framework to set
  up (\<open>True\<close>) or release a connection, which is only logged when no callback is registered.
\<close>

datatype agps_call =
    AtlOpenStatus int bool "string option" nat nat int u32
  | AtlCloseStatus int bool
  | DataConn bool int u32 int
  | NoFrameworkCb bool

record AgpsStateMachine =
  mSubscriberList :: "AgpsSubscriber list"
  mState :: AgpsState
  mFrameworkStatusV4Cb :: bool
  mAgpsType :: int
  mApnTypeMask :: u32
  mSubId :: int
  mAPN :: "string option"
  mAPNLen :: nat
  mBearer :: nat
  sent :: "agps_call list"

text \<open>
  \<open>mCurrentSubscriber\<close>: a subscriber of the caller's own, or an element of the list (by position).
\<close>

datatype current = Own AgpsSubscriber | Elem nat

definition deref :: "current \<Rightarrow> AgpsStateMachine \<Rightarrow> AgpsSubscriber" where
  "deref cur sm = (case cur of Own s \<Rightarrow> s | Elem i \<Rightarrow> mSubscriberList sm ! i)"

definition sm_new :: "int \<Rightarrow> AgpsStateMachine" where
  "sm_new agpsType = \<lparr>mSubscriberList = [], mState = AGPS_STATE_RELEASED, mFrameworkStatusV4Cb = False,
     mAgpsType = agpsType, mApnTypeMask = 0, mSubId = 0, mAPN = None, mAPNLen = 0, mBearer = 0, sent = []\<rparr>"

section \<open>The state machine\<close>

definition emit :: "agps_call \<Rightarrow> AgpsStateMachine \<Rightarrow> AgpsStateMachine" where
  "emit c sm = sm\<lparr>sent := sent sm @ [c]\<rparr>"

definition transitionState :: "AgpsState \<Rightarrow> AgpsStateMachine \<Rightarrow> AgpsStateMachine" where
  "transitionState st sm = sm\<lparr>mState := st\<rparr>"

definition requestOrReleaseDataConn :: "bool \<Rightarrow> AgpsStateMachine \<Rightarrow> AgpsStateMachine" where
  "requestOrReleaseDataConn request sm =
     (if mFrameworkStatusV4Cb sm then emit (DataConn request (mAgpsType sm) (mApnTypeMask sm) (mSubId sm)) sm
      else emit (NoFrameworkCb request) sm)"

definition addSubscriber :: "AgpsSubscriber \<Rightarrow> AgpsStateMachine \<Rightarrow> AgpsStateMachine" where
  "addSubscriber s sm =
     (if list_ex (\<lambda>x. mConnHandle x = mConnHandle s) (mSubscriberList sm) then sm
      else sm\<lparr>mSubscriberList := mSubscriberList sm @ [s]\<rparr>)"

definition anyActiveSubscribers :: "AgpsStateMachine \<Rightarrow> bool" where
  "anyActiveSubscribers sm \<longleftrightarrow> list_ex (\<lambda>x. \<not> mIsInactive x) (mSubscriberList sm)"

text \<open>
  \<open>deleteSubscriber\<close>: the loop reads the subscriber to delete for every element; when that is
  itself an element of the list (\<open>self\<close>, its position from here), it was deleted by then, and
  reading it for a later element is a fault.
\<close>

fun delete_loop :: "nat option \<Rightarrow> bool \<Rightarrow> int \<Rightarrow> AgpsSubscriber list \<Rightarrow> AgpsSubscriber list option" where
  "delete_loop self freed h [] = Some []"
| "delete_loop self freed h (x # xs) =
     (if freed then None
      else if mConnHandle x = h
           then delete_loop (map_option (\<lambda>i. i - 1) self) (self = Some 0) h xs
           else map_option (\<lambda>ys. x # ys)
                  (delete_loop (map_option (\<lambda>i. i - 1) self) False h xs))"

definition deleteSubscriber :: "current \<Rightarrow> AgpsStateMachine \<Rightarrow> AgpsStateMachine option" where
  "deleteSubscriber cur sm =
     map_option (\<lambda>l. sm\<lparr>mSubscriberList := l\<rparr>)
       (delete_loop (case cur of Own s \<Rightarrow> None | Elem i \<Rightarrow> Some i) False (mConnHandle (deref cur sm)) (mSubscriberList sm))"

definition notify_call :: "AgpsEvent \<Rightarrow> AgpsSubscriber \<Rightarrow> AgpsStateMachine \<Rightarrow> AgpsStateMachine" where
  "notify_call event s sm =
     (case event of
        AGPS_EVENT_GRANTED \<Rightarrow>
          emit (AtlOpenStatus (mConnHandle s) True (mAPN sm) (mAPNLen sm) (mBearer sm) (mAgpsType sm) (mApnTypeMask sm)) sm
      | AGPS_EVENT_DENIED \<Rightarrow>
          emit (AtlOpenStatus (mConnHandle s) False (mAPN sm) (mAPNLen sm) (mBearer sm) (mAgpsType sm) (mApnTypeMask sm)) sm
      | AGPS_EVENT_UNSUBSCRIBE \<Rightarrow> emit (AtlCloseStatus (mConnHandle s) True) sm
      | AGPS_EVENT_RELEASED \<Rightarrow> emit (AtlCloseStatus (mConnHandle s) True) sm
      | _ \<Rightarrow> sm)"

definition notifyEventToSubscriber ::
  "AgpsEvent \<Rightarrow> current \<Rightarrow> bool \<Rightarrow> AgpsStateMachine \<Rightarrow> AgpsStateMachine option" where
  "notifyEventToSubscriber event cur del sm =
     (let sm1 = notify_call event (deref cur sm) sm
      in if del then deleteSubscriber cur sm1 else Some sm1)"

definition selected :: "AgpsNotificationType \<Rightarrow> AgpsSubscriber \<Rightarrow> bool" where
  "selected t s \<longleftrightarrow> t = FOR_ALL_SUBSCRIBERS \<or> t = FOR_INACTIVE_SUBSCRIBERS \<and> mIsInactive s \<or>
     t = FOR_ACTIVE_SUBSCRIBERS \<and> \<not> mIsInactive s"

text \<open>The loop of \<open>notifyAllSubscribers\<close>: the subscribers passed, those to come.\<close>

fun notify_loop ::
  "AgpsEvent \<Rightarrow> bool \<Rightarrow> AgpsNotificationType \<Rightarrow> AgpsSubscriber list \<Rightarrow> AgpsSubscriber list \<Rightarrow>
     AgpsStateMachine \<Rightarrow> AgpsStateMachine" where
  "notify_loop event del t kept [] sm = sm\<lparr>mSubscriberList := kept\<rparr>"
| "notify_loop event del t kept (s # rest) sm =
     (if selected t s
      then notify_loop event del t (if del then kept else kept @ [s]) rest (notify_call event s sm)
      else notify_loop event del t (kept @ [s]) rest sm)"

definition notifyAllSubscribers ::
  "AgpsEvent \<Rightarrow> bool \<Rightarrow> AgpsNotificationType \<Rightarrow> AgpsStateMachine \<Rightarrow> AgpsStateMachine" where
  "notifyAllSubscribers event del t sm = notify_loop event del t [] (mSubscriberList sm) sm"

definition set_inactive :: "current \<Rightarrow> AgpsStateMachine \<Rightarrow> AgpsStateMachine" where
  "set_inactive cur sm =
     (case cur of
        Own s \<Rightarrow> sm
      | Elem i \<Rightarrow> sm\<lparr>mSubscriberList := (mSubscriberList sm)[i := (mSubscriberList sm ! i)\<lparr>mIsInactive := True\<rparr>]\<rparr>)"

definition processAgpsEventSubscribe :: "current \<Rightarrow> AgpsStateMachine \<Rightarrow> AgpsStateMachine option" where
  "processAgpsEventSubscribe cur sm =
     (case mState sm of
        AGPS_STATE_RELEASED \<Rightarrow>
          Some (transitionState AGPS_STATE_PENDING (requestOrReleaseDataConn True (addSubscriber (deref cur sm) sm)))
      | AGPS_STATE_PENDING \<Rightarrow> Some (addSubscriber (deref cur sm) sm)
      | AGPS_STATE_ACQUIRED \<Rightarrow>
          map_option (addSubscriber (deref cur sm)) (notifyEventToSubscriber AGPS_EVENT_GRANTED cur False sm)
      | AGPS_STATE_RELEASING \<Rightarrow> Some (addSubscriber (deref cur sm) sm)
      | AGPS_STATE_INVALID \<Rightarrow> Some sm)"

text \<open>The part \<open>PENDING\<close>, \<open>ACQUIRED\<close> and \<open>RELEASING\<close> share.\<close>

definition leave :: "current \<Rightarrow> AgpsStateMachine \<Rightarrow> AgpsStateMachine option" where
  "leave cur sm =
     (if mWaitForCloseComplete (deref cur sm) then Some (set_inactive cur sm)
      else notifyEventToSubscriber AGPS_EVENT_UNSUBSCRIBE cur True sm)"

definition processAgpsEventUnsubscribe :: "current \<Rightarrow> AgpsStateMachine \<Rightarrow> AgpsStateMachine option" where
  "processAgpsEventUnsubscribe cur sm =
     (if mState sm = AGPS_STATE_RELEASED then notifyEventToSubscriber AGPS_EVENT_UNSUBSCRIBE cur False sm
      else if mState sm = AGPS_STATE_PENDING \<or> mState sm = AGPS_STATE_ACQUIRED then
        map_option (\<lambda>sm1.
          if mSubscriberList sm1 = [] then requestOrReleaseDataConn False (transitionState AGPS_STATE_RELEASED sm1)
          else if \<not> anyActiveSubscribers sm1
               then requestOrReleaseDataConn False (transitionState AGPS_STATE_RELEASING sm1)
          else sm1) (leave cur sm)
      else if mState sm = AGPS_STATE_RELEASING then
        map_option (\<lambda>sm1. if mSubscriberList sm1 = [] then transitionState AGPS_STATE_RELEASED sm1 else sm1)
          (leave cur sm)
      else Some sm)"

definition processAgpsEventGranted :: "AgpsStateMachine \<Rightarrow> AgpsStateMachine" where
  "processAgpsEventGranted sm =
     (if mState sm = AGPS_STATE_PENDING
      then notifyAllSubscribers AGPS_EVENT_GRANTED False FOR_ACTIVE_SUBSCRIBERS (transitionState AGPS_STATE_ACQUIRED sm)
      else sm)"

text \<open>The part of \<open>RELEASED\<close> and \<open>DENIED\<close> in state \<open>RELEASING\<close>.\<close>

definition released_in_releasing :: "AgpsStateMachine \<Rightarrow> AgpsStateMachine" where
  "released_in_releasing sm =
     (let sm1 = notifyAllSubscribers AGPS_EVENT_RELEASED True FOR_INACTIVE_SUBSCRIBERS sm
      in if anyActiveSubscribers sm1 then requestOrReleaseDataConn True (transitionState AGPS_STATE_PENDING sm1)
         else transitionState AGPS_STATE_RELEASED sm1)"

definition processAgpsEventReleased :: "AgpsStateMachine \<Rightarrow> AgpsStateMachine" where
  "processAgpsEventReleased sm =
     (case mState sm of
        AGPS_STATE_ACQUIRED \<Rightarrow>
          notifyAllSubscribers AGPS_EVENT_RELEASED True FOR_ALL_SUBSCRIBERS (transitionState AGPS_STATE_RELEASED sm)
      | AGPS_STATE_RELEASING \<Rightarrow> released_in_releasing sm
      | _ \<Rightarrow> sm)"

definition processAgpsEventDenied :: "AgpsStateMachine \<Rightarrow> AgpsStateMachine" where
  "processAgpsEventDenied sm =
     (case mState sm of
        AGPS_STATE_RELEASING \<Rightarrow> released_in_releasing sm
      | AGPS_STATE_PENDING \<Rightarrow>
          notifyAllSubscribers AGPS_EVENT_DENIED True FOR_ALL_SUBSCRIBERS (transitionState AGPS_STATE_RELEASED sm)
      | _ \<Rightarrow> sm)"

definition processAgpsEvent :: "AgpsEvent \<Rightarrow> current \<Rightarrow> AgpsStateMachine \<Rightarrow> AgpsStateMachine option" where
  "processAgpsEvent event cur sm =
     (case event of
        AGPS_EVENT_SUBSCRIBE \<Rightarrow> processAgpsEventSubscribe cur sm
      | AGPS_EVENT_UNSUBSCRIBE \<Rightarrow> processAgpsEventUnsubscribe cur sm
      | AGPS_EVENT_GRANTED \<Rightarrow> Some (processAgpsEventGranted sm)
      | AGPS_EVENT_RELEASED \<Rightarrow> Some (processAgpsEventReleased sm)
      | AGPS_EVENT_DENIED \<Rightarrow> Some (processAgpsEventDenied sm)
      | AGPS_EVENT_INVALID \<Rightarrow> Some sm)"

text \<open>\<open>apn\<close> is a C string, its characters up to the terminating zero.\<close>

definition setAPN :: "string option \<Rightarrow> u32 \<Rightarrow> AgpsStateMachine \<Rightarrow> AgpsStateMachine" where
  "setAPN apn len sm =
     (case apn of
        None \<Rightarrow> sm\<lparr>mAPN := None, mAPNLen := 0\<rparr>
      | Some a \<Rightarrow>
          if unat len > MAX_APN_LEN \<or> length a \<noteq> unat len then sm\<lparr>mAPN := None, mAPNLen := 0\<rparr>
          else sm\<lparr>mAPN := Some a, mAPNLen := unat len\<rparr>)"

text \<open>The position of the first subscriber with the handle.\<close>

fun getSubscriber :: "int \<Rightarrow> AgpsSubscriber list \<Rightarrow> nat option" where
  "getSubscriber h [] = None"
| "getSubscriber h (s # l) = (if mConnHandle s = h then Some 0 else map_option Suc (getSubscriber h l))"

definition dropAllSubscribers :: "AgpsStateMachine \<Rightarrow> AgpsStateMachine" where
  "dropAllSubscribers sm = sm\<lparr>mSubscriberList := []\<rparr>"

section \<open>The manager\<close>

record AgpsManager =
  mAgnssNif :: "AgpsStateMachine option"
  mInternetNif :: "AgpsStateMachine option"
  mCbPriority :: nat
  refused :: "agps_call list" \<comment> \<open>requests answered without a state machine\<close>

text \<open>What the code reads of the configuration.\<close>

record gps_conf =
  CAPABILITIES :: u32
  USE_EMERGENCY_PDN_FOR_EMERGENCY_SUPL :: u32

record AgpsCbInfo =
  statusV4Cb :: bool
  atlType :: u32
  cbPriority :: nat

definition mgr_new :: AgpsManager where
  "mgr_new = \<lparr>mAgnssNif = None, mInternetNif = None, mCbPriority = 0, refused = []\<rparr>"

definition createAgpsStateMachines :: "gps_conf \<Rightarrow> AgpsCbInfo \<Rightarrow> AgpsManager \<Rightarrow> AgpsManager option" where
  "createAgpsStateMachines conf cb m =
     (let agpsCapable = (CAPABILITIES conf AND LOC_GPS_CAPABILITY_MSA \<noteq> 0 \<or>
                         CAPABILITIES conf AND LOC_GPS_CAPABILITY_MSB \<noteq> 0);
          m1 = (if mInternetNif m = None \<and> atlType cb AND AGPS_ATL_TYPE_WWAN \<noteq> 0
                then m\<lparr>mInternetNif := Some ((sm_new AGPS_TYPE_WWAN_ANY)\<lparr>mFrameworkStatusV4Cb := statusV4Cb cb\<rparr>)\<rparr>
                else m)
      in if agpsCapable then
           let m2 = (if mAgnssNif m1 = None \<and> atlType cb AND AGPS_ATL_TYPE_SUPL \<noteq> 0 \<and>
                        atlType cb AND AGPS_ATL_TYPE_SUPL_ES \<noteq> 0
                     then m1\<lparr>mAgnssNif := Some (sm_new AGPS_TYPE_SUPL)\<rparr> else m1)
           in if cbPriority cb > mCbPriority m2 then
                (case mAgnssNif m2 of
                   None \<Rightarrow> None
                 | Some sm \<Rightarrow> Some (m2\<lparr>mCbPriority := cbPriority cb,
                                       mAgnssNif := Some (sm\<lparr>mFrameworkStatusV4Cb := statusV4Cb cb\<rparr>)\<rparr>))
              else Some m2
         else Some m1)"

text \<open>\<open>getAgpsStateMachine\<close>: is it the machine for SUPL.\<close>

definition is_agnss :: "int \<Rightarrow> bool" where
  "is_agnss agpsType \<longleftrightarrow> agpsType = AGPS_TYPE_INVALID \<or> agpsType = AGPS_TYPE_SUPL \<or> agpsType = AGPS_TYPE_SUPL_ES"

definition getAgpsStateMachine :: "int \<Rightarrow> AgpsManager \<Rightarrow> AgpsStateMachine option" where
  "getAgpsStateMachine agpsType m = (if is_agnss agpsType then mAgnssNif m else mInternetNif m)"

definition put_sm :: "int \<Rightarrow> AgpsStateMachine \<Rightarrow> AgpsManager \<Rightarrow> AgpsManager" where
  "put_sm agpsType sm m = (if is_agnss agpsType then m\<lparr>mAgnssNif := Some sm\<rparr> else m\<lparr>mInternetNif := Some sm\<rparr>)"

text \<open>An emergency SUPL request is served as SUPL unless an emergency PDN is to be used.\<close>

definition as_supl :: "gps_conf \<Rightarrow> int \<Rightarrow> bool" where
  "as_supl conf agpsType \<longleftrightarrow> USE_EMERGENCY_PDN_FOR_EMERGENCY_SUPL conf = 0 \<and> agpsType = AGPS_TYPE_SUPL_ES"

definition effective_type :: "gps_conf \<Rightarrow> int \<Rightarrow> int" where
  "effective_type conf agpsType = (if as_supl conf agpsType then AGPS_TYPE_SUPL else agpsType)"

definition effective_mask :: "gps_conf \<Rightarrow> int \<Rightarrow> u32 \<Rightarrow> u32" where
  "effective_mask conf agpsType am =
     (if as_supl conf agpsType then (am AND NOT APN_TYPE_EMERGENCY_BIT) OR APN_TYPE_SUPL_BIT else am)"

definition requestATL :: "gps_conf \<Rightarrow> int \<Rightarrow> int \<Rightarrow> u32 \<Rightarrow> int \<Rightarrow> AgpsManager \<Rightarrow> AgpsManager option" where
  "requestATL conf h agpsType0 am0 subId m =
     (let agpsType = effective_type conf agpsType0; am = effective_mask conf agpsType0 am0
      in (case getAgpsStateMachine agpsType m of
            None \<Rightarrow> Some (m\<lparr>refused := refused m @ [AtlOpenStatus h False None 0 0 agpsType am]\<rparr>)
          | Some sm \<Rightarrow>
              map_option (\<lambda>sm'. put_sm agpsType sm' m)
                (processAgpsEvent AGPS_EVENT_SUBSCRIBE
                  (Own \<lparr>mConnHandle = h, mWaitForCloseComplete = True, mIsInactive = False, mSubApnTypeMask = am\<rparr>)
                  (sm\<lparr>mAgpsType := agpsType, mApnTypeMask := am, mSubId := subId\<rparr>))))"

definition releaseATL :: "int \<Rightarrow> AgpsManager \<Rightarrow> AgpsManager option" where
  "releaseATL h m =
     (case Option.bind (mAgnssNif m) (\<lambda>sm. map_option (Pair sm) (getSubscriber h (mSubscriberList sm))) of
        Some (sm, i) \<Rightarrow>
          map_option (\<lambda>sm'. m\<lparr>mAgnssNif := Some sm'\<rparr>) (processAgpsEvent AGPS_EVENT_UNSUBSCRIBE (Elem i) sm)
      | None \<Rightarrow>
          (case Option.bind (mInternetNif m) (\<lambda>sm. map_option (Pair sm) (getSubscriber h (mSubscriberList sm))) of
             Some (sm, i) \<Rightarrow>
               map_option (\<lambda>sm'. m\<lparr>mInternetNif := Some sm'\<rparr>) (processAgpsEvent AGPS_EVENT_UNSUBSCRIBE (Elem i) sm)
           | None \<Rightarrow> Some m))"

definition reportAtlOpenSuccess :: "int \<Rightarrow> string option \<Rightarrow> i32 \<Rightarrow> nat \<Rightarrow> AgpsManager \<Rightarrow> AgpsManager" where
  "reportAtlOpenSuccess agpsType apn len bearer m =
     (case getAgpsStateMachine agpsType m of
        None \<Rightarrow> m
      | Some sm \<Rightarrow> put_sm agpsType (processAgpsEventGranted (setAPN apn len (sm\<lparr>mBearer := bearer\<rparr>))) m)"

definition reportAtlOpenFailed :: "int \<Rightarrow> AgpsManager \<Rightarrow> AgpsManager" where
  "reportAtlOpenFailed agpsType m =
     (case getAgpsStateMachine agpsType m of
        None \<Rightarrow> m | Some sm \<Rightarrow> put_sm agpsType (processAgpsEventDenied sm) m)"

definition reportAtlClosed :: "int \<Rightarrow> AgpsManager \<Rightarrow> AgpsManager" where
  "reportAtlClosed agpsType m =
     (case getAgpsStateMachine agpsType m of
        None \<Rightarrow> m | Some sm \<Rightarrow> put_sm agpsType (processAgpsEventReleased sm) m)"

definition handleModemSSR :: "AgpsManager \<Rightarrow> AgpsManager" where
  "handleModemSSR m = m\<lparr>mAgnssNif := map_option dropAllSubscribers (mAgnssNif m),
     mInternetNif := map_option dropAllSubscribers (mInternetNif m)\<rparr>"

datatype agps_op = RequestATL int int u32 int | ReleaseATL int
  | ReportAtlOpenSuccess int "string option" i32 nat | ReportAtlOpenFailed int | ReportAtlClosed int
  | HandleModemSSR

fun agps_step :: "gps_conf \<Rightarrow> agps_op \<Rightarrow> AgpsManager \<Rightarrow> AgpsManager option" where
  "agps_step conf (RequestATL h t am sub) m = requestATL conf h t am sub m"
| "agps_step conf (ReleaseATL h) m = releaseATL h m"
| "agps_step conf (ReportAtlOpenSuccess t apn len b) m = Some (reportAtlOpenSuccess t apn len b m)"
| "agps_step conf (ReportAtlOpenFailed t) m = Some (reportAtlOpenFailed t m)"
| "agps_step conf (ReportAtlClosed t) m = Some (reportAtlClosed t m)"
| "agps_step conf HandleModemSSR m = Some (handleModemSSR m)"

section \<open>Notifications\<close>

text \<open>What a subscriber is told of an event.\<close>

definition news :: "AgpsEvent \<Rightarrow> AgpsStateMachine \<Rightarrow> AgpsSubscriber \<Rightarrow> agps_call list" where
  "news event sm s = (case event of
      AGPS_EVENT_GRANTED \<Rightarrow>
        [AtlOpenStatus (mConnHandle s) True (mAPN sm) (mAPNLen sm) (mBearer sm) (mAgpsType sm) (mApnTypeMask sm)]
    | AGPS_EVENT_DENIED \<Rightarrow>
        [AtlOpenStatus (mConnHandle s) False (mAPN sm) (mAPNLen sm) (mBearer sm) (mAgpsType sm) (mApnTypeMask sm)]
    | AGPS_EVENT_UNSUBSCRIBE \<Rightarrow> [AtlCloseStatus (mConnHandle s) True]
    | AGPS_EVENT_RELEASED \<Rightarrow> [AtlCloseStatus (mConnHandle s) True]
    | _ \<Rightarrow> [])"

lemma notify_call_eq: "notify_call event s sm = sm\<lparr>sent := sent sm @ news event sm s\<rparr>"
  by (cases event) (simp_all add: notify_call_def news_def emit_def)

lemma news_sent [simp]: "news event (sm\<lparr>sent := x\<rparr>) = news event sm"
  by (cases event) (simp_all add: news_def fun_eq_iff)

lemma news_mState [simp]: "news event (sm\<lparr>mState := x\<rparr>) = news event sm"
  by (cases event) (simp_all add: news_def fun_eq_iff)

lemma notify_loop_eq:
  "notify_loop event del t kept l sm =
     sm\<lparr>mSubscriberList := kept @ (if del then filter (\<lambda>s. \<not> selected t s) l else l),
        sent := sent sm @ concat (map (news event sm) (filter (selected t) l))\<rparr>"
  by (induction l arbitrary: kept sm) (auto simp: notify_call_eq)

lemma notifyAllSubscribers_eq:
  "notifyAllSubscribers event del t sm =
     sm\<lparr>mSubscriberList := (if del then filter (\<lambda>s. \<not> selected t s) (mSubscriberList sm) else mSubscriberList sm),
        sent := sent sm @ concat (map (news event sm) (filter (selected t) (mSubscriberList sm)))\<rparr>"
  by (simp add: notifyAllSubscribers_def notify_loop_eq)

lemma selected_simps [simp]:
  "selected FOR_ALL_SUBSCRIBERS = (\<lambda>s. True)"
  "selected FOR_INACTIVE_SUBSCRIBERS = (\<lambda>s. mIsInactive s)"
  "selected FOR_ACTIVE_SUBSCRIBERS = (\<lambda>s. \<not> mIsInactive s)"
  by (simp_all add: selected_def fun_eq_iff)

section \<open>Requests to the framework\<close>

fun conn_of :: "agps_call \<Rightarrow> bool list" where
  "conn_of (DataConn request t am sub) = [request]"
| "conn_of (NoFrameworkCb request) = [request]"
| "conn_of _ = []"

text \<open>The requests (\<open>True\<close>) and releases of a data connection, in order.\<close>

definition conns :: "agps_call list \<Rightarrow> bool list" where
  "conns cs = concat (map conn_of cs)"

text \<open>Every release directly follows a request.\<close>

fun releases_ok :: "bool \<Rightarrow> bool list \<Rightarrow> bool" where
  "releases_ok prev [] \<longleftrightarrow> True"
| "releases_ok prev (x # xs) \<longleftrightarrow> (x \<or> prev) \<and> releases_ok x xs"

lemma releases_ok_snoc [simp]: "releases_ok p (xs @ [x]) \<longleftrightarrow> releases_ok p xs \<and> (x \<or> last (p # xs))"
  by (induction xs arbitrary: p) auto

lemma conns_append [simp]: "conns (cs @ ds) = conns cs @ conns ds"
  by (simp add: conns_def)

lemma conns_news [simp]: "conns (news event sm s) = []"
  by (cases event) (simp_all add: news_def conns_def)

lemma conns_many_news [simp]: "conns (concat (map (news event sm) l)) = []"
  by (induction l) (auto simp: conns_def [of "[]"])

lemma conns_single [simp]: "conns [DataConn r t am sub] = [r]" "conns [NoFrameworkCb r] = [r]"
  "conns [AtlOpenStatus h ok a n b t am] = []" "conns [AtlCloseStatus h ok] = []"
  by (simp_all add: conns_def)

definition conn_call :: "bool \<Rightarrow> AgpsStateMachine \<Rightarrow> agps_call" where
  "conn_call r sm = (if mFrameworkStatusV4Cb sm then DataConn r (mAgpsType sm) (mApnTypeMask sm) (mSubId sm)
     else NoFrameworkCb r)"

lemma requestOrRelease_eq: "requestOrReleaseDataConn r sm = sm\<lparr>sent := sent sm @ [conn_call r sm]\<rparr>"
  by (simp add: requestOrReleaseDataConn_def emit_def conn_call_def)

lemma conn_call_frame [simp]:
  "conn_call r (sm\<lparr>mState := st\<rparr>) = conn_call r sm" "conn_call r (sm\<lparr>mSubscriberList := l\<rparr>) = conn_call r sm"
  "conn_call r (sm\<lparr>sent := cs\<rparr>) = conn_call r sm"
  by (simp_all add: conn_call_def)

lemma conns_conn_call [simp]: "conns [conn_call r sm] = [r]"
  by (simp add: conn_call_def)

section \<open>Invariant of a state machine\<close>

definition conn_ok :: "AgpsState \<Rightarrow> bool list \<Rightarrow> bool" where
  "conn_ok st cs \<longleftrightarrow> releases_ok False cs \<and>
     (st = AGPS_STATE_PENDING \<or> st = AGPS_STATE_ACQUIRED \<longrightarrow> last (False # cs)) \<and>
     (st = AGPS_STATE_RELEASING \<longrightarrow> \<not> last (False # cs))"

definition list_ok :: "AgpsState \<Rightarrow> AgpsSubscriber list \<Rightarrow> bool" where
  "list_ok st l \<longleftrightarrow> distinct (map mConnHandle l) \<and> list_all mWaitForCloseComplete l \<and>
     (st = AGPS_STATE_RELEASED \<longrightarrow> l = []) \<and>
     (st = AGPS_STATE_PENDING \<or> st = AGPS_STATE_ACQUIRED \<longrightarrow> l = [] \<or> list_ex (\<lambda>s. \<not> mIsInactive s) l)"

definition sm_inv :: "AgpsStateMachine \<Rightarrow> bool" where
  "sm_inv sm \<longleftrightarrow> mState sm \<noteq> AGPS_STATE_INVALID \<and> list_ok (mState sm) (mSubscriberList sm) \<and>
     conn_ok (mState sm) (conns (sent sm))"

lemmas sm_inv_defs = sm_inv_def list_ok_def conn_ok_def

lemma sm_inv_new: "sm_inv (sm_new t)"
  by (simp add: sm_inv_defs sm_new_def conns_def)

lemma sm_inv_cong:
  "mState sm' = mState sm \<Longrightarrow> mSubscriberList sm' = mSubscriberList sm \<Longrightarrow> conns (sent sm') = conns (sent sm) \<Longrightarrow>
     sm_inv sm' = sm_inv sm"
  by (simp add: sm_inv_def)

lemma sm_inv_frame [simp]:
  "sm_inv (sm\<lparr>mAgpsType := t, mApnTypeMask := am, mSubId := sub\<rparr>) = sm_inv sm"
  "sm_inv (sm\<lparr>mFrameworkStatusV4Cb := cb\<rparr>) = sm_inv sm"
  "sm_inv (sm\<lparr>mBearer := b\<rparr>) = sm_inv sm"
  "sm_inv (setAPN apn len sm) = sm_inv sm"
  by (rule sm_inv_cong; simp)+ (cases apn; rule sm_inv_cong; simp add: setAPN_def)

lemma addSubscriber_list:
  "mSubscriberList (addSubscriber s sm) = (if mConnHandle s \<in> mConnHandle ` set (mSubscriberList sm)
     then mSubscriberList sm else mSubscriberList sm @ [s])"
  by (auto simp: addSubscriber_def list_ex_iff) (metis imageI)

lemma addSubscriber_frame [simp]:
  "mState (addSubscriber s sm) = mState sm" "sent (addSubscriber s sm) = sent sm"
  by (simp_all add: addSubscriber_def)

lemma list_ok_add:
  assumes "list_ok st (mSubscriberList sm)" "mWaitForCloseComplete s" "\<not> mIsInactive s" "st \<noteq> AGPS_STATE_RELEASED"
  shows "list_ok st (mSubscriberList (addSubscriber s sm))"
  using assms by (auto simp: list_ok_def addSubscriber_list)

lemma list_ok_released: "list_ok AGPS_STATE_RELEASED l \<longleftrightarrow> l = []"
  by (auto simp: list_ok_def)

lemma sm_inv_subscribe:
  assumes "sm_inv sm" "mWaitForCloseComplete s" "\<not> mIsInactive s"
  shows "\<exists>sm'. processAgpsEventSubscribe (Own s) sm = Some sm' \<and> sm_inv sm'"
proof (cases "mState sm")
  case AGPS_STATE_RELEASED
  from AGPS_STATE_RELEASED assms(1) have "mSubscriberList sm = []" by (simp add: sm_inv_def list_ok_released)
  with AGPS_STATE_RELEASED assms show ?thesis
    by (simp add: requestOrRelease_eq processAgpsEventSubscribe_def deref_def transitionState_def sm_inv_defs addSubscriber_list)
next
  case AGPS_STATE_ACQUIRED
  have "mSubscriberList (sm\<lparr>sent := x\<rparr>) = mSubscriberList sm" for x by simp
  with list_ok_add [of _ "sm\<lparr>sent := sent sm @ news AGPS_EVENT_GRANTED sm s\<rparr>" s] AGPS_STATE_ACQUIRED assms show ?thesis
    by (simp add: processAgpsEventSubscribe_def deref_def notifyEventToSubscriber_def notify_call_eq sm_inv_def)
qed (use assms list_ok_add [of _ sm s] in \<open>auto simp: processAgpsEventSubscribe_def deref_def sm_inv_def\<close>)

lemma getSubscriber_Some:
  "getSubscriber h l = Some i \<Longrightarrow> i < length l \<and> mConnHandle (l ! i) = h"
  by (induction l arbitrary: i) (auto split: if_splits)

lemma getSubscriber_None: "getSubscriber h l = None \<longleftrightarrow> h \<notin> mConnHandle ` set l"
  by (induction l) auto

lemma list_ok_inactive:
  assumes "list_ok AGPS_STATE_RELEASING l" "i < length l"
  shows "list_ok AGPS_STATE_RELEASING (l[i := (l ! i)\<lparr>mIsInactive := True\<rparr>])"
proof -
  have "map mConnHandle (l[i := (l ! i)\<lparr>mIsInactive := True\<rparr>]) = map mConnHandle l"
    by (simp add: map_update) (metis list_update_id map_update nth_map assms(2))
  with assms show ?thesis
    by (auto simp: list_ok_def list_all_length nth_list_update)
qed

lemma sm_inv_unsubscribe:
  assumes "sm_inv sm" "i < length (mSubscriberList sm)"
  shows "\<exists>sm'. processAgpsEventUnsubscribe (Elem i) sm = Some sm' \<and> sm_inv sm' \<and>
    mSubscriberList sm' = (mSubscriberList sm)[i := (mSubscriberList sm ! i)\<lparr>mIsInactive := True\<rparr>] \<and>
    (\<exists>cs. sent sm' = sent sm @ cs \<and>
(cs = [] \<or> cs = [conn_call False sm]))"
proof -
  let ?l = "(mSubscriberList sm)[i := (mSubscriberList sm ! i)\<lparr>mIsInactive := True\<rparr>]"
  let ?sm = "sm\<lparr>mSubscriberList := ?l\<rparr>"
  have l: "mSubscriberList sm \<noteq> []" using assms(2) by auto
  with assms(1) have st: "mState sm \<noteq> AGPS_STATE_RELEASED" "mState sm \<noteq> AGPS_STATE_INVALID"
    by (auto simp: sm_inv_def list_ok_def)
  have w: "mWaitForCloseComplete (mSubscriberList sm ! i)"
    using assms by (auto simp: sm_inv_def list_ok_def list_all_length)
  then have lv: "leave (Elem i) sm = Some ?sm"
    by (simp add: leave_def deref_def set_inactive_def)
  have "list_ok AGPS_STATE_RELEASING (mSubscriberList sm)" using assms(1) by (auto simp: sm_inv_def list_ok_def)
  from list_ok_inactive [OF this assms(2)] have ok: "list_ok AGPS_STATE_RELEASING ?l" .
  show ?thesis
  proof (cases "mState sm = AGPS_STATE_RELEASING")
    case True
    with ok l assms st lv show ?thesis by (simp add: processAgpsEventUnsubscribe_def sm_inv_def)
  next
    case False
    with st have pa: "mState sm = AGPS_STATE_PENDING \<or> mState sm = AGPS_STATE_ACQUIRED" by (cases "mState sm") auto
    have e: "processAgpsEventUnsubscribe (Elem i) sm = Some (if anyActiveSubscribers ?sm then ?sm
        else requestOrReleaseDataConn False (transitionState AGPS_STATE_RELEASING ?sm))"
      using pa l lv by (auto simp: processAgpsEventUnsubscribe_def)
    show ?thesis
    proof (cases "anyActiveSubscribers ?sm")
      case True
      then have "list_ok (mState sm) ?l" using ok pa by (auto simp: list_ok_def anyActiveSubscribers_def)
      with True e assms st show ?thesis by (simp add: sm_inv_def)
    next
      case False
      from pa assms(1) have "last (False # conns (sent sm))" "releases_ok False (conns (sent sm))"
        by (auto simp: sm_inv_def conn_ok_def)
      with e ok False show ?thesis
        by (simp add: requestOrRelease_eq sm_inv_def conn_ok_def transitionState_def)
    qed
  qed
qed

lemma list_ok_filter: "list_ok AGPS_STATE_RELEASING l \<Longrightarrow> list_ok AGPS_STATE_RELEASING (filter P l)"
  by (auto simp: list_ok_def list_all_iff distinct_map inj_on_def)

lemma sm_inv_granted: "sm_inv sm \<Longrightarrow> sm_inv (processAgpsEventGranted sm)"
  by (auto simp: processAgpsEventGranted_def notifyAllSubscribers_eq transitionState_def sm_inv_defs)

lemma sm_inv_all_gone:
  "sm_inv sm \<Longrightarrow> sm_inv (notifyAllSubscribers event True FOR_ALL_SUBSCRIBERS (transitionState AGPS_STATE_RELEASED sm))"
  by (auto simp: notifyAllSubscribers_eq transitionState_def sm_inv_def list_ok_released conn_ok_def)

lemma released_in_releasing_eq:
  "released_in_releasing sm =
     (let active = filter (\<lambda>s. \<not> mIsInactive s) (mSubscriberList sm);
          told = concat (map (news AGPS_EVENT_RELEASED sm) (filter mIsInactive (mSubscriberList sm)))
      in if active \<noteq> [] then sm\<lparr>mSubscriberList := active, mState := AGPS_STATE_PENDING,
                                sent := sent sm @ told @ [conn_call True sm]\<rparr>
         else sm\<lparr>mSubscriberList := [], mState := AGPS_STATE_RELEASED, sent := sent sm @ told\<rparr>)"
proof -
  have "list_ex (\<lambda>s. \<not> mIsInactive s) l \<longleftrightarrow> l \<noteq> []" if "list_all (\<lambda>s. \<not> mIsInactive s) l" for l
    using that by (cases l) auto
  from this [of "filter (\<lambda>s. \<not> mIsInactive s) (mSubscriberList sm)"] show ?thesis
    by (simp add: list_all_iff released_in_releasing_def notifyAllSubscribers_eq anyActiveSubscribers_def Let_def
        requestOrRelease_eq transitionState_def)
qed

lemma sm_inv_released_in_releasing:
  assumes "sm_inv sm" "mState sm = AGPS_STATE_RELEASING"
  shows "sm_inv (released_in_releasing sm)"
proof -
  let ?active = "filter (\<lambda>s. \<not> mIsInactive s) (mSubscriberList sm)"
  have "list_ok AGPS_STATE_RELEASING (mSubscriberList sm)" using assms by (simp add: sm_inv_def)
  from list_ok_filter [OF this, of "\<lambda>s. \<not> mIsInactive s"]
  have "?active \<noteq> [] \<Longrightarrow> list_ok AGPS_STATE_PENDING ?active"
    by (cases ?active) (auto simp: list_ok_def list_ex_iff filter_eq_Cons_iff)
  with assms show ?thesis
    by (simp add: released_in_releasing_eq Let_def sm_inv_def conn_ok_def list_ok_released)
qed

lemma sm_inv_released: "sm_inv sm \<Longrightarrow> sm_inv (processAgpsEventReleased sm)"
  by (cases "mState sm") (simp_all add: processAgpsEventReleased_def sm_inv_all_gone sm_inv_released_in_releasing)

lemma sm_inv_denied: "sm_inv sm \<Longrightarrow> sm_inv (processAgpsEventDenied sm)"
  by (cases "mState sm") (simp_all add: processAgpsEventDenied_def sm_inv_all_gone sm_inv_released_in_releasing)

lemma sm_inv_drop: "sm_inv sm \<Longrightarrow> sm_inv (dropAllSubscribers sm)"
  by (auto simp: dropAllSubscribers_def sm_inv_defs)

section \<open>Invariant of the manager\<close>

definition mgr_inv :: "AgpsManager \<Rightarrow> bool" where
  "mgr_inv m \<longleftrightarrow> pred_option sm_inv (mAgnssNif m) \<and> pred_option sm_inv (mInternetNif m)"

lemma getAgpsStateMachine_inv: "mgr_inv m \<Longrightarrow> getAgpsStateMachine t m = Some sm \<Longrightarrow> sm_inv sm"
  by (auto simp: mgr_inv_def getAgpsStateMachine_def split: if_splits)

lemma put_sm_inv: "mgr_inv m \<Longrightarrow> sm_inv sm \<Longrightarrow> mgr_inv (put_sm t sm m)"
  by (simp add: mgr_inv_def put_sm_def)

lemma mgr_inv_create:
  "mgr_inv m \<Longrightarrow> createAgpsStateMachines conf cb m = Some m' \<Longrightarrow> mgr_inv m'"
  by (auto simp: createAgpsStateMachines_def Let_def mgr_inv_def sm_inv_new split: if_splits option.splits)

definition atl_subscriber :: "int \<Rightarrow> u32 \<Rightarrow> AgpsSubscriber" where
  "atl_subscriber h am = \<lparr>mConnHandle = h, mWaitForCloseComplete = True, mIsInactive = False, mSubApnTypeMask = am\<rparr>"

lemma requestATL_cases:
  assumes "mgr_inv m"
  obtains (none) t am where "t = effective_type conf agpsType" "getAgpsStateMachine t m = None"
      "requestATL conf h agpsType am0 sub m = Some (m\<lparr>refused := refused m @ [AtlOpenStatus h False None 0 0 t am]\<rparr>)"
  | (sm) t am sm sm' where "t = effective_type conf agpsType" "getAgpsStateMachine t m = Some sm"
      "processAgpsEventSubscribe (Own (atl_subscriber h am)) (sm\<lparr>mAgpsType := t, mApnTypeMask := am, mSubId := sub\<rparr>) = Some sm'"
      "sm_inv sm'" "requestATL conf h agpsType am0 sub m = Some (put_sm t sm' m)"
proof -
  let ?t = "effective_type conf agpsType"
  let ?am = "effective_mask conf agpsType am0"
  have e: "requestATL conf h agpsType am0 sub m = (case getAgpsStateMachine ?t m of
            None \<Rightarrow> Some (m\<lparr>refused := refused m @ [AtlOpenStatus h False None 0 0 ?t ?am]\<rparr>)
          | Some sm \<Rightarrow> map_option (\<lambda>sm'. put_sm ?t sm' m)
                (processAgpsEventSubscribe (Own (atl_subscriber h ?am))
                  (sm\<lparr>mAgpsType := ?t, mApnTypeMask := ?am, mSubId := sub\<rparr>)))"
    by (simp only: requestATL_def Let_def processAgpsEvent_def AgpsEvent.case atl_subscriber_def)
  show thesis
  proof (cases "getAgpsStateMachine ?t m")
    case None
    with e show thesis by (intro none) simp_all
  next
    case (Some sm)
    with getAgpsStateMachine_inv [OF assms Some]
      sm_inv_subscribe [of "sm\<lparr>mAgpsType := ?t, mApnTypeMask := ?am, mSubId := sub\<rparr>" "atl_subscriber h ?am"]
    obtain sm' where "processAgpsEventSubscribe (Own (atl_subscriber h ?am))
        (sm\<lparr>mAgpsType := ?t, mApnTypeMask := ?am, mSubId := sub\<rparr>) = Some sm'" "sm_inv sm'"
      by (auto simp: atl_subscriber_def)
    with Some e show thesis by (intro sm) simp_all
  qed
qed

text \<open>What \<open>releaseATL\<close> does: the first machine that has the handle marks its subscriber.\<close>

definition finds :: "int \<Rightarrow> AgpsStateMachine option \<Rightarrow> bool" where
  "finds h nif \<longleftrightarrow> pred_option (\<lambda>sm. h \<in> mConnHandle ` set (mSubscriberList sm)) nif \<and> nif \<noteq> None"

lemma releaseATL_cases:
  assumes "mgr_inv m"
  obtains (none) "releaseATL h m = Some m"
  | (agnss) sm i sm' where "mAgnssNif m = Some sm" "i < length (mSubscriberList sm)"
      "processAgpsEventUnsubscribe (Elem i) sm = Some sm'" "sm_inv sm'" "releaseATL h m = Some (m\<lparr>mAgnssNif := Some sm'\<rparr>)"
  | (internet) sm i sm' where "mInternetNif m = Some sm" "i < length (mSubscriberList sm)"
      "processAgpsEventUnsubscribe (Elem i) sm = Some sm'" "sm_inv sm'" "releaseATL h m = Some (m\<lparr>mInternetNif := Some sm'\<rparr>)"
proof (cases "Option.bind (mAgnssNif m) (\<lambda>sm. map_option (Pair sm) (getSubscriber h (mSubscriberList sm)))")
  case (Some p)
  then obtain sm i where sm: "mAgnssNif m = Some sm" "getSubscriber h (mSubscriberList sm) = Some i" "p = (sm, i)"
    by (auto simp: Option.bind_eq_Some_conv)
  moreover have "sm_inv sm" using assms sm(1) by (simp add: mgr_inv_def)
  moreover have i: "i < length (mSubscriberList sm)" using getSubscriber_Some [OF sm(2)] by simp
  ultimately obtain sm' where "processAgpsEventUnsubscribe (Elem i) sm = Some sm'" "sm_inv sm'"
    using sm_inv_unsubscribe by blast
  with sm i Some show thesis by (intro agnss) (simp_all add: releaseATL_def processAgpsEvent_def)
next
  case None
  show thesis
  proof (cases "Option.bind (mInternetNif m) (\<lambda>sm. map_option (Pair sm) (getSubscriber h (mSubscriberList sm)))")
    case None': None
    with None show thesis by (intro none) (simp add: releaseATL_def)
  next
    case (Some p)
    then obtain sm i where sm: "mInternetNif m = Some sm" "getSubscriber h (mSubscriberList sm) = Some i" "p = (sm, i)"
      by (auto simp: Option.bind_eq_Some_conv)
    moreover have "sm_inv sm" using assms sm(1) by (simp add: mgr_inv_def)
    moreover have i: "i < length (mSubscriberList sm)" using getSubscriber_Some [OF sm(2)] by simp
    ultimately obtain sm' where "processAgpsEventUnsubscribe (Elem i) sm = Some sm'" "sm_inv sm'"
      using sm_inv_unsubscribe by blast
    with sm i Some None show thesis by (intro internet) (simp_all add: releaseATL_def processAgpsEvent_def)
  qed
qed

lemma agps_step_inv:
  assumes "mgr_inv m"
  shows "\<exists>m'. agps_step conf x m = Some m' \<and> mgr_inv m'"
proof (cases x)
  case (RequestATL h t am sub)
  show ?thesis
    by (rule requestATL_cases [OF assms, of conf t h am sub])
      (use assms RequestATL in \<open>simp_all add: put_sm_inv\<close>, simp add: mgr_inv_def)
next
  case (ReleaseATL h)
  show ?thesis
    by (rule releaseATL_cases [OF assms, of h]) (use assms ReleaseATL in \<open>simp_all add: mgr_inv_def\<close>)
next
  case HandleModemSSR
  then show ?thesis using assms sm_inv_drop
    by (cases "mAgnssNif m"; cases "mInternetNif m") (simp_all add: mgr_inv_def handleModemSSR_def)
qed (use assms in \<open>auto simp: reportAtlOpenSuccess_def reportAtlOpenFailed_def reportAtlClosed_def
      intro!: put_sm_inv sm_inv_granted sm_inv_denied sm_inv_released dest: getAgpsStateMachine_inv split: option.splits\<close>)

interpretation agps: total_system "agps_step conf" mgr_inv "\<lambda>x. True"
proof unfold_locales
  fix m x m'
  assume "mgr_inv m"
  from agps_step_inv [OF this, of conf x] show "agps_step conf x m \<noteq> None"
    "agps_step conf x m = Some m' \<Longrightarrow> mgr_inv m'" by auto
qed

section \<open>Answers to requests\<close>

text \<open>A request is answered for good by a failure to open or by the close.\<close>

fun answer_of :: "agps_call \<Rightarrow> int list" where
  "answer_of (AtlOpenStatus h ok apn n b t am) = (if ok then [] else [h])"
| "answer_of (AtlCloseStatus h ok) = [h]"
| "answer_of _ = []"

definition answers :: "agps_call list \<Rightarrow> int list" where
  "answers cs = concat (map answer_of cs)"

lemma answers_simps [simp]:
  "answers [] = []" "answers (cs @ ds) = answers cs @ answers ds" "answers [conn_call r sm] = []"
  by (simp_all add: answers_def conn_call_def)

definition account :: "AgpsStateMachine \<Rightarrow> int multiset" where
  "account sm = mset (map mConnHandle (mSubscriberList sm)) + mset (answers (sent sm))"

lemma account_frame [simp]:
  "account (sm\<lparr>mAgpsType := t, mApnTypeMask := am, mSubId := sub\<rparr>) = account sm"
  "account (sm\<lparr>mState := st\<rparr>) = account sm" "account (sm\<lparr>mBearer := b\<rparr>) = account sm"
  "account (setAPN apn len sm) = account sm"
  by (simp_all add: account_def) (simp add: setAPN_def split: option.split)

lemma answers_news:
  "event = AGPS_EVENT_DENIED \<or> event = AGPS_EVENT_RELEASED \<Longrightarrow>
     answers (concat (map (news event sm) l)) = map mConnHandle l"
  "answers (concat (map (news AGPS_EVENT_GRANTED sm) l)) = []"
  by (induction l) (auto simp: news_def answers_def)

lemma answers_granted: "answers (news AGPS_EVENT_GRANTED sm s) = []"
  by (simp add: news_def answers_def)

lemma image_mset_partition [simp]:
  "image_mset f (filter_mset P M) + image_mset f {#x \<in># M. \<not> P x#} = image_mset f M"
  "image_mset f {#x \<in># M. \<not> P x#} + image_mset f (filter_mset P M) = image_mset f M"
  by (metis image_mset_union multiset_partition, metis image_mset_union multiset_partition add.commute)

lemma image_mset_partition_left [simp]:
  "image_mset f {#x \<in># M. \<not> P x#} + (A + image_mset f (filter_mset P M)) = image_mset f M + A"
  by (metis image_mset_partition(2) add.left_commute add.commute)

lemma account_gone:
  "event = AGPS_EVENT_DENIED \<or> event = AGPS_EVENT_RELEASED \<Longrightarrow>
     account (notifyAllSubscribers event True t (transitionState st sm)) = account sm"
  by (simp add: notifyAllSubscribers_eq transitionState_def account_def answers_news)

lemma account_released_in_releasing: "account (released_in_releasing sm) = account sm"
proof -
  have "filter (\<lambda>s. \<not> mIsInactive s) (mSubscriberList sm) = [] \<Longrightarrow> filter mIsInactive (mSubscriberList sm) = mSubscriberList sm"
    by (auto simp: filter_empty_conv filter_id_conv)
  then show ?thesis
    by (cases "filter (\<lambda>s. \<not> mIsInactive s) (mSubscriberList sm) = []")
      (simp_all add: released_in_releasing_eq Let_def account_def answers_news)
qed

lemma account_events:
  "account (processAgpsEventGranted sm) = account sm"
  "account (processAgpsEventReleased sm) = account sm"
  "account (processAgpsEventDenied sm) = account sm"
  by (simp add: processAgpsEventGranted_def notifyAllSubscribers_eq transitionState_def account_def answers_news,
    simp_all add: processAgpsEventReleased_def processAgpsEventDenied_def account_gone account_released_in_releasing
      split: AgpsState.split)

lemma account_subscribe:
  assumes "processAgpsEventSubscribe (Own s) sm = Some sm'" "mState sm \<noteq> AGPS_STATE_INVALID"
  shows "account sm' = account sm + (if mConnHandle s \<in> mConnHandle ` set (mSubscriberList sm) then {#} else {#mConnHandle s#})"
  using assms
  by (cases "mState sm")
    (auto simp: processAgpsEventSubscribe_def deref_def transitionState_def requestOrRelease_eq account_def
       addSubscriber_list notifyEventToSubscriber_def notify_call_eq answers_granted)

lemma account_unsubscribe:
  assumes "sm_inv sm" "i < length (mSubscriberList sm)" "processAgpsEventUnsubscribe (Elem i) sm = Some sm'"
  shows "account sm' = account sm"
proof -
  from sm_inv_unsubscribe [OF assms(1,2)] assms(3) obtain cs
    where l: "mSubscriberList sm' = (mSubscriberList sm)[i := (mSubscriberList sm ! i)\<lparr>mIsInactive := True\<rparr>]"
      and cs: "sent sm' = sent sm @ cs" "cs = [] \<or> cs = [conn_call False sm]" by auto
  have "map mConnHandle (mSubscriberList sm') = map mConnHandle (mSubscriberList sm)"
    using assms(2) by (simp add: l map_update) (metis list_update_id map_update nth_map)
  with cs show ?thesis by (auto simp: account_def)
qed

text \<open>Requests that are not answered for good yet, and answers given.\<close>

definition accounts :: "AgpsManager \<Rightarrow> int multiset" where
  "accounts m = case_option {#} account (mAgnssNif m) + case_option {#} account (mInternetNif m) + mset (answers (refused m))"

lemma accounts_put: "getAgpsStateMachine t m = Some sm \<Longrightarrow> accounts (put_sm t sm' m) + account sm = accounts m + account sm'"
  by (auto simp: accounts_def getAgpsStateMachine_def put_sm_def split: if_splits)

lemma accounts_unchanged:
  assumes "getAgpsStateMachine t m = Some sm" "account sm' = account sm"
  shows "accounts (put_sm t sm' m) = accounts m"
  using accounts_put [OF assms(1), of sm'] assms(2) by simp

lemma accounts_request:
  assumes "mgr_inv m" "requestATL conf h t am sub m = Some m'"
  shows "accounts m' = accounts m +
    (if finds h (getAgpsStateMachine (effective_type conf t) m) then {#} else {#h#})"
proof (rule requestATL_cases [OF assms(1), of conf t h am sub])
  fix t' am'
  assume "t' = effective_type conf t" "getAgpsStateMachine t' m = None"
    "requestATL conf h t am sub m = Some (m\<lparr>refused := refused m @ [AtlOpenStatus h False None 0 0 t' am']\<rparr>)"
  with assms(2) show ?thesis by (auto simp: accounts_def finds_def answers_def)
next
  fix t' am' sm sm'
  assume a: "t' = effective_type conf t" "getAgpsStateMachine t' m = Some sm"
    "processAgpsEventSubscribe (Own (atl_subscriber h am')) (sm\<lparr>mAgpsType := t', mApnTypeMask := am', mSubId := sub\<rparr>) = Some sm'"
    "requestATL conf h t am sub m = Some (put_sm t' sm' m)"
  have "mState sm \<noteq> AGPS_STATE_INVALID" using getAgpsStateMachine_inv [OF assms(1) a(2)] by (simp add: sm_inv_def)
  with account_subscribe [OF a(3)]
  have "account sm' = account sm + (if h \<in> mConnHandle ` set (mSubscriberList sm) then {#} else {#h#})"
    by (simp add: atl_subscriber_def)
  with accounts_put [OF a(2), of sm'] a assms(2) show ?thesis by (auto simp: finds_def split: if_splits)
qed

lemma accounts_release:
  assumes "mgr_inv m" "releaseATL h m = Some m'"
  shows "accounts m' = accounts m"
  by (rule releaseATL_cases [OF assms(1), of h])
    (use assms account_unsubscribe in \<open>fastforce simp: accounts_def mgr_inv_def\<close>)+

section \<open>Grants\<close>

text \<open>
  The handles that are told of a connection.  What one operation sends from a machine grants
  a handle at most once, only while the connection is there, and only to handles that are
  listed afterwards.
\<close>

fun grant_of :: "agps_call \<Rightarrow> int list" where
  "grant_of (AtlOpenStatus h ok apn n b t am) = (if ok then [h] else [])"
| "grant_of _ = []"

definition grants :: "agps_call list \<Rightarrow> int list" where
  "grants cs = concat (map grant_of cs)"

definition grants_listed :: "AgpsStateMachine \<Rightarrow> AgpsStateMachine \<Rightarrow> bool" where
  "grants_listed sm sm' \<longleftrightarrow> (\<exists>cs. sent sm' = sent sm @ cs \<and> distinct (grants cs)
     \<and> set (grants cs) \<subseteq> mConnHandle ` set (mSubscriberList sm') \<and> (grants cs \<noteq> [] \<longrightarrow> mState sm' = AGPS_STATE_ACQUIRED))"

definition grants_ok :: "AgpsManager \<Rightarrow> AgpsManager \<Rightarrow> bool" where
  "grants_ok m m' \<longleftrightarrow> rel_option grants_listed (mAgnssNif m) (mAgnssNif m') \<and> rel_option grants_listed (mInternetNif m) (mInternetNif m')
     \<and> (\<exists>cs. refused m' = refused m @ cs \<and> grants cs = [])"

lemma grants_simps [simp]:
  "grants [] = []" "grants (cs @ ds) = grants cs @ grants ds" "grants [conn_call r sm] = []"
  by (simp_all add: grants_def conn_call_def)

lemma grants_one: "grants (news event sm s) = (if event = AGPS_EVENT_GRANTED then [mConnHandle s] else [])"
  by (cases event) (simp_all add: news_def grants_def)

lemma grants_news:
  "grants (concat (map (news event sm) l)) = (if event = AGPS_EVENT_GRANTED then map mConnHandle l else [])"
  by (induction l) (auto simp: grants_one)

lemma grants_none: "sent sm' = sent sm @ cs \<Longrightarrow> grants cs = [] \<Longrightarrow> grants_listed sm sm'"
  unfolding grants_listed_def by (intro exI [of _ cs]) simp

lemma grants_same: "sent sm' = sent sm \<Longrightarrow> grants_listed sm sm'"
  by (rule grants_none [of _ _ "[]"]) simp_all

lemma grants_from: "sent sm1 = sent sm \<Longrightarrow> grants_listed sm1 sm' = grants_listed sm sm'"
  by (simp add: grants_listed_def)

lemma grants_subscribe:
  assumes "processAgpsEventSubscribe (Own s) sm = Some sm'"
  shows "grants_listed sm sm'"
proof (cases "mState sm")
  case AGPS_STATE_ACQUIRED
  with assms show ?thesis unfolding grants_listed_def
    by (intro exI [of _ "news AGPS_EVENT_GRANTED sm s"])
      (auto simp: processAgpsEventSubscribe_def deref_def notifyEventToSubscriber_def notify_call_eq addSubscriber_list grants_one)
next
  case AGPS_STATE_RELEASED
  with assms have "sent sm' = sent sm @ [conn_call True (addSubscriber s sm)]"
    by (auto simp: processAgpsEventSubscribe_def deref_def transitionState_def requestOrRelease_eq)
  then show ?thesis by (rule grants_none) simp
qed (use assms in \<open>auto simp: processAgpsEventSubscribe_def deref_def intro!: grants_same\<close>)

lemma grants_unsubscribe:
  assumes "sm_inv sm" "i < length (mSubscriberList sm)" "processAgpsEventUnsubscribe (Elem i) sm = Some sm'"
  shows "grants_listed sm sm'"
proof -
  from sm_inv_unsubscribe [OF assms(1,2)] assms(3) obtain cs
    where "sent sm' = sent sm @ cs" "cs = [] \<or> cs = [conn_call False sm]" by auto
  then show ?thesis by (intro grants_none [of _ _ cs]) auto
qed

lemma grants_granted: "sm_inv sm \<Longrightarrow> grants_listed sm (processAgpsEventGranted sm)"
  unfolding grants_listed_def
  by (intro exI [of _ "if mState sm = AGPS_STATE_PENDING then
      concat (map (news AGPS_EVENT_GRANTED sm) (filter (\<lambda>s. \<not> mIsInactive s) (mSubscriberList sm))) else []"])
    (auto simp: processAgpsEventGranted_def notifyAllSubscribers_eq transitionState_def grants_news sm_inv_def list_ok_def
      intro: distinct_map_filter)

lemma grants_gone:
  "event = AGPS_EVENT_DENIED \<or> event = AGPS_EVENT_RELEASED \<Longrightarrow>
    grants_listed sm (notifyAllSubscribers event True t (transitionState st sm))"
  by (rule grants_none) (auto simp: notifyAllSubscribers_eq transitionState_def grants_news)

lemma grants_released_in_releasing: "grants_listed sm (released_in_releasing sm)"
proof -
  let ?told = "concat (map (news AGPS_EVENT_RELEASED sm) (filter mIsInactive (mSubscriberList sm)))"
  have "sent (released_in_releasing sm) = sent sm @ ?told \<or> sent (released_in_releasing sm) = sent sm @ ?told @ [conn_call True sm]"
    by (simp add: released_in_releasing_eq Let_def)
  moreover have "grants ?told = []" by (simp add: grants_news)
  ultimately show ?thesis
    using grants_none [of "released_in_releasing sm" sm ?told] grants_none [of "released_in_releasing sm" sm "?told @ [conn_call True sm]"]
    by auto
qed

lemma grants_over:
  "grants_listed sm (processAgpsEventReleased sm)" "grants_listed sm (processAgpsEventDenied sm)"
  by (simp_all add: processAgpsEventReleased_def processAgpsEventDenied_def grants_gone grants_released_in_releasing grants_same
      split: AgpsState.split)

lemma rel_option_grants_refl: "rel_option grants_listed x x"
  by (cases x) (simp_all add: grants_same)

lemma grants_ok_refl: "grants_ok m m"
  by (simp add: grants_ok_def rel_option_grants_refl)

lemma grants_ok_put: "getAgpsStateMachine t m = Some sm \<Longrightarrow> grants_listed sm sm' \<Longrightarrow> grants_ok m (put_sm t sm' m)"
  by (auto simp: grants_ok_def getAgpsStateMachine_def put_sm_def rel_option_grants_refl split: if_splits)

lemma grants_request:
  assumes "mgr_inv m" "requestATL conf h t am sub m = Some m'"
  shows "grants_ok m m'"
proof (rule requestATL_cases [OF assms(1), of conf t h am sub])
  fix t' am'
  assume "requestATL conf h t am sub m = Some (m\<lparr>refused := refused m @ [AtlOpenStatus h False None 0 0 t' am']\<rparr>)"
  with assms(2) show ?thesis by (auto simp: grants_ok_def rel_option_grants_refl grants_def)
next
  fix t' am' sm sm'
  assume a: "getAgpsStateMachine t' m = Some sm"
    "processAgpsEventSubscribe (Own (atl_subscriber h am')) (sm\<lparr>mAgpsType := t', mApnTypeMask := am', mSubId := sub\<rparr>) = Some sm'"
    "requestATL conf h t am sub m = Some (put_sm t' sm' m)"
  have "grants_listed sm sm'" using grants_subscribe [OF a(2)] by (simp add: grants_listed_def)
  with a(1,3) assms(2) show ?thesis by (simp add: grants_ok_put)
qed

lemma grants_release:
  assumes "mgr_inv m" "releaseATL h m = Some m'"
  shows "grants_ok m m'"
  by (rule releaseATL_cases [OF assms(1), of h])
    (use assms grants_unsubscribe in \<open>fastforce simp: grants_ok_def mgr_inv_def grants_same rel_option_grants_refl\<close>)+

lemma grants_step:
  assumes "mgr_inv m" "agps_step conf x m = Some m'"
  shows "grants_ok m m'"
proof (cases x)
  case (ReportAtlOpenSuccess t apn len b)
  have "grants_ok m (put_sm t (processAgpsEventGranted (setAPN apn len (sm\<lparr>mBearer := b\<rparr>))) m)"
    if "getAgpsStateMachine t m = Some sm" for sm
  proof (rule grants_ok_put [OF that])
    have "sm_inv (setAPN apn len (sm\<lparr>mBearer := b\<rparr>))" using getAgpsStateMachine_inv [OF assms(1) that] by simp
    moreover have "sent (setAPN apn len (sm\<lparr>mBearer := b\<rparr>)) = sent sm" by (simp add: setAPN_def split: option.split)
    ultimately show "grants_listed sm (processAgpsEventGranted (setAPN apn len (sm\<lparr>mBearer := b\<rparr>)))"
      using grants_granted grants_from by metis
  qed
  with ReportAtlOpenSuccess assms(2) show ?thesis
    by (auto simp: reportAtlOpenSuccess_def grants_ok_refl split: option.splits)
next
  case HandleModemSSR
  have "rel_option grants_listed y (map_option dropAllSubscribers y)" for y
    by (cases y) (simp_all add: grants_same dropAllSubscribers_def)
  with HandleModemSSR assms(2) show ?thesis by (auto simp: handleModemSSR_def grants_ok_def)
qed (use assms grants_request grants_release in \<open>auto simp: reportAtlOpenFailed_def reportAtlClosed_def grants_ok_refl
      intro!: grants_ok_put grants_over split: option.splits\<close>)

section \<open>Properties\<close>

text \<open>
  C1: whatever the modem and the framework do, in whatever order, no operation faults; a machine
  without a connection has no subscriber; one that is setting up or has a connection has a
  subscriber that is active, if it has one at all (a modem restart drops them); and no handle is
  listed twice.
\<close>

theorem agps_lists_match_states:
  assumes "createAgpsStateMachines conf cb mgr_new = Some m0"
  shows "\<exists>m. run (agps_step conf) ops m0 = Some m \<and>
    (\<forall>sm. mAgnssNif m = Some sm \<or> mInternetNif m = Some sm \<longrightarrow>
       distinct (map mConnHandle (mSubscriberList sm)) \<and>
       (mState sm = AGPS_STATE_RELEASED \<longrightarrow> mSubscriberList sm = []) \<and>
       (mState sm = AGPS_STATE_PENDING \<or> mState sm = AGPS_STATE_ACQUIRED \<longrightarrow>
          mSubscriberList sm = [] \<or> anyActiveSubscribers sm))"
proof -
  have "mgr_inv mgr_new" by (simp add: mgr_inv_def mgr_new_def)
  from mgr_inv_create [OF this assms] have "mgr_inv m0" .
  from agps.run_total [OF this, of ops conf] obtain m where m: "run (agps_step conf) ops m0 = Some m" "mgr_inv m"
    by (auto simp: list_all_iff)
  then show ?thesis
    by (auto simp: mgr_inv_def sm_inv_def list_ok_def anyActiveSubscribers_def)
qed

text \<open>
  C22: a machine asks the framework to release a connection only directly after it asked for
  one: never twice for the same request, and never without one. While it waits for a connection
  or holds one, its last word to the framework was a request; while it releases, a release.
\<close>

theorem agps_releases_follow_requests:
  assumes "createAgpsStateMachines conf cb mgr_new = Some m0" "run (agps_step conf) ops m0 = Some m"
    "mAgnssNif m = Some sm \<or> mInternetNif m = Some sm"
  shows "releases_ok False (conns (sent sm)) \<and>
    (mState sm = AGPS_STATE_PENDING \<or> mState sm = AGPS_STATE_ACQUIRED \<longrightarrow> last (False # conns (sent sm))) \<and>
    (mState sm = AGPS_STATE_RELEASING \<longrightarrow> \<not> last (False # conns (sent sm)))"
proof -
  have "mgr_inv mgr_new" by (simp add: mgr_inv_def mgr_new_def)
  from agps.run_inv [OF mgr_inv_create [OF this assms(1)] _ assms(2)] have "mgr_inv m" by (simp add: list_all_iff)
  with assms(3) show ?thesis by (auto simp: mgr_inv_def sm_inv_def conn_ok_def)
qed

text \<open>
  C2: a listed handle leaves its list, but for a modem restart, only with one terminal answer,
  a failure to open or a close, and there is no other terminal answer than to it or to a request
  that no machine serves: every operation keeps the listed handles together with the terminal
  answers given the same, except that a request adds its handle once if its machine does not
  list it.  A request for a handle that is listed adds nothing; it may be dropped, as it is while
  its connection closes.  A grant is no terminal answer: what one operation sends from a machine
  grants a handle at most once, only while the connection is there, and only to handles that are
  listed afterwards.
\<close>

theorem agps_handles_leave_with_one_answer:
  assumes "createAgpsStateMachines conf cb mgr_new = Some m0" "run (agps_step conf) ops m0 = Some m"
  shows "\<exists>m'. agps_step conf x m = Some m' \<and> grants_ok m m' \<and> (x \<noteq> HandleModemSSR \<longrightarrow> accounts m' = accounts m + (case x of
    RequestATL h t am sub \<Rightarrow> if finds h (getAgpsStateMachine (effective_type conf t) m) then {#} else {#h#}
  | _ \<Rightarrow> {#}))"
proof -
  have "mgr_inv mgr_new" by (simp add: mgr_inv_def mgr_new_def)
  from agps.run_inv [OF mgr_inv_create [OF this assms(1)] _ assms(2)] have inv: "mgr_inv m" by (simp add: list_all_iff)
  from agps_step_inv [OF inv, of conf x] obtain m' where m': "agps_step conf x m = Some m'" by blast
  have "x \<noteq> HandleModemSSR \<longrightarrow> accounts m' = accounts m + (case x of
    RequestATL h t am sub \<Rightarrow> if finds h (getAgpsStateMachine (effective_type conf t) m) then {#} else {#h#}
  | _ \<Rightarrow> {#})"
    using m' accounts_request [OF inv] accounts_release [OF inv]
    by (cases x) (auto simp: reportAtlOpenSuccess_def reportAtlOpenFailed_def reportAtlClosed_def account_events
      accounts_unchanged split: option.splits)
  with m' grants_step [OF inv m'] show ?thesis by blast
qed

text \<open>
  when a connection comes up, every active subscriber that waits for it is told, in the order
  of the requests and with the access point just reported, and stays subscribed; when it fails,
  every subscriber is told so and forgotten.
\<close>

theorem agps_open_reaches_subscribers:
  assumes "getAgpsStateMachine t m = Some sm" "mState sm = AGPS_STATE_PENDING" "unat len \<le> MAX_APN_LEN" "length a = unat len"
  shows "(\<exists>sm'. getAgpsStateMachine t (reportAtlOpenSuccess t (Some a) len b m) = Some sm' \<and>
      mState sm' = AGPS_STATE_ACQUIRED \<and> mSubscriberList sm' = mSubscriberList sm \<and>
      sent sm' = sent sm @ map (\<lambda>s. AtlOpenStatus (mConnHandle s) True (Some a) (length a) b (mAgpsType sm) (mApnTypeMask sm))
        (filter (\<lambda>s. \<not> mIsInactive s) (mSubscriberList sm))) \<and>
    (\<exists>sm'. getAgpsStateMachine t (reportAtlOpenFailed t m) = Some sm' \<and>
      mState sm' = AGPS_STATE_RELEASED \<and> mSubscriberList sm' = [] \<and>
      sent sm' = sent sm @ map (\<lambda>s. AtlOpenStatus (mConnHandle s) False (mAPN sm) (mAPNLen sm) (mBearer sm) (mAgpsType sm) (mApnTypeMask sm))
        (mSubscriberList sm))"
proof -
  have get: "getAgpsStateMachine t (put_sm t x m) = Some x" for x
    by (simp add: getAgpsStateMachine_def put_sm_def)
  have one: "concat (map (news AGPS_EVENT_GRANTED sm) l) =
      map (\<lambda>s. AtlOpenStatus (mConnHandle s) True (mAPN sm) (mAPNLen sm) (mBearer sm) (mAgpsType sm) (mApnTypeMask sm)) l"
    "concat (map (news AGPS_EVENT_DENIED sm) l) =
      map (\<lambda>s. AtlOpenStatus (mConnHandle s) False (mAPN sm) (mAPNLen sm) (mBearer sm) (mAgpsType sm) (mApnTypeMask sm)) l" for sm l
    by (induction l) (auto simp: news_def)
  from assms show ?thesis
    by (simp add: reportAtlOpenSuccess_def reportAtlOpenFailed_def get setAPN_def processAgpsEventGranted_def
        processAgpsEventDenied_def transitionState_def notifyAllSubscribers_eq one)
qed

text \<open>
  a request for a handle that was released while the connection is still closing is dropped
  in silence: nothing is sent, and when the close arrives the subscriber is told of the close and
  forgotten, so the request is never granted and no connection is asked for.
\<close>

theorem agps_request_while_closing_is_lost:
  assumes "getAgpsStateMachine (effective_type conf t) m = Some sm" "mState sm = AGPS_STATE_RELEASING"
    "mSubscriberList sm = [s]" "mConnHandle s = h" "mIsInactive s"
  shows "\<exists>m' sm'. requestATL conf h t am sub m = Some m' \<and> getAgpsStateMachine (effective_type conf t) m' = Some sm' \<and>
    mSubscriberList sm' = [s] \<and> sent sm' = sent sm \<and>
    (\<exists>sm''. getAgpsStateMachine (effective_type conf t) (reportAtlClosed (effective_type conf t) m') = Some sm'' \<and>
       mState sm'' = AGPS_STATE_RELEASED \<and> mSubscriberList sm'' = [] \<and> sent sm'' = sent sm @ [AtlCloseStatus h True])"
proof -
  let ?t = "effective_type conf t"
  let ?sm = "sm\<lparr>mAgpsType := ?t, mApnTypeMask := effective_mask conf t am, mSubId := sub\<rparr>"
  have get: "getAgpsStateMachine t (put_sm t x m) = Some x" for x t m
    by (simp add: getAgpsStateMachine_def put_sm_def)
  from assms have r: "requestATL conf h t am sub m = Some (put_sm ?t ?sm m)"
    by (simp add: requestATL_def Let_def processAgpsEvent_def processAgpsEventSubscribe_def addSubscriber_def deref_def)
  have "reportAtlClosed ?t (put_sm ?t ?sm m) = put_sm ?t (released_in_releasing ?sm) (put_sm ?t ?sm m)"
    using assms(2) by (simp add: reportAtlClosed_def get processAgpsEventReleased_def)
  with r assms show ?thesis
    by (simp add: get released_in_releasing_eq news_def)
qed

text \<open>
  a callback whose connection types lack SUPL but whose priority is higher than the last one
  faults on a machine that does not exist, for every device that supports assisted GPS.
\<close>

theorem agps_create_faults_without_supl:
  "createAgpsStateMachines conf cb mgr_new = None \<longleftrightarrow>
    \<not> (CAPABILITIES conf AND LOC_GPS_CAPABILITY_MSA = 0 \<and> CAPABILITIES conf AND LOC_GPS_CAPABILITY_MSB = 0) \<and>
    0 < cbPriority cb \<and>
    (atlType cb AND AGPS_ATL_TYPE_SUPL = 0 \<or> atlType cb AND AGPS_ATL_TYPE_SUPL_ES = 0)"
  by (auto simp: createAgpsStateMachines_def mgr_new_def Let_def)

section \<open>A session\<close>

definition ex_conf :: gps_conf where
  "ex_conf = \<lparr>CAPABILITIES = 6, USE_EMERGENCY_PDN_FOR_EMERGENCY_SUPL = 0\<rparr>"

definition ex_cb :: AgpsCbInfo where
  "ex_cb = \<lparr>statusV4Cb = True, atlType = 7, cbPriority = 1\<rparr>"

definition ex_sm :: "AgpsState \<Rightarrow> AgpsSubscriber list \<Rightarrow> agps_call list \<Rightarrow> AgpsStateMachine" where
  "ex_sm st l cs = (sm_new AGPS_TYPE_SUPL)\<lparr>mSubscriberList := l, mState := st, mFrameworkStatusV4Cb := True,
     mApnTypeMask := 16, mSubId := 1, sent := cs\<rparr>"

definition ex_mgr :: "AgpsStateMachine \<Rightarrow> AgpsManager" where
  "ex_mgr sm = \<lparr>mAgnssNif = Some sm, mInternetNif = Some ((sm_new AGPS_TYPE_WWAN_ANY)\<lparr>mFrameworkStatusV4Cb := True\<rparr>),
     mCbPriority = 1, refused = []\<rparr>"

definition ex_start :: AgpsManager where
  "ex_start = ex_mgr ((sm_new AGPS_TYPE_SUPL)\<lparr>mFrameworkStatusV4Cb := True\<rparr>)"

lemma ex_create: "createAgpsStateMachines ex_conf ex_cb mgr_new = Some ex_start"
  by (simp add: createAgpsStateMachines_def ex_conf_def ex_cb_def mgr_new_def ex_start_def ex_mgr_def sm_new_def)

lemmas agps_eval = ex_conf_def ex_start_def ex_mgr_def ex_sm_def sm_new_def requestATL_def effective_type_def
  effective_mask_def as_supl_def getAgpsStateMachine_def is_agnss_def put_sm_def processAgpsEvent_def
  processAgpsEventSubscribe_def processAgpsEventUnsubscribe_def deref_def addSubscriber_def requestOrReleaseDataConn_def
  emit_def transitionState_def releaseATL_def leave_def set_inactive_def anyActiveSubscribers_def atl_subscriber_def

lemma ex_run:
  "run (agps_step ex_conf) [RequestATL 7 AGPS_TYPE_SUPL_ES 512 1, ReleaseATL 7] ex_start =
     Some (ex_mgr (ex_sm AGPS_STATE_RELEASING [(atl_subscriber 7 16)\<lparr>mIsInactive := True\<rparr>]
       [DataConn True AGPS_TYPE_SUPL 16 1, DataConn False AGPS_TYPE_SUPL 16 1]))"
  by (simp add: agps_eval)

lemma ex_run_closed:
  "run (agps_step ex_conf) [RequestATL 7 AGPS_TYPE_SUPL_ES 512 1, ReleaseATL 7, ReportAtlClosed AGPS_TYPE_SUPL] ex_start =
     Some (ex_mgr (ex_sm AGPS_STATE_RELEASED []
       [DataConn True AGPS_TYPE_SUPL 16 1, DataConn False AGPS_TYPE_SUPL 16 1, AtlCloseStatus 7 True]))"
  by (simp add: agps_eval reportAtlClosed_def processAgpsEventReleased_def released_in_releasing_eq news_def)

theorem agps_lists_match_states_witness:
  "\<exists>m sm. run (agps_step ex_conf) [RequestATL 7 AGPS_TYPE_SUPL_ES 512 1, ReleaseATL 7, ReportAtlClosed AGPS_TYPE_SUPL] ex_start = Some m \<and>
    mAgnssNif m = Some sm \<and> mState sm = AGPS_STATE_RELEASED \<and> mSubscriberList sm = []"
proof -
  let ?ops = "[RequestATL 7 AGPS_TYPE_SUPL_ES 512 1, ReleaseATL 7, ReportAtlClosed AGPS_TYPE_SUPL]"
  from agps_lists_match_states [OF ex_create, of ?ops] obtain m where m: "run (agps_step ex_conf) ?ops ex_start = Some m"
    "\<And>sm. mAgnssNif m = Some sm \<or> mInternetNif m = Some sm \<Longrightarrow> mState sm = AGPS_STATE_RELEASED \<Longrightarrow> mSubscriberList sm = []"
    by blast
  from m(1) ex_run_closed obtain sm where sm: "mAgnssNif m = Some sm" "mState sm = AGPS_STATE_RELEASED"
    by (simp add: ex_mgr_def ex_sm_def)
  with m show ?thesis by blast
qed

theorem agps_releases_follow_requests_witness:
  "\<exists>m sm. run (agps_step ex_conf) [RequestATL 7 AGPS_TYPE_SUPL_ES 512 1, ReleaseATL 7] ex_start = Some m \<and>
     mAgnssNif m = Some sm \<and> conns (sent sm) = [True, False] \<and> releases_ok False (conns (sent sm))"
proof -
  let ?sm = "ex_sm AGPS_STATE_RELEASING [(atl_subscriber 7 16)\<lparr>mIsInactive := True\<rparr>]
       [DataConn True AGPS_TYPE_SUPL 16 1, DataConn False AGPS_TYPE_SUPL 16 1]"
  have "mAgnssNif (ex_mgr ?sm) = Some ?sm" by (simp add: ex_mgr_def)
  with agps_releases_follow_requests [OF ex_create ex_run, of ?sm] ex_run show ?thesis
    by (intro exI [of _ "ex_mgr ?sm"] exI [of _ ?sm]) (simp add: ex_sm_def conns_def)
qed

theorem agps_handles_leave_with_one_answer_witness:
  "\<exists>m m'. run (agps_step ex_conf) [RequestATL 7 AGPS_TYPE_SUPL_ES 512 1, ReleaseATL 7] ex_start = Some m \<and>
     agps_step ex_conf (RequestATL 8 AGPS_TYPE_SUPL 16 1) m = Some m' \<and> accounts m' = {#7, 8#}"
proof -
  let ?sm = "ex_sm AGPS_STATE_RELEASING [(atl_subscriber 7 16)\<lparr>mIsInactive := True\<rparr>]
       [DataConn True AGPS_TYPE_SUPL 16 1, DataConn False AGPS_TYPE_SUPL 16 1]"
  have "accounts (ex_mgr ?sm) = {#7#}"
    by (simp add: accounts_def ex_mgr_def account_def ex_sm_def sm_new_def atl_subscriber_def answers_def)
  moreover have "\<not> finds 8 (getAgpsStateMachine (effective_type ex_conf AGPS_TYPE_SUPL) (ex_mgr ?sm))"
    by (simp add: finds_def agps_eval)
  ultimately show ?thesis
    using agps_handles_leave_with_one_answer [OF ex_create ex_run, of "RequestATL 8 AGPS_TYPE_SUPL 16 1"] ex_run
    by (auto simp: add_mset_commute)
qed

theorem agps_open_reaches_subscribers_witness:
  "\<exists>sm'. getAgpsStateMachine AGPS_TYPE_SUPL (reportAtlOpenSuccess AGPS_TYPE_SUPL (Some ''apn'') 3 1
       (ex_mgr (ex_sm AGPS_STATE_PENDING [atl_subscriber 7 16, (atl_subscriber 8 16)\<lparr>mIsInactive := True\<rparr>, atl_subscriber 9 16] []))) = Some sm' \<and>
     sent sm' = [AtlOpenStatus 7 True (Some ''apn'') 3 1 AGPS_TYPE_SUPL 16, AtlOpenStatus 9 True (Some ''apn'') 3 1 AGPS_TYPE_SUPL 16]"
proof -
  let ?sm = "ex_sm AGPS_STATE_PENDING [atl_subscriber 7 16, (atl_subscriber 8 16)\<lparr>mIsInactive := True\<rparr>, atl_subscriber 9 16] []"
  have "getAgpsStateMachine AGPS_TYPE_SUPL (ex_mgr ?sm) = Some ?sm"
    by (simp add: getAgpsStateMachine_def is_agnss_def ex_mgr_def)
  from agps_open_reaches_subscribers [OF this, of 3 "''apn''" 1] show ?thesis
    by (auto simp: ex_sm_def sm_new_def atl_subscriber_def)
qed

theorem agps_request_while_closing_is_lost_witness:
  "\<exists>m m' sm'. run (agps_step ex_conf) [RequestATL 7 AGPS_TYPE_SUPL_ES 512 1, ReleaseATL 7] ex_start = Some m \<and>
     requestATL ex_conf 7 AGPS_TYPE_SUPL_ES 512 1 m = Some m' \<and>
     getAgpsStateMachine AGPS_TYPE_SUPL (reportAtlClosed AGPS_TYPE_SUPL m') = Some sm' \<and>
     sent sm' = [DataConn True AGPS_TYPE_SUPL 16 1, DataConn False AGPS_TYPE_SUPL 16 1, AtlCloseStatus 7 True]"
proof -
  let ?s = "(atl_subscriber 7 16)\<lparr>mIsInactive := True\<rparr>"
  let ?sm = "ex_sm AGPS_STATE_RELEASING [?s] [DataConn True AGPS_TYPE_SUPL 16 1, DataConn False AGPS_TYPE_SUPL 16 1]"
  have t: "effective_type ex_conf AGPS_TYPE_SUPL_ES = AGPS_TYPE_SUPL" by (simp add: effective_type_def as_supl_def ex_conf_def)
  have "getAgpsStateMachine (effective_type ex_conf AGPS_TYPE_SUPL_ES) (ex_mgr ?sm) = Some ?sm"
    by (simp add: t getAgpsStateMachine_def is_agnss_def ex_mgr_def)
  from agps_request_while_closing_is_lost [OF this, of ?s 7 512 1] ex_run
  show ?thesis by (auto simp: t ex_sm_def atl_subscriber_def)
qed

end
