(* ===== verification/Lockout.thy ===== *)
theory Lockout
  imports Steps
begin

text \<open>
  \<open>fingerprint/LockoutTracker.cpp\<close>: counting failed fingerprints and locking the sensor, for a
  time after five of them and for good after twenty. Times are nanoseconds; the clock and the
  elapsed-time test belong to a library outside this repository and are parameters.
\<close>

section \<open>State and operations\<close>

datatype LockoutMode = kNone | kTimed | kPermanent

record LockoutTracker =
  mFailedCount :: int
  mFailedCountTimed :: int
  mLockoutTimedStart :: int
  mCurrentMode :: LockoutMode

abbreviation LOCKOUT_TIMED_THRESHOLD :: int where "LOCKOUT_TIMED_THRESHOLD \<equiv> 5"
abbreviation LOCKOUT_TIMED_DURATION :: int where "LOCKOUT_TIMED_DURATION \<equiv> 10000"
abbreviation LOCKOUT_PERMANENT_THRESHOLD :: int where "LOCKOUT_PERMANENT_THRESHOLD \<equiv> 20"

text \<open>The constructor leaves the start and the mode uninitialised: any values.\<close>

definition lockout_new :: "int \<Rightarrow> LockoutMode \<Rightarrow> LockoutTracker" where
  "lockout_new start mode = \<lparr>mFailedCount = 0, mFailedCountTimed = 0, mLockoutTimedStart = start, mCurrentMode = mode\<rparr>"

definition lockout_reset :: "bool \<Rightarrow> LockoutTracker \<Rightarrow> LockoutTracker" where
  "lockout_reset dueToTimeout l =
     (if \<not> dueToTimeout then l\<lparr>mFailedCount := 0\<rparr> else l)
       \<lparr>mFailedCountTimed := 0, mLockoutTimedStart := 0, mCurrentMode := kNone\<rparr>"

definition addFailedAttempt :: "int \<Rightarrow> LockoutTracker \<Rightarrow> LockoutTracker" where
  "addFailedAttempt now l =
     (let l1 = l\<lparr>mFailedCount := mFailedCount l + 1, mFailedCountTimed := mFailedCountTimed l + 1\<rparr> in
      if mFailedCount l1 \<ge> LOCKOUT_PERMANENT_THRESHOLD then l1\<lparr>mCurrentMode := kPermanent\<rparr>
      else if mFailedCountTimed l1 \<ge> LOCKOUT_TIMED_THRESHOLD \<and> mCurrentMode l1 = kNone
           then l1\<lparr>mCurrentMode := kTimed, mLockoutTimedStart := now\<rparr>
      else l1)"

text \<open>\<open>hasElapsed now start milliseconds\<close>\<close>

type_synonym elapsed = "int \<Rightarrow> int \<Rightarrow> int \<Rightarrow> bool"

definition getMode :: "elapsed \<Rightarrow> int \<Rightarrow> LockoutTracker \<Rightarrow> LockoutMode \<times> LockoutTracker" where
  "getMode hasElapsed now l =
     (let l1 = (if mCurrentMode l = kTimed \<and> hasElapsed now (mLockoutTimedStart l) LOCKOUT_TIMED_DURATION
                then l\<lparr>mCurrentMode := kNone, mLockoutTimedStart := 0\<rparr> else l)
      in (mCurrentMode l1, l1))"

text \<open>C++ division truncates towards zero.\<close>

definition quot :: "int \<Rightarrow> int \<Rightarrow> int" where
  "quot a b = sgn a * sgn b * (\<bar>a\<bar> div \<bar>b\<bar>)"

definition getLockoutTimeLeft :: "int \<Rightarrow> LockoutTracker \<Rightarrow> int" where
  "getLockoutTimeLeft now l =
     (if mLockoutTimedStart l > 0
      then LOCKOUT_TIMED_DURATION - quot (now - mLockoutTimedStart l) 1000000 else 0)"

section \<open>Runs\<close>

datatype lockout_ev = Fail int | Reset bool | Mode int

fun lockout_step :: "elapsed \<Rightarrow> lockout_ev \<Rightarrow> LockoutTracker \<Rightarrow> LockoutTracker option" where
  "lockout_step he (Fail now) l = Some (addFailedAttempt now l)"
| "lockout_step he (Reset dueToTimeout) l = Some (lockout_reset dueToTimeout l)"
| "lockout_step he (Mode now) l = Some (snd (getMode he now l))"

definition is_fail :: "lockout_ev \<Rightarrow> bool" where
  "is_fail e = (case e of Fail _ \<Rightarrow> True | _ \<Rightarrow> False)"

text \<open>
  The counts and the mode fit: counts are not negative, the timed count is never above the other,
  the lock for good needs twenty failures.
\<close>

definition lockout_inv :: "LockoutTracker \<Rightarrow> bool" where
  "lockout_inv l \<longleftrightarrow> 0 \<le> mFailedCountTimed l \<and> mFailedCountTimed l \<le> mFailedCount l \<and>
     (mCurrentMode l = kPermanent \<longrightarrow> LOCKOUT_PERMANENT_THRESHOLD \<le> mFailedCount l) \<and>
     (mCurrentMode l = kTimed \<longrightarrow> LOCKOUT_TIMED_THRESHOLD \<le> mFailedCountTimed l)"

lemma lockout_inv_reset: "0 \<le> mFailedCount l \<Longrightarrow> lockout_inv (lockout_reset b l)"
  by (simp add: lockout_inv_def lockout_reset_def)

interpretation lockout: total_system "lockout_step he" lockout_inv "\<lambda>x. True"
proof unfold_locales
  fix l x l'
  assume "lockout_inv l"
  then show "lockout_step he x l = Some l' \<Longrightarrow> lockout_inv l'"
    by (cases x) (auto simp: lockout_inv_def addFailedAttempt_def lockout_reset_def getMode_def Let_def split: if_splits)
  show "lockout_step he x l \<noteq> None" by (cases x) auto
qed

lemma count_run:
  "list_all (\<lambda>e. e \<noteq> Reset False) es \<Longrightarrow> run (lockout_step he) es l = Some l' \<Longrightarrow>
     mFailedCount l' = mFailedCount l + int (length (filter is_fail es))"
proof (induction es arbitrary: l)
  case (Cons e es)
  from Cons.prems(2) obtain l1 where l1: "lockout_step he e l = Some l1" "run (lockout_step he) es l1 = Some l'"
    by (rule run_ConsE)
  have "mFailedCount l1 = mFailedCount l + (if is_fail e then 1 else 0)"
    using l1(1) Cons.prems(1)
    by (cases e) (auto simp: is_fail_def addFailedAttempt_def lockout_reset_def getMode_def Let_def split: if_splits)
  with Cons.IH [OF _ l1(2)] Cons.prems(1) show ?case by simp
qed simp

section \<open>Properties\<close>

text \<open>
  failures add up to a permanent lock over any time and any number of timeouts and
  successful authentications (which reset the tracker the same way): once twenty failures were
  counted since the last full reset, each further failure leaves the sensor locked for good.
\<close>

theorem twenty_failures_lock_for_good:
  assumes "run (lockout_step he) es (lockout_reset False l) = Some l'" "list_all (\<lambda>e. e \<noteq> Reset False) es"
  shows "mCurrentMode (addFailedAttempt now l') = kPermanent \<longleftrightarrow>
    19 \<le> length (filter is_fail es) \<or> mCurrentMode l' = kPermanent"
proof -
  from count_run [OF assms(2,1)] have "mFailedCount l' = int (length (filter is_fail es))"
    by (simp add: lockout_reset_def)
  then show ?thesis by (auto simp: addFailedAttempt_def Let_def)
qed

theorem twenty_failures_lock_for_good_witness:
  "\<exists>l'. run (lockout_step (\<lambda>now start ms. start + ms * 1000000 \<le> now))
       (concat (replicate 5 [Fail 1, Fail 2, Fail 3, Fail 4, Reset True])) (lockout_reset False (lockout_new 77 kTimed)) = Some l' \<and>
     mCurrentMode l' = kNone \<and> mCurrentMode (addFailedAttempt 9 l') = kPermanent"
proof -
  let ?he = "\<lambda>now start ms :: int. start + ms * 1000000 \<le> now"
  let ?es = "concat (replicate 5 [Fail 1, Fail 2, Fail 3, Fail 4, Reset True])"
  define l' where "l' = \<lparr>mFailedCount = 20, mFailedCountTimed = 0, mLockoutTimedStart = 0, mCurrentMode = kNone\<rparr>"
  have r: "run (lockout_step ?he) ?es (lockout_reset False (lockout_new 77 kTimed)) = Some l'"
    by (simp add: l'_def eval_nat_numeral addFailedAttempt_def lockout_reset_def lockout_new_def)
  have "list_all (\<lambda>e. e \<noteq> Reset False) ?es" by (simp add: eval_nat_numeral)
  from twenty_failures_lock_for_good [OF r this, of 9] r show ?thesis
    by (intro exI [of _ l']) (simp add: l'_def eval_nat_numeral is_fail_def)
qed

text \<open>
  after a reset, four failures leave the sensor open and the fifth locks it from that
  moment on until the time is over; the lock then ends at the next look at the mode.
\<close>

theorem fifth_failure_locks_for_ten_seconds:
  assumes "mFailedCount l < 15" "mCurrentMode l = kNone" "mFailedCountTimed l = 0"
    "run (lockout_step he) [Fail a, Fail b, Fail c, Fail d] l = Some l4"
  shows "mCurrentMode l4 = kNone \<and> mCurrentMode (addFailedAttempt t l4) = kTimed \<and>
    fst (getMode he now (addFailedAttempt t l4)) = (if he now t LOCKOUT_TIMED_DURATION then kNone else kTimed)"
  using assms by (auto simp: addFailedAttempt_def getMode_def Let_def)

theorem fifth_failure_locks_for_ten_seconds_witness:
  "\<exists>l4. run (lockout_step (\<lambda>now start ms. start + ms * 1000000 \<le> now)) [Fail 1, Fail 2, Fail 3, Fail 4]
        (lockout_reset False (lockout_new 77 kTimed)) = Some l4 \<and>
     fst (getMode (\<lambda>now start ms. start + ms * 1000000 \<le> now) 10000000004 (addFailedAttempt 5 l4)) = kTimed"
proof -
  let ?he = "\<lambda>now start ms :: int. start + ms * 1000000 \<le> now"
  let ?l = "lockout_reset False (lockout_new 77 kTimed)"
  define l4 where "l4 = \<lparr>mFailedCount = 4, mFailedCountTimed = 4, mLockoutTimedStart = 0, mCurrentMode = kNone\<rparr>"
  have r: "run (lockout_step ?he) [Fail 1, Fail 2, Fail 3, Fail 4] ?l = Some l4"
    by (simp add: l4_def addFailedAttempt_def lockout_reset_def lockout_new_def)
  from fifth_failure_locks_for_ten_seconds [OF _ _ _ r, of 5 10000000004] r show ?thesis
    by (intro exI [of _ l4]) (simp add: lockout_reset_def lockout_new_def)
qed

text \<open>
  the end of the lock by a look at the mode keeps the count of failures: the next failure
  locks the sensor again at once, not the fifth.
\<close>

theorem expired_lock_relocks_at_next_failure:
  assumes "mCurrentMode l = kTimed" "LOCKOUT_TIMED_THRESHOLD \<le> mFailedCountTimed l" "mFailedCount l < 19"
    "he now (mLockoutTimedStart l) LOCKOUT_TIMED_DURATION"
  shows "fst (getMode he now l) = kNone \<and>
    mCurrentMode (addFailedAttempt t (snd (getMode he now l))) = kTimed \<and>
    mLockoutTimedStart (addFailedAttempt t (snd (getMode he now l))) = t"
  using assms by (simp add: getMode_def addFailedAttempt_def Let_def)

theorem expired_lock_relocks_at_next_failure_witness:
  "let l = \<lparr>mFailedCount = 5, mFailedCountTimed = 5, mLockoutTimedStart = 5, mCurrentMode = kTimed\<rparr>;
       he = \<lambda>now start ms. start + ms * 1000000 \<le> now
   in mCurrentMode (addFailedAttempt 10000000007 (snd (getMode he 10000000006 l))) = kTimed"
  using expired_lock_relocks_at_next_failure [of "\<lparr>mFailedCount = 5, mFailedCountTimed = 5, mLockoutTimedStart = 5, mCurrentMode = kTimed\<rparr>"
    "\<lambda>now start ms. start + ms * 1000000 \<le> now" 10000000006 10000000007]
  by simp

text \<open>
  while the sensor is locked for a time, the time reported to the framework is what is left
  of the ten seconds, between zero and ten thousand milliseconds.
\<close>

theorem lockout_time_left_exact:
  assumes "0 < mLockoutTimedStart l" "mLockoutTimedStart l \<le> now" "now \<le> mLockoutTimedStart l + LOCKOUT_TIMED_DURATION * 1000000"
  shows "getLockoutTimeLeft now l = LOCKOUT_TIMED_DURATION - (now - mLockoutTimedStart l) div 1000000 \<and>
    0 \<le> getLockoutTimeLeft now l \<and> getLockoutTimeLeft now l \<le> LOCKOUT_TIMED_DURATION"
proof -
  have "quot (now - mLockoutTimedStart l) 1000000 = (now - mLockoutTimedStart l) div 1000000"
    using assms(2) by (simp add: quot_def sgn_if)
  with assms show ?thesis by (simp add: getLockoutTimeLeft_def) linarith
qed

theorem lockout_time_left_exact_witness:
  "getLockoutTimeLeft 3500000005 \<lparr>mFailedCount = 5, mFailedCountTimed = 5, mLockoutTimedStart = 5, mCurrentMode = kTimed\<rparr> = 6500"
  using lockout_time_left_exact [of "\<lparr>mFailedCount = 5, mFailedCountTimed = 5, mLockoutTimedStart = 5, mCurrentMode = kTimed\<rparr>" 3500000005]
  by simp

end
