(* ===== verification/FingerprintEngine.thy ===== *)
theory FingerprintEngine
  imports Lockout
begin

text \<open>
  \<open>fingerprint/FingerprintEngine.cpp\<close> and \<open>Legacy2Aidl.h\<close>: requests are run against a vendor
  device (a parameter: the code each of its calls returns) and wait for its messages. A message in
  the queue carries the time at which it is processed. A failed \<open>CHECK\<close> ends the process: the
  result is \<open>None\<close>. A request that needs a message that is not there yet is waiting: it ends in
  \<open>Waiting\<close>, and goes on in the same way when further messages come.
\<close>

unbundle bit_operations_syntax

section \<open>Authentication tokens\<close>

definition bswap32 :: "u32 \<Rightarrow> u32" where
  "bswap32 w = push_bit 24 (take_bit 8 w) OR push_bit 16 (take_bit 8 (drop_bit 8 w)) OR
     push_bit 8 (take_bit 8 (drop_bit 16 w)) OR take_bit 8 (drop_bit 24 w)"

definition bswap64 :: "u64 \<Rightarrow> u64" where
  "bswap64 w = push_bit 32 (ucast (bswap32 (ucast w))) OR ucast (bswap32 (ucast (drop_bit 32 w)))"

text \<open>\<open>htobe32\<close> and the like, on a little-endian (\<open>le\<close>) or a big-endian machine.\<close>

definition be32 :: "bool \<Rightarrow> u32 \<Rightarrow> u32" where
  "be32 le w = (if le then bswap32 w else w)"

definition be64 :: "bool \<Rightarrow> u64 \<Rightarrow> u64" where
  "be64 le w = (if le then bswap64 w else w)"

record HardwareAuthToken =
  challenge :: u64
  userId :: u64
  authenticatorId :: u64
  authenticatorType :: u32
  milliSeconds :: u64
  mac :: "8 word list"

record hw_auth_token =
  hat_challenge :: u64
  hat_user_id :: u64
  hat_authenticator_id :: u64
  hat_authenticator_type :: u32
  hat_timestamp :: u64
  hmac :: "8 word list" \<comment> \<open>an array of 32 bytes\<close>

text \<open>To the vendor's token, written over \<open>hat\<close>; a longer mac is copied over the end of the array.\<close>

definition translate_to_hat :: "bool \<Rightarrow> HardwareAuthToken \<Rightarrow> hw_auth_token \<Rightarrow> hw_auth_token option" where
  "translate_to_hat le tok hat =
     (if length (mac tok) > length (hmac hat) then None
      else Some \<lparr>hat_challenge = challenge tok, hat_user_id = userId tok,
        hat_authenticator_id = authenticatorId tok,
        hat_authenticator_type = be32 le (authenticatorType tok),
        hat_timestamp = be64 le (milliSeconds tok),
        hmac = mac tok @ drop (length (mac tok)) (hmac hat)\<rparr>)"

text \<open>From it, into a fresh token, whose mac is empty.\<close>

definition translate_from_hat :: "bool \<Rightarrow> hw_auth_token \<Rightarrow> HardwareAuthToken" where
  "translate_from_hat le hat =
     \<lparr>challenge = hat_challenge hat, userId = hat_user_id hat, authenticatorId = hat_authenticator_id hat,
      authenticatorType = be32 le (hat_authenticator_type hat), milliSeconds = be64 le (hat_timestamp hat),
      mac = hmac hat\<rparr>"

section \<open>Messages, callbacks and state\<close>

datatype fingerprint_msg =
    FINGERPRINT_ERROR int
  | FINGERPRINT_ACQUIRED int
  | FINGERPRINT_TEMPLATE_ENROLLING u32 u32 \<comment> \<open>finger, samples remaining\<close>
  | FINGERPRINT_TEMPLATE_REMOVED "u32 list"
  | FINGERPRINT_AUTHENTICATED u32 hw_auth_token
  | FINGERPRINT_TEMPLATE_ENUMERATING "u32 list"
  | FINGERPRINT_GENERATE_CHALLENGE u64
  | FINGERPRINT_REVOKE_CHALLENGE u64
  | FINGERPRINT_GET_AUTHENTICATOR_ID u64
  | FINGERPRINT_INVALIDATE_AUTHENTICATOR_ID u64
  | GF_FINGERPRINT_BIG_DATA

abbreviation FINGERPRINT_ERROR_CANCELED :: int where "FINGERPRINT_ERROR_CANCELED \<equiv> 5"
abbreviation FINGERPRINT_ERROR_LOCKOUT :: int where "FINGERPRINT_ERROR_LOCKOUT \<equiv> 7"
abbreviation FINGERPRINT_ERROR_VENDOR_BASE :: int where "FINGERPRINT_ERROR_VENDOR_BASE \<equiv> 1000"
abbreviation FINGERPRINT_ACQUIRED_GOOD :: int where "FINGERPRINT_ACQUIRED_GOOD \<equiv> 0"
abbreviation FINGERPRINT_ACQUIRED_VENDOR_BASE :: int where "FINGERPRINT_ACQUIRED_VENDOR_BASE \<equiv> 1000"

text \<open>The framework's errors, by number where the code casts one.\<close>

datatype Error = VENDOR_error | ErrorCode int

abbreviation UNABLE_TO_PROCESS :: Error where "UNABLE_TO_PROCESS \<equiv> ErrorCode 2"
abbreviation CANCELED :: Error where "CANCELED \<equiv> ErrorCode 5"

datatype AcquiredInfo = GOOD | UNKNOWN | VENDOR

datatype fp_callback =
    onError Error int
  | onChallengeGenerated u64
  | onChallengeRevoked u64
  | onAcquired AcquiredInfo int
  | onEnrollmentProgress u32 u32
  | onAuthenticationSucceeded u32 HardwareAuthToken
  | onAuthenticationFailed
  | onEnrollmentsEnumerated "u32 list"
  | onEnrollmentsRemoved "u32 list"
  | onAuthenticatorIdRetrieved u64
  | onAuthenticatorIdInvalidated u64
  | onLockoutCleared
  | onLockoutPermanent
  | onLockoutTimed int
  | onSessionClosed

record FingerprintEngine =
  mCb :: bool \<comment> \<open>is a callback set\<close>
  mMessageQueue :: "(int \<times> fingerprint_msg) list"
  mLockoutTracker :: LockoutTracker
  isLockoutTimerStarted :: bool
  isLockoutTimerAborted :: bool
  timers :: nat \<comment> \<open>timer threads that sleep\<close>
  cancels :: nat \<comment> \<open>calls of the device's \<open>cancel\<close>\<close>
  callbacks :: "fp_callback list"

datatype wait = Finished | Waiting | WaitingForCancel

type_synonym 'e result = "(wait \<times> 'e) option"

definition call :: "fp_callback \<Rightarrow> FingerprintEngine \<Rightarrow> FingerprintEngine" where
  "call c e = e\<lparr>callbacks := callbacks e @ [c]\<rparr>"

section \<open>Conversions\<close>

definition convertError :: "int \<Rightarrow> (Error \<times> int) option" where
  "convertError code =
     (if code = FINGERPRINT_ERROR_LOCKOUT then None
      else if code > FINGERPRINT_ERROR_VENDOR_BASE then Some (VENDOR_error, code - FINGERPRINT_ERROR_VENDOR_BASE)
      else Some (ErrorCode code, 0))"

definition convertAcquiredInfo :: "int \<Rightarrow> AcquiredInfo \<times> int" where
  "convertAcquiredInfo code =
     (if code > FINGERPRINT_ACQUIRED_VENDOR_BASE then (VENDOR, code - FINGERPRINT_ACQUIRED_VENDOR_BASE)
      else if code = FINGERPRINT_ACQUIRED_GOOD then (GOOD, 0) else (UNKNOWN, 0))"

text \<open>A 64-bit result of the device, passed on as 32 bits.\<close>

definition narrow :: "u64 \<Rightarrow> int" where
  "narrow w = sint (ucast w :: 32 word)"

section \<open>The message queue\<close>

definition onMessage :: "int \<Rightarrow> fingerprint_msg \<Rightarrow> FingerprintEngine \<Rightarrow> FingerprintEngine" where
  "onMessage t msg e =
     (if msg = GF_FINGERPRINT_BIG_DATA then e else e\<lparr>mMessageQueue := mMessageQueue e @ [(t, msg)]\<rparr>)"

text \<open>Wait until a message is of the awaited type; others are dropped.\<close>

fun await ::
  "(fingerprint_msg \<Rightarrow> fp_callback option) \<Rightarrow> (int \<times> fingerprint_msg) list \<Rightarrow> FingerprintEngine \<Rightarrow> wait \<times> FingerprintEngine" where
  "await f [] e = (Waiting, e\<lparr>mMessageQueue := []\<rparr>)"
| "await f ((t, m) # q) e = (case f m of
     None \<Rightarrow> await f q e
   | Some c \<Rightarrow> (Finished, call c (e\<lparr>mMessageQueue := q\<rparr>)))"

text \<open>The device refused the call with a code: what the framework is told, if the code converts.\<close>

definition refused_by_device :: "int \<Rightarrow> fp_callback list \<Rightarrow> FingerprintEngine \<Rightarrow> FingerprintEngine result" where
  "refused_by_device code cs e =
     (case convertError code of
        None \<Rightarrow> None
      | Some ec \<Rightarrow> Some (Finished, e\<lparr>callbacks := callbacks e @ cs\<rparr>))"

section \<open>Requests with one answer\<close>

definition generateChallengeImpl :: "u64 \<Rightarrow> FingerprintEngine \<Rightarrow> FingerprintEngine result" where
  "generateChallengeImpl error e =
     (if \<not> mCb e then None
      else if error \<noteq> 0 then refused_by_device (narrow error) [onError UNABLE_TO_PROCESS 0] e
      else Some (await (\<lambda>m. case m of FINGERPRINT_GENERATE_CHALLENGE d \<Rightarrow> Some (onChallengeGenerated d) | _ \<Rightarrow> None)
                   (mMessageQueue e) e))"

definition revokeChallengeImpl :: "u64 \<Rightarrow> FingerprintEngine \<Rightarrow> FingerprintEngine result" where
  "revokeChallengeImpl error e =
     (if \<not> mCb e then None
      else if error \<noteq> 0 then refused_by_device (narrow error) [onError UNABLE_TO_PROCESS 0] e
      else Some (await (\<lambda>m. case m of FINGERPRINT_REVOKE_CHALLENGE d \<Rightarrow> Some (onChallengeRevoked d) | _ \<Rightarrow> None)
                   (mMessageQueue e) e))"

definition getAuthenticatorIdImpl :: "u64 \<Rightarrow> FingerprintEngine \<Rightarrow> FingerprintEngine result" where
  "getAuthenticatorIdImpl error e =
     (if \<not> mCb e then None
      else if error \<noteq> 0 then refused_by_device (narrow error) [onAuthenticatorIdRetrieved 0] e
      else Some (await (\<lambda>m. case m of FINGERPRINT_GET_AUTHENTICATOR_ID d \<Rightarrow> Some (onAuthenticatorIdRetrieved d) | _ \<Rightarrow> None)
                   (mMessageQueue e) e))"

definition invalidateAuthenticatorIdImpl :: "u64 \<Rightarrow> FingerprintEngine \<Rightarrow> FingerprintEngine result" where
  "invalidateAuthenticatorIdImpl error e =
     (if \<not> mCb e then None
      else if error \<noteq> 0 then refused_by_device (narrow error) [onAuthenticatorIdInvalidated 0] e
      else Some (await (\<lambda>m. case m of FINGERPRINT_GET_AUTHENTICATOR_ID d \<Rightarrow> Some (onAuthenticatorIdInvalidated d) | _ \<Rightarrow> None)
                   (mMessageQueue e) e))"

text \<open>These two look at one message only.\<close>

definition enumerateEnrollmentsImpl :: "int \<Rightarrow> FingerprintEngine \<Rightarrow> FingerprintEngine result" where
  "enumerateEnrollmentsImpl error e =
     (if \<not> mCb e then None
      else if error \<noteq> 0 then refused_by_device error [onEnrollmentsEnumerated []] e
      else (case mMessageQueue e of
          [] \<Rightarrow> Some (Waiting, e)
        | (t, FINGERPRINT_TEMPLATE_ENUMERATING fids) # q \<Rightarrow>
            Some (Finished, call (onEnrollmentsEnumerated (filter (\<lambda>fid. fid \<noteq> 0) fids)) (e\<lparr>mMessageQueue := q\<rparr>))
        | _ # q \<Rightarrow> Some (Finished, e\<lparr>mMessageQueue := q\<rparr>)))"

definition removeEnrollmentsImpl :: "u64 \<Rightarrow> FingerprintEngine \<Rightarrow> FingerprintEngine result" where
  "removeEnrollmentsImpl error e =
     (if \<not> mCb e then None
      else if narrow error \<noteq> 0 then refused_by_device (narrow error) [] e
      else (case mMessageQueue e of
          [] \<Rightarrow> Some (Waiting, e)
        | (t, FINGERPRINT_ERROR code) # q \<Rightarrow> refused_by_device code [] (e\<lparr>mMessageQueue := q\<rparr>)
        | (t, FINGERPRINT_TEMPLATE_REMOVED fids) # q \<Rightarrow>
            Some (Finished, call (onEnrollmentsRemoved (filter (\<lambda>fid. fid \<noteq> 0) fids)) (e\<lparr>mMessageQueue := q\<rparr>))
        | _ # q \<Rightarrow> Some (Finished, e\<lparr>mMessageQueue := q\<rparr>)))"

section \<open>Lockout\<close>

definition startLockoutTimer :: "int \<Rightarrow> FingerprintEngine \<Rightarrow> FingerprintEngine" where
  "startLockoutTimer timeout e = e\<lparr>timers := timers e + 1, isLockoutTimerStarted := True\<rparr>"

definition checkSensorLockout :: "elapsed \<Rightarrow> int \<Rightarrow> FingerprintEngine \<Rightarrow> (bool \<times> FingerprintEngine) option" where
  "checkSensorLockout he now e =
     (if \<not> mCb e then None
      else (case getMode he now (mLockoutTracker e) of (mode, l) \<Rightarrow>
        let e1 = e\<lparr>mLockoutTracker := l\<rparr> in
        (case mode of
           kPermanent \<Rightarrow> Some (True, (call onLockoutPermanent e1)\<lparr>isLockoutTimerAborted := True\<rparr>)
         | kTimed \<Rightarrow>
             let timeLeft = getLockoutTimeLeft now l; e2 = call (onLockoutTimed timeLeft) e1
             in Some (True, if \<not> isLockoutTimerStarted e2 then startLockoutTimer timeLeft e2 else e2)
         | kNone \<Rightarrow> Some (False, e1))))"

definition clearLockout :: "bool \<Rightarrow> FingerprintEngine \<Rightarrow> FingerprintEngine option" where
  "clearLockout dueToTimeout e =
     (if \<not> mCb e then None
      else Some (call onLockoutCleared (e\<lparr>mLockoutTracker := lockout_reset dueToTimeout (mLockoutTracker e)\<rparr>)))"

text \<open>A timer thread wakes up.\<close>

definition lockoutTimerExpired :: "FingerprintEngine \<Rightarrow> FingerprintEngine option" where
  "lockoutTimerExpired e =
     map_option (\<lambda>e1. e1\<lparr>isLockoutTimerStarted := False, isLockoutTimerAborted := False\<rparr>)
       (if \<not> isLockoutTimerAborted e then clearLockout True (e\<lparr>timers := timers e - 1\<rparr>)
        else Some (e\<lparr>timers := timers e - 1\<rparr>))"

definition resetLockoutImpl :: "FingerprintEngine \<Rightarrow> FingerprintEngine result" where
  "resetLockoutImpl e =
     map_option (\<lambda>e1. (Finished, if isLockoutTimerStarted e1 then e1\<lparr>isLockoutTimerAborted := True\<rparr> else e1))
       (clearLockout False e)"

section \<open>Enrolling and authenticating\<close>

text \<open>
  \<open>handleAcquiredOrErrorMessage\<close>: not such a message, handled, handled with \<open>exit\<close> set; or the client
  cancelled, the device was asked to cancel, and its answer is awaited.
\<close>

datatype handled = NotHandled | Handled | Exit | Cancelling

definition handleAcquiredOrErrorMessage ::
  "fingerprint_msg \<Rightarrow> FingerprintEngine \<Rightarrow> (handled \<times> FingerprintEngine) option" where
  "handleAcquiredOrErrorMessage m e =
     (case m of
        FINGERPRINT_ERROR code \<Rightarrow>
          (case convertError code of
             None \<Rightarrow> None
           | Some ec \<Rightarrow>
               if fst ec = CANCELED then Some (Cancelling, e\<lparr>cancels := cancels e + 1\<rparr>)
               else Some (Exit, call (onError (fst ec) (snd ec)) e))
      | FINGERPRINT_ACQUIRED info \<Rightarrow>
          (case convertAcquiredInfo info of (a, v) \<Rightarrow>
             Some (Handled, if a = VENDOR then e else call (onAcquired a v) e))
      | _ \<Rightarrow> Some (NotHandled, e))"

text \<open>
  The loop of both: \<open>h\<close> handles the request's own message and says whether to leave. The cancel
  signal of the client is a message in the queue; after it the device must answer with the same
  error (\<open>cancelling\<close>).
\<close>

fun fp_loop ::
  "(int \<Rightarrow> fingerprint_msg \<Rightarrow> FingerprintEngine \<Rightarrow> (bool \<times> FingerprintEngine) option) \<Rightarrow> bool \<Rightarrow>
     (int \<times> fingerprint_msg) list \<Rightarrow> FingerprintEngine \<Rightarrow> FingerprintEngine result" where
  "fp_loop h cancelling [] e = Some (if cancelling then WaitingForCancel else Waiting, e\<lparr>mMessageQueue := []\<rparr>)"
| "fp_loop h cancelling ((t, m) # q) e =
     (if cancelling then
        (if m = FINGERPRINT_ERROR FINGERPRINT_ERROR_CANCELED
         then Some (Finished, call (onError CANCELED 0) (e\<lparr>mMessageQueue := q\<rparr>)) else None)
      else (case handleAcquiredOrErrorMessage m e of
          None \<Rightarrow> None
        | Some (Exit, e1) \<Rightarrow> Some (Finished, e1\<lparr>mMessageQueue := q\<rparr>)
        | Some (Cancelling, e1) \<Rightarrow> fp_loop h True q e1
        | Some (Handled, e1) \<Rightarrow> fp_loop h False q e1
        | Some (NotHandled, e1) \<Rightarrow>
            (case h t m e1 of
               None \<Rightarrow> None
             | Some (True, e2) \<Rightarrow> Some (Finished, e2\<lparr>mMessageQueue := q\<rparr>)
             | Some (False, e2) \<Rightarrow> fp_loop h False q e2)))"

definition enroll_message :: "int \<Rightarrow> fingerprint_msg \<Rightarrow> FingerprintEngine \<Rightarrow> (bool \<times> FingerprintEngine) option" where
  "enroll_message t m e =
     (case m of
        FINGERPRINT_TEMPLATE_ENROLLING fid rem \<Rightarrow> Some (rem = 0, call (onEnrollmentProgress fid rem) e)
      | _ \<Rightarrow> Some (False, e))"

definition authenticate_message ::
  "bool \<Rightarrow> elapsed \<Rightarrow> int \<Rightarrow> fingerprint_msg \<Rightarrow> FingerprintEngine \<Rightarrow> (bool \<times> FingerprintEngine) option" where
  "authenticate_message le he t m e =
     (case m of
        FINGERPRINT_AUTHENTICATED fid hat \<Rightarrow>
          if fid \<noteq> 0 then
            Some (True, (call (onAuthenticationSucceeded fid (translate_from_hat le hat)) e)
                          \<lparr>mLockoutTracker := lockout_reset True (mLockoutTracker e)\<rparr>)
          else checkSensorLockout he t
            ((call onAuthenticationFailed e)\<lparr>mLockoutTracker := addFailedAttempt t (mLockoutTracker e)\<rparr>)
      | _ \<Rightarrow> Some (False, e))"

text \<open>\<open>hat\<close> is the uninitialised token on the stack.\<close>

definition enrollImpl ::
  "bool \<Rightarrow> HardwareAuthToken \<Rightarrow> hw_auth_token \<Rightarrow> int \<Rightarrow> FingerprintEngine \<Rightarrow> FingerprintEngine result" where
  "enrollImpl le tok hat error e =
     (if \<not> mCb e then None
      else (case translate_to_hat le tok hat of
          None \<Rightarrow> None
        | Some _ \<Rightarrow>
            if error \<noteq> 0 then refused_by_device error [onError UNABLE_TO_PROCESS 0] e
            else fp_loop enroll_message False (mMessageQueue e) e))"

definition authenticateImpl :: "bool \<Rightarrow> elapsed \<Rightarrow> int \<Rightarrow> FingerprintEngine \<Rightarrow> FingerprintEngine result" where
  "authenticateImpl le he error e =
     (if \<not> mCb e then None
      else if error \<noteq> 0 then refused_by_device error [onError UNABLE_TO_PROCESS 0] e
      else fp_loop (authenticate_message le he) False (mMessageQueue e) e)"

section \<open>Byte order\<close>

lemma bit_bswap32: "q \<le> 3 \<Longrightarrow> r < 8 \<Longrightarrow> bit (bswap32 w) (8 * q + r) \<longleftrightarrow> bit w (8 * (3 - q) + r)"
proof -
  assume "q \<le> 3" "r < 8"
  then have "q = 0 \<or> q = 1 \<or> q = 2 \<or> q = 3" by linarith
  then show ?thesis using \<open>r < 8\<close> by (elim disjE) (simp_all add: bswap32_def bit_simps)
qed

lemma bswap32_bswap32: "bswap32 (bswap32 w) = w"
proof (rule bit_word_eqI)
  fix n
  assume "n < LENGTH(32)"
  then have "n div 8 \<le> 3" "n mod 8 < 8" by auto
  then have "bit (bswap32 (bswap32 w)) (8 * (n div 8) + n mod 8) \<longleftrightarrow> bit w (8 * (n div 8) + n mod 8)"
    by (simp only: bit_bswap32 diff_le_self diff_diff_cancel)
  then show "bit (bswap32 (bswap32 w)) n \<longleftrightarrow> bit w n" by simp
qed

lemma ucast_halves:
  "ucast (push_bit 32 (ucast a :: u64) OR ucast b :: u64) = (b :: u32)"
  "ucast (drop_bit 32 (push_bit 32 (ucast a :: u64) OR ucast b :: u64)) = (a :: u32)"
  "push_bit 32 (ucast (ucast (drop_bit 32 w) :: u32)) OR ucast (ucast w :: u32) = (w :: u64)"
  by (rule bit_word_eqI, auto simp: bit_simps dest: bit_imp_le_length)+

lemma bswap64_bswap64: "bswap64 (bswap64 w) = w"
  unfolding bswap64_def ucast_halves bswap32_bswap32 ..

lemma be_be [simp]: "be32 le (be32 le v) = v" "be64 le (be64 le w) = w"
  by (simp_all add: be32_def be64_def bswap32_bswap32 bswap64_bswap64)

section \<open>Loops over messages\<close>

text \<open>
  What is proved of the loop for every request that runs it: which callbacks end the request
  (\<open>terminal\<close>), and how its own messages are handled.
\<close>

locale request_loop =
  fixes h :: "int \<Rightarrow> fingerprint_msg \<Rightarrow> FingerprintEngine \<Rightarrow> (bool \<times> FingerprintEngine) option"
    and terminal :: "fp_callback \<Rightarrow> bool"
  assumes error_terminal: "terminal (onError err v)"
    and acquired_not_terminal: "\<not> terminal (onAcquired a v)"
    and h_queue: "h t m (e\<lparr>mMessageQueue := x\<rparr>) = map_option (\<lambda>(b, e'). (b, e'\<lparr>mMessageQueue := x\<rparr>)) (h t m e)"
    and h_callbacks: "h t m e = Some (b, e') \<Longrightarrow> \<exists>new. callbacks e' = callbacks e @ new \<and>
      (if b then \<exists>mid c. new = mid @ [c] \<and> terminal c \<and> list_all (\<lambda>c. \<not> terminal c) mid
       else list_all (\<lambda>c. \<not> terminal c) new)"
begin

definition ends :: "fp_callback list \<Rightarrow> bool" where
  "ends new \<longleftrightarrow> (\<exists>mid c. new = mid @ [c] \<and> terminal c \<and> list_all (\<lambda>c. \<not> terminal c) mid)"

definition quiet :: "fp_callback list \<Rightarrow> bool" where
  "quiet new \<longleftrightarrow> list_all (\<lambda>c. \<not> terminal c) new"

definition outcome :: "wait \<Rightarrow> fp_callback list \<Rightarrow> bool" where
  "outcome w new \<longleftrightarrow> (if w = Finished then ends new else quiet new)"

lemma outcome_append: "quiet new \<Longrightarrow> outcome w new' \<Longrightarrow> outcome w (new @ new')"
proof (cases "w = Finished")
  case True
  assume "quiet new" "outcome w new'"
  with True obtain mid c where "new' = mid @ [c]" "terminal c" "quiet mid" by (auto simp: outcome_def ends_def quiet_def)
  with \<open>quiet new\<close> have "new @ new' = (new @ mid) @ [c]" "quiet (new @ mid)" by (auto simp: quiet_def)
  with True \<open>terminal c\<close> show ?thesis unfolding outcome_def ends_def quiet_def by auto
qed (simp add: outcome_def quiet_def)

lemma outcome_single: "terminal c \<Longrightarrow> outcome Finished [c]"
  by (auto simp: outcome_def ends_def)

text \<open>Either way, a message handled here says nothing terminal unless it ends the request.\<close>

lemma handle_callbacks:
  "handleAcquiredOrErrorMessage m e = Some (r, e') \<Longrightarrow> \<exists>new. callbacks e' = callbacks e @ new \<and>
     (if r = Exit then outcome Finished new else quiet new)"
  using outcome_single error_terminal acquired_not_terminal
  by (auto simp: handleAcquiredOrErrorMessage_def call_def quiet_def
      split: fingerprint_msg.splits option.splits if_splits prod.splits)

lemma loop_outcome:
  "fp_loop h c q e = Some (w, e') \<Longrightarrow> \<exists>new. callbacks e' = callbacks e @ new \<and> outcome w new"
proof (induction q arbitrary: c e)
  case Nil
  then show ?case by (auto simp: outcome_def quiet_def)
next
  case (Cons tm q)
  obtain t m where tm: "tm = (t, m)" by fastforce
  have step: "\<exists>new. callbacks e' = callbacks e @ new \<and> outcome w new"
    if "fp_loop h c' q e2 = Some (w, e')" "callbacks e2 = callbacks e @ new" "quiet new" for c' e2 new
    using Cons.IH [OF that(1)] that(2) outcome_append [OF that(3)] by fastforce
  show ?case
  proof (cases c)
    case True
    with Cons.prems show ?thesis
      by (auto simp: tm call_def outcome_single error_terminal split: if_splits)
  next
    case False
    with Cons.prems obtain r e1 where r: "handleAcquiredOrErrorMessage m e = Some (r, e1)"
      by (auto simp: tm split: option.splits)
    from handle_callbacks [OF r] obtain new where new: "callbacks e1 = callbacks e @ new"
      "if r = Exit then outcome Finished new else quiet new" by blast
    show ?thesis
    proof (cases r)
      case Exit
      with Cons.prems False r new show ?thesis by (auto simp: tm)
    next
      case NotHandled
      then have e1: "e1 = e" using r
        by (auto simp: handleAcquiredOrErrorMessage_def split: fingerprint_msg.splits option.splits if_splits prod.splits)
      with NotHandled Cons.prems False r obtain b e2 where b: "h t m e = Some (b, e2)"
        by (auto simp: tm split: option.splits)
      from h_callbacks [OF b] obtain new' where new': "callbacks e2 = callbacks e @ new'"
        "if b then outcome Finished new' else quiet new'"
        by (auto simp: outcome_def ends_def quiet_def)
      show ?thesis
      proof (cases b)
        case True
        with NotHandled Cons.prems False r b e1 new' show ?thesis by (auto simp: tm)
      next
        case b': False
        with NotHandled Cons.prems False r b e1 have "fp_loop h False q e2 = Some (w, e')" by (simp add: tm)
        from step [OF this new'(1)] new'(2) b' show ?thesis by simp
      qed
    qed (use Cons.prems False r new step in \<open>auto simp: tm\<close>)
  qed
qed

lemma handle_queue:
  "handleAcquiredOrErrorMessage m (e\<lparr>mMessageQueue := x\<rparr>) =
     map_option (\<lambda>(r, e'). (r, e'\<lparr>mMessageQueue := x\<rparr>)) (handleAcquiredOrErrorMessage m e)"
  by (cases m) (auto simp: handleAcquiredOrErrorMessage_def call_def split: option.split prod.split)

lemma loop_queue: "fp_loop h c q (e\<lparr>mMessageQueue := x\<rparr>) = fp_loop h c q e"
proof (induction q arbitrary: c e)
  case (Cons tm q)
  obtain t m where tm: "tm = (t, m)" by fastforce
  show ?case
  proof (cases "handleAcquiredOrErrorMessage m e")
    case None
    then show ?thesis by (simp add: tm handle_queue call_def)
  next
    case (Some p)
    obtain r e1 where p: "p = (r, e1)" by fastforce
    show ?thesis
    proof (cases "h t m e1")
      case None
      with Some show ?thesis by (cases r) (simp_all add: tm p handle_queue h_queue Cons.IH call_def)
    next
      case hb: (Some bp)
      obtain b e2 where "bp = (b, e2)" by fastforce
      with Some hb show ?thesis
        by (cases r; cases b) (simp_all add: tm p handle_queue h_queue Cons.IH call_def)
    qed
  qed
qed simp

text \<open>Messages that come later are handled as if they had been there.\<close>

lemma loop_resumes:
  "fp_loop h c q e = Some (w, e1) \<Longrightarrow> fp_loop h c (q @ q') e =
     (if w = Finished then Some (Finished, e1\<lparr>mMessageQueue := mMessageQueue e1 @ q'\<rparr>)
      else fp_loop h (w = WaitingForCancel) q' e1)"
proof (induction q arbitrary: c e)
  case Nil
  then show ?case by (auto simp: loop_queue split: if_splits)
next
  case (Cons tm q)
  obtain t m where tm: "tm = (t, m)" by fastforce
  show ?case
  proof (cases c)
    case True
    with Cons.prems show ?thesis by (auto simp: tm call_def split: if_splits)
  next
    case False
    with Cons.prems obtain r e2 where r: "handleAcquiredOrErrorMessage m e = Some (r, e2)"
      by (auto simp: tm split: option.splits)
    show ?thesis
    proof (cases r)
      case NotHandled
      with Cons.prems False r obtain b e3 where "h t m e2 = Some (b, e3)"
        by (auto simp: tm split: option.splits)
      with NotHandled Cons.prems Cons.IH [of False e3] False r show ?thesis by (cases b) (auto simp: tm)
    qed (use Cons.prems Cons.IH [of _ e2] False r in \<open>auto simp: tm\<close>)
  qed
qed

end

section \<open>The two requests\<close>

fun enroll_terminal :: "fp_callback \<Rightarrow> bool" where
  "enroll_terminal (onError err v) \<longleftrightarrow> True"
| "enroll_terminal (onEnrollmentProgress fid rem) \<longleftrightarrow> rem = 0"
| "enroll_terminal _ \<longleftrightarrow> False"

fun auth_terminal :: "fp_callback \<Rightarrow> bool" where
  "auth_terminal (onError err v) \<longleftrightarrow> True"
| "auth_terminal (onAuthenticationSucceeded fid tok) \<longleftrightarrow> True"
| "auth_terminal onLockoutPermanent \<longleftrightarrow> True"
| "auth_terminal (onLockoutTimed ms) \<longleftrightarrow> True"
| "auth_terminal _ \<longleftrightarrow> False"

interpretation enroll: request_loop enroll_message enroll_terminal
proof unfold_locales
  fix t m e x b e'
  show "enroll_message t m (e\<lparr>mMessageQueue := x\<rparr>) =
      map_option (\<lambda>(b, e'). (b, e'\<lparr>mMessageQueue := x\<rparr>)) (enroll_message t m e)"
    by (cases m) (simp_all add: enroll_message_def call_def)
  assume "enroll_message t m e = Some (b, e')"
  then show "\<exists>new. callbacks e' = callbacks e @ new \<and>
      (if b then \<exists>mid c. new = mid @ [c] \<and> enroll_terminal c \<and> list_all (\<lambda>c. \<not> enroll_terminal c) mid
       else list_all (\<lambda>c. \<not> enroll_terminal c) new)"
    by (cases m) (auto simp: enroll_message_def call_def)
qed simp_all

lemma checkSensorLockout_queue:
  "checkSensorLockout he t (e\<lparr>mMessageQueue := x\<rparr>) =
     map_option (\<lambda>(b, e'). (b, e'\<lparr>mMessageQueue := x\<rparr>)) (checkSensorLockout he t e)"
  by (simp add: checkSensorLockout_def call_def startLockoutTimer_def Let_def split: prod.split LockoutMode.split)

text \<open>What a look at the lock does: the callback, and everything else as it was.\<close>

lemma checkSensorLockout_cases:
  assumes "checkSensorLockout he t e = Some (b, e')"
  shows "mCb e' = mCb e \<and> mFailedCount (mLockoutTracker e') = mFailedCount (mLockoutTracker e) \<and>
    (if b then \<exists>c. callbacks e' = callbacks e @ [c] \<and> auth_terminal c \<and> c \<noteq> onAuthenticationFailed
     else callbacks e' = callbacks e)"
  using assms
  by (auto simp: checkSensorLockout_def getMode_def call_def startLockoutTimer_def Let_def
      split: if_splits LockoutMode.splits prod.splits)

lemma authenticate_message_cases:
  assumes "authenticate_message le he t m e = Some (b, e')"
  shows "mCb e' = mCb e \<and> (\<exists>new. callbacks e' = callbacks e @ new \<and>
    (if b then \<exists>mid c. new = mid @ [c] \<and> auth_terminal c \<and> list_all (\<lambda>c. \<not> auth_terminal c) mid
     else list_all (\<lambda>c. \<not> auth_terminal c) new) \<and>
    mFailedCount (mLockoutTracker e') = mFailedCount (mLockoutTracker e) + int (count_list new onAuthenticationFailed))"
proof (cases "\<exists>fid hat. m = FINGERPRINT_AUTHENTICATED fid hat")
  case False
  with assms show ?thesis by (cases m) (auto simp: authenticate_message_def)
next
  case True
  then obtain fid hat where m: "m = FINGERPRINT_AUTHENTICATED fid hat" by blast
  show ?thesis
  proof (cases "fid = 0")
    case True
    let ?e = "(call onAuthenticationFailed e)\<lparr>mLockoutTracker := addFailedAttempt t (mLockoutTracker e)\<rparr>"
    from True assms m have c: "checkSensorLockout he t ?e = Some (b, e')" by (simp add: authenticate_message_def)
    have f: "mFailedCount (addFailedAttempt t l) = mFailedCount l + 1" for l by (simp add: addFailedAttempt_def Let_def)
    note chk = checkSensorLockout_cases [OF c]
    show ?thesis
    proof (cases b)
      case True
      with chk obtain k where "callbacks e' = callbacks ?e @ [k]" "auth_terminal k" "k \<noteq> onAuthenticationFailed" by auto
      with True chk f have "callbacks e' = callbacks e @ [onAuthenticationFailed, k]" "\<not> auth_terminal onAuthenticationFailed"
        "mFailedCount (mLockoutTracker e') = mFailedCount (mLockoutTracker e) + 1" "mCb e' = mCb e"
        by (simp_all add: call_def)
      note facts = this
      have two: "\<exists>mid c. [onAuthenticationFailed, k] = mid @ [c] \<and> auth_terminal c \<and> list_all (\<lambda>c. \<not> auth_terminal c) mid"
        by (rule exI [of _ "[onAuthenticationFailed]"], rule exI [of _ k]) (simp add: \<open>auth_terminal k\<close>)
      have "int (count_list [onAuthenticationFailed, k] onAuthenticationFailed) = 1"
        using \<open>k \<noteq> onAuthenticationFailed\<close> by simp
      with two True facts show ?thesis by (intro conjI exI [of _ "[onAuthenticationFailed, k]"]) simp_all
    next
      case False
      with chk f show ?thesis
        by (intro conjI exI [of _ "[onAuthenticationFailed]"]) (auto simp: call_def)
    qed
  next
    case False
    with assms m show ?thesis
      by (auto simp: authenticate_message_def call_def lockout_reset_def)
  qed
qed

interpretation authenticate: request_loop "authenticate_message le he" auth_terminal
proof unfold_locales
  fix t m e x b e'
  show "authenticate_message le he t m (e\<lparr>mMessageQueue := x\<rparr>) =
      map_option (\<lambda>(b, e'). (b, e'\<lparr>mMessageQueue := x\<rparr>)) (authenticate_message le he t m e)"
  proof -
    have a: "(call c (e\<lparr>mMessageQueue := x\<rparr>))\<lparr>mLockoutTracker := y\<rparr> =
        ((call c e)\<lparr>mLockoutTracker := y\<rparr>)\<lparr>mMessageQueue := x\<rparr>" for c y by (simp add: call_def)
    show ?thesis by (cases m) (simp_all add: authenticate_message_def a checkSensorLockout_queue)
  qed
  assume "authenticate_message le he t m e = Some (b, e')"
  from authenticate_message_cases [OF this]
  show "\<exists>new. callbacks e' = callbacks e @ new \<and>
      (if b then \<exists>mid c. new = mid @ [c] \<and> auth_terminal c \<and> list_all (\<lambda>c. \<not> auth_terminal c) mid
       else list_all (\<lambda>c. \<not> auth_terminal c) new)" by blast
qed simp_all

section \<open>Counting failures\<close>

text \<open>Whatever holds of each message handled and is transitive holds of the loop.\<close>

lemma fp_loop_rel:
  assumes h: "\<And>t m e b e'. h t m e = Some (b, e') \<Longrightarrow> R e e'"
    and handle: "\<And>m e r e'. handleAcquiredOrErrorMessage m e = Some (r, e') \<Longrightarrow> R e e'"
    and queue: "\<And>e q. R e (e\<lparr>mMessageQueue := q\<rparr>)"
    and cancel: "\<And>e. R e (call (onError CANCELED 0) e)"
    and trans: "\<And>a b c. R a b \<Longrightarrow> R b c \<Longrightarrow> R a c"
  shows "fp_loop h c q e = Some (w, e') \<Longrightarrow> R e e'"
proof (induction q arbitrary: c e)
  case Nil
  then show ?case using queue by auto
next
  case (Cons tm q)
  obtain t m where tm: "tm = (t, m)" by fastforce
  show ?case
  proof (cases c)
    case True
    with Cons.prems show ?thesis using trans [OF queue cancel] by (auto simp: tm split: if_splits)
  next
    case False
    with Cons.prems obtain r e1 where r: "handleAcquiredOrErrorMessage m e = Some (r, e1)"
      by (auto simp: tm split: option.splits)
    from handle [OF r] have R1: "R e e1" .
    show ?thesis
    proof (cases r)
      case NotHandled
      with Cons.prems False r obtain b e2 where b: "h t m e1 = Some (b, e2)"
        by (auto simp: tm split: option.splits)
      have "R e1 e2" using h [OF b] .
      from trans [OF R1 this] have R2: "R e e2" .
      show ?thesis
      proof (cases b)
        case True
        with NotHandled Cons.prems False r b R2 show ?thesis using trans [OF R2 queue] by (auto simp: tm)
      next
        case b': False
        with NotHandled Cons.prems False r b have "fp_loop h False q e2 = Some (w, e')" by (simp add: tm)
        from trans [OF R2 Cons.IH [OF this]] show ?thesis .
      qed
    next
      case Exit
      with Cons.prems False r R1 show ?thesis using trans [OF R1 queue] by (auto simp: tm)
    next
      case Handled
      with Cons.prems False r have "fp_loop h False q e1 = Some (w, e')" by (simp add: tm)
      from trans [OF R1 Cons.IH [OF this]] show ?thesis .
    next
      case Cancelling
      with Cons.prems False r have "fp_loop h True q e1 = Some (w, e')" by (simp add: tm)
      from trans [OF R1 Cons.IH [OF this]] show ?thesis .
    qed
  qed
qed

text \<open>Each failure reported is counted, and nothing else changes the count.\<close>

definition counted :: "FingerprintEngine \<Rightarrow> FingerprintEngine \<Rightarrow> bool" where
  "counted e e' \<longleftrightarrow> mFailedCount (mLockoutTracker e') - mFailedCount (mLockoutTracker e) =
     int (count_list (callbacks e') onAuthenticationFailed) - int (count_list (callbacks e) onAuthenticationFailed)"

lemma auth_loop_counted:
  "fp_loop (authenticate_message le he) c q e = Some (w, e') \<Longrightarrow> counted e e'"
proof (erule fp_loop_rel [rotated -1])
  show "authenticate_message le he t m e = Some (b, e') \<Longrightarrow> counted e e'" for t m e b e'
    using authenticate_message_cases [of le he t m e b e'] by (auto simp: counted_def)
  show "handleAcquiredOrErrorMessage m e = Some (r, e') \<Longrightarrow> counted e e'" for m e r e'
    by (auto simp: handleAcquiredOrErrorMessage_def counted_def call_def
        split: fingerprint_msg.splits option.splits if_splits prod.splits)
qed (simp_all add: counted_def call_def)

section \<open>Properties\<close>

text \<open>
  a token translated to the vendor's form and back is the same token, on machines of either
  byte order, whatever was in the vendor's token before, when its mac has the length of the array.
\<close>

theorem token_round_trip:
  assumes "length (mac tok) = length (hmac hat)"
  shows "map_option (translate_from_hat le) (translate_to_hat le tok hat) = Some tok"
  using assms by (simp add: translate_to_hat_def translate_from_hat_def)

definition ex_token :: HardwareAuthToken where
  "ex_token = \<lparr>challenge = 1, userId = 2, authenticatorId = 3, authenticatorType = 0x01020304,
     milliSeconds = 0x0102030405060708, mac = replicate 32 7\<rparr>"

definition ex_hat :: hw_auth_token where
  "ex_hat = \<lparr>hat_challenge = 0, hat_user_id = 0, hat_authenticator_id = 0, hat_authenticator_type = 0,
     hat_timestamp = 0, hmac = replicate 32 0\<rparr>"

theorem token_round_trip_witness:
  "map_option (translate_from_hat True) (translate_to_hat True ex_token ex_hat) = Some ex_token"
  using token_round_trip [of ex_token ex_hat True] by (simp add: ex_token_def ex_hat_def)

text \<open>
  C6: an authentication the device accepts ends with exactly one result: success, an error, or a
  lock, after images and failed attempts only; while it waits none was given. Every failed attempt
  reported to the framework was counted, and only those were.
\<close>

theorem authentication_ends_with_one_result:
  assumes "authenticateImpl le he 0 e = Some (w, e')"
  shows "\<exists>new. callbacks e' = callbacks e @ new \<and>
    (if w = Finished then \<exists>mid c. new = mid @ [c] \<and> auth_terminal c \<and> list_all (\<lambda>c. \<not> auth_terminal c) mid
     else list_all (\<lambda>c. \<not> auth_terminal c) new) \<and>
    mFailedCount (mLockoutTracker e') = mFailedCount (mLockoutTracker e) + int (count_list new onAuthenticationFailed)"
proof -
  from assms have l: "fp_loop (authenticate_message le he) False (mMessageQueue e) e = Some (w, e')"
    by (simp add: authenticateImpl_def split: if_splits)
  from authenticate.loop_outcome [OF l] obtain new where "callbacks e' = callbacks e @ new"
    "authenticate.outcome w new" by blast
  moreover from auth_loop_counted [OF l] have "counted e e'" .
  ultimately show ?thesis
    unfolding authenticate.outcome_def authenticate.ends_def authenticate.quiet_def counted_def
    by (intro exI [of _ new]) auto
qed

definition ex_engine :: "LockoutMode \<Rightarrow> (int \<times> fingerprint_msg) list \<Rightarrow> FingerprintEngine" where
  "ex_engine mode q = \<lparr>mCb = True, mMessageQueue = q, mLockoutTracker =
     \<lparr>mFailedCount = 0, mFailedCountTimed = 0, mLockoutTimedStart = 0, mCurrentMode = mode\<rparr>,
     isLockoutTimerStarted = False, isLockoutTimerAborted = False, timers = 0, cancels = 0, callbacks = []\<rparr>"

lemmas engine_eval = ex_engine_def authenticateImpl_def enrollImpl_def handleAcquiredOrErrorMessage_def
  authenticate_message_def enroll_message_def checkSensorLockout_def getMode_def addFailedAttempt_def
  lockout_reset_def convertError_def convertAcquiredInfo_def call_def Let_def

theorem authentication_ends_with_one_result_witness:
  "\<exists>e'. authenticateImpl True (\<lambda>now start ms. start + ms * 1000000 \<le> now) 0 (ex_engine kNone
       [(1, FINGERPRINT_ACQUIRED 0), (2, FINGERPRINT_AUTHENTICATED 0 ex_hat), (3, FINGERPRINT_AUTHENTICATED 9 ex_hat)])
     = Some (Finished, e') \<and> mFailedCount (mLockoutTracker e') = 1 \<and> mMessageQueue e' = [] \<and>
     (\<exists>mid c. callbacks e' = mid @ [c] \<and> auth_terminal c)"
proof -
  let ?he = "\<lambda>now start ms :: int. start + ms * 1000000 \<le> now"
  let ?e = "ex_engine kNone [(1, FINGERPRINT_ACQUIRED 0), (2, FINGERPRINT_AUTHENTICATED 0 ex_hat), (3, FINGERPRINT_AUTHENTICATED 9 ex_hat)]"
  define e' where "e' = ?e\<lparr>mMessageQueue := [], mLockoutTracker := \<lparr>mFailedCount = 1, mFailedCountTimed = 0,
      mLockoutTimedStart = 0, mCurrentMode = kNone\<rparr>, callbacks := [onAcquired GOOD 0, onAuthenticationFailed,
      onAuthenticationSucceeded 9 (translate_from_hat True ex_hat)]\<rparr>"
  have r: "authenticateImpl True ?he 0 ?e = Some (Finished, e')"
    by (simp add: e'_def engine_eval)
  from authentication_ends_with_one_result [OF r] have "\<exists>mid c. callbacks e' = mid @ [c] \<and> auth_terminal c"
    by (auto simp: ex_engine_def)
  with r show ?thesis by (intro exI [of _ e']) (simp add: e'_def)
qed

text \<open>
  no message is lost and no order of arrival matters: running a request on the messages that
  are there and going on when more come is the same as running it on all of them at once; messages
  after the end stay in the queue.
\<close>

theorem enroll_resumes:
  assumes "fp_loop enroll_message c q e = Some (w, e1)"
  shows "fp_loop enroll_message c (q @ q') e =
    (if w = Finished then Some (Finished, e1\<lparr>mMessageQueue := mMessageQueue e1 @ q'\<rparr>)
     else fp_loop enroll_message (w = WaitingForCancel) q' e1)"
  using assms by (rule enroll.loop_resumes)

theorem enroll_resumes_witness:
  "\<exists>e1. fp_loop enroll_message False [(1, FINGERPRINT_TEMPLATE_ENROLLING 4 2)] (ex_engine kNone []) = Some (Waiting, e1) \<and>
     fp_loop enroll_message False [(1, FINGERPRINT_TEMPLATE_ENROLLING 4 2), (2, FINGERPRINT_TEMPLATE_ENROLLING 4 0)] (ex_engine kNone []) =
     fp_loop enroll_message False [(2, FINGERPRINT_TEMPLATE_ENROLLING 4 0)] e1"
proof -
  define e1 where "e1 = (ex_engine kNone [])\<lparr>callbacks := [onEnrollmentProgress 4 2]\<rparr>"
  have "fp_loop enroll_message False [(1, FINGERPRINT_TEMPLATE_ENROLLING 4 2)] (ex_engine kNone []) = Some (Waiting, e1)"
    by (simp add: e1_def engine_eval)
  from this enroll_resumes [OF this, of "[(2, FINGERPRINT_TEMPLATE_ENROLLING 4 0)]"] show ?thesis by (intro exI [of _ e1]) simp
qed

text \<open>
  the lock is not looked at when an authentication starts: whatever the tracker says, a
  match succeeds and lifts even a permanent lock.
\<close>

theorem locked_sensor_still_authenticates:
  assumes "mCb e" "mMessageQueue e = (t, FINGERPRINT_AUTHENTICATED fid hat) # q" "fid \<noteq> 0"
  shows "\<exists>e'. authenticateImpl le he 0 e = Some (Finished, e') \<and>
    callbacks e' = callbacks e @ [onAuthenticationSucceeded fid (translate_from_hat le hat)] \<and>
    mCurrentMode (mLockoutTracker e') = kNone"
  using assms by (simp add: engine_eval)

theorem locked_sensor_still_authenticates_witness:
  "\<exists>e'. authenticateImpl True (\<lambda>now start ms. start + ms * 1000000 \<le> now) 0
      (ex_engine kPermanent [(1, FINGERPRINT_AUTHENTICATED 9 ex_hat)]) = Some (Finished, e') \<and>
     mCurrentMode (mLockoutTracker e') = kNone"
  using locked_sensor_still_authenticates [of "ex_engine kPermanent [(1, FINGERPRINT_AUTHENTICATED 9 ex_hat)]" 1 9 ex_hat "[]" True
    "\<lambda>now start ms. start + ms * 1000000 \<le> now"]
  by (auto simp: ex_engine_def)

text \<open>
  a message that is on its way when the client cancels ends the process: after the cancel
  signal the next message must be the device's own cancellation.
\<close>

theorem cancel_races_with_messages:
  assumes "mMessageQueue e = (t, FINGERPRINT_ERROR FINGERPRINT_ERROR_CANCELED) # (t', m) # q" "mCb e"
  shows "(authenticateImpl le he 0 e = None \<longleftrightarrow> m \<noteq> FINGERPRINT_ERROR FINGERPRINT_ERROR_CANCELED)"
  using assms by (simp add: engine_eval)

theorem cancel_races_with_messages_witness:
  "authenticateImpl True (\<lambda>now start ms. start + ms * 1000000 \<le> now) 0
     (ex_engine kNone [(1, FINGERPRINT_ERROR 5), (2, FINGERPRINT_ACQUIRED 0), (3, FINGERPRINT_ERROR 5)]) = None"
  using cancel_races_with_messages [of "ex_engine kNone [(1, FINGERPRINT_ERROR 5), (2, FINGERPRINT_ACQUIRED 0), (3, FINGERPRINT_ERROR 5)]"
    1 2 "FINGERPRINT_ACQUIRED 0" "[(3, FINGERPRINT_ERROR 5)]"]
  by (simp add: ex_engine_def)

text \<open>
  a request with one answer passes over every message of another type and answers with the
  first of its own; invalidating the authenticator waits for the answer to \<open>getAuthenticatorId\<close>
  and drops the device's answer to the invalidation.
\<close>

lemma await_skips:
  "list_all (\<lambda>tm. f (snd tm) = None) q \<Longrightarrow> await f (q @ q') e = await f q' e"
  by (induction q) auto

theorem invalidation_waits_for_another_answer:
  assumes "mCb e" "mMessageQueue e = (t, FINGERPRINT_INVALIDATE_AUTHENTICATOR_ID d) # q"
    "list_all (\<lambda>tm. \<forall>d'. snd tm \<noteq> FINGERPRINT_GET_AUTHENTICATOR_ID d') q"
  shows "invalidateAuthenticatorIdImpl 0 e = Some (Waiting, e\<lparr>mMessageQueue := []\<rparr>) \<and>
    (\<exists>e'. invalidateAuthenticatorIdImpl 0 (e\<lparr>mMessageQueue := mMessageQueue e @ [(t', FINGERPRINT_GET_AUTHENTICATOR_ID d')]\<rparr>)
       = Some (Finished, e') \<and> callbacks e' = callbacks e @ [onAuthenticatorIdInvalidated d'])"
proof -
  let ?f = "\<lambda>m. case m of FINGERPRINT_GET_AUTHENTICATOR_ID d \<Rightarrow> Some (onAuthenticatorIdInvalidated d) | _ \<Rightarrow> None"
  have none: "list_all (\<lambda>tm. ?f (snd tm) = None) (mMessageQueue e)"
    using assms(2,3) by (auto simp: list_all_iff split: fingerprint_msg.split)
  from await_skips [OF none, of "[]"] await_skips [OF none] assms(1) show ?thesis
    by (simp add: invalidateAuthenticatorIdImpl_def call_def)
qed

theorem invalidation_waits_for_another_answer_witness:
  "invalidateAuthenticatorIdImpl 0 (ex_engine kNone [(1, FINGERPRINT_INVALIDATE_AUTHENTICATOR_ID 5)]) =
     Some (Waiting, ex_engine kNone [])"
  using invalidation_waits_for_another_answer [of "ex_engine kNone [(1, FINGERPRINT_INVALIDATE_AUTHENTICATOR_ID 5)]" 1 5 "[]"]
  by (simp add: ex_engine_def)

end
