(* ===== verification/FpSession.thy ===== *)
theory FpSession
  imports FingerprintEngine
begin

text \<open>
  \<open>fingerprint/Session.cpp\<close> and \<open>Fingerprint.cpp\<close>: the service with its session, the worker thread
  that runs the session's requests one after the other against the engine, and the lockout timer
  threads. Requests hold the engine's mutex until they end, so closing a session and an expiring
  timer come between requests, not during one that waits (\<open>running\<close>). The worker's queue is
  outside this repository: whether it takes one more task is a parameter (\<open>room\<close>).
\<close>

section \<open>State\<close>

datatype task =
    generateChallenge
  | revokeChallenge u64
  | enroll HardwareAuthToken hw_auth_token \<comment> \<open>and what is on the stack for the vendor's token\<close>
  | authenticate u64
  | detectInteraction
  | enumerateEnrollments
  | removeEnrollments "u32 list"
  | getAuthenticatorId
  | invalidateAuthenticatorId
  | resetLockout

record Session =
  mUserId :: int
  mClosed :: bool
  mDeathRecipient :: bool \<comment> \<open>not deleted yet\<close>

record service =
  mEngine :: FingerprintEngine
  mSession :: "Session option"
  tasks :: "task list"
  running :: bool

text \<open>The environment: byte order, clock test, and whether the worker takes a task.\<close>

record fp_env =
  little_endian :: bool
  hasElapsed :: elapsed
  room :: "task list \<Rightarrow> bool"

section \<open>Operations\<close>

definition setSessionCallback :: "bool \<Rightarrow> FingerprintEngine \<Rightarrow> FingerprintEngine" where
  "setSessionCallback cb e = e\<lparr>mCb := cb\<rparr>"

text \<open>A request of the client: \<open>schedule\<close>; a refusal is only logged.\<close>

definition schedule :: "fp_env \<Rightarrow> task \<Rightarrow> service \<Rightarrow> service" where
  "schedule env task s = (if room env (tasks s) then s\<lparr>tasks := tasks s @ [task]\<rparr> else s)"

text \<open>
  What the worker runs for a task. \<open>err\<close> is what the device's call returns, \<open>cancelled\<close> whether the
  client had cancelled before the task began.
\<close>

definition run_task :: "fp_env \<Rightarrow> u64 \<Rightarrow> bool \<Rightarrow> task \<Rightarrow> FingerprintEngine \<Rightarrow> FingerprintEngine result" where
  "run_task env err cancelled task e =
     (case task of
        generateChallenge \<Rightarrow> generateChallengeImpl err e
      | revokeChallenge c \<Rightarrow> revokeChallengeImpl err e
      | enroll tok hat \<Rightarrow>
          if cancelled then Some (Finished, call (onError CANCELED 0) e)
          else enrollImpl (little_endian env) tok hat (narrow err) e
      | authenticate op \<Rightarrow>
          if cancelled then Some (Finished, call (onError CANCELED 0) e)
          else authenticateImpl (little_endian env) (hasElapsed env) (narrow err) e
      | detectInteraction \<Rightarrow>
          if cancelled then Some (Finished, call (onError CANCELED 0) e) else Some (Finished, e)
      | enumerateEnrollments \<Rightarrow> enumerateEnrollmentsImpl (narrow err) e
      | removeEnrollments ids \<Rightarrow> removeEnrollmentsImpl err e
      | getAuthenticatorId \<Rightarrow> getAuthenticatorIdImpl err e
      | invalidateAuthenticatorId \<Rightarrow> invalidateAuthenticatorIdImpl err e
      | resetLockout \<Rightarrow> resetLockoutImpl e)"

text \<open>
  The worker runs the first task on the messages that are there. If it has to wait it keeps the
  mutex, and is run again, from the same state, when more messages came: by \<open>enroll_resumes\<close> and its
  like that is the same as going on.
\<close>

definition run_worker :: "fp_env \<Rightarrow> u64 \<Rightarrow> bool \<Rightarrow> service \<Rightarrow> service option" where
  "run_worker env err cancelled s =
     (case tasks s of
        [] \<Rightarrow> Some s
      | task # rest \<Rightarrow>
          (case run_task env (if running s then 0 else err) (cancelled \<and> \<not> running s) task (mEngine s) of
             None \<Rightarrow> None
           | Some (Finished, e) \<Rightarrow> Some (s\<lparr>mEngine := e, tasks := rest, running := False\<rparr>)
           | Some (_, e) \<Rightarrow> Some (s\<lparr>running := True\<rparr>)))"

text \<open>\<open>close\<close> deletes the death recipient, so closing twice frees it twice: a fault.\<close>

definition close :: "service \<Rightarrow> service option" where
  "close s =
     (case mSession s of
        None \<Rightarrow> Some s
      | Some ses \<Rightarrow>
          if running s then Some s
          else if \<not> mDeathRecipient ses then None
          else Some (s\<lparr>mSession := Some (ses\<lparr>mClosed := True, mDeathRecipient := False\<rparr>),
                       mEngine := call onSessionClosed (setSessionCallback False (mEngine s))\<rparr>))"

definition onClientDeath :: "service \<Rightarrow> service option" where
  "onClientDeath s =
     (case mSession s of
        None \<Rightarrow> Some s
      | Some ses \<Rightarrow> if \<not> mClosed ses then close s else Some s)"

definition createSession :: "int \<Rightarrow> service \<Rightarrow> service option" where
  "createSession uid s =
     (if (case mSession s of None \<Rightarrow> True | Some ses \<Rightarrow> mClosed ses)
      then Some (s\<lparr>mSession := Some \<lparr>mUserId = uid, mClosed = False, mDeathRecipient = True\<rparr>,
                   mEngine := setSessionCallback True (mEngine s)\<rparr>)
      else None)"

definition timer_wakes :: "service \<Rightarrow> service option" where
  "timer_wakes s =
     (if timers (mEngine s) = 0 \<or> running s then Some s
      else map_option (\<lambda>e. s\<lparr>mEngine := e\<rparr>) (lockoutTimerExpired (mEngine s)))"

datatype service_op = Create int | Request task | RunWorker u64 bool | Message int fingerprint_msg
  | TimerWakes | Close | ClientDeath

fun service_step :: "fp_env \<Rightarrow> service_op \<Rightarrow> service \<Rightarrow> service option" where
  "service_step env (Create uid) s = createSession uid s"
| "service_step env (Request task) s = Some (schedule env task s)"
| "service_step env (RunWorker err cancelled) s = run_worker env err cancelled s"
| "service_step env (Message t m) s = Some (s\<lparr>mEngine := onMessage t m (mEngine s)\<rparr>)"
| "service_step env TimerWakes s = timer_wakes s"
| "service_step env Close s = close s"
| "service_step env ClientDeath s = onClientDeath s"

section \<open>When nothing aborts\<close>

text \<open>
  Messages and codes that the code converts, and no cancellation; tokens whose mac fits.
\<close>

fun benign :: "fingerprint_msg \<Rightarrow> bool" where
  "benign (FINGERPRINT_ERROR code) \<longleftrightarrow> code \<noteq> FINGERPRINT_ERROR_LOCKOUT \<and> code \<noteq> FINGERPRINT_ERROR_CANCELED"
| "benign _ \<longleftrightarrow> True"

fun task_ok :: "task \<Rightarrow> bool" where
  "task_ok (enroll tok hat) \<longleftrightarrow> length (mac tok) \<le> length (hmac hat)"
| "task_ok _ \<longleftrightarrow> True"

fun op_ok :: "service_op \<Rightarrow> bool" where
  "op_ok (Request task) \<longleftrightarrow> task_ok task"
| "op_ok (RunWorker err cancelled) \<longleftrightarrow> narrow err \<noteq> FINGERPRINT_ERROR_LOCKOUT"
| "op_ok (Message t m) \<longleftrightarrow> benign m"
| "op_ok TimerWakes \<longleftrightarrow> True"
| "op_ok _ \<longleftrightarrow> False"

definition service_inv :: "service \<Rightarrow> bool" where
  "service_inv s \<longleftrightarrow> mCb (mEngine s) \<and> list_all (\<lambda>tm. benign (snd tm)) (mMessageQueue (mEngine s)) \<and>
     list_all task_ok (tasks s)"

text \<open>What a request that does not abort keeps: the callback, and messages that are benign.\<close>

definition engine_ok :: "FingerprintEngine \<Rightarrow> bool" where
  "engine_ok e \<longleftrightarrow> mCb e \<and> list_all (\<lambda>tm. benign (snd tm)) (mMessageQueue e)"

definition result_ok :: "FingerprintEngine result \<Rightarrow> bool" where
  "result_ok r \<longleftrightarrow> (\<exists>w e. r = Some (w, e) \<and> engine_ok e)"

lemma result_ok_Some [simp]: "result_ok (Some (w, e)) \<longleftrightarrow> engine_ok e"
  by (auto simp: result_ok_def)

lemma await_ok: "mCb e \<Longrightarrow> list_all (\<lambda>tm. benign (snd tm)) q \<Longrightarrow> engine_ok (snd (await f q e))"
  by (induction q) (auto simp: engine_ok_def call_def split: option.split)

lemma refused_ok: "engine_ok e \<Longrightarrow> code \<noteq> FINGERPRINT_ERROR_LOCKOUT \<Longrightarrow> result_ok (refused_by_device code cs e)"
  by (simp add: refused_by_device_def convertError_def engine_ok_def)

lemma handle_ok:
  "benign m \<Longrightarrow> \<exists>r e'. handleAcquiredOrErrorMessage m e = Some (r, e') \<and> r \<noteq> Cancelling \<and> mCb e' = mCb e"
  by (cases m) (auto simp: handleAcquiredOrErrorMessage_def convertError_def call_def split: prod.split)

lemma fp_loop_ok:
  assumes h: "\<And>t m e. mCb e \<Longrightarrow> \<exists>b e'. h t m e = Some (b, e') \<and> mCb e'"
  shows "mCb e \<Longrightarrow> list_all (\<lambda>tm. benign (snd tm)) q \<Longrightarrow> result_ok (fp_loop h False q e)"
proof (induction q arbitrary: e)
  case Nil
  then show ?case by (simp add: engine_ok_def)
next
  case (Cons tm q)
  obtain t m where tm: "tm = (t, m)" by fastforce
  with Cons.prems handle_ok [of m e] obtain r e1 where r: "handleAcquiredOrErrorMessage m e = Some (r, e1)"
    "r \<noteq> Cancelling" "mCb e1" by auto
  from h [OF r(3)] obtain b e2 where "h t m e1 = Some (b, e2)" "mCb e2" by blast
  with r Cons tm show ?case by (cases r; cases b) (simp_all add: engine_ok_def)
qed

lemma enroll_message_ok: "mCb e \<Longrightarrow> \<exists>b e'. enroll_message t m e = Some (b, e') \<and> mCb e'"
  by (cases m) (auto simp: enroll_message_def call_def)

lemma checkSensorLockout_ok: "mCb e \<Longrightarrow> \<exists>b e'. checkSensorLockout he t e = Some (b, e') \<and> mCb e'"
  by (auto simp: checkSensorLockout_def call_def startLockoutTimer_def Let_def split: prod.split LockoutMode.split)

lemma authenticate_message_ok: "mCb e \<Longrightarrow> \<exists>b e'. authenticate_message le he t m e = Some (b, e') \<and> mCb e'"
  using checkSensorLockout_ok [of "(call onAuthenticationFailed e)\<lparr>mLockoutTracker := addFailedAttempt t (mLockoutTracker e)\<rparr>" he t]
  by (cases m) (auto simp: authenticate_message_def call_def)

lemma narrow_0 [simp]: "narrow 0 = 0"
  by (simp add: narrow_def)

lemma run_task_ok:
  assumes "engine_ok e" "task_ok task" "narrow err \<noteq> FINGERPRINT_ERROR_LOCKOUT"
  shows "result_ok (run_task env err cancelled task e)"
proof -
  have e: "mCb e" "list_all (\<lambda>tm. benign (snd tm)) (mMessageQueue e)" using assms(1) by (auto simp: engine_ok_def)
  have aw: "result_ok (Some (await f (mMessageQueue e) e))" for f
    using await_ok [OF e] by (auto simp: result_ok_def prod_eq_iff)
  have canc: "engine_ok (call c e)" for c using assms(1) by (simp add: engine_ok_def call_def)
  have q: "list_all (\<lambda>tm. benign (snd tm)) q" if "mMessageQueue e = x # q" for x q using e that by simp
  show ?thesis
  proof (cases task)
    case (enroll tok hat)
    then have "translate_to_hat (little_endian env) tok hat \<noteq> None" using assms(2) by (simp add: translate_to_hat_def)
    with enroll fp_loop_ok [of enroll_message, OF enroll_message_ok e] refused_ok [OF assms(1)] assms(3) e canc
    show ?thesis by (auto simp: run_task_def enrollImpl_def)
  next
    case (authenticate op)
    with fp_loop_ok [of "authenticate_message (little_endian env) (hasElapsed env)", OF authenticate_message_ok e]
      refused_ok [OF assms(1)] assms(3) e canc
    show ?thesis by (auto simp: run_task_def authenticateImpl_def)
  next
    case enumerateEnrollments
    with refused_ok [OF assms(1)] assms e q show ?thesis
      by (auto simp: run_task_def enumerateEnrollmentsImpl_def engine_ok_def call_def
          split: list.split prod.split fingerprint_msg.split)
  next
    case (removeEnrollments ids)
    show ?thesis
    proof (cases "\<exists>t code q. mMessageQueue e = (t, FINGERPRINT_ERROR code) # q")
      case True
      then obtain t code q where m: "mMessageQueue e = (t, FINGERPRINT_ERROR code) # q" by blast
      with e have "engine_ok (e\<lparr>mMessageQueue := q\<rparr>)" "code \<noteq> FINGERPRINT_ERROR_LOCKOUT" by (auto simp: engine_ok_def)
      from refused_ok [OF this] refused_ok [OF assms(1,3)] removeEnrollments m e show ?thesis
        by (simp add: run_task_def removeEnrollmentsImpl_def)
    next
      case False
      with refused_ok [OF assms(1,3)] removeEnrollments assms e q show ?thesis
        by (auto simp: run_task_def removeEnrollmentsImpl_def engine_ok_def call_def
            split: list.split prod.split fingerprint_msg.split)
    qed
  next
    case resetLockout
    with e show ?thesis by (simp add: run_task_def resetLockoutImpl_def clearLockout_def engine_ok_def call_def)
  next
    case detectInteraction
    with assms canc show ?thesis by (simp add: run_task_def)
  next
    case getAuthenticatorId
    with refused_ok [OF assms(1,3)] aw e show ?thesis by (simp add: run_task_def getAuthenticatorIdImpl_def)
  next
    case invalidateAuthenticatorId
    with refused_ok [OF assms(1,3)] aw e show ?thesis by (simp add: run_task_def invalidateAuthenticatorIdImpl_def)
  next
    case generateChallenge
    with refused_ok [OF assms(1,3)] aw e show ?thesis by (simp add: run_task_def generateChallengeImpl_def)
  next
    case (revokeChallenge c)
    with refused_ok [OF assms(1,3)] aw e show ?thesis by (simp add: run_task_def revokeChallengeImpl_def)
  qed
qed

lemma service_inv_engine: "service_inv s \<longleftrightarrow> engine_ok (mEngine s) \<and> list_all task_ok (tasks s)"
  by (auto simp: service_inv_def engine_ok_def)

lemma run_worker_ok:
  assumes "service_inv s" "narrow err \<noteq> FINGERPRINT_ERROR_LOCKOUT"
  shows "\<exists>s'. run_worker env err cancelled s = Some s' \<and> service_inv s'"
proof (cases "tasks s")
  case Nil
  with assms show ?thesis by (simp add: run_worker_def)
next
  case (Cons task rest)
  let ?err = "if running s then 0 else err" and ?c = "cancelled \<and> \<not> running s"
  have "result_ok (run_task env ?err ?c task (mEngine s))"
    by (rule run_task_ok) (use assms Cons in \<open>auto simp: service_inv_engine\<close>)
  then obtain w e where r: "run_task env ?err ?c task (mEngine s) = Some (w, e)" "engine_ok e"
    by (auto simp: result_ok_def)
  with Cons assms show ?thesis by (cases w) (simp_all add: run_worker_def service_inv_engine)
qed

lemma timer_wakes_ok: "service_inv s \<Longrightarrow> \<exists>s'. timer_wakes s = Some s' \<and> service_inv s'"
  by (auto simp: timer_wakes_def lockoutTimerExpired_def clearLockout_def service_inv_engine engine_ok_def call_def)

interpretation service: total_system "service_step env" service_inv op_ok
proof unfold_locales
  fix s x s'
  assume inv: "service_inv s" "op_ok x"
  have "\<exists>s'. service_step env x s = Some s' \<and> service_inv s'"
  proof (cases x)
    case (RunWorker err cancelled)
    with inv run_worker_ok show ?thesis by simp
  next
    case TimerWakes
    with inv timer_wakes_ok show ?thesis by simp
  qed (use inv in \<open>auto simp: service_inv_engine engine_ok_def schedule_def onMessage_def\<close>)
  then show "service_step env x s = Some s' \<Longrightarrow> service_inv s'" "service_step env x s \<noteq> None" by auto
qed

section \<open>Properties\<close>

text \<open>
  C20: while a session is open, no request, message, timer or refusal of the device ends the process,
  in whatever order they come, as long as nobody cancels, the device does not report its own
  lockout, and macs fit the vendor's array.
\<close>

theorem open_session_never_aborts:
  assumes "createSession uid s0 = Some s1" "mMessageQueue (mEngine s0) = []" "tasks s0 = []" "list_all op_ok ops"
  shows "\<exists>s. run (service_step env) ops s1 = Some s \<and> mCb (mEngine s)"
proof -
  have "service_inv s1" using assms(1-3)
    by (auto simp: createSession_def service_inv_def setSessionCallback_def split: if_splits)
  from service.run_total [OF this assms(4)] show ?thesis by (auto simp: service_inv_def)
qed

definition ex_env :: fp_env where
  "ex_env = \<lparr>little_endian = True, hasElapsed = \<lambda>now start ms. start + ms * 1000000 \<le> now, room = \<lambda>ts. length ts < 5\<rparr>"

definition ex_service :: service where
  "ex_service = \<lparr>mEngine = (ex_engine kNone [])\<lparr>mCb := False\<rparr>, mSession = None, tasks = [], running = False\<rparr>"

definition ex_open :: service where
  "ex_open = \<lparr>mEngine = ex_engine kNone [], mSession = Some \<lparr>mUserId = 0, mClosed = False, mDeathRecipient = True\<rparr>,
     tasks = [], running = False\<rparr>"

lemma ex_created: "createSession 0 ex_service = Some ex_open"
  by (simp add: createSession_def ex_service_def ex_open_def ex_engine_def setSessionCallback_def)

theorem open_session_never_aborts_witness:
  "\<exists>s. run (service_step ex_env) [Request (authenticate 1), RunWorker 0 False, Message 1 (FINGERPRINT_AUTHENTICATED 0 ex_hat),
      RunWorker 0 False, TimerWakes] ex_open = Some s \<and> mCb (mEngine s)"
  by (rule open_session_never_aborts [OF ex_created]) (simp_all add: ex_service_def ex_engine_def)

text \<open>
  closing a session while a request is still queued ends the process when the worker gets to
  it: every task that is not already cancelled checks the callback that \<open>close\<close> took away.
\<close>

theorem closing_with_queued_task_aborts:
  assumes "mSession s = Some ses" "mDeathRecipient ses" "\<not> running s" "tasks s = task # rest"
  shows "\<exists>s'. close s = Some s' \<and>
    (run_worker env err cancelled s' = None \<longleftrightarrow>
       task \<noteq> detectInteraction \<and> \<not> (cancelled \<and> ((\<exists>tok hat. task = enroll tok hat) \<or> (\<exists>op. task = authenticate op))))"
  using assms
  by (cases task) (auto simp: close_def run_worker_def run_task_def setSessionCallback_def call_def
      generateChallengeImpl_def revokeChallengeImpl_def enrollImpl_def authenticateImpl_def enumerateEnrollmentsImpl_def
      removeEnrollmentsImpl_def getAuthenticatorIdImpl_def invalidateAuthenticatorIdImpl_def resetLockoutImpl_def clearLockout_def)

theorem closing_with_queued_task_aborts_witness:
  "run (service_step ex_env) [Request generateChallenge, Close, RunWorker 0 False] ex_open = None"
  using closing_with_queued_task_aborts [of "schedule ex_env generateChallenge ex_open"
      "\<lparr>mUserId = 0, mClosed = False, mDeathRecipient = True\<rparr>" generateChallenge "[]" ex_env 0 False]
  by (auto simp: ex_open_def schedule_def ex_env_def)

text \<open>
  a lockout timer that wakes up after the session was closed ends the process, unless the
  lock was reset in the meantime: five failures and closing the session are enough.
\<close>

theorem lockout_timer_after_close_aborts:
  assumes "mSession s = Some ses" "mDeathRecipient ses" "\<not> running s" "0 < timers (mEngine s)"
  shows "\<exists>s'. close s = Some s' \<and> (timer_wakes s' = None \<longleftrightarrow> \<not> isLockoutTimerAborted (mEngine s))"
  using assms by (auto simp: close_def timer_wakes_def lockoutTimerExpired_def clearLockout_def setSessionCallback_def call_def)

definition ex_locked :: service where
  "ex_locked = ex_open\<lparr>mEngine := (ex_engine kTimed [])\<lparr>mLockoutTracker := \<lparr>mFailedCount = 5, mFailedCountTimed = 5,
     mLockoutTimedStart = 5, mCurrentMode = kTimed\<rparr>, isLockoutTimerStarted := True, timers := 1,
     callbacks := [onAuthenticationFailed, onAuthenticationFailed, onAuthenticationFailed, onAuthenticationFailed,
       onAuthenticationFailed, onLockoutTimed 10000]\<rparr>\<rparr>"

lemma ex_lock_run:
  "run (service_step ex_env) (Request (authenticate 1) # map (\<lambda>t. Message t (FINGERPRINT_AUTHENTICATED 0 ex_hat)) [1, 2, 3, 4, 5] @
     [RunWorker 0 False]) ex_open = Some ex_locked"
  by (simp add: ex_open_def ex_env_def ex_locked_def schedule_def onMessage_def run_worker_def run_task_def engine_eval
      startLockoutTimer_def getLockoutTimeLeft_def quot_def)

theorem lockout_timer_after_close_aborts_witness:
  "\<exists>s s'. run (service_step ex_env) (Request (authenticate 1) # map (\<lambda>t. Message t (FINGERPRINT_AUTHENTICATED 0 ex_hat)) [1, 2, 3, 4, 5] @
     [RunWorker 0 False]) ex_open = Some s \<and> close s = Some s' \<and> timer_wakes s' = None"
proof -
  from lockout_timer_after_close_aborts [of ex_locked "\<lparr>mUserId = 0, mClosed = False, mDeathRecipient = True\<rparr>"]
  obtain s' where "close ex_locked = Some s' \<and> timer_wakes s' = None"
    by (auto simp: ex_locked_def ex_open_def ex_engine_def)
  with ex_lock_run show ?thesis by blast
qed

end
