(* ===== verification/SkipList.thy ===== *)
theory SkipList
  imports Prelude
begin

text \<open>
  \<^verbatim>\<open>gps/utils/SkipList.h\<close>: one list of all the items in the order they arrived, threaded by one
  chain of iterators per level, with a head and a tail iterator for each level.

  A node of the \<open>std::list\<close> is a pair of its identity and its contents, and an iterator is the
  identity of the node it points to, \<open>None\<close> being \<open>end()\<close>.  An operation returns \<open>None\<close> where
  the code has undefined behaviour: an index outside a vector, \<open>end()\<close> or an erased node
  dereferenced, \<open>front()\<close> of an empty list.  The abstract contents are the list of data and
  level in arrival order; every operation is shown to do on it what its name says.
\<close>

section \<open>Data\<close>

type_synonym iter = "nat option"

record 'a skip_node =
  mLevel :: int
  mData :: 'a
  mNextInLevel :: iter

record 'a skip_list =
  mMainList :: "(nat \<times> 'a skip_node) list"
  mHeadVec :: "iter list"
  mTailVec :: "iter list"
  fresh :: nat

text \<open>The indexing operator of a vector, and the dereferenced iterator.\<close>

definition vec_at :: "'b list \<Rightarrow> int \<Rightarrow> 'b option" where
  "vec_at v l = (if 0 \<le> l \<and> nat l < length v then Some (v ! nat l) else None)"

definition deref :: "'a skip_list \<Rightarrow> iter \<Rightarrow> 'a skip_node option" where
  "deref s it = Option.bind it (map_of (mMainList s))"

definition set_next :: "nat \<Rightarrow> iter \<Rightarrow> (nat \<times> 'a skip_node) list \<Rightarrow> (nat \<times> 'a skip_node) list" where
  "set_next j it ms = map (\<lambda>(k, n). (k, if k = j then n\<lparr>mNextInLevel := it\<rparr> else n)) ms"

section \<open>Operations\<close>

definition skip_init :: "nat \<Rightarrow> 'a skip_list" where
  "skip_init totalLevels = \<lparr>mMainList = [], mHeadVec = replicate totalLevels None,
     mTailVec = replicate totalLevels None, fresh = 0\<rparr>"

definition skip_append :: "'a \<Rightarrow> int \<Rightarrow> 'a skip_list \<Rightarrow> 'a skip_list option" where
  "skip_append data level s =
     (if level < 0 \<or> nat level \<ge> length (mHeadVec s) then Some s
      else let it = fresh s;
               main = mMainList s @
                 [(it, \<lparr>mLevel = level, mData = data, mNextInLevel = None\<rparr>)]
           in do {
             h \<leftarrow> vec_at (mHeadVec s) level;
             s' \<leftarrow> (case h of
                 None \<Rightarrow> Some (s\<lparr>mMainList := main, fresh := Suc it,
                                mHeadVec := (mHeadVec s)[nat level := Some it]\<rparr>)
               | Some _ \<Rightarrow> do {
                   t \<leftarrow> vec_at (mTailVec s) level;
                   j \<leftarrow> t;
                   _ \<leftarrow> map_of main j;
                   Some (s\<lparr>mMainList := set_next j (Some it) main, fresh := Suc it\<rparr>) });
             Some (s'\<lparr>mTailVec := (mTailVec s')[nat level := Some it]\<rparr>) })"

definition skip_pop_level :: "int \<Rightarrow> 'a skip_list \<Rightarrow> 'a skip_list option" where
  "skip_pop_level level s = do {
     h \<leftarrow> vec_at (mHeadVec s) level;
     case h of
       None \<Rightarrow> Some s
     | Some i \<Rightarrow> do {
         n \<leftarrow> deref s h;
         let s1 = (if mNextInLevel n = None
                   then s\<lparr>mTailVec := (mTailVec s)[nat level := None]\<rparr> else s);
         let tmp_iter = mNextInLevel n;
         let s2 = s1\<lparr>mMainList := remove_first (\<lambda>m. fst m = i) (mMainList s1)\<rparr>;
         Some (s2\<lparr>mHeadVec := (mHeadVec s2)[nat level := tmp_iter]\<rparr>) } }"

definition skip_pop :: "'a skip_list \<Rightarrow> 'a skip_list option" where
  "skip_pop s = (case mMainList s of [] \<Rightarrow> None
                 | (_, n) # _ \<Rightarrow> skip_pop_level (mLevel n) s)"

definition skip_front :: "int \<Rightarrow> 'a skip_list \<Rightarrow> 'a option" where
  "skip_front level s = do {
     h \<leftarrow> vec_at (mHeadVec s) level;
     n \<leftarrow> deref s h;
     Some (mData n) }"

definition skip_size :: "'a skip_list \<Rightarrow> nat" where
  "skip_size s = length (mMainList s)"

definition skip_flush :: "'a skip_list \<Rightarrow> 'a skip_list" where
  "skip_flush s = s\<lparr>mMainList := [], mHeadVec := map (\<lambda>_. None) (mHeadVec s),
                     mTailVec := map (\<lambda>_. None) (mTailVec s)\<rparr>"

definition skip_dump_all :: "'a skip_list \<Rightarrow> ('a \<times> int) list" where
  "skip_dump_all s = map (\<lambda>(_, n). (mData n, mLevel n)) (mMainList s)"

text \<open>The loop follows the chain of the level; \<open>None\<close> when it never ends, too.\<close>

partial_function (option) chain_from :: "'a skip_list \<Rightarrow> iter \<Rightarrow> ('a \<times> int) list option" where
  "chain_from s head =
     (if head = None then Some []
      else do {
        n \<leftarrow> deref s head;
        rest \<leftarrow> chain_from s (mNextInLevel n);
        Some ((mData n, mLevel n) # rest) })"

definition skip_dump_level :: "int \<Rightarrow> 'a skip_list \<Rightarrow> ('a \<times> int) list option" where
  "skip_dump_level level s = Option.bind (vec_at (mHeadVec s) level) (chain_from s)"

section \<open>The invariant\<close>

definition ids_at :: "int \<Rightarrow> (nat \<times> 'a skip_node) list \<Rightarrow> nat list" where
  "ids_at l ms = map fst (filter (\<lambda>m. mLevel (snd m) = l) ms)"

definition first_at :: "int \<Rightarrow> (nat \<times> 'a skip_node) list \<Rightarrow> iter" where
  "first_at l ms = (case ids_at l ms of [] \<Rightarrow> None | i # _ \<Rightarrow> Some i)"

definition last_at :: "int \<Rightarrow> (nat \<times> 'a skip_node) list \<Rightarrow> iter" where
  "last_at l ms = (if ids_at l ms = [] then None else Some (last (ids_at l ms)))"

text \<open>Every node points to the next node of its level.\<close>

fun threaded :: "(nat \<times> 'a skip_node) list \<Rightarrow> bool" where
  "threaded [] = True"
| "threaded ((i, n) # ms) = (mNextInLevel n = first_at (mLevel n) ms \<and> threaded ms)"

definition skip_ok :: "'a skip_list \<Rightarrow> bool" where
  "skip_ok s = (distinct (map fst (mMainList s))
     \<and> (\<forall>m\<in>set (mMainList s). fst m < fresh s \<and> 0 \<le> mLevel (snd m)
            \<and> nat (mLevel (snd m)) < length (mHeadVec s))
     \<and> threaded (mMainList s)
     \<and> length (mTailVec s) = length (mHeadVec s)
     \<and> (\<forall>l < length (mHeadVec s). mHeadVec s ! l = first_at (int l) (mMainList s)
            \<and> mTailVec s ! l = last_at (int l) (mMainList s)))"

text \<open>The abstract contents of one level.\<close>

definition items_at :: "int \<Rightarrow> 'a skip_list \<Rightarrow> 'a list" where
  "items_at l s = map fst (filter (\<lambda>x. snd x = l) (skip_dump_all s))"

lemma ids_at_simps [simp]:
  "ids_at l [] = []"
  "ids_at l (m # ms) = (if mLevel (snd m) = l then fst m # ids_at l ms else ids_at l ms)"
  "ids_at l (xs @ ys) = ids_at l xs @ ids_at l ys"
  by (simp_all add: ids_at_def)

lemma ids_at_subset: "i \<in> set (ids_at l ms) \<Longrightarrow> i \<in> fst ` set ms"
  by (auto simp: ids_at_def)

lemma first_at_simps [simp]:
  "first_at l [] = None"
  "first_at l (m # ms) = (if mLevel (snd m) = l then Some (fst m) else first_at l ms)"
  "first_at l (xs @ ys) = (case first_at l xs of None \<Rightarrow> first_at l ys | Some i \<Rightarrow> Some i)"
  by (simp_all add: first_at_def split: list.splits)

lemma first_at_None: "first_at l ms = None \<longleftrightarrow> ids_at l ms = []"
  by (simp add: first_at_def split: list.splits)

lemma last_at_simps [simp]:
  "last_at l [] = None"
  "last_at l (xs @ ys) = (case last_at l ys of None \<Rightarrow> last_at l xs | Some i \<Rightarrow> Some i)"
  by (auto simp: last_at_def)

lemma last_at_None: "last_at l ms = None \<longleftrightarrow> ids_at l ms = []"
  by (simp add: last_at_def)

lemma last_at_in: "last_at l ms = Some j \<Longrightarrow> j \<in> set (ids_at l ms)"
  by (auto simp: last_at_def split: if_splits)

lemma ids_at_levels: "ids_at l ms \<noteq> [] \<longleftrightarrow> (\<exists>m\<in>set ms. mLevel (snd m) = l)"
  by (auto simp: ids_at_def filter_empty_conv)

section \<open>The chain of a level\<close>

lemma map_of_mid: "distinct (map fst (xs @ (i, n) # ys)) \<Longrightarrow> map_of (xs @ (i, n) # ys) i = Some n"
  by (rule map_of_is_SomeI) auto

lemma set_next_simps [simp]:
  "set_next j it [] = []"
  "set_next j it (m # ms) = (fst m, if fst m = j then (snd m)\<lparr>mNextInLevel := it\<rparr> else snd m)
     # set_next j it ms"
  "set_next j it (xs @ ys) = set_next j it xs @ set_next j it ys"
  by (auto simp: set_next_def split: prod.splits)

lemma set_next_ids [simp]: "ids_at l (set_next j it ms) = ids_at l ms"
  by (induction ms) auto

lemma set_next_fst [simp]: "map fst (set_next j it ms) = map fst ms"
  by (induction ms) auto

lemma set_next_first [simp]: "first_at l (set_next j it ms) = first_at l ms"
  by (simp add: first_at_def)

lemma set_next_last [simp]: "last_at l (set_next j it ms) = last_at l ms"
  by (simp add: last_at_def)

lemma set_next_absent: "j \<notin> fst ` set ms \<Longrightarrow> set_next j it ms = ms"
  by (induction ms) auto

lemma set_next_mem:
  "m \<in> set (set_next j it ms) \<Longrightarrow>
     \<exists>m'\<in>set ms. fst m = fst m' \<and> mLevel (snd m) = mLevel (snd m') \<and> mData (snd m) = mData (snd m')"
  by (induction ms) auto

lemma set_next_dump [simp]:
  "map (\<lambda>(_, n). (mData n, mLevel n)) (set_next j it ms) = map (\<lambda>(_, n). (mData n, mLevel n)) ms"
  by (induction ms) auto

text \<open>A new node at the end: the last node of its level, if any, is made to point to it.\<close>

lemma threaded_snoc_first:
  assumes "threaded ms" "ids_at l ms = []" "mLevel n = l" "mNextInLevel n = None"
  shows "threaded (ms @ [(i, n)])"
  using assms by (induction ms) (auto split: if_splits option.splits)

lemma threaded_snoc_next:
  assumes "threaded ms" "last_at l ms = Some j" "mLevel n = l" "mNextInLevel n = None"
    and "distinct (map fst ms)" "i \<notin> fst ` set ms"
  shows "threaded (set_next j (Some i) (ms @ [(i, n)]))"
  using assms
proof (induction ms)
  case (Cons m ms)
  obtain k nk where m: "m = (k, nk)" by (cases m)
  have ji: "j \<noteq> i" using Cons.prems(2,6) last_at_in [of l "m # ms" j] ids_at_subset by fastforce
  show ?case
  proof (cases "ids_at l ms = []")
    case True
    with Cons.prems m have lk: "mLevel nk = l" "j = k"
      by (auto simp: last_at_def split: if_splits)
    have "threaded (ms @ [(i, n)])"
      using threaded_snoc_first [of ms l n i] True Cons.prems(1,3,4) m by simp
    moreover have "set_next j (Some i) ms = ms"
      using Cons.prems(5) m lk by (intro set_next_absent) auto
    moreover have "first_at l ms = None" using True by (simp add: first_at_None)
    ultimately show ?thesis using m lk ji Cons.prems(3,4) by simp
  next
    case False
    then have lj: "last_at l ms = Some j"
      using Cons.prems(2) by (auto simp: last_at_def split: if_splits)
    then have "j \<in> fst ` set ms" using last_at_in ids_at_subset by blast
    then have jk: "j \<noteq> k" using Cons.prems(5) m by auto
    have ih: "threaded (set_next j (Some i) (ms @ [(i, n)]))"
      using Cons.IH lj Cons.prems m by simp
    have nx: "mNextInLevel nk = first_at (mLevel nk) ms" using Cons.prems(1) m by simp
    show ?thesis
    proof (cases "mLevel nk = l")
      case True
      moreover obtain f where "first_at l ms = Some f"
        using False by (metis first_at_None option.exhaust)
      ultimately show ?thesis using m jk ji ih nx by simp
    next
      case other: False
      then show ?thesis using m jk ji ih nx Cons.prems(3) by (simp split: option.splits)
    qed
  qed
qed simp

text \<open>The first node of a level removed.\<close>

lemma threaded_remove:
  assumes "threaded (xs @ (i, n) # ys)" "ids_at (mLevel n) xs = []"
  shows "threaded (xs @ ys)"
  using assms by (induction xs) (auto split: if_splits option.splits)

lemma threaded_mid: "threaded (xs @ (i, n) # ys) \<Longrightarrow> mNextInLevel n = first_at (mLevel n) ys"
  by (induction xs) auto

lemma first_at_split:
  assumes "first_at l ms = Some i"
  obtains xs n ys where "ms = xs @ (i, n) # ys" "mLevel n = l" "ids_at l xs = []"
proof -
  from assms have "\<exists>xs n ys. ms = xs @ (i, n) # ys \<and> mLevel n = l \<and> ids_at l xs = []"
  proof (induction ms)
    case (Cons m ms)
    obtain k nk where m: "m = (k, nk)" by (cases m)
    show ?case
    proof (cases "mLevel nk = l")
      case True
      with Cons.prems m show ?thesis by (intro exI [of _ "[]"]) auto
    next
      case False
      with Cons m obtain xs n ys where "ms = xs @ (i, n) # ys" "mLevel n = l" "ids_at l xs = []"
        by auto
      with False m show ?thesis by (intro exI [of _ "m # xs"]) auto
    qed
  qed simp
  with that show ?thesis by blast
qed

section \<open>Every operation keeps the invariant\<close>

lemma skip_ok_init: "skip_ok (skip_init n)"
  by (simp add: skip_ok_def skip_init_def)

lemma skip_okD:
  assumes "skip_ok s"
  shows "distinct (map fst (mMainList s))" "threaded (mMainList s)"
    "length (mTailVec s) = length (mHeadVec s)"
    "m \<in> set (mMainList s) \<Longrightarrow> fst m < fresh s"
    "m \<in> set (mMainList s) \<Longrightarrow> 0 \<le> mLevel (snd m)"
    "m \<in> set (mMainList s) \<Longrightarrow> nat (mLevel (snd m)) < length (mHeadVec s)"
    "0 \<le> l \<Longrightarrow> nat l < length (mHeadVec s) \<Longrightarrow>
       vec_at (mHeadVec s) l = Some (first_at l (mMainList s))"
    "0 \<le> l \<Longrightarrow> nat l < length (mHeadVec s) \<Longrightarrow>
       vec_at (mTailVec s) l = Some (last_at l (mMainList s))"
  using assms by (auto simp: skip_ok_def vec_at_def)

lemma skip_fresh: "skip_ok s \<Longrightarrow> fresh s \<notin> fst ` set (mMainList s)"
  using skip_okD(4) by fastforce

lemma skip_append_ok:
  assumes ok: "skip_ok s" and l: "0 \<le> l" "nat l < length (mHeadVec s)"
  obtains s' where "skip_append d l s = Some s'" "skip_ok s'"
    "length (mHeadVec s') = length (mHeadVec s)" "skip_dump_all s' = skip_dump_all s @ [(d, l)]"
proof -
  note D = skip_okD [OF ok]
  define n where "n = \<lparr>mLevel = l, mData = d, mNextInLevel = None :: iter\<rparr>"
  have n: "mLevel n = l" "mNextInLevel n = None" "mData n = d" by (simp_all add: n_def)
  have hd: "vec_at (mHeadVec s) l = Some (first_at l (mMainList s))" using D(7) l by simp
  have tl: "vec_at (mTailVec s) l = Some (last_at l (mMainList s))" using D(8) l by simp
  show thesis
  proof (cases "first_at l (mMainList s)")
    case None
    then have ids: "ids_at l (mMainList s) = []" by (simp add: first_at_None)
    let ?s = "s\<lparr>mMainList := mMainList s @ [(fresh s, n)], fresh := Suc (fresh s),
        mHeadVec := (mHeadVec s)[nat l := Some (fresh s)],
        mTailVec := (mTailVec s)[nat l := Some (fresh s)]\<rparr>"
    have "skip_append d l s = Some ?s"
      using l hd None by (simp add: skip_append_def n_def [symmetric] Let_def)
    moreover have "skip_ok ?s"
      using ok ids None skip_fresh [OF ok] l n threaded_snoc_first [OF D(2) ids n(1,2)]
      by (auto simp: skip_ok_def nth_list_update less_Suc_eq last_at_def split: option.splits)
    ultimately show thesis using that n by (simp add: skip_dump_all_def)
  next
    case (Some f)
    then have ne: "ids_at l (mMainList s) \<noteq> []" using first_at_None [of l "mMainList s"] by simp
    then obtain j where j: "last_at l (mMainList s) = Some j" by (simp add: last_at_def)
    then have "j \<in> fst ` set (mMainList s)" using last_at_in ids_at_subset by blast
    then obtain nj where nj: "map_of (mMainList s) j = Some nj"
      by (metis map_of_eq_None_iff not_Some_eq)
    have ji: "j \<noteq> fresh s" using \<open>j \<in> fst ` set (mMainList s)\<close> skip_fresh [OF ok] by metis
    let ?m = "set_next j (Some (fresh s)) (mMainList s @ [(fresh s, n)])"
    let ?s = "s\<lparr>mMainList := ?m, fresh := Suc (fresh s),
        mTailVec := (mTailVec s)[nat l := Some (fresh s)]\<rparr>"
    have "skip_append d l s = Some ?s"
      using l hd tl Some j nj ji
      by (simp add: skip_append_def n_def [symmetric] Let_def map_add_def
          del: set_next_simps)
    moreover have "skip_ok ?s"
    proof -
      have "threaded ?m" using threaded_snoc_next [OF D(2) j n(1,2) D(1) skip_fresh [OF ok]] .
      moreover have "distinct (map fst ?m)" using D(1) skip_fresh [OF ok] by simp
      moreover have "\<forall>m\<in>set ?m. fst m < Suc (fresh s) \<and> 0 \<le> mLevel (snd m)
            \<and> nat (mLevel (snd m)) < length (mHeadVec s)"
      proof
        fix m assume "m \<in> set ?m"
        from set_next_mem [OF this] D(4,5,6) n l
        show "fst m < Suc (fresh s) \<and> 0 \<le> mLevel (snd m)
            \<and> nat (mLevel (snd m)) < length (mHeadVec s)"
          by (fastforce simp: less_Suc_eq)
      qed
      moreover have "\<forall>k < length (mHeadVec s). mHeadVec s ! k = first_at (int k) ?m
          \<and> (mTailVec s)[nat l := Some (fresh s)] ! k = last_at (int k) ?m"
        using ok l n Some by (auto simp: skip_ok_def nth_list_update last_at_def split: option.splits)
      ultimately show ?thesis using D(3) unfolding skip_ok_def by simp
    qed
    ultimately show thesis using that n by (simp add: skip_dump_all_def)
  qed
qed

lemma skip_pop_level_empty:
  assumes "skip_ok s" "0 \<le> l" "nat l < length (mHeadVec s)" "ids_at l (mMainList s) = []"
  shows "skip_pop_level l s = Some s"
  using skip_okD(7) [OF assms(1-3)] assms(4) by (simp add: skip_pop_level_def first_at_def)

lemma dump_split:
  "mMainList s = xs @ (i, n) # ys \<Longrightarrow> ids_at (mLevel n) xs = [] \<Longrightarrow>
     remove_first (\<lambda>x. snd x = mLevel n) (skip_dump_all s)
       = map (\<lambda>(_, n). (mData n, mLevel n)) (xs @ ys)"
  unfolding skip_dump_all_def map_append list.map
  by (simp, rule remove_first_split) (auto simp: ids_at_def filter_empty_conv)

lemma skip_pop_level_ok:
  assumes ok: "skip_ok s" and l: "0 \<le> l" "nat l < length (mHeadVec s)"
    and ne: "ids_at l (mMainList s) \<noteq> []"
  obtains s' where "skip_pop_level l s = Some s'" "skip_ok s'"
    "length (mHeadVec s') = length (mHeadVec s)"
    "skip_dump_all s' = remove_first (\<lambda>x. snd x = l) (skip_dump_all s)"
proof -
  note D = skip_okD [OF ok]
  obtain i where i: "first_at l (mMainList s) = Some i"
    using ne by (metis first_at_None option.exhaust)
  then obtain xs n ys where sp: "mMainList s = xs @ (i, n) # ys" "mLevel n = l" "ids_at l xs = []"
    by (rule first_at_split)
  have hd: "vec_at (mHeadVec s) l = Some (Some i)" using D(7) l i by simp
  have nd: "deref s (Some i) = Some n"
    using map_of_mid [of xs i n ys] D(1) unfolding deref_def sp(1) by simp
  have nx: "mNextInLevel n = first_at l ys" using threaded_mid D(2) sp by metis
  have rm: "remove_first (\<lambda>m. fst m = i) (mMainList s) = xs @ ys"
    unfolding sp(1) using D(1) sp(1) by (intro remove_first_split) auto
  let ?s = "s\<lparr>mMainList := xs @ ys, mHeadVec := (mHeadVec s)[nat l := first_at l ys],
      mTailVec := (if first_at l ys = None then (mTailVec s)[nat l := None] else mTailVec s)\<rparr>"
  have "skip_pop_level l s = Some ?s"
    by (simp add: skip_pop_level_def hd nd nx rm Let_def)
  moreover have "skip_ok ?s"
  proof -
    have x: "first_at l xs = None" "last_at l xs = None" using sp(3)
      by (simp_all add: first_at_None last_at_None)
    have t: "threaded (xs @ ys)" using threaded_remove D(2) sp by metis
    have tails: "(if first_at l ys = None then (mTailVec s)[nat l := None] else mTailVec s) ! k
        = last_at (int k) (xs @ ys)" if "k < length (mHeadVec s)" for k
    proof -
      have old: "mTailVec s ! k = last_at (int k) (xs @ (i, n) # ys)"
        using ok that by (simp add: skip_ok_def sp(1))
      show ?thesis
        using old that D(3) l sp(2) x first_at_None [of l ys]
        by (auto simp: nth_list_update last_at_def split: if_splits)
    qed
    have heads: "(mHeadVec s)[nat l := first_at l ys] ! k = first_at (int k) (xs @ ys)"
      if "k < length (mHeadVec s)" for k
      using ok that l x by (auto simp: skip_ok_def sp(1,2) nth_list_update split: option.splits)
    show ?thesis using D(1,3,4,5,6) t heads tails unfolding skip_ok_def sp(1) by auto
  qed
  moreover have "skip_dump_all ?s = remove_first (\<lambda>x. snd x = l) (skip_dump_all s)"
    using dump_split [OF sp(1)] sp(2,3) by (simp add: skip_dump_all_def)
  ultimately show thesis using that by simp
qed

lemma skip_front_ok:
  assumes ok: "skip_ok s" and l: "0 \<le> l" "nat l < length (mHeadVec s)"
  shows "skip_front l s = (case items_at l s of [] \<Rightarrow> None | d # _ \<Rightarrow> Some d)"
proof (cases "first_at l (mMainList s)")
  case None
  then have "items_at l s = []"
    by (auto simp: first_at_None items_at_def skip_dump_all_def ids_at_def filter_empty_conv)
  then show ?thesis using skip_okD(7) [OF ok l] None by (simp add: skip_front_def deref_def)
next
  case (Some i)
  then obtain xs n ys where sp: "mMainList s = xs @ (i, n) # ys" "mLevel n = l" "ids_at l xs = []"
    by (rule first_at_split)
  have "deref s (Some i) = Some n"
    using map_of_mid [of xs i n ys] skip_okD(1) [OF ok] unfolding deref_def sp(1) by simp
  moreover have "filter (\<lambda>x. snd x = l) (map (\<lambda>(_, n). (mData n, mLevel n)) xs) = []"
    using sp(3) by (auto simp: ids_at_def filter_empty_conv)
  ultimately show ?thesis using skip_okD(7) [OF ok l] Some sp(1,2)
    by (simp add: skip_front_def items_at_def skip_dump_all_def)
qed

text \<open>The chain of a level holds the items of that level, in order.\<close>

lemma chain_from_ok:
  assumes "skip_ok s" "mMainList s = xs @ ys"
  shows "chain_from s (first_at l ys)
    = Some (filter (\<lambda>x. snd x = l) (map (\<lambda>(_, n). (mData n, mLevel n)) ys))"
  using assms(2)
proof (induction ys arbitrary: xs)
  case Nil
  then show ?case by (simp add: chain_from.simps)
next
  case (Cons m ys)
  obtain i n where m: "m = (i, n)" by (cases m)
  have ih: "chain_from s (first_at l ys)
      = Some (filter (\<lambda>x. snd x = l) (map (\<lambda>(_, n). (mData n, mLevel n)) ys))"
    by (rule Cons.IH [of "xs @ [m]"]) (use Cons.prems in simp)
  show ?case
  proof (cases "mLevel n = l")
    case True
    have "deref s (Some i) = Some n"
      using map_of_mid [of xs i n ys] skip_okD(1) [OF assms(1)] Cons.prems m
      unfolding deref_def by simp
    moreover have "mNextInLevel n = first_at l ys"
      using threaded_mid [of xs i n ys] skip_okD(2) [OF assms(1)] Cons.prems m True by simp
    ultimately show ?thesis using True m ih by (simp add: chain_from.simps [of s "Some i"])
  qed (use ih m in simp)
qed

lemma skip_dump_level_ok:
  assumes "skip_ok s" "0 \<le> l" "nat l < length (mHeadVec s)"
  shows "skip_dump_level l s = Some (filter (\<lambda>x. snd x = l) (skip_dump_all s))"
  using skip_okD(7) [OF assms] chain_from_ok [of s "[]" "mMainList s" l] assms(1)
  by (simp add: skip_dump_level_def skip_dump_all_def)

lemma skip_ok_flush: "skip_ok s \<Longrightarrow> skip_ok (skip_flush s)"
  by (simp add: skip_ok_def skip_flush_def)

text \<open>\<open>pop()\<close> removes the oldest item of all.\<close>

lemma skip_pop_ok:
  assumes ok: "skip_ok s" and ne: "mMainList s \<noteq> []"
  obtains s' where "skip_pop s = Some s'" "skip_ok s'" "skip_dump_all s' = tl (skip_dump_all s)"
proof -
  obtain i n ms where ms: "mMainList s = (i, n) # ms" using ne by (cases "mMainList s") auto
  have l: "0 \<le> mLevel n" "nat (mLevel n) < length (mHeadVec s)"
    using skip_okD(5,6) [OF ok, of "(i, n)"] ms by simp_all
  have "ids_at (mLevel n) (mMainList s) \<noteq> []" by (simp add: ms)
  from skip_pop_level_ok [OF ok l this] obtain s' where
    "skip_pop_level (mLevel n) s = Some s'" "skip_ok s'"
    "skip_dump_all s' = remove_first (\<lambda>x. snd x = mLevel n) (skip_dump_all s)" by blast
  then show thesis using that ms by (simp add: skip_pop_def skip_dump_all_def)
qed

lemma pop_level_shrinks:
  assumes "skip_front l s = Some d" "skip_pop_level l s = Some s'"
  shows "length (mMainList s') < length (mMainList s)"
proof -
  obtain i n where h: "vec_at (mHeadVec s) l = Some (Some i)" "map_of (mMainList s) i = Some n"
    using assms(1) by (auto simp: skip_front_def deref_def bind_eq_Some_conv)
  have main: "mMainList s' = remove_first (\<lambda>m. fst m = i) (mMainList s)"
    using assms(2) h by (auto simp: skip_pop_level_def deref_def Let_def)
  have "\<exists>m\<in>set ms. fst m = i \<Longrightarrow> length (remove_first (\<lambda>m. fst m = i) ms) < length ms" for ms :: "(nat \<times> 'a skip_node) list"
    by (induction ms) auto
  then show ?thesis using main map_of_SomeD [OF h(2)] by (metis fst_conv)
qed

text \<open>
  Following the chain of a level ends, and visits exactly the items of that level in the order
  they arrived.
\<close>

theorem dump_follows_chain:
  assumes "skip_ok s" "0 \<le> l" "nat l < length (mHeadVec s)"
  shows "skip_dump_level l s = Some (filter (\<lambda>x. snd x = l) (skip_dump_all s))"
  using assms by (rule skip_dump_level_ok)

definition example_skip :: "nat skip_list" where
  "example_skip = the (skip_append 30 1 (the (skip_append 20 0 (the (skip_append 10 1 (skip_init 2))))))"

lemma example_skip_ok: "skip_ok example_skip" "length (mHeadVec example_skip) = 2"
proof -
  have i: "skip_ok (skip_init 2)" "length (mHeadVec (skip_init 2)) = 2"
    by (simp_all add: skip_ok_init) (simp add: skip_init_def)
  obtain a :: "nat skip_list" where a: "skip_append 10 1 (skip_init 2) = Some a" "skip_ok a"
    "length (mHeadVec a) = 2"
    by (rule skip_append_ok [OF i(1), of 1 10]) (simp_all add: i(2))
  obtain b where b: "skip_append 20 0 a = Some b" "skip_ok b" "length (mHeadVec b) = 2"
    by (rule skip_append_ok [OF a(2), of 0 20]) (simp_all add: a(3))
  obtain c where c: "skip_append 30 1 b = Some c" "skip_ok c" "length (mHeadVec c) = 2"
    by (rule skip_append_ok [OF b(2), of 1 30]) (simp_all add: b(3))
  show "skip_ok example_skip" "length (mHeadVec example_skip) = 2"
    by (simp_all add: example_skip_def a(1) b(1) c)
qed

theorem dump_follows_chain_witness: "skip_dump_level 1 example_skip = Some [(10, 1), (30, 1)]"
proof -
  have "filter (\<lambda>x. snd x = 1) (skip_dump_all example_skip) = [(10, 1), (30, 1)]" by code_simp
  then show ?thesis using dump_follows_chain [OF example_skip_ok(1), of 1] example_skip_ok(2) by simp
qed

end
