(* ===== verification/LogBuffer.thy ===== *)
theory LogBuffer
  imports SkipList Decimal
begin

text \<open>
  \<^verbatim>\<open>gps/utils/LogBuffer.cpp\<close>: the last log lines of each of the five levels, kept in a skip
  list and bounded per level by age and by number.

  Seconds are \<open>uint64_t\<close> and their difference wraps; \<open>mCurrentSize\<close> is an \<open>int\<close> that the
  loop compares with an \<open>uint32_t\<close>, so as unsigned numbers.  An operation is \<open>None\<close> where
  the code's behaviour is undefined.
\<close>

section \<open>Data\<close>

record level_config =
  mTimeDepthThres :: u32
  mMaxNumThres :: u32
  mCurrentSize :: i32

record log_buffer =
  mLogList :: "(u64 \<times> string) skip_list"
  mConfigVec :: "level_config list"

definition TOTAL_LOG_LEVELS :: nat where "TOTAL_LOG_LEVELS = 5"
definition TIME_DEPTH_THRESHOLD_MINIMAL_IN_SEC :: u32 where
  "TIME_DEPTH_THRESHOLD_MINIMAL_IN_SEC = 60"
definition MAXIMUM_NUM_IN_LIST :: u32 where "MAXIMUM_NUM_IN_LIST = 50"
definition LOG_BUFFER_FILE_PATH :: string where
  "LOG_BUFFER_FILE_PATH = ''/data/vendor/location/''"

definition mLevelMap :: "string list" where
  "mLevelMap = [''E'', ''W'', ''I'', ''D'', ''V'']"

section \<open>Operations\<close>

definition log_buffer_new :: log_buffer where
  "log_buffer_new = \<lparr>mLogList = skip_init TOTAL_LOG_LEVELS,
     mConfigVec = replicate TOTAL_LOG_LEVELS
       \<lparr>mTimeDepthThres = TIME_DEPTH_THRESHOLD_MINIMAL_IN_SEC,
        mMaxNumThres = MAXIMUM_NUM_IN_LIST, mCurrentSize = 0\<rparr>\<rparr>"

text \<open>The values read from the configuration file are a parameter: the value of a name, if the
  file has it.\<close>

definition set_config_entry ::
  "(string \<Rightarrow> u32 option) \<Rightarrow> string \<times> string \<Rightarrow> level_config \<Rightarrow> level_config" where
  "set_config_entry conf names c =
     c\<lparr>mTimeDepthThres := (case conf (fst names) of Some v \<Rightarrow> v | None \<Rightarrow> mTimeDepthThres c),
       mMaxNumThres := (case conf (snd names) of Some v \<Rightarrow> v | None \<Rightarrow> mMaxNumThres c)\<rparr>"

definition set_log_buffer_config :: "(string \<Rightarrow> u32 option) \<Rightarrow> log_buffer \<Rightarrow> log_buffer" where
  "set_log_buffer_config conf b = b\<lparr>mConfigVec := map2 (set_config_entry conf)
     [(''E_LEVEL_TIME_DEPTH'', ''E_LEVEL_MAX_CAPACITY''),
      (''W_LEVEL_TIME_DEPTH'', ''W_LEVEL_MAX_CAPACITY''),
      (''I_LEVEL_TIME_DEPTH'', ''I_LEVEL_MAX_CAPACITY''),
      (''D_LEVEL_TIME_DEPTH'', ''D_LEVEL_MAX_CAPACITY''),
      (''V_LEVEL_TIME_DEPTH'', ''V_LEVEL_MAX_CAPACITY'')] (mConfigVec b)\<rparr>"

text \<open>\<open>mCurrentSize++\<close> and \<open>mCurrentSize--\<close> of a level; the overflow of an \<open>int\<close> is
  undefined.\<close>

definition change_size :: "int \<Rightarrow> int \<Rightarrow> log_buffer \<Rightarrow> log_buffer option" where
  "change_size level d b = do {
     c \<leftarrow> vec_at (mConfigVec b) level;
     let v = sint (mCurrentSize c) + d;
     if v < - (2 ^ 31) \<or> 2 ^ 31 \<le> v then None
     else Some (b\<lparr>mConfigVec := (mConfigVec b)
                   [nat level := c\<lparr>mCurrentSize := word_of_int v\<rparr>]\<rparr>) }"

text \<open>The loop of \<open>append\<close>.  \<open>front\<close> is called before the size is looked at.\<close>

function trim_level :: "u64 \<Rightarrow> int \<Rightarrow> log_buffer \<Rightarrow> log_buffer option" where
  "trim_level timestamp level b = do {
     item \<leftarrow> skip_front level (mLogList b);
     c \<leftarrow> vec_at (mConfigVec b) level;
     if timestamp - fst item > ucast (mTimeDepthThres c) \<or> mCurrentSize c > mMaxNumThres c
     then do {
       l \<leftarrow> skip_pop_level level (mLogList b);
       b' \<leftarrow> change_size level (- 1) (b\<lparr>mLogList := l\<rparr>);
       trim_level timestamp level b' }
     else Some b }"
  by pat_completeness auto

termination
proof (relation "measure (\<lambda>(_, _, b). length (mMainList (mLogList b)))", goal_cases)
  case (2 timestamp level b item c l b')
  then have "mLogList b' = l" by (auto simp: change_size_def bind_eq_Some_conv Let_def split: if_splits)
  with 2 show ?case by (auto intro: pop_level_shrinks)
qed simp

declare trim_level.simps [simp del]

definition log_append :: "string \<Rightarrow> int \<Rightarrow> u64 \<Rightarrow> log_buffer \<Rightarrow> log_buffer option" where
  "log_append data level timestamp b = do {
     l \<leftarrow> skip_append (timestamp, data) level (mLogList b);
     b' \<leftarrow> change_size level 1 (b\<lparr>mLogList := l\<rparr>);
     trim_level timestamp level b' }"

text \<open>The counters of the levels keep their values.\<close>

definition log_flush :: "log_buffer \<Rightarrow> log_buffer" where
  "log_flush b = b\<lparr>mLogList := skip_flush (mLogList b)\<rparr>"

text \<open>The lines given to the callback, each ended by a newline.\<close>

definition dump_line :: "(u64 \<times> string) \<times> int \<Rightarrow> string option" where
  "dump_line item = do {
     name \<leftarrow> vec_at mLevelMap (snd item);
     Some (''['' @ show_nat (unat (fst (fst item))) @ ''] Level '' @ name @ '': ''
           @ snd (fst item) @ [CHR 0x0A]) }"

definition dump_header :: "int \<Rightarrow> nat \<Rightarrow> string" where
  "dump_header level n = ''dump log buffer, level['' @ show_int level @ '']''
     @ '', buffer size: '' @ show_nat n @ [CHR 0x0A]"

fun dump_lines :: "((u64 \<times> string) \<times> int) list \<Rightarrow> string list option" where
  "dump_lines [] = Some []"
| "dump_lines (item # li) = do {
     l \<leftarrow> dump_line item; ls \<leftarrow> dump_lines li; Some (l # ls) }"

definition log_dump :: "int \<Rightarrow> log_buffer \<Rightarrow> string list option" where
  "log_dump level b = do {
     li \<leftarrow> (if level = - 1 then Some (skip_dump_all (mLogList b))
           else skip_dump_level level (mLogList b));
     ls \<leftarrow> dump_lines li;
     Some (dump_header level (length li) # ls) }"

section \<open>The invariant\<close>

definition level_ok :: "int \<Rightarrow> bool" where
  "level_ok l = (0 \<le> l \<and> nat l < TOTAL_LOG_LEVELS)"

definition config_of :: "int \<Rightarrow> log_buffer \<Rightarrow> level_config" where
  "config_of l b = mConfigVec b ! nat l"

text \<open>The counter of a level is the number of its items, which its configured maximum bounds.\<close>

definition log_ok :: "log_buffer \<Rightarrow> bool" where
  "log_ok b = (skip_ok (mLogList b) \<and> length (mHeadVec (mLogList b)) = TOTAL_LOG_LEVELS
     \<and> length (mConfigVec b) = TOTAL_LOG_LEVELS
     \<and> (\<forall>l < TOTAL_LOG_LEVELS. let c = mConfigVec b ! l in
           mCurrentSize c = of_nat (length (items_at (int l) (mLogList b)))
         \<and> length (items_at (int l) (mLogList b)) \<le> unat (mMaxNumThres c)
         \<and> unat (mMaxNumThres c) < 2 ^ 31 - 1))"

text \<open>What the loop leaves of a level: the oldest items go while they are too old or too
  many.\<close>

fun expire :: "u64 \<Rightarrow> u32 \<Rightarrow> nat \<Rightarrow> (u64 \<times> string) list \<Rightarrow> (u64 \<times> string) list" where
  "expire now depth cap [] = []"
| "expire now depth cap (x # xs) =
     (if now - fst x > ucast depth \<or> length (x # xs) > cap then expire now depth cap xs else x # xs)"

text \<open>The state between two turns of the loop: one level may have an item too many.\<close>

definition counted :: "log_buffer \<Rightarrow> bool" where
  "counted b = (skip_ok (mLogList b) \<and> length (mHeadVec (mLogList b)) = TOTAL_LOG_LEVELS
     \<and> length (mConfigVec b) = TOTAL_LOG_LEVELS
     \<and> (\<forall>l < TOTAL_LOG_LEVELS. let c = mConfigVec b ! l in
           mCurrentSize c = of_nat (length (items_at (int l) (mLogList b)))
         \<and> length (items_at (int l) (mLogList b)) < 2 ^ 31))"

lemma items_at_remove_first:
  "filter (\<lambda>x. snd x = k) (remove_first (\<lambda>x. snd x = l) xs) =
    (if k = l then tl (filter (\<lambda>x. snd x = k) xs) else filter (\<lambda>x. snd x = k) xs)"
  by (induction xs) auto

lemma sint_of_nat_small: "n < 2 ^ 31 \<Longrightarrow> sint (of_nat n :: i32) = int n"
  by (simp add: signed_of_nat signed_take_bit_int_eq_self)

lemma countedD:
  assumes "counted b" "level_ok l"
  shows "skip_ok (mLogList b)" "0 \<le> l" "nat l < length (mHeadVec (mLogList b))"
    "vec_at (mConfigVec b) l = Some (config_of l b)"
    "mCurrentSize (config_of l b) = of_nat (length (items_at l (mLogList b)))"
    "length (items_at l (mLogList b)) < 2 ^ 31"
  using assms by (auto simp: counted_def level_ok_def vec_at_def config_of_def Let_def dest: spec [of _ "nat l"])

lemma counted_size:
  assumes "counted b" "level_ok l" "skip_ok s" "length (mHeadVec s) = TOTAL_LOG_LEVELS"
    and new: "int (length (items_at l s)) = int (length (items_at l (mLogList b))) + d"
    and small: "length (items_at l s) < 2 ^ 31"
    and other: "\<And>k. k \<noteq> l \<Longrightarrow> items_at k s = items_at k (mLogList b)"
  obtains b' where "change_size l d (b\<lparr>mLogList := s\<rparr>) = Some b'" "counted b'" "mLogList b' = s"
    "mTimeDepthThres (config_of l b') = mTimeDepthThres (config_of l b)"
    "mMaxNumThres (config_of l b') = mMaxNumThres (config_of l b)"
    "\<forall>k. k \<noteq> nat l \<longrightarrow> mConfigVec b' ! k = mConfigVec b ! k"
proof -
  note D = countedD [OF assms(1,2)]
  let ?n = "length (items_at l s)"
  let ?c = "config_of l b"
  let ?b = "b\<lparr>mLogList := s, mConfigVec := (mConfigVec b)
      [nat l := ?c\<lparr>mCurrentSize := of_nat ?n\<rparr>]\<rparr>"
  have v: "sint (mCurrentSize ?c) + d = int ?n"
    using D(5,6) new by (simp add: sint_of_nat_small)
  have "vec_at (mConfigVec (b\<lparr>mLogList := s\<rparr>)) l = Some ?c" using D(4) by simp
  then have e: "change_size l d (b\<lparr>mLogList := s\<rparr>) = Some ?b"
    using v small by (simp add: change_size_def Let_def)
  have lc: "nat l < length (mConfigVec b)" "length (mConfigVec b) = TOTAL_LOG_LEVELS"
    using assms(1,2) by (simp_all add: counted_def level_ok_def)
  have "counted ?b"
    unfolding counted_def Let_def
  proof (intro conjI allI impI)
    fix k assume k: "k < TOTAL_LOG_LEVELS"
    show "mCurrentSize (mConfigVec ?b ! k) = of_nat (length (items_at (int k) (mLogList ?b)))"
      using k lc other [of "int k"] assms(1) D(2)
      by (cases "k = nat l") (auto simp: counted_def Let_def nth_list_update)
    show "length (items_at (int k) (mLogList ?b)) < 2 ^ 31"
      using k lc other [of "int k"] assms(1) D(2) small
      by (cases "k = nat l") (auto simp: counted_def Let_def)
  qed (use assms lc in simp_all)
  from that [OF e this] show thesis using lc
    by (simp add: config_of_def)
qed

section \<open>The loop\<close>

lemma items_at_dump: "skip_dump_all s' = skip_dump_all s \<Longrightarrow> items_at k s' = items_at k s"
  by (simp add: items_at_def)

lemma items_ids: "items_at l s = [] \<longleftrightarrow> ids_at l (mMainList s) = []"
  by (auto simp: items_at_def skip_dump_all_def ids_at_def filter_empty_conv)

lemma size_exceeds:
  "n < 2 ^ 31 \<Longrightarrow> (of_nat n :: i32) > m \<longleftrightarrow> n > unat m"
  by (simp add: word_less_nat_alt unat_of_nat)

text \<open>One turn of the loop: the oldest item of the level goes and the counter follows.\<close>

lemma trim_step:
  assumes "counted b" "level_ok l" "items_at l (mLogList b) = x # xs"
  obtains s b' where "skip_pop_level l (mLogList b) = Some s"
    "change_size l (- 1) (b\<lparr>mLogList := s\<rparr>) = Some b'" "counted b'"
    "items_at l (mLogList b') = xs"
    "\<forall>k. k \<noteq> l \<longrightarrow> items_at k (mLogList b') = items_at k (mLogList b)"
    "mTimeDepthThres (config_of l b') = mTimeDepthThres (config_of l b)"
    "mMaxNumThres (config_of l b') = mMaxNumThres (config_of l b)"
    "\<forall>k. k \<noteq> nat l \<longrightarrow> mConfigVec b' ! k = mConfigVec b ! k"
proof -
  note D = countedD [OF assms(1,2)]
  have "ids_at l (mMainList (mLogList b)) \<noteq> []" using assms(3) items_ids [of l "mLogList b"] by simp
  from skip_pop_level_ok [OF D(1,2,3) this] obtain s where s:
    "skip_pop_level l (mLogList b) = Some s" "skip_ok s"
    "length (mHeadVec s) = length (mHeadVec (mLogList b))"
    "skip_dump_all s = remove_first (\<lambda>x. snd x = l) (skip_dump_all (mLogList b))" by blast
  have its: "items_at k s = (if k = l then tl (items_at k (mLogList b)) else items_at k (mLogList b))"
    for k by (simp add: items_at_def s(4) items_at_remove_first map_tl)
  have "length (mHeadVec s) = TOTAL_LOG_LEVELS" using s(3) assms(1) by (simp add: counted_def)
  moreover have "length (items_at l s) < 2 ^ 31" using its [of l] assms(3) D(6) by simp
  ultimately obtain b' where "change_size l (- 1) (b\<lparr>mLogList := s\<rparr>) = Some b'" "counted b'" "mLogList b' = s"
    "mTimeDepthThres (config_of l b') = mTimeDepthThres (config_of l b)"
    "mMaxNumThres (config_of l b') = mMaxNumThres (config_of l b)"
    "\<forall>k. k \<noteq> nat l \<longrightarrow> mConfigVec b' ! k = mConfigVec b ! k"
    using counted_size [OF assms(1,2) s(2), of "- 1"] its assms(3) by auto
  with that s(1) its assms(3) show thesis by auto
qed

lemma trim_level_expire:
  assumes "counted b" "level_ok l"
  shows "let kept = expire now (mTimeDepthThres (config_of l b)) (unat (mMaxNumThres (config_of l b)))
              (items_at l (mLogList b)) in
         if kept = [] then trim_level now l b = None
         else (\<exists>b'. trim_level now l b = Some b' \<and> counted b'
             \<and> items_at l (mLogList b') = kept
             \<and> (\<forall>k. k \<noteq> l \<longrightarrow> items_at k (mLogList b') = items_at k (mLogList b))
             \<and> mTimeDepthThres (config_of l b') = mTimeDepthThres (config_of l b)
             \<and> mMaxNumThres (config_of l b') = mMaxNumThres (config_of l b)
             \<and> (\<forall>k. k \<noteq> nat l \<longrightarrow> mConfigVec b' ! k = mConfigVec b ! k))"
  using assms
proof (induction "items_at l (mLogList b)" arbitrary: b)
  case Nil
  note D = countedD [OF Nil(2,3)]
  have "skip_front l (mLogList b) = None"
    using skip_front_ok [OF D(1,2,3)] Nil(1) by (simp split: list.splits)
  then show ?case using Nil(1) by (simp add: trim_level.simps)
next
  case (Cons x xs)
  note D = countedD [OF Cons(3,4)]
  have it: "items_at l (mLogList b) = x # xs" using Cons(2) by simp
  have fr: "skip_front l (mLogList b) = Some x"
    using skip_front_ok [OF D(1,2,3)] it by simp
  have "Suc (length xs) < 2 ^ 31" using D(6) it by simp
  then have sz: "mMaxNumThres (config_of l b) < mCurrentSize (config_of l b)
      \<longleftrightarrow> Suc (length xs) > unat (mMaxNumThres (config_of l b))"
    using D(5) size_exceeds [of "length (x # xs)"] it by simp
  show ?case
  proof (cases "now - fst x > ucast (mTimeDepthThres (config_of l b))
      \<or> Suc (length xs) > unat (mMaxNumThres (config_of l b))")
    case False
    then show ?thesis using fr D(4) sz it Cons(3) by (simp add: trim_level.simps [of now l b])
  next
    case True
    from trim_step [OF Cons(3,4) it] obtain s b' where st:
      "skip_pop_level l (mLogList b) = Some s"
      "change_size l (- 1) (b\<lparr>mLogList := s\<rparr>) = Some b'" "counted b'"
      "items_at l (mLogList b') = xs"
      "\<forall>k. k \<noteq> l \<longrightarrow> items_at k (mLogList b') = items_at k (mLogList b)"
      "mTimeDepthThres (config_of l b') = mTimeDepthThres (config_of l b)"
      "mMaxNumThres (config_of l b') = mMaxNumThres (config_of l b)"
      "\<forall>k. k \<noteq> nat l \<longrightarrow> mConfigVec b' ! k = mConfigVec b ! k" by blast
    have e: "trim_level now l b = trim_level now l b'"
      using fr D(4) sz True st(1,2) by (simp add: trim_level.simps [of now l b])
    have ex: "expire now (mTimeDepthThres (config_of l b)) (unat (mMaxNumThres (config_of l b))) (x # xs)
        = expire now (mTimeDepthThres (config_of l b)) (unat (mMaxNumThres (config_of l b))) xs"
      using True by simp
    from Cons(1) [OF st(4) [symmetric] st(3) Cons(4)] show ?thesis
      unfolding e it ex st(4,6,7) by (auto simp: st(5,8) Let_def)
  qed
qed

lemma trim_level_faults:
  assumes "counted b" "level_ok l"
    "expire now (mTimeDepthThres (config_of l b)) (unat (mMaxNumThres (config_of l b)))
       (items_at l (mLogList b)) = []"
  shows "trim_level now l b = None"
  using trim_level_expire [OF assms(1,2), of now] unfolding assms(3) by simp

lemma trim_level_keeps:
  assumes "counted b" "level_ok l"
    "expire now (mTimeDepthThres (config_of l b)) (unat (mMaxNumThres (config_of l b)))
       (items_at l (mLogList b)) = kept" "kept \<noteq> []"
  obtains b' where "trim_level now l b = Some b'" "counted b'" "items_at l (mLogList b') = kept"
    "\<forall>k. k \<noteq> l \<longrightarrow> items_at k (mLogList b') = items_at k (mLogList b)"
    "mTimeDepthThres (config_of l b') = mTimeDepthThres (config_of l b)"
    "mMaxNumThres (config_of l b') = mMaxNumThres (config_of l b)"
    "\<forall>k. k \<noteq> nat l \<longrightarrow> mConfigVec b' ! k = mConfigVec b ! k"
proof -
  from trim_level_expire [OF assms(1,2), of now] obtain b' where
    "trim_level now l b = Some b' \<and> counted b' \<and> items_at l (mLogList b') = kept
      \<and> (\<forall>k. k \<noteq> l \<longrightarrow> items_at k (mLogList b') = items_at k (mLogList b))
      \<and> mTimeDepthThres (config_of l b') = mTimeDepthThres (config_of l b)
      \<and> mMaxNumThres (config_of l b') = mMaxNumThres (config_of l b)
      \<and> (\<forall>k. k \<noteq> nat l \<longrightarrow> mConfigVec b' ! k = mConfigVec b ! k)"
    unfolding assms(3) Let_def if_not_P [OF assms(4)] by (rule exE)
  with that show thesis by blast
qed

section \<open>What the operations do\<close>

lemma log_ok_new: "log_ok log_buffer_new"
  using skip_ok_init [of TOTAL_LOG_LEVELS]
  by (auto simp: log_ok_def log_buffer_new_def Let_def items_at_def skip_dump_all_def
      skip_init_def MAXIMUM_NUM_IN_LIST_def)

lemma log_ok_counted: "log_ok b \<Longrightarrow> counted b"
  by (fastforce simp: log_ok_def counted_def Let_def)

lemma expire_not_empty: "0 < cap \<Longrightarrow> expire now d cap (xs @ [(now, x)]) \<noteq> []"
  by (induction xs) auto

lemma expire_suffix: "\<exists>ys. xs = ys @ expire now d cap xs"
proof (induction xs)
  case (Cons x xs)
  then obtain ys where "xs = ys @ expire now d cap xs" by blast
  then show ?case by (auto intro: exI [of _ "x # ys"] exI [of _ "[]"])
qed simp

lemma expire_length: "length (expire now d cap xs) \<le> cap"
  by (induction xs) auto

lemma expire_young:
  assumes "sorted (map fst xs)" "\<forall>x\<in>set xs. fst x \<le> now"
  shows "\<forall>x\<in>set (expire now d cap xs). now - fst x \<le> ucast d"
  using assms
proof (induction xs)
  case (Cons x xs)
  have "now - fst y \<le> ucast d" if "now - fst x \<le> ucast d" "y \<in> set (x # xs)" for y
  proof -
    have "fst x \<le> fst y" "fst y \<le> now" using Cons.prems that(2) by auto
    then have "now - fst y \<le> now - fst x" by (simp add: word_le_nat_alt unat_sub)
    with that(1) show ?thesis by simp
  qed
  note young = this
  have "sorted (map fst xs)" "\<forall>x\<in>set xs. fst x \<le> now" using Cons.prems by simp_all
  note ih = Cons.IH [OF this]
  show ?case
  proof (cases "now - fst x > ucast d \<or> length (x # xs) > cap")
    case True
    then show ?thesis using ih by simp
  next
    case False
    then have "now - fst x \<le> ucast d" by auto
    then show ?thesis using young False by (simp only: expire.simps if_False) blast
  qed
qed simp

lemma log_append_counted:
  assumes ok: "log_ok b" and l: "level_ok l"
  obtains b' where "log_append data l now b = trim_level now l b'" "counted b'"
    "items_at l (mLogList b') = items_at l (mLogList b) @ [(now, data)]"
    "\<forall>k. k \<noteq> l \<longrightarrow> items_at k (mLogList b') = items_at k (mLogList b)"
    "mTimeDepthThres (config_of l b') = mTimeDepthThres (config_of l b)"
    "mMaxNumThres (config_of l b') = mMaxNumThres (config_of l b)"
    "\<forall>k. k \<noteq> nat l \<longrightarrow> mConfigVec b' ! k = mConfigVec b ! k"
proof -
  note D = countedD [OF log_ok_counted [OF ok] l]
  obtain s where s: "skip_append (now, data) l (mLogList b) = Some s" "skip_ok s"
    "length (mHeadVec s) = length (mHeadVec (mLogList b))"
    "skip_dump_all s = skip_dump_all (mLogList b) @ [((now, data), l)]"
    by (rule skip_append_ok [OF D(1,2,3)])
  have its: "items_at k s = items_at k (mLogList b) @ (if k = l then [(now, data)] else [])" for k
    by (simp add: items_at_def s(4))
  have "length (items_at l (mLogList b)) \<le> unat (mMaxNumThres (config_of l b))"
    "unat (mMaxNumThres (config_of l b)) < 2 ^ 31 - 1"
    using ok l D(2) by (auto simp: log_ok_def level_ok_def config_of_def Let_def dest: spec [of _ "nat l"])
  then have small: "length (items_at l s) < 2 ^ 31" using its [of l] by simp
  have len: "length (mHeadVec s) = TOTAL_LOG_LEVELS" using s(3) ok by (simp add: log_ok_def)
  have new: "int (length (items_at l s)) = int (length (items_at l (mLogList b))) + 1"
    using its [of l] by simp
  obtain b' where b': "change_size l 1 (b\<lparr>mLogList := s\<rparr>) = Some b'" "counted b'" "mLogList b' = s"
    "mTimeDepthThres (config_of l b') = mTimeDepthThres (config_of l b)"
    "mMaxNumThres (config_of l b') = mMaxNumThres (config_of l b)"
    "\<forall>k. k \<noteq> nat l \<longrightarrow> mConfigVec b' ! k = mConfigVec b ! k"
    by (rule counted_size [OF log_ok_counted [OF ok] l s(2) len new small]) (use its in auto)
  have "log_append data l now b = trim_level now l b'"
    by (simp add: log_append_def s(1) b'(1))
  from that [OF this b'(2) _ _ b'(4-6)] b'(3) its show thesis by simp
qed

lemma log_append_kept:
  assumes "log_ok b" "level_ok l" "mMaxNumThres (config_of l b) > 0"
  obtains b' where "log_append data l now b = Some b'" "log_ok b'"
    "items_at l (mLogList b') =
        expire now (mTimeDepthThres (config_of l b)) (unat (mMaxNumThres (config_of l b)))
          (items_at l (mLogList b) @ [(now, data)])"
    "\<forall>k. k \<noteq> l \<longrightarrow> items_at k (mLogList b') = items_at k (mLogList b)"
    "\<forall>k. mTimeDepthThres (config_of k b') = mTimeDepthThres (config_of k b)
       \<and> mMaxNumThres (config_of k b') = mMaxNumThres (config_of k b)"
proof -
  obtain b1 where b1: "log_append data l now b = trim_level now l b1" "counted b1"
    "items_at l (mLogList b1) = items_at l (mLogList b) @ [(now, data)]"
    "\<forall>k. k \<noteq> l \<longrightarrow> items_at k (mLogList b1) = items_at k (mLogList b)"
    "mTimeDepthThres (config_of l b1) = mTimeDepthThres (config_of l b)"
    "mMaxNumThres (config_of l b1) = mMaxNumThres (config_of l b)"
    "\<forall>k. k \<noteq> nat l \<longrightarrow> mConfigVec b1 ! k = mConfigVec b ! k"
    by (rule log_append_counted [OF assms(1,2)])
  let ?kept = "expire now (mTimeDepthThres (config_of l b)) (unat (mMaxNumThres (config_of l b)))
      (items_at l (mLogList b) @ [(now, data)])"
  have "0 < unat (mMaxNumThres (config_of l b))" using assms(3) by (simp add: word_less_nat_alt)
  then have ne: "?kept \<noteq> []" by (rule expire_not_empty)
  obtain b2 where b2: "trim_level now l b1 = Some b2" "counted b2" "items_at l (mLogList b2) = ?kept"
    "\<forall>k. k \<noteq> l \<longrightarrow> items_at k (mLogList b2) = items_at k (mLogList b1)"
    "mTimeDepthThres (config_of l b2) = mTimeDepthThres (config_of l b1)"
    "mMaxNumThres (config_of l b2) = mMaxNumThres (config_of l b1)"
    "\<forall>k. k \<noteq> nat l \<longrightarrow> mConfigVec b2 ! k = mConfigVec b1 ! k"
    by (rule trim_level_keeps [OF b1(2) assms(2) _ ne, of now]) (simp add: b1(3,5,6))
  have "log_ok b2"
    unfolding log_ok_def Let_def
  proof (intro conjI allI impI)
    fix k assume k: "k < TOTAL_LOG_LEVELS"
    show "mCurrentSize (mConfigVec b2 ! k) = of_nat (length (items_at (int k) (mLogList b2)))"
      using b2(2) k by (simp add: counted_def Let_def)
    have "length (items_at (int k) (mLogList b2)) \<le> unat (mMaxNumThres (mConfigVec b2 ! k))
        \<and> unat (mMaxNumThres (mConfigVec b2 ! k)) < 2 ^ 31 - 1"
    proof (cases "int k = l")
      case True
      then have c: "mConfigVec b2 ! k = config_of l b2" "config_of l b = mConfigVec b ! k"
        by (auto simp: config_of_def)
      have "unat (mMaxNumThres (config_of l b)) < 2 ^ 31 - 1"
        using assms(1) k unfolding c(2) by (simp add: log_ok_def Let_def)
      then show ?thesis unfolding c(1) True b2(3,6) b1(6) using expire_length by (intro conjI)
    next
      case False
      then have "k \<noteq> nat l" using assms(2) by (auto simp: level_ok_def)
      then show ?thesis using False b2(4,7) b1(4,7) assms(1) k by (simp add: log_ok_def Let_def)
    qed
    then show "length (items_at (int k) (mLogList b2)) \<le> unat (mMaxNumThres (mConfigVec b2 ! k))"
      "unat (mMaxNumThres (mConfigVec b2 ! k)) < 2 ^ 31 - 1" by simp_all
  qed (use b2(2) in \<open>simp_all add: counted_def\<close>)
  moreover have "mTimeDepthThres (config_of k b2) = mTimeDepthThres (config_of k b)
      \<and> mMaxNumThres (config_of k b2) = mMaxNumThres (config_of k b)" for k
    using b1(5-7) b2(5-7) by (cases "nat k = nat l") (simp_all add: config_of_def)
  ultimately show thesis using that b1(1,4) b2(1,3,4) by simp
qed

text \<open>
  C26: Appending a line at a valid level whose maximum is not zero always succeeds.  The level then
  holds its earlier lines and the new one, less the oldest ones that are too old or too many;
  every other level is untouched; and the counters still agree with the lists.
\<close>

theorem log_append_refines:
  assumes "log_ok b" "level_ok l" "mMaxNumThres (config_of l b) > 0"
  shows "\<exists>b'. log_append data l now b = Some b' \<and> log_ok b'
    \<and> items_at l (mLogList b') =
        expire now (mTimeDepthThres (config_of l b)) (unat (mMaxNumThres (config_of l b)))
          (items_at l (mLogList b) @ [(now, data)])
    \<and> (\<forall>k. k \<noteq> l \<longrightarrow> items_at k (mLogList b') = items_at k (mLogList b))"
  by (rule log_append_kept [OF assms, of data now]) blast

theorem log_append_refines_witness:
  "\<exists>b'. log_append ''x'' 2 7 log_buffer_new = Some b' \<and> log_ok b'
    \<and> items_at 2 (mLogList b') = expire 7 60 50 [(7, ''x'')]"
  using log_append_refines [of log_buffer_new 2 "''x''" 7] log_ok_new
  by (auto simp: level_ok_def config_of_def log_buffer_new_def TOTAL_LOG_LEVELS_def items_at_def
      skip_init_def skip_dump_all_def TIME_DEPTH_THRESHOLD_MINIMAL_IN_SEC_def MAXIMUM_NUM_IN_LIST_def)

text \<open>
  While the clock does not go back, after an append the level holds at most its configured
  number of lines, none of them older than its configured depth, and the new line is among
  them.
\<close>

theorem log_append_bounded:
  assumes "log_ok b" "level_ok l" "mMaxNumThres (config_of l b) > 0"
    and "sorted (map fst (items_at l (mLogList b)))"
    and "\<forall>x\<in>set (items_at l (mLogList b)). fst x \<le> now"
    and "log_append data l now b = Some b'"
  shows "length (items_at l (mLogList b')) \<le> unat (mMaxNumThres (config_of l b))
    \<and> (\<forall>x\<in>set (items_at l (mLogList b')).
          unat now - unat (fst x) \<le> unat (mTimeDepthThres (config_of l b)))
    \<and> last (items_at l (mLogList b')) = (now, data)"
proof -
  let ?d = "mTimeDepthThres (config_of l b)"
  let ?xs = "items_at l (mLogList b) @ [(now, data)]"
  let ?kept = "expire now ?d (unat (mMaxNumThres (config_of l b))) ?xs"
  have k: "items_at l (mLogList b') = ?kept"
    by (rule log_append_kept [OF assms(1-3), of data now]) (use assms(6) in simp)
  have "sorted (map fst ?xs)" "\<forall>x\<in>set ?xs. fst x \<le> now"
    using assms(4,5) by (auto simp: sorted_append)
  from expire_young [OF this] have young: "\<forall>x\<in>set ?kept. now - fst x \<le> ucast ?d" .
  have set: "\<forall>x\<in>set ?kept. fst x \<le> now"
  proof -
    obtain ys where "?xs = ys @ ?kept" using expire_suffix by blast
    then have "set ?kept \<subseteq> set ?xs" by (metis set_append Un_upper2)
    then show ?thesis using \<open>\<forall>x\<in>set ?xs. fst x \<le> now\<close> by blast
  qed
  have age: "unat now - unat (fst x) \<le> unat ?d" if "x \<in> set ?kept" for x
  proof -
    have "unat (now - fst x) = unat now - unat (fst x)" using set that by (simp add: unat_sub)
    moreover have "unat (now - fst x) \<le> unat (ucast ?d :: u64)"
      using young that by (simp add: word_le_nat_alt)
    moreover have "uint (ucast ?d :: u64) = uint ?d" by (rule uint_up_ucast) (simp add: is_up)
    then have "unat (ucast ?d :: u64) = unat ?d" unfolding unat_eq_nat_uint by (simp only:)
    ultimately show ?thesis by simp
  qed
  obtain ys where ys: "?xs = ys @ ?kept" using expire_suffix by blast
  have "?kept \<noteq> []" using assms(3) by (intro expire_not_empty) (simp add: word_less_nat_alt)
  then have "last ?kept = (now, data)" by (metis ys last_append last_snoc)
  then show ?thesis using age expire_length unfolding k by blast
qed

definition two_line_log :: log_buffer where
  "two_line_log = set_log_buffer_config
     (\<lambda>name. if name = ''E_LEVEL_MAX_CAPACITY'' then Some 2 else None) log_buffer_new"

definition example_log :: log_buffer where
  "example_log = the (log_append ''b'' 0 8 (the (log_append ''a'' 0 7 two_line_log)))"

lemma two_line_log_eq:
  "two_line_log = \<lparr>mLogList = skip_init 5, mConfigVec =
     \<lparr>mTimeDepthThres = 60, mMaxNumThres = 2, mCurrentSize = 0\<rparr>
       # replicate 4 \<lparr>mTimeDepthThres = 60, mMaxNumThres = 50, mCurrentSize = 0\<rparr>\<rparr>"
  by code_simp

lemma two_line_log_ok: "log_ok two_line_log"
  using skip_ok_init [of 5]
  by (auto simp: two_line_log_eq log_ok_def TOTAL_LOG_LEVELS_def Let_def items_at_def
      skip_dump_all_def skip_init_def nth_Cons split: nat.splits)

lemma example_log_values:
  "log_ok example_log" "items_at 0 (mLogList example_log) = [(7, ''a''), (8, ''b'')]"
  "mTimeDepthThres (config_of 0 example_log) = 60" "mMaxNumThres (config_of 0 example_log) = 2"
  "level_ok 0"
proof -
  show l: "level_ok 0" by (simp add: level_ok_def TOTAL_LOG_LEVELS_def)
  have c: "mTimeDepthThres (config_of 0 two_line_log) = 60"
    "mMaxNumThres (config_of 0 two_line_log) = 2" "items_at 0 (mLogList two_line_log) = []"
    by (simp_all add: two_line_log_eq config_of_def items_at_def skip_dump_all_def skip_init_def)
  obtain b1 where b1: "log_append ''a'' 0 7 two_line_log = Some b1" "log_ok b1"
    "items_at 0 (mLogList b1) = [(7, ''a'')]" "mTimeDepthThres (config_of 0 b1) = 60"
    "mMaxNumThres (config_of 0 b1) = 2"
    by (rule log_append_kept [OF two_line_log_ok l, of "''a''" 7]) (simp_all add: c)
  obtain b2 where b2: "log_append ''b'' 0 8 b1 = Some b2" "log_ok b2"
    "items_at 0 (mLogList b2) = [(7, ''a''), (8, ''b'')]" "mTimeDepthThres (config_of 0 b2) = 60"
    "mMaxNumThres (config_of 0 b2) = 2"
    by (rule log_append_kept [OF b1(2) l, of "''b''" 8]) (simp_all add: b1)
  have e: "example_log = b2" by (simp add: example_log_def b1(1) b2(1))
  show "log_ok example_log" "items_at 0 (mLogList example_log) = [(7, ''a''), (8, ''b'')]"
    "mTimeDepthThres (config_of 0 example_log) = 60" "mMaxNumThres (config_of 0 example_log) = 2"
    unfolding e using b2 by simp_all
qed

theorem log_append_bounded_witness:
  "last (items_at 0 (mLogList (the (log_append ''c'' 0 68 example_log)))) = (68, ''c'')
   \<and> length (items_at 0 (mLogList (the (log_append ''c'' 0 68 example_log)))) \<le> 2"
proof -
  have "log_append ''c'' 0 68 example_log = Some (the (log_append ''c'' 0 68 example_log))"
    by (rule log_append_kept [OF example_log_values(1,5), of "''c''" 68])
      (simp_all add: example_log_values(4))
  from log_append_bounded [OF example_log_values(1,5) _ _ _ this]
  show ?thesis by (simp add: example_log_values)
qed

lemma trim_level_pops:
  assumes "skip_front l (mLogList b) = Some x" "vec_at (mConfigVec b) l = Some c"
    "mMaxNumThres c < mCurrentSize c" "skip_pop_level l (mLogList b) = Some s"
  shows "trim_level now l b
    = Option.bind (change_size l (- 1) (b\<lparr>mLogList := s\<rparr>)) (trim_level now l)"
  using assms by (subst trim_level.simps) simp

text \<open>
  \<open>flush\<close> empties the lists and leaves the counters as they are.  When a level was full,
  the next line appended to it is removed again at once and the loop then reads the front of an
  empty level.
\<close>

theorem log_flush_then_append_faults:
  assumes "log_ok b" "level_ok l"
    and "length (items_at l (mLogList b)) = unat (mMaxNumThres (config_of l b))"
  shows "log_append data l now (log_flush b) = None"
proof -
  have l: "0 \<le> l" "nat l < TOTAL_LOG_LEVELS" using assms(2) by (simp_all add: level_ok_def)
  note D = countedD [OF log_ok_counted [OF assms(1)] assms(2)]
  let ?c = "config_of l b" and ?f = "skip_flush (mLogList b)"
  let ?n = "length (items_at l (mLogList b))"
  have lens: "length (mHeadVec ?f) = TOTAL_LOG_LEVELS" "length (mConfigVec b) = TOTAL_LOG_LEVELS"
    using assms(1) by (simp_all add: log_ok_def skip_flush_def)
  obtain s where s: "skip_append (now, data) l ?f = Some s" "skip_ok s"
    "length (mHeadVec s) = length (mHeadVec ?f)"
    "skip_dump_all s = skip_dump_all ?f @ [((now, data), l)]"
    by (rule skip_append_ok [OF skip_ok_flush [OF D(1)] l(1)]) (use lens l in auto)
  have its: "items_at l s = [(now, data)]"
    by (simp add: items_at_def s(4)) (simp add: skip_dump_all_def skip_flush_def)
  have lvl: "0 \<le> l" "nat l < length (mHeadVec s)" using s(3) lens l by simp_all
  have "ids_at l (mMainList s) \<noteq> []" using its items_ids [of l s] by simp
  from skip_pop_level_ok [OF s(2) lvl this] obtain s' where s':
    "skip_pop_level l s = Some s'" "skip_ok s'" "length (mHeadVec s') = length (mHeadVec s)"
    "skip_dump_all s' = remove_first (\<lambda>x. snd x = l) (skip_dump_all s)" by blast
  have its': "items_at l s' = []"
    by (simp add: items_at_def s'(4) items_at_remove_first) (use its in \<open>auto simp: items_at_def\<close>)
  have fr: "skip_front l s = Some (now, data)" "skip_front l s' = None"
    using skip_front_ok [OF s(2) lvl] skip_front_ok [OF s'(2)] lvl s'(3) its its' by simp_all
  have n: "?n < 2 ^ 31 - 1" "?n = unat (mMaxNumThres ?c)"
    using assms l by (auto simp: log_ok_def config_of_def Let_def dest: spec [of _ "nat l"])
  let ?c1 = "?c\<lparr>mCurrentSize := of_nat (Suc ?n)\<rparr>"
  let ?b1 = "b\<lparr>mLogList := s, mConfigVec := (mConfigVec b)[nat l := ?c1]\<rparr>"
  have "change_size l 1 (log_flush b\<lparr>mLogList := s\<rparr>) = Some ?b1"
    using D(4,5) n(1) by (simp add: change_size_def log_flush_def sint_of_nat_small Let_def add.commute)
  then have e: "log_append data l now (log_flush b) = trim_level now l ?b1"
    by (simp add: log_append_def s(1) log_flush_def)
  have c1: "vec_at (mConfigVec ?b1) l = Some ?c1" using l lens by (simp add: vec_at_def)
  have empty: "trim_level now l b' = None" if "mLogList b' = s'" for b'
    using fr(2) that by (simp add: trim_level.simps)
  have same: "mLogList b' = s'" if "change_size l (- 1) (?b1\<lparr>mLogList := s'\<rparr>) = Some b'" for b'
    using that by (auto simp: change_size_def bind_eq_Some_conv Let_def split: if_splits)
  have faults: "Option.bind (change_size l (- 1) (?b1\<lparr>mLogList := s'\<rparr>)) (trim_level now l) = None"
  proof (cases "change_size l (- 1) (?b1\<lparr>mLogList := s'\<rparr>)")
    case (Some b')
    show ?thesis unfolding Some using empty [OF same [OF Some]] by (simp only: Option.bind.simps)
  qed (simp only: Option.bind.simps)
  have "Suc ?n < 2 ^ 31" "unat (mMaxNumThres ?c) < Suc ?n"
    using n by (simp_all only: less_diff_conv Suc_eq_plus1)
  then have less: "mMaxNumThres ?c < of_nat (Suc ?n)" using size_exceeds by blast
  have "trim_level now l ?b1
      = Option.bind (change_size l (- 1) (?b1\<lparr>mLogList := s'\<rparr>)) (trim_level now l)"
  proof (rule trim_level_pops [OF _ c1])
    show "skip_front l (mLogList ?b1) = Some (now, data)" using fr(1) by simp
    show "mMaxNumThres ?c1 < mCurrentSize ?c1" using less by (simp del: of_nat_Suc)
    show "skip_pop_level l (mLogList ?b1) = Some s'" using s'(1) by simp
  qed
  then have "trim_level now l ?b1 = None" using faults by (simp only:)
  with e show ?thesis by simp
qed

theorem log_flush_then_append_faults_witness:
  "log_append ''c'' 0 9 (log_flush example_log) = None"
  by (rule log_flush_then_append_faults [OF example_log_values(1,5)])
    (simp add: example_log_values)

text \<open>The dump of a level writes one line per item, in the order they arrived.\<close>

lemma level_names:
  assumes "log_ok b" "x \<in> set (skip_dump_all (mLogList b))"
  shows "dump_line x = Some (''['' @ show_nat (unat (fst (fst x))) @ ''] Level ''
     @ mLevelMap ! nat (snd x) @ '': '' @ snd (fst x) @ [CHR 0x0A])"
proof -
  have "0 \<le> snd x" "nat (snd x) < TOTAL_LOG_LEVELS"
    using assms by (auto simp: log_ok_def skip_ok_def skip_dump_all_def)
  then show ?thesis by (simp add: dump_line_def vec_at_def mLevelMap_def TOTAL_LOG_LEVELS_def)
qed

lemma dump_lines_map:
  "\<forall>x\<in>set xs. dump_line x = Some (f x) \<Longrightarrow> dump_lines xs = Some (map f xs)"
  by (induction xs) auto

lemma log_dump_level:
  assumes "log_ok b" "level_ok l"
  shows "log_dump l b = Some (dump_header l (length (items_at l (mLogList b)))
    # map (\<lambda>(t, d). ''['' @ show_nat (unat t) @ ''] Level '' @ mLevelMap ! nat l @ '': ''
                     @ d @ [CHR 0x0A]) (items_at l (mLogList b)))"
proof -
  note D = countedD [OF log_ok_counted [OF assms(1)] assms(2)]
  let ?xs = "filter (\<lambda>x. snd x = l) (skip_dump_all (mLogList b))"
  have "dump_lines ?xs = Some (map (\<lambda>x. ''['' @ show_nat (unat (fst (fst x))) @ ''] Level ''
     @ mLevelMap ! nat (snd x) @ '': '' @ snd (fst x) @ [CHR 0x0A]) ?xs)"
    using level_names [OF assms(1)] by (intro dump_lines_map) auto
  then show ?thesis
    using skip_dump_level_ok [OF D(1,2,3)] D(2)
    by (simp add: log_dump_def items_at_def split_def)
qed

section \<open>The signal handler\<close>

text \<open>
  What the handler makes visible, in order.  \<open>locked\<close> tells whether the interrupted thread is
  inside an operation, which holds \<open>mLock\<close>: the handler then waits for a lock that its own
  thread holds and never returns, \<open>None\<close>.  \<open>tm\<close> is the local time as year, month (from 0),
  day, hour, minute and second, if the library gives one; the lines that \<open>USE_GLIB\<close> builds
  take from the stack are left out.
\<close>

datatype log_action =
    Logcat string
  | WriteFile string "string list"
  | OriginalHandler int

record tm =
  tm_year :: int
  tm_mon :: int
  tm_mday :: int
  tm_hour :: int
  tm_min :: int
  tm_sec :: int

definition zero_time :: tm where
  "zero_time = \<lparr>tm_year = 0, tm_mon = 0, tm_mday = 0, tm_hour = 0, tm_min = 0, tm_sec = 0\<rparr>"

definition SIGUSR1 :: int where "SIGUSR1 = 10"

definition dump_path :: "tm \<Rightarrow> string" where
  "dump_path t = take 49 (LOG_BUFFER_FILE_PATH @ ''gpslog_'' @ show_int (1900 + tm_year t)
     @ show_int (1 + tm_mon t) @ show_int (tm_mday t) @ ''-'' @ show_int (tm_hour t)
     @ show_int (tm_min t) @ show_int (tm_sec t) @ ''.log'')"

definition dump_to_adb_logcat :: "log_buffer \<Rightarrow> log_action list option" where
  "dump_to_adb_logcat b = map_option (map Logcat) (log_dump (- 1) b)"

definition dump_to_log_file :: "string \<Rightarrow> log_buffer \<Rightarrow> log_action list option" where
  "dump_to_log_file path b = map_option (\<lambda>ls. [WriteFile path ls]) (log_dump (- 1) b)"

definition signal_handler :: "bool \<Rightarrow> int \<Rightarrow> tm option \<Rightarrow> log_buffer \<Rightarrow> log_action list option" where
  "signal_handler locked code curr_time b =
     (if locked then None
      else do {
        cat \<leftarrow> dump_to_adb_logcat b;
        file \<leftarrow> dump_to_log_file
          (dump_path (case curr_time of None \<Rightarrow> zero_time | Some t \<Rightarrow> t)) b;
        Some (cat @ file @ (if code \<noteq> SIGUSR1 then [OriginalHandler code] else [])) })"

text \<open>The name of the file always fits the buffer of 50 characters, for dates before the year
  10000.\<close>

lemma dump_path_fits:
  assumes "0 \<le> tm_year t" "tm_year t < 8100" "0 \<le> tm_mon t" "tm_mon t < 12"
    "0 \<le> tm_mday t" "tm_mday t < 32" "0 \<le> tm_hour t" "tm_hour t < 24"
    "0 \<le> tm_min t" "tm_min t < 60" "0 \<le> tm_sec t" "tm_sec t < 62"
  shows "dump_path t = LOG_BUFFER_FILE_PATH @ ''gpslog_'' @ show_int (1900 + tm_year t)
     @ show_int (1 + tm_mon t) @ show_int (tm_mday t) @ ''-'' @ show_int (tm_hour t)
     @ show_int (tm_min t) @ show_int (tm_sec t) @ ''.log''"
proof -
  have two: "length (show_int i) \<le> 2" if "0 \<le> i" "i < 100" for i
    using show_nat_length [of "nat i" 2] that by (simp add: show_int_def)
  have four: "length (show_int i) \<le> 4" if "0 \<le> i" "i < 10000" for i
    using show_nat_length [of "nat i" 4] that by (simp add: show_int_def)
  have "length (show_int (1900 + tm_year t)) \<le> 4" "length (show_int (1 + tm_mon t)) \<le> 2"
    "length (show_int (tm_mday t)) \<le> 2" "length (show_int (tm_hour t)) \<le> 2"
    "length (show_int (tm_min t)) \<le> 2" "length (show_int (tm_sec t)) \<le> 2"
    using assms by (auto intro!: two four)
  then show ?thesis by (simp add: dump_path_def LOG_BUFFER_FILE_PATH_def)
qed

lemma signal_handler_locked: "signal_handler True code t b = None"
  by (simp add: signal_handler_def)

end
