(* ===== verification/ContextBase.thy ===== *)
theory ContextBase
  imports Prelude
begin

unbundle bit_operations_syntax

text \<open>
  \<^verbatim>\<open>gps/core/ContextBase.h\<close> and \<^verbatim>\<open>ContextBase.cpp\<close>: what the modem and the licences tell
  about the engine - the supported messages and features, the state of the QWES licence
  features and the capabilities of the configuration.

  The static members are one record.  \<open>None\<close> is an access outside an array or a shift that
  the language leaves undefined.
\<close>

section \<open>Data\<close>

definition MAX_FEATURE_LENGTH :: nat where "MAX_FEATURE_LENGTH = 100"
definition LOCATION_QWES_FEATURE_TYPE_MAX :: nat where "LOCATION_QWES_FEATURE_TYPE_MAX = 18"

text \<open>The features of the licence, with the values of the enumeration.\<close>

definition CARRIER_PHASE :: "8 word" where "CARRIER_PHASE = 1"
definition SV_POLYNOMIAL :: "8 word" where "SV_POLYNOMIAL = 2"
definition SV_EPH :: "8 word" where "SV_EPH = 3"
definition GNSS_SINGLE_FREQUENCY :: "8 word" where "GNSS_SINGLE_FREQUENCY = 4"
definition GNSS_MULTI_FREQUENCY :: "8 word" where "GNSS_MULTI_FREQUENCY = 5"
definition TIME_FREQUENCY :: "8 word" where "TIME_FREQUENCY = 6"
definition TIME_UNCERTAINTY :: "8 word" where "TIME_UNCERTAINTY = 7"
definition CLOCK_ESTIMATE :: "8 word" where "CLOCK_ESTIMATE = 8"
definition PPE :: "8 word" where "PPE = 9"
definition QDR2 :: "8 word" where "QDR2 = 10"
definition QDR3 :: "8 word" where "QDR3 = 11"
definition VPE :: "8 word" where "VPE = 12"
definition DGNSS :: "8 word" where "DGNSS = 13"
definition RSSI_POSITIONING :: "8 word" where "RSSI_POSITIONING = 15"
definition RTT_POSITIONING :: "8 word" where "RTT_POSITIONING = 16"

lemmas qwes_feature_defs = CARRIER_PHASE_def SV_POLYNOMIAL_def SV_EPH_def GNSS_SINGLE_FREQUENCY_def
  GNSS_MULTI_FREQUENCY_def TIME_FREQUENCY_def TIME_UNCERTAINTY_def CLOCK_ESTIMATE_def PPE_def
  QDR2_def QDR3_def VPE_def DGNSS_def RSSI_POSITIONING_def RTT_POSITIONING_def

record context_base =
  sIsEngineCapabilitiesKnown :: bool
  sSupportedMsgMask :: u64
  sFeaturesSupported :: "8 word list"
  sGnssMeasurementSupported :: bool
  sQwesFeatureMask :: u64
  locQwesFeatType :: "8 word list"
  sHwCapabilitiesMask :: u64
  mAntennaInfoVectorSize :: u32
  conf_AGPS_CONFIG_INJECT :: u32
  conf_CAPABILITIES :: u32
  conf_SUPL_MODE :: u32
  isSapModeKnown :: bool

section \<open>Operations\<close>

text \<open>\<open>1 << msgID\<close> is an \<open>int\<close>; the guard admits shifts that an \<open>int\<close> does not have.\<close>

definition isMessageSupported :: "nat \<Rightarrow> context_base \<Rightarrow> bool option" where
  "isMessageSupported msgID c =
     (if msgID > 64 then Some False
      else if msgID \<ge> 32 then None
      else let messageChecker = (ucast (push_bit msgID (1 :: u32)) :: u64)
           in Some (messageChecker AND sSupportedMsgMask c = messageChecker))"

definition isFeatureSupported :: "8 word \<Rightarrow> context_base \<Rightarrow> bool" where
  "isFeatureSupported featureVal c =
     (let arrayIndex = unat (drop_bit 3 featureVal); bitPos = unat (featureVal AND 7)
      in if arrayIndex \<ge> MAX_FEATURE_LENGTH then False
         else drop_bit bitPos (sFeaturesSupported c ! arrayIndex) AND 1 \<noteq> 0)"

definition LOC_SUPPORTED_FEATURE_MEASUREMENTS_CORRECTION :: "8 word" where
  "LOC_SUPPORTED_FEATURE_MEASUREMENTS_CORRECTION = 11"
definition LOC_SUPPORTED_FEATURE_DSDA_CONFIGURATION :: "8 word" where
  "LOC_SUPPORTED_FEATURE_DSDA_CONFIGURATION = 15"

text \<open>Resets the bit of a feature.\<close>

definition disable_feature :: "8 word \<Rightarrow> context_base \<Rightarrow> context_base" where
  "disable_feature f c =
     (let arrayIndex = unat (drop_bit 3 f); bitPos = unat (f AND 7)
      in if arrayIndex < MAX_FEATURE_LENGTH
         then c\<lparr>sFeaturesSupported := (sFeaturesSupported c)[arrayIndex :=
                  (sFeaturesSupported c ! arrayIndex) AND NOT (push_bit bitPos 1)]\<rparr>
         else c)"

text \<open>\<open>sap\<close> is the entry SAP of \<^verbatim>\<open>izat.conf\<close>; without one the code compares a buffer that
  it never wrote.\<close>

definition setEngineCapabilities ::
  "u64 \<Rightarrow> 8 word list option \<Rightarrow> bool \<Rightarrow> string option \<Rightarrow> context_base \<Rightarrow> context_base option" where
  "setEngineCapabilities supportedMsgMask featureList gnssMeasurementSupported sap c =
     (if sIsEngineCapabilitiesKnown c then Some c
      else let
        c1 = c\<lparr>sSupportedMsgMask := supportedMsgMask,
               sGnssMeasurementSupported := gnssMeasurementSupported\<rparr>;
        c2 = (case featureList of
                Some fl \<Rightarrow> c1\<lparr>sFeaturesSupported := take MAX_FEATURE_LENGTH fl\<rparr> | None \<Rightarrow> c1);
        c3 = c2\<lparr>conf_AGPS_CONFIG_INJECT := conf_AGPS_CONFIG_INJECT c2 AND
               (if isFeatureSupported LOC_SUPPORTED_FEATURE_DSDA_CONFIGURATION c2 then 0 else 1)\<rparr>
      in do {
        c4 \<leftarrow> (if isFeatureSupported LOC_SUPPORTED_FEATURE_MEASUREMENTS_CORRECTION c3
                  \<and> \<not> isSapModeKnown c3
              then do {
                conf_feature_sap \<leftarrow> sap;
                let c5 = c3\<lparr>isSapModeKnown := True\<rparr>;
                Some (if conf_feature_sap \<noteq> ''PREMIUM_ENV_AIDING''
                      then disable_feature LOC_SUPPORTED_FEATURE_MEASUREMENTS_CORRECTION c5 else c5) }
              else Some c3);
        Some (c4\<lparr>sIsEngineCapabilitiesKnown := True\<rparr>) })"

definition getCarrierCapabilities :: "context_base \<Rightarrow> u32" where
  "getCarrierCapabilities c =
     (let capabilities = conf_CAPABILITIES c;
          capabilities = (if conf_SUPL_MODE c AND 2 \<noteq> 2 then capabilities AND NOT 4 else capabilities)
      in if conf_SUPL_MODE c AND 1 \<noteq> 1 then capabilities AND NOT 2 else capabilities)"

definition setHwCapabilities :: "u64 \<Rightarrow> context_base \<Rightarrow> context_base" where
  "setHwCapabilities msk c = c\<lparr>sHwCapabilitiesMask := sHwCapabilitiesMask c OR msk\<rparr>"

definition isAntennaInfoAvailable :: "context_base \<Rightarrow> bool" where
  "isAntennaInfoAvailable c = (mAntennaInfoVectorSize c \<noteq> 0)"

text \<open>The bit of the capabilities mask that a feature has, as the cases of the switch name
  it.\<close>

definition qwes_bit :: "8 word \<Rightarrow> nat option" where
  "qwes_bit f =
     (if f = CARRIER_PHASE then Some 16
      else if f = SV_POLYNOMIAL then Some 17
      else if f = GNSS_SINGLE_FREQUENCY then Some 19
      else if f = SV_EPH then Some 18
      else if f = GNSS_MULTI_FREQUENCY then Some 20
      else if f = PPE then Some 24
      else if f = QDR2 then Some 25
      else if f = QDR3 then Some 26
      else if f = VPE then Some 21
      else if f = DGNSS then Some 27
      else if f = RSSI_POSITIONING then Some 30
      else if f = RTT_POSITIONING then Some 31
      else None)"

definition put_bit :: "nat \<Rightarrow> bool \<Rightarrow> u64 \<Rightarrow> u64" where
  "put_bit n v m = (if v then m OR push_bit n 1 else m AND NOT (push_bit n 1))"

text \<open>The loop over the entries of the map, in the order of its iteration.\<close>

definition qwes_entry :: "8 word \<Rightarrow> bool \<Rightarrow> context_base \<Rightarrow> context_base" where
  "qwes_entry f v c = c\<lparr>locQwesFeatType := (locQwesFeatType c)[unat f := of_bool v],
     sQwesFeatureMask := (case qwes_bit f of None \<Rightarrow> sQwesFeatureMask c
                          | Some n \<Rightarrow> put_bit n v (sQwesFeatureMask c))\<rparr>"

fun qwes_loop :: "(8 word \<times> bool) list \<Rightarrow> context_base \<Rightarrow> context_base option" where
  "qwes_loop [] c = Some c"
| "qwes_loop ((f, v) # fs) c =
     (if unat f < length (locQwesFeatType c)
      then qwes_loop fs (qwes_entry f v c)
      else None)"

definition setQwesFeatureStatus :: "(8 word \<times> bool) list \<Rightarrow> context_base \<Rightarrow> context_base option" where
  "setQwesFeatureStatus featureMap c = do {
     c \<leftarrow> qwes_loop featureMap c;
     let cv2xBasicEnabled = (locQwesFeatType c ! unat TIME_FREQUENCY = 1
           \<and> locQwesFeatType c ! unat TIME_UNCERTAINTY = 1);
     let cv2xPremiumEnabled = (cv2xBasicEnabled \<and> locQwesFeatType c ! unat QDR3 = 1
           \<and> locQwesFeatType c ! unat CLOCK_ESTIMATE = 1);
     Some (c\<lparr>sQwesFeatureMask :=
       put_bit 23 cv2xPremiumEnabled (put_bit 22 cv2xBasicEnabled (sQwesFeatureMask c))\<rparr>) }"

section \<open>The licence features\<close>

lemma bit_put_bit:
  "bit (put_bit n v m) k \<longleftrightarrow> (if k = n \<and> n < 64 then v else bit m k)"
  by (auto simp: put_bit_def bit_simps dest: bit_imp_le_length)

lemma qwes_bit_range: "qwes_bit f = Some n \<Longrightarrow> n < 64 \<and> n \<noteq> 22 \<and> n \<noteq> 23"
  by (auto simp: qwes_bit_def split: if_splits)

lemma qwes_bit_inj: "qwes_bit f = Some n \<Longrightarrow> qwes_bit g = Some n \<Longrightarrow> f = g"
  unfolding qwes_bit_def by (simp split: if_splits)

lemma qwes_entry_simps [simp]:
  "length (locQwesFeatType (qwes_entry f v c)) = length (locQwesFeatType c)"
  "unat g < length (locQwesFeatType c) \<Longrightarrow>
     locQwesFeatType (qwes_entry f v c) ! unat g = (if f = g then of_bool v else locQwesFeatType c ! unat g)"
  "bit (sQwesFeatureMask (qwes_entry f v c)) n
     = (if qwes_bit f = Some n then v else bit (sQwesFeatureMask c) n)"
  using qwes_bit_range [of f]
  by (auto simp: qwes_entry_def nth_list_update bit_put_bit word_unat_eq_iff split: option.splits)

lemma qwes_loop_defined:
  "\<forall>e\<in>set fs. unat (fst e) < length (locQwesFeatType c) \<Longrightarrow> \<exists>c'. qwes_loop fs c = Some c'"
  by (induction fs arbitrary: c) auto

lemma qwes_loop_types:
  "qwes_loop fs c = Some c' \<Longrightarrow> distinct (map fst fs) \<Longrightarrow> unat f < length (locQwesFeatType c) \<Longrightarrow>
     locQwesFeatType c' ! unat f = (case map_of fs f of Some v \<Rightarrow> of_bool v
        | None \<Rightarrow> locQwesFeatType c ! unat f)"
proof (induction fs c rule: qwes_loop.induct)
  case (2 g v fs c)
  have h: "unat g < length (locQwesFeatType c)" "qwes_loop fs (qwes_entry g v c) = Some c'"
    using 2(2) by (simp_all split: if_splits)
  have "map_of fs g = None" using 2(3) by (simp add: map_of_eq_None_iff)
  moreover have "locQwesFeatType c' ! unat f = (case map_of fs f of Some v \<Rightarrow> of_bool v
        | None \<Rightarrow> locQwesFeatType (qwes_entry g v c) ! unat f)"
    using 2(1) [OF h] 2(3,4) by simp
  ultimately show ?case using 2(4) by (cases "f = g") (simp_all split: option.splits)
qed simp

lemma qwes_loop_mask:
  "qwes_loop fs c = Some c' \<Longrightarrow> distinct (map fst fs) \<Longrightarrow> qwes_bit f = Some n \<Longrightarrow>
     bit (sQwesFeatureMask c') n = (case map_of fs f of Some v \<Rightarrow> v
        | None \<Rightarrow> bit (sQwesFeatureMask c) n)"
proof (induction fs c rule: qwes_loop.induct)
  case (2 g v fs c)
  have h: "unat g < length (locQwesFeatType c)" "qwes_loop fs (qwes_entry g v c) = Some c'"
    using 2(2) by (simp_all split: if_splits)
  have "map_of fs g = None" using 2(3) by (simp add: map_of_eq_None_iff)
  moreover have "bit (sQwesFeatureMask c') n = (case map_of fs f of Some v \<Rightarrow> v
        | None \<Rightarrow> bit (sQwesFeatureMask (qwes_entry g v c)) n)"
    using 2(1) [OF h] 2(3,4) by simp
  ultimately show ?case using 2(4) qwes_bit_inj [OF 2(4), of g] by (cases "f = g") (auto split: option.splits)
qed simp

lemma qwes_loop_other:
  "qwes_loop fs c = Some c' \<Longrightarrow> \<forall>f. qwes_bit f \<noteq> Some n \<Longrightarrow>
     bit (sQwesFeatureMask c') n = bit (sQwesFeatureMask c) n"
  by (induction fs c rule: qwes_loop.induct) (auto split: if_splits)

definition qwes_ok :: "context_base \<Rightarrow> bool" where
  "qwes_ok c = (length (locQwesFeatType c) = LOCATION_QWES_FEATURE_TYPE_MAX)"

text \<open>The state of a feature after the update: its value in the map, else the last one told.\<close>

definition feature_on :: "(8 word \<times> bool) list \<Rightarrow> context_base \<Rightarrow> 8 word \<Rightarrow> bool" where
  "feature_on fs c f = (case map_of fs f of Some v \<Rightarrow> v | None \<Rightarrow> locQwesFeatType c ! unat f = 1)"

text \<open>
  A report of licence features sets the bit of each feature it names to the reported value and
  leaves the bits of the others; the two CV2X bits are recomputed from the last values told of
  the features they combine, whatever the order of the map.
\<close>

theorem qwes_status_spec:
  assumes "qwes_ok c" "distinct (map fst fs)"
    and "\<forall>e\<in>set fs. unat (fst e) < LOCATION_QWES_FEATURE_TYPE_MAX"
  shows "\<exists>c'. setQwesFeatureStatus fs c = Some c'
    \<and> (\<forall>n < 64. bit (sQwesFeatureMask c') n =
         (if n = 22 then feature_on fs c TIME_FREQUENCY \<and> feature_on fs c TIME_UNCERTAINTY
          else if n = 23 then feature_on fs c TIME_FREQUENCY \<and> feature_on fs c TIME_UNCERTAINTY
            \<and> feature_on fs c QDR3 \<and> feature_on fs c CLOCK_ESTIMATE
          else if \<exists>f v. map_of fs f = Some v \<and> qwes_bit f = Some n
          then \<exists>f. map_of fs f = Some True \<and> qwes_bit f = Some n
          else bit (sQwesFeatureMask c) n))"
proof -
  obtain c1 where c1: "qwes_loop fs c = Some c1"
    using qwes_loop_defined [of fs c] assms(1,3) by (auto simp: qwes_ok_def)
  have len: "unat f < length (locQwesFeatType c)" if "unat f < 18" for f :: "8 word"
    using that assms(1) by (simp add: qwes_ok_def LOCATION_QWES_FEATURE_TYPE_MAX_def)
  have on: "locQwesFeatType c1 ! unat f = 1 \<longleftrightarrow> feature_on fs c f" if "unat f < 18" for f
    using qwes_loop_types [OF c1 assms(2) len [OF that]]
    by (auto simp: feature_on_def split: option.splits)
  have "unat TIME_FREQUENCY < 18" "unat TIME_UNCERTAINTY < 18" "unat QDR3 < 18"
    "unat CLOCK_ESTIMATE < 18" by (simp_all add: qwes_feature_defs)
  note ons = this [THEN on]
  have plain: "bit (sQwesFeatureMask c1) n =
      (if \<exists>f v. map_of fs f = Some v \<and> qwes_bit f = Some n
       then \<exists>f. map_of fs f = Some True \<and> qwes_bit f = Some n
       else bit (sQwesFeatureMask c) n)" for n
  proof (cases "\<exists>f. qwes_bit f = Some n")
    case True
    then obtain f where f: "qwes_bit f = Some n" by blast
    have only: "g = f" if "qwes_bit g = Some n" for g using qwes_bit_inj [OF that f] .
    have "(\<exists>g v. map_of fs g = Some v \<and> qwes_bit g = Some n) \<longleftrightarrow> map_of fs f \<noteq> None"
      "(\<exists>g. map_of fs g = Some True \<and> qwes_bit g = Some n) \<longleftrightarrow> map_of fs f = Some True"
      using f only by (metis not_None_eq, metis)
    then show ?thesis using qwes_loop_mask [OF c1 assms(2) f]
      by (simp only:) (simp split: option.splits)
  next
    case False
    then show ?thesis using qwes_loop_other [OF c1] by auto
  qed
  show ?thesis
    unfolding setQwesFeatureStatus_def c1 by (simp add: bit_put_bit ons plain Let_def)
qed

definition example_context :: context_base where
  "example_context = \<lparr>sIsEngineCapabilitiesKnown = True, sSupportedMsgMask = 0,
     sFeaturesSupported = replicate 100 0, sGnssMeasurementSupported = True, sQwesFeatureMask = 0,
     locQwesFeatType = replicate 18 0, sHwCapabilitiesMask = 0, mAntennaInfoVectorSize = 0,
     conf_AGPS_CONFIG_INJECT = 1, conf_CAPABILITIES = 7, conf_SUPL_MODE = 3, isSapModeKnown = False\<rparr>"

theorem qwes_status_spec_witness:
  "\<exists>c'. setQwesFeatureStatus [(TIME_FREQUENCY, True), (PPE, True), (TIME_UNCERTAINTY, True)]
       example_context = Some c'
     \<and> bit (sQwesFeatureMask c') 22 \<and> \<not> bit (sQwesFeatureMask c') 23"
proof -
  let ?fs = "[(TIME_FREQUENCY, True), (PPE, True), (TIME_UNCERTAINTY, True)]"
  have "qwes_ok example_context" "distinct (map fst ?fs)"
    "\<forall>e\<in>set ?fs. unat (fst e) < LOCATION_QWES_FEATURE_TYPE_MAX"
    by (simp_all add: qwes_ok_def example_context_def LOCATION_QWES_FEATURE_TYPE_MAX_def
        qwes_feature_defs)
  from qwes_status_spec [OF this] obtain c' where c':
    "setQwesFeatureStatus ?fs example_context = Some c'"
    "\<forall>n < 64. bit (sQwesFeatureMask c') n =
         (if n = 22 then feature_on ?fs example_context TIME_FREQUENCY
            \<and> feature_on ?fs example_context TIME_UNCERTAINTY
          else if n = 23 then feature_on ?fs example_context TIME_FREQUENCY
            \<and> feature_on ?fs example_context TIME_UNCERTAINTY
            \<and> feature_on ?fs example_context QDR3 \<and> feature_on ?fs example_context CLOCK_ESTIMATE
          else if \<exists>f v. map_of ?fs f = Some v \<and> qwes_bit f = Some n
          then \<exists>f. map_of ?fs f = Some True \<and> qwes_bit f = Some n
          else bit (sQwesFeatureMask example_context) n)"
    by blast
  have f: "feature_on ?fs example_context TIME_FREQUENCY"
    "feature_on ?fs example_context TIME_UNCERTAINTY" "\<not> feature_on ?fs example_context QDR3"
    by (simp_all add: feature_on_def qwes_feature_defs example_context_def)
  show ?thesis using c'(1) spec [OF c'(2), of 22] spec [OF c'(2), of 23] f by auto
qed

section \<open>Messages, features and capabilities\<close>

text \<open>For the messages that exist, the check reads the bit of the mask.\<close>

lemma isMessageSupported_bit:
  assumes "msgID < 32"
  shows "isMessageSupported msgID c = Some (bit (sSupportedMsgMask c) msgID)"
proof -
  have e: "(ucast (push_bit msgID (1 :: u32)) :: u64) = push_bit msgID 1"
    using assms by (intro bit_word_eqI) (auto simp: bit_simps)
  have "(push_bit msgID 1 AND sSupportedMsgMask c = push_bit msgID 1) = bit (sSupportedMsgMask c) msgID"
    (is "(?l = ?r) = _")
  proof
    assume "?l = ?r"
    then have "bit ?l msgID = bit ?r msgID" by simp
    then show "bit (sSupportedMsgMask c) msgID" using assms by (simp add: bit_simps)
  next
    assume "bit (sSupportedMsgMask c) msgID"
    then show "?l = ?r" by (intro bit_word_eqI) (auto simp: bit_simps)
  qed
  then show ?thesis using assms unfolding isMessageSupported_def Let_def e by simp
qed

text \<open>The capabilities of the engine are taken once; a later report changes nothing.\<close>

lemma setEngineCapabilities_once:
  assumes "setEngineCapabilities m fl g sap c = Some c'"
  shows "sIsEngineCapabilitiesKnown c'" "setEngineCapabilities m' fl' g' sap' c' = Some c'"
proof -
  show "sIsEngineCapabilitiesKnown c'"
    using assms by (auto simp: setEngineCapabilities_def Let_def bind_eq_Some_conv split: if_splits)
  then show "setEngineCapabilities m' fl' g' sap' c' = Some c'"
    by (simp add: setEngineCapabilities_def)
qed

end
