(* ===== verification/OrdMap.thy ===== *)
theory OrdMap
  imports Prelude
begin

text \<open>
  \<^verbatim>\<open>std::map\<close>: an association list sorted by its keys, so that an iteration visits the
  entries in the order the code sees them.
\<close>

type_synonym ('k, 'v) ord_map = "('k \<times> 'v) list"

definition om_ok :: "('k::linorder, 'v) ord_map \<Rightarrow> bool" where
  "om_ok m = sorted_wrt (<) (map fst m)"

definition om_get :: "'k \<Rightarrow> ('k, 'v) ord_map \<Rightarrow> 'v option" where
  "om_get k m = map_of m k"

fun om_put :: "'k::linorder \<Rightarrow> 'v \<Rightarrow> ('k, 'v) ord_map \<Rightarrow> ('k, 'v) ord_map" where
  "om_put k v [] = [(k, v)]"
| "om_put k v ((k', v') # m) =
     (if k < k' then (k, v) # (k', v') # m
      else if k = k' then (k, v) # m
      else (k', v') # om_put k v m)"

definition om_erase :: "'k \<Rightarrow> ('k, 'v) ord_map \<Rightarrow> ('k, 'v) ord_map" where
  "om_erase k m = filter (\<lambda>e. fst e \<noteq> k) m"

definition om_adjust :: "'k \<Rightarrow> ('v \<Rightarrow> 'v) \<Rightarrow> ('k, 'v) ord_map \<Rightarrow> ('k, 'v) ord_map" where
  "om_adjust k f m = map (\<lambda>(k', v). (k', if k' = k then f v else v)) m"

lemma om_put_map_keys: "set (map fst (om_put k v m)) = insert k (set (map fst m))"
proof (induction m)
  case (Cons e m)
  then show ?case by (cases e) (simp add: insert_commute del: set_map)
qed simp

lemma om_put_keys: "fst ` set (om_put k v m) = insert k (fst ` set m)"
  using om_put_map_keys [of k v m] by simp

lemma om_ok_empty [simp]: "om_ok []"
  by (simp add: om_ok_def)

lemma om_ok_Cons [simp]: "om_ok (e # m) \<longleftrightarrow> (\<forall>x\<in>set m. fst e < fst x) \<and> om_ok m"
  by (simp add: om_ok_def)

lemma om_ok_put [simp]: "om_ok m \<Longrightarrow> om_ok (om_put k v m)"
proof (induction m)
  case (Cons e m)
  obtain k' v' where e: "e = (k', v')" by (cases e)
  have keys: "\<forall>x\<in>set (om_put k v m). fst x = k \<or> fst x \<in> fst ` set m"
    using om_put_keys [of k v m] by (metis image_eqI insertE)
  show ?case
  proof (cases "k' < k")
    case True
    have "\<forall>y\<in>fst ` set m. k' < y" using Cons.prems e by auto
    with True have "\<forall>x\<in>set (om_put k v m). k' < fst x" using keys by metis
    then show ?thesis using True Cons e by auto
  next
    case False
    then show ?thesis using Cons.prems e by auto
  qed
qed simp

lemma om_ok_erase [simp]: "om_ok m \<Longrightarrow> om_ok (om_erase k m)"
  by (induction m) (auto simp: om_erase_def)

lemma om_adjust_fst [simp]: "map fst (om_adjust k f m) = map fst m"
  by (induction m) (auto simp: om_adjust_def)

lemma om_ok_adjust [simp]: "om_ok (om_adjust k f m) = om_ok m"
  by (simp add: om_ok_def)

lemma om_get_empty [simp]: "om_get k [] = None"
  by (simp add: om_get_def)

lemma om_get_put [simp]: "om_ok m \<Longrightarrow> om_get k' (om_put k v m) = (if k' = k then Some v else om_get k' m)"
proof (induction m)
  case (Cons e m)
  have "om_get k m = None" if "k < fst e" using that Cons.prems by (force simp: om_get_def map_of_eq_None_iff)
  then show ?case using Cons by (cases e) (auto simp: om_get_def)
qed (simp add: om_get_def)

lemma om_get_erase [simp]: "om_get k' (om_erase k m) = (if k' = k then None else om_get k' m)"
  by (induction m) (auto simp: om_get_def om_erase_def)

lemma om_get_adjust [simp]:
  "om_get k' (om_adjust k f m) = (if k' = k then map_option f (om_get k m) else om_get k' m)"
  by (induction m) (auto simp: om_get_def om_adjust_def)

lemma om_distinct: "om_ok m \<Longrightarrow> distinct (map fst m)"
  by (auto simp: om_ok_def strict_sorted_iff)

lemma om_get_in: "om_ok m \<Longrightarrow> (k, v) \<in> set m \<longleftrightarrow> om_get k m = Some v"
  by (simp add: om_get_def om_distinct)

lemma om_get_keys: "om_get k m \<noteq> None \<longleftrightarrow> k \<in> fst ` set m"
  by (force simp: om_get_def map_of_eq_None_iff)

text \<open>The entries after an update: the new one and those of the other keys.\<close>

lemma om_put_set: "om_ok m \<Longrightarrow> set (om_put k v m) = insert (k, v) (set (om_erase k m))"
proof -
  assume m: "om_ok m"
  have "(k', v') \<in> set (om_put k v m) \<longleftrightarrow> (k', v') \<in> insert (k, v) (set (om_erase k m))" for k' v'
    using om_get_in [OF om_ok_put [OF m, of k v], of k' v'] om_get_in [OF om_ok_erase [OF m, of k], of k' v'] m
    by (auto split: if_splits)
  then show ?thesis by auto
qed

lemma om_get_set: "om_ok m \<Longrightarrow> om_get k m = Some v \<Longrightarrow> set m = insert (k, v) (set (om_erase k m))"
proof -
  assume m: "om_ok m" "om_get k m = Some v"
  have "(k', v') \<in> set m \<longleftrightarrow> (k', v') \<in> insert (k, v) (set (om_erase k m))" for k' v'
    using om_get_in [OF m(1), of k' v'] om_get_in [OF om_ok_erase [OF m(1), of k], of k' v'] m(2)
    by (auto split: if_splits)
  then show ?thesis by auto
qed

lemma om_erase_absent: "om_get k m = None \<Longrightarrow> om_erase k m = m"
  by (auto simp: om_get_def om_erase_def map_of_eq_None_iff intro!: filter_True)

lemma om_put_not_empty [simp]: "om_put k v m \<noteq> []"
  by (induction k v m rule: om_put.induct) auto

end
