(* ===== verification/LocAdapterBase.thy ===== *)
theory LocAdapterBase
  imports ContextBase OrdMap
begin

text \<open>
  \<^verbatim>\<open>gps/core/LocAdapterBase.cpp\<close>: what every adapter of the HAL inherits - its clients and their
  callbacks, the session numbers, the event mask and the capabilities it reports.

  A callback that is not set is \<open>False\<close> in the record of a client; the calls made are the
  output of the operations.
\<close>

section \<open>Data\<close>

type_synonym client = addr

text \<open>Errors as \<^verbatim>\<open>LocationDataTypes.h\<close> numbers them.\<close>

datatype location_error =
    LOCATION_ERROR_SUCCESS
  | LOCATION_ERROR_GENERAL_FAILURE
  | LOCATION_ERROR_CALLBACK_MISSING
  | LOCATION_ERROR_INVALID_PARAMETER
  | LOCATION_ERROR_ID_EXISTS
  | LOCATION_ERROR_ID_UNKNOWN
  | LOCATION_ERROR_ALREADY_STARTED
  | LOCATION_ERROR_GEOFENCES_AT_MAX
  | LOCATION_ERROR_NOT_SUPPORTED
  | LOCATION_ERROR_TIMEOUT
  | LOCATION_ERROR_SYSTEM_NOT_READY
  | LOCATION_ERROR_EXCLUSIVE_SESSION_IN_PROGRESS
  | LOCATION_ERROR_TZ_LOCKED

datatype power_state =
    POWER_STATE_UNKNOWN
  | POWER_STATE_SUSPEND
  | POWER_STATE_RESUME
  | POWER_STATE_SHUTDOWN
  | POWER_STATE_DEEP_SLEEP_ENTRY
  | POWER_STATE_DEEP_SLEEP_EXIT

datatype engine_lock_state =
    ENGINE_LOCK_STATE_INVALID
  | ENGINE_LOCK_STATE_ENABLED
  | ENGINE_LOCK_STATE_DISABLED

record location_callbacks =
  capabilitiesCb :: bool
  responseCb :: bool
  collectiveResponseCb :: bool
  trackingCb :: bool
  batchingCb :: bool
  batchingStatusCb :: bool
  geofenceBreachCb :: bool
  geofenceStatusCb :: bool

definition no_callbacks :: location_callbacks where
  "no_callbacks = \<lparr>capabilitiesCb = False, responseCb = False, collectiveResponseCb = False,
     trackingCb = False, batchingCb = False, batchingStatusCb = False, geofenceBreachCb = False,
     geofenceStatusCb = False\<rparr>"

type_synonym client_data = "(client, location_callbacks) ord_map"

datatype mask_status =
    LOC_REGISTRATION_MASK_ENABLED
  | LOC_REGISTRATION_MASK_DISABLED
  | LOC_REGISTRATION_MASK_SET

section \<open>Sessions and masks\<close>

text \<open>The counter after the call, which is also the number returned.\<close>

definition generateSessionId :: "u32 \<Rightarrow> u32" where
  "generateSessionId mSessionIdCounter =
     (if mSessionIdCounter + 1 = 0xFFFFFFFF then 1 else mSessionIdCounter + 1)"

definition new_evt_mask :: "u64 \<Rightarrow> mask_status \<Rightarrow> u64 \<Rightarrow> u64" where
  "new_evt_mask event status mEvtMask =
     (case status of
        LOC_REGISTRATION_MASK_ENABLED \<Rightarrow> mEvtMask OR event
      | LOC_REGISTRATION_MASK_DISABLED \<Rightarrow> mEvtMask AND NOT event
      | LOC_REGISTRATION_MASK_SET \<Rightarrow> event)"

text \<open>A session number is never the reserved value and, from a legal counter, never zero.\<close>

lemma generateSessionId_legal:
  assumes "0 < c" "c < 0xFFFFFFFF"
  shows "0 < generateSessionId c" "generateSessionId c < 0xFFFFFFFF"
proof -
  have "unat c + 1 \<le> 2 ^ 32 - 1" "0 < unat c" using assms by (auto simp: word_less_nat_alt)
  then have "unat (c + 1) = unat c + 1" by (simp add: unat_word_ariths)
  then show "0 < generateSessionId c" "generateSessionId c < 0xFFFFFFFF"
    using assms by (auto simp: generateSessionId_def word_less_nat_alt word_unat_eq_iff)
qed

section \<open>Clients\<close>

definition getClientCallbacks :: "client \<Rightarrow> client_data \<Rightarrow> location_callbacks" where
  "getClientCallbacks client mClientData =
     (case om_get client mClientData of None \<Rightarrow> no_callbacks | Some callbacks \<Rightarrow> callbacks)"

definition saveClient :: "client \<Rightarrow> location_callbacks \<Rightarrow> client_data \<Rightarrow> client_data" where
  "saveClient client callbacks mClientData = om_put client callbacks mClientData"

definition eraseClient :: "client \<Rightarrow> client_data \<Rightarrow> client_data" where
  "eraseClient client mClientData = om_erase client mClientData"

text \<open>The clients called, in the order of the map.\<close>

definition broadcastCapabilities :: "client_data \<Rightarrow> client list" where
  "broadcastCapabilities mClientData = map fst (filter (\<lambda>(_, cb). capabilitiesCb cb) mClientData)"

section \<open>Capabilities\<close>

definition or_if :: "bool \<Rightarrow> nat \<Rightarrow> u64 \<Rightarrow> u64" where
  "or_if b n m = (if b then m OR push_bit n 1 else m)"

text \<open>
  \<open>getCapabilities\<close>: the bits in the order the function tests them; \<open>pp\<close> is
  \<open>mPpFeatureStatusMask\<close>.  The messages asked for exist, so that the check is defined.
\<close>

definition message_supported :: "nat \<Rightarrow> context_base \<Rightarrow> bool" where
  "message_supported n c = (isMessageSupported n c = Some True)"

definition getCapabilities :: "bool \<Rightarrow> 16 word \<Rightarrow> context_base \<Rightarrow> u64" where
  "getCapabilities mIsEngineCapabilitiesKnown pp c =
     (if mIsEngineCapabilitiesKnown then
        let m = or_if True 0 0;
            m = or_if (message_supported 4 c) 1 m;
            m = or_if (message_supported 4 c) 3 m;
            m = or_if (message_supported 2 c) 2 m;
            m = or_if (message_supported 6 c) 9 m;
            m = or_if True 4 m;
            m = or_if (sGnssMeasurementSupported c) 5 m;
            carrierCapabilities = getCarrierCapabilities c;
            m = or_if (carrierCapabilities AND 2 \<noteq> 0) 6 m;
            m = or_if (4 AND carrierCapabilities \<noteq> 0) 7 m;
            m = or_if (isFeatureSupported 2 c \<or> isFeatureSupported 18 c) 8 m;
            m = or_if (isFeatureSupported 5 c) 10 m;
            m = or_if (isFeatureSupported 6 c) 11 m;
            m = or_if (isFeatureSupported 9 c) 12 m;
            m = or_if (isFeatureSupported 11 c) 13 m;
            m = or_if (isFeatureSupported 12 c) 14 m;
            m = or_if (isFeatureSupported 13 c \<or> sQwesFeatureMask c AND push_bit 27 1 \<noteq> 0) 15 m;
            m = m OR sQwesFeatureMask c;
            m = or_if (isAntennaInfoAvailable c) 28 m;
            m = or_if (pp AND 3 \<noteq> 0) 29 m;
            hwMask = sHwCapabilitiesMask c;
            m = or_if (hwMask AND 2 \<noteq> 0) 33 m;
            m = or_if (hwMask AND 1 \<noteq> 0) 32 m
        in or_if (isFeatureSupported 20 c) 34 m
      else 0)"

lemma bit_or_if [simp]: "bit (or_if b n m) k \<longleftrightarrow> bit m k \<or> b \<and> k = n \<and> n < 64"
  by (auto simp: or_if_def bit_simps dest: bit_imp_le_length)

lemma getCapabilities_unknown [simp]: "getCapabilities False pp c = 0"
  by (simp add: getCapabilities_def)

text \<open>Each bit of the reported mask states one fact of the engine.\<close>

lemma getCapabilities_bits:
  "bit (getCapabilities True pp c) 0"
  "bit (getCapabilities True pp c) 4"
  "bit (getCapabilities True pp c) 32 \<longleftrightarrow> bit (sQwesFeatureMask c) 32 \<or> sHwCapabilitiesMask c AND 1 \<noteq> 0"
  "bit (getCapabilities True pp c) 10 \<longleftrightarrow> bit (sQwesFeatureMask c) 10 \<or> isFeatureSupported 5 c"
  by (auto simp: getCapabilities_def Let_def bit_or_iff)

end
