(* ===== verification/GeofenceAdapter.thy ===== *)
theory GeofenceAdapter
  imports LocAdapterBase Steps "HOL-Library.Multiset"
begin

text \<open>
  \<^verbatim>\<open>gps/geofence/GeofenceAdapter.cpp\<close>: the geofences of all clients, the requests made to the
  modem for them and what its answers do.

  One thread runs the messages of the queue in order.  A request to the modem interface, which
  is loaded from a vendor library, is answered at some later time, in any order, with any
  error: the answer is a message that runs the continuation the request was made with.  The
  arrays that a command allocates and its last continuation deletes are a batch; an operation is
  \<open>None\<close> where it reads or writes a deleted batch or an indeterminate value, and where a loop
  never ends.
\<close>

section \<open>Data\<close>

datatype geofence_key = GeofenceKey (key_client: client) (key_id: u32)

text \<open>The order of the keys, \<open>operator <\<close> of the struct.\<close>

definition geofence_key_less :: "geofence_key \<Rightarrow> geofence_key \<Rightarrow> bool" where
  "geofence_key_less left right \<longleftrightarrow> key_id left < key_id right
     \<or> (key_id left = key_id right \<and> key_client left < key_client right)"

instantiation geofence_key :: linorder
begin

definition less_eq_geofence_key :: "geofence_key \<Rightarrow> geofence_key \<Rightarrow> bool" where
  "less_eq_geofence_key left right \<longleftrightarrow> key_id left < key_id right
     \<or> (key_id left = key_id right \<and> key_client left \<le> key_client right)"

definition less_geofence_key :: "geofence_key \<Rightarrow> geofence_key \<Rightarrow> bool" where
  "less_geofence_key left right = geofence_key_less left right"

instance
  by standard (auto simp: less_eq_geofence_key_def less_geofence_key_def geofence_key_less_def geofence_key.expand)

end

text \<open>The coordinates are copied only, as the bits of a \<open>double\<close>.\<close>

record geofence_option =
  breachTypeMask :: u32
  opt_responsiveness :: u32
  opt_dwellTime :: u32
  opt_confidence :: u32

record geofence_info =
  info_latitude :: u64
  info_longitude :: u64
  info_radius :: u64

record geofence_object =
  obj_key :: geofence_key
  breachMask :: u32
  responsiveness :: u32
  dwellTime :: u32
  confidence :: u32
  latitude :: u64
  longitude :: u64
  radius :: u64
  paused :: bool

text \<open>The requests to the modem interface and the continuations they carry.\<close>

datatype geo_op = OpAdd | OpRemove | OpPause | OpResume | OpModify

datatype geo_request =
    ReqCallQueue
  | ReqAdd u32 geofence_option geofence_info
  | ReqRemove u32 u32
  | ReqPause u32 u32
  | ReqResume u32 u32
  | ReqModify u32 u32 geofence_option

text \<open>\<open>BatchStep\<close> is the lambda given to \<open>addToCallQueue\<close> for item \<open>i\<close> of a batch,
  \<open>BatchDone\<close> the one given to the request for that item, with the hardware id it captured.\<close>

datatype geo_cont =
    BatchStep geo_op nat nat
  | BatchDone geo_op nat nat u32
  | StopDone u32 bool
  | RestartDone geofence_object
  | PowerPauseDone u32
  | PowerResumeDone u32
  | Ignored

datatype geo_msg =
    MsgAddClient client location_callbacks
  | MsgRemoveClient client bool
  | MsgRequestCapabilities client
  | MsgSSREvent
  | MsgAddGeofences client nat "u32 list" "geofence_option list option" "geofence_info list option"
  | MsgBatch geo_op client nat "u32 option list" "geofence_option list option"
  | MsgGeofenceBreach "u32 list" u64 u32 u64
  | MsgGeofenceStatus u32
  | MsgUpdateSystemPowerState power_state
  | MsgResponse geo_cont location_error u32

record geo_batch =
  mOp :: geo_op
  mClient :: client
  mCount :: nat
  mIds :: "u32 option list"
  mOptions :: "geofence_option list"
  mInfos :: "geofence_info list"
  errs :: "location_error option list"
  freed :: bool

text \<open>The calls made on the callbacks of the clients.\<close>

datatype geo_call =
    CallCollectiveResponse client nat "location_error option list" "u32 option list"
  | CallCapabilities client u64
  | CallRemoveClient client
  | CallBreach client "u32 list" u64 u32 u64
  | CallStatus client u32

record geo_sys =
  mGeofences :: "(u32, geofence_object) ord_map"
  mGeofenceIds :: "(geofence_key, u32) ord_map"
  mSystemPowerState :: power_state
  mClientData :: client_data
  mEvtMask :: u64
  mIsEngineCapabilitiesKnown :: bool
  mContext :: context_base
  mEngineLockState :: engine_lock_state
  mPendingMsgs :: "geo_msg list"
  mSessionIdCounter :: u32
  queue :: "geo_msg list"
  outstanding :: "(geo_request \<times> geo_cont) list"
  batches :: "geo_batch list"
  calls :: "geo_call list"

section \<open>The tables\<close>

definition getHwIdFromClient :: "client \<Rightarrow> u32 \<Rightarrow> geo_sys \<Rightarrow> location_error \<times> u32" where
  "getHwIdFromClient client clientId s =
     (case om_get (GeofenceKey client clientId) (mGeofenceIds s) of
        Some hwId \<Rightarrow> (LOCATION_ERROR_SUCCESS, hwId)
      | None \<Rightarrow> (LOCATION_ERROR_ID_UNKNOWN, 0))"

definition getGeofenceKeyFromHwId :: "u32 \<Rightarrow> geo_sys \<Rightarrow> geofence_key option" where
  "getGeofenceKeyFromHwId hwId s = map_option obj_key (om_get hwId (mGeofences s))"

definition saveGeofenceItem ::
  "client \<Rightarrow> u32 \<Rightarrow> u32 \<Rightarrow> geofence_option \<Rightarrow> geofence_info \<Rightarrow> geo_sys \<Rightarrow> geo_sys" where
  "saveGeofenceItem client clientId hwId options info s =
     (let key = GeofenceKey client clientId;
          object = \<lparr>obj_key = key, breachMask = breachTypeMask options,
            responsiveness = opt_responsiveness options, dwellTime = opt_dwellTime options,
            confidence = opt_confidence options, latitude = info_latitude info,
            longitude = info_longitude info, radius = info_radius info, paused = False\<rparr>
      in s\<lparr>mGeofences := om_put hwId object (mGeofences s),
           mGeofenceIds := om_put key hwId (mGeofenceIds s)\<rparr>)"

definition removeGeofenceItem :: "u32 \<Rightarrow> geo_sys \<Rightarrow> geo_sys" where
  "removeGeofenceItem hwId s =
     (case getGeofenceKeyFromHwId hwId s of
        None \<Rightarrow> s
      | Some key \<Rightarrow>
          if om_get key (mGeofenceIds s) \<noteq> None
          then s\<lparr>mGeofenceIds := om_erase key (mGeofenceIds s),
                 mGeofences := om_erase hwId (mGeofences s)\<rparr>
          else s)"

definition pauseGeofenceItem :: "u32 \<Rightarrow> geo_sys \<Rightarrow> geo_sys" where
  "pauseGeofenceItem hwId s =
     s\<lparr>mGeofences := om_adjust hwId (\<lambda>o'. o'\<lparr>paused := True\<rparr>) (mGeofences s)\<rparr>"

definition resumeGeofenceItem :: "u32 \<Rightarrow> geo_sys \<Rightarrow> geo_sys" where
  "resumeGeofenceItem hwId s =
     s\<lparr>mGeofences := om_adjust hwId (\<lambda>o'. o'\<lparr>paused := False\<rparr>) (mGeofences s)\<rparr>"

definition modifyGeofenceItem :: "u32 \<Rightarrow> geofence_option \<Rightarrow> geo_sys \<Rightarrow> geo_sys" where
  "modifyGeofenceItem hwId options s =
     s\<lparr>mGeofences := om_adjust hwId
         (\<lambda>o'. o'\<lparr>breachMask := breachTypeMask options,
                  responsiveness := opt_responsiveness options,
                  dwellTime := opt_dwellTime options,
                  confidence := opt_confidence options\<rparr>) (mGeofences s)\<rparr>"

section \<open>Requests and batches\<close>

definition send_msg :: "geo_msg \<Rightarrow> geo_sys \<Rightarrow> geo_sys" where
  "send_msg m s = s\<lparr>queue := queue s @ [m]\<rparr>"

definition request :: "geo_request \<Rightarrow> geo_cont \<Rightarrow> geo_sys \<Rightarrow> geo_sys" where
  "request r k s = s\<lparr>outstanding := outstanding s @ [(r, k)]\<rparr>"

definition call :: "geo_call \<Rightarrow> geo_sys \<Rightarrow> geo_sys" where
  "call c s = s\<lparr>calls := calls s @ [c]\<rparr>"

text \<open>A batch that is still allocated.\<close>

definition live_batch :: "nat \<Rightarrow> geo_sys \<Rightarrow> geo_batch option" where
  "live_batch b s = (if b < length (batches s) \<and> \<not> freed (batches s ! b)
                     then Some (batches s ! b) else None)"

definition item_id :: "geo_batch \<Rightarrow> nat \<Rightarrow> u32 option" where
  "item_id r i = (if i < length (mIds r) then mIds r ! i else None)"

definition item_option :: "geo_batch \<Rightarrow> nat \<Rightarrow> geofence_option option" where
  "item_option r i = (if i < length (mOptions r) then Some (mOptions r ! i) else None)"

definition item_info :: "geo_batch \<Rightarrow> nat \<Rightarrow> geofence_info option" where
  "item_info r i = (if i < length (mInfos r) then Some (mInfos r ! i) else None)"

definition set_err :: "nat \<Rightarrow> nat \<Rightarrow> location_error \<Rightarrow> geo_sys \<Rightarrow> geo_sys option" where
  "set_err b i e s = do {
     r \<leftarrow> live_batch b s;
     if i < length (errs r)
     then Some (s\<lparr>batches := (batches s)[b := r\<lparr>errs := (errs r)[i := Some e]\<rparr>]\<rparr>)
     else None }"

definition reportResponse ::
  "client \<Rightarrow> nat \<Rightarrow> location_error option list \<Rightarrow> u32 option list \<Rightarrow> geo_sys \<Rightarrow> geo_sys" where
  "reportResponse client cnt es ids s =
     (case om_get client (mClientData s) of
        Some cb \<Rightarrow> if collectiveResponseCb cb then call (CallCollectiveResponse client cnt es ids) s
                   else s
      | None \<Rightarrow> s)"

text \<open>The end of a batch: the response of the last item, and the arrays are deleted.\<close>

definition finish_batch :: "nat \<Rightarrow> nat \<Rightarrow> geo_sys \<Rightarrow> geo_sys option" where
  "finish_batch b i s = do {
     r \<leftarrow> live_batch b s;
     if i = mCount r - 1
     then let s1 = reportResponse (mClient r) (mCount r) (errs r) (mIds r) s
          in Some (s1\<lparr>batches := (batches s1)[b := r\<lparr>freed := True\<rparr>]\<rparr>)
     else Some s }"

section \<open>The items of a command\<close>

definition engine_off_or_success :: "location_error \<Rightarrow> geo_sys \<Rightarrow> bool" where
  "engine_off_or_success err s =
     (mEngineLockState s = ENGINE_LOCK_STATE_DISABLED \<or> err = LOCATION_ERROR_SUCCESS)"

definition add_step :: "nat \<Rightarrow> nat \<Rightarrow> geo_sys \<Rightarrow> geo_sys option" where
  "add_step b i s = do {
     r \<leftarrow> live_batch b s;
     idn \<leftarrow> item_id r i; opt \<leftarrow> item_option r i; info \<leftarrow> item_info r i;
     Some (request (ReqAdd idn opt info) (BatchDone OpAdd b i 0) s) }"

definition add_done :: "nat \<Rightarrow> nat \<Rightarrow> location_error \<Rightarrow> u32 \<Rightarrow> geo_sys \<Rightarrow> geo_sys option" where
  "add_done b i err hwId s = do {
     s1 \<leftarrow> (if engine_off_or_success err s
           then do {
             r \<leftarrow> live_batch b s;
             idn \<leftarrow> item_id r i; opt \<leftarrow> item_option r i; info \<leftarrow> item_info r i;
             Some (saveGeofenceItem (mClient r) idn hwId opt info s) }
           else Some s);
     s2 \<leftarrow> set_err b i err s1;
     finish_batch b i s2 }"

text \<open>The other commands look the item up first, and answer at once when it is unknown.\<close>

definition item_request :: "geo_op \<Rightarrow> geo_batch \<Rightarrow> nat \<Rightarrow> u32 \<Rightarrow> u32 \<Rightarrow> geo_request option" where
  "item_request op r i hwId idn =
     (case op of
        OpRemove \<Rightarrow> Some (ReqRemove hwId idn)
      | OpPause \<Rightarrow> Some (ReqPause hwId idn)
      | OpResume \<Rightarrow> Some (ReqResume hwId idn)
      | OpModify \<Rightarrow> map_option (ReqModify hwId idn) (item_option r i)
      | OpAdd \<Rightarrow> None)"

definition item_step :: "geo_op \<Rightarrow> nat \<Rightarrow> nat \<Rightarrow> geo_sys \<Rightarrow> geo_sys option" where
  "item_step op b i s = do {
     r \<leftarrow> live_batch b s;
     idn \<leftarrow> item_id r i;
     let (e, hwId) = getHwIdFromClient (mClient r) idn s;
     s1 \<leftarrow> set_err b i e s;
     if e = LOCATION_ERROR_SUCCESS
     then do {
       rq \<leftarrow> item_request op r i hwId idn;
       Some (request rq (BatchDone op b i hwId) s1) }
     else finish_batch b i s1 }"

text \<open>The lambdas of the four commands differ in the request only.\<close>

definition remove_step :: "nat \<Rightarrow> nat \<Rightarrow> geo_sys \<Rightarrow> geo_sys option" where
  "remove_step = item_step OpRemove"

definition pause_step :: "nat \<Rightarrow> nat \<Rightarrow> geo_sys \<Rightarrow> geo_sys option" where
  "pause_step = item_step OpPause"

definition resume_step :: "nat \<Rightarrow> nat \<Rightarrow> geo_sys \<Rightarrow> geo_sys option" where
  "resume_step = item_step OpResume"

definition modify_step :: "nat \<Rightarrow> nat \<Rightarrow> geo_sys \<Rightarrow> geo_sys option" where
  "modify_step = item_step OpModify"

definition op_step :: "geo_op \<Rightarrow> nat \<Rightarrow> nat \<Rightarrow> geo_sys \<Rightarrow> geo_sys option" where
  "op_step op = (case op of OpAdd \<Rightarrow> add_step | OpRemove \<Rightarrow> remove_step | OpPause \<Rightarrow> pause_step
     | OpResume \<Rightarrow> resume_step | OpModify \<Rightarrow> modify_step)"

lemma op_step_eq [simp]: "op_step op = (if op = OpAdd then add_step else item_step op)"
  by (cases op) (simp_all add: op_step_def remove_step_def pause_step_def resume_step_def modify_step_def)

definition remove_done :: "nat \<Rightarrow> nat \<Rightarrow> u32 \<Rightarrow> location_error \<Rightarrow> geo_sys \<Rightarrow> geo_sys option" where
  "remove_done b i hwId err s = do {
     let s1 = (if engine_off_or_success err s then removeGeofenceItem hwId s else s);
     s2 \<leftarrow> set_err b i err s1;
     finish_batch b i s2 }"

definition pause_done :: "nat \<Rightarrow> nat \<Rightarrow> u32 \<Rightarrow> location_error \<Rightarrow> geo_sys \<Rightarrow> geo_sys option" where
  "pause_done b i hwId err s = do {
     let s1 = (if err = LOCATION_ERROR_SUCCESS then pauseGeofenceItem hwId s else s);
     s2 \<leftarrow> set_err b i err s1;
     finish_batch b i s2 }"

text \<open>A failed resume leaves everything as it is: no error is stored and no response is sent.\<close>

definition resume_done :: "nat \<Rightarrow> nat \<Rightarrow> u32 \<Rightarrow> location_error \<Rightarrow> geo_sys \<Rightarrow> geo_sys option" where
  "resume_done b i hwId err s =
     (if err = LOCATION_ERROR_SUCCESS
      then do {
        s1 \<leftarrow> set_err b i err s;
        finish_batch b i (resumeGeofenceItem hwId s1) }
      else Some s)"

text \<open>The error of a failed modification is not stored.\<close>

definition modify_done :: "nat \<Rightarrow> nat \<Rightarrow> u32 \<Rightarrow> location_error \<Rightarrow> geo_sys \<Rightarrow> geo_sys option" where
  "modify_done b i hwId err s = do {
     s1 \<leftarrow> (if engine_off_or_success err s
           then do {
             s1 \<leftarrow> set_err b i err s;
             r \<leftarrow> live_batch b s1;
             opt \<leftarrow> item_option r i;
             Some (modifyGeofenceItem hwId opt s1) }
           else Some s);
     finish_batch b i s1 }"

section \<open>Sessions, restart and power\<close>

text \<open>The loop over the entries of \<open>mGeofenceIds\<close>.  With \<open>eraseSession\<close> off a matching entry
  is neither erased nor passed, so the loop stays there.\<close>

fun stop_loop :: "client \<Rightarrow> bool \<Rightarrow> (geofence_key \<times> u32) list \<Rightarrow> geo_sys \<Rightarrow> geo_sys option" where
  "stop_loop client eraseSession [] s = Some s"
| "stop_loop client eraseSession ((key, hwId) # es) s =
     (if client = key_client key
      then if eraseSession
           then stop_loop client eraseSession es
             (request (ReqRemove hwId (key_id key)) (StopDone hwId eraseSession)
               (s\<lparr>mGeofenceIds := om_erase key (mGeofenceIds s)\<rparr>))
           else None
      else stop_loop client eraseSession es s)"

definition stopClientSessions :: "client \<Rightarrow> bool \<Rightarrow> geo_sys \<Rightarrow> geo_sys option" where
  "stopClientSessions client eraseSession s = stop_loop client eraseSession (mGeofenceIds s) s"

definition stop_done :: "u32 \<Rightarrow> bool \<Rightarrow> location_error \<Rightarrow> geo_sys \<Rightarrow> geo_sys" where
  "stop_done hwId eraseSession err s =
     (if err = LOCATION_ERROR_SUCCESS \<and> eraseSession
      then s\<lparr>mGeofences := om_erase hwId (mGeofences s)\<rparr> else s)"

definition updateClientsEventMask :: "geo_sys \<Rightarrow> geo_sys" where
  "updateClientsEventMask s =
     (let breach = list_ex (\<lambda>e. geofenceBreachCb (snd e)) (mClientData s);
          status = list_ex (\<lambda>e. geofenceStatusCb (snd e)) (mClientData s);
          msk = or_if status 14 (or_if breach 28 (or_if breach 21 0))
      in s\<lparr>mEvtMask := new_evt_mask msk LOC_REGISTRATION_MASK_SET (mEvtMask s)\<rparr>)"

definition object_option :: "geofence_object \<Rightarrow> geofence_option" where
  "object_option o' = \<lparr>breachTypeMask = breachMask o', opt_responsiveness = responsiveness o',
     opt_dwellTime = dwellTime o', opt_confidence = confidence o'\<rparr>"

definition object_info :: "geofence_object \<Rightarrow> geofence_info" where
  "object_info o' = \<lparr>info_latitude = latitude o', info_longitude = longitude o',
     info_radius = radius o'\<rparr>"

definition restartGeofences :: "geo_sys \<Rightarrow> geo_sys" where
  "restartGeofences s =
     (if mGeofences s = [] then s
      else fold (\<lambda>(_, object). request
             (ReqAdd (key_id (obj_key object)) (object_option object) (object_info object))
             (RestartDone object))
           (mGeofences s) (s\<lparr>mGeofences := [], mGeofenceIds := []\<rparr>))"

definition restart_done :: "geofence_object \<Rightarrow> location_error \<Rightarrow> u32 \<Rightarrow> geo_sys \<Rightarrow> geo_sys" where
  "restart_done object err hwId s =
     (if err = LOCATION_ERROR_SUCCESS
      then let s1 = (if paused object
                     then request (ReqPause hwId (key_id (obj_key object))) Ignored s else s)
           in saveGeofenceItem (key_client (obj_key object)) (key_id (obj_key object)) hwId
                (object_option object) (object_info object) s1
      else s)"

definition pauseOrResumeGeofences :: "bool \<Rightarrow> geo_sys \<Rightarrow> geo_sys" where
  "pauseOrResumeGeofences pauseOrResume s =
     fold (\<lambda>(key, hwId). if pauseOrResume
             then request (ReqResume hwId (key_id key)) (PowerResumeDone hwId)
             else request (ReqPause hwId (key_id key)) (PowerPauseDone hwId))
       (mGeofenceIds s) s"

definition updateSystemPowerState :: "power_state \<Rightarrow> geo_sys \<Rightarrow> geo_sys" where
  "updateSystemPowerState systemPowerState s =
     (if systemPowerState = POWER_STATE_UNKNOWN then s
      else let s1 = s\<lparr>mSystemPowerState := systemPowerState\<rparr> in
        if systemPowerState = POWER_STATE_SUSPEND \<or> systemPowerState = POWER_STATE_SHUTDOWN
           \<or> systemPowerState = POWER_STATE_DEEP_SLEEP_ENTRY
        then pauseOrResumeGeofences False s1
        else if systemPowerState = POWER_STATE_RESUME \<or> systemPowerState = POWER_STATE_DEEP_SLEEP_EXIT
        then pauseOrResumeGeofences True s1
        else s1)"

definition capabilities :: "geo_sys \<Rightarrow> u64" where
  "capabilities s = getCapabilities (mIsEngineCapabilitiesKnown s) 0 (mContext s)"

definition ssr_proc :: "geo_sys \<Rightarrow> geo_sys" where
  "ssr_proc s =
     (let s1 = s\<lparr>mIsEngineCapabilitiesKnown := True\<rparr>;
          s2 = fold (\<lambda>c. call (CallCapabilities c (capabilities s1)))
                 (broadcastCapabilities (mClientData s1)) s1
      in if mEngineLockState s2 \<noteq> ENGINE_LOCK_STATE_DISABLED
         then let s3 = (fold send_msg (mPendingMsgs s2) s2)\<lparr>mPendingMsgs := []\<rparr>
              in if mSystemPowerState s3 \<noteq> POWER_STATE_SUSPEND
                   \<and> mSystemPowerState s3 \<noteq> POWER_STATE_DEEP_SLEEP_ENTRY
                   \<and> mSystemPowerState s3 \<noteq> POWER_STATE_SHUTDOWN
                 then restartGeofences s3 else s3
         else s2)"

text \<open>Each client with fences among those breached is told its own numbers for them.\<close>

definition breached_ids :: "client \<Rightarrow> u32 list \<Rightarrow> geo_sys \<Rightarrow> u32 list" where
  "breached_ids client hwIds s =
     List.map_filter (\<lambda>hwId. case getGeofenceKeyFromHwId hwId s of
         Some key \<Rightarrow> if key_client key = client then Some (key_id key) else None
       | None \<Rightarrow> None) hwIds"

definition geofenceBreach :: "u32 list \<Rightarrow> u64 \<Rightarrow> u32 \<Rightarrow> u64 \<Rightarrow> geo_sys \<Rightarrow> geo_sys" where
  "geofenceBreach hwIds location breachType timestamp s =
     fold (\<lambda>(client, cb) s'.
        let clientIds = breached_ids client hwIds s'
        in if clientIds \<noteq> [] \<and> geofenceBreachCb cb
           then call (CallBreach client clientIds location breachType timestamp) s' else s')
       (mClientData s) s"

definition geofenceStatus :: "u32 \<Rightarrow> geo_sys \<Rightarrow> geo_sys" where
  "geofenceStatus available s =
     fold (\<lambda>(client, cb) s'. if geofenceStatusCb cb then call (CallStatus client available) s' else s')
       (mClientData s) s"

section \<open>Messages\<close>

definition new_batch :: "geo_batch \<Rightarrow> geo_sys \<Rightarrow> geo_sys" where
  "new_batch r s = s\<lparr>batches := batches s @ [r]\<rparr>"

text \<open>The message of a command allocates the errors and queues one step per item.  Where an array
  is missing the errors are set and nothing more happens.\<close>

definition queue_items :: "geo_op \<Rightarrow> nat \<Rightarrow> nat \<Rightarrow> geo_sys \<Rightarrow> geo_sys" where
  "queue_items op b n s = fold (\<lambda>i. request ReqCallQueue (BatchStep op b i)) [0..<n] s"

definition add_proc :: "client \<Rightarrow> nat \<Rightarrow> u32 list \<Rightarrow> geofence_option list option
    \<Rightarrow> geofence_info list option \<Rightarrow> geo_sys \<Rightarrow> geo_sys" where
  "add_proc client cnt ids options infos s =
     (let b = length (batches s);
          r = \<lparr>mOp = OpAdd, mClient = client, mCount = cnt, mIds = map Some ids,
               mOptions = (case options of None \<Rightarrow> [] | Some xs \<Rightarrow> xs),
               mInfos = (case infos of None \<Rightarrow> [] | Some xs \<Rightarrow> xs),
               errs = replicate cnt None, freed = False\<rparr>
      in if options = None \<or> infos = None
         then new_batch (r\<lparr>errs := replicate cnt (Some LOCATION_ERROR_INVALID_PARAMETER)\<rparr>) s
         else queue_items OpAdd b cnt (new_batch r s))"

definition batch_proc :: "geo_op \<Rightarrow> client \<Rightarrow> nat \<Rightarrow> u32 option list
    \<Rightarrow> geofence_option list option \<Rightarrow> geo_sys \<Rightarrow> geo_sys" where
  "batch_proc op client cnt ids options s =
     (let b = length (batches s);
          r = \<lparr>mOp = op, mClient = client, mCount = cnt, mIds = ids,
               mOptions = (case options of None \<Rightarrow> [] | Some xs \<Rightarrow> xs), mInfos = [],
               errs = replicate cnt None, freed = False\<rparr>
      in if op = OpModify \<and> options = None
         then new_batch (r\<lparr>errs := replicate cnt (Some LOCATION_ERROR_INVALID_PARAMETER)\<rparr>) s
         else queue_items op b cnt (new_batch r s))"

definition remove_client_proc :: "client \<Rightarrow> bool \<Rightarrow> geo_sys \<Rightarrow> geo_sys option" where
  "remove_client_proc client rmClientCb s = do {
     s1 \<leftarrow> stopClientSessions client True s;
     let s2 = updateClientsEventMask (s1\<lparr>mClientData := eraseClient client (mClientData s1)\<rparr>);
     Some (if rmClientCb then call (CallRemoveClient client) s2 else s2) }"

definition request_capabilities_proc :: "client \<Rightarrow> geo_sys \<Rightarrow> geo_sys" where
  "request_capabilities_proc client s =
     (if \<not> mIsEngineCapabilitiesKnown s
      then s\<lparr>mPendingMsgs := mPendingMsgs s @ [MsgRequestCapabilities client]\<rparr>
      else if capabilitiesCb (getClientCallbacks client (mClientData s))
      then call (CallCapabilities client (capabilities s)) s else s)"

definition response_proc :: "geo_cont \<Rightarrow> location_error \<Rightarrow> u32 \<Rightarrow> geo_sys \<Rightarrow> geo_sys option" where
  "response_proc k err hwId s =
     (case k of
        BatchStep op b i \<Rightarrow> op_step op b i s
      | BatchDone op b i hw \<Rightarrow>
          (case op of OpAdd \<Rightarrow> add_done b i err hwId s
           | OpRemove \<Rightarrow> remove_done b i hw err s
           | OpPause \<Rightarrow> pause_done b i hw err s
           | OpResume \<Rightarrow> resume_done b i hw err s
           | OpModify \<Rightarrow> modify_done b i hw err s)
      | StopDone hw er \<Rightarrow> Some (stop_done hw er err s)
      | RestartDone object \<Rightarrow> Some (restart_done object err hwId s)
      | PowerPauseDone hw \<Rightarrow>
          Some (if err = LOCATION_ERROR_SUCCESS then pauseGeofenceItem hw s else s)
      | PowerResumeDone hw \<Rightarrow>
          Some (if err = LOCATION_ERROR_SUCCESS then resumeGeofenceItem hw s else s)
      | Ignored \<Rightarrow> Some s)"

definition proc :: "geo_msg \<Rightarrow> geo_sys \<Rightarrow> geo_sys option" where
  "proc m s =
     (case m of
        MsgAddClient client cb \<Rightarrow>
          Some (updateClientsEventMask (s\<lparr>mClientData := saveClient client cb (mClientData s)\<rparr>))
      | MsgRemoveClient client cb \<Rightarrow> remove_client_proc client cb s
      | MsgRequestCapabilities client \<Rightarrow> Some (request_capabilities_proc client s)
      | MsgSSREvent \<Rightarrow> Some (ssr_proc s)
      | MsgAddGeofences client cnt ids options infos \<Rightarrow>
          Some (add_proc client cnt ids options infos s)
      | MsgBatch op client cnt ids options \<Rightarrow> Some (batch_proc op client cnt ids options s)
      | MsgGeofenceBreach hwIds location breachType timestamp \<Rightarrow>
          Some (geofenceBreach hwIds location breachType timestamp s)
      | MsgGeofenceStatus available \<Rightarrow> Some (geofenceStatus available s)
      | MsgUpdateSystemPowerState ps \<Rightarrow> Some (updateSystemPowerState ps s)
      | MsgResponse k err hwId \<Rightarrow> response_proc k err hwId s)"

section \<open>Commands and the environment\<close>

text \<open>\<open>COPY_IF_NOT_NULL\<close> into a new array: without a source the elements stay
  indeterminate.\<close>

definition copy_ids :: "nat \<Rightarrow> u32 list option \<Rightarrow> u32 option list" where
  "copy_ids cnt src = (case src of None \<Rightarrow> replicate cnt None
     | Some xs \<Rightarrow> map (\<lambda>i. if i < length xs then Some (xs ! i) else None) [0..<cnt])"

fun generate_ids :: "nat \<Rightarrow> u32 \<Rightarrow> u32 list \<times> u32" where
  "generate_ids 0 c = ([], c)"
| "generate_ids (Suc n) c =
     (let c = generateSessionId c; (ids, c') = generate_ids n c in (c # ids, c'))"

datatype geo_command =
    AddClient client location_callbacks
  | RemoveClient client bool
  | RequestCapabilities client
  | AddGeofences client nat "geofence_option list option" "geofence_info list option"
  | RemoveGeofences client nat "u32 list option"
  | PauseGeofences client nat "u32 list option"
  | ResumeGeofences client nat "u32 list option"
  | ModifyGeofences client nat "u32 list option" "geofence_option list option"
  | EngineUp
  | GeofenceBreachEvent "u32 list" u64 u32 u64
  | GeofenceStatusEvent u32
  | UpdatePower power_state

definition addGeofencesCommand :: "client \<Rightarrow> nat \<Rightarrow> geofence_option list option
    \<Rightarrow> geofence_info list option \<Rightarrow> geo_sys \<Rightarrow> geo_sys" where
  "addGeofencesCommand client cnt options infos s =
     (if cnt = 0 then s
      else let (ids, c) = generate_ids cnt (mSessionIdCounter s)
           in send_msg (MsgAddGeofences client cnt ids options infos)
                (s\<lparr>mSessionIdCounter := c\<rparr>))"

definition itemsCommand :: "geo_op \<Rightarrow> client \<Rightarrow> nat \<Rightarrow> u32 list option
    \<Rightarrow> geofence_option list option \<Rightarrow> geo_sys \<Rightarrow> geo_sys" where
  "itemsCommand op client cnt ids options s =
     (if cnt = 0 then s else send_msg (MsgBatch op client cnt (copy_ids cnt ids) options) s)"

definition removeGeofencesCommand :: "client \<Rightarrow> nat \<Rightarrow> u32 list option \<Rightarrow> geo_sys \<Rightarrow> geo_sys" where
  "removeGeofencesCommand client cnt ids = itemsCommand OpRemove client cnt ids None"

definition pauseGeofencesCommand :: "client \<Rightarrow> nat \<Rightarrow> u32 list option \<Rightarrow> geo_sys \<Rightarrow> geo_sys" where
  "pauseGeofencesCommand client cnt ids = itemsCommand OpPause client cnt ids None"

definition resumeGeofencesCommand :: "client \<Rightarrow> nat \<Rightarrow> u32 list option \<Rightarrow> geo_sys \<Rightarrow> geo_sys" where
  "resumeGeofencesCommand client cnt ids = itemsCommand OpResume client cnt ids None"

definition modifyGeofencesCommand :: "client \<Rightarrow> nat \<Rightarrow> u32 list option
    \<Rightarrow> geofence_option list option \<Rightarrow> geo_sys \<Rightarrow> geo_sys" where
  "modifyGeofencesCommand client cnt ids options = itemsCommand OpModify client cnt ids options"

definition geofenceBreachEvent :: "u32 list \<Rightarrow> u64 \<Rightarrow> u32 \<Rightarrow> u64 \<Rightarrow> geo_sys \<Rightarrow> geo_sys" where
  "geofenceBreachEvent hwIds location breachType timestamp s =
     (if hwIds = [] then s
      else send_msg (MsgGeofenceBreach hwIds location breachType timestamp) s)"

definition command :: "geo_command \<Rightarrow> geo_sys \<Rightarrow> geo_sys" where
  "command c s =
     (case c of
        AddClient client cb \<Rightarrow> send_msg (MsgAddClient client cb) s
      | RemoveClient client cb \<Rightarrow> send_msg (MsgRemoveClient client cb) s
      | RequestCapabilities client \<Rightarrow> send_msg (MsgRequestCapabilities client) s
      | AddGeofences client cnt options infos \<Rightarrow> addGeofencesCommand client cnt options infos s
      | RemoveGeofences client cnt ids \<Rightarrow> removeGeofencesCommand client cnt ids s
      | PauseGeofences client cnt ids \<Rightarrow> pauseGeofencesCommand client cnt ids s
      | ResumeGeofences client cnt ids \<Rightarrow> resumeGeofencesCommand client cnt ids s
      | ModifyGeofences client cnt ids options \<Rightarrow> modifyGeofencesCommand client cnt ids options s
      | EngineUp \<Rightarrow> send_msg MsgSSREvent s
      | GeofenceBreachEvent hwIds l t ts \<Rightarrow> geofenceBreachEvent hwIds l t ts s
      | GeofenceStatusEvent a \<Rightarrow> send_msg (MsgGeofenceStatus a) s
      | UpdatePower ps \<Rightarrow> send_msg (MsgUpdateSystemPowerState ps) s)"

text \<open>
  A step of the system: a client or the modem thread calls a command, the thread of the queue runs
  the next message, the modem interface answers one of the outstanding requests, or the lock
  state of the engine changes.
\<close>

datatype geo_event =
    Command geo_command
  | Deliver
  | Respond nat location_error u32
  | LockState engine_lock_state

definition geo_step :: "geo_event \<Rightarrow> geo_sys \<Rightarrow> geo_sys option" where
  "geo_step e s =
     (case e of
        Command c \<Rightarrow> Some (command c s)
      | Deliver \<Rightarrow> (case queue s of [] \<Rightarrow> Some s
          | m # ms \<Rightarrow> proc m (s\<lparr>queue := ms\<rparr>))
      | Respond n err hwId \<Rightarrow>
          Some (if n < length (outstanding s)
                then send_msg (MsgResponse (snd (outstanding s ! n)) err hwId)
                  (s\<lparr>outstanding := take n (outstanding s) @ drop (Suc n) (outstanding s)\<rparr>)
                else s)
      | LockState st \<Rightarrow> Some (s\<lparr>mEngineLockState := st\<rparr>))"

definition geo_init :: "context_base \<Rightarrow> geo_sys" where
  "geo_init c = \<lparr>mGeofences = [], mGeofenceIds = [], mSystemPowerState = POWER_STATE_UNKNOWN,
     mClientData = [], mEvtMask = 0, mIsEngineCapabilitiesKnown = sIsEngineCapabilitiesKnown c,
     mContext = c, mEngineLockState = ENGINE_LOCK_STATE_DISABLED, mPendingMsgs = [],
     mSessionIdCounter = 1, queue = [], outstanding = [], batches = [], calls = []\<rparr>"

section \<open>Concrete runs\<close>

definition example_callbacks :: location_callbacks where
  "example_callbacks = no_callbacks\<lparr>collectiveResponseCb := True, geofenceBreachCb := True\<rparr>"

definition example_option :: geofence_option where
  "example_option = \<lparr>breachTypeMask = 3, opt_responsiveness = 1000, opt_dwellTime = 0, opt_confidence = 1\<rparr>"

definition example_info :: geofence_info where
  "example_info = \<lparr>info_latitude = 5, info_longitude = 6, info_radius = 7\<rparr>"

text \<open>A client adds one geofence, which the modem calls \<open>hw\<close>.\<close>

definition add_one :: "client \<Rightarrow> u32 \<Rightarrow> geo_event list" where
  "add_one c hw = [LockState ENGINE_LOCK_STATE_ENABLED, Command (AddClient c example_callbacks), Deliver,
     Command (AddGeofences c 1 (Some [example_option]) (Some [example_info])), Deliver,
     Respond 0 LOCATION_ERROR_SUCCESS 0, Deliver, Respond 0 LOCATION_ERROR_SUCCESS hw, Deliver]"

text \<open>A failed modification, and a removal of a known and an unknown geofence.\<close>

definition modify_fails :: "geo_event list" where
  "modify_fails = [Command (ModifyGeofences 7 1 (Some [2]) (Some [example_option])), Deliver,
     Respond 0 LOCATION_ERROR_SUCCESS 0, Deliver, Respond 0 LOCATION_ERROR_GENERAL_FAILURE 0, Deliver]"

definition remove_two :: "geo_event list" where
  "remove_two = [Command (RemoveGeofences 7 2 (Some [2, 99])), Deliver,
     Respond 0 LOCATION_ERROR_SUCCESS 0, Respond 0 LOCATION_ERROR_SUCCESS 0, Deliver, Deliver,
     Respond 0 LOCATION_ERROR_SUCCESS 0, Deliver]"

section \<open>Commands for one geofence are safe\<close>

fun cont_ref :: "geo_cont \<Rightarrow> nat option" where
  "cont_ref (BatchStep op b i) = Some b"
| "cont_ref (BatchDone op b i hw) = Some b"
| "cont_ref _ = None"

fun msg_cont :: "geo_msg \<Rightarrow> geo_cont option" where
  "msg_cont (MsgResponse k err hw) = Some k"
| "msg_cont _ = None"

text \<open>The continuations that may still run: of the requests and of the answers.\<close>

definition conts :: "geo_sys \<Rightarrow> geo_cont multiset" where
  "conts s = mset (map snd (outstanding s)) + mset (List.map_filter msg_cont (queue s))"

text \<open>A batch of one item with the arrays its operation reads.\<close>

definition batch_shape :: "geo_batch \<Rightarrow> bool" where
  "batch_shape r = (mCount r = 1 \<and> length (errs r) = 1 \<and> length (mIds r) = 1 \<and> mIds r ! 0 \<noteq> None
     \<and> (mOp r = OpAdd \<or> mOp r = OpModify \<longrightarrow> length (mOptions r) = 1)
     \<and> (mOp r = OpAdd \<longrightarrow> length (mInfos r) = 1))"

definition batch_live :: "geo_batch list \<Rightarrow> geo_op \<Rightarrow> nat \<Rightarrow> bool" where
  "batch_live bs op b = (b < length bs \<and> \<not> freed (bs ! b) \<and> mOp (bs ! b) = op \<and> batch_shape (bs ! b))"

fun cont_ok :: "geo_batch list \<Rightarrow> geo_cont \<Rightarrow> bool" where
  "cont_ok bs (BatchStep op b i) = (i = 0 \<and> batch_live bs op b)"
| "cont_ok bs (BatchDone op b i hw) = (i = 0 \<and> batch_live bs op b)"
| "cont_ok bs (StopDone hw er) = True"
| "cont_ok bs _ = True"

definition conts_ok :: "geo_batch list \<Rightarrow> geo_cont multiset \<Rightarrow> bool" where
  "conts_ok bs M = ((\<forall>k\<in>#M. cont_ok bs k) \<and> (\<forall>b. size (filter_mset (\<lambda>k. cont_ref k = Some b) M) \<le> 1))"

definition free_of :: "nat \<Rightarrow> geo_cont multiset \<Rightarrow> bool" where
  "free_of b M = (\<forall>k\<in>#M. cont_ref k \<noteq> Some b)"

lemma filter_mset_none: "\<forall>x\<in>#M. \<not> P x \<Longrightarrow> filter_mset P M = {#}"
  by (induction M) auto

lemma filter_mset_noneD: "filter_mset P M = {#} \<Longrightarrow> x \<in># M \<Longrightarrow> \<not> P x"
  by (induction M) (auto split: if_splits)

lemma map_filter_append: "List.map_filter f (xs @ ys) = List.map_filter f xs @ List.map_filter f ys"
  by (simp add: List.map_filter_def)

lemma conts_ok_pop:
  assumes "conts_ok bs (add_mset k M)"
  shows "conts_ok bs M" "cont_ok bs k" "cont_ref k = Some b \<Longrightarrow> free_of b M"
proof -
  have le: "size (filter_mset (\<lambda>k. cont_ref k = Some b) (add_mset k M)) \<le> 1" for b
    using assms by (simp add: conts_ok_def del: filter_mset_add_mset)
  have "size (filter_mset (\<lambda>k. cont_ref k = Some b) M) \<le> 1" for b
    by (rule order_trans [OF _ le [of b]]) simp
  then show "conts_ok bs M" "cont_ok bs k" using assms by (auto simp: conts_ok_def)
  show "free_of b M" if "cont_ref k = Some b"
  proof -
    have "filter_mset (\<lambda>k. cont_ref k = Some b) M = {#}" using le [of b] that by simp
    then show ?thesis using filter_mset_noneD by (fastforce simp: free_of_def)
  qed
qed

lemma cont_ok_other: "cont_ok bs k \<Longrightarrow> cont_ref k \<noteq> Some b \<Longrightarrow> cont_ok (bs[b := r]) k"
  by (cases k) (auto simp: batch_live_def)

lemma cont_ok_append: "cont_ok bs k \<Longrightarrow> cont_ok (bs @ [r]) k"
  by (cases k) (auto simp: batch_live_def nth_append)

lemma conts_ok_upd: "conts_ok bs M \<Longrightarrow> free_of b M \<Longrightarrow> conts_ok (bs[b := r]) M"
  by (simp add: conts_ok_def free_of_def cont_ok_other)

lemma conts_ok_append: "conts_ok bs M \<Longrightarrow> conts_ok (bs @ [r]) M"
  by (simp add: conts_ok_def cont_ok_append)

lemma conts_ok_free: "conts_ok bs M \<Longrightarrow> free_of (length bs) M"
  unfolding conts_ok_def free_of_def
proof
  fix k assume *: "(\<forall>k\<in>#M. cont_ok bs k) \<and> (\<forall>b. size (filter_mset (\<lambda>k. cont_ref k = Some b) M) \<le> 1)"
    "k \<in># M"
  then have "cont_ok bs k" by simp
  then show "cont_ref k \<noteq> Some (length bs)" by (cases k) (auto simp: batch_live_def)
qed

lemma conts_ok_push:
  assumes "conts_ok bs M" "cont_ok bs k" "\<And>b. cont_ref k = Some b \<Longrightarrow> free_of b M"
  shows "conts_ok bs (add_mset k M)"
proof -
  have "size (filter_mset (\<lambda>k. cont_ref k = Some b) (add_mset k M)) \<le> 1" for b
  proof (cases "cont_ref k = Some b")
    case True
    then have "filter_mset (\<lambda>k. cont_ref k = Some b) M = {#}"
      using assms(3) [OF True] by (intro filter_mset_none) (simp add: free_of_def)
    then show ?thesis using True by simp
  qed (use assms(1) in \<open>simp add: conts_ok_def\<close>)
  then show ?thesis using assms(1,2) by (simp add: conts_ok_def)
qed

text \<open>Messages that make only batches of one item.\<close>

fun msg_single :: "geo_msg \<Rightarrow> bool" where
  "msg_single (MsgAddGeofences c n ids os is) = (n = 1 \<and> length ids = 1
     \<and> (case os of None \<Rightarrow> True | Some xs \<Rightarrow> length xs = 1)
     \<and> (case is of None \<Rightarrow> True | Some xs \<Rightarrow> length xs = 1))"
| "msg_single (MsgBatch op c n ids os) = (op \<noteq> OpAdd \<and> n = 1 \<and> length ids = 1 \<and> ids ! 0 \<noteq> None
     \<and> (case os of None \<Rightarrow> True | Some xs \<Rightarrow> length xs = 1))"
| "msg_single _ = True"

definition single_ids :: "nat \<Rightarrow> u32 list option \<Rightarrow> bool" where
  "single_ids n ids = (n = 1 \<and> (case ids of None \<Rightarrow> False | Some xs \<Rightarrow> length xs = 1))"

fun single_event :: "geo_event \<Rightarrow> bool" where
  "single_event (Command (AddGeofences c n os is)) = (n = 1
     \<and> (case os of None \<Rightarrow> True | Some xs \<Rightarrow> length xs = 1)
     \<and> (case is of None \<Rightarrow> True | Some xs \<Rightarrow> length xs = 1))"
| "single_event (Command (RemoveGeofences c n ids)) = single_ids n ids"
| "single_event (Command (PauseGeofences c n ids)) = single_ids n ids"
| "single_event (Command (ResumeGeofences c n ids)) = single_ids n ids"
| "single_event (Command (ModifyGeofences c n ids os)) = (single_ids n ids
     \<and> (case os of None \<Rightarrow> True | Some xs \<Rightarrow> length xs = 1))"
| "single_event _ = True"

definition geo_safe :: "geo_sys \<Rightarrow> bool" where
  "geo_safe s = (conts_ok (batches s) (conts s) \<and> list_all msg_single (queue s)
     \<and> list_all (\<lambda>m. msg_single m \<and> msg_cont m = None) (mPendingMsgs s))"

lemma conts_request [simp]: "conts (request r k s) = add_mset k (conts s)"
  by (simp add: conts_def request_def)

lemma request_fields [simp]:
  "batches (request r k s) = batches s" "queue (request r k s) = queue s"
  "mPendingMsgs (request r k s) = mPendingMsgs s"
  by (simp_all add: request_def)

lemma conts_cong: "outstanding s = outstanding s' \<Longrightarrow> queue s = queue s' \<Longrightarrow> conts s = conts s'"
  by (simp add: conts_def)

lemma conts_send [simp]:
  "conts (send_msg m s) = (case msg_cont m of None \<Rightarrow> conts s | Some k \<Rightarrow> add_mset k (conts s))"
  by (simp add: conts_def send_msg_def map_filter_append map_filter_simps split: option.splits)

lemma send_fields [simp]:
  "batches (send_msg m s) = batches s" "queue (send_msg m s) = queue s @ [m]"
  "mPendingMsgs (send_msg m s) = mPendingMsgs s" "outstanding (send_msg m s) = outstanding s"
  by (simp_all add: send_msg_def)

text \<open>What an operation that touches no request, message or batch leaves as it is.\<close>

definition same_work :: "geo_sys \<Rightarrow> geo_sys \<Rightarrow> bool" where
  "same_work s s' = (outstanding s' = outstanding s \<and> queue s' = queue s
     \<and> mPendingMsgs s' = mPendingMsgs s \<and> batches s' = batches s)"

lemma same_work_safe: "same_work s s' \<Longrightarrow> geo_safe s' = geo_safe s"
  by (simp add: same_work_def geo_safe_def conts_def)

lemma same_workI [simp]:
  "same_work s (saveGeofenceItem c i hw o' info s)" "same_work s (removeGeofenceItem hw s)"
  "same_work s (pauseGeofenceItem hw s)" "same_work s (resumeGeofenceItem hw s)"
  "same_work s (modifyGeofenceItem hw o' s)" "same_work s (stop_done hw er err s)"
  "same_work s (updateClientsEventMask s)" "same_work s (call c' s)" "same_work s s"
  by (simp_all add: same_work_def saveGeofenceItem_def removeGeofenceItem_def pauseGeofenceItem_def
      resumeGeofenceItem_def modifyGeofenceItem_def stop_done_def updateClientsEventMask_def call_def
      Let_def split: option.splits)

lemma same_work_trans: "same_work s s' \<Longrightarrow> same_work s' s'' \<Longrightarrow> same_work s s''"
  by (simp add: same_work_def)

lemma same_work_fold:
  "(\<And>x s. same_work s (f x s)) \<Longrightarrow> same_work s (fold f xs s)"
  by (induction xs arbitrary: s) (auto intro: same_work_trans)

text \<open>The state after a batch is worked on: only that batch changed.\<close>

definition only_batch :: "nat \<Rightarrow> geo_batch \<Rightarrow> geo_sys \<Rightarrow> geo_sys \<Rightarrow> bool" where
  "only_batch b r s s' = (outstanding s' = outstanding s \<and> queue s' = queue s
     \<and> mPendingMsgs s' = mPendingMsgs s \<and> batches s' = (batches s)[b := r])"

lemma only_batch_safe:
  assumes "only_batch b r s s'" "geo_safe s" "free_of b (conts s)"
  shows "geo_safe s'"
proof -
  have "conts s' = conts s" using assms(1) by (simp add: only_batch_def conts_def)
  then show ?thesis using assms conts_ok_upd by (simp add: geo_safe_def only_batch_def)
qed

lemma one_element: "length xs = 1 \<Longrightarrow> xs = [xs ! 0]"
  by (cases xs) auto

lemma batch_liveD:
  assumes "batch_live bs op b"
  shows "b < length bs" "\<not> freed (bs ! b)" "mOp (bs ! b) = op" "mCount (bs ! b) = 1"
    "length (errs (bs ! b)) = 1" "\<exists>idn. mIds (bs ! b) = [Some idn]"
    "op = OpAdd \<or> op = OpModify \<Longrightarrow> \<exists>opt. mOptions (bs ! b) = [opt]"
    "op = OpAdd \<Longrightarrow> \<exists>info. mInfos (bs ! b) = [info]"
  using assms by (auto simp: batch_live_def batch_shape_def length_Suc_conv)

lemma batch_live_upd:
  assumes "batch_live bs op b" "mOp r = op" "\<not> freed r" "batch_shape r"
  shows "batch_live (bs[b := r]) op b"
  using assms by (simp add: batch_live_def)

lemma set_err_single:
  assumes "batch_live (batches s) op b"
  obtains s' where "set_err b 0 e s = Some s'"
    "only_batch b ((batches s ! b)\<lparr>errs := [Some e]\<rparr>) s s'"
    "batch_live (batches s') op b" "mClientData s' = mClientData s" "calls s' = calls s"
    "batches s' ! b = (batches s ! b)\<lparr>errs := [Some e]\<rparr>"
proof -
  note D = batch_liveD [OF assms]
  let ?r = "(batches s ! b)\<lparr>errs := [Some e]\<rparr>"
  let ?s = "s\<lparr>batches := (batches s)[b := ?r]\<rparr>"
  have "(errs (batches s ! b))[0 := Some e] = [Some e]"
    using one_element [OF D(5)] by (metis list_update_code(2))
  then have "set_err b 0 e s = Some ?s"
    using D(1,2) D(5) [folded One_nat_def]
    by (cases "errs (batches s ! b)") (simp_all add: set_err_def live_batch_def)
  moreover have "batch_live (batches ?s) op b"
    using assms by (simp add: batch_live_def batch_shape_def)
  ultimately show thesis using that D(1) by (simp add: only_batch_def)
qed

lemma finish_batch_single:
  assumes "batch_live (batches s) op b"
  obtains s' where "finish_batch b 0 s = Some s'"
    "only_batch b ((batches s ! b)\<lparr>freed := True\<rparr>) s s'"
    "calls s' = calls (reportResponse (mClient (batches s ! b)) 1 (errs (batches s ! b))
                         (mIds (batches s ! b)) s)"
proof -
  have "finish_batch b 0 s = Some ((reportResponse (mClient (batches s ! b)) 1
      (errs (batches s ! b)) (mIds (batches s ! b)) s)
        \<lparr>batches := (batches s)[b := (batches s ! b)\<lparr>freed := True\<rparr>]\<rparr>)"
    using assms by (auto simp: finish_batch_def live_batch_def batch_live_def batch_shape_def
        reportResponse_def call_def Let_def split: option.splits)
  then show thesis
    by (rule that) (auto simp: only_batch_def reportResponse_def call_def split: option.splits)
qed

lemma only_batch_same:
  "same_work s s1 \<Longrightarrow> only_batch b r s1 s2 \<Longrightarrow> only_batch b r s s2"
  "only_batch b r s s1 \<Longrightarrow> same_work s1 s2 \<Longrightarrow> only_batch b r s s2"
  by (simp_all add: same_work_def only_batch_def)

lemma only_batch_twice:
  "only_batch b r s s1 \<Longrightarrow> only_batch b r' s1 s2 \<Longrightarrow> only_batch b r' s s2"
  by (simp add: only_batch_def)

lemma batch_live_same: "same_work s s' \<Longrightarrow> batch_live (batches s') op b = batch_live (batches s) op b"
  by (simp add: same_work_def)

text \<open>An error stored and the batch finished, after changes to the tables.\<close>

lemma err_then_finish:
  assumes "batch_live (batches s) op b" "same_work s s1"
  obtains s2 s3 where "set_err b 0 e s1 = Some s2" "finish_batch b 0 s2 = Some s3"
    "\<exists>r. only_batch b r s s3"
proof -
  have l: "batch_live (batches s1) op b" using assms batch_live_same by metis
  obtain s2 where s2: "set_err b 0 e s1 = Some s2"
    "only_batch b ((batches s1 ! b)\<lparr>errs := [Some e]\<rparr>) s1 s2" "batch_live (batches s2) op b"
    by (rule set_err_single [OF l])
  obtain s3 where "finish_batch b 0 s2 = Some s3"
    "only_batch b ((batches s2 ! b)\<lparr>freed := True\<rparr>) s2 s3"
    by (rule finish_batch_single [OF s2(3)])
  then show thesis using that s2 assms(2) only_batch_twice only_batch_same(1) by meson
qed

lemma live_items:
  assumes "batch_live (batches s) op b"
  obtains idn where "live_batch b s = Some (batches s ! b)" "item_id (batches s ! b) 0 = Some idn"
    "op = OpAdd \<or> op = OpModify \<longrightarrow> (\<exists>opt. item_option (batches s ! b) 0 = Some opt)"
    "op = OpAdd \<longrightarrow> (\<exists>info. item_info (batches s ! b) 0 = Some info)"
proof -
  note D = batch_liveD [OF assms]
  from D(6) obtain idn where "mIds (batches s ! b) = [Some idn]" by blast
  with D have "live_batch b s = Some (batches s ! b)" "item_id (batches s ! b) 0 = Some idn"
    by (simp_all add: live_batch_def item_id_def)
  moreover have "op = OpAdd \<or> op = OpModify \<longrightarrow> (\<exists>opt. item_option (batches s ! b) 0 = Some opt)"
    "op = OpAdd \<longrightarrow> (\<exists>info. item_info (batches s ! b) 0 = Some info)"
    using D(7,8) by (fastforce simp: item_option_def item_info_def)+
  ultimately show thesis by (rule that)
qed

lemma done_single:
  assumes "batch_live (batches s) op b"
  shows "\<exists>s' r. response_proc (BatchDone op b 0 hw) err hw' s = Some s' \<and> only_batch b r s s'"
proof (cases op)
  case OpAdd
  obtain idn where i: "live_batch b s = Some (batches s ! b)" "item_id (batches s ! b) 0 = Some idn"
    "op = OpAdd \<or> op = OpModify \<longrightarrow> (\<exists>opt. item_option (batches s ! b) 0 = Some opt)"
    "op = OpAdd \<longrightarrow> (\<exists>info. item_info (batches s ! b) 0 = Some info)" by (rule live_items [OF assms])
  then obtain opt info where i': "item_option (batches s ! b) 0 = Some opt"
    "item_info (batches s ! b) 0 = Some info" using OpAdd by auto
  let ?s1 = "if engine_off_or_success err s
     then saveGeofenceItem (mClient (batches s ! b)) idn hw' opt info s else s"
  have "same_work s ?s1" by simp
  then obtain s2 s3 where "set_err b 0 err ?s1 = Some s2" "finish_batch b 0 s2 = Some s3"
    "\<exists>r. only_batch b r s s3" by (rule err_then_finish [OF assms])
  then show ?thesis using OpAdd i i'
    by (auto simp: response_proc_def add_done_def split: if_splits)
next
  case OpRemove
  have "same_work s (if engine_off_or_success err s then removeGeofenceItem hw s else s)" by simp
  then obtain s2 s3 where
    "set_err b 0 err (if engine_off_or_success err s then removeGeofenceItem hw s else s) = Some s2"
    "finish_batch b 0 s2 = Some s3" "\<exists>r. only_batch b r s s3" by (rule err_then_finish [OF assms])
  then show ?thesis using OpRemove by (auto simp: response_proc_def remove_done_def Let_def)
next
  case OpPause
  have "same_work s (if err = LOCATION_ERROR_SUCCESS then pauseGeofenceItem hw s else s)" by simp
  then obtain s2 s3 where
    "set_err b 0 err (if err = LOCATION_ERROR_SUCCESS then pauseGeofenceItem hw s else s) = Some s2"
    "finish_batch b 0 s2 = Some s3" "\<exists>r. only_batch b r s s3" by (rule err_then_finish [OF assms])
  then show ?thesis using OpPause by (auto simp: response_proc_def pause_done_def Let_def)
next
  case OpResume
  obtain s1 where s1: "set_err b 0 err s = Some s1"
    "only_batch b ((batches s ! b)\<lparr>errs := [Some err]\<rparr>) s s1" "batch_live (batches s1) op b"
    by (rule set_err_single [OF assms])
  have l: "batch_live (batches (resumeGeofenceItem hw s1)) op b"
    using s1(3) batch_live_same same_workI(4) by metis
  obtain s2 where "finish_batch b 0 (resumeGeofenceItem hw s1) = Some s2"
    "only_batch b ((batches (resumeGeofenceItem hw s1) ! b)\<lparr>freed := True\<rparr>) (resumeGeofenceItem hw s1) s2"
    by (rule finish_batch_single [OF l])
  moreover have "only_batch b (batches s ! b) s s" by (simp add: only_batch_def)
  moreover have "\<exists>r. only_batch b r s s2"
    using s1(2) calculation(2) only_batch_twice only_batch_same(1) same_workI(4) by meson
  ultimately show ?thesis using OpResume s1(1)
    by (auto simp: response_proc_def resume_done_def)
next
  case OpModify
  obtain s1 where s1: "set_err b 0 err s = Some s1"
    "only_batch b ((batches s ! b)\<lparr>errs := [Some err]\<rparr>) s s1" "batch_live (batches s1) op b"
    by (rule set_err_single [OF assms])
  obtain idn where i: "live_batch b s1 = Some (batches s1 ! b)" "item_id (batches s1 ! b) 0 = Some idn"
    "op = OpAdd \<or> op = OpModify \<longrightarrow> (\<exists>opt. item_option (batches s1 ! b) 0 = Some opt)"
    "op = OpAdd \<longrightarrow> (\<exists>info. item_info (batches s1 ! b) 0 = Some info)" by (rule live_items [OF s1(3)])
  then obtain opt where opt: "item_option (batches s1 ! b) 0 = Some opt" using OpModify by auto
  let ?m = "modifyGeofenceItem hw opt s1"
  have l: "batch_live (batches ?m) op b" using s1(3) batch_live_same same_workI(5) by metis
  obtain s2 where s2: "finish_batch b 0 ?m = Some s2"
    "only_batch b ((batches ?m ! b)\<lparr>freed := True\<rparr>) ?m s2" by (rule finish_batch_single [OF l])
  have r2: "\<exists>r. only_batch b r s s2"
    using s1(2) s2(2) only_batch_twice only_batch_same(1) same_workI(5) by meson
  obtain s3 where s3: "finish_batch b 0 s = Some s3"
    "only_batch b ((batches s ! b)\<lparr>freed := True\<rparr>) s s3" by (rule finish_batch_single [OF assms])
  show ?thesis using OpModify s1(1) i(1) opt s2(1) r2 s3
    by (auto simp: response_proc_def modify_done_def)
qed

lemma item_step_single:
  assumes "batch_live (batches s) op b" "op \<noteq> OpAdd"
  obtains s1 r where "only_batch b r s s1"
    "item_step op b 0 s = Some s1 \<or> batch_live (batches s1) op b
       \<and> (\<exists>rq hw. item_step op b 0 s = Some (request rq (BatchDone op b 0 hw) s1))"
proof -
  obtain idn where i: "live_batch b s = Some (batches s ! b)" "item_id (batches s ! b) 0 = Some idn"
    "op = OpAdd \<or> op = OpModify \<longrightarrow> (\<exists>opt. item_option (batches s ! b) 0 = Some opt)"
    "op = OpAdd \<longrightarrow> (\<exists>info. item_info (batches s ! b) 0 = Some info)" by (rule live_items [OF assms(1)])
  obtain e hw where h: "getHwIdFromClient (mClient (batches s ! b)) idn s = (e, hw)"
    by (cases "getHwIdFromClient (mClient (batches s ! b)) idn s")
  obtain s1 where s1: "set_err b 0 e s = Some s1"
    "only_batch b ((batches s ! b)\<lparr>errs := [Some e]\<rparr>) s s1" "batch_live (batches s1) op b"
    by (rule set_err_single [OF assms(1)])
  obtain rq where rq: "item_request op (batches s ! b) 0 hw idn = Some rq"
    using i(3) assms(2) by (cases op) (auto simp: item_request_def)
  show thesis
  proof (cases "e = LOCATION_ERROR_SUCCESS")
    case True
    then have "item_step op b 0 s = Some (request rq (BatchDone op b 0 hw) s1)"
      using i(1,2) h s1(1) rq by (simp add: item_step_def)
    then show thesis using that s1(2,3) by blast
  next
    case False
    obtain s2 where s2: "finish_batch b 0 s1 = Some s2"
      "only_batch b ((batches s1 ! b)\<lparr>freed := True\<rparr>) s1 s2" by (rule finish_batch_single [OF s1(3)])
    have "item_step op b 0 s = Some s2"
      using i(1,2) h s1(1) False s2(1) by (simp add: item_step_def)
    then show thesis using that only_batch_twice [OF s1(2) s2(2)] by blast
  qed
qed

lemma add_step_single:
  assumes "batch_live (batches s) OpAdd b"
  obtains rq where "add_step b 0 s = Some (request rq (BatchDone OpAdd b 0 0) s)"
proof -
  obtain idn where i: "live_batch b s = Some (batches s ! b)" "item_id (batches s ! b) 0 = Some idn"
    "OpAdd = OpAdd \<or> OpAdd = OpModify \<longrightarrow> (\<exists>opt. item_option (batches s ! b) 0 = Some opt)"
    "OpAdd = OpAdd \<longrightarrow> (\<exists>info. item_info (batches s ! b) 0 = Some info)" by (rule live_items [OF assms])
  then show thesis using that by (auto simp: add_step_def)
qed

lemma request_safe:
  assumes "geo_safe s" "cont_ok (batches s) k" "\<And>b. cont_ref k = Some b \<Longrightarrow> free_of b (conts s)"
  shows "geo_safe (request r k s)"
  using assms conts_ok_push by (simp add: geo_safe_def)

lemma request_plain_safe: "geo_safe s \<Longrightarrow> cont_ref k = None \<Longrightarrow> geo_safe (request r k s)"
  by (rule request_safe) (cases k; simp)+

lemma fold_safe: "(\<And>x s. geo_safe s \<Longrightarrow> geo_safe (f x s)) \<Longrightarrow> geo_safe s \<Longrightarrow> geo_safe (fold f xs s)"
  by (induction xs arbitrary: s) auto

lemma send_plain_safe:
  "geo_safe s \<Longrightarrow> msg_cont m = None \<Longrightarrow> msg_single m \<Longrightarrow> geo_safe (send_msg m s)"
  by (simp add: geo_safe_def)

text \<open>An answer that runs its continuation.\<close>

lemma response_safe:
  assumes safe: "geo_safe s" and ok: "conts_ok (batches s) (add_mset k (conts s))"
  shows "\<exists>s'. response_proc k err hw s = Some s' \<and> geo_safe s'"
proof -
  note P = conts_ok_pop [OF ok]
  have plain: "geo_safe (f s)" if "same_work s (f s)" for f using safe same_work_safe [OF that] by simp
  show ?thesis
  proof (cases k)
    case (BatchStep op b i)
    then have live: "i = 0" "batch_live (batches s) op b" and free: "free_of b (conts s)"
      using P(2,3) by auto
    show ?thesis
    proof (cases "op = OpAdd")
      case True
      obtain rq where "add_step b 0 s = Some (request rq (BatchDone OpAdd b 0 0) s)"
        using add_step_single live(2) True by blast
      moreover have "geo_safe (request rq (BatchDone OpAdd b 0 0) s)"
        using safe live(2) free True by (intro request_safe) auto
      ultimately show ?thesis using BatchStep live(1) True by (simp add: response_proc_def)
    next
      case False
      obtain s1 r where s1: "only_batch b r s s1"
        "item_step op b 0 s = Some s1 \<or> batch_live (batches s1) op b
         \<and> (\<exists>rq hw. item_step op b 0 s = Some (request rq (BatchDone op b 0 hw) s1))"
        by (rule item_step_single [OF live(2) False])
      have safe1: "geo_safe s1" by (rule only_batch_safe [OF s1(1) safe free])
      have "conts s1 = conts s" using s1(1) by (simp add: only_batch_def conts_def)
      then have "geo_safe (request rq (BatchDone op b 0 hw) s1)" if "batch_live (batches s1) op b" for rq hw
        using safe1 free that by (intro request_safe) auto
      then show ?thesis using s1(2) safe1 BatchStep live(1) False by (auto simp: response_proc_def)
    qed
  next
    case (BatchDone op b i hw')
    then have live: "i = 0" "batch_live (batches s) op b" and free: "free_of b (conts s)"
      using P(2,3) by auto
    from done_single [OF live(2)] obtain s' r where
      "response_proc (BatchDone op b 0 hw') err hw s = Some s'" "only_batch b r s s'" by blast
    then show ?thesis using BatchDone live(1) only_batch_safe [OF _ safe free] by auto
  next
    case (RestartDone object)
    have "geo_safe (restart_done object err hw s)"
      using safe by (auto simp: restart_done_def Let_def same_work_safe [OF same_workI(1)]
          intro: request_plain_safe)
    then show ?thesis using RestartDone by (simp add: response_proc_def)
  qed (simp_all add: response_proc_def plain safe)
qed

lemma stop_loop_safe:
  "geo_safe s \<Longrightarrow> \<exists>s'. stop_loop c True es s = Some s' \<and> geo_safe s'"
proof (induction c True es s rule: stop_loop.induct)
  case (2 c key hwId es s)
  have "geo_safe (s\<lparr>mGeofenceIds := om_erase key (mGeofenceIds s)\<rparr>)"
    using 2(3) by (simp add: geo_safe_def conts_def)
  then show ?case using 2 by (simp add: request_plain_safe)
qed simp

lemma safe_fields:
  "geo_safe s \<Longrightarrow> outstanding s' = outstanding s \<Longrightarrow> queue s' = queue s \<Longrightarrow>
     mPendingMsgs s' = mPendingMsgs s \<Longrightarrow> batches s' = batches s \<Longrightarrow> geo_safe s'"
  by (simp add: geo_safe_def conts_def)

lemma new_batch_safe:
  assumes "geo_safe s"
  shows "geo_safe (new_batch r s)" "free_of (length (batches s)) (conts (new_batch r s))"
proof -
  have "conts (new_batch r s) = conts s" by (simp add: new_batch_def conts_def)
  then show "geo_safe (new_batch r s)" "free_of (length (batches s)) (conts (new_batch r s))"
    using assms conts_ok_append conts_ok_free by (simp_all add: geo_safe_def new_batch_def)
qed

lemma queue_one_safe:
  assumes "geo_safe s" "mOp r = op" "\<not> freed r" "batch_shape r"
  shows "geo_safe (queue_items op (length (batches s)) 1 (new_batch r s))"
proof -
  have "geo_safe (request ReqCallQueue (BatchStep op (length (batches s)) 0) (new_batch r s))"
    using new_batch_safe [OF assms(1), of r] assms
    by (intro request_safe) (auto simp: batch_live_def new_batch_def)
  then show ?thesis by (simp add: queue_items_def)
qed

lemma add_proc_safe:
  "geo_safe s \<Longrightarrow> msg_single (MsgAddGeofences c n ids os is) \<Longrightarrow> geo_safe (add_proc c n ids os is s)"
  unfolding add_proc_def Let_def
  by (auto intro!: new_batch_safe queue_one_safe [unfolded One_nat_def] simp: batch_shape_def
      split: option.splits)

lemma batch_proc_safe:
  "geo_safe s \<Longrightarrow> msg_single (MsgBatch op c n ids os) \<Longrightarrow> geo_safe (batch_proc op c n ids os s)"
  unfolding batch_proc_def Let_def
  by (auto intro!: new_batch_safe queue_one_safe [unfolded One_nat_def] simp: batch_shape_def
      split: option.splits)

lemma restart_safe: "geo_safe s \<Longrightarrow> geo_safe (restartGeofences s)"
  by (auto simp: restartGeofences_def intro!: fold_safe request_plain_safe
      intro: safe_fields [of s])

lemma call_safe: "geo_safe s \<Longrightarrow> geo_safe (call c s)"
  using same_work_safe [OF same_workI(8)] by simp

lemma fold_call_safe: "geo_safe s \<Longrightarrow> geo_safe (fold (\<lambda>x. call (g x)) xs s)"
  by (intro fold_safe) (auto intro: call_safe)

lemma fold_send_safe:
  "geo_safe s \<Longrightarrow> list_all (\<lambda>m. msg_single m \<and> msg_cont m = None) ms
     \<Longrightarrow> geo_safe (fold send_msg ms s)"
  by (induction ms arbitrary: s) (auto intro: send_plain_safe)

lemma fold_call_pending [simp]: "mPendingMsgs (fold (\<lambda>x. call (g x)) xs s) = mPendingMsgs s"
  by (induction xs arbitrary: s) (auto simp: call_def)

lemma ssr_safe:
  assumes "geo_safe s"
  shows "geo_safe (ssr_proc s)"
proof -
  let ?s1 = "s\<lparr>mIsEngineCapabilitiesKnown := True\<rparr>"
  let ?s2 = "fold (\<lambda>c. call (CallCapabilities c (capabilities ?s1))) (broadcastCapabilities (mClientData ?s1)) ?s1"
  let ?s3 = "(fold send_msg (mPendingMsgs ?s2) ?s2)\<lparr>mPendingMsgs := []\<rparr>"
  have 1: "geo_safe ?s1" using assms by (rule safe_fields) simp_all
  have 2: "geo_safe ?s2" using 1 by (rule fold_call_safe)
  have "geo_safe (fold send_msg (mPendingMsgs ?s2) ?s2)"
    using 2 assms by (intro fold_send_safe) (auto simp: geo_safe_def)
  then have 3: "geo_safe ?s3" by (simp add: geo_safe_def conts_def)
  show ?thesis using 2 3 restart_safe [OF 3] by (auto simp: ssr_proc_def Let_def)
qed

lemma power_safe: "geo_safe s \<Longrightarrow> geo_safe (updateSystemPowerState ps s)"
  by (auto simp: updateSystemPowerState_def pauseOrResumeGeofences_def Let_def
      intro!: fold_safe intro: request_plain_safe safe_fields [of s] split: prod.splits)

lemma proc_safe:
  assumes "geo_safe s" "msg_cont m = None" "msg_single m"
  shows "\<exists>s'. proc m s = Some s' \<and> geo_safe s'"
proof (cases m)
  case (MsgAddClient c cb)
  have "geo_safe (updateClientsEventMask (s\<lparr>mClientData := saveClient c cb (mClientData s)\<rparr>))"
    using assms(1) by (rule safe_fields) (simp_all add: updateClientsEventMask_def Let_def)
  then show ?thesis using MsgAddClient by (simp add: proc_def)
next
  case (MsgRemoveClient c cb)
  obtain s1 where s1: "stopClientSessions c True s = Some s1" "geo_safe s1"
    using stop_loop_safe [OF assms(1)] by (auto simp: stopClientSessions_def)
  let ?s2 = "updateClientsEventMask (s1\<lparr>mClientData := eraseClient c (mClientData s1)\<rparr>)"
  have "geo_safe ?s2" using s1(2) by (rule safe_fields) (simp_all add: updateClientsEventMask_def Let_def)
  then show ?thesis using MsgRemoveClient s1(1) call_safe
    by (simp add: proc_def remove_client_proc_def Let_def)
next
  case (MsgRequestCapabilities c)
  have "geo_safe (s\<lparr>mPendingMsgs := mPendingMsgs s @ [MsgRequestCapabilities c]\<rparr>)"
    using assms(1) by (simp add: geo_safe_def conts_def)
  then show ?thesis using MsgRequestCapabilities assms(1) call_safe
    by (simp add: proc_def request_capabilities_proc_def)
next
  case (MsgResponse k err hw)
  then show ?thesis using assms(2) by simp
next
  case (MsgGeofenceBreach hwIds l t ts)
  have "geo_safe (geofenceBreach hwIds l t ts s)"
    unfolding geofenceBreach_def
    using assms(1) by (intro fold_safe) (auto simp: Let_def intro: call_safe)
  then show ?thesis using MsgGeofenceBreach by (simp add: proc_def)
next
  case (MsgGeofenceStatus a)
  have "geo_safe (geofenceStatus a s)"
    unfolding geofenceStatus_def
    using assms(1) by (intro fold_safe) (auto intro: call_safe)
  then show ?thesis using MsgGeofenceStatus by (simp add: proc_def)
qed (use assms add_proc_safe batch_proc_safe ssr_safe power_safe in \<open>simp_all add: proc_def\<close>)

lemma generate_ids_length: "length (fst (generate_ids n c)) = n"
  by (induction n c rule: generate_ids.induct) (auto simp: Let_def split_def)

lemma command_safe:
  assumes "geo_safe s" "single_event (Command c)"
  shows "geo_safe (command c s)"
proof -
  have items: "geo_safe (itemsCommand op cl n ids os s)"
    if "op \<noteq> OpAdd" "single_ids n ids" "case os of None \<Rightarrow> True | Some xs \<Rightarrow> length xs = 1"
    for op cl n ids os
    using assms(1) that
    by (auto simp: itemsCommand_def copy_ids_def single_ids_def split: option.splits
        intro!: send_plain_safe)
  show ?thesis
proof (cases c)
  case (AddGeofences cl n os infs)
  obtain ids c' where g: "generate_ids n (mSessionIdCounter s) = (ids, c')"
    by (cases "generate_ids n (mSessionIdCounter s)")
  then have "length ids = n" using generate_ids_length [of n "mSessionIdCounter s"] by simp
  moreover have "geo_safe (s\<lparr>mSessionIdCounter := c'\<rparr>)" using assms(1) by (rule safe_fields) simp_all
  ultimately show ?thesis using AddGeofences assms(2) g
    by (auto simp: command_def addGeofencesCommand_def split: option.splits intro!: send_plain_safe)
qed (use assms items in \<open>auto simp: command_def geofenceBreachEvent_def removeGeofencesCommand_def
    pauseGeofencesCommand_def resumeGeofencesCommand_def modifyGeofencesCommand_def
    intro!: send_plain_safe\<close>)
qed

lemma mset_remove_nth:
  "n < length xs \<Longrightarrow> add_mset (xs ! n) (mset (take n xs @ drop (Suc n) xs)) = mset xs"
  by (metis add_mset_add_single append_take_drop_id id_take_nth_drop mset.simps(2) mset_append
      union_mset_add_mset_right)

lemma geo_step_safe:
  assumes safe: "geo_safe s" and ok: "single_event e"
  shows "\<exists>s'. geo_step e s = Some s' \<and> geo_safe s'"
proof (cases e)
  case (Command c)
  then show ?thesis using command_safe assms by (simp add: geo_step_def)
next
  case Deliver
  show ?thesis
  proof (cases "queue s")
    case (Cons m ms)
    let ?s = "s\<lparr>queue := ms\<rparr>"
    have single: "msg_single m" using safe Cons by (simp add: geo_safe_def)
    show ?thesis
    proof (cases "msg_cont m")
      case None
      have "geo_safe ?s" using safe Cons None
        by (simp add: geo_safe_def conts_def map_filter_simps)
      then show ?thesis using proc_safe [OF _ None single] Deliver Cons by (simp add: geo_step_def)
    next
      case (Some k)
      then obtain err hw where m: "m = MsgResponse k err hw" by (cases m) auto
      have c: "conts s = add_mset k (conts ?s)" using Cons m by (simp add: conts_def map_filter_simps)
      have ok: "conts_ok (batches ?s) (add_mset k (conts ?s))" using safe c by (simp add: geo_safe_def)
      have "geo_safe ?s" using safe Cons conts_ok_pop(1) [OF ok] by (simp add: geo_safe_def)
      from response_safe [OF this ok] show ?thesis using Deliver Cons m
        by (simp add: geo_step_def proc_def)
    qed
  qed (use Deliver safe in \<open>simp add: geo_step_def\<close>)
next
  case (Respond n err hw)
  show ?thesis
  proof (cases "n < length (outstanding s)")
    case True
    let ?o = "outstanding s"
    let ?s = "s\<lparr>outstanding := take n ?o @ drop (Suc n) ?o\<rparr>"
    let ?k = "snd (?o ! n)"
    have "add_mset ?k (mset (map snd (take n ?o @ drop (Suc n) ?o))) = mset (map snd ?o)"
      using mset_remove_nth [of n "map snd ?o"] True by (simp add: take_map drop_map)
    then have c: "conts (send_msg (MsgResponse ?k err hw) ?s) = conts s"
      by (simp add: conts_def map_filter_append map_filter_simps flip: union_mset_add_mset_left)
    have "geo_safe (send_msg (MsgResponse ?k err hw) ?s)"
      using safe unfolding geo_safe_def c by simp
    then show ?thesis using Respond True by (simp add: geo_step_def)
  qed (use Respond safe in \<open>simp add: geo_step_def\<close>)
next
  case (LockState st)
  have "geo_safe (s\<lparr>mEngineLockState := st\<rparr>)" using safe by (rule safe_fields) simp_all
  then show ?thesis using LockState by (simp add: geo_step_def)
qed

interpretation geofences: total_system geo_step geo_safe single_event
proof
  show "geo_safe s'" if "geo_safe s" "single_event x" "geo_step x s = Some s'" for s x s'
    using geo_step_safe [OF that(1,2)] that(3) by auto
  show "geo_step x s \<noteq> None" if "geo_safe s" "single_event x" for s x
    using geo_step_safe [OF that] by auto
qed

lemma geo_init_safe: "geo_safe (geo_init c)"
  by (simp add: geo_safe_def geo_init_def conts_def conts_ok_def map_filter_simps)

text \<open>
  C9: When every command is about one geofence, no interleaving of commands, answers of the modem in
  any order and with any error, lock changes and restarts reads or writes deleted memory: every
  run is defined.
\<close>

theorem geofence_single_commands_safe:
  assumes "list_all single_event es"
  shows "\<exists>s. run geo_step es (geo_init c) = Some s"
  using geofences.run_total [OF geo_init_safe assms] by blast

theorem geofence_single_commands_safe_witness:
  "\<exists>s. run geo_step (add_one 7 41 @ modify_fails) (geo_init example_context) = Some s"
  by (rule geofence_single_commands_safe) (simp add: add_one_def modify_fails_def single_ids_def)

text \<open>
  Removing a known and an unknown geofence with one command uses the arrays after their deletion,
  even when the modem interface answers every request in order and successfully: the unknown one
  is answered at once and, being last, ends the batch.
\<close>

theorem remove_known_and_unknown_faults:
  "run geo_step (add_one 7 41 @ remove_two) (geo_init example_context) = None"
  by code_simp

section \<open>Errors reported to the client\<close>

text \<open>
  A failed modification of a geofence is reported as a success: with the engine unlocked, the
  step that looked the geofence up has already stored the success, and the answer of the modem
  does not replace it.
\<close>

theorem modify_failure_reported_as_success:
  assumes "batch_live (batches s) OpModify b"
    and "getHwIdFromClient (mClient (batches s ! b)) idn s = (LOCATION_ERROR_SUCCESS, hwId)"
    and "mIds (batches s ! b) = [Some idn]"
    and "om_get (mClient (batches s ! b)) (mClientData s) = Some cb" "collectiveResponseCb cb"
    and "mEngineLockState s \<noteq> ENGINE_LOCK_STATE_DISABLED" "err \<noteq> LOCATION_ERROR_SUCCESS"
  shows "\<exists>s1 s2 rq. item_step OpModify b 0 s = Some (request rq (BatchDone OpModify b 0 hwId) s1)
    \<and> modify_done b 0 hwId err s1 = Some s2
    \<and> calls s2 = calls s @ [CallCollectiveResponse (mClient (batches s ! b)) 1
                              [Some LOCATION_ERROR_SUCCESS] [Some idn]]"
proof -
  note D = batch_liveD [OF assms(1)]
  obtain opt where opt: "mOptions (batches s ! b) = [opt]" using D(7) by auto
  obtain s1 where s1: "set_err b 0 LOCATION_ERROR_SUCCESS s = Some s1"
    "only_batch b ((batches s ! b)\<lparr>errs := [Some LOCATION_ERROR_SUCCESS]\<rparr>) s s1"
    "batch_live (batches s1) OpModify b" "mClientData s1 = mClientData s" "calls s1 = calls s"
    "batches s1 ! b = (batches s ! b)\<lparr>errs := [Some LOCATION_ERROR_SUCCESS]\<rparr>"
    by (rule set_err_single [OF assms(1)])
  have lock: "mEngineLockState s1 = mEngineLockState s"
    using s1(1) by (auto simp: set_err_def bind_eq_Some_conv split: if_splits)
  obtain s2 where s2: "finish_batch b 0 s1 = Some s2"
    "calls s2 = calls (reportResponse (mClient (batches s1 ! b)) 1 (errs (batches s1 ! b))
                         (mIds (batches s1 ! b)) s1)"
    by (rule finish_batch_single [OF s1(3)])
  have "item_step OpModify b 0 s = Some (request (ReqModify hwId idn opt) (BatchDone OpModify b 0 hwId) s1)"
    using D(1,2) assms(2,3) opt s1(1)
    by (simp add: item_step_def live_batch_def item_id_def item_request_def item_option_def)
  moreover have "modify_done b 0 hwId err s1 = Some s2"
    using s2(1) lock assms(6,7) by (simp add: modify_done_def engine_off_or_success_def)
  moreover have "calls s2 = calls s @ [CallCollectiveResponse (mClient (batches s ! b)) 1
      [Some LOCATION_ERROR_SUCCESS] [Some idn]]"
    using s2(2) s1(4-6) assms(3-5) by (simp add: reportResponse_def call_def)
  ultimately show ?thesis by blast
qed

definition modify_state :: geo_sys where
  "modify_state = (geo_init example_context)
     \<lparr>mEngineLockState := ENGINE_LOCK_STATE_ENABLED,
      mGeofenceIds := [(GeofenceKey 7 2, 41)], mClientData := [(7, example_callbacks)],
      batches := [\<lparr>mOp = OpModify, mClient = 7, mCount = 1, mIds = [Some 2],
        mOptions = [example_option], mInfos = [], errs = [None], freed = False\<rparr>]\<rparr>"

theorem modify_failure_reported_as_success_witness:
  "\<exists>s1 s2 rq. item_step OpModify 0 0 modify_state = Some (request rq (BatchDone OpModify 0 0 41) s1)
    \<and> modify_done 0 0 41 LOCATION_ERROR_TIMEOUT s1 = Some s2
    \<and> calls s2 = [CallCollectiveResponse 7 1 [Some LOCATION_ERROR_SUCCESS] [Some 2]]"
  using modify_failure_reported_as_success
    [of modify_state 0 2 41 example_callbacks LOCATION_ERROR_TIMEOUT]
  by (simp add: modify_state_def geo_init_def batch_live_def batch_shape_def om_get_def
      getHwIdFromClient_def example_callbacks_def no_callbacks_def)

section \<open>Breaches reach the owners\<close>

lemma fold_calls:
  assumes "\<And>x s. f x s = (case g x (mGeofences s) of None \<Rightarrow> s | Some c \<Rightarrow> call c s)"
  shows "calls (fold f xs s) = calls s @ List.map_filter (\<lambda>x. g x (mGeofences s)) xs
    \<and> mGeofences (fold f xs s) = mGeofences s"
  by (induction xs arbitrary: s)
    (auto simp: assms call_def map_filter_simps split: option.splits)

text \<open>
  A breach calls exactly the clients that registered a breach callback and own a geofence among
  those breached, each once, in the order of the clients, with its own numbers of its own
  geofences in the order the modem listed them.
\<close>

theorem geofence_breach_reaches_owners:
  "calls (geofenceBreach hwIds location breachType timestamp s) = calls s @
     List.map_filter (\<lambda>(client, cb).
        let own = List.map_filter (\<lambda>hwId. case om_get hwId (mGeofences s) of
              Some object \<Rightarrow> if key_client (obj_key object) = client
                             then Some (key_id (obj_key object)) else None
            | None \<Rightarrow> None) hwIds
        in if own \<noteq> [] \<and> geofenceBreachCb cb
           then Some (CallBreach client own location breachType timestamp) else None)
       (mClientData s)"
proof -
  let ?own = "\<lambda>client gs. List.map_filter (\<lambda>hwId. case om_get hwId gs of
              Some object \<Rightarrow> if key_client (obj_key object) = client
                             then Some (key_id (obj_key object)) else None
            | None \<Rightarrow> None) hwIds"
  let ?g = "\<lambda>(client, cb) gs. if ?own client gs \<noteq> [] \<and> geofenceBreachCb cb
      then Some (CallBreach client (?own client gs) location breachType timestamp) else None"
  have own: "breached_ids client hwIds s' = ?own client (mGeofences s')" for client s'
    by (simp add: breached_ids_def getGeofenceKeyFromHwId_def map_option_case option.case_distrib
        cong: option.case_cong)
  have "calls (geofenceBreach hwIds location breachType timestamp s)
      = calls s @ List.map_filter (\<lambda>x. ?g x (mGeofences s)) (mClientData s)"
    unfolding geofenceBreach_def
    by (rule fold_calls [THEN conjunct1]) (auto simp: own Let_def)
  then show ?thesis by (simp add: Let_def split_def)
qed

section \<open>The two tables agree\<close>

text \<open>
  \<open>gs\<close> and \<open>ids\<close> are the two tables, \<open>S\<close> the hardware ids whose removal was asked for
  when the sessions of a client were stopped.
\<close>

definition tabs_ok :: "(u32, geofence_object) ord_map \<Rightarrow> (geofence_key, u32) ord_map \<Rightarrow> u32 set \<Rightarrow> bool" where
  "tabs_ok gs ids S = (om_ok gs \<and> om_ok ids
     \<and> (\<forall>k h. om_get k ids = Some h \<longrightarrow> (\<exists>o'. om_get h gs = Some o' \<and> obj_key o' = k) \<and> h \<notin> S))"

lemma tabs_okD:
  assumes "tabs_ok gs ids S"
  shows "om_ok gs" "om_ok ids" "om_get k ids = Some h \<Longrightarrow> \<exists>o'. om_get h gs = Some o' \<and> obj_key o' = k"
    "om_get k ids = Some h \<Longrightarrow> h \<notin> S"
  using assms by (simp_all add: tabs_ok_def)

lemma tabs_ok_mono: "tabs_ok gs ids S \<Longrightarrow> S' \<subseteq> S \<Longrightarrow> tabs_ok gs ids S'"
  by (auto simp: tabs_ok_def)

lemma tabs_ok_save:
  "tabs_ok gs ids S \<Longrightarrow> om_get hw gs = None \<Longrightarrow> hw \<notin> S \<Longrightarrow> obj_key o' = k \<Longrightarrow>
     tabs_ok (om_put hw o' gs) (om_put k hw ids) S"
  by (fastforce simp: tabs_ok_def)

lemma tabs_ok_remove:
  "tabs_ok gs ids S \<Longrightarrow> om_get hw gs = Some o' \<Longrightarrow>
     tabs_ok (om_erase hw gs) (om_erase (obj_key o') ids) S"
  by (fastforce simp: tabs_ok_def)

lemma tabs_ok_adjust:
  "tabs_ok gs ids S \<Longrightarrow> (\<And>o'. obj_key (f o') = obj_key o') \<Longrightarrow> tabs_ok (om_adjust hw f gs) ids S"
  by (fastforce simp: tabs_ok_def)

lemma tabs_ok_stop:
  assumes "tabs_ok gs ids S" "om_get key ids = Some h"
  shows "tabs_ok gs (om_erase key ids) (insert h S)"
proof -
  have "h' \<noteq> h" if "om_get k ids = Some h'" "k \<noteq> key" for k h'
    using tabs_okD(3) [OF assms(1) that(1)] tabs_okD(3) [OF assms] that(2) by auto
  then show ?thesis using assms(1) by (auto simp: tabs_ok_def)
qed

lemma tabs_ok_stopped:
  assumes "tabs_ok gs ids S" "h \<in> S"
  shows "tabs_ok (om_erase h gs) ids S"
  using assms unfolding tabs_ok_def by (metis om_get_erase om_ok_erase)

definition stops :: "geo_sys \<Rightarrow> u32 set" where
  "stops s = {h. \<exists>er. StopDone h er \<in># conts s}"

definition tables_ok :: "geo_sys \<Rightarrow> bool" where
  "tables_ok s = tabs_ok (mGeofences s) (mGeofenceIds s) (stops s)"

text \<open>Operations that leave the tables alone and ask for no removal.\<close>

definition tame :: "geo_sys \<Rightarrow> geo_sys \<Rightarrow> bool" where
  "tame s s' = (mGeofences s' = mGeofences s \<and> mGeofenceIds s' = mGeofenceIds s \<and> stops s' \<subseteq> stops s)"

lemma tame_ok: "tame s s' \<Longrightarrow> tables_ok s \<Longrightarrow> tables_ok s'"
  using tabs_ok_mono by (simp add: tame_def tables_ok_def)

lemma tame_refl [simp]: "tame s s"
  by (simp add: tame_def)

lemma tame_trans: "tame s s' \<Longrightarrow> tame s' s'' \<Longrightarrow> tame s s''"
  by (auto simp: tame_def)

lemma tame_fold: "(\<And>x s. tame s (f x s)) \<Longrightarrow> tame s (fold f xs s)"
  by (induction xs arbitrary: s) (auto intro: tame_trans)

lemma stops_request [simp]:
  "stops (request r k s) = (case k of StopDone h er \<Rightarrow> insert h (stops s) | _ \<Rightarrow> stops s)"
  by (auto simp: stops_def split: geo_cont.splits)

lemma request_tables [simp]:
  "mGeofences (request r k s) = mGeofences s" "mGeofenceIds (request r k s) = mGeofenceIds s"
  by (simp_all add: request_def)

lemma tame_request: "\<forall>h er. k \<noteq> StopDone h er \<Longrightarrow> tame s (request r k s)"
  by (cases k) (auto simp: tame_def)

lemma tame_fields:
  "mGeofences s' = mGeofences s \<Longrightarrow> mGeofenceIds s' = mGeofenceIds s \<Longrightarrow>
     outstanding s' = outstanding s \<Longrightarrow> queue s' = queue s \<Longrightarrow> tame s s'"
  by (simp add: tame_def stops_def conts_def)

lemma tame_call: "tame s (call c s)"
  by (rule tame_fields) (simp_all add: call_def)

lemma tame_send: "msg_cont m = None \<Longrightarrow> tame s (send_msg m s)"
  unfolding tame_def stops_def conts_send by (simp add: send_msg_def)

lemma tame_set_err: "set_err b i e s = Some s' \<Longrightarrow> tame s s'"
  by (rule tame_fields) (auto simp: set_err_def bind_eq_Some_conv split: if_splits)

lemma tame_finish: "finish_batch b i s = Some s' \<Longrightarrow> tame s s'"
  by (rule tame_fields)
    (auto simp: finish_batch_def bind_eq_Some_conv reportResponse_def call_def Let_def
      split: if_splits option.splits)

lemma item_stepE:
  assumes "item_step op b i s = Some s'"
  obtains e s1 where "set_err b i e s = Some s1"
    "(\<exists>rq hw. s' = request rq (BatchDone op b i hw) s1) \<or> finish_batch b i s1 = Some s'"
proof -
  from assms obtain r idn where r: "live_batch b s = Some r" "item_id r i = Some idn"
    by (auto simp: item_step_def bind_eq_Some_conv)
  obtain e hw where e: "getHwIdFromClient (mClient r) idn s = (e, hw)"
    by (cases "getHwIdFromClient (mClient r) idn s")
  from assms r e obtain s1 where s1: "set_err b i e s = Some s1"
    and rest: "(if e = LOCATION_ERROR_SUCCESS
       then do { rq \<leftarrow> item_request op r i hw idn; Some (request rq (BatchDone op b i hw) s1) }
       else finish_batch b i s1) = Some s'"
    by (auto simp: item_step_def bind_eq_Some_conv)
  show thesis using that [OF s1] rest by (auto simp: bind_eq_Some_conv split: if_splits)
qed

lemma tame_item_step: "item_step op b i s = Some s' \<Longrightarrow> tame s s'"
  by (erule item_stepE) (auto intro: tame_trans tame_request dest!: tame_set_err tame_finish)

lemma tame_add_step: "add_step b i s = Some s' \<Longrightarrow> tame s s'"
  by (auto simp: add_step_def bind_eq_Some_conv intro: tame_request)

text \<open>An answer is handled after its message left the queue; a hardware id it brings for a new
  geofence is not in use.\<close>

lemma tables_save:
  assumes "tables_ok s" "om_get hw (mGeofences s) = None" "hw \<notin> stops s"
  shows "tables_ok (saveGeofenceItem c i hw op' info s)"
proof -
  have "stops (saveGeofenceItem c i hw op' info s) = stops s"
    by (simp add: stops_def conts_def saveGeofenceItem_def Let_def)
  then show ?thesis using assms tabs_ok_save
    by (simp add: tables_ok_def saveGeofenceItem_def Let_def)
qed

lemma tables_remove: "tables_ok s \<Longrightarrow> tables_ok (removeGeofenceItem hw s)"
  by (auto simp: tables_ok_def removeGeofenceItem_def getGeofenceKeyFromHwId_def stops_def conts_def
      intro!: tabs_ok_remove split: option.splits)

lemma tables_adjust:
  "tables_ok s \<Longrightarrow> tables_ok (pauseGeofenceItem hw s)" "tables_ok s \<Longrightarrow> tables_ok (resumeGeofenceItem hw s)"
  "tables_ok s \<Longrightarrow> tables_ok (modifyGeofenceItem hw op' s)"
  by (simp_all add: tables_ok_def pauseGeofenceItem_def resumeGeofenceItem_def modifyGeofenceItem_def
      tabs_ok_adjust stops_def conts_def)

lemma err_finish_tables:
  "tables_ok s \<Longrightarrow> Option.bind (set_err b i e s) (\<lambda>s2. finish_batch b i s2) = Some s' \<Longrightarrow> tables_ok s'"
  by (elim bind_eq_Some_conv [THEN iffD1, elim_format] exE conjE)
    (rule tame_ok [OF tame_finish], assumption, rule tame_ok [OF tame_set_err])

lemma stops_ids: "stops (s\<lparr>mGeofenceIds := m\<rparr>) = stops s"
  by (simp add: stops_def conts_def)

lemma stop_loop_tables:
  assumes "tables_ok s" "distinct (map fst es)" "\<forall>e\<in>set es. om_get (fst e) (mGeofenceIds s) = Some (snd e)"
    "stop_loop c True es s = Some s'"
  shows "tables_ok s'"
  using assms
proof (induction es arbitrary: s)
  case (Cons e es)
  obtain key h where e: "e = (key, h)" by (cases e)
  show ?case
  proof (cases "c = key_client key")
    case True
    let ?s1 = "request (ReqRemove h (key_id key)) (StopDone h True)
        (s\<lparr>mGeofenceIds := om_erase key (mGeofenceIds s)\<rparr>)"
    have "stops ?s1 = insert h (stops s)" by (simp add: stops_ids)
    then have "tables_ok ?s1"
      using Cons.prems(1,3) e by (simp add: tables_ok_def tabs_ok_stop)
    moreover have "\<forall>e'\<in>set es. om_get (fst e') (mGeofenceIds ?s1) = Some (snd e')"
      using Cons.prems(2,3) e by (auto simp: image_iff)
    ultimately show ?thesis using Cons e True by simp
  qed (use Cons e in auto)
qed simp

text \<open>
  What the tables need: a new geofence that is saved is saved under a hardware id that is not in
  use, nor being removed.  A geofence is saved when the modem added it, and also when the modem
  failed to add it while the engine lock is not in use.
\<close>

definition cont_list :: "geo_sys \<Rightarrow> geo_cont list" where
  "cont_list s = map snd (outstanding s) @ List.map_filter msg_cont (queue s)"

definition hw_free :: "u32 \<Rightarrow> geo_sys \<Rightarrow> bool" where
  "hw_free hw s = (om_get hw (mGeofences s) = None
     \<and> list_all (\<lambda>k. case k of StopDone h er \<Rightarrow> h \<noteq> hw | _ \<Rightarrow> True) (cont_list s))"

definition new_geofence :: "geo_cont \<Rightarrow> location_error \<Rightarrow> geo_sys \<Rightarrow> bool" where
  "new_geofence k err s = (case k of BatchDone op _ _ _ \<Rightarrow> op = OpAdd \<and> engine_off_or_success err s
     | RestartDone _ \<Rightarrow> err = LOCATION_ERROR_SUCCESS | _ \<Rightarrow> False)"

definition fresh_answer :: "geo_event \<Rightarrow> geo_sys \<Rightarrow> bool" where
  "fresh_answer e s = (if e = Deliver \<and> queue s \<noteq> []
     then case hd (queue s) of MsgResponse k err hw \<Rightarrow> (new_geofence k err s \<longrightarrow> hw_free hw s) | _ \<Rightarrow> True
     else True)"

definition fresh_step :: "geo_event \<Rightarrow> geo_sys \<Rightarrow> geo_sys option" where
  "fresh_step e s = (if fresh_answer e s then geo_step e s else None)"

lemma conts_list: "conts s = mset (cont_list s)"
  by (simp add: conts_def cont_list_def)

lemma hw_freeD: "hw_free hw s \<Longrightarrow> om_get hw (mGeofences s) = None \<and> hw \<notin> stops s"
  by (fastforce simp: hw_free_def stops_def conts_list list_all_iff)

lemma restart_done_tables:
  assumes "tables_ok s" "err = LOCATION_ERROR_SUCCESS \<Longrightarrow> om_get hw (mGeofences s) = None \<and> hw \<notin> stops s"
  shows "tables_ok (restart_done object err hw s)"
proof (cases "err = LOCATION_ERROR_SUCCESS")
  case True
  note free = assms(2) [OF True]
  let ?s1 = "if paused object then request (ReqPause hw (key_id (obj_key object))) Ignored s else s"
  have "tame s ?s1" by (auto intro: tame_request)
  then have "tables_ok ?s1" "om_get hw (mGeofences ?s1) = None" "hw \<notin> stops ?s1"
    using tame_ok [OF _ assms(1)] free unfolding tame_def by (blast, auto)
  then show ?thesis using assms(1) tables_save by (simp add: restart_done_def Let_def)
qed (use assms(1) in \<open>simp add: restart_done_def\<close>)

lemma done_tables:
  assumes "tables_ok s" "response_proc (BatchDone op b i hw) err hw' s = Some s'"
    and "op = OpAdd \<Longrightarrow> engine_off_or_success err s \<Longrightarrow> om_get hw' (mGeofences s) = None \<and> hw' \<notin> stops s"
  shows "tables_ok s'"
proof (cases op)
  case OpAdd
  from assms(2) OpAdd obtain s1 where s1: "(if engine_off_or_success err s
      then do { r \<leftarrow> live_batch b s; idn \<leftarrow> item_id r i; opt \<leftarrow> item_option r i; info \<leftarrow> item_info r i;
             Some (saveGeofenceItem (mClient r) idn hw' opt info s) } else Some s) = Some s1"
    "Option.bind (set_err b i err s1) (\<lambda>s2. finish_batch b i s2) = Some s'"
    by (auto simp: response_proc_def add_done_def bind_eq_Some_conv)
  have "tables_ok s1" using s1(1) assms(1,3) OpAdd
    by (auto simp: bind_eq_Some_conv intro: tables_save split: if_splits)
  then show ?thesis by (rule err_finish_tables [OF _ s1(2)])
next
  case OpRemove
  let ?s1 = "if engine_off_or_success err s then removeGeofenceItem hw s else s"
  have "tables_ok ?s1" using assms(1) tables_remove by simp
  moreover have "Option.bind (set_err b i err ?s1) (\<lambda>s2. finish_batch b i s2) = Some s'"
    using assms(2) OpRemove unfolding response_proc_def remove_done_def Let_def by (simp only: geo_cont.case geo_op.case)
  ultimately show ?thesis by (rule err_finish_tables)
next
  case OpPause
  let ?s1 = "if err = LOCATION_ERROR_SUCCESS then pauseGeofenceItem hw s else s"
  have "tables_ok ?s1" using assms(1) tables_adjust by simp
  moreover have "Option.bind (set_err b i err ?s1) (\<lambda>s2. finish_batch b i s2) = Some s'"
    using assms(2) OpPause unfolding response_proc_def pause_done_def Let_def by (simp only: geo_cont.case geo_op.case)
  ultimately show ?thesis by (rule err_finish_tables)
next
  case OpResume
  then show ?thesis using assms(1,2)
    by (auto simp: response_proc_def resume_done_def bind_eq_Some_conv split: if_splits
        dest!: tame_set_err tame_finish intro: tame_ok tables_adjust)
next
  case OpModify
  from assms(2) OpModify obtain s1 where s1: "(if engine_off_or_success err s
      then do { s1 \<leftarrow> set_err b i err s; r \<leftarrow> live_batch b s1; opt \<leftarrow> item_option r i;
             Some (modifyGeofenceItem hw opt s1) } else Some s) = Some s1" "finish_batch b i s1 = Some s'"
    by (auto simp: response_proc_def modify_done_def bind_eq_Some_conv)
  have "tables_ok s1" using s1(1) assms(1)
    by (auto simp: bind_eq_Some_conv split: if_splits dest!: tame_set_err
        intro: tame_ok tables_adjust)
  then show ?thesis using tame_ok [OF tame_finish [OF s1(2)]] by simp
qed

lemma response_tables:
  assumes ok: "tables_ok s0" and s0: "queue s0 = MsgResponse k err hw # ms" and s: "s = s0\<lparr>queue := ms\<rparr>"
    and fresh: "new_geofence k err s0 \<Longrightarrow> hw_free hw s0" and step: "response_proc k err hw s = Some s'"
  shows "tables_ok s'"
proof -
  have c: "conts s0 = add_mset k (conts s)" using s0 s by (simp add: conts_def map_filter_simps)
  then have sub: "stops s \<subseteq> stops s0" by (auto simp: stops_def)
  have t: "tables_ok s" using ok sub s tabs_ok_mono by (simp add: tables_ok_def)
  have free: "om_get hw (mGeofences s) = None \<and> hw \<notin> stops s" if "new_geofence k err s"
  proof -
    have "new_geofence k err s0" using that s by (simp add: new_geofence_def engine_off_or_success_def split: geo_cont.splits)
    from hw_freeD [OF fresh [OF this]] sub s show ?thesis by auto
  qed
  show ?thesis
  proof (cases k)
    case (BatchStep op b i)
    then have "tame s s'" using step tame_item_step tame_add_step
      by (simp add: response_proc_def split: if_splits)
    then show ?thesis using tame_ok t by blast
  next
    case (BatchDone op b i hw')
    then show ?thesis using done_tables [OF t] step free by (simp add: new_geofence_def)
  next
    case (RestartDone object)
    then have "s' = restart_done object err hw s" using step by (simp add: response_proc_def)
    then show ?thesis using restart_done_tables t free RestartDone by (simp add: new_geofence_def)
  next
    case (StopDone h er)
    have "h \<in> stops s0" using StopDone c by (auto simp: stops_def)
    then have "tabs_ok (om_erase h (mGeofences s)) (mGeofenceIds s) (stops s0)"
      using ok s tabs_ok_stopped by (simp add: tables_ok_def)
    then have "tables_ok (s\<lparr>mGeofences := om_erase h (mGeofences s)\<rparr>)"
      using sub tabs_ok_mono by (simp add: tables_ok_def stops_def conts_def)
    then show ?thesis using step StopDone t by (auto simp: response_proc_def stop_done_def split: if_splits)
  qed (use t step tables_adjust in \<open>auto simp: response_proc_def split: if_splits\<close>)
qed

lemma restart_tables: "tables_ok s \<Longrightarrow> tables_ok (restartGeofences s)"
proof -
  assume "tables_ok s"
  let ?s = "s\<lparr>mGeofences := [], mGeofenceIds := []\<rparr>"
  have "tables_ok ?s" by (simp add: tables_ok_def tabs_ok_def)
  moreover have "tame ?s (fold (\<lambda>(_, object). request
             (ReqAdd (key_id (obj_key object)) (object_option object) (object_info object))
             (RestartDone object)) (mGeofences s) ?s)"
    by (rule tame_fold) (auto intro: tame_request)
  ultimately show ?thesis using \<open>tables_ok s\<close> tame_ok by (auto simp: restartGeofences_def)
qed

lemma tame_queue_items: "tame s (queue_items op b n s)"
  unfolding queue_items_def by (rule tame_fold) (auto intro: tame_request)

lemma tame_new_batch: "tame s (new_batch r s)"
  by (rule tame_fields) (simp_all add: new_batch_def)

lemma tame_batches:
  "tame s (add_proc c n ids os infs s)" "tame s (batch_proc op c n ids' os s)"
  unfolding add_proc_def batch_proc_def Let_def
  by (auto intro: tame_new_batch tame_trans [OF tame_new_batch tame_queue_items])

lemma tame_power: "tame s (updateSystemPowerState ps s)"
proof -
  have "tame (s\<lparr>mSystemPowerState := ps\<rparr>) (pauseOrResumeGeofences b (s\<lparr>mSystemPowerState := ps\<rparr>))" for b
    unfolding pauseOrResumeGeofences_def by (rule tame_fold) (auto intro: tame_request)
  moreover have "tame s (s\<lparr>mSystemPowerState := ps\<rparr>)" by (rule tame_fields) simp_all
  ultimately show ?thesis using tame_trans
    by (auto simp: updateSystemPowerState_def Let_def)
qed

lemma ssr_tables:
  assumes "tables_ok s" "list_all (\<lambda>m. msg_cont m = None) (mPendingMsgs s)"
  shows "tables_ok (ssr_proc s)"
proof -
  let ?s1 = "s\<lparr>mIsEngineCapabilitiesKnown := True\<rparr>"
  let ?s2 = "fold (\<lambda>c. call (CallCapabilities c (capabilities ?s1))) (broadcastCapabilities (mClientData ?s1)) ?s1"
  let ?s3 = "(fold send_msg (mPendingMsgs ?s2) ?s2)\<lparr>mPendingMsgs := []\<rparr>"
  have "tame s ?s1" by (rule tame_fields) simp_all
  moreover have "tame ?s1 ?s2" by (rule tame_fold) (rule tame_call)
  ultimately have 2: "tame s ?s2" by (rule tame_trans)
  have plain: "tame s' (fold send_msg ms s')" if "list_all (\<lambda>m. msg_cont m = None) ms" for ms s'
    using that by (induction ms arbitrary: s') (auto intro: tame_trans tame_send)
  have "tame ?s2 (fold send_msg (mPendingMsgs ?s2) ?s2)" using plain assms(2) by simp
  moreover have "tame (fold send_msg (mPendingMsgs ?s2) ?s2) ?s3" by (rule tame_fields) simp_all
  ultimately have 3: "tame s ?s3" using 2 tame_trans by blast
  show ?thesis using tame_ok [OF 2 assms(1)] restart_tables [OF tame_ok [OF 3 assms(1)]]
      tame_ok [OF 3 assms(1)]
    by (auto simp: ssr_proc_def Let_def)
qed

definition tables_inv :: "geo_sys \<Rightarrow> bool" where
  "tables_inv s = (tables_ok s \<and> list_all (\<lambda>m. msg_cont m = None) (mPendingMsgs s))"

text \<open>The pending messages change in two places only.\<close>

lemma pending_request [simp]:
  "mPendingMsgs (fold (\<lambda>x. request (g x) (h x)) xs s) = mPendingMsgs s"
  by (induction xs arbitrary: s) auto

lemma pending_fold: "(\<And>x s. mPendingMsgs (f x s) = mPendingMsgs s) \<Longrightarrow> mPendingMsgs (fold f xs s) = mPendingMsgs s"
  by (induction xs arbitrary: s) auto

lemma pending_send [simp]: "mPendingMsgs (fold send_msg ms s) = mPendingMsgs s"
  by (rule pending_fold) simp

lemma pending_restart [simp]: "mPendingMsgs (restartGeofences s) = mPendingMsgs s"
proof -
  have "mPendingMsgs (fold (\<lambda>(_, object). request
             (ReqAdd (key_id (obj_key object)) (object_option object) (object_info object))
             (RestartDone object)) xs s') = mPendingMsgs s'" for xs :: "(u32, geofence_object) ord_map" and s'
    by (rule pending_fold) auto
  then show ?thesis by (simp add: restartGeofences_def)
qed

lemma pending_power [simp]: "mPendingMsgs (updateSystemPowerState ps s) = mPendingMsgs s"
proof -
  have "mPendingMsgs (pauseOrResumeGeofences b s') = mPendingMsgs s'" for b s'
    unfolding pauseOrResumeGeofences_def by (rule pending_fold) auto
  then show ?thesis by (simp add: updateSystemPowerState_def Let_def)
qed

lemma pending_stop: "stop_loop c b es s = Some s' \<Longrightarrow> mPendingMsgs s' = mPendingMsgs s"
  by (induction c b es s rule: stop_loop.induct) (auto split: if_splits)

lemma pending_work:
  "set_err b i e s = Some s' \<Longrightarrow> mPendingMsgs s' = mPendingMsgs s"
  "finish_batch b i s = Some s' \<Longrightarrow> mPendingMsgs s' = mPendingMsgs s"
  by (auto simp: set_err_def finish_batch_def bind_eq_Some_conv Let_def reportResponse_def call_def
      split: if_splits option.splits)

lemma pending_same: "same_work s s' \<Longrightarrow> mPendingMsgs s' = mPendingMsgs s"
  by (simp add: same_work_def)

lemmas pending_tables [simp] = same_workI(1-6) [THEN pending_same]

lemma pending_done:
  assumes "response_proc (BatchDone op b i hw) err hw' s = Some s'"
  shows "mPendingMsgs s' = mPendingMsgs s"
  using assms
  by (cases op) (auto simp: response_proc_def add_done_def remove_done_def pause_done_def
      resume_done_def modify_done_def bind_eq_Some_conv Let_def dest!: pending_work split: if_splits)

lemma pending_item_step: "item_step op b i s = Some s' \<Longrightarrow> mPendingMsgs s' = mPendingMsgs s"
  by (erule item_stepE) (auto dest!: pending_work)

lemma pending_step:
  "response_proc (BatchStep op b i) err hw' s = Some s' \<Longrightarrow> mPendingMsgs s' = mPendingMsgs s"
  by (auto simp: response_proc_def add_step_def bind_eq_Some_conv dest!: pending_item_step
      split: if_splits)

lemma pending_response:
  assumes "response_proc k err hw s = Some s'"
  shows "mPendingMsgs s' = mPendingMsgs s"
  using assms pending_done pending_step
  by (cases k) (auto simp: response_proc_def restart_done_def Let_def split: if_splits)

lemma queue_proc_tables:
  assumes "tables_inv s" "msg_cont m = None" "proc m s = Some s'"
  shows "tables_inv s'"
proof -
  have t: "tables_ok s" and p: "list_all (\<lambda>m. msg_cont m = None) (mPendingMsgs s)"
    using assms(1) by (simp_all add: tables_inv_def)
  have tame: "tables_inv s'" if "tame s s'" "mPendingMsgs s' = mPendingMsgs s"
    using tame_ok [OF that(1) t] that(2) p by (simp add: tables_inv_def)
  have call_pending: "mPendingMsgs (call c s') = mPendingMsgs s'" for c s' by (simp add: call_def)
  show ?thesis
  proof (cases m)
    case (MsgAddClient c cb)
    then show ?thesis using assms(3)
      by (intro tame tame_fields) (auto simp: proc_def updateClientsEventMask_def Let_def)
  next
    case (MsgRemoveClient c cb)
    then obtain s1 where s1: "stop_loop c True (mGeofenceIds s) s = Some s1"
      "s' = (let s2 = updateClientsEventMask (s1\<lparr>mClientData := eraseClient c (mClientData s1)\<rparr>)
             in if cb then call (CallRemoveClient c) s2 else s2)"
      using assms(3) by (auto simp: proc_def remove_client_proc_def stopClientSessions_def
          bind_eq_Some_conv Let_def)
    have ids: "om_ok (mGeofenceIds s)" using t by (simp add: tables_ok_def tabs_ok_def)
    have "tables_ok s1"
      using stop_loop_tables [OF t om_distinct [OF ids] _ s1(1)] om_get_in [OF ids] by force
    moreover have "tame s1 s'"
      by (rule tame_fields) (simp_all add: s1(2) updateClientsEventMask_def call_def Let_def)
    moreover have "mPendingMsgs s' = mPendingMsgs s"
      using pending_stop [OF s1(1)] by (simp add: s1(2) updateClientsEventMask_def call_def Let_def)
    ultimately show ?thesis using tame_ok p by (auto simp: tables_inv_def)
  next
    case (MsgRequestCapabilities c)
    have "tables_inv (s\<lparr>mPendingMsgs := mPendingMsgs s @ [MsgRequestCapabilities c]\<rparr>)"
      using t p by (simp add: tables_inv_def tables_ok_def stops_def conts_def)
    moreover have "tables_inv (call c' s)" for c'
      using tame_ok [OF tame_call t] p by (simp add: tables_inv_def call_pending)
    ultimately show ?thesis using MsgRequestCapabilities assms
      by (auto simp: proc_def request_capabilities_proc_def split: if_splits)
  next
    case MsgSSREvent
    have "mPendingMsgs (ssr_proc s) = [] \<or> mPendingMsgs (ssr_proc s) = mPendingMsgs s"
      by (simp add: ssr_proc_def Let_def)
    then show ?thesis using MsgSSREvent assms(3) ssr_tables [OF t p] p
      by (auto simp: proc_def tables_inv_def)
  next
    case (MsgGeofenceBreach hwIds l ty ts)
    have "tame s (geofenceBreach hwIds l ty ts s)"
      unfolding geofenceBreach_def by (rule tame_fold) (auto simp: Let_def intro: tame_call)
    moreover have "mPendingMsgs (geofenceBreach hwIds l ty ts s) = mPendingMsgs s"
      unfolding geofenceBreach_def by (rule pending_fold) (auto simp: Let_def call_pending)
    ultimately show ?thesis using MsgGeofenceBreach assms(3) tame by (simp add: proc_def)
  next
    case (MsgGeofenceStatus a)
    have "tame s (geofenceStatus a s)"
      unfolding geofenceStatus_def by (rule tame_fold) (auto intro: tame_call)
    moreover have "mPendingMsgs (geofenceStatus a s) = mPendingMsgs s"
      unfolding geofenceStatus_def by (rule pending_fold) (auto simp: call_pending)
    ultimately show ?thesis using MsgGeofenceStatus assms(3) tame by (simp add: proc_def)
  next
    case (MsgUpdateSystemPowerState ps)
    then show ?thesis using assms(3) tame tame_power by (auto simp: proc_def)
  next
    case (MsgAddGeofences c n ids os infs)
    moreover have "mPendingMsgs (add_proc c n ids os infs s) = mPendingMsgs s"
      by (simp add: add_proc_def queue_items_def new_batch_def Let_def)
    ultimately show ?thesis using assms(3) tame tame_batches(1) by (auto simp: proc_def)
  next
    case (MsgBatch op c n ids os)
    moreover have "mPendingMsgs (batch_proc op c n ids os s) = mPendingMsgs s"
      by (simp add: batch_proc_def queue_items_def new_batch_def Let_def)
    ultimately show ?thesis using assms(3) tame tame_batches(2) by (auto simp: proc_def)
  next
    case (MsgResponse k err hw)
    then show ?thesis using assms(2) by simp
  qed
qed

lemma command_tame: "tame s (command c s) \<and> mPendingMsgs (command c s) = mPendingMsgs s"
proof (cases c)
  case (AddGeofences cl n os infs)
  obtain ids c' where g: "generate_ids n (mSessionIdCounter s) = (ids, c')"
    by (cases "generate_ids n (mSessionIdCounter s)")
  have "tame s (s\<lparr>mSessionIdCounter := c'\<rparr>)" by (rule tame_fields) simp_all
  then show ?thesis using AddGeofences g tame_trans [OF _ tame_send]
    by (auto simp: command_def addGeofencesCommand_def)
qed (auto simp: command_def itemsCommand_def geofenceBreachEvent_def removeGeofencesCommand_def
    pauseGeofencesCommand_def resumeGeofencesCommand_def modifyGeofencesCommand_def intro: tame_send)

lemma fresh_step_tables:
  assumes inv: "tables_inv s" and step: "fresh_step e s = Some s'"
  shows "tables_inv s'"
proof -
  have fresh: "fresh_answer e s" and st: "geo_step e s = Some s'"
    using step by (auto simp: fresh_step_def split: if_splits)
  have t: "tables_ok s" and p: "list_all (\<lambda>m. msg_cont m = None) (mPendingMsgs s)"
    using inv by (simp_all add: tables_inv_def)
  show ?thesis
  proof (cases e)
    case (Command c)
    then show ?thesis using st command_tame [of s c] tame_ok t p
      by (auto simp: geo_step_def tables_inv_def)
  next
    case (LockState l)
    have "tame s (s\<lparr>mEngineLockState := l\<rparr>)" by (rule tame_fields) simp_all
    then show ?thesis using LockState st tame_ok t p by (auto simp: geo_step_def tables_inv_def)
  next
    case (Respond n err hw)
    show ?thesis
    proof (cases "n < length (outstanding s)")
      case True
      let ?o = "outstanding s"
      let ?s = "s\<lparr>outstanding := take n ?o @ drop (Suc n) ?o\<rparr>"
      let ?k = "snd (?o ! n)"
      have "add_mset ?k (mset (map snd (take n ?o @ drop (Suc n) ?o))) = mset (map snd ?o)"
        using mset_remove_nth [of n "map snd ?o"] True by (simp add: take_map drop_map)
      then have c: "conts (send_msg (MsgResponse ?k err hw) ?s) = conts s"
        by (simp add: conts_def map_filter_append map_filter_simps flip: union_mset_add_mset_left)
      have "tame s (send_msg (MsgResponse ?k err hw) ?s)"
        unfolding tame_def stops_def c by (simp add: send_msg_def)
      then show ?thesis using Respond True st tame_ok t p by (auto simp: geo_step_def tables_inv_def)
    qed (use Respond st inv in \<open>simp add: geo_step_def\<close>)
  next
    case Deliver
    show ?thesis
    proof (cases "queue s")
      case (Cons m ms)
      let ?s = "s\<lparr>queue := ms\<rparr>"
      have pr: "proc m ?s = Some s'" using st Deliver Cons by (simp add: geo_step_def)
      show ?thesis
      proof (cases "msg_cont m")
        case None
        have "conts ?s = conts s" using Cons None by (simp add: conts_def map_filter_simps)
        then have "tame s ?s" by (simp add: tame_def stops_def)
        then have "tables_inv ?s" using tame_ok t p by (simp add: tables_inv_def)
        then show ?thesis by (rule queue_proc_tables [OF _ None pr])
      next
        case (Some k)
        then obtain err hw where m: "m = MsgResponse k err hw" by (cases m) auto
        have r: "response_proc k err hw ?s = Some s'" using pr m by (simp add: proc_def)
        have q: "queue s = MsgResponse k err hw # ms" using Cons m by simp
        have "hw_free hw s" if "new_geofence k err s"
          using fresh Deliver q that by (simp add: fresh_answer_def)
        from response_tables [OF t q refl this r] have "tables_ok s'" .
        then show ?thesis using pending_response [OF r] p by (simp add: tables_inv_def)
      qed
    qed (use Deliver st inv in \<open>simp add: geo_step_def\<close>)
  qed
qed

interpretation tables: invariant_system fresh_step tables_inv "\<lambda>_. True"
  by unfold_locales (rule fresh_step_tables)

lemma geo_init_tables: "tables_inv (geo_init c)"
  by (simp add: tables_inv_def tables_ok_def tabs_ok_def geo_init_def)

text \<open>
  C14: As long as no geofence is saved under a hardware id that is in use or being removed, in any
  order of commands, answers, failures, lock events and restarts: the hardware id that the table of
  the clients has for a client's geofence leads back to that client and its number.  (Nothing is
  said of the other direction: the entry of a removed client stays until the modem answers.  The
  hypothesis excludes failed adds that are saved under the same id of the answers while the engine
  lock is not in use; \<open>failed_adds_share_an_id\<close> shows that the tables disagree after two.)
\<close>

theorem geofence_tables_agree:
  assumes "run fresh_step es (geo_init c) = Some s"
    and "getHwIdFromClient client idn s = (LOCATION_ERROR_SUCCESS, hwId)"
  shows "getGeofenceKeyFromHwId hwId s = Some (GeofenceKey client idn)"
proof -
  have "tables_inv s" by (rule tables.run_inv [OF geo_init_tables _ assms(1)]) (simp add: list_all_iff)
  moreover have "om_get (GeofenceKey client idn) (mGeofenceIds s) = Some hwId"
    using assms(2) by (simp add: getHwIdFromClient_def split: option.splits)
  ultimately show ?thesis
    by (auto simp: tables_inv_def tables_ok_def tabs_ok_def getGeofenceKeyFromHwId_def)
qed

text \<open>
  With the engine lock as it is at first, geofences that the modem failed to add are saved.  Two
  of them are under the same hardware id, which leads to the second only.
\<close>

definition failed_adds :: "geo_event list" where
  "failed_adds = [Command (AddClient 7 example_callbacks), Deliver,
     Command (AddGeofences 7 1 (Some [example_option]) (Some [example_info])), Deliver,
     Respond 0 LOCATION_ERROR_SUCCESS 0, Deliver, Respond 0 LOCATION_ERROR_GENERAL_FAILURE 0, Deliver,
     Command (AddGeofences 7 1 (Some [example_option]) (Some [example_info])), Deliver,
     Respond 0 LOCATION_ERROR_SUCCESS 0, Deliver, Respond 0 LOCATION_ERROR_GENERAL_FAILURE 0, Deliver]"

theorem failed_adds_share_an_id:
  "map_option (\<lambda>s. (getHwIdFromClient 7 2 s, getHwIdFromClient 7 3 s, getGeofenceKeyFromHwId 0 s))
      (run geo_step failed_adds (geo_init example_context))
    = Some ((LOCATION_ERROR_SUCCESS, 0), (LOCATION_ERROR_SUCCESS, 0), Some (GeofenceKey 7 3))"
  by code_simp

definition example_tables :: geo_sys where
  "example_tables = the (run fresh_step (add_one 7 41) (geo_init example_context))"

theorem geofence_tables_agree_witness:
  "getGeofenceKeyFromHwId 41 example_tables = Some (GeofenceKey 7 2)"
proof (rule geofence_tables_agree)
  have "run fresh_step (add_one 7 41) (geo_init example_context) \<noteq> None" by code_simp
  then show "run fresh_step (add_one 7 41) (geo_init example_context) = Some example_tables"
    by (simp add: example_tables_def)
  show "getHwIdFromClient 7 2 example_tables = (LOCATION_ERROR_SUCCESS, 41)" by code_simp
qed

section \<open>Restarts\<close>

text \<open>A paused geofence is paused again in the modem after a restart, but recorded as running, so
  that the next restart leaves it running.\<close>

lemma restart_forgets_pause:
  assumes "om_ok (mGeofences s)"
  shows "om_get hwId (mGeofences (restart_done object LOCATION_ERROR_SUCCESS hwId s))
    = Some (object\<lparr>paused := False\<rparr>)"
proof -
  obtain c i where k: "obj_key object = GeofenceKey c i" by (cases "obj_key object")
  then show ?thesis using assms
    by (cases object) (simp add: restart_done_def saveGeofenceItem_def Let_def object_option_def
        object_info_def)
qed

text \<open>Stopping the sessions of a client without erasing them never ends once it has one.\<close>

lemma stop_without_erase:
  "stopClientSessions client False s =
     (if list_ex (\<lambda>e. key_client (fst e) = client) (mGeofenceIds s) then None else Some s)"
proof -
  have "stop_loop client False es s = (if list_ex (\<lambda>e. key_client (fst e) = client) es then None else Some s)"
    for es by (induction es) auto
  then show ?thesis by (simp add: stopClientSessions_def)
qed

end
