(* ===== verification/TrackingOptions.thy ===== *)
theory TrackingOptions
  imports LocAdapterBase
begin

text \<open>
  The options of a tracking session (\<^verbatim>\<open>gps/location/LocationDataTypes.h\<close>), the key of a session
  (\<^verbatim>\<open>gps/core/LocAdapterBase.h\<close>), and the multiplexing of the options of many sessions into
  the one request the engine takes.  Enumerations are the unsigned numbers the compiler gives
  them, since they are compared and since a client may pass any.
\<close>

section \<open>Data\<close>

datatype session_key = SessionKey (sk_client: client) (sk_id: u32)

text \<open>The order of the keys, \<open>operator <\<close> of the struct.\<close>

definition session_key_less :: "session_key \<Rightarrow> session_key \<Rightarrow> bool" where
  "session_key_less left right \<longleftrightarrow> sk_id left < sk_id right
     \<or> (sk_id left = sk_id right \<and> sk_client left < sk_client right)"

instantiation session_key :: linorder
begin

definition less_eq_session_key :: "session_key \<Rightarrow> session_key \<Rightarrow> bool" where
  "less_eq_session_key left right \<longleftrightarrow> sk_id left < sk_id right
     \<or> (sk_id left = sk_id right \<and> sk_client left \<le> sk_client right)"

definition less_session_key :: "session_key \<Rightarrow> session_key \<Rightarrow> bool" where
  "less_session_key left right = session_key_less left right"

instance
  by standard (auto simp: less_eq_session_key_def less_session_key_def session_key_less_def session_key.expand)

end

record location_options =
  opt_size :: u32
  minInterval :: u32
  minDistance :: u32
  opt_mode :: u32
  locReqEngTypeMask :: u32
  qualityLevelAccepted :: u32

record tracking_options = location_options +
  powerMode :: u32
  tbm :: u32
  specialReq :: u32

definition GNSS_POWER_MODE_M2 :: u32 where "GNSS_POWER_MODE_M2 = 2"
definition GNSS_POWER_MODE_M4 :: u32 where "GNSS_POWER_MODE_M4 = 4"
definition GNSS_SUPL_MODE_MSB :: u32 where "GNSS_SUPL_MODE_MSB = 1"
definition GNSS_SUPL_MODE_MSA :: u32 where "GNSS_SUPL_MODE_MSA = 2"

text \<open>The default constructor.\<close>

definition default_options :: tracking_options where
  "default_options = \<lparr>opt_size = 0, minInterval = 0, minDistance = 0, opt_mode = 0,
     locReqEngTypeMask = 0, qualityLevelAccepted = 0, powerMode = GNSS_POWER_MODE_M2, tbm = 0,
     specialReq = 0\<rparr>"

section \<open>Multiplexing\<close>

definition equalsInTimeBasedRequest :: "tracking_options \<Rightarrow> tracking_options \<Rightarrow> bool" where
  "equalsInTimeBasedRequest other o' =
     (minInterval o' = minInterval other \<and> powerMode o' = powerMode other \<and> tbm o' = tbm other
      \<and> qualityLevelAccepted o' = qualityLevelAccepted other)"

text \<open>The result says whether anything but the quality changed.\<close>

definition multiplexWithForTimeBasedRequest ::
  "tracking_options \<Rightarrow> tracking_options \<Rightarrow> bool \<times> tracking_options" where
  "multiplexWithForTimeBasedRequest other o' =
     (let u1 = minInterval other < minInterval o';
          o1 = (if u1 then o'\<lparr>minInterval := minInterval other\<rparr> else o');
          u2 = powerMode other < powerMode o1;
          o2 = (if u2 then o1\<lparr>powerMode := powerMode other\<rparr> else o1);
          u3 = tbm other < tbm o2;
          o3 = (if u3 then o2\<lparr>tbm := tbm other\<rparr> else o2);
          o4 = (if qualityLevelAccepted o3 < qualityLevelAccepted other
                then o3\<lparr>qualityLevelAccepted := qualityLevelAccepted other\<rparr> else o3)
      in (u1 \<or> u2 \<or> u3, o4))"

definition mux_with :: "tracking_options \<Rightarrow> tracking_options \<Rightarrow> tracking_options" where
  "mux_with other o' = snd (multiplexWithForTimeBasedRequest other o')"

type_synonym sessions = "(session_key, tracking_options) ord_map"

text \<open>The loop over the sessions, with \<open>optionSetOnce\<close>.\<close>

fun mux_loop :: "sessions \<Rightarrow> tracking_options \<times> bool \<Rightarrow> tracking_options \<times> bool" where
  "mux_loop [] (multiplexedOptions, optionSetOnce) = (multiplexedOptions, optionSetOnce)"
| "mux_loop ((_, it2) # es) (multiplexedOptions, optionSetOnce) =
     mux_loop es (if \<not> optionSetOnce then (it2, True)
                  else (mux_with it2 multiplexedOptions, True))"

definition multiplexed :: "sessions \<Rightarrow> tracking_options" where
  "multiplexed es = fst (mux_loop es (default_options, False))"

section \<open>What the engine is asked for\<close>

text \<open>The part of the options that counts in the request: the shortest interval, the lowest power
  mode, the shortest time between measurements, and the best quality.\<close>

definition request_of :: "tracking_options \<Rightarrow> u32 \<times> u32 \<times> u32 \<times> u32" where
  "request_of o' = (minInterval o', powerMode o', tbm o', qualityLevelAccepted o')"

definition meet :: "u32 \<times> u32 \<times> u32 \<times> u32 \<Rightarrow> u32 \<times> u32 \<times> u32 \<times> u32 \<Rightarrow> u32 \<times> u32 \<times> u32 \<times> u32" where
  "meet p q = (case (p, q) of ((a, b, c, d), (a', b', c', d')) \<Rightarrow>
     (min a a', min b b', min c c', max d d'))"

lemma equals_request: "equalsInTimeBasedRequest other o' \<longleftrightarrow> request_of o' = request_of other"
  by (auto simp: equalsInTimeBasedRequest_def request_of_def)

lemma request_of_mux [simp]: "request_of (mux_with other o') = meet (request_of other) (request_of o')"
  by (simp add: mux_with_def multiplexWithForTimeBasedRequest_def Let_def request_of_def meet_def min_def max_def)
     (auto simp: less_le_not_le)

lemma multiplex_updated:
  "fst (multiplexWithForTimeBasedRequest other o') \<longleftrightarrow>
     \<not> (minInterval o' \<le> minInterval other \<and> powerMode o' \<le> powerMode other \<and> tbm o' \<le> tbm other)"
  by (auto simp: multiplexWithForTimeBasedRequest_def Let_def split: if_splits)

lemma meet_laws: "meet p q = meet q p" "meet (meet p q) r = meet p (meet q r)" "meet p p = p"
  "meet p (meet p q) = meet p q" "meet p (meet q r) = meet q (meet p r)"
  by (auto simp: meet_def min.commute min.left_commute min.assoc max.commute max.left_commute max.assoc
        split: prod.splits)

text \<open>The request that meets a set of sessions.\<close>

definition lowest :: "(u32 \<times> u32 \<times> u32 \<times> u32) set \<Rightarrow> u32 \<times> u32 \<times> u32 \<times> u32" where
  "lowest R = (Min ((\<lambda>(a, _). a) ` R), Min ((\<lambda>(_, b, _). b) ` R), Min ((\<lambda>(_, _, c, _). c) ` R),
     Max ((\<lambda>(_, _, _, d). d) ` R))"

definition requests :: "sessions \<Rightarrow> (u32 \<times> u32 \<times> u32 \<times> u32) set" where
  "requests es = (\<lambda>e. request_of (snd e)) ` set es"

lemma lowest_single [simp]: "lowest {p} = p"
  by (cases p) (simp add: lowest_def)

lemma lowest_insert: "finite R \<Longrightarrow> R \<noteq> {} \<Longrightarrow> lowest (insert p R) = meet p (lowest R)"
  by (cases p) (simp add: lowest_def meet_def)

lemma requests_simps [simp]: "requests [] = {}" "requests (e # es) = insert (request_of (snd e)) (requests es)"
  "finite (requests es)" "requests es = {} \<longleftrightarrow> es = []"
  by (simp_all add: requests_def)

lemma requests_put:
  "om_ok es \<Longrightarrow> requests (om_put k o' es) = insert (request_of o') (requests (om_erase k es))"
  by (simp add: requests_def om_put_set)

lemma requests_split:
  "om_ok es \<Longrightarrow> om_get k es = Some o' \<Longrightarrow> requests es = insert (request_of o') (requests (om_erase k es))"
  by (simp add: requests_def om_get_set [of es k o'])

lemma mux_loop_meets:
  "request_of (fst (mux_loop es (o', True))) = lowest (insert (request_of o') (requests es))"
proof (induction es arbitrary: o')
  case (Cons e es)
  obtain k v where e: "e = (k, v)" by (cases e)
  have "lowest (insert (meet (request_of v) (request_of o')) (requests es))
      = lowest (insert (request_of o') (insert (request_of v) (requests es)))"
    by (cases "requests es = {}") (simp_all add: lowest_insert meet_laws del: requests_simps(4))
  with Cons [of "mux_with v o'"] show ?case by (simp add: e)
qed simp

lemma request_of_multiplexed: "es \<noteq> [] \<Longrightarrow> request_of (multiplexed es) = lowest (requests es)"
  using mux_loop_meets by (cases es) (auto simp: multiplexed_def)

text \<open>
  C37: The options the loop over the sessions computes ask for the shortest interval, the lowest power
  mode, the shortest time between measurements and the best quality of all sessions, whatever
  their order.
\<close>

theorem multiplexed_is_lowest:
  assumes "es \<noteq> []"
  shows "request_of (multiplexed es) = lowest (requests es)"
  by (rule request_of_multiplexed [OF assms])

definition example_tracking :: "u32 \<Rightarrow> tracking_options" where
  "example_tracking interval = default_options\<lparr>opt_size := 1, minInterval := interval\<rparr>"

lemma multiplexed_is_lowest_witness:
  "request_of (multiplexed [(SessionKey 1 2, example_tracking 5000), (SessionKey 1 3, example_tracking 1000)])
     = (1000, 2, 0, 0)"
  using multiplexed_is_lowest
    [of "[(SessionKey 1 2, example_tracking 5000), (SessionKey 1 3, example_tracking 1000)]"]
  by (simp add: lowest_insert meet_def request_of_def example_tracking_def default_options_def
        GNSS_POWER_MODE_M2_def)

text \<open>One more session changes the request only downwards.\<close>

lemma mux_with_multiplexed:
  "es \<noteq> [] \<Longrightarrow> request_of (mux_with o' (multiplexed es)) = lowest (insert (request_of o') (requests es))"
  by (simp add: request_of_multiplexed lowest_insert)

end
