(* ===== verification/CNumber.thy ===== *)
theory CNumber
  imports Decimal
begin

text \<open>
  Numerals as the C library reads them: \<open>strtol\<close> and \<open>strtoull\<close> in base ten and sixteen, and
  \<open>atoi\<close>; and how a sentence of fields separated by commas is taken apart.
\<close>

section \<open>Numerals\<close>

definition is_space :: "char \<Rightarrow> bool" where
  "is_space c = (c = CHR '' '' \<or> (9 \<le> (of_char c :: nat) \<and> (of_char c :: nat) \<le> 13))"

text \<open>The value of a digit of any base up to sixteen.\<close>

definition digit_of :: "char \<Rightarrow> nat option" where
  "digit_of c = (let n = (of_char c :: nat) in
     if 48 \<le> n \<and> n \<le> 57 then Some (n - 48)
     else if 97 \<le> n \<and> n \<le> 102 then Some (n - 87)
     else if 65 \<le> n \<and> n \<le> 70 then Some (n - 55)
     else None)"

fun read_base :: "nat \<Rightarrow> nat \<Rightarrow> string \<Rightarrow> nat" where
  "read_base b acc [] = acc"
| "read_base b acc (c # cs) = (case digit_of c of
     Some d \<Rightarrow> if d < b then read_base b (acc * b + d) cs else acc
   | None \<Rightarrow> acc)"

text \<open>The prefix \<open>0x\<close> in base sixteen.\<close>

definition skip_0x :: "nat \<Rightarrow> string \<Rightarrow> string" where
  "skip_0x b s = (case s of
     z # x # c # cs \<Rightarrow>
       if b = 16 \<and> z = CHR ''0'' \<and> (x = CHR ''x'' \<or> x = CHR ''X'') \<and> digit_of c \<noteq> None then c # cs else s
   | _ \<Rightarrow> s)"

definition read_signed :: "nat \<Rightarrow> string \<Rightarrow> int" where
  "read_signed b s = (let t = dropWhile is_space s in
     case t of
       [] \<Rightarrow> 0
     | c # cs \<Rightarrow>
         if c = CHR ''-'' then - int (read_base b 0 (skip_0x b cs))
         else if c = CHR ''+'' then int (read_base b 0 (skip_0x b cs))
         else int (read_base b 0 (skip_0x b t)))"

text \<open>A \<open>long\<close> has 64 bits, and a value out of range is the nearest in range.\<close>

definition strtol :: "nat \<Rightarrow> string \<Rightarrow> int" where
  "strtol b s = max (- (2 ^ 63)) (min (2 ^ 63 - 1) (read_signed b s))"

text \<open>\<open>strtoull\<close>: a numeral out of range is the largest value; the sign is applied after.\<close>

definition strtoull :: "nat \<Rightarrow> string \<Rightarrow> 64 word" where
  "strtoull b s = (let v = read_signed b s in
     if \<bar>v\<bar> \<ge> 2 ^ 64 then - 1 else word_of_int v)"

definition atoi :: "string \<Rightarrow> 32 word" where
  "atoi s = word_of_int (strtol 10 s)"

text \<open>Conversion of an \<open>int\<close> to another integer type.\<close>

definition int_to :: "32 word \<Rightarrow> 'a::len word" where
  "int_to w = scast w"

lemma read_base_digits: "list_all is_digit s \<Longrightarrow> read_base 10 acc s = read_digits acc s"
  by (induction s arbitrary: acc) (auto simp: digit_of_def is_digit_def digit_value_def Let_def)

lemma show_nat_first: "\<not> is_space (hd (show_nat n))" "hd (show_nat n) \<noteq> CHR ''-''" "hd (show_nat n) \<noteq> CHR ''+''"
proof -
  have "is_digit (hd (show_nat n))" using show_nat_digits [of n] by (cases "show_nat n") auto
  then show "\<not> is_space (hd (show_nat n))" "hd (show_nat n) \<noteq> CHR ''-''" "hd (show_nat n) \<noteq> CHR ''+''"
    by (auto simp: is_digit_def is_space_def)
qed

lemma skip_0x_decimal [simp]: "skip_0x 10 s = s"
  by (simp add: skip_0x_def split: list.split)

text \<open>What is printed in decimal is read back.\<close>

lemma read_signed_show: "read_signed 10 (show_int i) = i"
proof (cases "i < 0")
  case True
  have "\<not> is_space (CHR ''-'')" by (simp add: is_space_def)
  with True show ?thesis
    by (simp add: read_signed_def show_int_def read_base_digits show_nat_digits read_show_nat)
next
  case False
  then obtain c cs where c: "show_nat (nat i) = c # cs" by (cases "show_nat (nat i)") auto
  with False show_nat_first [of "nat i"] show ?thesis
    using read_base_digits [OF show_nat_digits, of 0 "nat i"] read_show_nat [of "nat i"]
    by (simp add: read_signed_def show_int_def)
qed

lemma atoi_show: "- (2 ^ 31) \<le> i \<Longrightarrow> i < 2 ^ 31 \<Longrightarrow> sint (atoi (show_int i)) = i"
  by (simp add: atoi_def strtol_def read_signed_show sint_sbintrunc' signed_take_bit_int_eq_self)

section \<open>Fields\<close>

text \<open>The fields before each comma; what follows the last comma is left.\<close>

fun split_fields :: "string \<Rightarrow> string \<Rightarrow> string list" where
  "split_fields acc [] = []"
| "split_fields acc (c # cs) =
     (if c = CHR '','' then rev acc # split_fields [] cs else split_fields (c # acc) cs)"

lemma split_fields_append:
  "CHR '','' \<notin> set xs \<Longrightarrow> split_fields acc (xs @ ys) = split_fields (rev xs @ acc) ys"
  by (induction xs arbitrary: acc) auto

lemma split_fields_rest: "CHR '','' \<notin> set xs \<Longrightarrow> split_fields acc xs = []"
  by (induction xs arbitrary: acc) auto

text \<open>Fields joined by commas, each followed by one.\<close>

definition join_fields :: "string list \<Rightarrow> string" where
  "join_fields fs = concat (map (\<lambda>f. f @ [CHR '','']) fs)"

lemma split_join:
  "\<forall>f\<in>set fs. CHR '','' \<notin> set f \<Longrightarrow> CHR '','' \<notin> set rest \<Longrightarrow> split_fields [] (join_fields fs @ rest) = fs"
proof (induction fs)
  case Nil
  then show ?case by (simp add: join_fields_def split_fields_rest)
next
  case (Cons f fs)
  then show ?case by (simp add: join_fields_def split_fields_append)
qed

text \<open>The digits of a number are neither a comma nor a star.\<close>

lemma show_int_chars:
  assumes "c \<in> set (show_int i)"
  shows "c = CHR ''-'' \<or> is_digit c"
proof -
  have "\<forall>c\<in>set (show_nat n). is_digit c" for n using show_nat_digits [of n] by (simp add: list_all_iff)
  with assms show ?thesis by (auto simp: show_int_def split: if_splits)
qed

lemma show_int_plain: "CHR '','' \<notin> set (show_int i)" "CHR ''*'' \<notin> set (show_int i)"
  using show_int_chars [of "CHR '',''" i] show_int_chars [of "CHR ''*''" i] by (auto simp: is_digit_def)

end
