(* ===== verification/Ntrip.thy ===== *)
theory Ntrip
  imports CNumber Steps
begin

text \<open>
  The correction stream of \<^verbatim>\<open>gps/gnss/GnssAdapter.cpp\<close> (``DGnss Ntrip Source'') with the messages
  that \<^verbatim>\<open>gps/gnss/XtraSystemStatusObserver.cpp\<close> sends to the daemon for it.

  Whether a tracking session is running, whether the feature is licensed and the boot time are
  arguments.  An operation that throws is \<open>None\<close>.
\<close>

unbundle bit_operations_syntax

section \<open>Data\<close>

record ntrip_params =
  np_size :: u32
  requiresNmeaLocation :: bool
  hostNameOrIp :: string
  mountPoint :: string
  username :: string
  password :: string
  port :: u32
  useSSL :: bool
  nmeaUpdateInterval :: u32

text \<open>What leaves the adapter: a datagram to the daemon, and an event for the system status.\<close>

datatype ntrip_out =
    ToDaemon string
  | NtripStarted bool

record ntrip =
  mDgnssState :: "16 word"
  ntripParams :: ntrip_params
  nmea :: string
  enableRTKEngine :: bool
  mSendNmeaConsent :: bool
  mDgnssLastNmeaBootTimeMilli :: u64
  mNtripParamsString :: string
  outs :: "ntrip_out list"

definition DGNSS_STATE_ENABLE_NTRIP_COMMAND :: "16 word" where
  "DGNSS_STATE_ENABLE_NTRIP_COMMAND = 1"

definition DGNSS_STATE_NO_NMEA_PENDING :: "16 word" where
  "DGNSS_STATE_NO_NMEA_PENDING = 2"

definition DGNSS_STATE_NTRIP_SESSION_STARTED :: "16 word" where
  "DGNSS_STATE_NTRIP_SESSION_STARTED = 4"

lemmas dgnss_bits = DGNSS_STATE_ENABLE_NTRIP_COMMAND_def DGNSS_STATE_NO_NMEA_PENDING_def
  DGNSS_STATE_NTRIP_SESSION_STARTED_def

definition set_bits_of :: "16 word \<Rightarrow> ntrip \<Rightarrow> ntrip" where
  "set_bits_of b s = s\<lparr>mDgnssState := mDgnssState s OR b\<rparr>"

definition clear_bits_of :: "16 word \<Rightarrow> ntrip \<Rightarrow> ntrip" where
  "clear_bits_of b s = s\<lparr>mDgnssState := mDgnssState s AND NOT b\<rparr>"

definition has_bit :: "16 word \<Rightarrow> ntrip \<Rightarrow> bool" where
  "has_bit b s = (mDgnssState s AND b \<noteq> 0)"

definition out :: "ntrip_out \<Rightarrow> ntrip \<Rightarrow> ntrip" where
  "out x s = s\<lparr>outs := outs s @ [x]\<rparr>"

section \<open>The messages to the daemon\<close>

text \<open>\<open>std::endl\<close>, and \<open>data()\<close> given to a stream: the characters before the first NUL.\<close>

abbreviation endl :: string where "endl \<equiv> [CHR 0x0A]"

definition c_str :: "string \<Rightarrow> string" where
  "c_str s = takeWhile (\<lambda>c. c \<noteq> CHR 0x00) s"

definition show_bool :: "bool \<Rightarrow> string" where
  "show_bool b = (if b then ''1'' else ''0'')"

definition startDgnssSource :: "ntrip \<Rightarrow> ntrip" where
  "startDgnssSource s =
     (let p = ntripParams s;
          text0 = ''startDgnssSource'' @ endl @ show_bool (useSSL p) @ endl
            @ c_str (hostNameOrIp p) @ endl @ show_nat (unat (port p)) @ endl
            @ c_str (mountPoint p) @ endl @ c_str (username p) @ endl @ c_str (password p) @ endl
            @ show_bool (enableRTKEngine s) @ endl;
          text1 = (if requiresNmeaLocation p \<and> nmea s \<noteq> []
                   then text0 @ c_str (nmea s) @ endl else text0)
      in (out (ToDaemon text1) s)\<lparr>mNtripParamsString := text1\<rparr>)"

definition restartDgnssSource :: "ntrip \<Rightarrow> ntrip" where
  "restartDgnssSource s =
     (if mNtripParamsString s \<noteq> [] then out (ToDaemon (mNtripParamsString s)) s else s)"

definition stopDgnssSource :: "ntrip \<Rightarrow> ntrip" where
  "stopDgnssSource s = out (ToDaemon ''stopDgnssSource'') (s\<lparr>mNtripParamsString := []\<rparr>)"

definition updateNmeaToDgnssServer :: "ntrip \<Rightarrow> ntrip" where
  "updateNmeaToDgnssServer s =
     out (ToDaemon (''updateDgnssServerNmea'' @ endl @ c_str (nmea s) @ endl)) s"

section \<open>The state of the stream\<close>

definition isDgnssNmeaRequired :: "ntrip \<Rightarrow> bool" where
  "isDgnssNmeaRequired s = (mSendNmeaConsent s \<and> requiresNmeaLocation (ntripParams s))"

text \<open>The interval is multiplied in 32 bits; the difference of the times is one of 64 bits.\<close>

definition checkUpdateDgnssNtrip :: "bool \<Rightarrow> bool \<Rightarrow> u64 \<Rightarrow> bool \<Rightarrow> ntrip \<Rightarrow> ntrip" where
  "checkUpdateDgnssNtrip isInSession isMlpEnabled curBootTime isLocationValid s =
     (if isInSession \<and> isMlpEnabled then
        if mDgnssState s = DGNSS_STATE_ENABLE_NTRIP_COMMAND OR DGNSS_STATE_NO_NMEA_PENDING
        then let s1 = startDgnssSource (set_bits_of DGNSS_STATE_NTRIP_SESSION_STARTED s)
             in if isDgnssNmeaRequired s1
                then s1\<lparr>mDgnssLastNmeaBootTimeMilli := curBootTime\<rparr> else s1
        else if has_bit DGNSS_STATE_NTRIP_SESSION_STARTED s \<and> isLocationValid
                \<and> isDgnssNmeaRequired s
                \<and> ucast (nmeaUpdateInterval (ntripParams s) * 1000)
                  < curBootTime - mDgnssLastNmeaBootTimeMilli s
        then (updateNmeaToDgnssServer s)\<lparr>mDgnssLastNmeaBootTimeMilli := curBootTime\<rparr>
        else s
      else s)"

definition stopDgnssNtrip :: "ntrip \<Rightarrow> ntrip" where
  "stopDgnssNtrip s =
     (let s1 = s\<lparr>nmea := []\<rparr>
      in if has_bit DGNSS_STATE_NTRIP_SESSION_STARTED s1
         then stopDgnssSource (clear_bits_of DGNSS_STATE_NTRIP_SESSION_STARTED s1)
         else s1)"

definition same_params :: "ntrip_params \<Rightarrow> u32 \<Rightarrow> ntrip_params \<Rightarrow> bool" where
  "same_params params interval p =
     (useSSL p = useSSL params \<and> hostNameOrIp p = hostNameOrIp params \<and> port p = port params
      \<and> mountPoint p = mountPoint params \<and> username p = username params
      \<and> password p = password params \<and> requiresNmeaLocation p = requiresNmeaLocation params
      \<and> nmeaUpdateInterval p = interval)"

definition handleEnablePPENtrip ::
  "bool \<Rightarrow> bool \<Rightarrow> u64 \<Rightarrow> ntrip_params \<Rightarrow> bool \<Rightarrow> ntrip \<Rightarrow> ntrip" where
  "handleEnablePPENtrip isInSession isMlpEnabled curBootTime params enableRTK s =
     (let interval = (if nmeaUpdateInterval params \<noteq> 0 then nmeaUpdateInterval params else 600)
      in if same_params params interval (ntripParams s) \<and> has_bit DGNSS_STATE_ENABLE_NTRIP_COMMAND s
         then s
         else let
           s1 = out (NtripStarted True)
                  (clear_bits_of DGNSS_STATE_NTRIP_SESSION_STARTED
                    (set_bits_of DGNSS_STATE_NO_NMEA_PENDING
                      (set_bits_of DGNSS_STATE_ENABLE_NTRIP_COMMAND s)));
           s2 = s1\<lparr>ntripParams := params\<lparr>nmeaUpdateInterval := interval\<rparr>,
                   enableRTKEngine := enableRTK, nmea := []\<rparr>
         in if isDgnssNmeaRequired s2
            then (clear_bits_of DGNSS_STATE_NO_NMEA_PENDING s2)\<lparr>mDgnssLastNmeaBootTimeMilli := 0\<rparr>
            else checkUpdateDgnssNtrip isInSession isMlpEnabled curBootTime False s2)"

definition handleDisablePPENtrip :: "ntrip \<Rightarrow> ntrip" where
  "handleDisablePPENtrip s =
     out (NtripStarted False)
       (stopDgnssNtrip (set_bits_of DGNSS_STATE_NO_NMEA_PENDING
         (clear_bits_of DGNSS_STATE_ENABLE_NTRIP_COMMAND s)))"

text \<open>The check of the command before its message is sent.\<close>

definition enablePPENtripStreamCommand :: "ntrip_params \<Rightarrow> bool" where
  "enablePPENtripStreamCommand params =
     (np_size params \<noteq> 0 \<and> hostNameOrIp params \<noteq> [] \<and> mountPoint params \<noteq> []
      \<and> username params \<noteq> [] \<and> password params \<noteq> [])"

definition updateNTRIPGGAConsentCommand :: "bool \<Rightarrow> ntrip \<Rightarrow> ntrip" where
  "updateNTRIPGGAConsentCommand consentAccepted s = s\<lparr>mSendNmeaConsent := consentAccepted\<rparr>"

section \<open>The position given to the daemon\<close>

text \<open>\<open>std::string::find\<close> from a position; no position is \<open>npos\<close>.\<close>

definition str_find :: "string \<Rightarrow> nat \<Rightarrow> string \<Rightarrow> nat option" where
  "str_find pat p s =
     find (\<lambda>k. take (length pat) (drop k s) = pat) [p ..< length s + 1 - length pat]"

definition substr :: "nat \<Rightarrow> nat \<Rightarrow> string \<Rightarrow> string" where
  "substr pos len s = take len (drop pos s)"

text \<open>The GGA sentence the adapter takes out of a report.\<close>

definition gga_cut :: "string \<Rightarrow> string option" where
  "gga_cut nmeaString =
     (case str_find ''GGA'' 0 nmeaString of
        None \<Rightarrow> None
      | Some foundPos \<Rightarrow>
          if 3 \<le> foundPos
          then Some (case str_find ''$'' foundPos nmeaString of
                 Some foundNextSentence \<Rightarrow> substr (foundPos - 3) foundNextSentence nmeaString
               | None \<Rightarrow> drop (foundPos - 3) nmeaString)
          else None)"

function comma_loop :: "string \<Rightarrow> nat option \<Rightarrow> nat \<Rightarrow> nat option \<times> nat" where
  "comma_loop s foundPos foundNth =
     (case foundPos of
        Some p \<Rightarrow> if foundNth < 6 then comma_loop s (str_find '','' (p + 1) s) (foundNth + 1)
                  else (foundPos, foundNth)
      | None \<Rightarrow> (None, foundNth))"
  by auto
termination by (relation "measure (\<lambda>(s, p, n). 6 - n)") auto

declare comma_loop.simps [simp del]

text \<open>\<open>at(npos - 1)\<close> throws.\<close>

definition reportGGAToNtrip :: "bool \<Rightarrow> bool \<Rightarrow> u64 \<Rightarrow> string option \<Rightarrow> ntrip \<Rightarrow> ntrip option" where
  "reportGGAToNtrip isInSession isMlpEnabled curBootTime sentence s =
     (if \<not> isDgnssNmeaRequired s then Some s
      else case sentence of
        None \<Rightarrow> Some s
      | Some nmeaString \<Rightarrow>
          if nmeaString = [] then Some s
          else case gga_cut nmeaString of
            None \<Rightarrow> Some s
          | Some GGAString \<Rightarrow>
              (case comma_loop GGAString (str_find '','' 0 GGAString) 0 of
                 (foundPos, foundNth) \<Rightarrow>
                   if foundNth = 6
                   then (case foundPos of
                       None \<Rightarrow> None
                     | Some p \<Rightarrow>
                         if GGAString ! (p - 1) \<noteq> CHR ''0''
                         then Some (checkUpdateDgnssNtrip isInSession isMlpEnabled curBootTime True
                                ((set_bits_of DGNSS_STATE_NO_NMEA_PENDING s)\<lparr>nmea := GGAString\<rparr>))
                         else Some s)
                   else Some s))"

text \<open>The part of \<open>reportPositionNmea\<close> that keeps the sentence of the adapter's own report; the
  sentence is the entry at \<open>indexOfGGA\<close> of the sentences generated.\<close>

definition position_gga :: "bool \<Rightarrow> bool \<Rightarrow> u64 \<Rightarrow> string option \<Rightarrow> bool \<Rightarrow> ntrip \<Rightarrow> ntrip" where
  "position_gga isInSession isMlpEnabled curBootTime gga isLocationValid s =
     (if isDgnssNmeaRequired s then
        (case gga of
           Some sentence \<Rightarrow> checkUpdateDgnssNtrip isInSession isMlpEnabled curBootTime isLocationValid
             ((set_bits_of DGNSS_STATE_NO_NMEA_PENDING s)\<lparr>nmea := sentence\<rparr>)
         | None \<Rightarrow> s)
      else s)"

text \<open>What \<open>GnssAdapter::stopTracking\<close> does to the stream.\<close>

definition tracking_stopped :: "ntrip \<Rightarrow> ntrip" where
  "tracking_stopped s =
     stopDgnssNtrip (if isDgnssNmeaRequired s then clear_bits_of DGNSS_STATE_NO_NMEA_PENDING s else s)"

section \<open>Parameters of the configuration\<close>

text \<open>
  \<open>getline\<close> up to a space, from a stream that is \<open>None\<close> once its end was met: the string is then
  left as it is.
\<close>

definition get_next :: "string \<times> string option \<Rightarrow> string \<times> string option" where
  "get_next x = (case snd x of
     None \<Rightarrow> (fst x, None)
   | Some cs \<Rightarrow> (takeWhile (\<lambda>c. c \<noteq> CHR '' '') cs,
       case dropWhile (\<lambda>c. c \<noteq> CHR '' '') cs of [] \<Rightarrow> None | _ # rest \<Rightarrow> Some rest))"

text \<open>\<open>std::stoi\<close> throws without a digit and out of the range of \<open>int\<close>.\<close>

definition stoi :: "string \<Rightarrow> u32 option" where
  "stoi s =
     (let t = dropWhile is_space s;
          u = (case t of [] \<Rightarrow> [] | c # cs \<Rightarrow> if c = CHR ''-'' \<or> c = CHR ''+'' then cs else t)
      in if u = [] \<or> \<not> is_digit (hd u) then None
         else if - (2 ^ 31) \<le> read_signed 10 s \<and> read_signed 10 s < 2 ^ 31 then Some (word_of_int (read_signed 10 s))
         else None)"

text \<open>
  The fields of the parameter \<open>conf\<close> of the configuration.  A string that was moved from is
  taken to be empty.
\<close>

definition config_params :: "string \<Rightarrow> ntrip_params \<Rightarrow> ntrip_params option" where
  "config_params conf p =
     (let
        w1 = get_next (conf, Some conf);
        w2 = get_next ([], snd w1);
        w3 = get_next w2;
        w4 = get_next ([], snd w3);
        w5 = get_next ([], snd w4);
        w6 = get_next ([], snd w5);
        w7 = get_next w6;
        w8 = get_next w7;
        w9 = get_next w8
      in (case stoi (fst w2) of
            None \<Rightarrow> None
          | Some port' \<Rightarrow> map_option (\<lambda>interval.
              p\<lparr>hostNameOrIp := fst w1, port := port', mountPoint := fst w3, username := fst w4,
                password := fst w5, requiresNmeaLocation := (fst w7 \<noteq> ''0''), useSSL := (fst w8 \<noteq> ''0''),
                nmeaUpdateInterval := (if interval \<noteq> 0 then interval else 600)\<rparr>) (stoi (fst w9))))"

definition config_state :: "ntrip_params \<Rightarrow> ntrip \<Rightarrow> ntrip" where
  "config_state p s =
     (let s1 = out (NtripStarted True)
                 (clear_bits_of DGNSS_STATE_NTRIP_SESSION_STARTED
                   (set_bits_of DGNSS_STATE_NO_NMEA_PENDING
                     (set_bits_of DGNSS_STATE_ENABLE_NTRIP_COMMAND (s\<lparr>ntripParams := p, mSendNmeaConsent := True\<rparr>))));
          s2 = s1\<lparr>nmea := []\<rparr>
      in if requiresNmeaLocation p then clear_bits_of DGNSS_STATE_NO_NMEA_PENDING s2 else s2)"

definition readPPENtripConfig :: "string \<Rightarrow> ntrip \<Rightarrow> ntrip option" where
  "readPPENtripConfig conf s =
     (if has_bit DGNSS_STATE_ENABLE_NTRIP_COMMAND s then Some s
      else if conf = [] then Some s
      else map_option (\<lambda>p. config_state p s) (config_params conf (ntripParams s)))"

text \<open>The sample of the comment.\<close>

lemma read_config_sample:
  "map_option (\<lambda>s. (mDgnssState s, hostNameOrIp (ntripParams s), port (ntripParams s), password (ntripParams s),
      nmeaUpdateInterval (ntripParams s)))
    (readPPENtripConfig ''199.106.116.10 5000 Avante_Ref CV2X 1234 1 0 0 0''
      \<lparr>mDgnssState = 0, ntripParams = p, nmea = [], enableRTKEngine = False,
       mSendNmeaConsent = False, mDgnssLastNmeaBootTimeMilli = 0, mNtripParamsString = [], outs = []\<rparr>)
   = Some (3, ''199.106.116.10'', 5000, ''1234'', 600)"
  by (simp add: readPPENtripConfig_def config_params_def config_state_def get_next_def stoi_def read_signed_def is_space_def is_digit_def digit_of_def Let_def
      has_bit_def dgnss_bits out_def set_bits_of_def clear_bits_of_def)

section \<open>Runs\<close>

datatype ntrip_op =
    OpEnable ntrip_params bool
  | OpDisable
  | OpConsent bool
  | OpNmea "string option"
  | OpPosition "string option" bool
  | OpTrackingStarted
  | OpTrackingStopped
  | OpDaemonRestarted
  | OpReadConfig string

record ntrip_env =
  env_inSession :: bool
  env_mlp :: bool
  env_now :: u64

definition ntrip_step :: "ntrip_env \<times> ntrip_op \<Rightarrow> ntrip \<Rightarrow> ntrip option" where
  "ntrip_step x s =
     (let ses = env_inSession (fst x); mlp = env_mlp (fst x); now = env_now (fst x)
      in case snd x of
        OpEnable p rtk \<Rightarrow> Some (if enablePPENtripStreamCommand p
                                 then handleEnablePPENtrip ses mlp now p rtk s else s)
      | OpDisable \<Rightarrow> Some (handleDisablePPENtrip s)
      | OpConsent b \<Rightarrow> Some (updateNTRIPGGAConsentCommand b s)
      | OpNmea t \<Rightarrow> reportGGAToNtrip ses mlp now t s
      | OpPosition t valid \<Rightarrow> Some (position_gga ses mlp now t valid s)
      | OpTrackingStarted \<Rightarrow> Some (checkUpdateDgnssNtrip ses mlp now False s)
      | OpTrackingStopped \<Rightarrow> Some (tracking_stopped s)
      | OpDaemonRestarted \<Rightarrow> Some (restartDgnssSource s)
      | OpReadConfig conf \<Rightarrow> readPPENtripConfig conf s)"

definition no_params :: ntrip_params where
  "no_params = \<lparr>np_size = 0, requiresNmeaLocation = False, hostNameOrIp = [], mountPoint = [],
     username = [], password = [], port = 0, useSSL = False, nmeaUpdateInterval = 0\<rparr>"

definition ntrip_init :: ntrip where
  "ntrip_init = \<lparr>mDgnssState = 0, ntripParams = no_params, nmea = [], enableRTKEngine = False,
     mSendNmeaConsent = False, mDgnssLastNmeaBootTimeMilli = 0, mNtripParamsString = [], outs = []\<rparr>"

text \<open>Whether the daemon streams: the last of its start and stop messages.\<close>

definition is_start :: "string \<Rightarrow> bool" where
  "is_start t = (take 16 t = ''startDgnssSource'')"

fun daemon_after :: "bool \<Rightarrow> ntrip_out \<Rightarrow> bool" where
  "daemon_after r (ToDaemon t) = (if is_start t then True else if t = ''stopDgnssSource'' then False else r)"
| "daemon_after r (NtripStarted b) = r"

definition source_running :: "ntrip \<Rightarrow> bool" where
  "source_running s = foldl daemon_after False (outs s)"

section \<open>The stream and the daemon\<close>

definition stream_ok :: "ntrip \<Rightarrow> bool" where
  "stream_ok s \<longleftrightarrow> mDgnssState s \<in> {0, 1, 2, 3, 7}
     \<and> (mDgnssState s = 7 \<longrightarrow> source_running s)
     \<and> (source_running s \<longleftrightarrow> mNtripParamsString s \<noteq> [])
     \<and> (mNtripParamsString s \<noteq> [] \<longrightarrow> is_start (mNtripParamsString s))"

lemma is_start_facts [simp]: "is_start (''startDgnssSource'' @ t)" "\<not> is_start ''stopDgnssSource''"
  "\<not> is_start (''updateDgnssServerNmea'' @ t)" "\<not> is_start []"
  by (simp_all add: is_start_def)

lemma out_fields [simp]:
  "mDgnssState (out x s) = mDgnssState s" "mNtripParamsString (out x s) = mNtripParamsString s"
  "source_running (out x s) = daemon_after (source_running s) x"
  by (simp_all add: out_def source_running_def)

lemma bits_of_fields [simp]:
  "mDgnssState (set_bits_of b s) = mDgnssState s OR b"
  "mDgnssState (clear_bits_of b s) = mDgnssState s AND NOT b"
  "mNtripParamsString (set_bits_of b s) = mNtripParamsString s"
  "mNtripParamsString (clear_bits_of b s) = mNtripParamsString s"
  "source_running (set_bits_of b s) = source_running s"
  "source_running (clear_bits_of b s) = source_running s"
  by (simp_all add: set_bits_of_def clear_bits_of_def source_running_def)

lemma source_running_updates [simp]:
  "source_running (s\<lparr>mDgnssState := a\<rparr>) = source_running s"
  "source_running (s\<lparr>nmea := b\<rparr>) = source_running s"
  "source_running (s\<lparr>ntripParams := c\<rparr>) = source_running s"
  "source_running (s\<lparr>enableRTKEngine := d\<rparr>) = source_running s"
  "source_running (s\<lparr>mDgnssLastNmeaBootTimeMilli := e\<rparr>) = source_running s"
  "source_running (s\<lparr>mNtripParamsString := f\<rparr>) = source_running s"
  "source_running (s\<lparr>mSendNmeaConsent := g\<rparr>) = source_running s"
  by (simp_all add: source_running_def)

lemma startDgnssSource_effect:
  "mDgnssState (startDgnssSource s) = mDgnssState s" "source_running (startDgnssSource s)"
  "is_start (mNtripParamsString (startDgnssSource s))"
  by (simp_all add: startDgnssSource_def Let_def is_start_def)

text \<open>The same without the bits the stop clears.\<close>

definition stream_mid :: "ntrip \<Rightarrow> bool" where
  "stream_mid s \<longleftrightarrow> mDgnssState s \<in> {0, 1, 2, 3, 5, 6, 7}
     \<and> (has_bit DGNSS_STATE_NTRIP_SESSION_STARTED s \<longrightarrow> source_running s)
     \<and> (source_running s \<longleftrightarrow> mNtripParamsString s \<noteq> [])
     \<and> (mNtripParamsString s \<noteq> [] \<longrightarrow> is_start (mNtripParamsString s))"

lemma out_started_ok: "stream_ok (out (NtripStarted b) s) = stream_ok s"
  unfolding stream_ok_def out_fields daemon_after.simps ..

lemma stop_ok: "stream_mid s \<Longrightarrow> stream_ok (stopDgnssNtrip s)"
  unfolding stream_mid_def stream_ok_def
  by (elim conjE insertE emptyE) (simp_all add: stopDgnssNtrip_def stopDgnssSource_def has_bit_def dgnss_bits)

lemma check_ok: "stream_ok s \<Longrightarrow> stream_ok (checkUpdateDgnssNtrip ses mlp now v s)"
  unfolding stream_ok_def
  by (elim conjE insertE emptyE)
     (auto simp: checkUpdateDgnssNtrip_def Let_def startDgnssSource_effect updateNmeaToDgnssServer_def
        has_bit_def dgnss_bits dest: arg_cong [where f = is_start])

lemma stopped_ok: "stream_ok s \<Longrightarrow> stream_ok (tracking_stopped s)"
  unfolding tracking_stopped_def
  by (rule stop_ok, unfold stream_ok_def stream_mid_def, elim conjE insertE emptyE)
     (simp_all add: has_bit_def dgnss_bits)

lemma disable_ok: "stream_ok s \<Longrightarrow> stream_ok (handleDisablePPENtrip s)"
proof -
  assume "stream_ok s"
  then have "stream_mid (set_bits_of DGNSS_STATE_NO_NMEA_PENDING
      (clear_bits_of DGNSS_STATE_ENABLE_NTRIP_COMMAND s))"
    unfolding stream_ok_def stream_mid_def by (elim conjE insertE emptyE) (simp_all add: has_bit_def dgnss_bits)
  then have "stream_ok (stopDgnssNtrip (set_bits_of DGNSS_STATE_NO_NMEA_PENDING
      (clear_bits_of DGNSS_STATE_ENABLE_NTRIP_COMMAND s)))" by (rule stop_ok)
  then show ?thesis by (simp add: handleDisablePPENtrip_def out_started_ok)
qed

lemma enable_ok: "stream_ok s \<Longrightarrow> stream_ok (handleEnablePPENtrip ses mlp now p rtk s)"
proof -
  assume s: "stream_ok s"
  define s2 :: ntrip where "s2 = (out (NtripStarted True)
                  (clear_bits_of DGNSS_STATE_NTRIP_SESSION_STARTED
                    (set_bits_of DGNSS_STATE_NO_NMEA_PENDING
                      (set_bits_of DGNSS_STATE_ENABLE_NTRIP_COMMAND s))))
        \<lparr>ntripParams := p\<lparr>nmeaUpdateInterval := (if nmeaUpdateInterval p \<noteq> 0 then nmeaUpdateInterval p else 600)\<rparr>,
         enableRTKEngine := rtk, nmea := []\<rparr>"
  have s2: "mDgnssState s2 = 3" "stream_ok s2"
    using s unfolding stream_ok_def s2_def by (elim conjE insertE emptyE, simp_all add: dgnss_bits)+
  have "stream_ok ((clear_bits_of DGNSS_STATE_NO_NMEA_PENDING s2)\<lparr>mDgnssLastNmeaBootTimeMilli := 0\<rparr>)"
    using s2 by (simp add: stream_ok_def dgnss_bits)
  then show ?thesis
    using s s2(2) check_ok [OF s2(2)] by (simp add: handleEnablePPENtrip_def Let_def s2_def [symmetric])
qed

lemma nmea_ok: "stream_ok s \<Longrightarrow> stream_ok ((set_bits_of DGNSS_STATE_NO_NMEA_PENDING s)\<lparr>nmea := t\<rparr>)"
  unfolding stream_ok_def by (elim conjE insertE emptyE) (simp_all add: dgnss_bits)

lemma gga_ok: "stream_ok s \<Longrightarrow> reportGGAToNtrip ses mlp now t s = Some s' \<Longrightarrow> stream_ok s'"
  by (auto simp: reportGGAToNtrip_def check_ok nmea_ok split: if_splits option.splits prod.splits)

lemma consent_same: "stream_ok (s\<lparr>mSendNmeaConsent := b\<rparr>) = stream_ok s"
  by (simp add: stream_ok_def)

lemma consent_ok: "stream_ok s \<Longrightarrow> stream_ok (updateNTRIPGGAConsentCommand b s)"
  unfolding updateNTRIPGGAConsentCommand_def by (subst consent_same)

lemma restart_same:
  "stream_ok s \<Longrightarrow> mNtripParamsString s \<noteq> [] \<Longrightarrow> stream_ok (out (ToDaemon (mNtripParamsString s)) s)"
  unfolding stream_ok_def out_fields daemon_after.simps by (elim conjE) (intro conjI, simp_all)

lemma restart_ok: "stream_ok s \<Longrightarrow> stream_ok (restartDgnssSource s)"
  unfolding restartDgnssSource_def by (auto simp: restart_same)

lemma position_ok: "stream_ok s \<Longrightarrow> stream_ok (position_gga ses mlp now t valid s)"
  by (auto simp: position_gga_def check_ok nmea_ok split: option.splits)

lemma config_state_fields:
  "mDgnssState (config_state p s) = (let d = (((mDgnssState s OR DGNSS_STATE_ENABLE_NTRIP_COMMAND) OR DGNSS_STATE_NO_NMEA_PENDING)
     AND NOT DGNSS_STATE_NTRIP_SESSION_STARTED) in if requiresNmeaLocation p then d AND NOT DGNSS_STATE_NO_NMEA_PENDING else d)"
  "mNtripParamsString (config_state p s) = mNtripParamsString s"
  "source_running (config_state p s) = source_running s"
  by (cases "requiresNmeaLocation p"; simp add: config_state_def Let_def)+

lemma config_state_ok: "stream_ok s \<Longrightarrow> stream_ok (config_state p s)"
proof -
  assume s: "stream_ok s"
  then have "mDgnssState s \<in> {0, 1, 2, 3, 7}" by (simp add: stream_ok_def)
  then have "mDgnssState (config_state p s) \<in> {1, 3}"
    by (cases "requiresNmeaLocation p"; elim insertE emptyE; simp add: config_state_fields(1) Let_def dgnss_bits)
  then have "mDgnssState (config_state p s) \<in> {0, 1, 2, 3, 7}" "mDgnssState (config_state p s) \<noteq> 7" by auto
  then show ?thesis using s unfolding stream_ok_def config_state_fields(2,3) by blast
qed

lemma config_ok: "stream_ok s \<Longrightarrow> readPPENtripConfig conf s = Some s' \<Longrightarrow> stream_ok s'"
  by (auto simp: readPPENtripConfig_def config_state_ok split: if_splits)

lemma ntrip_step_ok:
  assumes "stream_ok s" "ntrip_step x s = Some s'"
  shows "stream_ok s'"
proof -
  note ok = enable_ok disable_ok check_ok stopped_ok consent_ok restart_ok position_ok
  show ?thesis
  proof (cases "snd x")
    case (OpNmea t)
    with assms(2) show ?thesis by (intro gga_ok [OF assms(1)]) (simp add: ntrip_step_def)
  next
    case (OpReadConfig conf)
    with assms(2) show ?thesis by (intro config_ok [OF assms(1)]) (simp add: ntrip_step_def)
  qed (use assms(2) ok [OF assms(1)] assms(1) in \<open>auto simp only: ntrip_step_def Let_def ntrip_op.case split: if_splits\<close>)
qed

interpretation stream: invariant_system ntrip_step stream_ok "\<lambda>_. True"
  by unfold_locales (rule ntrip_step_ok)

lemma stream_ok_init: "stream_ok ntrip_init"
  by (simp add: stream_ok_def ntrip_init_def source_running_def)

text \<open>
  C36: Whatever the order of commands, reports, sessions, reads of the configuration and restarts of
  the daemon, a stream the adapter counts as started is one it enabled, for which it does not wait
  for a position, and the last message to the daemon that starts or stops it was a start; the last
  such message was a start exactly as long as the message that would restart it is kept.
\<close>

theorem ntrip_started_is_running:
  assumes "run ntrip_step ops ntrip_init = Some s"
  shows "(has_bit DGNSS_STATE_NTRIP_SESSION_STARTED s \<longrightarrow>
            has_bit DGNSS_STATE_ENABLE_NTRIP_COMMAND s \<and> has_bit DGNSS_STATE_NO_NMEA_PENDING s
            \<and> source_running s)
         \<and> (source_running s \<longleftrightarrow> mNtripParamsString s \<noteq> [])"
proof -
  have "stream_ok s" by (rule stream.run_inv [OF stream_ok_init _ assms]) (simp add: list_all_iff)
  then show ?thesis unfolding stream_ok_def
    by (elim conjE insertE emptyE) (simp_all add: has_bit_def dgnss_bits)
qed

definition example_ntrip :: ntrip_params where
  "example_ntrip = \<lparr>np_size = 1, requiresNmeaLocation = False, hostNameOrIp = ''h'',
     mountPoint = ''m'', username = ''u'', password = ''p'', port = 5000, useSSL = False,
     nmeaUpdateInterval = 10\<rparr>"

definition tracking_env :: ntrip_env where
  "tracking_env = \<lparr>env_inSession = True, env_mlp = True, env_now = 1000\<rparr>"

definition enabled_stream :: ntrip where
  "enabled_stream = handleEnablePPENtrip True True 1000 example_ntrip False ntrip_init"

lemma enabled_stream_facts:
  "has_bit DGNSS_STATE_NTRIP_SESSION_STARTED enabled_stream" "stream_ok enabled_stream"
  "ntripParams enabled_stream = example_ntrip"
proof -
  show "has_bit DGNSS_STATE_NTRIP_SESSION_STARTED enabled_stream" "ntripParams enabled_stream = example_ntrip"
    by (simp_all add: enabled_stream_def handleEnablePPENtrip_def ntrip_init_def no_params_def
          example_ntrip_def same_params_def isDgnssNmeaRequired_def checkUpdateDgnssNtrip_def
          set_bits_of_def clear_bits_of_def out_def has_bit_def dgnss_bits startDgnssSource_def Let_def)
  show "stream_ok enabled_stream" unfolding enabled_stream_def by (rule enable_ok [OF stream_ok_init])
qed

lemma example_ntrip_valid: "enablePPENtripStreamCommand example_ntrip"
  by (simp add: enablePPENtripStreamCommand_def example_ntrip_def)

lemma ntrip_started_is_running_witness:
  "has_bit DGNSS_STATE_NTRIP_SESSION_STARTED enabled_stream \<and> source_running enabled_stream"
proof -
  have "run ntrip_step [(tracking_env, OpEnable example_ntrip False)] ntrip_init = Some enabled_stream"
    by (simp add: ntrip_step_def tracking_env_def example_ntrip_valid enabled_stream_def)
  from ntrip_started_is_running [OF this] enabled_stream_facts(1) show ?thesis by simp
qed

section \<open>Positions taken out of a report\<close>

lemma find_upt_split:
  assumes "find P [k..<n] = Some p"
  shows "k \<le> p" "p < n" "P p" "\<forall>i. k \<le> i \<and> i < p \<longrightarrow> \<not> P i"
proof -
  from assms obtain i where i: "i < length [k..<n]" "P ([k..<n] ! i)" "p = [k..<n] ! i"
      "\<forall>j<i. \<not> P ([k..<n] ! j)"
    by (auto simp: find_Some_iff)
  then show "k \<le> p" "p < n" "P p" by auto
  show "\<forall>j. k \<le> j \<and> j < p \<longrightarrow> \<not> P j"
  proof (intro allI impI, elim conjE)
    fix j assume "k \<le> j" "j < p"
    with i have "j - k < i" "[k..<n] ! (j - k) = j" by auto
    with i(4) show "\<not> P j" by metis
  qed
qed

lemma str_find_char_None: "str_find [c] k s = None \<longleftrightarrow> c \<notin> set (drop k s)"
proof -
  have eq: "take (Suc 0) (drop j s) = [c] \<longleftrightarrow> s ! j = c" if "j < length s" for j
    using that by (simp add: take_Suc_conv_app_nth)
  have mem: "c \<in> set (drop k s) \<longleftrightarrow> (\<exists>j. k \<le> j \<and> j < length s \<and> s ! j = c)"
  proof
    assume "\<exists>j. k \<le> j \<and> j < length s \<and> s ! j = c"
    then obtain j where "k \<le> j" "j < length s" "s ! j = c" by blast
    then show "c \<in> set (drop k s)" by (auto simp: in_set_conv_nth intro!: exI [of _ "j - k"])
  next
    assume "c \<in> set (drop k s)"
    then obtain i where "i < length s - k" "s ! (k + i) = c" by (auto simp: in_set_conv_nth)
    then show "\<exists>j. k \<le> j \<and> j < length s \<and> s ! j = c" by (intro exI [of _ "k + i"]) simp
  qed
  have "str_find [c] k s = None \<longleftrightarrow> (\<forall>j. k \<le> j \<and> j < length s \<longrightarrow> take (Suc 0) (drop j s) \<noteq> [c])"
    by (auto simp: str_find_def find_None_iff)
  with mem eq show ?thesis by blast
qed

lemma str_find_char_Some:
  assumes "str_find [c] k s = Some p"
  shows "k \<le> p" "p < length s" "s ! p = c"
    "count_list (drop k s) c = Suc (count_list (drop (Suc p) s) c)"
proof -
  from assms have f: "find (\<lambda>k. take 1 (drop k s) = [c]) [k..<length s] = Some p"
    by (simp add: str_find_def)
  show p: "k \<le> p" "p < length s" using find_upt_split(1,2) [OF f] .
  have eq: "take 1 (drop j s) = [c] \<longleftrightarrow> s ! j = c" if "j < length s" for j
    using that by (simp add: take_Suc_conv_app_nth)
  show c: "s ! p = c" using find_upt_split(3) [OF f] eq [OF p(2)] by simp
  have "c \<notin> set (take (p - k) (drop k s))"
    using find_upt_split(4) [OF f] p eq by (auto simp: in_set_conv_nth)
  then have "count_list (take (p - k) (drop k s)) c = 0" by (simp add: count_list_0_iff)
  moreover have "drop k s = take (p - k) (drop k s) @ c # drop (Suc p) s"
    using p c by (metis Cons_nth_drop_Suc append_take_drop_id drop_drop le_add_diff_inverse2)
  ultimately show "count_list (drop k s) c = Suc (count_list (drop (Suc p) s) c)"
    by (metis count_list.simps(2) count_list_append add_0 add.commute plus_1_eq_Suc)
qed

text \<open>The loop stops after six commas, or before when the text has no more.\<close>

lemma comma_loop_spec:
  assumes "n \<le> 6"
  shows "snd (comma_loop s (str_find '','' k s) n) = min 6 (n + count_list (drop k s) (CHR '',''))
    \<and> (fst (comma_loop s (str_find '','' k s) n) = None
         \<longleftrightarrow> n + count_list (drop k s) (CHR '','') \<le> 6)"
  using assms
proof (induction "6 - n" arbitrary: n k)
  case 0
  then have "n = 6" by simp
  then show ?case
  proof (cases "str_find '','' k s")
    case None
    then have "count_list (drop k s) (CHR '','') = 0" by (simp add: str_find_char_None count_list_0_iff)
    with None show ?thesis using \<open>n = 6\<close> by (simp add: comma_loop.simps [of s None])
  next
    case (Some p)
    then show ?thesis using \<open>n = 6\<close> str_find_char_Some(4) [OF Some]
      by (simp add: comma_loop.simps [of s "Some p"])
  qed
next
  case (Suc d)
  show ?case
  proof (cases "str_find '','' k s")
    case None
    then have "count_list (drop k s) (CHR '','') = 0" by (simp add: str_find_char_None count_list_0_iff)
    with None show ?thesis using Suc.prems by (simp add: comma_loop.simps [of s None])
  next
    case (Some p)
    have "d = 6 - (n + 1)" "n + 1 \<le> 6" "n < 6" using Suc.hyps(2) by auto
    with Suc.hyps(1) [of "n + 1" "p + 1"] str_find_char_Some(4) [OF Some] show ?thesis
      by (simp add: comma_loop.simps [of s "Some p"] Some)
  qed
qed

text \<open>The sentence after the GGA sentence is cut off only when the report starts with the latter.\<close>

lemma gga_cut_examples:
  "gga_cut ''$GPGGA,1$GPRMC'' = Some ''$GPGGA,1''"
  "gga_cut ''$GPGSA$GPGGA,1$GPRMC'' = Some ''$GPGGA,1$GPRMC''"
  by (simp_all add: gga_cut_def str_find_def substr_def upt_rec)

text \<open>
  A report makes the adapter throw exactly when the position is wanted and the sentence cut out
  of the report has six commas and no more.
\<close>

theorem gga_report_throws_iff:
  "reportGGAToNtrip ses mlp now t s = None \<longleftrightarrow>
     isDgnssNmeaRequired s \<and> (\<exists>r g. t = Some r \<and> gga_cut r = Some g \<and> count_list g (CHR '','') = 6)"
proof (cases "isDgnssNmeaRequired s \<and> t \<noteq> None \<and> t \<noteq> Some []")
  case False
  moreover have "gga_cut [] = None" by (simp add: gga_cut_def str_find_def)
  ultimately show ?thesis by (auto simp: reportGGAToNtrip_def split: option.splits)
next
  case True
  then obtain r where t: "t = Some r" "r \<noteq> []" and req: "isDgnssNmeaRequired s" by auto
  show ?thesis
  proof (cases "gga_cut r")
    case None
    then show ?thesis using t req by (simp add: reportGGAToNtrip_def)
  next
    case (Some g)
    obtain fp fn where loop: "comma_loop g (str_find '','' 0 g) 0 = (fp, fn)" by force
    have "fn = min 6 (count_list g (CHR '',''))" "fp = None \<longleftrightarrow> count_list g (CHR '','') \<le> 6"
      using comma_loop_spec [of 0 g 0] by (simp_all add: loop)
    then show ?thesis using t req Some
      by (auto simp: reportGGAToNtrip_def loop split: option.splits)
  qed
qed

text \<open>A second enable while the stream runs loses track of it: the disable that follows does not
  stop the daemon.\<close>

lemma enable_while_started:
  assumes "has_bit DGNSS_STATE_NTRIP_SESSION_STARTED s" "stream_ok s" "mSendNmeaConsent s"
    "requiresNmeaLocation p"
    "\<not> same_params p (if nmeaUpdateInterval p \<noteq> 0 then nmeaUpdateInterval p else 600) (ntripParams s)"
  shows "mDgnssState (handleEnablePPENtrip ses mlp now p rtk s) = 1"
    "source_running (handleEnablePPENtrip ses mlp now p rtk s)"
proof -
  have "mDgnssState s = 7" "source_running s"
    using assms(1,2) unfolding stream_ok_def by (elim conjE insertE emptyE; simp add: has_bit_def dgnss_bits)+
  moreover have "requiresNmeaLocation (p\<lparr>nmeaUpdateInterval := i\<rparr>)" for i using assms(4) by simp
  ultimately show "mDgnssState (handleEnablePPENtrip ses mlp now p rtk s) = 1"
    "source_running (handleEnablePPENtrip ses mlp now p rtk s)"
    using assms(3-5) by (simp_all add: handleEnablePPENtrip_def Let_def isDgnssNmeaRequired_def
      clear_bits_of_def set_bits_of_def out_def dgnss_bits source_running_def)
qed

text \<open>
  A stream that is enabled again with other parameters that need a position, and then disabled,
  is never stopped: the daemon goes on with the first parameters.
\<close>

theorem re_enabled_stream_survives_disable:
  assumes "has_bit DGNSS_STATE_NTRIP_SESSION_STARTED s" "stream_ok s" "mSendNmeaConsent s"
    "requiresNmeaLocation p"
    "\<not> same_params p (if nmeaUpdateInterval p \<noteq> 0 then nmeaUpdateInterval p else 600) (ntripParams s)"
  shows "source_running (handleDisablePPENtrip (handleEnablePPENtrip ses mlp now p rtk s))"
  using enable_while_started [OF assms, of ses mlp now rtk]
  by (simp add: handleDisablePPENtrip_def stopDgnssNtrip_def has_bit_def dgnss_bits)

definition other_ntrip :: ntrip_params where
  "other_ntrip = example_ntrip\<lparr>requiresNmeaLocation := True\<rparr>"

lemma re_enabled_stream_survives_disable_witness:
  "source_running (handleDisablePPENtrip
     (handleEnablePPENtrip True True 2000 other_ntrip False
       (updateNTRIPGGAConsentCommand True enabled_stream)))"
proof (rule re_enabled_stream_survives_disable)
  show "stream_ok (updateNTRIPGGAConsentCommand True enabled_stream)"
    by (rule consent_ok [OF enabled_stream_facts(2)])
qed (use enabled_stream_facts in \<open>simp_all add: updateNTRIPGGAConsentCommand_def has_bit_def
       other_ntrip_def same_params_def example_ntrip_def\<close>)

end
