(* ===== verification/GnssTracking.thy ===== *)
theory GnssTracking
  imports TrackingOptions Ntrip
begin

text \<open>
  The tracking sessions of \<^verbatim>\<open>gps/gnss/GnssAdapter.cpp\<close>: many clients, one request at the engine.

  One thread runs the messages of the queue in order.  A request to the modem interface, which is
  loaded from a vendor library, is answered at some later time, in any order, with any error:
  the answer is a message that runs the continuation the request was made with.  What leaves the
  adapter is a log: the requests, the calls on the clients, the engine hub and the system status.
  \<open>now\<close> is the boot time the next operation reads.
\<close>

section \<open>Data\<close>

record gnss_callbacks =
  cb_response :: bool
  cb_tracking :: bool
  cb_gnssLocationInfo :: bool
  cb_engineLocationsInfo :: bool
  cb_gnssMeasurements :: bool
  cb_gnssNHzMeasurements :: bool
  cb_gnssData :: bool
  cb_gnssSv :: bool
  cb_gnssNmea :: bool
  cb_gnssDcReport :: bool
  cb_gnssSignalTypes :: bool
  cb_engineNmea :: bool

text \<open>\<open>LocPosMode\<close> without the fields that nothing sets after the constructor.\<close>

record pos_mode =
  pm_mode :: i32
  pm_min_interval :: u32
  pm_powerMode :: u32
  pm_timeBetweenMeasurements :: u32

datatype gnss_request =
    StartTimeBased tracking_options
  | StopTimeBased
  | StartDistanceBased u32 location_options
  | StopDistanceBased u32

datatype gnss_cont =
    StartDone client u32
  | UpdateDone client u32 tracking_options
  | StopDone client u32
  | StartDistanceDone client u32
  | StopDistanceDone client u32
  | SwitchToTime client u32 tracking_options
  | RestartDistance client u32 tracking_options
  | RestartDistanceDone client u32 tracking_options
  | StopClientDone client u32 bool
  | NothingDone

datatype gnss_msg =
    MsgAddClient client gnss_callbacks
  | MsgRemoveClient client bool
  | MsgStartTracking client u32 tracking_options
  | MsgUpdateTracking client u32 tracking_options
  | MsgStopTracking client u32
  | MsgUpdatePowerState power_state
  | MsgHandleEngineUpEvent
  | MsgEngineLockStateEvent engine_lock_state
  | MsgPowerStateChanges
  | MsgGnssResponse gnss_cont location_error

datatype gnss_out =
    Request gnss_request
  | Response client location_error u32
  | RemoveClientDone client
  | PowerStateCb bool
  | GnssSetFixMode pos_mode
  | GnssStartFix
  | GnssStopFix
  | UpdateTrackingStatus bool
  | EventSetTracking bool bool
  | SetTribandState bool
  | ResetElapsedRealTimeCal
  | SystemPowerState power_state
  | UpdateLockStatus u32

record gnss =
  mTimeBasedTrackingSessions :: sessions
  mDistanceBasedTrackingSessions :: "(session_key, location_options) ord_map"
  mClientData :: "(client, gnss_callbacks) ord_map"
  mLocPositionMode :: pos_mode
  mNHzNeeded :: bool
  mSPEAlreadyRunningAtHighestInterval :: bool
  mSystemPowerState :: power_state
  mPowerOn :: bool
  mPowerStateCb :: bool
  mIsEngineCapabilitiesKnown :: bool
  mContext :: context_base
  mEngineLockState :: engine_lock_state
  mPpFeatureStatusMask :: "16 word"
  ppeIntEnabled :: bool
  mCdfwInterface :: bool
  mPrevNmeaRptTimeNsec :: u64
  mOdcpiStateMask :: u32
  mAfwControlId :: u32
  feature_nhz :: bool
  ntrip_stream :: ntrip
  now :: u64
  mPendingMsgs :: "gnss_msg list"
  mSessionIdCounter :: u32
  queue :: "gnss_msg list"
  outstanding :: "gnss_cont list"
  log :: "gnss_out list"

definition emit :: "gnss_out \<Rightarrow> gnss \<Rightarrow> gnss" where
  "emit x s = s\<lparr>log := log s @ [x]\<rparr>"

definition emit_if :: "bool \<Rightarrow> gnss_out \<Rightarrow> gnss \<Rightarrow> gnss" where
  "emit_if b x s = (if b then emit x s else s)"

definition ask :: "gnss_request \<Rightarrow> gnss_cont option \<Rightarrow> gnss \<Rightarrow> gnss" where
  "ask r k s = (emit (Request r) s)\<lparr>outstanding := outstanding s @ (case k of None \<Rightarrow> [] | Some c \<Rightarrow> [c])\<rparr>"

definition send_msg :: "gnss_msg \<Rightarrow> gnss \<Rightarrow> gnss" where
  "send_msg m s = s\<lparr>queue := queue s @ [m]\<rparr>"

section \<open>Sessions and what is reported of them\<close>

definition isInSession :: "gnss \<Rightarrow> bool" where
  "isInSession s = (mTimeBasedTrackingSessions s \<noteq> [])"

definition isMlpEnabled :: "gnss \<Rightarrow> bool" where
  "isMlpEnabled s = (mPpFeatureStatusMask s AND (0x10 OR 0x20) \<noteq> 0)"

definition isPreciseEnabled :: "16 word \<Rightarrow> gnss \<Rightarrow> bool" where
  "isPreciseEnabled bits s =
     (mPpFeatureStatusMask s AND bits \<noteq> 0 \<and> mPpFeatureStatusMask s AND (0x04 OR 0x08) \<noteq> 0)"

definition isQppeEnabled :: "gnss \<Rightarrow> bool" where
  "isQppeEnabled = isPreciseEnabled 0x01"

definition setTribandState :: "gnss \<Rightarrow> gnss" where
  "setTribandState s =
     emit (SetTribandState (isInSession s \<and> ppeIntEnabled s \<and> isQppeEnabled s)) s"

definition MIN_TRACKING_INTERVAL :: "gnss \<Rightarrow> u32" where
  "MIN_TRACKING_INTERVAL s = (if feature_nhz s then 100 else 1000)"

definition TRACKING_TBM_THRESHOLD_MILLIS :: u32 where
  "TRACKING_TBM_THRESHOLD_MILLIS = 480000"

definition isTimeBasedTrackingSession :: "client \<Rightarrow> u32 \<Rightarrow> gnss \<Rightarrow> bool" where
  "isTimeBasedTrackingSession client sessionId s =
     (om_get (SessionKey client sessionId) (mTimeBasedTrackingSessions s) \<noteq> None)"

definition isDistanceBasedTrackingSession :: "client \<Rightarrow> u32 \<Rightarrow> gnss \<Rightarrow> bool" where
  "isDistanceBasedTrackingSession client sessionId s =
     (om_get (SessionKey client sessionId) (mDistanceBasedTrackingSessions s) \<noteq> None)"

definition hasCallbacksToStartTracking :: "client \<Rightarrow> gnss \<Rightarrow> bool" where
  "hasCallbacksToStartTracking client s =
     (case om_get client (mClientData s) of
        Some cb \<Rightarrow> cb_tracking cb \<or> cb_gnssLocationInfo cb \<or> cb_engineLocationsInfo cb
          \<or> cb_gnssMeasurements cb \<or> cb_gnssNHzMeasurements cb \<or> cb_gnssData cb \<or> cb_gnssSv cb
          \<or> cb_gnssNmea cb \<or> cb_gnssDcReport cb \<or> cb_gnssSignalTypes cb \<or> cb_engineNmea cb
      | None \<Rightarrow> False)"

definition reportPowerStateIfChanged :: "gnss \<Rightarrow> gnss" where
  "reportPowerStateIfChanged s =
     (let newPowerOn = (mTimeBasedTrackingSessions s \<noteq> [] \<or> mDistanceBasedTrackingSessions s \<noteq> [])
      in if newPowerOn \<noteq> mPowerOn s
         then emit_if (mPowerStateCb s) (PowerStateCb newPowerOn) (s\<lparr>mPowerOn := newPowerOn\<rparr>)
         else s)"

definition saveTrackingSession :: "client \<Rightarrow> u32 \<Rightarrow> tracking_options \<Rightarrow> gnss \<Rightarrow> gnss" where
  "saveTrackingSession client sessionId options s =
     (if client = NULL then s
      else let
        key = SessionKey client sessionId;
        s1 = (if 0 < minDistance options \<and> message_supported 2 (mContext s)
              then s\<lparr>mDistanceBasedTrackingSessions :=
                       om_put key (location_options.truncate options) (mDistanceBasedTrackingSessions s)\<rparr>
              else s\<lparr>mTimeBasedTrackingSessions := om_put key options (mTimeBasedTrackingSessions s)\<rparr>);
        s2 = reportPowerStateIfChanged s1
      in emit (EventSetTracking (isInSession s2) True) s2)"

definition eraseTrackingSession :: "client \<Rightarrow> u32 \<Rightarrow> gnss \<Rightarrow> gnss" where
  "eraseTrackingSession client sessionId s =
     (if client = NULL then s
      else let
        key = SessionKey client sessionId;
        s1 = (if om_get key (mTimeBasedTrackingSessions s) \<noteq> None
              then s\<lparr>mTimeBasedTrackingSessions := om_erase key (mTimeBasedTrackingSessions s)\<rparr>
              else s\<lparr>mDistanceBasedTrackingSessions := om_erase key (mDistanceBasedTrackingSessions s)\<rparr>);
        s2 = reportPowerStateIfChanged s1
      in emit (EventSetTracking (isInSession s2) True) s2)"

definition reportResponse_gnss :: "client \<Rightarrow> location_error \<Rightarrow> u32 \<Rightarrow> gnss \<Rightarrow> gnss" where
  "reportResponse_gnss client err sessionId s =
     (if client = NULL then s
      else case om_get client (mClientData s) of
        Some cb \<Rightarrow> emit_if (cb_response cb) (Response client err sessionId) s
      | None \<Rightarrow> s)"

section \<open>The requests to the engine\<close>

definition convertOptions :: "tracking_options \<Rightarrow> pos_mode" where
  "convertOptions o' =
     \<lparr>pm_mode = (if opt_mode o' = GNSS_SUPL_MODE_MSB then 1
                 else if opt_mode o' = GNSS_SUPL_MODE_MSA then 2 else 0),
      pm_min_interval = minInterval o', pm_powerMode = powerMode o',
      pm_timeBetweenMeasurements = tbm o'\<rparr>"

definition setLocPositionMode :: "pos_mode \<Rightarrow> gnss \<Rightarrow> bool \<times> gnss" where
  "setLocPositionMode pm s =
     (if mLocPositionMode s \<noteq> pm then (True, s\<lparr>mLocPositionMode := pm\<rparr>) else (False, s))"

definition checkAndSetSPEToRunforNHz ::
  "tracking_options \<Rightarrow> gnss \<Rightarrow> bool \<times> tracking_options \<times> gnss" where
  "checkAndSetSPEToRunforNHz opt s =
     (if \<not> mNHzNeeded s then (False, opt, s)
      else if mSPEAlreadyRunningAtHighestInterval s then (True, opt, s)
      else if MIN_TRACKING_INTERVAL s < minInterval opt
      then (False, opt\<lparr>minInterval := MIN_TRACKING_INTERVAL s\<rparr>,
            s\<lparr>mSPEAlreadyRunningAtHighestInterval := True\<rparr>)
      else (False, opt, s))"

text \<open>What starting and updating do before they turn to the modem.\<close>

definition session_about_to_start :: "tracking_options \<Rightarrow> gnss \<Rightarrow> gnss" where
  "session_about_to_start o' s =
     (let s1 = snd (setLocPositionMode (convertOptions o') s);
          s2 = emit GnssStartFix (emit (GnssSetFixMode (mLocPositionMode s1)) s1)
      in emit_if (mCdfwInterface s2) (UpdateTrackingStatus True) s2)"

definition startTimeBasedTracking :: "client \<Rightarrow> u32 \<Rightarrow> tracking_options \<Rightarrow> gnss \<Rightarrow> gnss" where
  "startTimeBasedTracking client sessionId trackingOptions s =
     (case checkAndSetSPEToRunforNHz trackingOptions (session_about_to_start trackingOptions s) of
        (already, tempOptions, s1) \<Rightarrow>
          if \<not> already then ask (StartTimeBased tempOptions) (Some (StartDone client sessionId)) s1
          else reportResponse_gnss client LOCATION_ERROR_SUCCESS sessionId s1)"

definition updateTracking ::
  "client \<Rightarrow> u32 \<Rightarrow> tracking_options \<Rightarrow> tracking_options \<Rightarrow> gnss \<Rightarrow> gnss" where
  "updateTracking client sessionId updatedOptions oldOptions s =
     (case checkAndSetSPEToRunforNHz updatedOptions (session_about_to_start updatedOptions s) of
        (already, tempOptions, s1) \<Rightarrow>
          if \<not> already then ask (StartTimeBased tempOptions) (Some (UpdateDone client sessionId oldOptions)) s1
          else reportResponse_gnss client LOCATION_ERROR_SUCCESS sessionId s1)"

definition stopTracking :: "client \<Rightarrow> u32 \<Rightarrow> gnss \<Rightarrow> gnss" where
  "stopTracking client sessionId s =
     (let s1 = emit GnssStopFix s;
          s2 = ask StopTimeBased (if client = NULL then None else Some (StopDone client sessionId)) s1;
          s3 = s2\<lparr>ntrip_stream := tracking_stopped (ntrip_stream s2)\<rparr>;
          s4 = emit_if (mCdfwInterface s3) (UpdateTrackingStatus False) s3;
          s5 = emit ResetElapsedRealTimeCal s4
      in s5\<lparr>mSPEAlreadyRunningAtHighestInterval := False\<rparr>)"

section \<open>Multiplexing the time-based sessions\<close>

definition startTimeBasedTrackingMultiplex ::
  "client \<Rightarrow> u32 \<Rightarrow> tracking_options \<Rightarrow> gnss \<Rightarrow> bool \<times> gnss" where
  "startTimeBasedTrackingMultiplex client sessionId options s =
     (if mTimeBasedTrackingSessions s = []
      then (False, startTimeBasedTracking client sessionId options (s\<lparr>mPrevNmeaRptTimeNsec := 0\<rparr>))
      else let
        priorOptions = multiplexed (mTimeBasedTrackingSessions s);
        multiplexedOptions = mux_with options priorOptions
      in if \<not> equalsInTimeBasedRequest multiplexedOptions priorOptions
         then (False, startTimeBasedTracking client sessionId multiplexedOptions s)
         else (True, s))"

definition updateTrackingMultiplex ::
  "client \<Rightarrow> u32 \<Rightarrow> tracking_options \<Rightarrow> gnss \<Rightarrow> bool \<times> gnss" where
  "updateTrackingMultiplex client sid trackingOptions s =
     (let key = SessionKey client sid
      in case om_get key (mTimeBasedTrackingSessions s) of
        None \<Rightarrow> (True, s)
      | Some it \<Rightarrow>
          if equalsInTimeBasedRequest trackingOptions it then (True, s)
          else let others = om_erase key (mTimeBasedTrackingSessions s)
            in if others = []
               then (False, updateTracking client sid trackingOptions it s)
               else let
                 priorOptions = mux_with it (multiplexed others);
                 multiplexedOptions = mux_with trackingOptions (multiplexed others)
               in if \<not> equalsInTimeBasedRequest multiplexedOptions priorOptions
                  then (False, updateTracking client sid multiplexedOptions it s)
                  else (True, s))"

definition stopTimeBasedTrackingMultiplex :: "client \<Rightarrow> u32 \<Rightarrow> gnss \<Rightarrow> bool \<times> gnss" where
  "stopTimeBasedTrackingMultiplex client sid s =
     (if length (mTimeBasedTrackingSessions s) = 1 then (False, stopTracking client sid s)
      else let key = SessionKey client sid
        in case om_get key (mTimeBasedTrackingSessions s) of
          None \<Rightarrow> (True, s)
        | Some it \<Rightarrow> let
            multiplexedOptions = multiplexed (om_erase key (mTimeBasedTrackingSessions s));
            priorOptions = mux_with it multiplexedOptions
          in if \<not> equalsInTimeBasedRequest multiplexedOptions priorOptions
             then (False, startTimeBasedTracking client sid multiplexedOptions s)
             else (True, s))"

definition reStartTimeBasedTracking :: "gnss \<Rightarrow> gnss" where
  "reStartTimeBasedTracking s =
     (if mTimeBasedTrackingSessions s \<noteq> []
      then startTimeBasedTracking NULL 0 (multiplexed (mTimeBasedTrackingSessions s)) s else s)"

section \<open>Power and restarts\<close>

definition checkAndRestartSPESession :: "gnss \<Rightarrow> gnss" where
  "checkAndRestartSPESession s =
     (let s1 = reStartTimeBasedTracking (s\<lparr>mSPEAlreadyRunningAtHighestInterval := False\<rparr>)
      in fold (\<lambda>(key, o'). ask (StartDistanceBased (sk_id key) o') (Some NothingDone))
           (mDistanceBasedTrackingSessions s1) s1)"

definition power_down :: "power_state \<Rightarrow> bool" where
  "power_down p = (p = POWER_STATE_SUSPEND \<or> p = POWER_STATE_DEEP_SLEEP_ENTRY \<or> p = POWER_STATE_SHUTDOWN)"

definition restartSessions :: "bool \<Rightarrow> gnss \<Rightarrow> gnss" where
  "restartSessions modemSSR s =
     (if power_down (mSystemPowerState s) then s
      else let s1 = (if modemSSR then s\<lparr>mOdcpiStateMask := 0\<rparr> else s)
        in checkAndRestartSPESession (s1\<lparr>mSPEAlreadyRunningAtHighestInterval := False\<rparr>))"

definition suspendSessions :: "gnss \<Rightarrow> gnss" where
  "suspendSessions s = (if mTimeBasedTrackingSessions s \<noteq> [] then stopTracking NULL 0 s else s)"

definition updateSystemPowerState_gnss :: "power_state \<Rightarrow> gnss \<Rightarrow> gnss" where
  "updateSystemPowerState_gnss systemPowerState s =
     (if systemPowerState = POWER_STATE_UNKNOWN then s
      else let
        s1 = s\<lparr>mSystemPowerState := systemPowerState\<rparr>;
        s2 = (if power_down systemPowerState then suspendSessions s1
              else if systemPowerState = POWER_STATE_RESUME \<or> systemPowerState = POWER_STATE_DEEP_SLEEP_EXIT
              then restartSessions False s1
              else s1)
      in emit (SystemPowerState systemPowerState) s2)"

section \<open>The messages\<close>

text \<open>A start that lacks callbacks or options sets an error that nothing reports.\<close>

definition start_proc :: "client \<Rightarrow> u32 \<Rightarrow> tracking_options \<Rightarrow> gnss \<Rightarrow> gnss" where
  "start_proc client sid options s =
     (if \<not> mIsEngineCapabilitiesKnown s \<and> 0 < minDistance options
      then s\<lparr>mPendingMsgs := mPendingMsgs s @ [MsgStartTracking client sid options]\<rparr>
      else if \<not> hasCallbacksToStartTracking client s then s
      else if opt_size options = 0 then s
      else let o1 = (if minInterval options < MIN_TRACKING_INTERVAL s
                     then options\<lparr>minInterval := MIN_TRACKING_INTERVAL s\<rparr> else options)
        in if 0 < minDistance o1 \<and> message_supported 2 (mContext s)
           then ask (StartDistanceBased sid (location_options.truncate o1))
                  (Some (StartDistanceDone client sid)) (saveTrackingSession client sid o1 s)
           else let
             o2 = (if powerMode o1 = GNSS_POWER_MODE_M4 \<and> TRACKING_TBM_THRESHOLD_MILLIS < tbm o1
                   then o1\<lparr>powerMode := GNSS_POWER_MODE_M2\<rparr> else o1);
             (reportToClientWithNoWait, s1) = startTimeBasedTrackingMultiplex client sid o2 s;
             s2 = setTribandState (saveTrackingSession client sid o2 s1)
           in if reportToClientWithNoWait
              then reportResponse_gnss client LOCATION_ERROR_SUCCESS sid s2 else s2)"

definition update_proc :: "client \<Rightarrow> u32 \<Rightarrow> tracking_options \<Rightarrow> gnss \<Rightarrow> gnss" where
  "update_proc client sid options s =
     (if \<not> mIsEngineCapabilitiesKnown s \<and> 0 < minDistance options
      then s\<lparr>mPendingMsgs := mPendingMsgs s @ [MsgUpdateTracking client sid options]\<rparr>
      else let
        isTimeBased = isTimeBasedTrackingSession client sid s;
        isDistanceBased = isDistanceBasedTrackingSession client sid s;
        err = (if \<not> isTimeBased \<and> \<not> isDistanceBased then LOCATION_ERROR_ID_UNKNOWN
               else if opt_size options = 0 then LOCATION_ERROR_INVALID_PARAMETER
               else LOCATION_ERROR_SUCCESS)
      in if err \<noteq> LOCATION_ERROR_SUCCESS then reportResponse_gnss client err sid s
         else let
           o1 = (if powerMode options = GNSS_POWER_MODE_M4 \<and> TRACKING_TBM_THRESHOLD_MILLIS < tbm options
                 then options\<lparr>powerMode := GNSS_POWER_MODE_M2\<rparr> else options);
           o2 = (if minInterval o1 < MIN_TRACKING_INTERVAL s
                 then o1\<lparr>minInterval := MIN_TRACKING_INTERVAL s\<rparr> else o1)
         in if isTimeBased \<and> 0 < minDistance o2 then let
              (noWait, s1) = stopTimeBasedTrackingMultiplex client sid s;
              s2 = eraseTrackingSession client sid s1;
              s3 = (if noWait then reportResponse_gnss client LOCATION_ERROR_SUCCESS sid s2 else s2);
              s4 = saveTrackingSession client sid o2 s3
            in ask (StartDistanceBased sid (location_options.truncate o2)) (Some NothingDone) s4
            else if isDistanceBased \<and> minDistance o2 = 0
            then ask (StopDistanceBased sid) (Some (SwitchToTime client sid o2))
                   (eraseTrackingSession client sid s)
            else if isTimeBased then let
              (noWait, s1) = updateTrackingMultiplex client sid o2 s;
              s2 = saveTrackingSession client sid o2 s1
            in if noWait then reportResponse_gnss client err sid s2 else s2
            else ask (StopDistanceBased sid) (Some (RestartDistance client sid o2)) s)"

definition stop_proc :: "client \<Rightarrow> u32 \<Rightarrow> gnss \<Rightarrow> gnss" where
  "stop_proc client sid s =
     (if isTimeBasedTrackingSession client sid s then let
        (noWait, s1) = stopTimeBasedTrackingMultiplex client sid s;
        s2 = setTribandState (eraseTrackingSession client sid s1)
      in if noWait then reportResponse_gnss client LOCATION_ERROR_SUCCESS sid s2 else s2
      else if isDistanceBasedTrackingSession client sid s
      then ask (StopDistanceBased sid) (Some (StopDistanceDone client sid)) s
      else reportResponse_gnss client LOCATION_ERROR_ID_UNKNOWN sid s)"

definition stopClientSessions_gnss :: "client \<Rightarrow> bool \<Rightarrow> gnss \<Rightarrow> gnss" where
  "stopClientSessions_gnss client eraseSession s =
     (let keys = filter (\<lambda>k. sk_client k = client) (map fst (mTimeBasedTrackingSessions s));
          s1 = fold (\<lambda>k s. let s' = snd (stopTimeBasedTrackingMultiplex (sk_client k) (sk_id k) s)
                 in if eraseSession then eraseTrackingSession (sk_client k) (sk_id k) s' else s') keys s
      in fold (\<lambda>k. ask (StopDistanceBased (sk_id k)) (Some (StopClientDone client (sk_id k) eraseSession)))
           (filter (\<lambda>k. sk_client k = client) (map fst (mDistanceBasedTrackingSessions s1))) s1)"

definition remove_client_gnss :: "client \<Rightarrow> bool \<Rightarrow> gnss \<Rightarrow> gnss" where
  "remove_client_gnss client mRmClientCb s =
     (let s1 = stopClientSessions_gnss client True s
      in emit_if mRmClientCb (RemoveClientDone client)
           (s1\<lparr>mClientData := om_erase client (mClientData s1)\<rparr>))"

text \<open>The last part of the message for an engine that came up, and with it the parts before that
  concern the sessions.\<close>

definition engine_up_restart :: "gnss \<Rightarrow> gnss" where
  "engine_up_restart s =
     (if mEngineLockState s \<noteq> ENGINE_LOCK_STATE_DISABLED
      then let s1 = (fold send_msg (mPendingMsgs s) s)\<lparr>mPendingMsgs := []\<rparr>
           in if \<not> power_down (mSystemPowerState s1) then restartSessions True s1 else s1
      else s)"

definition engine_up_sessions :: "gnss \<Rightarrow> gnss" where
  "engine_up_sessions s =
     (let s1 = s\<lparr>mIsEngineCapabilitiesKnown := True\<rparr>
      in engine_up_restart (updateSystemPowerState_gnss (mSystemPowerState s1) (setTribandState s1)))"

definition GNSS_CONFIG_GPS_LOCK_MO :: u32 where "GNSS_CONFIG_GPS_LOCK_MO = 1"
definition GNSS_CONFIG_GPS_LOCK_MO_AND_NI :: u32 where "GNSS_CONFIG_GPS_LOCK_MO_AND_NI = 0xFFF"

definition handleEngineLockStatus :: "engine_lock_state \<Rightarrow> gnss \<Rightarrow> gnss" where
  "handleEngineLockStatus engineLockState s =
     (let (gpsLock, s2) =
        (if engineLockState \<noteq> ENGINE_LOCK_STATE_DISABLED
         then let s1 = (fold send_msg (mPendingMsgs s) s)\<lparr>mPendingMsgs := []\<rparr>
              in (if mAfwControlId s1 \<noteq> 0
                  then GNSS_CONFIG_GPS_LOCK_MO_AND_NI AND NOT GNSS_CONFIG_GPS_LOCK_MO
                  else GNSS_CONFIG_GPS_LOCK_MO_AND_NI,
                  if \<not> power_down (mSystemPowerState s1) then restartSessions False s1 else s1)
         else (GNSS_CONFIG_GPS_LOCK_MO_AND_NI, s))
      in emit (UpdateLockStatus gpsLock) s2)"

definition failed :: "location_error \<Rightarrow> gnss \<Rightarrow> bool" where
  "failed err s = (mEngineLockState s \<noteq> ENGINE_LOCK_STATE_DISABLED \<and> err \<noteq> LOCATION_ERROR_SUCCESS)"

definition start_tracking_done :: "client \<Rightarrow> u32 \<Rightarrow> location_error \<Rightarrow> gnss \<Rightarrow> gnss" where
  "start_tracking_done client sid err s =
     reportResponse_gnss client err sid
       (if failed err s then eraseTrackingSession client sid s
        else s\<lparr>ntrip_stream := checkUpdateDgnssNtrip (isInSession s) (isMlpEnabled s) (now s) False
                  (ntrip_stream s)\<rparr>)"

definition update_tracking_done ::
  "client \<Rightarrow> u32 \<Rightarrow> tracking_options \<Rightarrow> location_error \<Rightarrow> gnss \<Rightarrow> gnss" where
  "update_tracking_done client sid oldOptions err s =
     reportResponse_gnss client err sid
       (if failed err s then saveTrackingSession client sid oldOptions s else s)"

definition stop_tracking_done :: "client \<Rightarrow> u32 \<Rightarrow> location_error \<Rightarrow> gnss \<Rightarrow> gnss" where
  "stop_tracking_done client sid err s = reportResponse_gnss client err sid s"

definition start_distance_done :: "client \<Rightarrow> u32 \<Rightarrow> location_error \<Rightarrow> gnss \<Rightarrow> gnss" where
  "start_distance_done client sid err s =
     reportResponse_gnss client err sid (if failed err s then eraseTrackingSession client sid s else s)"

definition stop_distance_done :: "client \<Rightarrow> u32 \<Rightarrow> location_error \<Rightarrow> gnss \<Rightarrow> gnss" where
  "stop_distance_done client sid err s =
     reportResponse_gnss client err sid (if \<not> failed err s then eraseTrackingSession client sid s else s)"

definition switch_to_time :: "client \<Rightarrow> u32 \<Rightarrow> tracking_options \<Rightarrow> gnss \<Rightarrow> gnss" where
  "switch_to_time client sid options s =
     (let (noWait, s1) = startTimeBasedTrackingMultiplex client sid options s;
          s2 = saveTrackingSession client sid options s1
      in if noWait then reportResponse_gnss client LOCATION_ERROR_SUCCESS sid s2 else s2)"

definition restart_distance ::
  "client \<Rightarrow> u32 \<Rightarrow> tracking_options \<Rightarrow> location_error \<Rightarrow> gnss \<Rightarrow> gnss" where
  "restart_distance client sid options err s =
     (if err = LOCATION_ERROR_SUCCESS
      then ask (StartDistanceBased sid (location_options.truncate options))
             (Some (RestartDistanceDone client sid options)) s
      else s)"

definition restart_distance_done ::
  "client \<Rightarrow> u32 \<Rightarrow> tracking_options \<Rightarrow> location_error \<Rightarrow> gnss \<Rightarrow> gnss" where
  "restart_distance_done client sid options err s =
     reportResponse_gnss client err sid
       (if \<not> failed err s then saveTrackingSession client sid options s else s)"

definition stop_client_done :: "client \<Rightarrow> u32 \<Rightarrow> bool \<Rightarrow> location_error \<Rightarrow> gnss \<Rightarrow> gnss" where
  "stop_client_done client sid eraseSession err s =
     (if err = LOCATION_ERROR_SUCCESS \<and> eraseSession then eraseTrackingSession client sid s else s)"

lemmas done_defs = start_tracking_done_def update_tracking_done_def stop_tracking_done_def
  start_distance_done_def stop_distance_done_def switch_to_time_def restart_distance_def
  restart_distance_done_def stop_client_done_def

definition response_proc_gnss :: "gnss_cont \<Rightarrow> location_error \<Rightarrow> gnss \<Rightarrow> gnss" where
  "response_proc_gnss k err s =
     (case k of
        StartDone client sid \<Rightarrow> start_tracking_done client sid err s
      | UpdateDone client sid oldOptions \<Rightarrow> update_tracking_done client sid oldOptions err s
      | StopDone client sid \<Rightarrow> stop_tracking_done client sid err s
      | StartDistanceDone client sid \<Rightarrow> start_distance_done client sid err s
      | StopDistanceDone client sid \<Rightarrow> stop_distance_done client sid err s
      | SwitchToTime client sid options \<Rightarrow> switch_to_time client sid options s
      | RestartDistance client sid options \<Rightarrow> restart_distance client sid options err s
      | RestartDistanceDone client sid options \<Rightarrow> restart_distance_done client sid options err s
      | StopClientDone client sid eraseSession \<Rightarrow> stop_client_done client sid eraseSession err s
      | NothingDone \<Rightarrow> s)"

definition proc_gnss :: "gnss_msg \<Rightarrow> gnss \<Rightarrow> gnss" where
  "proc_gnss m s =
     (case m of
        MsgAddClient client cb \<Rightarrow> s\<lparr>mClientData := om_put client cb (mClientData s)\<rparr>
      | MsgRemoveClient client cb \<Rightarrow> remove_client_gnss client cb s
      | MsgStartTracking client sid options \<Rightarrow> start_proc client sid options s
      | MsgUpdateTracking client sid options \<Rightarrow> update_proc client sid options s
      | MsgStopTracking client sid \<Rightarrow> stop_proc client sid s
      | MsgUpdatePowerState p \<Rightarrow> updateSystemPowerState_gnss p s
      | MsgHandleEngineUpEvent \<Rightarrow> engine_up_sessions s
      | MsgEngineLockStateEvent l \<Rightarrow> handleEngineLockStatus l s
      | MsgPowerStateChanges \<Rightarrow> emit (PowerStateCb (mPowerOn s)) (s\<lparr>mPowerStateCb := True\<rparr>)
      | MsgGnssResponse k err \<Rightarrow> response_proc_gnss k err s)"

section \<open>Commands and steps\<close>

text \<open>The number is drawn in the thread of the client.\<close>

definition startTrackingCommand :: "client \<Rightarrow> tracking_options \<Rightarrow> gnss \<Rightarrow> u32 \<times> gnss" where
  "startTrackingCommand client options s =
     (let sid = generateSessionId (mSessionIdCounter s)
      in (sid, send_msg (MsgStartTracking client sid options) (s\<lparr>mSessionIdCounter := sid\<rparr>)))"

definition updateTrackingOptionsCommand :: "client \<Rightarrow> u32 \<Rightarrow> tracking_options \<Rightarrow> gnss \<Rightarrow> gnss" where
  "updateTrackingOptionsCommand client sid options = send_msg (MsgUpdateTracking client sid options)"

definition stopTrackingCommand :: "client \<Rightarrow> u32 \<Rightarrow> gnss \<Rightarrow> gnss" where
  "stopTrackingCommand client sid = send_msg (MsgStopTracking client sid)"

text \<open>The callback of the engine hub, in its thread.\<close>

definition updateNHzRequirement :: "bool \<Rightarrow> gnss \<Rightarrow> gnss" where
  "updateNHzRequirement nHzNeeded s =
     (if mNHzNeeded s \<noteq> nHzNeeded then checkAndRestartSPESession (s\<lparr>mNHzNeeded := nHzNeeded\<rparr>) else s)"

datatype gnss_event =
    StartTracking client tracking_options
  | UpdateTracking client u32 tracking_options
  | StopTracking client u32
  | AddClient client gnss_callbacks
  | RemoveClient client bool
  | GetPowerStateChanges
  | UpdatePower power_state
  | EngineUp
  | EngineLockStatus engine_lock_state
  | SetLock engine_lock_state
  | UpdateNHz bool
  | FeatureStatus "16 word" bool
  | Answer nat location_error
  | Clock u64
  | Deliver

definition gnss_step :: "gnss_event \<Rightarrow> gnss \<Rightarrow> gnss" where
  "gnss_step e s =
     (case e of
        StartTracking client options \<Rightarrow> snd (startTrackingCommand client options s)
      | UpdateTracking client sid options \<Rightarrow> updateTrackingOptionsCommand client sid options s
      | StopTracking client sid \<Rightarrow> stopTrackingCommand client sid s
      | AddClient client cb \<Rightarrow> send_msg (MsgAddClient client cb) s
      | RemoveClient client cb \<Rightarrow> send_msg (MsgRemoveClient client cb) s
      | GetPowerStateChanges \<Rightarrow> send_msg MsgPowerStateChanges s
      | UpdatePower p \<Rightarrow> send_msg (MsgUpdatePowerState p) s
      | EngineUp \<Rightarrow> send_msg MsgHandleEngineUpEvent s
      | EngineLockStatus l \<Rightarrow> send_msg (MsgEngineLockStateEvent l) s
      | SetLock l \<Rightarrow> s\<lparr>mEngineLockState := l\<rparr>
      | UpdateNHz b \<Rightarrow> updateNHzRequirement b s
      | FeatureStatus m ppe \<Rightarrow> s\<lparr>mPpFeatureStatusMask := m, ppeIntEnabled := ppe\<rparr>
      | Answer n err \<Rightarrow>
          (if n < length (outstanding s)
           then send_msg (MsgGnssResponse (outstanding s ! n) err)
             (s\<lparr>outstanding := take n (outstanding s) @ drop (Suc n) (outstanding s)\<rparr>)
           else s)
      | Clock t \<Rightarrow> s\<lparr>now := t\<rparr>
      | Deliver \<Rightarrow> (case queue s of [] \<Rightarrow> s | m # ms \<Rightarrow> proc_gnss m (s\<lparr>queue := ms\<rparr>)))"

definition gnss_init :: "context_base \<Rightarrow> bool \<Rightarrow> bool \<Rightarrow> gnss" where
  "gnss_init c nhz cdfw =
     \<lparr>mTimeBasedTrackingSessions = [], mDistanceBasedTrackingSessions = [], mClientData = [],
      mLocPositionMode = \<lparr>pm_mode = -1, pm_min_interval = 1000, pm_powerMode = GNSS_POWER_MODE_M2,
        pm_timeBetweenMeasurements = 1000\<rparr>,
      mNHzNeeded = False, mSPEAlreadyRunningAtHighestInterval = False,
      mSystemPowerState = POWER_STATE_UNKNOWN, mPowerOn = False, mPowerStateCb = False,
      mIsEngineCapabilitiesKnown = sIsEngineCapabilitiesKnown c, mContext = c,
      mEngineLockState = ENGINE_LOCK_STATE_DISABLED, mPpFeatureStatusMask = 0, ppeIntEnabled = False,
      mCdfwInterface = cdfw, mPrevNmeaRptTimeNsec = 0, mOdcpiStateMask = 0, mAfwControlId = 0, feature_nhz = nhz,
      ntrip_stream = ntrip_init, now = 0, mPendingMsgs = [], mSessionIdCounter = 1, queue = [],
      outstanding = [], log = []\<rparr>"

section \<open>What is reported\<close>

text \<open>The status of a fix is \<open>0\<close> success, \<open>1\<close> intermediate, \<open>2\<close> failure.\<close>

definition needReportForClient :: "client \<Rightarrow> u32 \<Rightarrow> gnss \<Rightarrow> bool" where
  "needReportForClient client status s =
     (status = 0
      \<or> (client = NULL \<and> status = 1 \<and> mDistanceBasedTrackingSessions s \<noteq> [])
      \<or> (status \<noteq> 2 \<and> list_ex (\<lambda>(k, _). sk_client k = client) (mDistanceBasedTrackingSessions s))
      \<or> list_ex (\<lambda>(k, o'). (sk_client k = client \<or> client = NULL) \<and> status \<le> qualityLevelAccepted o')
          (mTimeBasedTrackingSessions s))"

text \<open>
  \<open>ap\<close> and \<open>nhz_rate\<close> are the settings of \<^verbatim>\<open>gps.conf\<close>.  The time is a product and a sum of 64
  bits, the difference is divided without a sign and then read as a signed number.
\<close>

definition needToGenerateNmeaReport ::
  "bool \<Rightarrow> bool \<Rightarrow> u32 \<Rightarrow> u64 \<Rightarrow> u64 \<Rightarrow> gnss \<Rightarrow> bool \<times> gnss" where
  "needToGenerateNmeaReport ap nhz_rate gpsTimeOfWeekMs tv_sec tv_nsec s =
     (if ap \<and> mTimeBasedTrackingSessions s \<noteq> [] then let
        currentTimeNsec = tv_sec * 1000000000 + tv_nsec;
        timeDiffMsec = (currentTimeNsec - mPrevNmeaRptTimeNsec s) div 1000000;
        retVal = (if nhz_rate \<or> 1000 \<le> pm_min_interval (mLocPositionMode s) then True
          else if mPrevNmeaRptTimeNsec s = 0
                  \<or> (gpsTimeOfWeekMs \<noteq> 0 \<and> gpsTimeOfWeekMs mod 1000 \<le> 99) then True
          else 975 \<le> sint timeDiffMsec)
      in (retVal, if retVal then s\<lparr>mPrevNmeaRptTimeNsec := currentTimeNsec\<rparr> else s)
      else (False, s))"

section \<open>Facts of the operations\<close>

text \<open>What the engine was last asked for, and the state the session operations leave alone.\<close>

fun engine_after :: "(u32 \<times> u32 \<times> u32 \<times> u32) option \<Rightarrow> gnss_out \<Rightarrow> (u32 \<times> u32 \<times> u32 \<times> u32) option" where
  "engine_after r (Request (StartTimeBased o')) = Some (request_of o')"
| "engine_after r (Request StopTimeBased) = None"
| "engine_after r x = r"

definition engine :: "gnss \<Rightarrow> (u32 \<times> u32 \<times> u32 \<times> u32) option" where
  "engine s = foldl engine_after None (log s)"

definition env :: "gnss \<Rightarrow> (client, gnss_callbacks) ord_map \<times> bool \<times> power_state \<times> gnss_msg list
    \<times> gnss_msg list \<times> u32 \<times> context_base \<times> engine_lock_state" where
  "env s = (mClientData s, mNHzNeeded s, mSystemPowerState s, queue s, mPendingMsgs s,
     mSessionIdCounter s, mContext s, mEngineLockState s)"

abbreviation sessions_of :: "gnss \<Rightarrow> sessions \<times> (session_key, location_options) ord_map" where
  "sessions_of s \<equiv> (mTimeBasedTrackingSessions s, mDistanceBasedTrackingSessions s)"

lemma emit_fields [simp]:
  "env (emit x s) = env s" "mTimeBasedTrackingSessions (emit x s) = mTimeBasedTrackingSessions s"
  "mDistanceBasedTrackingSessions (emit x s) = mDistanceBasedTrackingSessions s"
  "outstanding (emit x s) = outstanding s" "engine (emit x s) = engine_after (engine s) x"
  "mPowerOn (emit x s) = mPowerOn s" "mPowerStateCb (emit x s) = mPowerStateCb s"
  "log (emit x s) = log s @ [x]"
  by (simp_all add: emit_def env_def engine_def)

lemma emit_if_fields [simp]:
  "env (emit_if b x s) = env s" "mTimeBasedTrackingSessions (emit_if b x s) = mTimeBasedTrackingSessions s"
  "mDistanceBasedTrackingSessions (emit_if b x s) = mDistanceBasedTrackingSessions s"
  "outstanding (emit_if b x s) = outstanding s"
  "engine (emit_if b x s) = (if b then engine_after (engine s) x else engine s)"
  "mPowerOn (emit_if b x s) = mPowerOn s" "mPowerStateCb (emit_if b x s) = mPowerStateCb s"
  "log (emit_if b x s) = (if b then log s @ [x] else log s)"
  by (simp_all add: emit_if_def)

lemma ask_fields [simp]:
  "env (ask r k s) = env s" "mTimeBasedTrackingSessions (ask r k s) = mTimeBasedTrackingSessions s"
  "mDistanceBasedTrackingSessions (ask r k s) = mDistanceBasedTrackingSessions s"
  "outstanding (ask r k s) = outstanding s @ (case k of None \<Rightarrow> [] | Some c \<Rightarrow> [c])"
  "engine (ask r k s) = engine_after (engine s) (Request r)"
  "mPowerOn (ask r k s) = mPowerOn s" "mPowerStateCb (ask r k s) = mPowerStateCb s"
  "log (ask r k s) = log s @ [Request r]"
  by (simp_all add: ask_def env_def engine_def emit_def)

text \<open>The updates of fields that \<open>engine\<close> and \<open>env\<close> do not look at.\<close>

lemma update_fields [simp]:
  "env (s\<lparr>mTimeBasedTrackingSessions := a\<rparr>) = env s" "engine (s\<lparr>mTimeBasedTrackingSessions := a\<rparr>) = engine s"
  "env (s\<lparr>mDistanceBasedTrackingSessions := b\<rparr>) = env s"
  "engine (s\<lparr>mDistanceBasedTrackingSessions := b\<rparr>) = engine s"
  "env (s\<lparr>mPowerOn := c\<rparr>) = env s" "engine (s\<lparr>mPowerOn := c\<rparr>) = engine s"
  "env (s\<lparr>mLocPositionMode := d\<rparr>) = env s" "engine (s\<lparr>mLocPositionMode := d\<rparr>) = engine s"
  "env (s\<lparr>mSPEAlreadyRunningAtHighestInterval := e\<rparr>) = env s"
  "engine (s\<lparr>mSPEAlreadyRunningAtHighestInterval := e\<rparr>) = engine s"
  "env (s\<lparr>ntrip_stream := f\<rparr>) = env s" "engine (s\<lparr>ntrip_stream := f\<rparr>) = engine s"
  "env (s\<lparr>mPrevNmeaRptTimeNsec := g\<rparr>) = env s" "engine (s\<lparr>mPrevNmeaRptTimeNsec := g\<rparr>) = engine s"
  "env (s\<lparr>mOdcpiStateMask := h\<rparr>) = env s" "engine (s\<lparr>mOdcpiStateMask := h\<rparr>) = engine s"
  "env (s\<lparr>outstanding := i\<rparr>) = env s" "engine (s\<lparr>outstanding := i\<rparr>) = engine s"
  "engine (s\<lparr>mClientData := j\<rparr>) = engine s" "engine (s\<lparr>mSystemPowerState := k\<rparr>) = engine s"
  "engine (s\<lparr>queue := l\<rparr>) = engine s" "engine (s\<lparr>mPendingMsgs := m\<rparr>) = engine s"
  "engine (s\<lparr>mSessionIdCounter := n\<rparr>) = engine s" "engine (s\<lparr>mEngineLockState := p\<rparr>) = engine s"
  "engine (s\<lparr>mIsEngineCapabilitiesKnown := b'\<rparr>) = engine s" "env (s\<lparr>mIsEngineCapabilitiesKnown := b'\<rparr>) = env s"
  "engine (s\<lparr>mPowerStateCb := c\<rparr>) = engine s" "env (s\<lparr>mPowerStateCb := c\<rparr>) = env s"
  "engine (s\<lparr>now := g\<rparr>) = engine s" "env (s\<lparr>now := g\<rparr>) = env s"
  by (simp_all add: env_def engine_def)

lemma reportPowerState_fields [simp]:
  "env (reportPowerStateIfChanged s) = env s"
  "mTimeBasedTrackingSessions (reportPowerStateIfChanged s) = mTimeBasedTrackingSessions s"
  "mDistanceBasedTrackingSessions (reportPowerStateIfChanged s) = mDistanceBasedTrackingSessions s"
  "outstanding (reportPowerStateIfChanged s) = outstanding s"
  "engine (reportPowerStateIfChanged s) = engine s"
  "mPowerStateCb (reportPowerStateIfChanged s) = mPowerStateCb s"
  by (simp_all add: reportPowerStateIfChanged_def Let_def)

lemma reportResponse_fields [simp]:
  "env (reportResponse_gnss c err sid s) = env s"
  "mTimeBasedTrackingSessions (reportResponse_gnss c err sid s) = mTimeBasedTrackingSessions s"
  "mDistanceBasedTrackingSessions (reportResponse_gnss c err sid s) = mDistanceBasedTrackingSessions s"
  "outstanding (reportResponse_gnss c err sid s) = outstanding s"
  "engine (reportResponse_gnss c err sid s) = engine s"
  "mPowerOn (reportResponse_gnss c err sid s) = mPowerOn s"
  "mPowerStateCb (reportResponse_gnss c err sid s) = mPowerStateCb s"
  by (simp_all add: reportResponse_gnss_def split: option.split)

lemma setTribandState_fields [simp]:
  "env (setTribandState s) = env s"
  "mTimeBasedTrackingSessions (setTribandState s) = mTimeBasedTrackingSessions s"
  "mDistanceBasedTrackingSessions (setTribandState s) = mDistanceBasedTrackingSessions s"
  "outstanding (setTribandState s) = outstanding s" "engine (setTribandState s) = engine s"
  "mPowerOn (setTribandState s) = mPowerOn s" "mPowerStateCb (setTribandState s) = mPowerStateCb s"
  by (simp_all add: setTribandState_def)

lemma saveTrackingSession_fields [simp]:
  "env (saveTrackingSession c sid o' s) = env s"
  "outstanding (saveTrackingSession c sid o' s) = outstanding s"
  "engine (saveTrackingSession c sid o' s) = engine s"
  "mPowerStateCb (saveTrackingSession c sid o' s) = mPowerStateCb s"
  by (simp_all add: saveTrackingSession_def Let_def)

lemma eraseTrackingSession_fields [simp]:
  "env (eraseTrackingSession c sid s) = env s"
  "outstanding (eraseTrackingSession c sid s) = outstanding s"
  "engine (eraseTrackingSession c sid s) = engine s"
  "mPowerStateCb (eraseTrackingSession c sid s) = mPowerStateCb s"
  by (simp_all add: eraseTrackingSession_def Let_def)

lemma save_time_based:
  assumes "c \<noteq> NULL" "minDistance o' = 0"
  shows "mTimeBasedTrackingSessions (saveTrackingSession c sid o' s)
      = om_put (SessionKey c sid) o' (mTimeBasedTrackingSessions s)"
    "mDistanceBasedTrackingSessions (saveTrackingSession c sid o' s) = mDistanceBasedTrackingSessions s"
  using assms by (simp_all add: saveTrackingSession_def Let_def)

lemma erase_time_based:
  assumes "c \<noteq> NULL" "om_get (SessionKey c sid) (mTimeBasedTrackingSessions s) = Some o'"
  shows "mTimeBasedTrackingSessions (eraseTrackingSession c sid s)
      = om_erase (SessionKey c sid) (mTimeBasedTrackingSessions s)"
    "mDistanceBasedTrackingSessions (eraseTrackingSession c sid s) = mDistanceBasedTrackingSessions s"
  using assms by (simp_all add: eraseTrackingSession_def Let_def)

lemma about_to_start_fields [simp]:
  "env (session_about_to_start o' s) = env s"
  "mTimeBasedTrackingSessions (session_about_to_start o' s) = mTimeBasedTrackingSessions s"
  "mDistanceBasedTrackingSessions (session_about_to_start o' s) = mDistanceBasedTrackingSessions s"
  "outstanding (session_about_to_start o' s) = outstanding s"
  "engine (session_about_to_start o' s) = engine s"
  "mPowerOn (session_about_to_start o' s) = mPowerOn s"
  "mPowerStateCb (session_about_to_start o' s) = mPowerStateCb s"
  by (simp_all add: session_about_to_start_def setLocPositionMode_def Let_def)

lemma nhz_env: "mNHzNeeded s = fst (snd (env s))" "mSystemPowerState s = fst (snd (snd (env s)))"
  "mContext s = fst (snd (snd (snd (snd (snd (snd (env s)))))))"
  by (simp_all add: env_def)

lemma check_fields:
  "checkAndSetSPEToRunforNHz o' s = (a, t, s') \<Longrightarrow> env s' = env s \<and> outstanding s' = outstanding s
     \<and> engine s' = engine s \<and> sessions_of s' = sessions_of s
     \<and> mPowerOn s' = mPowerOn s \<and> mPowerStateCb s' = mPowerStateCb s"
  by (auto simp: checkAndSetSPEToRunforNHz_def split: if_splits)

text \<open>Without the requirement of many fixes a second, a start asks for just the options given.\<close>

lemma start_fields:
  "env (startTimeBasedTracking c sid o' s) = env s"
  "mTimeBasedTrackingSessions (startTimeBasedTracking c sid o' s) = mTimeBasedTrackingSessions s"
  "mDistanceBasedTrackingSessions (startTimeBasedTracking c sid o' s) = mDistanceBasedTrackingSessions s"
  "mPowerOn (startTimeBasedTracking c sid o' s) = mPowerOn s"
  "mPowerStateCb (startTimeBasedTracking c sid o' s) = mPowerStateCb s"
  by (auto simp: startTimeBasedTracking_def split: prod.splits dest: check_fields)

lemma update_tracking_fields:
  "env (updateTracking c sid o' old s) = env s"
  "mTimeBasedTrackingSessions (updateTracking c sid o' old s) = mTimeBasedTrackingSessions s"
  "mDistanceBasedTrackingSessions (updateTracking c sid o' old s) = mDistanceBasedTrackingSessions s"
  "mPowerOn (updateTracking c sid o' old s) = mPowerOn s"
  "mPowerStateCb (updateTracking c sid o' old s) = mPowerStateCb s"
  by (auto simp: updateTracking_def split: prod.splits dest: check_fields)

lemmas start_simps [simp] = start_fields update_tracking_fields

lemma start_engine:
  assumes "\<not> mNHzNeeded s"
  shows "engine (startTimeBasedTracking c sid o' s) = Some (request_of o')"
    "outstanding (startTimeBasedTracking c sid o' s) = outstanding s @ [StartDone c sid]"
    "engine (updateTracking c sid o' old s) = Some (request_of o')"
    "outstanding (updateTracking c sid o' old s) = outstanding s @ [UpdateDone c sid old]"
proof -
  have "\<not> mNHzNeeded (session_about_to_start o' s)" using assms by (simp add: nhz_env)
  then have "checkAndSetSPEToRunforNHz o' (session_about_to_start o' s) = (False, o', session_about_to_start o' s)"
    by (simp add: checkAndSetSPEToRunforNHz_def)
  then show "engine (startTimeBasedTracking c sid o' s) = Some (request_of o')"
    "outstanding (startTimeBasedTracking c sid o' s) = outstanding s @ [StartDone c sid]"
    "engine (updateTracking c sid o' old s) = Some (request_of o')"
    "outstanding (updateTracking c sid o' old s) = outstanding s @ [UpdateDone c sid old]"
    by (simp_all add: startTimeBasedTracking_def updateTracking_def)
qed

lemma stopTracking_fields [simp]:
  "env (stopTracking c sid s) = env s"
  "mTimeBasedTrackingSessions (stopTracking c sid s) = mTimeBasedTrackingSessions s"
  "mDistanceBasedTrackingSessions (stopTracking c sid s) = mDistanceBasedTrackingSessions s"
  "engine (stopTracking c sid s) = None"
  "outstanding (stopTracking c sid s) = outstanding s @ (if c = NULL then [] else [StopDone c sid])"
  "mPowerOn (stopTracking c sid s) = mPowerOn s" "mPowerStateCb (stopTracking c sid s) = mPowerStateCb s"
  by (simp_all add: stopTracking_def Let_def)

section \<open>The engine follows the sessions\<close>

text \<open>What the engine should be asked for with the sessions \<open>es\<close>.\<close>

definition want :: "sessions \<Rightarrow> (u32 \<times> u32 \<times> u32 \<times> u32) option" where
  "want es = (if es = [] then None else Some (lowest (requests es)))"

lemma want_put: "om_ok es \<Longrightarrow> want (om_put k o' es) = Some (lowest (insert (request_of o') (requests (om_erase k es))))"
  by (simp add: want_def requests_put)

lemma start_multiplex:
  assumes "\<not> mNHzNeeded s"
    and start: "startTimeBasedTrackingMultiplex c sid o' s = (w, s')"
  shows "env s' = env s" "sessions_of s' = sessions_of s"
    "mTimeBasedTrackingSessions s = [] \<or> engine s = want (mTimeBasedTrackingSessions s)
      \<Longrightarrow> engine s' = Some (lowest (insert (request_of o') (requests (mTimeBasedTrackingSessions s))))"
    "outstanding s' = outstanding s \<or> outstanding s' = outstanding s @ [StartDone c sid]"
proof -
  let ?T = "mTimeBasedTrackingSessions s"
  have "env s' = env s \<and> sessions_of s' = sessions_of s
    \<and> (?T = [] \<or> engine s = want ?T \<longrightarrow> engine s' = Some (lowest (insert (request_of o') (requests ?T))))
    \<and> (outstanding s' = outstanding s \<or> outstanding s' = outstanding s @ [StartDone c sid])"
  proof (cases "?T = []")
    case True
    moreover have "\<not> mNHzNeeded (s\<lparr>mPrevNmeaRptTimeNsec := 0\<rparr>)" using assms(1) by simp
    from start_engine(1,2) [OF this] have "engine (startTimeBasedTracking c sid o' (s\<lparr>mPrevNmeaRptTimeNsec := 0\<rparr>)) = Some (request_of o')"
      "outstanding (startTimeBasedTracking c sid o' (s\<lparr>mPrevNmeaRptTimeNsec := 0\<rparr>)) = outstanding s @ [StartDone c sid]"
      by simp_all
    ultimately show ?thesis using start by (auto simp: startTimeBasedTrackingMultiplex_def)
  next
    case False
    then have e: "want ?T = Some (lowest (requests ?T))" by (simp add: want_def)
    have l: "lowest (insert (request_of o') (requests ?T)) = meet (request_of o') (lowest (requests ?T))"
      using False by (simp add: lowest_insert)
    show ?thesis
      using start False e l start_engine(1,2) [OF assms(1), of c sid]
      by (auto simp: startTimeBasedTrackingMultiplex_def Let_def equals_request request_of_multiplexed
          split: if_splits)
  qed
  then show "env s' = env s" "sessions_of s' = sessions_of s"
    "?T = [] \<or> engine s = want ?T \<Longrightarrow> engine s' = Some (lowest (insert (request_of o') (requests ?T)))"
    "outstanding s' = outstanding s \<or> outstanding s' = outstanding s @ [StartDone c sid]" by auto
qed

lemma update_multiplex:
  assumes "\<not> mNHzNeeded s"
    "om_ok (mTimeBasedTrackingSessions s)"
    "om_get (SessionKey c sid) (mTimeBasedTrackingSessions s) = Some it"
    and upd: "updateTrackingMultiplex c sid o' s = (w, s')"
  shows "env s' = env s" "sessions_of s' = sessions_of s"
    "engine s = want (mTimeBasedTrackingSessions s)
      \<Longrightarrow> engine s' = want (om_put (SessionKey c sid) o' (mTimeBasedTrackingSessions s))"
    "outstanding s' = outstanding s \<or> outstanding s' = outstanding s @ [UpdateDone c sid it]"
proof -
  let ?T = "mTimeBasedTrackingSessions s" and ?k = "SessionKey c sid"
  let ?others = "om_erase ?k ?T"
  have "?T \<noteq> []" using assms(3) by auto
  then have e: "want ?T = Some (lowest (insert (request_of it) (requests ?others)))"
    using requests_split [OF assms(2,3)] by (simp add: want_def)
  have "env s' = env s \<and> sessions_of s' = sessions_of s
    \<and> (engine s = want ?T \<longrightarrow> engine s' = Some (lowest (insert (request_of o') (requests ?others))))
    \<and> (outstanding s' = outstanding s \<or> outstanding s' = outstanding s @ [UpdateDone c sid it])"
  proof (cases "?others = []")
    case True
    then show ?thesis using upd e assms(3) start_engine(3,4) [OF assms(1), of c sid]
      by (auto simp: updateTrackingMultiplex_def Let_def equals_request split: if_splits)
  next
    case False
    then have l: "lowest (insert (request_of x) (requests ?others)) = meet (request_of x) (lowest (requests ?others))"
      for x by (simp add: lowest_insert)
    show ?thesis using False upd e l assms(3) start_engine(3,4) [OF assms(1), of c sid]
      by (auto simp: updateTrackingMultiplex_def Let_def equals_request request_of_multiplexed split: if_splits)
  qed
  then show "env s' = env s" "sessions_of s' = sessions_of s" "engine s = want ?T \<Longrightarrow> engine s' = want (om_put ?k o' ?T)"
    "outstanding s' = outstanding s \<or> outstanding s' = outstanding s @ [UpdateDone c sid it]"
    by (auto simp: want_put [OF assms(2)])
qed

lemma om_erase_single:
  assumes "om_ok m" "om_get k m = Some v"
  shows "om_erase k m = [] \<longleftrightarrow> length m = 1"
proof
  assume "om_erase k m = []"
  then have "fst ` set m \<subseteq> {k}" by (auto simp: om_erase_def filter_empty_conv)
  moreover have "card (fst ` set m) = length m"
    using om_distinct [OF assms(1)] by (metis distinct_card length_map set_map)
  ultimately have "length m \<le> 1" by (metis card_mono finite.emptyI finite.insertI card.empty card_insert_if empty_iff One_nat_def)
  moreover have "m \<noteq> []" using assms(2) by auto
  ultimately show "length m = 1" by (cases m) auto
next
  assume "length m = 1"
  then obtain e where "m = [e]" by (cases m) auto
  with assms(2) show "om_erase k m = []" by (cases e) (auto simp: om_get_def om_erase_def split: if_splits)
qed

lemma stop_multiplex:
  assumes "\<not> mNHzNeeded s"
    "om_ok (mTimeBasedTrackingSessions s)"
    "om_get (SessionKey c sid) (mTimeBasedTrackingSessions s) = Some it"
    and stop: "stopTimeBasedTrackingMultiplex c sid s = (w, s')"
  shows "env s' = env s" "sessions_of s' = sessions_of s"
    "om_erase (SessionKey c sid) (mTimeBasedTrackingSessions s) = [] \<or> engine s = want (mTimeBasedTrackingSessions s)
      \<Longrightarrow> engine s' = want (om_erase (SessionKey c sid) (mTimeBasedTrackingSessions s))"
    "set (outstanding s') \<subseteq> insert (StartDone c sid) (insert (StopDone c sid) (set (outstanding s)))"
proof -
  let ?T = "mTimeBasedTrackingSessions s" and ?k = "SessionKey c sid"
  let ?others = "om_erase ?k ?T"
  have "?T \<noteq> []" using assms(3) by auto
  then have w: "want ?T = Some (lowest (insert (request_of it) (requests ?others)))"
    using requests_split [OF assms(2,3)] by (simp add: want_def)
  note len = om_erase_single [OF assms(2,3)]
  have "env s' = env s \<and> sessions_of s' = sessions_of s
    \<and> (?others = [] \<or> engine s = want ?T \<longrightarrow> engine s' = want ?others)
    \<and> set (outstanding s') \<subseteq> insert (StartDone c sid) (insert (StopDone c sid) (set (outstanding s)))"
  proof (cases "?others = []")
    case True
    then show ?thesis using stop len
      by (auto simp: stopTimeBasedTrackingMultiplex_def want_def split: if_splits)
  next
    case False
    then have l: "lowest (insert (request_of it) (requests ?others)) = meet (request_of it) (lowest (requests ?others))"
      by (simp add: lowest_insert)
    show ?thesis using False stop len w l assms(3) start_engine(1,2) [OF assms(1), of c sid]
      by (auto simp: stopTimeBasedTrackingMultiplex_def Let_def equals_request request_of_multiplexed want_def
          split: if_splits)
  qed
  then show "env s' = env s" "sessions_of s' = sessions_of s"
    "?others = [] \<or> engine s = want ?T \<Longrightarrow> engine s' = want ?others"
    "set (outstanding s') \<subseteq> insert (StartDone c sid) (insert (StopDone c sid) (set (outstanding s)))" by auto
qed

text \<open>Runs with sessions by time only: what may be queued and asked for, and the numbers in use.\<close>

fun calm_cont :: "gnss_cont \<Rightarrow> bool" where
  "calm_cont (StartDone c sid) = True"
| "calm_cont (UpdateDone c sid old) = True"
| "calm_cont (StopDone c sid) = True"
| "calm_cont k = False"

fun calm_msg :: "gnss_msg \<Rightarrow> bool" where
  "calm_msg (MsgStartTracking c sid o') = (c \<noteq> NULL \<and> minDistance o' = 0)"
| "calm_msg (MsgUpdateTracking c sid o') = (minDistance o' = 0)"
| "calm_msg (MsgGnssResponse k err) = calm_cont k"
| "calm_msg m = True"

fun start_id :: "gnss_msg \<Rightarrow> u32 option" where
  "start_id (MsgStartTracking c sid o') = Some sid"
| "start_id m = None"

definition start_ids :: "gnss_msg list \<Rightarrow> u32 list" where
  "start_ids q = List.map_filter start_id q"

lemma start_ids_simps [simp]: "start_ids [] = []"
  "start_ids (m # q) = (case start_id m of None \<Rightarrow> start_ids q | Some i \<Rightarrow> i # start_ids q)"
  "start_ids (q @ r) = start_ids q @ start_ids r"
  by (simp_all add: start_ids_def List.map_filter_def split: option.split)

definition keys_ok :: "u32 \<Rightarrow> gnss_msg list \<Rightarrow> sessions \<Rightarrow> bool" where
  "keys_ok ctr q es \<longleftrightarrow> om_ok es
     \<and> (\<forall>k\<in>fst ` set es. sk_client k \<noteq> NULL \<and> sk_id k \<le> ctr \<and> sk_id k \<notin> set (start_ids q))"

definition calm_base :: "gnss \<Rightarrow> bool" where
  "calm_base s \<longleftrightarrow> mDistanceBasedTrackingSessions s = [] \<and> \<not> mNHzNeeded s \<and> mPendingMsgs s = []
     \<and> list_all calm_msg (queue s) \<and> list_all calm_cont (outstanding s)
     \<and> distinct (start_ids (queue s)) \<and> (\<forall>i\<in>set (start_ids (queue s)). i \<le> mSessionIdCounter s)
     \<and> keys_ok (mSessionIdCounter s) (queue s) (mTimeBasedTrackingSessions s)"

definition engine_ok :: "gnss \<Rightarrow> bool" where
  "engine_ok s \<longleftrightarrow> (mTimeBasedTrackingSessions s = [] \<or> \<not> power_down (mSystemPowerState s) \<longrightarrow>
     engine s = want (mTimeBasedTrackingSessions s))"

definition mux_inv :: "gnss \<Rightarrow> bool" where
  "mux_inv s \<longleftrightarrow> calm_base s \<and> engine_ok s"

lemma env_eqD:
  assumes "env s' = env s"
  shows "mClientData s' = mClientData s" "mNHzNeeded s' = mNHzNeeded s"
    "mSystemPowerState s' = mSystemPowerState s" "queue s' = queue s" "mPendingMsgs s' = mPendingMsgs s"
    "mSessionIdCounter s' = mSessionIdCounter s" "mContext s' = mContext s"
    "mEngineLockState s' = mEngineLockState s"
  using assms by (simp_all add: env_def)

lemma calm_base_change:
  assumes "calm_base s" "env s' = env s"
    "mDistanceBasedTrackingSessions s' = mDistanceBasedTrackingSessions s"
    "keys_ok (mSessionIdCounter s) (queue s) (mTimeBasedTrackingSessions s')"
    "list_all calm_cont (outstanding s')"
  shows "calm_base s'"
  using assms by (simp add: calm_base_def env_eqD [OF assms(2)])

lemma keys_ok_erase: "keys_ok ctr q es \<Longrightarrow> keys_ok ctr q (om_erase k es)"
  by (auto simp: keys_ok_def om_erase_def intro: om_ok_erase [unfolded om_erase_def])

lemma keys_ok_put:
  assumes "keys_ok ctr q es" "k \<in> fst ` set es \<or> (sk_client k \<noteq> NULL \<and> sk_id k \<le> ctr \<and> sk_id k \<notin> set (start_ids q))"
  shows "keys_ok ctr q (om_put k o' es)"
  using assms by (auto simp: keys_ok_def om_put_keys)

lemma mux_inv_same:
  assumes "mux_inv s" "env s' = env s" "sessions_of s' = sessions_of s" "engine s' = engine s"
    "list_all calm_cont (outstanding s')"
  shows "mux_inv s'"
  using assms calm_base_change [of s s'] env_eqD [OF assms(2)]
  by (auto simp: mux_inv_def engine_ok_def calm_base_def)

lemma sessions_facts:
  assumes "calm_base s" "om_get k (mTimeBasedTrackingSessions s) = Some o'"
  shows "sk_client k \<noteq> NULL" "k \<in> fst ` set (mTimeBasedTrackingSessions s)" "om_ok (mTimeBasedTrackingSessions s)"
proof -
  show k: "k \<in> fst ` set (mTimeBasedTrackingSessions s)" using assms(2) by (metis om_get_keys option.distinct(1))
  then show "sk_client k \<noteq> NULL" "om_ok (mTimeBasedTrackingSessions s)"
    using assms(1) by (auto simp: calm_base_def keys_ok_def)
qed

text \<open>Stopping and erasing one session.\<close>

lemma stop_and_erase:
  assumes inv: "mux_inv s" and get: "om_get (SessionKey c sid) (mTimeBasedTrackingSessions s) = Some it"
    and stop: "stopTimeBasedTrackingMultiplex c sid s = (w, s1)"
  shows "mux_inv (eraseTrackingSession c sid s1)"
    "mTimeBasedTrackingSessions (eraseTrackingSession c sid s1)
       = om_erase (SessionKey c sid) (mTimeBasedTrackingSessions s)"
proof -
  have base: "calm_base s" using inv by (simp add: mux_inv_def)
  note facts = sessions_facts [OF base get]
  note m = stop_multiplex [OF _ facts(3) get stop]
  have nhz: "\<not> mNHzNeeded s" using base by (simp add: calm_base_def)
  have c: "c \<noteq> NULL" using facts(1) by simp
  have get1: "om_get (SessionKey c sid) (mTimeBasedTrackingSessions s1) = Some it"
    using m(2) [OF nhz] get by simp
  note er = erase_time_based [OF c get1]
  show T: "mTimeBasedTrackingSessions (eraseTrackingSession c sid s1)
       = om_erase (SessionKey c sid) (mTimeBasedTrackingSessions s)"
    using er(1) m(2) [OF nhz] by simp
  have env: "env (eraseTrackingSession c sid s1) = env s" using m(1) [OF nhz] by simp
  have "calm_base (eraseTrackingSession c sid s1)"
  proof (rule calm_base_change [OF base env])
    show "mDistanceBasedTrackingSessions (eraseTrackingSession c sid s1) = mDistanceBasedTrackingSessions s"
      using er(2) m(2) [OF nhz] by simp
    show "keys_ok (mSessionIdCounter s) (queue s) (mTimeBasedTrackingSessions (eraseTrackingSession c sid s1))"
      using base by (simp add: T calm_base_def keys_ok_erase)
    show "list_all calm_cont (outstanding (eraseTrackingSession c sid s1))"
      using base m(4) [OF nhz] by (fastforce simp: calm_base_def list_all_iff)
  qed
  moreover have "engine_ok (eraseTrackingSession c sid s1)"
    using inv m(3) [OF nhz] by (auto simp: mux_inv_def engine_ok_def T env_eqD(3) [OF env])
  ultimately show "mux_inv (eraseTrackingSession c sid s1)" by (simp add: mux_inv_def)
qed

text \<open>Operations that touch neither the sessions nor the engine.\<close>

lemma mux_inv_cong:
  assumes "env s' = env s" "sessions_of s' = sessions_of s" "engine s' = engine s"
    "outstanding s' = outstanding s"
  shows "mux_inv s' = mux_inv s"
  using assms(2-4) by (simp add: mux_inv_def calm_base_def engine_ok_def env_eqD [OF assms(1)])

lemma mux_inv_frame [simp]:
  "mux_inv (emit_if b (RemoveClientDone c) s) = mux_inv s"
  "mux_inv (emit (UpdateLockStatus g) s) = mux_inv s"
  "mux_inv (emit (PowerStateCb b) s) = mux_inv s" "mux_inv (emit (SystemPowerState p) s) = mux_inv s"
  "mux_inv (setTribandState s) = mux_inv s"
  "mux_inv (reportResponse_gnss c err sid s) = mux_inv s"
  "mux_inv (s\<lparr>mOdcpiStateMask := a\<rparr>) = mux_inv s"
  "mux_inv (s\<lparr>mSPEAlreadyRunningAtHighestInterval := b\<rparr>) = mux_inv s"
  "mux_inv (s\<lparr>mIsEngineCapabilitiesKnown := b\<rparr>) = mux_inv s"
  "mux_inv (s\<lparr>ntrip_stream := t\<rparr>) = mux_inv s"
  "mux_inv (s\<lparr>mPowerStateCb := b\<rparr>) = mux_inv s"
  by (rule mux_inv_cong; simp)+

lemma mux_inv_updates2:
  assumes "mux_inv s"
  shows "mux_inv (s\<lparr>mClientData := cd\<rparr>)" "mux_inv (s\<lparr>mEngineLockState := l\<rparr>)"
    "mux_inv (s\<lparr>mPpFeatureStatusMask := f, ppeIntEnabled := b\<rparr>)" "mux_inv (s\<lparr>now := t\<rparr>)"
  using assms by (simp_all add: mux_inv_def calm_base_def engine_ok_def engine_def)

lemma stop_proc_inv: "mux_inv s \<Longrightarrow> mux_inv (stop_proc c sid s)"
proof -
  assume inv: "mux_inv s"
  have dist: "mDistanceBasedTrackingSessions s = []" using inv by (simp add: mux_inv_def calm_base_def)
  show ?thesis
  proof (cases "om_get (SessionKey c sid) (mTimeBasedTrackingSessions s)")
    case None
    then show ?thesis using inv dist
      by (simp add: stop_proc_def isTimeBasedTrackingSession_def isDistanceBasedTrackingSession_def)
  next
    case (Some it)
    obtain w s1 where stop: "stopTimeBasedTrackingMultiplex c sid s = (w, s1)" by force
    show ?thesis using stop_and_erase(1) [OF inv Some stop]
      by (simp add: stop_proc_def isTimeBasedTrackingSession_def Some stop Let_def)
  qed
qed

lemma remove_loop_inv:
  assumes "mux_inv s" "distinct ks" "set ks \<subseteq> fst ` set (mTimeBasedTrackingSessions s)"
  shows "mux_inv (fold (\<lambda>k s. eraseTrackingSession (sk_client k) (sk_id k)
     (snd (stopTimeBasedTrackingMultiplex (sk_client k) (sk_id k) s))) ks s)"
  using assms
proof (induction ks arbitrary: s)
  case (Cons k ks)
  obtain w s1 where stop: "stopTimeBasedTrackingMultiplex (sk_client k) (sk_id k) s = (w, s1)" by force
  have "k \<in> fst ` set (mTimeBasedTrackingSessions s)" using Cons.prems(3) by simp
  then have "om_get k (mTimeBasedTrackingSessions s) \<noteq> None" by (simp only: om_get_keys)
  then obtain it where "om_get (SessionKey (sk_client k) (sk_id k)) (mTimeBasedTrackingSessions s) = Some it"
    by auto
  note step = stop_and_erase [OF Cons.prems(1) this stop]
  have "set ks \<subseteq> fst ` set (om_erase k (mTimeBasedTrackingSessions s))"
    using Cons.prems(2,3) by (force simp: om_erase_def)
  then have "set ks \<subseteq> fst ` set (mTimeBasedTrackingSessions (eraseTrackingSession (sk_client k) (sk_id k) s1))"
    by (simp add: step(2))
  from Cons.IH [OF step(1) _ this] Cons.prems(2) show ?case by (simp add: stop)
qed simp

lemma remove_client_inv: "mux_inv s \<Longrightarrow> mux_inv (remove_client_gnss c b s)"
proof -
  assume inv: "mux_inv s"
  define ks where "ks = filter (\<lambda>k. sk_client k = c) (map fst (mTimeBasedTrackingSessions s))"
  define s1 where "s1 = fold (\<lambda>k s. eraseTrackingSession (sk_client k) (sk_id k)
     (snd (stopTimeBasedTrackingMultiplex (sk_client k) (sk_id k) s))) ks s"
  have "om_ok (mTimeBasedTrackingSessions s)" using inv by (simp add: mux_inv_def calm_base_def keys_ok_def)
  then have "distinct ks" by (simp add: ks_def om_distinct)
  then have s1: "mux_inv s1" unfolding s1_def by (rule remove_loop_inv [OF inv]) (auto simp: ks_def)
  then have "mDistanceBasedTrackingSessions s1 = []" by (simp add: mux_inv_def calm_base_def)
  then have "stopClientSessions_gnss c True s = s1"
    by (simp add: stopClientSessions_gnss_def Let_def ks_def [symmetric] s1_def [symmetric])
  with s1 show ?thesis by (simp add: remove_client_gnss_def Let_def mux_inv_updates2)
qed

lemma start_proc_inv:
  assumes inv: "mux_inv s" and c: "c \<noteq> NULL" "minDistance o' = 0"
    and key: "sid \<le> mSessionIdCounter s" "sid \<notin> set (start_ids (queue s))"
      "\<forall>k\<in>fst ` set (mTimeBasedTrackingSessions s). sk_id k \<noteq> sid"
  shows "mux_inv (start_proc c sid o' s)"
proof -
  have base: "calm_base s" using inv by (simp add: mux_inv_def)
  have nhz: "\<not> mNHzNeeded s" and T: "om_ok (mTimeBasedTrackingSessions s)"
    using base by (simp_all add: calm_base_def keys_ok_def)
  have fresh: "om_get (SessionKey c sid) (mTimeBasedTrackingSessions s) = None"
    using key(3) om_get_keys [of "SessionKey c sid"] by fastforce
  have go: "mux_inv (saveTrackingSession c sid o2 s1)"
    if m: "startTimeBasedTrackingMultiplex c sid o2 s = (w, s1)" and o2: "minDistance o2 = 0" for o2 w s1
  proof -
    note m = start_multiplex [OF nhz m]
    note sv = save_time_based [OF c(1) o2, of sid s1]
    have env: "env (saveTrackingSession c sid o2 s1) = env s" using m(1) by simp
    have "calm_base (saveTrackingSession c sid o2 s1)"
    proof (rule calm_base_change [OF base env])
      show "mDistanceBasedTrackingSessions (saveTrackingSession c sid o2 s1) = mDistanceBasedTrackingSessions s"
        using sv m(2) by simp
      show "keys_ok (mSessionIdCounter s) (queue s) (mTimeBasedTrackingSessions (saveTrackingSession c sid o2 s1))"
        using sv m(2) base key c by (simp add: calm_base_def keys_ok_put)
      show "list_all calm_cont (outstanding (saveTrackingSession c sid o2 s1))"
        using base m(4) by (auto simp: calm_base_def)
    qed
    moreover have "engine_ok (saveTrackingSession c sid o2 s1)"
      using inv sv m(2,3) by (auto simp: mux_inv_def engine_ok_def env_eqD(3) [OF env]
          want_put [OF T] om_erase_absent [OF fresh])
    ultimately show ?thesis by (simp add: mux_inv_def)
  qed
  show ?thesis using inv c(2) go
    by (auto simp: start_proc_def Let_def split: prod.splits)
qed

lemma update_proc_inv:
  assumes inv: "mux_inv s" and o': "minDistance o' = 0"
  shows "mux_inv (update_proc c sid o' s)"
proof (cases "om_get (SessionKey c sid) (mTimeBasedTrackingSessions s)")
  case None
  moreover have "mDistanceBasedTrackingSessions s = []" using inv by (simp add: mux_inv_def calm_base_def)
  ultimately show ?thesis using inv o'
    by (simp add: update_proc_def isTimeBasedTrackingSession_def isDistanceBasedTrackingSession_def Let_def)
next
  case (Some it)
  have base: "calm_base s" using inv by (simp add: mux_inv_def)
  then have nhz: "\<not> mNHzNeeded s" and dist: "mDistanceBasedTrackingSessions s = []"
    by (simp_all add: calm_base_def)
  note facts = sessions_facts [OF base Some]
  have c: "c \<noteq> NULL" using facts(1) by simp
  have go: "mux_inv (saveTrackingSession c sid o2 s1)"
    if m: "updateTrackingMultiplex c sid o2 s = (w, s1)" and o2: "minDistance o2 = 0" for o2 w s1
  proof -
    note m = update_multiplex [OF nhz facts(3) Some m]
    note sv = save_time_based [OF c o2, of sid s1]
    have env: "env (saveTrackingSession c sid o2 s1) = env s" using m(1) by simp
    have "calm_base (saveTrackingSession c sid o2 s1)"
    proof (rule calm_base_change [OF base env])
      show "mDistanceBasedTrackingSessions (saveTrackingSession c sid o2 s1) = mDistanceBasedTrackingSessions s"
        using sv m(2) by simp
      show "keys_ok (mSessionIdCounter s) (queue s) (mTimeBasedTrackingSessions (saveTrackingSession c sid o2 s1))"
        using sv m(2) base facts(2) by (simp add: calm_base_def keys_ok_put)
      show "list_all calm_cont (outstanding (saveTrackingSession c sid o2 s1))"
        using base m(4) by (auto simp: calm_base_def)
    qed
    moreover have "engine_ok (saveTrackingSession c sid o2 s1)"
      using inv sv m(2,3) facts(2) by (auto simp: mux_inv_def engine_ok_def env_eqD(3) [OF env])
    ultimately show ?thesis by (simp add: mux_inv_def)
  qed
  define o1 where "o1 = (if powerMode o' = GNSS_POWER_MODE_M4 \<and> TRACKING_TBM_THRESHOLD_MILLIS < tbm o'
     then o'\<lparr>powerMode := GNSS_POWER_MODE_M2\<rparr> else o')"
  define o2 where "o2 = (if minInterval o1 < MIN_TRACKING_INTERVAL s
     then o1\<lparr>minInterval := MIN_TRACKING_INTERVAL s\<rparr> else o1)"
  have o2: "minDistance o2 = 0" using o' by (simp add: o1_def o2_def)
  obtain w s1 where m: "updateTrackingMultiplex c sid o2 s = (w, s1)" by force
  from go [OF m o2] inv o' o2 show ?thesis
    by (simp add: update_proc_def isTimeBasedTrackingSession_def isDistanceBasedTrackingSession_def Some dist
        o1_def [symmetric] o2_def [symmetric] Let_def m)
qed

lemma restart_engine:
  assumes "calm_base s" "mTimeBasedTrackingSessions s = [] \<longrightarrow> engine s = None"
  shows "calm_base (checkAndRestartSPESession s)"
    "engine (checkAndRestartSPESession s) = want (mTimeBasedTrackingSessions s)"
    "mTimeBasedTrackingSessions (checkAndRestartSPESession s) = mTimeBasedTrackingSessions s"
    "env (checkAndRestartSPESession s) = env s"
proof -
  have dist: "mDistanceBasedTrackingSessions s = []" and nhz: "\<not> mNHzNeeded s"
    using assms(1) by (simp_all add: calm_base_def)
  let ?s = "s\<lparr>mSPEAlreadyRunningAtHighestInterval := False\<rparr>"
  have eq: "checkAndRestartSPESession s = reStartTimeBasedTracking ?s"
    by (simp add: checkAndRestartSPESession_def reStartTimeBasedTracking_def dist)
  have nhz': "\<not> mNHzNeeded ?s" using nhz by simp
  show T: "mTimeBasedTrackingSessions (checkAndRestartSPESession s) = mTimeBasedTrackingSessions s"
    and env: "env (checkAndRestartSPESession s) = env s"
    by (simp_all add: eq reStartTimeBasedTracking_def)
  show "engine (checkAndRestartSPESession s) = want (mTimeBasedTrackingSessions s)"
    using assms(2) start_engine(1) [OF nhz']
    by (simp add: eq reStartTimeBasedTracking_def want_def request_of_multiplexed)
  show "calm_base (checkAndRestartSPESession s)"
  proof (rule calm_base_change [OF assms(1) env])
    show "mDistanceBasedTrackingSessions (checkAndRestartSPESession s) = mDistanceBasedTrackingSessions s"
      by (simp add: eq reStartTimeBasedTracking_def)
    show "keys_ok (mSessionIdCounter s) (queue s) (mTimeBasedTrackingSessions (checkAndRestartSPESession s))"
      using assms(1) by (simp add: T calm_base_def)
    show "list_all calm_cont (outstanding (checkAndRestartSPESession s))"
      using assms(1) start_engine(2) [OF nhz'] by (simp add: eq reStartTimeBasedTracking_def calm_base_def)
  qed
qed

text \<open>What holds of the engine in every power state.\<close>

definition idle_ok :: "gnss \<Rightarrow> bool" where
  "idle_ok s \<longleftrightarrow> calm_base s \<and> (mTimeBasedTrackingSessions s = [] \<longrightarrow> engine s = None)"

lemma mux_inv_idle: "mux_inv s \<Longrightarrow> idle_ok s"
  by (simp add: mux_inv_def idle_ok_def engine_ok_def want_def)

lemma restartSessions_inv:
  assumes "idle_ok s" "\<not> power_down (mSystemPowerState s)"
  shows "mux_inv (restartSessions b s)"
proof -
  define s1 where "s1 = (if b then s\<lparr>mOdcpiStateMask := 0\<rparr> else s)\<lparr>mSPEAlreadyRunningAtHighestInterval := False\<rparr>"
  have "calm_base s1" "mTimeBasedTrackingSessions s1 = [] \<longrightarrow> engine s1 = None"
    using assms(1) by (auto simp: s1_def idle_ok_def calm_base_def)
  note r = restart_engine [OF this]
  have "restartSessions b s = checkAndRestartSPESession s1"
    using assms(2) by (simp add: restartSessions_def s1_def Let_def)
  with r show ?thesis by (auto simp: mux_inv_def engine_ok_def)
qed

lemma updatePower_inv:
  assumes "mux_inv s"
  shows "mux_inv (updateSystemPowerState_gnss p s)"
proof (cases "p = POWER_STATE_UNKNOWN")
  case True
  then show ?thesis using assms by (simp add: updateSystemPowerState_gnss_def)
next
  case False
  define s1 where "s1 = s\<lparr>mSystemPowerState := p\<rparr>"
  have s1: "idle_ok s1" "mSystemPowerState s1 = p"
    using mux_inv_idle [OF assms] by (simp_all add: s1_def idle_ok_def calm_base_def)
  show ?thesis
  proof (cases "power_down p")
    case True
    have "mux_inv (suspendSessions s1)"
    proof (cases "mTimeBasedTrackingSessions s1 = []")
      case True
      then show ?thesis using s1 by (simp add: suspendSessions_def mux_inv_def idle_ok_def engine_ok_def want_def)
    next
      case nonempty: False
      have "calm_base (stopTracking NULL 0 s1)"
        by (rule calm_base_change [of s1]) (use s1(1) in \<open>simp_all add: idle_ok_def calm_base_def\<close>)
      moreover have "mSystemPowerState (stopTracking NULL 0 s1) = p"
        by (rule trans [OF env_eqD(3) [OF stopTracking_fields(1)] s1(2)])
      ultimately show ?thesis using nonempty True
        by (simp add: suspendSessions_def mux_inv_def engine_ok_def)
    qed
    then show ?thesis using False True
      by (simp add: updateSystemPowerState_gnss_def Let_def s1_def [symmetric])
  next
    case up: False
    then have "p = POWER_STATE_RESUME \<or> p = POWER_STATE_DEEP_SLEEP_EXIT"
      using False by (cases p) (auto simp: power_down_def)
    moreover have "mux_inv (restartSessions False s1)" using s1 up by (intro restartSessions_inv) simp_all
    ultimately show ?thesis using False up
      by (simp add: updateSystemPowerState_gnss_def Let_def s1_def [symmetric])
  qed
qed

lemma engine_up_inv: "mux_inv s \<Longrightarrow> mux_inv (engine_up_sessions s)"
proof -
  assume inv: "mux_inv s"
  define s2 where "s2 = updateSystemPowerState_gnss (mSystemPowerState s) (setTribandState (s\<lparr>mIsEngineCapabilitiesKnown := True\<rparr>))"
  have s2: "mux_inv s2" unfolding s2_def using inv by (intro updatePower_inv) simp
  then have "mPendingMsgs s2 = []" by (simp add: mux_inv_def calm_base_def)
  then have p: "(fold send_msg (mPendingMsgs s2) s2)\<lparr>mPendingMsgs := []\<rparr> = s2" by simp
  show ?thesis using s2 restartSessions_inv [OF mux_inv_idle [OF s2], of True]
    unfolding engine_up_sessions_def Let_def engine_up_restart_def by (simp add: s2_def [symmetric] p)
qed

lemma lock_inv: "mux_inv s \<Longrightarrow> mux_inv (handleEngineLockStatus l s)"
proof -
  assume inv: "mux_inv s"
  then have "mPendingMsgs s = []" by (simp add: mux_inv_def calm_base_def)
  then have p: "(fold send_msg (mPendingMsgs s) s)\<lparr>mPendingMsgs := []\<rparr> = s" by simp
  show ?thesis using inv restartSessions_inv [OF mux_inv_idle [OF inv], of False]
    by (simp add: handleEngineLockStatus_def Let_def p split: prod.split)
qed

lemma response_inv:
  assumes "mux_inv s" "calm_cont k" "\<not> failed err s"
  shows "mux_inv (response_proc_gnss k err s)"
  using assms by (cases k) (simp_all add: response_proc_gnss_def done_defs)

text \<open>Which events keep a run calm: sessions by time only, numbers that do not wrap, no fixes at
  a higher rate, and the engine takes what it is asked for unless it is locked.\<close>

definition calm :: "gnss_event \<Rightarrow> gnss \<Rightarrow> bool" where
  "calm e s =
     (case e of
        StartTracking c o' \<Rightarrow> c \<noteq> NULL \<and> minDistance o' = 0 \<and> mSessionIdCounter s < 0xFFFFFFFE
      | UpdateTracking c sid o' \<Rightarrow> minDistance o' = 0
      | UpdateNHz b \<Rightarrow> \<not> b
      | Deliver \<Rightarrow> (case queue s of MsgGnssResponse k err # _ \<Rightarrow> \<not> failed err s | _ \<Rightarrow> True)
      | _ \<Rightarrow> True)"

definition calm_step :: "gnss_event \<Rightarrow> gnss \<Rightarrow> gnss option" where
  "calm_step e s = (if calm e s then Some (gnss_step e s) else None)"

lemma mux_inv_send:
  assumes "mux_inv s" "calm_msg m" "start_id m = None"
  shows "mux_inv (send_msg m s)"
  using assms by (simp add: send_msg_def mux_inv_def calm_base_def engine_ok_def keys_ok_def)

lemma start_command_inv:
  assumes "mux_inv s" "c \<noteq> NULL" "minDistance o' = 0" "mSessionIdCounter s < 0xFFFFFFFE"
  shows "mux_inv (snd (startTrackingCommand c o' s))"
proof -
  let ?n = "mSessionIdCounter s + 1"
  have less: "mSessionIdCounter s < ?n" "?n \<noteq> 0xFFFFFFFF"
    using assms(4) by (unat_arith, auto)
  then have n: "generateSessionId (mSessionIdCounter s) = ?n" by (simp add: generateSessionId_def)
  have "\<forall>i. i \<le> mSessionIdCounter s \<longrightarrow> i < ?n" using less(1) by auto
  then show ?thesis using assms(1-3)
    by (auto simp: startTrackingCommand_def Let_def n send_msg_def mux_inv_def calm_base_def engine_ok_def
        keys_ok_def)
qed

lemma pop_inv:
  assumes "mux_inv s" "queue s = m # ms"
  shows "mux_inv (s\<lparr>queue := ms\<rparr>)" "calm_msg m"
    "\<And>i. start_id m = Some i \<Longrightarrow> i \<le> mSessionIdCounter s \<and> i \<notin> set (start_ids ms)
       \<and> (\<forall>k\<in>fst ` set (mTimeBasedTrackingSessions s). sk_id k \<noteq> i)"
  using assms by (auto simp: mux_inv_def calm_base_def engine_ok_def keys_ok_def split: option.splits)

lemma proc_inv:
  assumes inv: "mux_inv s" and q: "queue s = m # ms"
    and ok: "\<And>k err. m = MsgGnssResponse k err \<Longrightarrow> \<not> failed err s"
  shows "mux_inv (proc_gnss m (s\<lparr>queue := ms\<rparr>))"
proof -
  note pop = pop_inv [OF inv q]
  show ?thesis
  proof (cases m)
    case (MsgStartTracking c sid o')
    with pop show ?thesis by (simp add: proc_gnss_def start_proc_inv)
  next
    case (MsgGnssResponse k err)
    with ok have "\<not> failed err (s\<lparr>queue := ms\<rparr>)" by (simp add: failed_def)
    with MsgGnssResponse pop show ?thesis by (simp add: proc_gnss_def response_inv)
  qed (use pop in \<open>simp_all add: proc_gnss_def mux_inv_updates2 remove_client_inv update_proc_inv
         stop_proc_inv updatePower_inv engine_up_inv lock_inv\<close>)
qed

lemma answer_inv:
  assumes "mux_inv s" "n < length (outstanding s)"
  shows "mux_inv (send_msg (MsgGnssResponse (outstanding s ! n) err)
    (s\<lparr>outstanding := take n (outstanding s) @ drop (Suc n) (outstanding s)\<rparr>))"
proof (rule mux_inv_send)
  have calm: "list_all calm_cont (outstanding s)" using assms(1) by (simp add: mux_inv_def calm_base_def)
  then have "list_all calm_cont (take n (outstanding s) @ drop (Suc n) (outstanding s))"
    by (auto simp: list_all_iff dest: in_set_takeD in_set_dropD)
  with assms(1) show "mux_inv (s\<lparr>outstanding := take n (outstanding s) @ drop (Suc n) (outstanding s)\<rparr>)"
    by (intro mux_inv_same [OF assms(1)]) simp_all
  show "calm_msg (MsgGnssResponse (outstanding s ! n) err)"
    using calm assms(2) by (simp add: list_all_length)
qed simp

lemma calm_step_inv: "mux_inv s \<Longrightarrow> calm_step e s = Some s' \<Longrightarrow> mux_inv s'"
proof -
  assume inv: "mux_inv s" and step: "calm_step e s = Some s'"
  then have calm: "calm e s" and s': "s' = gnss_step e s" by (simp_all add: calm_step_def split: if_splits)
  show ?thesis
  proof (cases e)
    case (StartTracking c o')
    with calm inv show ?thesis by (simp add: s' gnss_step_def calm_def start_command_inv)
  next
    case (Answer n err)
    with inv show ?thesis by (simp add: s' gnss_step_def answer_inv)
  next
    case Deliver
    show ?thesis
    proof (cases "queue s")
      case Nil
      with Deliver inv show ?thesis by (simp add: s' gnss_step_def)
    next
      case (Cons m ms)
      from calm Deliver Cons have "\<And>k err. m = MsgGnssResponse k err \<Longrightarrow> \<not> failed err s"
        by (simp add: calm_def)
      from proc_inv [OF inv Cons this] show ?thesis by (simp add: s' gnss_step_def Deliver Cons)
    qed
  next
    case (UpdateNHz b)
    moreover have "\<not> mNHzNeeded s" using inv by (simp add: mux_inv_def calm_base_def)
    ultimately show ?thesis using calm inv by (simp add: s' gnss_step_def calm_def updateNHzRequirement_def)
  qed (use calm inv in \<open>simp_all add: s' gnss_step_def calm_def mux_inv_send mux_inv_updates2
         updateTrackingOptionsCommand_def stopTrackingCommand_def\<close>)
qed

interpretation tracking: invariant_system calm_step mux_inv "\<lambda>_. True"
  by unfold_locales (rule calm_step_inv)

lemma mux_inv_init: "mux_inv (gnss_init c nhz cdfw)"
  by (simp add: gnss_init_def mux_inv_def calm_base_def engine_ok_def keys_ok_def want_def engine_def)

text \<open>
  C3: In every run that starts and updates sessions by time only (no minimum distance, a client
  that is not null), does not turn the requirement of fixes at a higher rate on, starts fewer
  sessions than the counter of session numbers can count, and in which the engine refuses nothing
  unless it is locked, in any order of commands, answers, removals of clients, restarts of the
  engine, lock events and power events: while the device is not powered down, the last request
  to the engine is the lowest of all sessions; and whenever there is no session, powered down or
  not, nothing was asked of the engine or the last thing was to stop.  While the device is powered
  down with sessions nothing is said.
\<close>

theorem engine_follows_sessions:
  assumes "run calm_step evs (gnss_init c nhz cdfw) = Some s"
  shows "mTimeBasedTrackingSessions s = [] \<or> \<not> power_down (mSystemPowerState s) \<longrightarrow>
    engine s = (if mTimeBasedTrackingSessions s = [] then None
                else Some (lowest (requests (mTimeBasedTrackingSessions s))))"
proof -
  have "mux_inv s" by (rule tracking.run_inv [OF mux_inv_init _ assms]) (simp add: list_all_iff)
  then show ?thesis by (simp add: mux_inv_def engine_ok_def want_def)
qed

definition no_gnss_callbacks :: gnss_callbacks where
  "no_gnss_callbacks = \<lparr>cb_response = False, cb_tracking = False, cb_gnssLocationInfo = False,
     cb_engineLocationsInfo = False, cb_gnssMeasurements = False, cb_gnssNHzMeasurements = False,
     cb_gnssData = False, cb_gnssSv = False, cb_gnssNmea = False, cb_gnssDcReport = False,
     cb_gnssSignalTypes = False, cb_engineNmea = False\<rparr>"

definition tracking_client :: gnss_callbacks where
  "tracking_client = no_gnss_callbacks\<lparr>cb_response := True, cb_tracking := True\<rparr>"

definition two_sessions :: "gnss_event list" where
  "two_sessions = [AddClient 1 tracking_client, Deliver, StartTracking 1 (example_tracking 5000), Deliver,
     StartTracking 1 (example_tracking 1000), Deliver]"

definition example_adapter :: gnss where
  "example_adapter = gnss_init example_context False False"

lemma two_sessions_run:
  "map_option (\<lambda>s. (length (mTimeBasedTrackingSessions s), mSystemPowerState s))
     (run calm_step two_sessions example_adapter) = Some (2, POWER_STATE_UNKNOWN)"
  by code_simp

lemma engine_follows_sessions_witness:
  "\<exists>s. run calm_step two_sessions example_adapter = Some s \<and> length (mTimeBasedTrackingSessions s) = 2
     \<and> engine s = Some (lowest (requests (mTimeBasedTrackingSessions s)))"
proof -
  obtain s where s: "run calm_step two_sessions example_adapter = Some s"
    "length (mTimeBasedTrackingSessions s) = 2" "mSystemPowerState s = POWER_STATE_UNKNOWN"
    using two_sessions_run by auto
  with engine_follows_sessions [OF s(1) [unfolded example_adapter_def]] show ?thesis
    by (auto simp: power_down_def)
qed

section \<open>The power state reported\<close>

fun told_after :: "bool option \<Rightarrow> gnss_out \<Rightarrow> bool option" where
  "told_after r (PowerStateCb b) = Some b"
| "told_after r x = r"

definition told :: "gnss \<Rightarrow> bool option" where
  "told s = foldl told_after None (log s)"

text \<open>What the invariant looks at.\<close>

definition pw :: "gnss \<Rightarrow> bool \<times> bool \<times> bool option \<times> sessions \<times> (session_key, location_options) ord_map" where
  "pw s = (mPowerOn s, mPowerStateCb s, told s, sessions_of s)"

definition power_inv :: "gnss \<Rightarrow> bool" where
  "power_inv s \<longleftrightarrow> mPowerOn s = (mTimeBasedTrackingSessions s \<noteq> [] \<or> mDistanceBasedTrackingSessions s \<noteq> [])
     \<and> (mPowerStateCb s \<longrightarrow> told s = Some (mPowerOn s))"

lemma power_inv_cong: "pw s' = pw s \<Longrightarrow> power_inv s' = power_inv s"
  by (simp add: pw_def power_inv_def)

lemma told_fields [simp]: "told (emit x s) = told_after (told s) x"
  "told (emit_if b x s) = (if b then told_after (told s) x else told s)" "told (ask r k s) = told s"
  by (simp_all add: told_def)

lemma told_log: "log s' = log s \<Longrightarrow> told s' = told s"
  by (simp add: told_def)

lemma pw_emit: "told_after (told s) x = told s \<Longrightarrow> pw (emit x s) = pw s"
  "told_after (told s) x = told s \<Longrightarrow> pw (emit_if b x s) = pw s" "pw (ask r k s) = pw s"
  by (simp_all add: pw_def)

lemma pw_updates [simp]:
  "pw (s\<lparr>mLocPositionMode := d\<rparr>) = pw s" "pw (s\<lparr>mSPEAlreadyRunningAtHighestInterval := e\<rparr>) = pw s"
  "pw (s\<lparr>ntrip_stream := f\<rparr>) = pw s" "pw (s\<lparr>mPrevNmeaRptTimeNsec := g\<rparr>) = pw s"
  "pw (s\<lparr>mOdcpiStateMask := h\<rparr>) = pw s" "pw (s\<lparr>outstanding := i\<rparr>) = pw s"
  "pw (s\<lparr>mClientData := j\<rparr>) = pw s" "pw (s\<lparr>mSystemPowerState := k\<rparr>) = pw s"
  "pw (s\<lparr>queue := l\<rparr>) = pw s" "pw (s\<lparr>mPendingMsgs := m\<rparr>) = pw s"
  "pw (s\<lparr>mSessionIdCounter := n\<rparr>) = pw s" "pw (s\<lparr>mEngineLockState := p\<rparr>) = pw s"
  "pw (s\<lparr>mIsEngineCapabilitiesKnown := b'\<rparr>) = pw s" "pw (s\<lparr>now := g\<rparr>) = pw s"
  "pw (s\<lparr>mPpFeatureStatusMask := q, ppeIntEnabled := b'\<rparr>) = pw s" "pw (s\<lparr>mNHzNeeded := b'\<rparr>) = pw s"
  by (simp_all add: pw_def told_def)

lemma pw_ops [simp]:
  "pw (reportResponse_gnss c err sid s) = pw s" "pw (setTribandState s) = pw s" "pw (send_msg m s) = pw s"
  "pw (session_about_to_start o' s) = pw s" "pw (stopTracking c sid s) = pw s" "pw (ask r k s) = pw s"
  by (simp_all add: reportResponse_gnss_def setTribandState_def send_msg_def session_about_to_start_def
      stopTracking_def setLocPositionMode_def Let_def pw_emit split: option.split)

lemma pw_check: "checkAndSetSPEToRunforNHz o' s = (a, t, s') \<Longrightarrow> pw s' = pw s"
  by (auto simp: checkAndSetSPEToRunforNHz_def split: if_splits)

lemma pw_start [simp]:
  "pw (startTimeBasedTracking c sid o' s) = pw s" "pw (updateTracking c sid o' old s) = pw s"
  by (auto simp: startTimeBasedTracking_def updateTracking_def dest: pw_check split: prod.splits)

lemma pw_multiplex:
  "startTimeBasedTrackingMultiplex c sid o' s = (w, s') \<Longrightarrow> pw s' = pw s"
  "updateTrackingMultiplex c sid o' s = (w, s') \<Longrightarrow> pw s' = pw s"
  "stopTimeBasedTrackingMultiplex c sid s = (w, s') \<Longrightarrow> pw s' = pw s"
  by (auto simp: startTimeBasedTrackingMultiplex_def updateTrackingMultiplex_def
      stopTimeBasedTrackingMultiplex_def Let_def split: if_splits option.splits)

lemma pw_fold: "(\<And>x s. pw (f x s) = pw s) \<Longrightarrow> pw (fold f xs s) = pw s"
  by (induction xs arbitrary: s) simp_all

lemma pw_restart [simp]: "pw (checkAndRestartSPESession s) = pw s" "pw (restartSessions b s) = pw s"
  "pw (suspendSessions s) = pw s" "pw (updateSystemPowerState_gnss p s) = pw s"
proof -
  show r: "pw (checkAndRestartSPESession s) = pw s" for s
    by (simp add: checkAndRestartSPESession_def reStartTimeBasedTracking_def Let_def pw_fold split_def)
  show "pw (restartSessions b s) = pw s" for b s by (simp add: restartSessions_def Let_def r)
  moreover show "pw (suspendSessions s) = pw s" for s by (simp add: suspendSessions_def)
  ultimately show "pw (updateSystemPowerState_gnss p s) = pw s"
    by (simp add: updateSystemPowerState_gnss_def Let_def pw_emit)
qed

text \<open>Saving and erasing report what changes.\<close>

lemma report_power_inv:
  assumes "mPowerStateCb s \<longrightarrow> told s = Some (mPowerOn s)"
  shows "power_inv (emit (EventSetTracking b b') (reportPowerStateIfChanged s))"
  using assms by (simp add: power_inv_def reportPowerStateIfChanged_def Let_def told_def)

lemma power_inv_save: "power_inv s \<Longrightarrow> power_inv (saveTrackingSession c sid o' s)"
  by (simp add: saveTrackingSession_def Let_def report_power_inv power_inv_def [of s] told_def)

lemma power_inv_erase: "power_inv s \<Longrightarrow> power_inv (eraseTrackingSession c sid s)"
  by (simp add: eraseTrackingSession_def Let_def report_power_inv power_inv_def [of s] told_def)

lemma power_inv_pw [simp]:
  "power_inv (reportResponse_gnss c err sid s) = power_inv s" "power_inv (setTribandState s) = power_inv s"
  "power_inv (send_msg m s) = power_inv s" "power_inv (ask r k s) = power_inv s"
  "power_inv (checkAndRestartSPESession s) = power_inv s" "power_inv (restartSessions b s) = power_inv s"
  "power_inv (updateSystemPowerState_gnss p s) = power_inv s"
  "power_inv (s\<lparr>ntrip_stream := f\<rparr>) = power_inv s" "power_inv (s\<lparr>mClientData := j\<rparr>) = power_inv s"
  "power_inv (s\<lparr>queue := l\<rparr>) = power_inv s" "power_inv (s\<lparr>mPendingMsgs := m'\<rparr>) = power_inv s"
  "power_inv (s\<lparr>mIsEngineCapabilitiesKnown := b\<rparr>) = power_inv s"
  "power_inv (s\<lparr>mSessionIdCounter := n\<rparr>) = power_inv s" "power_inv (s\<lparr>mEngineLockState := l'\<rparr>) = power_inv s"
  "power_inv (s\<lparr>outstanding := i\<rparr>) = power_inv s" "power_inv (s\<lparr>now := t\<rparr>) = power_inv s"
  "power_inv (s\<lparr>mPpFeatureStatusMask := q, ppeIntEnabled := b\<rparr>) = power_inv s"
  "power_inv (s\<lparr>mNHzNeeded := b\<rparr>) = power_inv s" "power_inv (emit_if b (RemoveClientDone c) s) = power_inv s"
  "power_inv (emit (UpdateLockStatus g) s) = power_inv s"
  by (rule power_inv_cong; simp add: pw_emit)+

lemma power_inv_multiplex:
  "startTimeBasedTrackingMultiplex c sid o' s = (w, s') \<Longrightarrow> power_inv s \<Longrightarrow> power_inv s'"
  "updateTrackingMultiplex c sid o' s = (w, s') \<Longrightarrow> power_inv s \<Longrightarrow> power_inv s'"
  "stopTimeBasedTrackingMultiplex c sid s = (w, s') \<Longrightarrow> power_inv s \<Longrightarrow> power_inv s'"
  using power_inv_cong [OF pw_multiplex(1)] power_inv_cong [OF pw_multiplex(2)]
    power_inv_cong [OF pw_multiplex(3)] by blast+

lemma power_inv_cases:
  assumes "power_inv s" "\<And>w s'. power_inv s' \<Longrightarrow> power_inv (f w s')"
  shows "power_inv (case startTimeBasedTrackingMultiplex c sid o' s of (w, s') \<Rightarrow> f w s')"
    "power_inv (case updateTrackingMultiplex c sid o' s of (w, s') \<Rightarrow> f w s')"
    "power_inv (case stopTimeBasedTrackingMultiplex c sid s of (w, s') \<Rightarrow> f w s')"
  using assms(2) power_inv_multiplex [OF _ assms(1)] by (auto split: prod.split)

lemma power_inv_if: "(b \<Longrightarrow> power_inv s) \<Longrightarrow> (\<not> b \<Longrightarrow> power_inv s') \<Longrightarrow> power_inv (if b then s else s')"
  by simp

lemma power_inv_pending [simp]: "power_inv (s\<lparr>mPendingMsgs := f (mPendingMsgs s)\<rparr>) = power_inv s"
  by simp

lemmas power_inv_intros = power_inv_if power_inv_cases power_inv_save power_inv_erase

lemma power_inv_fold: "(\<And>x s. power_inv s \<Longrightarrow> power_inv (f x s)) \<Longrightarrow> power_inv s \<Longrightarrow> power_inv (fold f xs s)"
  by (induction xs arbitrary: s) simp_all

lemma power_inv_start: "power_inv s \<Longrightarrow> power_inv (start_proc c sid o' s)"
  unfolding start_proc_def Let_def
  by (intro power_inv_intros) (simp_all add: power_inv_save)

lemma power_inv_update: "power_inv s \<Longrightarrow> power_inv (update_proc c sid o' s)"
  unfolding update_proc_def Let_def
  by (intro power_inv_intros) (simp_all add: power_inv_save power_inv_erase power_inv_intros)

lemma power_inv_stop: "power_inv s \<Longrightarrow> power_inv (stop_proc c sid s)"
  unfolding stop_proc_def Let_def
  by (intro power_inv_intros) (simp_all add: power_inv_erase)

lemma power_inv_stop_client: "power_inv s \<Longrightarrow> power_inv (stopClientSessions_gnss c b s)"
proof -
  assume s: "power_inv s"
  have step: "power_inv (let s' = snd (stopTimeBasedTrackingMultiplex (sk_client k) (sk_id k) s)
      in if b then eraseTrackingSession (sk_client k) (sk_id k) s' else s')" if "power_inv s" for k s
    using power_inv_multiplex(3) [OF surjective_pairing that] by (simp add: Let_def power_inv_erase)
  show "power_inv (stopClientSessions_gnss c b s)"
    unfolding stopClientSessions_gnss_def Let_def
    by (rule power_inv_fold, simp, rule power_inv_fold [OF step [unfolded Let_def] s])
qed

lemma pw_send_all: "power_inv (fold send_msg ms s) = power_inv s"
  by (induction ms arbitrary: s) simp_all

lemma power_inv_engine_up: "power_inv s \<Longrightarrow> power_inv (engine_up_sessions s)"
  by (simp add: engine_up_sessions_def engine_up_restart_def Let_def pw_send_all)

lemma power_inv_lock: "power_inv s \<Longrightarrow> power_inv (handleEngineLockStatus l s)"
  by (simp add: handleEngineLockStatus_def Let_def pw_send_all)

lemma power_inv_response: "power_inv s \<Longrightarrow> power_inv (response_proc_gnss k err s)"
  by (cases k) (auto simp: response_proc_gnss_def done_defs Let_def power_inv_save power_inv_erase split: prod.splits
      intro!: power_inv_save dest: power_inv_multiplex(1))

lemma power_inv_told:
  "power_inv s \<Longrightarrow> power_inv (emit (PowerStateCb (mPowerOn s)) (s\<lparr>mPowerStateCb := b\<rparr>))"
  by (simp add: power_inv_def)

lemma power_inv_proc: "power_inv s \<Longrightarrow> power_inv (proc_gnss m s)"
  by (cases m) (simp_all add: proc_gnss_def remove_client_gnss_def Let_def power_inv_start power_inv_update
      power_inv_stop power_inv_stop_client power_inv_engine_up power_inv_lock power_inv_response power_inv_told)

lemma power_inv_step: "power_inv s \<Longrightarrow> power_inv (gnss_step e s)"
  by (cases e) (auto simp: gnss_step_def startTrackingCommand_def updateTrackingOptionsCommand_def
      stopTrackingCommand_def updateNHzRequirement_def Let_def power_inv_proc split: list.split)

interpretation power: total_system "\<lambda>e s. Some (gnss_step e s)" power_inv "\<lambda>_. True"
  by unfold_locales (auto simp: power_inv_step)

lemma power_inv_init: "power_inv (gnss_init c nhz cdfw)"
  by (simp add: power_inv_def gnss_init_def)

text \<open>
  C23: In every run of the adapter, failures and power events included, the power state it keeps says
  whether there is a session of either kind, and once a callback is registered the last value
  reported to it is the current one.
\<close>

theorem power_state_is_reported:
  "let s = foldl (\<lambda>s e. gnss_step e s) (gnss_init c nhz cdfw) evs
   in (mPowerOn s \<longleftrightarrow> \<not> (mTimeBasedTrackingSessions s = [] \<and> mDistanceBasedTrackingSessions s = []))
      \<and> (if mPowerStateCb s then told s = Some (mPowerOn s) else True)"
proof -
  have "run (\<lambda>e s. Some (gnss_step e s)) evs s0 = Some (foldl (\<lambda>s e. gnss_step e s) s0 evs)" for s0
    by (induction evs arbitrary: s0) simp_all
  then have "power_inv (foldl (\<lambda>s e. gnss_step e s) (gnss_init c nhz cdfw) evs)"
    using power.run_total [OF power_inv_init, of evs c nhz cdfw] by (simp add: list_all_iff)
  then show ?thesis by (simp add: power_inv_def Let_def)
qed

section \<open>Runs that go wrong\<close>

definition run_of :: "gnss_event list \<Rightarrow> gnss" where
  "run_of evs = foldl (\<lambda>s e. gnss_step e s) example_adapter evs"

definition one_session :: "gnss_event list" where
  "one_session = [AddClient 1 tracking_client, Deliver, StartTracking 1 (example_tracking 5000), Deliver,
     SetLock ENGINE_LOCK_STATE_ENABLED]"

definition update_fails_after_stop :: "gnss_event list" where
  "update_fails_after_stop = one_session @ [UpdateTracking 1 2 (example_tracking 2000), Deliver,
     StopTracking 1 2, Deliver, Answer 1 LOCATION_ERROR_GENERAL_FAILURE, Deliver]"

text \<open>
  An update that fails after its session was stopped saves the session again: the adapter counts
  a session that its client has stopped, while the engine is stopped.
\<close>

theorem failed_update_revives_session:
  "(case run_of update_fails_after_stop of s \<Rightarrow>
      (isTimeBasedTrackingSession 1 2 s, mPowerOn s, engine s)) = (True, True, None)"
  by code_simp

definition start_fails :: "gnss_event list" where
  "start_fails = one_session @ [StartTracking 1 (example_tracking 1000), Deliver,
     Answer 1 LOCATION_ERROR_GENERAL_FAILURE, Deliver]"

text \<open>
  A start in addition to running sessions that the engine refuses, and a start while the device is
  suspended, leave the engine asked for something else than the sessions need.
\<close>

theorem start_leaves_engine_behind:
  "(case run_of start_fails of s \<Rightarrow> (map (minInterval \<circ> snd) (mTimeBasedTrackingSessions s), engine s))
     = ([5000], Some (1000, 2, 0, 0))
   \<and> (case run_of (one_session @ [UpdatePower POWER_STATE_SUSPEND, Deliver,
         StartTracking 1 (example_tracking 1000), Deliver]) of s \<Rightarrow> (mSystemPowerState s, engine s))
     = (POWER_STATE_SUSPEND, Some (1000, 2, 0, 0))"
  by code_simp

text \<open>A client without callbacks gets no answer to a start.\<close>

lemma start_without_callbacks:
  "mIsEngineCapabilitiesKnown s \<Longrightarrow> \<not> hasCallbacksToStartTracking c s \<Longrightarrow> start_proc c sid o' s = s"
  by (simp add: start_proc_def)

end
