(* ===== verification/BatchingAdapter.thy ===== *)
theory BatchingAdapter
  imports TrackingOptions Steps
begin

text \<open>
  \<^verbatim>\<open>gps/batching/BatchingAdapter.cpp\<close>: sessions that collect positions in the modem, and the trips
  that share one batch there.

  Messages, requests and answers are as in the other adapters.  The end of a map that is
  dereferenced is \<open>None\<close>.  When trips complete, the code reads the erased entries; what the freed
  memory holds then is an argument of that event.
\<close>

section \<open>Data\<close>

record batching_options = location_options +
  batchingMode :: u32

definition BATCHING_MODE_ROUTINE :: u32 where "BATCHING_MODE_ROUTINE = 0"
definition BATCHING_MODE_TRIP :: u32 where "BATCHING_MODE_TRIP = 1"
definition BATCHING_MODE_NO_AUTO_REPORT :: u32 where "BATCHING_MODE_NO_AUTO_REPORT = 2"

lemmas batching_modes = BATCHING_MODE_ROUTINE_def BATCHING_MODE_TRIP_def BATCHING_MODE_NO_AUTO_REPORT_def

definition default_batching :: batching_options where
  "default_batching = \<lparr>opt_size = 0, minInterval = 0, minDistance = 0, opt_mode = 0,
     locReqEngTypeMask = 0, qualityLevelAccepted = 0, batchingMode = BATCHING_MODE_ROUTINE\<rparr>"

record trip_status =
  accumulatedDistanceOngoingBatch :: u32
  accumulatedDistanceThisTrip :: u32
  accumulatedDistanceOnTripRestart :: u32
  tripDistance :: u32
  tripTBFInterval :: u32

datatype batch_request =
    StartBatching u32 batching_options u32 u32
  | StopBatching u32
  | StartOutdoorTripBatching u32 u32 u32
  | ReStartOutdoorTripBatching u32 u32 u32
  | StopOutdoorTripBatching bool
  | QueryAccumulatedTripDistance
  | GetBatchedLocations u64
  | GetBatchedTripLocations u64 u32
  | SetBatchSize u64
  | SetTripBatchSize u64

datatype batch_cont =
    Started client u32 batching_options
  | Stopped client u32 batching_options bool batching_options bool
  | TripStarted client u32 batching_options
  | TripQueried client u32 batching_options
  | TripReStarted client u32
  | TripStopped bool client u32 batching_options bool
  | RestartQueried bool u32 u32 u32 u32
  | BatchReStarted u32 u32 u32
  | SessionsRestarted
  | Got client u32
  | Ignored

datatype batch_msg =
    MsgAddClient client location_callbacks
  | MsgRemoveClient client bool
  | MsgReadConfig u64 u64 u32 u32
  | MsgSetConfig
  | MsgStartBatching client u32 batching_options
  | MsgUpdateBatching client u32 batching_options
  | MsgStopBatching client u32
  | MsgGetBatchedLocations client u32 u64
  | MsgReportLocations "nat list" u32
  | MsgReportCompletedTrips u32 "u32 \<Rightarrow> trip_status"
  | MsgReportBatchStatus u32
  | MsgUpdateSystemPowerState power_state
  | MsgEngineLockStateEvent engine_lock_state
  | MsgSSREvent
  | MsgBatchResponse batch_cont location_error u32 u32

datatype batch_out =
    Request batch_request
  | UpdateEvtMask u64
  | Response client location_error u32
  | Capabilities client u64
  | RemoveClientDone client
  | BatchingCb client "nat list" u32
  | BatchingStatusCb client u32 "u32 list"

record batching =
  mBatchingSessions :: "(session_key, batching_options) ord_map"
  mTripSessions :: "(u32, trip_status) ord_map"
  mOngoingTripDistance :: u32
  mOngoingTripTBFInterval :: u32
  mTripWithOngoingTBFDropped :: bool
  mTripWithOngoingTripDistanceDropped :: bool
  mSystemPowerState :: power_state
  mBatchingTimeout :: u32
  mBatchingAccuracy :: u32
  mBatchSize :: u64
  mTripBatchSize :: u64
  mClientData :: client_data
  mEvtMask :: u64
  mIsEngineCapabilitiesKnown :: bool
  mContext :: context_base
  mEngineLockState :: engine_lock_state
  mPendingMsgs :: "batch_msg list"
  mSessionIdCounter :: u32
  queue :: "batch_msg list"
  outstanding :: "batch_cont list"
  log :: "batch_out list"

definition emit :: "batch_out \<Rightarrow> batching \<Rightarrow> batching" where
  "emit x s = s\<lparr>log := log s @ [x]\<rparr>"

definition ask :: "batch_request \<Rightarrow> batch_cont \<Rightarrow> batching \<Rightarrow> batching" where
  "ask r k s = (emit (Request r) s)\<lparr>outstanding := outstanding s @ [k]\<rparr>"

definition send_msg :: "batch_msg \<Rightarrow> batching \<Rightarrow> batching" where
  "send_msg m s = s\<lparr>queue := queue s @ [m]\<rparr>"

section \<open>Sessions\<close>

definition BATCH_FULL :: u64 where "BATCH_FULL = push_bit 19 1"
definition BATCH_STATUS :: u64 where "BATCH_STATUS = push_bit 30 1"

definition updateEvtMask :: "u64 \<Rightarrow> mask_status \<Rightarrow> batching \<Rightarrow> batching" where
  "updateEvtMask event status s =
     (let m = new_evt_mask event status (mEvtMask s) in emit (UpdateEvtMask m) (s\<lparr>mEvtMask := m\<rparr>))"

text \<open>A trip that is in both tables counts twice.\<close>

definition autoReportBatchingSessionsCount :: "batching \<Rightarrow> nat" where
  "autoReportBatchingSessionsCount s =
     length (filter (\<lambda>e. batchingMode (snd e) \<noteq> BATCHING_MODE_NO_AUTO_REPORT) (mBatchingSessions s))
     + length (mTripSessions s)"

definition updateClientsEventMask_batching :: "batching \<Rightarrow> batching" where
  "updateClientsEventMask_batching s =
     (let m = (if list_ex (\<lambda>e. batchingCb (snd e)) (mClientData s) then BATCH_STATUS else 0);
          m' = (if 0 < autoReportBatchingSessionsCount s then m OR BATCH_FULL else m)
      in updateEvtMask m' LOC_REGISTRATION_MASK_SET s)"

definition hasBatchingCallback :: "client \<Rightarrow> batching \<Rightarrow> bool" where
  "hasBatchingCallback client s =
     (case om_get client (mClientData s) of Some cb \<Rightarrow> batchingCb cb | None \<Rightarrow> False)"

definition isBatchingSession :: "client \<Rightarrow> u32 \<Rightarrow> batching \<Rightarrow> bool" where
  "isBatchingSession client sid s = (om_get (SessionKey client sid) (mBatchingSessions s) \<noteq> None)"

definition isTripSession :: "u32 \<Rightarrow> batching \<Rightarrow> bool" where
  "isTripSession sid s = (om_get sid (mTripSessions s) \<noteq> None)"

definition saveBatchingSession :: "client \<Rightarrow> u32 \<Rightarrow> batching_options \<Rightarrow> batching \<Rightarrow> batching" where
  "saveBatchingSession client sid o' s =
     s\<lparr>mBatchingSessions := om_put (SessionKey client sid) o' (mBatchingSessions s)\<rparr>"

definition eraseBatchingSession :: "client \<Rightarrow> u32 \<Rightarrow> batching \<Rightarrow> batching" where
  "eraseBatchingSession client sid s =
     s\<lparr>mBatchingSessions := om_erase (SessionKey client sid) (mBatchingSessions s)\<rparr>"

definition reportResponse_batching :: "client \<Rightarrow> location_error \<Rightarrow> u32 \<Rightarrow> batching \<Rightarrow> batching" where
  "reportResponse_batching client err sid s =
     (case om_get client (mClientData s) of
        Some cb \<Rightarrow> if responseCb cb then emit (Response client err sid) s else s
      | None \<Rightarrow> s)"

section \<open>Batching\<close>

definition startBatching :: "client \<Rightarrow> u32 \<Rightarrow> batching_options \<Rightarrow> batching \<Rightarrow> batching" where
  "startBatching client sid o' s =
     (let s1 = (if batchingMode o' \<noteq> BATCHING_MODE_NO_AUTO_REPORT \<and> autoReportBatchingSessionsCount s = 0
                then updateEvtMask BATCH_FULL LOC_REGISTRATION_MASK_ENABLED s else s);
          s2 = saveBatchingSession client sid o' s1
      in ask (StartBatching sid o' (mBatchingAccuracy s2) (mBatchingTimeout s2)) (Started client sid o') s2)"

definition failed_batching :: "location_error \<Rightarrow> batching \<Rightarrow> bool" where
  "failed_batching err s = (mEngineLockState s \<noteq> ENGINE_LOCK_STATE_DISABLED \<and> err \<noteq> LOCATION_ERROR_SUCCESS)"

definition started :: "client \<Rightarrow> u32 \<Rightarrow> batching_options \<Rightarrow> location_error \<Rightarrow> batching \<Rightarrow> batching" where
  "started client sid o' err s =
     (let s1 = (if failed_batching err s then eraseBatchingSession client sid s else s);
          s2 = (if err \<noteq> LOCATION_ERROR_SUCCESS \<and> batchingMode o' \<noteq> BATCHING_MODE_NO_AUTO_REPORT
                   \<and> autoReportBatchingSessionsCount s1 = 0
                then updateEvtMask BATCH_FULL LOC_REGISTRATION_MASK_DISABLED s1 else s1)
      in reportResponse_batching client err sid s2)"

definition stopBatching ::
  "client \<Rightarrow> u32 \<Rightarrow> bool \<Rightarrow> batching_options \<Rightarrow> bool \<Rightarrow> batching \<Rightarrow> batching" where
  "stopBatching client sid restartNeeded batchOptions eraseSession s =
     (case om_get (SessionKey client sid) (mBatchingSessions s) of
        None \<Rightarrow> s
      | Some flpOptions \<Rightarrow>
          ask (StopBatching sid) (Stopped client sid flpOptions restartNeeded batchOptions eraseSession)
            (if eraseSession then eraseBatchingSession client sid s else s))"

section \<open>Trips\<close>

definition startTripBatchingMultiplex :: "client \<Rightarrow> u32 \<Rightarrow> batching_options \<Rightarrow> batching \<Rightarrow> batching" where
  "startTripBatchingMultiplex client sid o' s =
     (if mTripSessions s = [] then let
        s1 = (if autoReportBatchingSessionsCount s = 0
              then updateEvtMask BATCH_FULL LOC_REGISTRATION_MASK_ENABLED s else s);
        s2 = saveBatchingSession client sid o' s1;
        s3 = s2\<lparr>mTripSessions := om_put sid
               \<lparr>accumulatedDistanceOngoingBatch = 0, accumulatedDistanceThisTrip = 0,
                accumulatedDistanceOnTripRestart = 0, tripDistance = minDistance o',
                tripTBFInterval = minInterval o'\<rparr> (mTripSessions s2)\<rparr>
      in ask (StartOutdoorTripBatching (minDistance o') (minInterval o') (mBatchingTimeout s3))
           (TripStarted client sid o') s3
      else ask QueryAccumulatedTripDistance (TripQueried client sid o') s)"

definition trip_started :: "client \<Rightarrow> u32 \<Rightarrow> batching_options \<Rightarrow> location_error \<Rightarrow> batching \<Rightarrow> batching" where
  "trip_started client sid o' err s =
     reportResponse_batching client err sid
       (if \<not> failed_batching err s
        then s\<lparr>mOngoingTripDistance := minDistance o', mOngoingTripTBFInterval := minInterval o'\<rparr>
        else let
          s1 = eraseBatchingSession client sid s;
          s2 = s1\<lparr>mTripSessions := om_erase sid (mTripSessions s1)\<rparr>
        in if autoReportBatchingSessionsCount s2 = 0
           then updateEvtMask BATCH_FULL LOC_REGISTRATION_MASK_DISABLED s2 else s2)"

definition rebase_trip :: "trip_status \<Rightarrow> trip_status" where
  "rebase_trip t = t\<lparr>accumulatedDistanceOngoingBatch := 0,
     accumulatedDistanceOnTripRestart := accumulatedDistanceThisTrip t\<rparr>"

text \<open>The session is saved only when the distance is known, and only as a trip.\<close>

definition trip_queried ::
  "client \<Rightarrow> u32 \<Rightarrow> batching_options \<Rightarrow> location_error \<Rightarrow> u32 \<Rightarrow> batching \<Rightarrow> batching" where
  "trip_queried client sid o' err accumulated s =
     (let interval0 = mOngoingTripTBFInterval s;
          distance0 = mOngoingTripDistance s;
          shorter = minInterval o' < interval0;
          interval = (if shorter then minInterval o' else interval0);
          newTrip = \<lparr>accumulatedDistanceOngoingBatch = accumulated, accumulatedDistanceThisTrip = 0,
            accumulatedDistanceOnTripRestart = 0, tripDistance = minDistance o',
            tripTBFInterval = minInterval o'\<rparr>;
          remaining = distance0 - accumulated;
          (distance, needsRestart, s1) =
            (if err \<noteq> LOCATION_ERROR_SUCCESS
             then (if minDistance o' < distance0 then (minDistance o', True, s) else (distance0, shorter, s))
             else (let s' = s\<lparr>mTripSessions := om_put sid newTrip (mTripSessions s)\<rparr>
                   in if minDistance o' < remaining then (minDistance o', True, s')
                      else if shorter then (remaining, True, s')
                      else (distance0, False, s')))
      in if needsRestart
         then ask (ReStartOutdoorTripBatching distance interval (mBatchingTimeout s1)) (TripReStarted client sid)
                (s1\<lparr>mOngoingTripDistance := distance, mOngoingTripTBFInterval := interval,
                    mTripSessions := map (\<lambda>(i, t). (i, rebase_trip t)) (mTripSessions s1)\<rparr>)
         else reportResponse_batching client LOCATION_ERROR_SUCCESS sid s1)"

text \<open>The least remaining distance and interval; zero counts as not set yet.\<close>

fun least_loop :: "(u32 \<times> trip_status) list \<Rightarrow> u32 \<times> u32 \<Rightarrow> u32 \<times> u32" where
  "least_loop [] (d, i) = (d, i)"
| "least_loop ((_, t) # es) (d, i) =
     (let r = tripDistance t - accumulatedDistanceThisTrip t
      in least_loop es
        (if d = 0 \<or> r < d then r else d,
         if i = 0 \<or> tripTBFInterval t < i then tripTBFInterval t else i))"

definition restartTripBatching :: "bool \<Rightarrow> u32 \<Rightarrow> u32 \<Rightarrow> batching \<Rightarrow> batching" where
  "restartTripBatching query accDist numbatchedPos s =
     (if mTripSessions s = [] then let
        s1 = (ask (StopOutdoorTripBatching True) Ignored s)
               \<lparr>mOngoingTripDistance := 0, mOngoingTripTBFInterval := 0\<rparr>
      in if autoReportBatchingSessionsCount s1 = 0
         then updateEvtMask BATCH_FULL LOC_REGISTRATION_MASK_DISABLED s1 else s1
      else case least_loop (mTripSessions s) (0, 0) of (d, i) \<Rightarrow>
        ask QueryAccumulatedTripDistance (RestartQueried query d i accDist numbatchedPos) s)"

definition restart_queried :: "bool \<Rightarrow> u32 \<Rightarrow> u32 \<Rightarrow> u32 \<Rightarrow> u32 \<Rightarrow> batching \<Rightarrow> batching" where
  "restart_queried query minRemainingDistance minTBFInterval accDist accumulated s =
     (let accumulatedDistance = (if query then accumulated else accDist);
          distance0 = mOngoingTripDistance s;
          interval0 = mOngoingTripTBFInterval s;
          (distance, restart1) =
            (if \<not> mTripWithOngoingTripDistanceDropped s \<and> distance0 - accumulatedDistance \<noteq> 0
             then (if minRemainingDistance < distance0 - accumulatedDistance
                   then (minRemainingDistance, True) else (distance0, False))
             else if minRemainingDistance \<noteq> 0 then (minRemainingDistance, True)
             else (distance0, False));
          (interval, restart2) =
            (if minTBFInterval < interval0 \<or> (minTBFInterval \<noteq> interval0 \<and> mTripWithOngoingTBFDropped s)
             then (minTBFInterval, True) else (interval0, False))
      in if restart1 \<or> restart2
         then ask (ReStartOutdoorTripBatching distance interval (mBatchingTimeout s))
                (BatchReStarted accumulatedDistance distance interval) s
         else s)"

definition batch_restarted :: "u32 \<Rightarrow> u32 \<Rightarrow> u32 \<Rightarrow> location_error \<Rightarrow> batching \<Rightarrow> batching" where
  "batch_restarted accumulatedDistance distance interval err s =
     (if err = LOCATION_ERROR_SUCCESS
      then s\<lparr>mTripSessions := map (\<lambda>(i, t). (i, rebase_trip (t\<lparr>accumulatedDistanceThisTrip :=
                 accumulatedDistanceOnTripRestart t
                 + (accumulatedDistance - accumulatedDistanceOngoingBatch t)\<rparr>))) (mTripSessions s),
             mOngoingTripDistance := distance, mOngoingTripTBFInterval := interval\<rparr>
      else s)"

text \<open>\<open>find\<close> is dereferenced without a look at the end of the map.\<close>

definition stopTripBatchingMultiplexCommon ::
  "location_error \<Rightarrow> client \<Rightarrow> u32 \<Rightarrow> bool \<Rightarrow> batching_options \<Rightarrow> bool \<Rightarrow> batching \<Rightarrow> batching option" where
  "stopTripBatchingMultiplexCommon err client sid restartNeeded batchOptions eraseSession s = do {
     tripSess \<leftarrow> om_get sid (mTripSessions s);
     let s1 = (if tripTBFInterval tripSess = mOngoingTripTBFInterval s
               then s\<lparr>mTripWithOngoingTBFDropped := True\<rparr> else s);
     let s2 = (if tripDistance tripSess = mOngoingTripDistance s1
               then s1\<lparr>mTripWithOngoingTripDistanceDropped := True\<rparr> else s1);
     let s3 = (if eraseSession then s2\<lparr>mTripSessions := om_erase sid (mTripSessions s2)\<rparr> else s2);
     let s4 = (if mTripSessions s3 = [] then s3\<lparr>mOngoingTripDistance := 0, mOngoingTripTBFInterval := 0\<rparr>
               else restartTripBatching True 0 0 s3);
     let s5 = (if restartNeeded then let
          s' = eraseBatchingSession client sid s4
        in if batchingMode batchOptions = BATCHING_MODE_ROUTINE
              \<or> batchingMode batchOptions = BATCHING_MODE_NO_AUTO_REPORT
           then startBatching client sid batchOptions s'
           else if batchingMode batchOptions = BATCHING_MODE_TRIP
           then startTripBatchingMultiplex client sid batchOptions s'
           else s'
        else s4);
     Some (reportResponse_batching client err sid s5) }"

definition stopTripBatchingMultiplex ::
  "client \<Rightarrow> u32 \<Rightarrow> bool \<Rightarrow> batching_options \<Rightarrow> bool \<Rightarrow> batching \<Rightarrow> batching option" where
  "stopTripBatchingMultiplex client sid restartNeeded batchOptions eraseSession s =
     (if length (mTripSessions s) = 1
      then Some (ask (StopOutdoorTripBatching True)
             (TripStopped restartNeeded client sid batchOptions eraseSession) s)
      else stopTripBatchingMultiplexCommon LOCATION_ERROR_SUCCESS client sid restartNeeded batchOptions
             eraseSession s)"

definition trip_stopped ::
  "bool \<Rightarrow> client \<Rightarrow> u32 \<Rightarrow> batching_options \<Rightarrow> bool \<Rightarrow> location_error \<Rightarrow> batching \<Rightarrow> batching option" where
  "trip_stopped restartNeeded client sid batchOptions eraseSession err s =
     stopTripBatchingMultiplexCommon err client sid restartNeeded batchOptions eraseSession
       (if err = LOCATION_ERROR_SUCCESS \<and> autoReportBatchingSessionsCount s = 1
        then updateEvtMask BATCH_FULL LOC_REGISTRATION_MASK_DISABLED s else s)"

text \<open>A failed stop restores the session with the options of the restart, not with its own.\<close>

definition stopped ::
  "client \<Rightarrow> u32 \<Rightarrow> batching_options \<Rightarrow> bool \<Rightarrow> batching_options \<Rightarrow> bool \<Rightarrow> location_error
     \<Rightarrow> batching \<Rightarrow> batching" where
  "stopped client sid flpOptions restartNeeded batchOptions eraseSession err s =
     reportResponse_batching client err sid
       (if failed_batching err s
        then (if eraseSession then saveBatchingSession client sid batchOptions s else s)
        else let
          s1 = (if autoReportBatchingSessionsCount s = 0
                   \<and> batchingMode flpOptions \<noteq> BATCHING_MODE_NO_AUTO_REPORT
                then updateEvtMask BATCH_FULL LOC_REGISTRATION_MASK_DISABLED s else s)
        in if restartNeeded then
             (if batchingMode batchOptions = BATCHING_MODE_ROUTINE
                 \<or> batchingMode batchOptions = BATCHING_MODE_NO_AUTO_REPORT
              then startBatching client sid batchOptions s1
              else if batchingMode batchOptions = BATCHING_MODE_TRIP
              then startTripBatchingMultiplex client sid batchOptions s1
              else s1)
           else s1)"

section \<open>Clients, restarts and power\<close>

definition stop_one :: "bool \<Rightarrow> session_key \<times> u32 \<Rightarrow> batching \<Rightarrow> batching option" where
  "stop_one eraseSession e s =
     (if snd e \<noteq> BATCHING_MODE_TRIP
      then Some (stopBatching (sk_client (fst e)) (sk_id (fst e)) False default_batching eraseSession s)
      else stopTripBatchingMultiplex (sk_client (fst e)) (sk_id (fst e)) False default_batching eraseSession s)"

definition stopClientSessions_batching :: "client \<Rightarrow> bool \<Rightarrow> batching \<Rightarrow> batching option" where
  "stopClientSessions_batching client eraseSession s =
     run (stop_one eraseSession)
       (map (\<lambda>(k, o'). (k, batchingMode o')) (filter (\<lambda>e. sk_client (fst e) = client) (mBatchingSessions s))) s"

definition suspendBatchingSessions :: "batching \<Rightarrow> batching option" where
  "suspendBatchingSessions s =
     run (\<lambda>k. stopClientSessions_batching (sk_client k) False) (map fst (mBatchingSessions s)) s"

text \<open>The loop over the trips works on copies, so that nothing is reset in the table.\<close>

definition restartSessions_batching :: "batching \<Rightarrow> batching" where
  "restartSessions_batching s =
     (let s1 = (if 0 < autoReportBatchingSessionsCount s
                then updateEvtMask BATCH_FULL LOC_REGISTRATION_MASK_ENABLED s else s);
          s2 = fold (\<lambda>(k, o') s. if batchingMode o' \<noteq> BATCHING_MODE_TRIP
                 then ask (StartBatching (sk_id k) o' (mBatchingAccuracy s) (mBatchingTimeout s)) Ignored s
                 else s) (mBatchingSessions s1) s1
      in if mTripSessions s2 \<noteq> []
         then (case least_loop (mTripSessions s2) (0, 0) of (d, i) \<Rightarrow>
           ask (StartOutdoorTripBatching d i (mBatchingTimeout s2)) SessionsRestarted
             (s2\<lparr>mOngoingTripDistance := d, mOngoingTripTBFInterval := i\<rparr>))
         else s2)"

definition sessions_restarted :: "location_error \<Rightarrow> batching \<Rightarrow> batching" where
  "sessions_restarted err s =
     (if err \<noteq> LOCATION_ERROR_SUCCESS
      then s\<lparr>mOngoingTripDistance := 0, mOngoingTripTBFInterval := 0\<rparr> else s)"

definition power_down :: "power_state \<Rightarrow> bool" where
  "power_down p = (p = POWER_STATE_SUSPEND \<or> p = POWER_STATE_DEEP_SLEEP_ENTRY \<or> p = POWER_STATE_SHUTDOWN)"

definition updateSystemPowerState_batching :: "power_state \<Rightarrow> batching \<Rightarrow> batching option" where
  "updateSystemPowerState_batching p s =
     (if p = POWER_STATE_UNKNOWN then Some s
      else let s1 = s\<lparr>mSystemPowerState := p\<rparr>
        in if power_down p then suspendBatchingSessions s1
           else if p = POWER_STATE_RESUME \<or> p = POWER_STATE_DEEP_SLEEP_EXIT
           then Some (restartSessions_batching s1)
           else Some s1)"

definition send_pending :: "batching \<Rightarrow> batching" where
  "send_pending s = (fold send_msg (mPendingMsgs s) s)\<lparr>mPendingMsgs := []\<rparr>"

definition handleEngineLockStatus_batching :: "engine_lock_state \<Rightarrow> batching \<Rightarrow> batching" where
  "handleEngineLockStatus_batching st s =
     (if st \<noteq> ENGINE_LOCK_STATE_DISABLED
      then let s1 = send_pending s
           in if \<not> power_down (mSystemPowerState s1) then restartSessions_batching s1 else s1
      else s)"

definition set_sizes :: "batching \<Rightarrow> batching" where
  "set_sizes s = emit (Request (SetTripBatchSize (mTripBatchSize s)))
     (emit (Request (SetBatchSize (mBatchSize s))) s)"

definition ssr_proc_batching :: "batching \<Rightarrow> batching" where
  "ssr_proc_batching s =
     (let s1 = s\<lparr>mIsEngineCapabilitiesKnown := True\<rparr>;
          s2 = set_sizes (fold (\<lambda>c. emit (Capabilities c
                  (getCapabilities (mIsEngineCapabilitiesKnown s1) 0 (mContext s1))))
                 (broadcastCapabilities (mClientData s1)) s1)
      in if mEngineLockState s2 \<noteq> ENGINE_LOCK_STATE_DISABLED
         then let s3 = send_pending s2
              in if \<not> power_down (mSystemPowerState s3) then restartSessions_batching s3 else s3
         else s2)"

definition read_config_proc :: "u64 \<Rightarrow> u64 \<Rightarrow> u32 \<Rightarrow> u32 \<Rightarrow> batching \<Rightarrow> batching" where
  "read_config_proc batchSize tripBatchSize batchingTimeout batchingAccuracy s =
     s\<lparr>mBatchSize := batchSize, mTripBatchSize := tripBatchSize, mBatchingTimeout := batchingTimeout,
       mBatchingAccuracy := batchingAccuracy\<rparr>"

definition remove_client_batching :: "client \<Rightarrow> bool \<Rightarrow> batching \<Rightarrow> batching option" where
  "remove_client_batching client cb s = do {
     s1 \<leftarrow> stopClientSessions_batching client True s;
     let s2 = updateClientsEventMask_batching (s1\<lparr>mClientData := eraseClient client (mClientData s1)\<rparr>);
     Some (if cb then emit (RemoveClientDone client) s2 else s2) }"

section \<open>Commands of the clients\<close>

text \<open>Errors found here are not reported, but for an unknown mode and in the last command.\<close>

definition start_batching_proc :: "client \<Rightarrow> u32 \<Rightarrow> batching_options \<Rightarrow> batching \<Rightarrow> batching" where
  "start_batching_proc client sid o' s =
     (if \<not> mIsEngineCapabilitiesKnown s
      then s\<lparr>mPendingMsgs := mPendingMsgs s @ [MsgStartBatching client sid o']\<rparr>
      else if \<not> hasBatchingCallback client s then s
      else if opt_size o' = 0 then s
      else if \<not> message_supported 4 (mContext s) then s
      else if batchingMode o' = BATCHING_MODE_ROUTINE \<or> batchingMode o' = BATCHING_MODE_NO_AUTO_REPORT
      then startBatching client sid o' s
      else if batchingMode o' = BATCHING_MODE_TRIP
      then startTripBatchingMultiplex client sid o' s
      else reportResponse_batching client LOCATION_ERROR_INVALID_PARAMETER sid s)"

definition update_batching_proc :: "client \<Rightarrow> u32 \<Rightarrow> batching_options \<Rightarrow> batching \<Rightarrow> batching option" where
  "update_batching_proc client sid o' s =
     (if \<not> mIsEngineCapabilitiesKnown s
      then Some (s\<lparr>mPendingMsgs := mPendingMsgs s @ [MsgUpdateBatching client sid o']\<rparr>)
      else if \<not> isBatchingSession client sid s then Some s
      else if opt_size o' = 0 \<or> BATCHING_MODE_NO_AUTO_REPORT < batchingMode o' then Some s
      else if \<not> isTripSession sid s then Some (stopBatching client sid True o' True s)
      else stopTripBatchingMultiplex client sid True o' True s)"

definition stop_batching_proc :: "client \<Rightarrow> u32 \<Rightarrow> batching \<Rightarrow> batching option" where
  "stop_batching_proc client sid s =
     (if \<not> mIsEngineCapabilitiesKnown s
      then Some (s\<lparr>mPendingMsgs := mPendingMsgs s @ [MsgStopBatching client sid]\<rparr>)
      else if \<not> isBatchingSession client sid s then Some s
      else if isTripSession sid s
      then stopTripBatchingMultiplex client sid False default_batching True s
      else Some (stopBatching client sid False default_batching True s))"

definition get_locations_proc :: "client \<Rightarrow> u32 \<Rightarrow> u64 \<Rightarrow> batching \<Rightarrow> batching" where
  "get_locations_proc client sid cnt s =
     (if \<not> mIsEngineCapabilitiesKnown s
      then s\<lparr>mPendingMsgs := mPendingMsgs s @ [MsgGetBatchedLocations client sid cnt]\<rparr>
      else if \<not> hasBatchingCallback client s
      then reportResponse_batching client LOCATION_ERROR_CALLBACK_MISSING sid s
      else if \<not> isBatchingSession client sid s
      then reportResponse_batching client LOCATION_ERROR_ID_UNKNOWN sid s
      else if isTripSession sid s then ask (GetBatchedTripLocations cnt 0) (Got client sid) s
      else ask (GetBatchedLocations cnt) (Got client sid) s)"

section \<open>Reports of the modem\<close>

definition reportLocations :: "nat list \<Rightarrow> u32 \<Rightarrow> batching \<Rightarrow> batching" where
  "reportLocations locations mode s =
     fold (\<lambda>c. emit (BatchingCb c locations mode))
       (map fst (filter (\<lambda>e. batchingCb (snd e)) (mClientData s))) s"

definition reportBatchStatusChange :: "u32 \<Rightarrow> u32 list \<Rightarrow> batching \<Rightarrow> batching" where
  "reportBatchStatusChange status completed s =
     fold (\<lambda>c. emit (BatchingStatusCb c status completed))
       (map fst (filter (\<lambda>e. batchingStatusCb (snd e)) (mClientData s))) s"

text \<open>The trips completed; \<open>stale\<close> is what the freed memory of a trip holds.\<close>

fun completed_loop :: "u32 \<Rightarrow> (u32 \<Rightarrow> trip_status) \<Rightarrow> (u32 \<times> trip_status) list \<Rightarrow> batching
    \<Rightarrow> u32 list \<times> batching" where
  "completed_loop accumulated stale [] s = ([], s)"
| "completed_loop accumulated stale ((i, t) # es) s =
     (let t' = t\<lparr>accumulatedDistanceThisTrip := accumulatedDistanceOnTripRestart t
                   + (accumulated - accumulatedDistanceOngoingBatch t)\<rparr>
      in if tripDistance t' \<le> accumulatedDistanceThisTrip t' then let
           s1 = s\<lparr>mTripSessions := om_erase i (mTripSessions s)\<rparr>;
           s2 = (if tripTBFInterval (stale i) = mOngoingTripTBFInterval s1
                 then s1\<lparr>mTripWithOngoingTBFDropped := True\<rparr> else s1);
           s3 = (if tripDistance (stale i) = mOngoingTripDistance s2
                 then s2\<lparr>mTripWithOngoingTripDistanceDropped := True\<rparr> else s2);
           (cs, s4) = completed_loop accumulated stale es s3
         in (i # cs, s4)
         else completed_loop accumulated stale es (s\<lparr>mTripSessions := om_put i t' (mTripSessions s)\<rparr>))"

definition completed_trips_proc :: "u32 \<Rightarrow> (u32 \<Rightarrow> trip_status) \<Rightarrow> batching \<Rightarrow> batching" where
  "completed_trips_proc accumulated stale s =
     (case completed_loop accumulated stale (mTripSessions s) s of (completed, s1) \<Rightarrow>
        if completed \<noteq> []
        then restartTripBatching False accumulated 0 (reportBatchStatusChange 0 completed s1)
        else s1)"

section \<open>Messages and steps\<close>

definition response_proc_batching :: "batch_cont \<Rightarrow> location_error \<Rightarrow> u32 \<Rightarrow> batching \<Rightarrow> batching option" where
  "response_proc_batching k err accumulated s =
     (case k of
        Started client sid o' \<Rightarrow> Some (started client sid o' err s)
      | Stopped client sid flp restart o' er \<Rightarrow> Some (stopped client sid flp restart o' er err s)
      | TripStarted client sid o' \<Rightarrow> Some (trip_started client sid o' err s)
      | TripQueried client sid o' \<Rightarrow> Some (trip_queried client sid o' err accumulated s)
      | TripReStarted client sid \<Rightarrow> Some (reportResponse_batching client err sid s)
      | TripStopped restart client sid o' er \<Rightarrow> trip_stopped restart client sid o' er err s
      | RestartQueried query d i acc n \<Rightarrow> Some (restart_queried query d i acc accumulated s)
      | BatchReStarted acc d i \<Rightarrow> Some (batch_restarted acc d i err s)
      | SessionsRestarted \<Rightarrow> Some (sessions_restarted err s)
      | Got client sid \<Rightarrow> Some (reportResponse_batching client err sid s)
      | Ignored \<Rightarrow> Some s)"

definition proc_batching :: "batch_msg \<Rightarrow> batching \<Rightarrow> batching option" where
  "proc_batching m s =
     (case m of
        MsgAddClient client cb \<Rightarrow>
          Some (updateClientsEventMask_batching (s\<lparr>mClientData := saveClient client cb (mClientData s)\<rparr>))
      | MsgRemoveClient client cb \<Rightarrow> remove_client_batching client cb s
      | MsgReadConfig bs tbs t a \<Rightarrow> Some (read_config_proc bs tbs t a s)
      | MsgSetConfig \<Rightarrow> Some (set_sizes s)
      | MsgStartBatching client sid o' \<Rightarrow> Some (start_batching_proc client sid o' s)
      | MsgUpdateBatching client sid o' \<Rightarrow> update_batching_proc client sid o' s
      | MsgStopBatching client sid \<Rightarrow> stop_batching_proc client sid s
      | MsgGetBatchedLocations client sid cnt \<Rightarrow> Some (get_locations_proc client sid cnt s)
      | MsgReportLocations locations mode \<Rightarrow> Some (reportLocations locations mode s)
      | MsgReportCompletedTrips acc stale \<Rightarrow> Some (completed_trips_proc acc stale s)
      | MsgReportBatchStatus status \<Rightarrow> Some (reportBatchStatusChange status [] s)
      | MsgUpdateSystemPowerState p \<Rightarrow> updateSystemPowerState_batching p s
      | MsgEngineLockStateEvent st \<Rightarrow> Some (handleEngineLockStatus_batching st s)
      | MsgSSREvent \<Rightarrow> Some (ssr_proc_batching s)
      | MsgBatchResponse k err acc n \<Rightarrow> response_proc_batching k err acc s)"

definition startBatchingCommand :: "client \<Rightarrow> batching_options \<Rightarrow> batching \<Rightarrow> u32 \<times> batching" where
  "startBatchingCommand client o' s =
     (let sid = generateSessionId (mSessionIdCounter s)
      in (sid, send_msg (MsgStartBatching client sid o') (s\<lparr>mSessionIdCounter := sid\<rparr>)))"

text \<open>\<open>Send\<close> is any other command or event: it only queues its message.\<close>

datatype batch_event =
    StartCommand client batching_options
  | Send batch_msg
  | Answer nat location_error u32 u32
  | SetLock engine_lock_state
  | Deliver

definition batching_step :: "batch_event \<Rightarrow> batching \<Rightarrow> batching option" where
  "batching_step e s =
     (case e of
        StartCommand client o' \<Rightarrow> Some (snd (startBatchingCommand client o' s))
      | Send m \<Rightarrow> Some (send_msg m s)
      | Answer n err acc cnt \<Rightarrow>
          Some (if n < length (outstanding s)
                then send_msg (MsgBatchResponse (outstanding s ! n) err acc cnt)
                  (s\<lparr>outstanding := take n (outstanding s) @ drop (Suc n) (outstanding s)\<rparr>)
                else s)
      | SetLock st \<Rightarrow> Some (s\<lparr>mEngineLockState := st\<rparr>)
      | Deliver \<Rightarrow> (case queue s of [] \<Rightarrow> Some s | m # ms \<Rightarrow> proc_batching m (s\<lparr>queue := ms\<rparr>)))"

definition batching_init :: "context_base \<Rightarrow> batching" where
  "batching_init c = \<lparr>mBatchingSessions = [], mTripSessions = [], mOngoingTripDistance = 0,
     mOngoingTripTBFInterval = 0, mTripWithOngoingTBFDropped = False,
     mTripWithOngoingTripDistanceDropped = False, mSystemPowerState = POWER_STATE_UNKNOWN,
     mBatchingTimeout = 0, mBatchingAccuracy = 1, mBatchSize = 0, mTripBatchSize = 0, mClientData = [],
     mEvtMask = 0, mIsEngineCapabilitiesKnown = sIsEngineCapabilitiesKnown c, mContext = c,
     mEngineLockState = ENGINE_LOCK_STATE_DISABLED, mPendingMsgs = [], mSessionIdCounter = 1,
     queue = [], outstanding = [], log = []\<rparr>"

section \<open>Concrete runs\<close>

definition batching_client :: location_callbacks where
  "batching_client = no_callbacks\<lparr>responseCb := True, batchingCb := True\<rparr>"

definition batching_context :: context_base where
  "batching_context = example_context\<lparr>sSupportedMsgMask := 16\<rparr>"

definition example_batching :: "u32 \<Rightarrow> u32 \<Rightarrow> batching_options" where
  "example_batching mode distance = default_batching\<lparr>opt_size := 1, batchingMode := mode,
     minDistance := distance, minInterval := 1000\<rparr>"

definition a_session :: "u32 \<Rightarrow> batch_event list" where
  "a_session mode = [SetLock ENGINE_LOCK_STATE_ENABLED, Send (MsgAddClient 1 batching_client), Deliver,
     StartCommand 1 (example_batching mode 500), Deliver, Answer 0 LOCATION_ERROR_SUCCESS 0 0, Deliver]"

definition batching_run :: "batch_event list \<Rightarrow> batching option" where
  "batching_run evs = run batching_step evs (batching_init batching_context)"

lemma trip_run: "map_option (\<lambda>s. (map fst (mBatchingSessions s), map fst (mTripSessions s),
    mOngoingTripDistance s, mEvtMask s AND BATCH_FULL \<noteq> 0)) (batching_run (a_session BATCHING_MODE_TRIP))
  = Some ([SessionKey 1 2], [2], 500, True)"
  by code_simp

text \<open>
  A trip that was stopped stays in the table of sessions, keeps the batch event registered, and
  ends the service when its client leaves.
\<close>

theorem stopped_trip_crashes_on_leave:
  "map_option (\<lambda>s. (map fst (mBatchingSessions s), map fst (mTripSessions s), mEvtMask s AND BATCH_FULL \<noteq> 0))
     (batching_run (a_session BATCHING_MODE_TRIP @ [Send (MsgStopBatching 1 2), Deliver,
        Answer 0 LOCATION_ERROR_SUCCESS 0 0, Deliver])) = Some ([SessionKey 1 2], [], True)
   \<and> batching_run (a_session BATCHING_MODE_TRIP @ [Send (MsgStopBatching 1 2), Deliver,
        Answer 0 LOCATION_ERROR_SUCCESS 0 0, Deliver, Send (MsgRemoveClient 1 True), Deliver]) = None"
  by code_simp

text \<open>A second trip is never in the table of sessions, so that it cannot be stopped.\<close>

lemma second_trip_cannot_be_stopped:
  "map_option (\<lambda>s. (map fst (mBatchingSessions s), map fst (mTripSessions s)))
     (batching_run (a_session BATCHING_MODE_TRIP @ [StartCommand 1 (example_batching BATCHING_MODE_TRIP 900),
        Deliver, Answer 0 LOCATION_ERROR_SUCCESS 100 0, Deliver, Send (MsgStopBatching 1 3), Deliver]))
   = Some ([SessionKey 1 2], [2, 3])"
  by code_simp

text \<open>
  A session whose stop fails is restored with default options, not with those it had.  The default
  mode reports by itself, yet the event that reports a full batch stays unregistered.
\<close>

theorem failed_stop_forgets_options:
  "map_option (\<lambda>s. map snd (mBatchingSessions s))
     (batching_run (a_session BATCHING_MODE_NO_AUTO_REPORT)) = Some [example_batching BATCHING_MODE_NO_AUTO_REPORT 500]
   \<and> map_option (\<lambda>s. (map snd (mBatchingSessions s), autoReportBatchingSessionsCount s,
        mEvtMask s AND BATCH_FULL = 0))
     (batching_run (a_session BATCHING_MODE_NO_AUTO_REPORT @ [Send (MsgStopBatching 1 2), Deliver,
        Answer 0 LOCATION_ERROR_GENERAL_FAILURE 0 0, Deliver])) = Some ([default_batching], 1, True)"
  by code_simp

section \<open>Runs without trips\<close>

fun routine_cont :: "batch_cont \<Rightarrow> bool" where
  "routine_cont (Started c sid o') = (batchingMode o' \<noteq> BATCHING_MODE_TRIP)"
| "routine_cont (Stopped c sid flp r o' er) =
     (batchingMode flp \<noteq> BATCHING_MODE_TRIP \<and> batchingMode o' \<noteq> BATCHING_MODE_TRIP)"
| "routine_cont (Got c sid) = True"
| "routine_cont Ignored = True"
| "routine_cont k = False"

text \<open>With \<open>b\<close>, a stop that erased its session is answered with success.\<close>

fun stop_succeeds :: "batch_cont \<Rightarrow> location_error \<Rightarrow> bool" where
  "stop_succeeds (Stopped c sid flp r o' er) err = (er \<longrightarrow> err = LOCATION_ERROR_SUCCESS)"
| "stop_succeeds k err = True"

fun routine_msg :: "bool \<Rightarrow> batch_msg \<Rightarrow> bool" where
  "routine_msg b (MsgStartBatching c sid o') = (batchingMode o' \<noteq> BATCHING_MODE_TRIP)"
| "routine_msg b (MsgUpdateBatching c sid o') = (batchingMode o' \<noteq> BATCHING_MODE_TRIP)"
| "routine_msg b (MsgBatchResponse k err a n) = (routine_cont k \<and> (b \<longrightarrow> stop_succeeds k err))"
| "routine_msg b m = True"

fun routine_event :: "batch_event \<Rightarrow> bool" where
  "routine_event (StartCommand c o') = (batchingMode o' \<noteq> BATCHING_MODE_TRIP)"
| "routine_event (Send (MsgBatchResponse k err a n)) = False"
| "routine_event (Send m) = routine_msg True m"
| "routine_event e = True"

definition no_trips :: "(session_key, batching_options) ord_map \<Rightarrow> bool" where
  "no_trips es \<longleftrightarrow> (\<forall>e\<in>set es. batchingMode (snd e) \<noteq> BATCHING_MODE_TRIP)"

text \<open>The parts of the state the invariant looks at, and the event that must be registered.\<close>

definition view :: "batching \<Rightarrow> (session_key, batching_options) ord_map \<times> (u32, trip_status) ord_map
    \<times> batch_msg list \<times> batch_msg list \<times> batch_cont list" where
  "view s = (mBatchingSessions s, mTripSessions s, queue s, mPendingMsgs s, outstanding s)"

definition routine_inv :: "bool \<Rightarrow> batching \<Rightarrow> bool" where
  "routine_inv b s \<longleftrightarrow> om_ok (mBatchingSessions s) \<and> no_trips (mBatchingSessions s) \<and> mTripSessions s = []
     \<and> list_all (routine_msg b) (queue s) \<and> list_all (routine_msg b) (mPendingMsgs s)
     \<and> list_all routine_cont (outstanding s)"

definition auto_sessions :: "batching \<Rightarrow> bool" where
  "auto_sessions s \<longleftrightarrow> (\<exists>e\<in>set (mBatchingSessions s). batchingMode (snd e) \<noteq> BATCHING_MODE_NO_AUTO_REPORT)"

definition full_ok :: "batching \<Rightarrow> bool" where
  "full_ok s \<longleftrightarrow> (auto_sessions s \<longrightarrow> bit (mEvtMask s) 19)"

definition sound :: "bool \<Rightarrow> batching \<Rightarrow> bool" where
  "sound b s \<longleftrightarrow> routine_inv b s \<and> (b \<longrightarrow> full_ok s)"

lemma view_eqD:
  assumes "view s' = view s"
  shows "mBatchingSessions s' = mBatchingSessions s" "mTripSessions s' = mTripSessions s"
    "queue s' = queue s" "mPendingMsgs s' = mPendingMsgs s" "outstanding s' = outstanding s"
  using assms by (simp_all add: view_def)

lemma routine_inv_cong: "view s' = view s \<Longrightarrow> routine_inv b s' = routine_inv b s"
  by (simp add: routine_inv_def view_def)

lemma count_auto:
  "mTripSessions s = [] \<Longrightarrow> autoReportBatchingSessionsCount s = 0 \<longleftrightarrow> \<not> auto_sessions s"
  by (auto simp: autoReportBatchingSessionsCount_def auto_sessions_def filter_empty_conv)

lemma batch_emit_fields [simp]: "view (emit x s) = view s" "mEvtMask (emit x s) = mEvtMask s"
  "mBatchingSessions (emit x s) = mBatchingSessions s" "mTripSessions (emit x s) = mTripSessions s"
  "outstanding (emit x s) = outstanding s"
  by (simp_all add: emit_def view_def)

lemma updateEvtMask_fields [simp]: "view (updateEvtMask e st s) = view s"
  "mEvtMask (updateEvtMask e st s) = new_evt_mask e st (mEvtMask s)"
  "mBatchingSessions (updateEvtMask e st s) = mBatchingSessions s"
  "mTripSessions (updateEvtMask e st s) = mTripSessions s"
  "outstanding (updateEvtMask e st s) = outstanding s"
  by (simp_all add: updateEvtMask_def Let_def view_def emit_def)

lemma reportResponse_same [simp]: "view (reportResponse_batching c err sid s) = view s"
  "mEvtMask (reportResponse_batching c err sid s) = mEvtMask s"
  by (simp_all add: reportResponse_batching_def split: option.split)

lemma mask_enabled [simp]: "bit (new_evt_mask BATCH_FULL LOC_REGISTRATION_MASK_ENABLED m) 19"
  by (simp add: new_evt_mask_def BATCH_FULL_def bit_simps)

lemma auto_sessions_cong: "view s' = view s \<Longrightarrow> auto_sessions s' = auto_sessions s"
  by (simp add: auto_sessions_def view_def)

lemma full_ok_cong: "view s' = view s \<Longrightarrow> mEvtMask s' = mEvtMask s \<Longrightarrow> full_ok s' = full_ok s"
  using auto_sessions_cong [of s' s] by (simp add: full_ok_def)

lemma inv_same [simp]:
  "routine_inv b (emit x s) = routine_inv b s" "full_ok (emit x s) = full_ok s"
  "routine_inv b (updateEvtMask e st s) = routine_inv b s"
  "routine_inv b (reportResponse_batching c err sid s) = routine_inv b s"
  "full_ok (reportResponse_batching c err sid s) = full_ok s"
  by (rule routine_inv_cong full_ok_cong; simp)+

lemma full_ok_disable: "\<not> auto_sessions s \<Longrightarrow> full_ok (updateEvtMask e st s)"
  by (simp add: full_ok_def auto_sessions_cong [of "updateEvtMask e st s" s])

lemma full_ok_enable: "full_ok (updateEvtMask BATCH_FULL LOC_REGISTRATION_MASK_ENABLED s)"
  by (simp add: full_ok_def)

text \<open>Saving, erasing and asking.\<close>

lemma set_put: "om_ok m \<Longrightarrow> set (om_put k v m) \<subseteq> insert (k, v) (set m)"
  using om_put_set [of m k v] by (simp add: om_erase_def) blast

lemma no_trips_put:
  "om_ok m \<Longrightarrow> no_trips m \<Longrightarrow> batchingMode o' \<noteq> BATCHING_MODE_TRIP \<Longrightarrow> no_trips (om_put k o' m)"
proof -
  assume "om_ok m" "no_trips m" "batchingMode o' \<noteq> BATCHING_MODE_TRIP"
  then have "\<forall>e\<in>insert (k, o') (set m). batchingMode (snd e) \<noteq> BATCHING_MODE_TRIP"
    by (simp add: no_trips_def)
  then show ?thesis unfolding no_trips_def using set_put [OF \<open>om_ok m\<close>, of k o'] by blast
qed

lemma no_trips_erase: "no_trips m \<Longrightarrow> no_trips (om_erase k m)"
  by (simp add: no_trips_def om_erase_def)

lemma routine_save:
  "routine_inv b s \<Longrightarrow> batchingMode o' \<noteq> BATCHING_MODE_TRIP \<Longrightarrow> routine_inv b (saveBatchingSession c sid o' s)"
  by (simp add: routine_inv_def saveBatchingSession_def no_trips_put)

lemma routine_erase: "routine_inv b s \<Longrightarrow> routine_inv b (eraseBatchingSession c sid s)"
  by (simp add: routine_inv_def eraseBatchingSession_def no_trips_erase)

lemma routine_ask: "routine_inv b s \<Longrightarrow> routine_cont k \<Longrightarrow> routine_inv b (ask r k s)"
  by (simp add: routine_inv_def ask_def emit_def)

lemma batch_ask_fields [simp]: "full_ok (ask r k s) = full_ok s" "mBatchingSessions (ask r k s) = mBatchingSessions s"
  by (simp_all add: full_ok_def auto_sessions_def ask_def emit_def)

lemma auto_save:
  "om_ok (mBatchingSessions s) \<Longrightarrow> auto_sessions (saveBatchingSession c sid o' s)
    \<Longrightarrow> auto_sessions s \<or> batchingMode o' \<noteq> BATCHING_MODE_NO_AUTO_REPORT"
  using set_put [of "mBatchingSessions s" "SessionKey c sid" o']
  by (auto simp: auto_sessions_def saveBatchingSession_def)

lemma full_save:
  assumes "om_ok (mBatchingSessions s)" "full_ok s"
    "batchingMode o' = BATCHING_MODE_NO_AUTO_REPORT \<or> bit (mEvtMask s) 19"
  shows "full_ok (saveBatchingSession c sid o' s)"
proof -
  have "mEvtMask (saveBatchingSession c sid o' s) = mEvtMask s" by (simp add: saveBatchingSession_def)
  then show ?thesis using auto_save [OF assms(1), of c sid o'] assms(2,3) by (auto simp: full_ok_def)
qed

lemma set_erase: "set (om_erase k m) \<subseteq> set m"
  by (simp add: om_erase_def)

lemma auto_erase: "auto_sessions (eraseBatchingSession c sid s) \<Longrightarrow> auto_sessions s"
  unfolding auto_sessions_def
  using set_erase [of "SessionKey c sid" "mBatchingSessions s"]
  by (simp add: eraseBatchingSession_def subset_iff Bex_def) blast

lemma full_erase: "full_ok s \<Longrightarrow> full_ok (eraseBatchingSession c sid s)"
  using auto_erase [of c sid s] by (simp add: full_ok_def eraseBatchingSession_def)

text \<open>The operations.\<close>

lemma startBatching_sound:
  assumes "sound b s" "batchingMode o' \<noteq> BATCHING_MODE_TRIP"
  shows "sound b (startBatching c sid o' s)"
proof -
  define s1 where "s1 = (if batchingMode o' \<noteq> BATCHING_MODE_NO_AUTO_REPORT \<and> autoReportBatchingSessionsCount s = 0
     then updateEvtMask BATCH_FULL LOC_REGISTRATION_MASK_ENABLED s else s)"
  have eq: "startBatching c sid o' s = ask (StartBatching sid o' (mBatchingAccuracy (saveBatchingSession c sid o' s1))
      (mBatchingTimeout (saveBatchingSession c sid o' s1))) (Started c sid o') (saveBatchingSession c sid o' s1)"
    by (simp add: startBatching_def Let_def s1_def)
  have s1: "routine_inv b s1" using assms(1) by (simp add: sound_def s1_def)
  then have inv: "routine_inv b (startBatching c sid o' s)"
    using assms(2) by (simp add: eq routine_ask routine_save)
  have "full_ok (startBatching c sid o' s)" if full: "full_ok s"
  proof -
    have "mTripSessions s = []" using assms(1) by (simp add: sound_def routine_inv_def)
    note count = count_auto [OF this]
    have "full_ok s1" using full by (simp add: s1_def full_ok_enable)
    moreover have "batchingMode o' = BATCHING_MODE_NO_AUTO_REPORT \<or> bit (mEvtMask s1) 19"
      using full count by (auto simp: s1_def full_ok_def)
    ultimately show ?thesis using s1 by (simp add: eq full_save routine_inv_def)
  qed
  with inv assms(1) show ?thesis by (simp add: sound_def)
qed

lemma started_sound:
  assumes "sound b s"
  shows "sound b (started c sid o' err s)"
proof -
  define s1 where "s1 = (if failed_batching err s then eraseBatchingSession c sid s else s)"
  have s1: "sound b s1" using assms by (simp add: s1_def sound_def routine_erase full_erase)
  then have "mTripSessions s1 = []" by (simp add: sound_def routine_inv_def)
  from count_auto [OF this] s1 show ?thesis
    by (simp add: started_def Let_def s1_def [symmetric] sound_def full_ok_disable)
qed

lemma routine_get:
  "routine_inv b s \<Longrightarrow> om_get k (mBatchingSessions s) = Some o' \<Longrightarrow> batchingMode o' \<noteq> BATCHING_MODE_TRIP"
  using om_get_in [of "mBatchingSessions s" k o'] by (force simp: routine_inv_def no_trips_def)

lemma sound_ask: "sound b s \<Longrightarrow> routine_cont k \<Longrightarrow> sound b (ask r k s)"
  by (simp add: sound_def routine_ask)

lemma sound_erase: "sound b s \<Longrightarrow> sound b (eraseBatchingSession c sid s)"
  by (simp add: sound_def routine_erase full_erase)

lemma stopBatching_sound:
  assumes "sound b s" "batchingMode o' \<noteq> BATCHING_MODE_TRIP"
  shows "sound b (stopBatching c sid r o' er s)"
proof (cases "om_get (SessionKey c sid) (mBatchingSessions s)")
  case None
  then show ?thesis using assms(1) by (simp add: stopBatching_def)
next
  case (Some flp)
  have "batchingMode flp \<noteq> BATCHING_MODE_TRIP"
    using routine_get [of b s "SessionKey c sid" flp] Some assms(1) by (simp add: sound_def)
  with assms show ?thesis by (simp add: stopBatching_def Some sound_ask sound_erase)
qed

lemma sound_same [simp]: "sound b (emit x s) = sound b s" "sound b (reportResponse_batching c err sid s) = sound b s"
  by (simp_all add: sound_def)

lemma stopped_sound:
  assumes "sound b s" "routine_cont (Stopped c sid flp r o' er)" "b \<longrightarrow> stop_succeeds (Stopped c sid flp r o' er) err"
  shows "sound b (stopped c sid flp r o' er err s)"
proof (cases "failed_batching err s")
  case True
  then have "err \<noteq> LOCATION_ERROR_SUCCESS" by (simp add: failed_batching_def)
  with assms True show ?thesis by (auto simp: stopped_def sound_def routine_save)
next
  case False
  define s1 where "s1 = (if autoReportBatchingSessionsCount s = 0 \<and> batchingMode flp \<noteq> BATCHING_MODE_NO_AUTO_REPORT
     then updateEvtMask BATCH_FULL LOC_REGISTRATION_MASK_DISABLED s else s)"
  have "mTripSessions s = []" using assms(1) by (simp add: sound_def routine_inv_def)
  from count_auto [OF this] have s1: "sound b s1"
    using assms(1) by (simp add: s1_def sound_def full_ok_disable)
  have "stopped c sid flp r o' er err s = reportResponse_batching c err sid
     (if r \<and> (batchingMode o' = BATCHING_MODE_ROUTINE \<or> batchingMode o' = BATCHING_MODE_NO_AUTO_REPORT)
      then startBatching c sid o' s1 else s1)"
    using False assms(2) by (simp add: stopped_def s1_def [symmetric])
  then show ?thesis using s1 assms(2) by (simp add: startBatching_sound)
qed

lemma stop_one_sound:
  "sound b s \<Longrightarrow> snd e \<noteq> BATCHING_MODE_TRIP
    \<Longrightarrow> \<exists>s'. stop_one er e s = Some s' \<and> sound b s'"
  by (simp add: stop_one_def stopBatching_sound default_batching_def batching_modes)

lemma run_sound:
  assumes "\<And>x s. x \<in> set xs \<Longrightarrow> sound b s \<Longrightarrow> \<exists>s'. step x s = Some s' \<and> sound b s'" "sound b s"
  shows "\<exists>s'. run step xs s = Some s' \<and> sound b s'"
  using assms
proof (induction xs arbitrary: s)
  case (Cons x xs)
  from Cons.prems(1) [of x s] Cons.prems(2) obtain s1 where s1: "step x s = Some s1" "sound b s1" by auto
  have "\<exists>s'. run step xs s1 = Some s' \<and> sound b s'"
    by (rule Cons.IH) (use Cons.prems(1) s1 in auto)
  with s1 show ?case by simp
qed simp

lemma stopClientSessions_sound:
  assumes "sound b s"
  shows "\<exists>s'. stopClientSessions_batching c er s = Some s' \<and> sound b s'"
  unfolding stopClientSessions_batching_def
proof (rule run_sound [OF _ assms])
  fix x s'
  assume x: "x \<in> set (map (\<lambda>(k, o'). (k, batchingMode o')) (filter (\<lambda>e. sk_client (fst e) = c) (mBatchingSessions s)))"
    and s': "sound b s'"
  have "no_trips (mBatchingSessions s)" using assms by (simp add: sound_def routine_inv_def)
  with x have "snd x \<noteq> BATCHING_MODE_TRIP" by (auto simp: no_trips_def)
  with s' show "\<exists>s''. stop_one er x s' = Some s'' \<and> sound b s''" by (rule stop_one_sound)
qed

lemma suspend_sound: "sound b s \<Longrightarrow> \<exists>s'. suspendBatchingSessions s = Some s' \<and> sound b s'"
  unfolding suspendBatchingSessions_def by (rule run_sound) (simp_all add: stopClientSessions_sound)

lemma sound_cong:
  assumes "view s' = view s" "mEvtMask s' = mEvtMask s"
  shows "sound b s' = sound b s"
  using routine_inv_cong [OF assms(1)] full_ok_cong [OF assms] by (simp add: sound_def)

lemma fold_view:
  assumes "\<And>x s. view (f x s) = view s" "\<And>x s. mEvtMask (f x s) = mEvtMask s"
  shows "view (fold f xs s) = view s \<and> mEvtMask (fold f xs s) = mEvtMask s"
  by (induction xs arbitrary: s) (simp_all add: assms)

lemma sound_fold_emit [simp]: "sound b (fold (\<lambda>c. emit (f c)) xs s) = sound b s"
  using fold_view [of "\<lambda>c. emit (f c)" xs s] by (intro sound_cong) simp_all

lemma sound_sessions:
  assumes "sound b s" "routine_cont k"
  shows "sound b (fold (\<lambda>(k', o') s. if P k' o' then ask (r k' o' s) k s else s) es s)"
  using assms by (induction es arbitrary: s) (auto simp: sound_ask)

lemma restartSessions_sound:
  assumes "sound b s"
  shows "sound b (restartSessions_batching s)"
proof -
  have none: "mTripSessions s = []" using assms by (simp add: sound_def routine_inv_def)
  define s1 where "s1 = (if 0 < autoReportBatchingSessionsCount s
     then updateEvtMask BATCH_FULL LOC_REGISTRATION_MASK_ENABLED s else s)"
  define s2 where "s2 = fold (\<lambda>(k, o') s. if batchingMode o' \<noteq> BATCHING_MODE_TRIP
     then ask (StartBatching (sk_id k) o' (mBatchingAccuracy s) (mBatchingTimeout s)) Ignored s else s)
     (mBatchingSessions s1) s1"
  have "sound b s1" using assms by (simp add: s1_def sound_def full_ok_enable)
  then have s2: "sound b s2" unfolding s2_def by (rule sound_sessions) simp
  then have "mTripSessions s2 = []" by (simp add: sound_def routine_inv_def)
  with s2 show ?thesis
    by (simp add: restartSessions_batching_def Let_def s1_def [symmetric] s2_def [symmetric])
qed

lemma power_sound: "sound b s \<Longrightarrow> \<exists>s'. updateSystemPowerState_batching p s = Some s' \<and> sound b s'"
proof -
  assume s: "sound b s"
  have s1: "sound b (s\<lparr>mSystemPowerState := p\<rparr>)"
    using s by (subst sound_cong [of _ s]) (simp_all add: view_def)
  show ?thesis
    using s suspend_sound [OF s1] restartSessions_sound [OF s1] s1
    by (simp add: updateSystemPowerState_batching_def Let_def)
qed

lemma sound_send: "sound b s \<Longrightarrow> routine_msg b m \<Longrightarrow> sound b (send_msg m s)"
  by (simp add: sound_def routine_inv_def send_msg_def full_ok_def auto_sessions_def)

lemma sound_send_all: "sound b s \<Longrightarrow> list_all (routine_msg b) ms \<Longrightarrow> sound b (fold send_msg ms s)"
  by (induction ms arbitrary: s) (simp_all add: sound_send)

lemma sound_pending: "sound b s \<Longrightarrow> list_all (routine_msg b) ms \<Longrightarrow> sound b (s\<lparr>mPendingMsgs := ms\<rparr>)"
  by (simp add: sound_def routine_inv_def full_ok_def auto_sessions_def)

lemma sound_pendingD: "sound b s \<Longrightarrow> list_all (routine_msg b) (mPendingMsgs s)"
  by (simp add: sound_def routine_inv_def)

lemma send_pending_sound: "sound b s \<Longrightarrow> sound b (send_pending s)"
  by (simp add: send_pending_def sound_pending sound_send_all sound_pendingD)

lemma lock_sound: "sound b s \<Longrightarrow> sound b (handleEngineLockStatus_batching st s)"
  by (simp add: handleEngineLockStatus_batching_def Let_def restartSessions_sound send_pending_sound)

lemma sound_fields [simp]:
  "sound b (s\<lparr>mSystemPowerState := p\<rparr>) = sound b s" "sound b (s\<lparr>mClientData := d\<rparr>) = sound b s"
  "sound b (s\<lparr>mIsEngineCapabilitiesKnown := k\<rparr>) = sound b s" "sound b (s\<lparr>mEngineLockState := st\<rparr>) = sound b s"
  "sound b (s\<lparr>mSessionIdCounter := i\<rparr>) = sound b s"
  by (rule sound_cong; simp add: view_def)+

lemma ssr_sound: "sound b s \<Longrightarrow> sound b (ssr_proc_batching s)"
  by (simp add: ssr_proc_batching_def set_sizes_def Let_def restartSessions_sound send_pending_sound)

lemma mask_set: "bit e 19 \<Longrightarrow> bit (new_evt_mask e LOC_REGISTRATION_MASK_SET m) 19"
  by (simp add: new_evt_mask_def)

lemma bit_full [simp]: "bit (m OR BATCH_FULL) 19"
  by (simp add: BATCH_FULL_def bit_simps)

lemma client_mask_sound:
  assumes "sound b s"
  shows "sound b (updateClientsEventMask_batching s)"
proof -
  have "mTripSessions s = []" using assms by (simp add: sound_def routine_inv_def)
  note count = count_auto [OF this]
  define e where "e = (if 0 < autoReportBatchingSessionsCount s
     then (if list_ex (\<lambda>e. batchingCb (snd e)) (mClientData s) then BATCH_STATUS else 0) OR BATCH_FULL
     else (if list_ex (\<lambda>e. batchingCb (snd e)) (mClientData s) then BATCH_STATUS else 0))"
  have eq: "updateClientsEventMask_batching s = updateEvtMask e LOC_REGISTRATION_MASK_SET s"
    by (simp add: updateClientsEventMask_batching_def e_def)
  have "full_ok (updateEvtMask e LOC_REGISTRATION_MASK_SET s)"
  proof (cases "autoReportBatchingSessionsCount s = 0")
    case True
    then show ?thesis using count by (simp add: full_ok_disable)
  next
    case False
    then show ?thesis by (simp add: full_ok_def e_def mask_set)
  qed
  then show ?thesis using assms by (simp add: eq sound_def)
qed

lemma remove_client_sound: "sound b s \<Longrightarrow> \<exists>s'. remove_client_batching c cb s = Some s' \<and> sound b s'"
  using stopClientSessions_sound [of b s c True]
  by (auto simp: remove_client_batching_def Let_def client_mask_sound)

lemma read_config_sound: "sound b s \<Longrightarrow> sound b (read_config_proc x y t a s)"
  by (simp add: sound_def routine_inv_def full_ok_def auto_sessions_def read_config_proc_def)

lemma start_proc_sound:
  "sound b s \<Longrightarrow> batchingMode o' \<noteq> BATCHING_MODE_TRIP \<Longrightarrow> sound b (start_batching_proc c sid o' s)"
  by (simp add: start_batching_proc_def sound_pending sound_pendingD startBatching_sound)

lemma not_trip: "sound b s \<Longrightarrow> \<not> isTripSession sid s"
  by (simp add: isTripSession_def sound_def routine_inv_def)

lemma update_proc_sound:
  "sound b s \<Longrightarrow> batchingMode o' \<noteq> BATCHING_MODE_TRIP
    \<Longrightarrow> \<exists>s'. update_batching_proc c sid o' s = Some s' \<and> sound b s'"
  by (simp add: update_batching_proc_def sound_pending sound_pendingD not_trip stopBatching_sound)

lemma stop_proc_sound: "sound b s \<Longrightarrow> \<exists>s'. stop_batching_proc c sid s = Some s' \<and> sound b s'"
  by (simp add: stop_batching_proc_def sound_pending sound_pendingD not_trip stopBatching_sound
      default_batching_def batching_modes)

lemma get_proc_sound: "sound b s \<Longrightarrow> sound b (get_locations_proc c sid n s)"
  by (simp add: get_locations_proc_def sound_pending sound_pendingD not_trip sound_ask)

lemma completed_none: "sound b s \<Longrightarrow> completed_trips_proc a stale s = s"
  by (simp add: completed_trips_proc_def sound_def routine_inv_def)

lemma set_sizes_sound [simp]: "sound b (set_sizes s) = sound b s"
  by (simp add: set_sizes_def)

lemma response_sound:
  assumes "sound b s" "routine_cont k" "b \<longrightarrow> stop_succeeds k err"
  shows "\<exists>s'. response_proc_batching k err acc s = Some s' \<and> sound b s'"
proof (cases k)
  case (Started c sid o')
  then show ?thesis using assms by (simp add: response_proc_batching_def started_sound)
next
  case (Stopped c sid flp r o' er)
  have "sound b (stopped c sid flp r o' er err s)"
    by (rule stopped_sound) (use assms Stopped in auto)
  then show ?thesis by (simp add: response_proc_batching_def Stopped)
qed (use assms in \<open>simp_all add: response_proc_batching_def\<close>)

lemma proc_sound:
  assumes s: "sound b s" and m: "routine_msg b m"
  shows "\<exists>s'. proc_batching m s = Some s' \<and> sound b s'"
proof (cases m)
  case (MsgAddClient c cb)
  then show ?thesis using s by (simp add: proc_batching_def client_mask_sound)
next
  case (MsgBatchResponse k err a n)
  then show ?thesis using s m response_sound [of b s k err a] by (simp add: proc_batching_def)
next
  case (MsgReportCompletedTrips a st)
  then show ?thesis using s by (simp add: proc_batching_def completed_none)
qed (use s m in \<open>simp_all add: proc_batching_def remove_client_sound read_config_sound start_proc_sound
  update_proc_sound stop_proc_sound get_proc_sound reportLocations_def reportBatchStatusChange_def
  power_sound lock_sound ssr_sound\<close>)

lemma sound_queue: "sound b s \<Longrightarrow> queue s = m # ms \<Longrightarrow> sound b (s\<lparr>queue := ms\<rparr>) \<and> routine_msg b m"
  by (simp add: sound_def routine_inv_def full_ok_def auto_sessions_def)

lemma sound_outstanding:
  assumes "sound b s" "n < length (outstanding s)"
  shows "sound b (s\<lparr>outstanding := take n (outstanding s) @ drop (Suc n) (outstanding s)\<rparr>)"
    "routine_cont (outstanding s ! n)"
proof -
  have "outstanding s = take n (outstanding s) @ outstanding s ! n # drop (Suc n) (outstanding s)"
    using assms(2) by (rule id_take_nth_drop)
  moreover have "list_all routine_cont (outstanding s)"
    using assms(1) by (simp add: sound_def routine_inv_def)
  ultimately have "list_all routine_cont (take n (outstanding s)) \<and> routine_cont (outstanding s ! n)
      \<and> list_all routine_cont (drop (Suc n) (outstanding s))"
    by (metis list_all_append list.pred_inject(2))
  then show "routine_cont (outstanding s ! n)"
    and "sound b (s\<lparr>outstanding := take n (outstanding s) @ drop (Suc n) (outstanding s)\<rparr>)"
    using assms(1) by (simp_all add: sound_def routine_inv_def full_ok_def auto_sessions_def)
qed

text \<open>The modem, with \<open>b\<close>, lets no stop fail that erased its session.\<close>

fun stops_succeed :: "batch_event \<Rightarrow> batching \<Rightarrow> bool" where
  "stops_succeed (Answer n err acc cnt) s =
     (n < length (outstanding s) \<longrightarrow> stop_succeeds (outstanding s ! n) err)"
| "stops_succeed e s = True"

definition batching_step_ok :: "batch_event \<Rightarrow> batching \<Rightarrow> batching option" where
  "batching_step_ok e s = (if stops_succeed e s then batching_step e s else None)"

lemma routine_send: "routine_event (Send m) \<Longrightarrow> routine_msg b m"
  by (cases m) simp_all

lemma step_sound:
  assumes s: "sound b s" and e: "routine_event e" and ok: "b \<longrightarrow> stops_succeed e s"
  shows "\<exists>s'. batching_step e s = Some s' \<and> sound b s'"
proof (cases e)
  case (StartCommand c o')
  then show ?thesis
    using s e by (simp add: batching_step_def startBatchingCommand_def Let_def sound_send)
next
  case (Send m)
  then show ?thesis using s e routine_send [of m b] by (simp add: batching_step_def sound_send)
next
  case (Answer n err acc cnt)
  show ?thesis
  proof (cases "n < length (outstanding s)")
    case True
    show ?thesis
      using sound_outstanding [OF s True] ok Answer True
      by (simp add: batching_step_def sound_send)
  next
    case False
    then show ?thesis using s Answer by (simp add: batching_step_def)
  qed
next
  case (SetLock st)
  then show ?thesis using s by (simp add: batching_step_def)
next
  case Deliver
  show ?thesis
  proof (cases "queue s")
    case Nil
    then show ?thesis using s Deliver by (simp add: batching_step_def)
  next
    case (Cons m ms)
    from proc_sound [of b "s\<lparr>queue := ms\<rparr>" m] sound_queue [OF s Cons] show ?thesis
      by (simp add: batching_step_def Deliver Cons)
  qed
qed

interpretation batching: total_system batching_step "sound False" routine_event
proof unfold_locales
  fix s x s'
  assume "sound False s" "routine_event x"
  from step_sound [OF this] have ok: "\<exists>s'. batching_step x s = Some s' \<and> sound False s'" by simp
  then show "batching_step x s \<noteq> None" by auto
  assume "batching_step x s = Some s'"
  with ok show "sound False s'" by auto
qed

interpretation batching_ok: invariant_system batching_step_ok "sound True" routine_event
proof unfold_locales
  fix s x s'
  assume s: "sound True s" "routine_event x" and step: "batching_step_ok x s = Some s'"
  then have "stops_succeed x s" "batching_step x s = Some s'"
    by (simp_all add: batching_step_ok_def split: if_splits)
  with step_sound [OF s] show "sound True s'" by auto
qed

lemma sound_init: "sound b (batching_init c)"
  by (simp add: sound_def routine_inv_def full_ok_def auto_sessions_def batching_init_def no_trips_def)

text \<open>
  C18: Without trips, no sequence of commands, answers and events ends the service: the iterators that
  are not compared with the end of the map are only reached through a trip.
\<close>

theorem batching_without_trips_is_safe:
  assumes "list_all routine_event evs"
  shows "\<exists>s. run batching_step evs (batching_init c) = Some s \<and> mTripSessions s = []"
  using batching.run_total [OF sound_init assms] by (auto simp: sound_def routine_inv_def)

theorem batching_without_trips_is_safe_witness:
  "\<exists>s. batching_run (a_session BATCHING_MODE_ROUTINE @ [Send (MsgRemoveClient 1 True), Deliver]) = Some s
    \<and> mTripSessions s = []"
  unfolding batching_run_def
  by (rule batching_without_trips_is_safe) (simp add: a_session_def example_batching_def batching_modes)

text \<open>
  Without trips, and while no stop is refused by the modem, the event that reports a full batch is
  registered whenever a session reports by itself.
\<close>

theorem batch_full_event_registered:
  assumes "list_all routine_event evs" "run batching_step_ok evs (batching_init c) = Some s"
    "om_get k (mBatchingSessions s) = Some o'" "batchingMode o' \<noteq> BATCHING_MODE_NO_AUTO_REPORT"
  shows "mEvtMask s AND BATCH_FULL \<noteq> 0"
proof -
  have s: "sound True s" by (rule batching_ok.run_inv [OF sound_init assms(1,2)])
  then have "(k, o') \<in> set (mBatchingSessions s)"
    using om_get_in [of "mBatchingSessions s" k o'] assms(3) by (simp add: sound_def routine_inv_def)
  then have "auto_sessions s" using assms(4) by (force simp: auto_sessions_def)
  with s have "bit (mEvtMask s AND BATCH_FULL) 19"
    by (simp add: sound_def full_ok_def BATCH_FULL_def bit_simps)
  then show ?thesis by auto
qed

theorem batch_full_event_registered_witness:
  "\<exists>s. run batching_step_ok (a_session BATCHING_MODE_ROUTINE) (batching_init batching_context) = Some s
     \<and> mEvtMask s AND BATCH_FULL \<noteq> 0"
proof -
  let ?r = "run batching_step_ok (a_session BATCHING_MODE_ROUTINE) (batching_init batching_context)"
  have run: "map_option (\<lambda>s. om_get (SessionKey 1 2) (mBatchingSessions s)) ?r
      = Some (Some (example_batching BATCHING_MODE_ROUTINE 500))"
    by code_simp
  then obtain s where s: "?r = Some s"
      "om_get (SessionKey 1 2) (mBatchingSessions s) = Some (example_batching BATCHING_MODE_ROUTINE 500)"
    by auto
  have "mEvtMask s AND BATCH_FULL \<noteq> 0"
    by (rule batch_full_event_registered [OF _ s])
      (simp_all add: a_session_def example_batching_def batching_modes)
  with s show ?thesis by auto
qed

end
