(* ===== verification/LocationApi.thy ===== *)
theory LocationApi
  imports LocAdapterBase Steps
begin

text \<open>
  \<^verbatim>\<open>gps/location/LocationAPI.cpp\<close>: the objects clients hold, their registration with the three
  adapters, and their destruction, which waits for every adapter to let go of the object.

  The adapters are the other components of this library; here they are the log of the calls
  they get, and the completion callbacks they owe.  An operation that throws, or touches an
  object that was deleted, is \<open>None\<close>.
\<close>

section \<open>Data\<close>

text \<open>Which members of \<^verbatim>\<open>LocationCallbacks\<close> are set.\<close>

record api_callbacks = location_callbacks +
  gnssNiCb :: bool
  gnssLocationInfoCb :: bool
  engineLocationsInfoCb :: bool
  gnssSvCb :: bool
  gnssNmeaCb :: bool
  engineNmeaCb :: bool
  gnssDataCb :: bool
  gnssMeasurementsCb :: bool
  gnssNHzMeasurementsCb :: bool
  locationSystemInfoCb :: bool
  gnssDcReportCb :: bool
  gnssSignalTypesCb :: bool

datatype adapter_type = GNSS | BATCHING | GEOFENCE

definition type_bit :: "adapter_type \<Rightarrow> 16 word" where
  "type_bit k = (case k of GNSS \<Rightarrow> 1 | BATCHING \<Rightarrow> 2 | GEOFENCE \<Rightarrow> 4)"

record destroy_cb_data =
  waitAdapterMask :: "16 word"
  destroyCompleteCb :: bool

record control_callbacks =
  ctrlResponseCb :: bool
  ctrlCollectiveResponseCb :: bool
  gnssConfigCb :: bool
  odcpiReqCb :: bool

text \<open>A call of a function of an interface; \<open>r\<close> is the request that is passed on.\<close>

datatype 'r api_call =
    Initialize adapter_type
  | AddClient adapter_type addr api_callbacks
  | RequestCapabilities adapter_type addr
  | RemoveClient adapter_type addr bool
  | SetControlCallbacks control_callbacks
  | DestroyCompleted addr
  | UpdateCallbacks addr api_callbacks
  | Pass adapter_type 'r

text \<open>
  \<^verbatim>\<open>gData\<close> and the variables beside it.  \<open>live\<close> are the objects allocated and not deleted,
  \<open>owed\<close> the completions the adapters owe, \<open>calls\<close> the calls made.
\<close>

record 'r location_api =
  clientData :: "(addr, api_callbacks) ord_map"
  destroyClientData :: "(addr, destroy_cb_data) ord_map"
  controlAPI :: addr
  controlCallbacks :: control_callbacks
  interface :: "adapter_type \<Rightarrow> bool"
  loadFailed :: "adapter_type \<Rightarrow> bool"
  gEnableMDMGnssHal :: u32
  gReadGnssDeploymentConfigOnce :: bool
  live :: "addr list"
  owed :: "(adapter_type \<times> addr) list"
  calls :: "'r api_call list"

text \<open>
  The system around the API: the libraries that can be loaded, the entry of \<^verbatim>\<open>gps.conf\<close>, and the
  objects the libraries of the infotainment variant return (\<open>NULL\<close> when they are missing).
\<close>

record api_env =
  lib :: "adapter_type \<Rightarrow> bool"
  gnssDeployment :: "u32 option"
  clientApiImpl :: addr
  integrationApiImpl :: addr

definition call_api :: "'r api_call \<Rightarrow> 'r location_api \<Rightarrow> 'r location_api" where
  "call_api x s = s\<lparr>calls := calls s @ [x]\<rparr>"

section \<open>Interfaces\<close>

definition isInfotainmentHalConfigured :: "api_env \<Rightarrow> 'r location_api \<Rightarrow> bool \<times> 'r location_api" where
  "isInfotainmentHalConfigured env s =
     (let s1 = (if \<not> gReadGnssDeploymentConfigOnce s
                then s\<lparr>gEnableMDMGnssHal := (case gnssDeployment env of Some v \<Rightarrow> v
                         | None \<Rightarrow> gEnableMDMGnssHal s),
                       gReadGnssDeploymentConfigOnce := True\<rparr>
                else s)
      in (gEnableMDMGnssHal s1 = 3, s1))"

text \<open>
  The three functions that load a library differ in its name only.  A library that could not be
  loaded is not tried again.
\<close>

definition loadLib :: "api_env \<Rightarrow> adapter_type \<Rightarrow> 'r location_api \<Rightarrow> 'r location_api" where
  "loadLib env k s =
     (if \<not> interface s k \<and> \<not> loadFailed s k
      then (if lib env k then call_api (Initialize k) (s\<lparr>interface := (interface s)(k := True)\<rparr>)
            else s\<lparr>loadFailed := (loadFailed s)(k := True)\<rparr>)
      else s)"

definition loadLibGnss :: "api_env \<Rightarrow> 'r location_api \<Rightarrow> 'r location_api" where
  "loadLibGnss env = loadLib env GNSS"

definition loadLibBatching :: "api_env \<Rightarrow> 'r location_api \<Rightarrow> 'r location_api" where
  "loadLibBatching env = loadLib env BATCHING"

definition loadLibGeofencing :: "api_env \<Rightarrow> 'r location_api \<Rightarrow> 'r location_api" where
  "loadLibGeofencing env = loadLib env GEOFENCE"

definition isGnssClient :: "api_callbacks \<Rightarrow> bool" where
  "isGnssClient cb \<longleftrightarrow> gnssNiCb cb \<or> trackingCb cb \<or> gnssLocationInfoCb cb \<or> engineLocationsInfoCb cb
     \<or> gnssSvCb cb \<or> gnssNmeaCb cb \<or> engineNmeaCb cb \<or> gnssDataCb cb \<or> gnssMeasurementsCb cb
     \<or> gnssNHzMeasurementsCb cb \<or> locationSystemInfoCb cb \<or> gnssDcReportCb cb \<or> gnssSignalTypesCb cb"

definition isBatchingClient :: "api_callbacks \<Rightarrow> bool" where
  "isBatchingClient cb = batchingCb cb"

definition isGeofenceClient :: "api_callbacks \<Rightarrow> bool" where
  "isGeofenceClient cb \<longleftrightarrow> geofenceBreachCb cb \<or> geofenceStatusCb cb"

definition is_client :: "adapter_type \<Rightarrow> api_callbacks \<Rightarrow> bool" where
  "is_client k cb = (case k of GNSS \<Rightarrow> isGnssClient cb | BATCHING \<Rightarrow> isBatchingClient cb
     | GEOFENCE \<Rightarrow> isGeofenceClient cb)"

section \<open>Creation\<close>

definition mandatory :: "api_callbacks \<Rightarrow> bool" where
  "mandatory cb \<longleftrightarrow> capabilitiesCb cb \<and> responseCb cb \<and> collectiveResponseCb cb"

text \<open>One adapter; the capabilities are asked from the first that is there.\<close>

definition join_adapter ::
  "api_env \<Rightarrow> addr \<Rightarrow> api_callbacks \<Rightarrow> adapter_type \<Rightarrow> bool \<times> 'r location_api \<Rightarrow> bool \<times> 'r location_api" where
  "join_adapter env this cb k rs =
     (if is_client k cb then let s1 = loadLib env k (snd rs)
      in if interface s1 k then let s2 = call_api (AddClient k this cb) s1
         in if \<not> fst rs then (True, call_api (RequestCapabilities k this) s2) else (fst rs, s2)
         else (fst rs, s1)
      else rs)"

text \<open>\<open>this\<close> is the address the allocation of the object returns.\<close>

definition createInstance ::
  "api_env \<Rightarrow> api_callbacks \<Rightarrow> addr \<Rightarrow> 'r location_api \<Rightarrow> addr \<times> 'r location_api" where
  "createInstance env cb this s =
     (if \<not> mandatory cb then (NULL, s)
      else case isInfotainmentHalConfigured env s of (True, s0) \<Rightarrow>
             (clientApiImpl env,
              if clientApiImpl env \<noteq> NULL then call_api (UpdateCallbacks (clientApiImpl env) cb) s0 else s0)
      | (False, s0) \<Rightarrow> let
          rs = join_adapter env this cb GNSS (False, s0\<lparr>live := this # live s0\<rparr>);
          rs = join_adapter env this cb BATCHING rs;
          rs = join_adapter env this cb GEOFENCE rs;
          s1 = (if \<not> fst rs \<and> capabilitiesCb cb then let t = loadLibGnss env (snd rs)
                in if interface t GNSS
                   then call_api (RequestCapabilities GNSS this) (call_api (AddClient GNSS this cb) t)
                   else t
                else snd rs)
        in (this, s1\<lparr>clientData := om_put this cb (clientData s1)\<rparr>))"

section \<open>Destruction\<close>

text \<open>An empty \<^verbatim>\<open>std::function\<close> throws when it is called.\<close>

definition invoke_destroy_cb :: "bool \<Rightarrow> addr \<Rightarrow> 'r location_api \<Rightarrow> 'r location_api option" where
  "invoke_destroy_cb cb this s = (if cb then Some (call_api (DestroyCompleted this) s) else None)"

definition delete_this :: "addr \<Rightarrow> 'r location_api \<Rightarrow> 'r location_api option" where
  "delete_this this s = (if this \<in> set (live s) then Some (s\<lparr>live := remove1 this (live s)\<rparr>) else None)"

text \<open>The end of both functions: the callback is called when it is not set.\<close>

definition finish_destroy :: "bool \<Rightarrow> addr \<Rightarrow> 'r location_api \<Rightarrow> 'r location_api option" where
  "finish_destroy cb this s = do {
     s1 \<leftarrow> (if \<not> cb then invoke_destroy_cb cb this s else Some s);
     delete_this this s1 }"

definition onRemoveClientCompleteCb ::
  "adapter_type \<Rightarrow> addr \<Rightarrow> 'r location_api \<Rightarrow> 'r location_api option" where
  "onRemoveClientCompleteCb k this s =
     (if this \<notin> set (live s) then None
      else case om_get this (destroyClientData s) of
        None \<Rightarrow> Some s
      | Some d \<Rightarrow> let m = waitAdapterMask d AND NOT (type_bit k)
          in if m = 0
             then finish_destroy (destroyCompleteCb d) this
                    (s\<lparr>destroyClientData := om_erase this (destroyClientData s)\<rparr>)
             else Some (s\<lparr>destroyClientData := om_put this (d\<lparr>waitAdapterMask := m\<rparr>) (destroyClientData s)\<rparr>))"

definition adapter_types :: "adapter_type list" where
  "adapter_types = [GNSS, BATCHING, GEOFENCE]"

definition wait_mask :: "adapter_type list \<Rightarrow> 16 word" where
  "wait_mask ks = foldr (\<lambda>k m. type_bit k OR m) ks 0"

definition remove_from :: "addr \<Rightarrow> adapter_type \<Rightarrow> 'r location_api \<Rightarrow> 'r location_api" where
  "remove_from this k s =
     (call_api (RemoveClient k this True) s)\<lparr>owed := owed s @ [(k, this)]\<rparr>"

definition destroy :: "addr \<Rightarrow> bool \<Rightarrow> 'r location_api \<Rightarrow> 'r location_api option" where
  "destroy this cb s =
     (case om_get this (clientData s) of
        None \<Rightarrow> Some s
      | Some _ \<Rightarrow> let
          ks = filter (interface s) adapter_types;
          needToWait = (ks \<noteq> []);
          s1 = (if cb \<and> needToWait
                then s\<lparr>destroyClientData := om_put this
                       \<lparr>waitAdapterMask = wait_mask ks, destroyCompleteCb = cb\<rparr> (destroyClientData s)\<rparr>
                else s);
          s2 = fold (remove_from this) ks s1;
          s3 = s2\<lparr>clientData := om_erase this (clientData s2)\<rparr>
        in if \<not> needToWait then finish_destroy cb this s3 else Some s3)"

section \<open>Callbacks\<close>

definition update_adapter ::
  "api_env \<Rightarrow> addr \<Rightarrow> api_callbacks \<Rightarrow> api_callbacks option \<Rightarrow> adapter_type \<Rightarrow> 'r location_api \<Rightarrow> 'r location_api" where
  "update_adapter env this cb current k s =
     (if is_client k cb then let s1 = loadLib env k s
      in if interface s1 k then call_api (AddClient k this cb) s1 else s1
      else if interface s k \<and> (case current of Some c \<Rightarrow> is_client k c | None \<Rightarrow> False)
      then call_api (RemoveClient k this False) s
      else s)"

definition updateCallbacks ::
  "api_env \<Rightarrow> addr \<Rightarrow> api_callbacks \<Rightarrow> 'r location_api \<Rightarrow> 'r location_api" where
  "updateCallbacks env this cb s =
     (if \<not> mandatory cb then s
      else let
        current = om_get this (clientData s);
        s1 = update_adapter env this cb current GNSS s;
        s2 = update_adapter env this cb current BATCHING s1;
        s3 = update_adapter env this cb current GEOFENCE s2
      in s3\<lparr>clientData := om_put this cb (clientData s3)\<rparr>)"

section \<open>Requests\<close>

text \<open>
  The requests of clients are passed on when the interface is there; the answer of the adapter is an
  argument.  Tracking requests are only passed on for known clients.
\<close>

definition pass :: "adapter_type \<Rightarrow> 'r \<Rightarrow> 'a \<Rightarrow> 'a \<Rightarrow> 'r location_api \<Rightarrow> 'a \<times> 'r location_api" where
  "pass k r answer none s = (if interface s k then (answer, call_api (Pass k r) s) else (none, s))"

definition pass_known ::
  "addr \<Rightarrow> adapter_type \<Rightarrow> 'r \<Rightarrow> 'a \<Rightarrow> 'a \<Rightarrow> 'r location_api \<Rightarrow> 'a \<times> 'r location_api" where
  "pass_known this k r answer none s =
     (if om_get this (clientData s) \<noteq> None then pass k r answer none s else (none, s))"

section \<open>The control object\<close>

text \<open>\<open>this\<close> is the address of the object when one is made.\<close>

definition make_control :: "api_env \<Rightarrow> addr \<Rightarrow> 'r location_api \<Rightarrow> 'r location_api" where
  "make_control env this s =
     (case isInfotainmentHalConfigured env s of
        (True, s0) \<Rightarrow> s0\<lparr>controlAPI := integrationApiImpl env\<rparr>
      | (False, s0) \<Rightarrow> let t = loadLibGnss env s0
          in if \<not> loadFailed t GNSS then t\<lparr>controlAPI := this\<rparr> else t)"

definition merge_control :: "control_callbacks \<Rightarrow> control_callbacks \<Rightarrow> control_callbacks" where
  "merge_control cb c =
     \<lparr>ctrlResponseCb = ctrlResponseCb cb \<or> ctrlResponseCb c,
      ctrlCollectiveResponseCb = ctrlCollectiveResponseCb cb \<or> ctrlCollectiveResponseCb c,
      gnssConfigCb = gnssConfigCb cb \<or> gnssConfigCb c, odcpiReqCb = odcpiReqCb cb \<or> odcpiReqCb c\<rparr>"

definition set_control :: "control_callbacks \<Rightarrow> 'r location_api \<Rightarrow> 'r location_api" where
  "set_control cb s =
     (if interface s GNSS
      then call_api (SetControlCallbacks (merge_control cb (controlCallbacks s)))
             (s\<lparr>controlCallbacks := merge_control cb (controlCallbacks s)\<rparr>)
      else s)"

definition control_getInstance ::
  "api_env \<Rightarrow> control_callbacks \<Rightarrow> addr \<Rightarrow> 'r location_api \<Rightarrow> addr \<times> 'r location_api" where
  "control_getInstance env cb this s =
     (let s1 = set_control cb (if controlAPI s = NULL then make_control env this s else s)
      in (controlAPI s1, s1))"

definition control_getInstance_plain :: "'r location_api \<Rightarrow> addr" where
  "control_getInstance_plain s = controlAPI s"

text \<open>The control object is shared by its users; the memory of the object is not tracked.\<close>

definition control_destroy :: "'r location_api \<Rightarrow> 'r location_api" where
  "control_destroy s = s\<lparr>controlAPI := NULL\<rparr>"

end
