(* ===== verification/LocationRequests.thy ===== *)
theory LocationRequests
  imports LocationApi
begin

text \<open>
  \<^verbatim>\<open>gps/location/LocationAPI.cpp\<close>: the methods that pass a request of a client, or of the control
  object, on to an adapter.  A structure that is passed on as it is, is its \<open>content\<close>, an array
  the list of its elements, an array that is returned \<open>None\<close> when it is \<^verbatim>\<open>NULL\<close>.
\<close>

section \<open>Requests\<close>

type_synonym content = nat

datatype api_request =
    StartTracking addr content
  | StopTracking addr u32
  | UpdateTrackingOptions addr u32 content
  | StartBatching addr content
  | StopBatching addr u32
  | UpdateBatchingOptions addr u32 content
  | GetBatchedLocations addr u32 nat
  | AddGeofences addr "content list" "content list"
  | RemoveGeofences addr "u32 list"
  | ModifyGeofences addr "u32 list" "content list"
  | PauseGeofences addr "u32 list"
  | ResumeGeofences addr "u32 list"
  | GnssNiResponse addr u32 content
  | GetDebugReport
  | GetAntennaInfo addr
  | Enable content
  | Disable u32
  | GnssUpdateConfig content
  | GnssGetConfig u32
  | GnssDeleteAidingData content
  | ConfigConstellations content content
  | ConfigConstellationSecondaryBand content
  | ConfigConstrainedTimeUncertainty bool content u32
  | ConfigPositionAssistedClockEstimator bool
  | ConfigLeverArm content
  | ConfigRobustLocation bool bool
  | ConfigMinGpsWeek "16 word"
  | ConfigDeadReckoningEngineParams content
  | ConfigEngineRunState u32 content
  | SetOptInStatus bool
  | ConfigOutputNmeaTypes u32 content u32
  | OdcpiInject content
  | ResetNetworkInfo
  | UpdateBatteryStatus bool
  | InjectLocation content content content
  | AgpsDataConnOpen content string i32 i32
  | AgpsDataConnClosed content
  | AgpsDataConnFailed content
  | UpdateConnectionStatus bool "8 word" bool u64 string
  | MeasCorrSetCorrections content
  | MeasCorrClose
  | EnableNfwLocationAccess "string list"
  | ConfigEngineIntegrityRisk u32 u32
  | ConfigXtraParams bool content
  | ConfigMerkleTree string i32
  | ConfigOsnmaEnablement bool
  | UpdateSystemPowerState power_state
  | OdcpiInit
  | AgpsInit
  | MeasCorrInit
  | NfwInit

type_synonym api = "api_request location_api"

section \<open>Methods of the clients\<close>

definition startTracking_api ::
  "addr \<Rightarrow> content \<Rightarrow> u32 \<Rightarrow> api \<Rightarrow> u32 \<times> api" where
  "startTracking_api this trackingOptions answer =
     pass_known this GNSS (StartTracking this trackingOptions) answer 0"

definition stopTracking_api :: "addr \<Rightarrow> u32 \<Rightarrow> api \<Rightarrow> api" where
  "stopTracking_api this sid s = snd (pass_known this GNSS (StopTracking this sid) () () s)"

definition updateTrackingOptions_api ::
  "addr \<Rightarrow> u32 \<Rightarrow> content \<Rightarrow> api \<Rightarrow> api" where
  "updateTrackingOptions_api this sid trackingOptions s =
     snd (pass_known this GNSS (UpdateTrackingOptions this sid trackingOptions) () () s)"

definition startBatching_api ::
  "addr \<Rightarrow> content \<Rightarrow> u32 \<Rightarrow> api \<Rightarrow> u32 \<times> api" where
  "startBatching_api this batchingOptions answer =
     pass BATCHING (StartBatching this batchingOptions) answer 0"

definition stopBatching_api :: "addr \<Rightarrow> u32 \<Rightarrow> api \<Rightarrow> api" where
  "stopBatching_api this sid s = snd (pass BATCHING (StopBatching this sid) () () s)"

definition updateBatchingOptions_api ::
  "addr \<Rightarrow> u32 \<Rightarrow> content \<Rightarrow> api \<Rightarrow> api" where
  "updateBatchingOptions_api this sid batchOptions s =
     snd (pass BATCHING (UpdateBatchingOptions this sid batchOptions) () () s)"

definition getBatchedLocations_api ::
  "addr \<Rightarrow> u32 \<Rightarrow> nat \<Rightarrow> api \<Rightarrow> api" where
  "getBatchedLocations_api this sid cnt s =
     snd (pass BATCHING (GetBatchedLocations this sid cnt) () () s)"

definition addGeofences_api ::
  "addr \<Rightarrow> content list \<Rightarrow> content list \<Rightarrow> u32 list option \<Rightarrow> api \<Rightarrow> u32 list option \<times> api" where
  "addGeofences_api this options info answer =
     pass GEOFENCE (AddGeofences this options info) answer None"

definition removeGeofences_api ::
  "addr \<Rightarrow> u32 list \<Rightarrow> api \<Rightarrow> api" where
  "removeGeofences_api this ids s = snd (pass GEOFENCE (RemoveGeofences this ids) () () s)"

definition modifyGeofences_api ::
  "addr \<Rightarrow> u32 list \<Rightarrow> content list \<Rightarrow> api \<Rightarrow> api" where
  "modifyGeofences_api this ids options s =
     snd (pass GEOFENCE (ModifyGeofences this ids options) () () s)"

definition pauseGeofences_api ::
  "addr \<Rightarrow> u32 list \<Rightarrow> api \<Rightarrow> api" where
  "pauseGeofences_api this ids s = snd (pass GEOFENCE (PauseGeofences this ids) () () s)"

definition resumeGeofences_api ::
  "addr \<Rightarrow> u32 list \<Rightarrow> api \<Rightarrow> api" where
  "resumeGeofences_api this ids s = snd (pass GEOFENCE (ResumeGeofences this ids) () () s)"

definition gnssNiResponse_api ::
  "addr \<Rightarrow> u32 \<Rightarrow> content \<Rightarrow> api \<Rightarrow> api" where
  "gnssNiResponse_api this sid response s =
     snd (pass GNSS (GnssNiResponse this sid response) () () s)"

definition getDebugReport_api ::
  "content \<Rightarrow> content \<Rightarrow> api \<Rightarrow> content \<times> api" where
  "getDebugReport_api answer initial = pass GNSS GetDebugReport answer initial"

definition getAntennaInfo_api ::
  "addr \<Rightarrow> u32 \<Rightarrow> api \<Rightarrow> u32 \<times> api" where
  "getAntennaInfo_api cb answer = pass GNSS (GetAntennaInfo cb) answer 1"

section \<open>Methods of the control object\<close>

definition enable_api ::
  "content \<Rightarrow> u32 \<Rightarrow> api \<Rightarrow> u32 \<times> api" where
  "enable_api techType answer = pass GNSS (Enable techType) answer 0"

definition disable_api :: "u32 \<Rightarrow> api \<Rightarrow> api" where
  "disable_api sid s = snd (pass GNSS (Disable sid) () () s)"

definition gnssUpdateConfig_api ::
  "content \<Rightarrow> u32 list option \<Rightarrow> api \<Rightarrow> u32 list option \<times> api" where
  "gnssUpdateConfig_api config answer = pass GNSS (GnssUpdateConfig config) answer None"

definition gnssGetConfig_api ::
  "u32 \<Rightarrow> u32 list option \<Rightarrow> api \<Rightarrow> u32 list option \<times> api" where
  "gnssGetConfig_api flags answer = pass GNSS (GnssGetConfig flags) answer None"

definition gnssDeleteAidingData_api ::
  "content \<Rightarrow> u32 \<Rightarrow> api \<Rightarrow> u32 \<times> api" where
  "gnssDeleteAidingData_api data answer = pass GNSS (GnssDeleteAidingData data) answer 0"

definition configConstellations_api ::
  "content \<Rightarrow> content \<Rightarrow> u32 \<Rightarrow> api \<Rightarrow> u32 \<times> api" where
  "configConstellations_api enablement blacklist answer =
     pass GNSS (ConfigConstellations enablement blacklist) answer 0"

definition configConstellationSecondaryBand_api ::
  "content \<Rightarrow> u32 \<Rightarrow> api \<Rightarrow> u32 \<times> api" where
  "configConstellationSecondaryBand_api bands answer =
     pass GNSS (ConfigConstellationSecondaryBand bands) answer 0"

definition configConstrainedTimeUncertainty_api ::
  "bool \<Rightarrow> content \<Rightarrow> u32 \<Rightarrow> u32 \<Rightarrow> api \<Rightarrow> u32 \<times> api" where
  "configConstrainedTimeUncertainty_api enable tuncThreshold energyBudget answer =
     pass GNSS (ConfigConstrainedTimeUncertainty enable tuncThreshold energyBudget) answer 0"

definition configPositionAssistedClockEstimator_api ::
  "bool \<Rightarrow> u32 \<Rightarrow> api \<Rightarrow> u32 \<times> api" where
  "configPositionAssistedClockEstimator_api enable answer =
     pass GNSS (ConfigPositionAssistedClockEstimator enable) answer 0"

definition configLeverArm_api ::
  "content \<Rightarrow> u32 \<Rightarrow> api \<Rightarrow> u32 \<times> api" where
  "configLeverArm_api configInfo answer = pass GNSS (ConfigLeverArm configInfo) answer 0"

definition configRobustLocation_api ::
  "bool \<Rightarrow> bool \<Rightarrow> u32 \<Rightarrow> api \<Rightarrow> u32 \<times> api" where
  "configRobustLocation_api enable enableForE911 answer =
     pass GNSS (ConfigRobustLocation enable enableForE911) answer 0"

definition configMinGpsWeek_api ::
  "16 word \<Rightarrow> u32 \<Rightarrow> api \<Rightarrow> u32 \<times> api" where
  "configMinGpsWeek_api minGpsWeek answer = pass GNSS (ConfigMinGpsWeek minGpsWeek) answer 0"

definition configDeadReckoningEngineParams_api ::
  "content \<Rightarrow> u32 \<Rightarrow> api \<Rightarrow> u32 \<times> api" where
  "configDeadReckoningEngineParams_api dreConfig answer =
     pass GNSS (ConfigDeadReckoningEngineParams dreConfig) answer 0"

definition configEngineRunState_api ::
  "u32 \<Rightarrow> content \<Rightarrow> u32 \<Rightarrow> api \<Rightarrow> u32 \<times> api" where
  "configEngineRunState_api engType engState answer =
     pass GNSS (ConfigEngineRunState engType engState) answer 0"

definition setOptInStatus_api ::
  "bool \<Rightarrow> u32 \<Rightarrow> api \<Rightarrow> u32 \<times> api" where
  "setOptInStatus_api userConsent answer = pass GNSS (SetOptInStatus userConsent) answer 0"

definition configOutputNmeaTypes_api ::
  "u32 \<Rightarrow> content \<Rightarrow> u32 \<Rightarrow> u32 \<Rightarrow> api \<Rightarrow> u32 \<times> api" where
  "configOutputNmeaTypes_api enabledNmeaTypes nmeaDatumType engines answer =
     pass GNSS (ConfigOutputNmeaTypes enabledNmeaTypes nmeaDatumType engines) answer 0"

definition odcpiInject_api :: "content \<Rightarrow> api \<Rightarrow> api" where
  "odcpiInject_api location s = snd (pass GNSS (OdcpiInject location) () () s)"

definition resetNetworkInfo_api :: "api \<Rightarrow> api" where
  "resetNetworkInfo_api s = snd (pass GNSS ResetNetworkInfo () () s)"

definition updateBatteryStatus_api :: "bool \<Rightarrow> api \<Rightarrow> api" where
  "updateBatteryStatus_api charging s = snd (pass GNSS (UpdateBatteryStatus charging) () () s)"

definition injectLocation_api ::
  "content \<Rightarrow> content \<Rightarrow> content \<Rightarrow> api \<Rightarrow> api" where
  "injectLocation_api latitude longitude accuracy s =
     snd (pass GNSS (InjectLocation latitude longitude accuracy) () () s)"

definition agpsDataConnOpen_api ::
  "content \<Rightarrow> string \<Rightarrow> i32 \<Rightarrow> i32 \<Rightarrow> api \<Rightarrow> api" where
  "agpsDataConnOpen_api agpsType apnName apnLen ipType s =
     snd (pass GNSS (AgpsDataConnOpen agpsType apnName apnLen ipType) () () s)"

definition agpsDataConnClosed_api :: "content \<Rightarrow> api \<Rightarrow> api" where
  "agpsDataConnClosed_api agpsType s = snd (pass GNSS (AgpsDataConnClosed agpsType) () () s)"

definition agpsDataConnFailed_api :: "content \<Rightarrow> api \<Rightarrow> api" where
  "agpsDataConnFailed_api agpsType s = snd (pass GNSS (AgpsDataConnFailed agpsType) () () s)"

definition updateConnectionStatus_api ::
  "bool \<Rightarrow> 8 word \<Rightarrow> bool \<Rightarrow> u64 \<Rightarrow> string \<Rightarrow> api \<Rightarrow> api" where
  "updateConnectionStatus_api connected netType roaming handle apn s =
     snd (pass GNSS (UpdateConnectionStatus connected netType roaming handle apn) () () s)"

definition measCorrSetCorrections_api ::
  "content \<Rightarrow> bool \<Rightarrow> api \<Rightarrow> bool \<times> api" where
  "measCorrSetCorrections_api gnssMeasCorr answer =
     pass GNSS (MeasCorrSetCorrections gnssMeasCorr) answer False"

definition measCorrClose_api :: "api \<Rightarrow> api" where
  "measCorrClose_api s = snd (pass GNSS MeasCorrClose () () s)"

definition enableNfwLocationAccess_api :: "string list \<Rightarrow> api \<Rightarrow> api" where
  "enableNfwLocationAccess_api enabledNfws s =
     snd (pass GNSS (EnableNfwLocationAccess enabledNfws) () () s)"

definition configEngineIntegrityRisk_api ::
  "u32 \<Rightarrow> u32 \<Rightarrow> u32 \<Rightarrow> api \<Rightarrow> u32 \<times> api" where
  "configEngineIntegrityRisk_api engType integrityRisk answer =
     pass GNSS (ConfigEngineIntegrityRisk engType integrityRisk) answer 0"

definition configXtraParams_api ::
  "bool \<Rightarrow> content \<Rightarrow> u32 \<Rightarrow> api \<Rightarrow> u32 \<times> api" where
  "configXtraParams_api enable xtraParams answer =
     pass GNSS (ConfigXtraParams enable xtraParams) answer 0"

definition configMerkleTree_api ::
  "string \<Rightarrow> i32 \<Rightarrow> u32 \<Rightarrow> api \<Rightarrow> u32 \<times> api" where
  "configMerkleTree_api merkleTreeXml xmlSize answer =
     pass GNSS (ConfigMerkleTree merkleTreeXml xmlSize) answer 0"

definition configOsnmaEnablement_api ::
  "bool \<Rightarrow> u32 \<Rightarrow> api \<Rightarrow> u32 \<times> api" where
  "configOsnmaEnablement_api enable answer = pass GNSS (ConfigOsnmaEnablement enable) answer 0"

text \<open>A power event goes to every adapter that is there.\<close>

definition powerStateEvent :: "power_state \<Rightarrow> api \<Rightarrow> api" where
  "powerStateEvent st s =
     fold (\<lambda>k s. snd (pass k (UpdateSystemPowerState st) () () s)) [GNSS, GEOFENCE, BATCHING] s"

text \<open>Of the callbacks given, only the first kind in the order of the tests is registered.\<close>

record control_update =
  odcpiReqCb_set :: bool
  agpsStatusIpV4Cb_set :: bool
  measCorrSetCapabilitiesCb_set :: bool
  nfwStatusCb_set :: bool
  isInEmergencyStatusCb_set :: bool

definition control_updateCallbacks :: "control_update \<Rightarrow> u32 \<Rightarrow> api \<Rightarrow> u32 \<times> api" where
  "control_updateCallbacks cb answer s =
     (if \<not> interface s GNSS then (0, s)
      else if odcpiReqCb_set cb then pass GNSS OdcpiInit 1 0 s
      else if agpsStatusIpV4Cb_set cb then pass GNSS AgpsInit 1 0 s
      else if measCorrSetCapabilitiesCb_set cb then pass GNSS MeasCorrInit answer 0 s
      else if nfwStatusCb_set cb \<or> isInEmergencyStatusCb_set cb then pass GNSS NfwInit 1 0 s
      else (1, s))"

section \<open>All methods\<close>

text \<open>
  What answers a method gets does not matter for the calls it makes: \<open>request_step\<close> is the state
  after the method of each request, for any answers.
\<close>

record api_answers =
  ans_id :: u32
  ans_ids :: "u32 list option"
  ans_bool :: bool
  ans_content :: content

fun request_step :: "api_answers \<Rightarrow> api_request \<Rightarrow> api \<Rightarrow> api" where
  "request_step a (StartTracking this trackingOptions) s =
     snd (startTracking_api this trackingOptions (ans_id a) s)"
| "request_step a (StopTracking this sid) s = stopTracking_api this sid s"
| "request_step a (UpdateTrackingOptions this sid trackingOptions) s =
     updateTrackingOptions_api this sid trackingOptions s"
| "request_step a (StartBatching this batchingOptions) s =
     snd (startBatching_api this batchingOptions (ans_id a) s)"
| "request_step a (StopBatching this sid) s = stopBatching_api this sid s"
| "request_step a (UpdateBatchingOptions this sid batchOptions) s =
     updateBatchingOptions_api this sid batchOptions s"
| "request_step a (GetBatchedLocations this sid cnt) s = getBatchedLocations_api this sid cnt s"
| "request_step a (AddGeofences this options info) s =
     snd (addGeofences_api this options info (ans_ids a) s)"
| "request_step a (RemoveGeofences this ids) s = removeGeofences_api this ids s"
| "request_step a (ModifyGeofences this ids options) s = modifyGeofences_api this ids options s"
| "request_step a (PauseGeofences this ids) s = pauseGeofences_api this ids s"
| "request_step a (ResumeGeofences this ids) s = resumeGeofences_api this ids s"
| "request_step a (GnssNiResponse this sid response) s = gnssNiResponse_api this sid response s"
| "request_step a GetDebugReport s = snd (getDebugReport_api (ans_content a) 0 s)"
| "request_step a (GetAntennaInfo cb) s = snd (getAntennaInfo_api cb (ans_id a) s)"
| "request_step a (Enable techType) s = snd (enable_api techType (ans_id a) s)"
| "request_step a (Disable sid) s = disable_api sid s"
| "request_step a (GnssUpdateConfig config) s = snd (gnssUpdateConfig_api config (ans_ids a) s)"
| "request_step a (GnssGetConfig flags) s = snd (gnssGetConfig_api flags (ans_ids a) s)"
| "request_step a (GnssDeleteAidingData data) s =
     snd (gnssDeleteAidingData_api data (ans_id a) s)"
| "request_step a (ConfigConstellations enablement blacklist) s =
     snd (configConstellations_api enablement blacklist (ans_id a) s)"
| "request_step a (ConfigConstellationSecondaryBand bands) s =
     snd (configConstellationSecondaryBand_api bands (ans_id a) s)"
| "request_step a (ConfigConstrainedTimeUncertainty enable tuncThreshold energyBudget) s =
     snd (configConstrainedTimeUncertainty_api enable tuncThreshold energyBudget (ans_id a) s)"
| "request_step a (ConfigPositionAssistedClockEstimator enable) s =
     snd (configPositionAssistedClockEstimator_api enable (ans_id a) s)"
| "request_step a (ConfigLeverArm configInfo) s =
     snd (configLeverArm_api configInfo (ans_id a) s)"
| "request_step a (ConfigRobustLocation enable enableForE911) s =
     snd (configRobustLocation_api enable enableForE911 (ans_id a) s)"
| "request_step a (ConfigMinGpsWeek minGpsWeek) s =
     snd (configMinGpsWeek_api minGpsWeek (ans_id a) s)"
| "request_step a (ConfigDeadReckoningEngineParams dreConfig) s =
     snd (configDeadReckoningEngineParams_api dreConfig (ans_id a) s)"
| "request_step a (ConfigEngineRunState engType engState) s =
     snd (configEngineRunState_api engType engState (ans_id a) s)"
| "request_step a (SetOptInStatus userConsent) s =
     snd (setOptInStatus_api userConsent (ans_id a) s)"
| "request_step a (ConfigOutputNmeaTypes enabledNmeaTypes nmeaDatumType engines) s =
     snd (configOutputNmeaTypes_api enabledNmeaTypes nmeaDatumType engines (ans_id a) s)"
| "request_step a (OdcpiInject location) s = odcpiInject_api location s"
| "request_step a ResetNetworkInfo s = resetNetworkInfo_api s"
| "request_step a (UpdateBatteryStatus charging) s = updateBatteryStatus_api charging s"
| "request_step a (InjectLocation latitude longitude accuracy) s =
     injectLocation_api latitude longitude accuracy s"
| "request_step a (AgpsDataConnOpen agpsType apnName apnLen ipType) s =
     agpsDataConnOpen_api agpsType apnName apnLen ipType s"
| "request_step a (AgpsDataConnClosed agpsType) s = agpsDataConnClosed_api agpsType s"
| "request_step a (AgpsDataConnFailed agpsType) s = agpsDataConnFailed_api agpsType s"
| "request_step a (UpdateConnectionStatus connected netType roaming handle apn) s =
     updateConnectionStatus_api connected netType roaming handle apn s"
| "request_step a (MeasCorrSetCorrections gnssMeasCorr) s =
     snd (measCorrSetCorrections_api gnssMeasCorr (ans_bool a) s)"
| "request_step a MeasCorrClose s = measCorrClose_api s"
| "request_step a (EnableNfwLocationAccess enabledNfws) s =
     enableNfwLocationAccess_api enabledNfws s"
| "request_step a (ConfigEngineIntegrityRisk engType integrityRisk) s =
     snd (configEngineIntegrityRisk_api engType integrityRisk (ans_id a) s)"
| "request_step a (ConfigXtraParams enable xtraParams) s =
     snd (configXtraParams_api enable xtraParams (ans_id a) s)"
| "request_step a (ConfigMerkleTree merkleTreeXml xmlSize) s =
     snd (configMerkleTree_api merkleTreeXml xmlSize (ans_id a) s)"
| "request_step a (ConfigOsnmaEnablement enable) s =
     snd (configOsnmaEnablement_api enable (ans_id a) s)"
| "request_step a (UpdateSystemPowerState st) s = powerStateEvent st s"
| "request_step a r s = s"

lemmas method_defs = startTracking_api_def stopTracking_api_def updateTrackingOptions_api_def
  startBatching_api_def stopBatching_api_def updateBatchingOptions_api_def
  getBatchedLocations_api_def addGeofences_api_def removeGeofences_api_def
  modifyGeofences_api_def pauseGeofences_api_def resumeGeofences_api_def
  gnssNiResponse_api_def getDebugReport_api_def getAntennaInfo_api_def
  enable_api_def disable_api_def gnssUpdateConfig_api_def
  gnssGetConfig_api_def gnssDeleteAidingData_api_def configConstellations_api_def
  configConstellationSecondaryBand_api_def configConstrainedTimeUncertainty_api_def configPositionAssistedClockEstimator_api_def
  configLeverArm_api_def configRobustLocation_api_def configMinGpsWeek_api_def
  configDeadReckoningEngineParams_api_def configEngineRunState_api_def setOptInStatus_api_def
  configOutputNmeaTypes_api_def odcpiInject_api_def resetNetworkInfo_api_def
  updateBatteryStatus_api_def injectLocation_api_def agpsDataConnOpen_api_def
  agpsDataConnClosed_api_def agpsDataConnFailed_api_def updateConnectionStatus_api_def
  measCorrSetCorrections_api_def measCorrClose_api_def enableNfwLocationAccess_api_def
  configEngineIntegrityRisk_api_def configXtraParams_api_def configMerkleTree_api_def
  configOsnmaEnablement_api_def

text \<open>A method adds calls to adapters that are there, and changes nothing else.\<close>

definition passed :: "api \<Rightarrow> api \<Rightarrow> bool" where
  "passed s s' \<longleftrightarrow> (\<exists>xs. s' = s\<lparr>calls := calls s @ xs\<rparr>
     \<and> (\<forall>c\<in>set xs. \<exists>k r. c = Pass k r \<and> interface s k))"

lemma passed_refl [simp]: "passed s s"
  by (auto simp: passed_def intro!: exI [of _ "[]"])

lemma passed_trans:
  assumes "passed s s1" "passed s1 s2"
  shows "passed s s2"
proof -
  from assms(1) obtain xs where xs: "s1 = s\<lparr>calls := calls s @ xs\<rparr>"
    "\<forall>c\<in>set xs. \<exists>k r. c = Pass k r \<and> interface s k" by (auto simp: passed_def)
  from assms(2) obtain ys where ys: "s2 = s1\<lparr>calls := calls s1 @ ys\<rparr>"
    "\<forall>c\<in>set ys. \<exists>k r. c = Pass k r \<and> interface s1 k" by (auto simp: passed_def)
  show ?thesis unfolding passed_def using xs ys by (intro exI [of _ "xs @ ys"]) auto
qed

lemma passed_pass [simp]: "passed s (snd (pass k r a n s))"
proof (cases "interface s k")
  case True
  then show ?thesis unfolding passed_def pass_def call_api_def by (intro exI [of _ "[Pass k r]"]) simp
next
  case False
  then show ?thesis by (simp add: pass_def)
qed

lemma passed_pass_known [simp]: "passed s (snd (pass_known this k r a n s))"
  by (simp add: pass_known_def)

lemma passed_power: "passed s (powerStateEvent st s)"
  by (simp add: powerStateEvent_def) (meson passed_pass passed_trans)

lemma request_step_passed: "passed s (request_step a r s)"
  by (cases r) (simp_all add: method_defs passed_power)

text \<open>A power event reaches each adapter that is there once.\<close>

lemma power_event_reaches_adapters:
  "calls (powerStateEvent st s)
   = calls s @ map (\<lambda>k. Pass k (UpdateSystemPowerState st)) (filter (interface s) [GNSS, GEOFENCE, BATCHING])"
  by (simp add: powerStateEvent_def pass_def call_api_def)

end
