(* ===== verification/LocationClients.thy ===== *)
theory LocationClients
  imports LocationRequests
begin

text \<open>
  The life of the objects of \<^verbatim>\<open>gps/location/LocationAPI.cpp\<close>: what clients and adapters do in any
  order, what the tables say of the objects that are alive, and which adapters know a client.
\<close>

section \<open>Steps\<close>

text \<open>
  A new object has an address not in use; a client uses its object until it destroys it; an
  adapter completes each removal once, in any order.
\<close>

datatype api_event =
    Create api_callbacks addr
  | Update addr api_callbacks
  | Destroy addr bool
  | Complete nat
  | Requested api_answers api_request
  | ControlGet control_callbacks addr
  | ControlDestroy

definition api_step :: "api_env \<Rightarrow> api_event \<Rightarrow> api \<Rightarrow> api option" where
  "api_step env e s =
     (case e of
        Create cb this \<Rightarrow>
          Some (if this = NULL \<or> this \<in> set (live s) then s else snd (createInstance env cb this s))
      | Update this cb \<Rightarrow>
          Some (if om_get this (clientData s) = None then s else updateCallbacks env this cb s)
      | Destroy this cb \<Rightarrow> destroy this cb s
      | Complete n \<Rightarrow>
          (if n < length (owed s)
           then onRemoveClientCompleteCb (fst (owed s ! n)) (snd (owed s ! n))
                  (s\<lparr>owed := take n (owed s) @ drop (Suc n) (owed s)\<rparr>)
           else Some s)
      | Requested a r \<Rightarrow> Some (request_step a r s)
      | ControlGet cb this \<Rightarrow> Some (snd (control_getInstance env cb this s))
      | ControlDestroy \<Rightarrow> Some (control_destroy s))"

definition api_init :: "api" where
  "api_init = \<lparr>clientData = [], destroyClientData = [], controlAPI = NULL,
     controlCallbacks = \<lparr>ctrlResponseCb = False, ctrlCollectiveResponseCb = False,
       gnssConfigCb = False, odcpiReqCb = False\<rparr>,
     interface = (\<lambda>k. False), loadFailed = (\<lambda>k. False), gEnableMDMGnssHal = 0,
     gReadGnssDeploymentConfigOnce = False, live = [], owed = [], calls = []\<rparr>"

section \<open>Masks\<close>

lemma type_bit_push: "type_bit k = push_bit (case k of GNSS \<Rightarrow> 0 | BATCHING \<Rightarrow> 1 | GEOFENCE \<Rightarrow> 2) 1"
  by (simp add: type_bit_def split: adapter_type.split)

lemma bit_type_bit: "bit (type_bit k) n \<longleftrightarrow> n = (case k of GNSS \<Rightarrow> 0 | BATCHING \<Rightarrow> 1 | GEOFENCE \<Rightarrow> 2)"
  by (auto simp: type_bit_push bit_simps split: adapter_type.split)

lemma bit_wait_mask: "bit (wait_mask ks) n \<longleftrightarrow> (\<exists>k\<in>set ks. bit (type_bit k) n)"
  by (induction ks) (auto simp: wait_mask_def bit_simps)

lemma wait_mask_less: "wait_mask ks AND NOT (type_bit k) = wait_mask (filter (\<lambda>k'. k' \<noteq> k) ks)"
proof (rule bit_word_eqI)
  fix n :: nat
  assume "n < LENGTH(16)"
  have "bit (type_bit k') n \<Longrightarrow> bit (type_bit k) n \<longleftrightarrow> k' = k" for k'
    by (auto simp: bit_type_bit split: adapter_type.splits)
  then show "bit (wait_mask ks AND NOT (type_bit k)) n = bit (wait_mask (filter (\<lambda>k'. k' \<noteq> k) ks)) n"
    using \<open>n < LENGTH(16)\<close> by (auto simp: bit_simps bit_wait_mask)
qed

lemma wait_mask_0: "wait_mask ks = 0 \<longleftrightarrow> ks = []"
proof (cases ks)
  case (Cons k ks')
  have "\<exists>n. bit (type_bit k) n" by (simp add: bit_type_bit)
  then have "\<exists>n. bit (wait_mask ks) n" by (auto simp: Cons bit_wait_mask)
  then show ?thesis by (auto simp: Cons)
qed (simp add: wait_mask_def)

section \<open>Objects and tables\<close>

text \<open>The parts of the state the invariant looks at.\<close>

definition objects :: "api \<Rightarrow> (addr, api_callbacks) ord_map \<times> (addr, destroy_cb_data) ord_map \<times> addr list
    \<times> (adapter_type \<times> addr) list" where
  "objects s = (clientData s, destroyClientData s, live s, owed s)"

definition owed_by :: "addr \<Rightarrow> (adapter_type \<times> addr) list \<Rightarrow> adapter_type list" where
  "owed_by a ow = filter (\<lambda>k. (k, a) \<in> set ow) adapter_types"

text \<open>With \<open>b\<close>, every destruction so far had a callback, so that no object is left over.\<close>

definition objects_ok :: "bool \<Rightarrow> (addr, api_callbacks) ord_map \<Rightarrow> (addr, destroy_cb_data) ord_map
    \<Rightarrow> addr list \<Rightarrow> (adapter_type \<times> addr) list \<Rightarrow> bool" where
  "objects_ok b cs ds l ow \<longleftrightarrow> om_ok cs \<and> om_ok ds \<and> distinct l \<and> distinct ow
     \<and> (\<forall>a. om_get a cs \<noteq> None \<longrightarrow> a \<in> set l \<and> om_get a ds = None)
     \<and> (\<forall>a d. om_get a ds = Some d \<longrightarrow> a \<in> set l \<and> destroyCompleteCb d
           \<and> waitAdapterMask d = wait_mask (owed_by a ow) \<and> owed_by a ow \<noteq> [])
     \<and> (\<forall>k a. (k, a) \<in> set ow \<longrightarrow> a \<in> set l \<and> om_get a cs = None)
     \<and> (b \<longrightarrow> (\<forall>a\<in>set l. om_get a cs \<noteq> None \<or> om_get a ds \<noteq> None))"

definition api_inv :: "bool \<Rightarrow> api \<Rightarrow> bool" where
  "api_inv b s = objects_ok b (clientData s) (destroyClientData s) (live s) (owed s)"

lemma api_inv_cong: "objects s' = objects s \<Longrightarrow> api_inv b s' = api_inv b s"
  by (simp add: api_inv_def objects_def)

lemma objects_call [simp]: "objects (call_api x s) = objects s"
  by (simp add: objects_def call_api_def)

lemma objects_load [simp]: "objects (loadLib env k s) = objects s"
  by (simp add: loadLib_def objects_def call_api_def)

lemma objects_config [simp]: "objects (snd (isInfotainmentHalConfigured env s)) = objects s"
  by (simp add: isInfotainmentHalConfigured_def Let_def objects_def)

lemma objects_join [simp]: "objects (snd (join_adapter env a cb k rs)) = objects (snd rs)"
  by (cases rs) (simp add: join_adapter_def Let_def)

lemma objects_update_adapter [simp]: "objects (update_adapter env a cb c k s) = objects s"
  by (simp add: update_adapter_def Let_def)

lemma objects_request [simp]: "objects (request_step a r s) = objects s"
  using request_step_passed [of s a r] by (auto simp: passed_def objects_def)

lemma objects_set_control [simp]: "objects (s\<lparr>controlAPI := x\<rparr>) = objects s"
  "objects (s\<lparr>controlCallbacks := y\<rparr>) = objects s"
  by (simp_all add: objects_def)

lemma configured:
  obtains inf s0 where "isInfotainmentHalConfigured env s = (inf, s0)" "objects s0 = objects s"
  using objects_config [of env s] by (cases "isInfotainmentHalConfigured env s") simp

lemma objects_control [simp]: "objects (snd (control_getInstance env cb a s)) = objects s"
proof -
  obtain inf s0 where "isInfotainmentHalConfigured env s = (inf, s0)" "objects s0 = objects s"
    by (rule configured)
  then show ?thesis
    by (cases inf) (simp_all add: control_getInstance_def make_control_def set_control_def Let_def loadLibGnss_def)
qed

lemma objects_control_destroy [simp]: "objects (control_destroy s) = objects s"
  by (simp add: control_destroy_def)

lemma objects_clients: "objects (s\<lparr>clientData := c\<rparr>) = (c, snd (objects s))"
  by (simp add: objects_def)

lemma objects_create:
  "objects (snd (createInstance env cb a s)) = objects s
   \<or> objects (snd (createInstance env cb a s))
     = (om_put a cb (clientData s), destroyClientData s, a # live s, owed s)"
proof -
  obtain inf s0 where inf: "isInfotainmentHalConfigured env s = (inf, s0)" "objects s0 = objects s"
    by (rule configured)
  let ?t = "s0\<lparr>live := a # live s0\<rparr>"
  have t: "objects ?t = (clientData s, destroyClientData s, a # live s, owed s)"
    using inf(2) by (simp add: objects_def)
  have put: "objects (r\<lparr>clientData := om_put a cb (clientData r)\<rparr>)
      = (om_put a cb (clientData s), destroyClientData s, a # live s, owed s)"
    if "objects r = objects ?t" for r
    using that t by (simp add: objects_clients) (simp add: objects_def)
  show ?thesis
  proof (cases inf)
    case True
    then show ?thesis using inf by (simp add: createInstance_def)
  next
    case False
    then show ?thesis
      using inf by (simp add: createInstance_def Let_def loadLibGnss_def put)
  qed
qed

lemma update_objects:
  "objects (updateCallbacks env a cb s) = objects s
   \<or> objects (updateCallbacks env a cb s) = (om_put a cb (clientData s), snd (objects s))"
proof (cases "mandatory cb")
  case True
  define s3 where "s3 = update_adapter env a cb (om_get a (clientData s)) GEOFENCE
    (update_adapter env a cb (om_get a (clientData s)) BATCHING
      (update_adapter env a cb (om_get a (clientData s)) GNSS s))"
  have s3: "objects s3 = objects s" by (simp add: s3_def)
  then have "clientData s3 = clientData s" by (simp add: objects_def)
  then show ?thesis
    using True s3 by (simp add: updateCallbacks_def Let_def s3_def [symmetric] objects_clients)
qed (simp add: updateCallbacks_def)

section \<open>Every step keeps the tables\<close>

lemma api_inv_objects: "objects s = (cs, ds, l, ow) \<Longrightarrow> api_inv b s = objects_ok b cs ds l ow"
  by (simp add: api_inv_def objects_def)

lemma objects_okD:
  assumes "objects_ok b cs ds l ow"
  shows "om_ok cs" "om_ok ds" "distinct l" "distinct ow"
    "om_get a cs \<noteq> None \<Longrightarrow> a \<in> set l" "om_get a cs \<noteq> None \<Longrightarrow> om_get a ds = None"
    "om_get a ds = Some d \<Longrightarrow> a \<in> set l" "om_get a ds = Some d \<Longrightarrow> destroyCompleteCb d"
    "om_get a ds = Some d \<Longrightarrow> waitAdapterMask d = wait_mask (owed_by a ow)"
    "om_get a ds = Some d \<Longrightarrow> owed_by a ow \<noteq> []"
    "(k, a) \<in> set ow \<Longrightarrow> a \<in> set l" "(k, a) \<in> set ow \<Longrightarrow> om_get a cs = None"
    "b \<Longrightarrow> a \<in> set l \<Longrightarrow> om_get a cs \<noteq> None \<or> om_get a ds \<noteq> None"
  using assms unfolding objects_ok_def by blast+

lemma objects_okI:
  assumes "om_ok cs" "om_ok ds" "distinct l" "distinct ow"
    "\<And>a. om_get a cs \<noteq> None \<Longrightarrow> a \<in> set l \<and> om_get a ds = None"
    "\<And>a d. om_get a ds = Some d \<Longrightarrow> a \<in> set l \<and> destroyCompleteCb d
       \<and> waitAdapterMask d = wait_mask (owed_by a ow) \<and> owed_by a ow \<noteq> []"
    "\<And>k a. (k, a) \<in> set ow \<Longrightarrow> a \<in> set l \<and> om_get a cs = None"
    "\<And>a. b \<Longrightarrow> a \<in> set l \<Longrightarrow> om_get a cs \<noteq> None \<or> om_get a ds \<noteq> None"
  shows "objects_ok b cs ds l ow"
  using assms unfolding objects_ok_def by blast

lemma create_ok:
  assumes ok: "objects_ok b cs ds l ow" and new: "a \<notin> set l"
  shows "objects_ok b (om_put a cb cs) ds (a # l) ow"
proof (rule objects_okI)
  note D = objects_okD [OF ok]
  have "om_get a cs = None" using D(5) [of a] new by blast
  moreover have "om_get a ds = None" using D(7) [of a] new by (cases "om_get a ds") auto
  ultimately have none: "om_get a cs = None" "om_get a ds = None" .
  show "om_ok (om_put a cb cs)" "om_ok ds" "distinct (a # l)" "distinct ow"
    using D(1-4) new by simp_all
  show "x \<in> set (a # l) \<and> om_get x ds = None" if "om_get x (om_put a cb cs) \<noteq> None" for x
    using that D(1) D(5,6) [of x] none by (cases "x = a") simp_all
  show "x \<in> set (a # l) \<and> destroyCompleteCb d \<and> waitAdapterMask d = wait_mask (owed_by x ow) \<and> owed_by x ow \<noteq> []"
    if "om_get x ds = Some d" for x d
    using D(7-10) [OF that] by simp
  show "x \<in> set (a # l) \<and> om_get x (om_put a cb cs) = None" if "(k, x) \<in> set ow" for k x
    using D(11,12) [OF that] D(1) new by (cases "x = a") simp_all
  show "om_get x (om_put a cb cs) \<noteq> None \<or> om_get x ds \<noteq> None" if "b" "x \<in> set (a # l)" for x
    using D(13) [OF that(1), of x] that D(1) by (cases "x = a") simp_all
qed

lemma update_ok:
  assumes ok: "objects_ok b cs ds l ow" and known: "om_get a cs \<noteq> None"
  shows "objects_ok b (om_put a cb cs) ds l ow"
proof (rule objects_okI)
  note D = objects_okD [OF ok]
  show "om_ok (om_put a cb cs)" "om_ok ds" "distinct l" "distinct ow" using D(1-4) by simp_all
  show "x \<in> set l \<and> om_get x ds = None" if "om_get x (om_put a cb cs) \<noteq> None" for x
    using that D(1) D(5,6) [of x] known by (cases "x = a") simp_all
  show "x \<in> set l \<and> destroyCompleteCb d \<and> waitAdapterMask d = wait_mask (owed_by x ow) \<and> owed_by x ow \<noteq> []"
    if "om_get x ds = Some d" for x d
    using D(7-10) [OF that] by simp
  show "x \<in> set l \<and> om_get x (om_put a cb cs) = None" if "(k, x) \<in> set ow" for k x
    using D(11,12) [OF that] D(1) known by (cases "x = a") simp_all
  show "om_get x (om_put a cb cs) \<noteq> None \<or> om_get x ds \<noteq> None" if "b" "x \<in> set l" for x
    using D(13) [OF that] D(1) by (cases "x = a") simp_all
qed

lemma create_inv:
  assumes "api_inv b s" "a \<notin> set (live s)"
  shows "api_inv b (snd (createInstance env cb a s))"
  using objects_create [of env cb a s]
proof
  assume "objects (snd (createInstance env cb a s)) = objects s"
  then show ?thesis using assms(1) api_inv_cong by blast
next
  assume eq: "objects (snd (createInstance env cb a s))
    = (om_put a cb (clientData s), destroyClientData s, a # live s, owed s)"
  show ?thesis unfolding api_inv_objects [OF eq] using assms unfolding api_inv_def by (rule create_ok)
qed

lemma update_inv:
  assumes "api_inv b s" "om_get a (clientData s) \<noteq> None"
  shows "api_inv b (updateCallbacks env a cb s)"
  using update_objects [of env a cb s]
proof
  assume "objects (updateCallbacks env a cb s) = objects s"
  then show ?thesis using assms(1) api_inv_cong by blast
next
  assume "objects (updateCallbacks env a cb s) = (om_put a cb (clientData s), snd (objects s))"
  then have eq: "objects (updateCallbacks env a cb s)
     = (om_put a cb (clientData s), destroyClientData s, live s, owed s)"
    by (simp add: objects_def)
  show ?thesis
    unfolding api_inv_objects [OF eq] using assms unfolding api_inv_def by (rule update_ok)
qed

text \<open>The destruction of an object, and the completion by an adapter.\<close>

lemma remove_all_objects:
  "objects (fold (remove_from a) ks s) = (clientData s, destroyClientData s, live s, owed s @ map (\<lambda>k. (k, a)) ks)"
proof (induction ks arbitrary: s)
  case (Cons k ks)
  have "clientData (remove_from a k s) = clientData s" "destroyClientData (remove_from a k s) = destroyClientData s"
    "live (remove_from a k s) = live s" "owed (remove_from a k s) = owed s @ [(k, a)]"
    by (simp_all add: remove_from_def call_api_def)
  then show ?case using Cons [of "remove_from a k s"] by simp
qed (simp add: objects_def)

lemma all_adapter_types [simp]: "k \<in> set adapter_types"
  by (cases k) (simp_all add: adapter_types_def)

lemma owed_by_Nil: "owed_by a ow = [] \<longleftrightarrow> (\<forall>k. (k, a) \<notin> set ow)"
  by (auto simp: owed_by_def filter_empty_conv)

lemma owed_by_append:
  "\<forall>k. (k, a) \<notin> set ow \<Longrightarrow>
    owed_by x (ow @ map (\<lambda>k. (k, a)) (filter P adapter_types))
    = (if x = a then filter P adapter_types else owed_by x ow)"
  by (auto simp: owed_by_def intro!: filter_cong)

lemma owed_by_remove:
  "distinct (pre @ (k, a) # post) \<Longrightarrow>
    owed_by x (pre @ post) = (if x = a then filter (\<lambda>k'. k' \<noteq> k) (owed_by a (pre @ (k, a) # post))
      else owed_by x (pre @ (k, a) # post))"
  by (auto simp: owed_by_def filter_filter intro!: filter_cong)

lemma delete_ok:
  assumes ok: "objects_ok b cs ds l ow" and none: "\<forall>k. (k, a) \<notin> set ow"
  shows "objects_ok b (om_erase a cs) (om_erase a ds) (remove1 a l) ow"
proof (rule objects_okI)
  note D = objects_okD [OF ok]
  have l: "set (remove1 a l) = set l - {a}" using D(3) by simp
  show "om_ok (om_erase a cs)" "om_ok (om_erase a ds)" "distinct (remove1 a l)" "distinct ow"
    using D(1-4) by simp_all
  show "x \<in> set (remove1 a l) \<and> om_get x (om_erase a ds) = None" if "om_get x (om_erase a cs) \<noteq> None" for x
    using that D(5,6) [of x] l by (cases "x = a") simp_all
  show "x \<in> set (remove1 a l) \<and> destroyCompleteCb d \<and> waitAdapterMask d = wait_mask (owed_by x ow) \<and> owed_by x ow \<noteq> []"
    if "om_get x (om_erase a ds) = Some d" for x d
    using that D(7-10) [of x d] l by (cases "x = a") simp_all
  show "x \<in> set (remove1 a l) \<and> om_get x (om_erase a cs) = None" if "(k, x) \<in> set ow" for k x
    using D(11,12) [OF that] that none l by (cases "x = a") simp_all
  show "om_get x (om_erase a cs) \<noteq> None \<or> om_get x (om_erase a ds) \<noteq> None" if "b" "x \<in> set (remove1 a l)" for x
    using D(13) [OF that(1), of x] that(2) l by simp
qed

lemma destroy_ok:
  assumes ok: "objects_ok b cs ds l ow" and known: "om_get a cs \<noteq> None" and cb: "b \<longrightarrow> cb"
    and ks: "ks = filter P adapter_types" "ks \<noteq> []"
  shows "objects_ok b (om_erase a cs)
    (if cb then om_put a \<lparr>waitAdapterMask = wait_mask ks, destroyCompleteCb = cb\<rparr> ds else ds)
    l (ow @ map (\<lambda>k. (k, a)) ks)"
proof (rule objects_okI)
  note D = objects_okD [OF ok]
  let ?ds = "if cb then om_put a \<lparr>waitAdapterMask = wait_mask ks, destroyCompleteCb = cb\<rparr> ds else ds"
  let ?ow = "ow @ map (\<lambda>k. (k, a)) ks"
  have a: "a \<in> set l" "om_get a ds = None" "\<forall>k. (k, a) \<notin> set ow"
    using D(5,6) [OF known] D(12) known by auto
  have owed: "owed_by x ?ow = (if x = a then ks else owed_by x ow)" for x
    unfolding ks(1) by (rule owed_by_append [OF a(3)])
  have ds: "om_get x ?ds = (if cb \<and> x = a then Some \<lparr>waitAdapterMask = wait_mask ks, destroyCompleteCb = cb\<rparr>
      else om_get x ds)" for x
    using D(2) by simp
  show "om_ok (om_erase a cs)" "om_ok ?ds" "distinct l" using D(1-3) by simp_all
  have "distinct ks" by (simp add: ks(1) adapter_types_def)
  then show "distinct ?ow" using D(4) a(3) by (auto simp: distinct_map inj_on_def)
  show "x \<in> set l \<and> om_get x ?ds = None" if "om_get x (om_erase a cs) \<noteq> None" for x
    using that D(5,6) [of x] ds [of x] by (cases "x = a") simp_all
  show "x \<in> set l \<and> destroyCompleteCb d \<and> waitAdapterMask d = wait_mask (owed_by x ?ow) \<and> owed_by x ?ow \<noteq> []"
    if "om_get x ?ds = Some d" for x d
  proof (cases "x = a")
    case True
    then show ?thesis using that ds [of x] a ks(2) owed [of x] by (cases cb) auto
  next
    case False
    then have "om_get x ds = Some d" using that ds [of x] by simp
    then show ?thesis using D(7-10) [of x d] owed [of x] False by simp
  qed
  show "x \<in> set l \<and> om_get x (om_erase a cs) = None" if "(k, x) \<in> set ?ow" for k x
  proof (cases "x = a")
    case False
    then have "(k, x) \<in> set ow" using that by auto
    then show ?thesis using D(11,12) [of k x] False by simp
  qed (use a in simp)
  show "om_get x (om_erase a cs) \<noteq> None \<or> om_get x ?ds \<noteq> None" if "b" "x \<in> set l" for x
    using D(13) [OF that] ds [of x] cb that(1) by (cases "x = a") simp_all
qed

lemma completed_ok:
  assumes ok: "objects_ok b cs ds l (pre @ (k, a) # post)" and m: "m = owed_by a (pre @ post)"
  shows "om_get a ds = None \<Longrightarrow> objects_ok b cs ds l (pre @ post)"
    "om_get a ds = Some d \<Longrightarrow> m \<noteq> []
      \<Longrightarrow> objects_ok b cs (om_put a (d\<lparr>waitAdapterMask := wait_mask m\<rparr>) ds) l (pre @ post)"
    "om_get a ds = Some d \<Longrightarrow> m = [] \<Longrightarrow> objects_ok b (om_erase a cs) (om_erase a ds) (remove1 a l) (pre @ post)"
proof -
  note D = objects_okD [OF ok]
  have other: "owed_by x (pre @ post) = owed_by x (pre @ (k, a) # post)" if "x \<noteq> a" for x
    using owed_by_remove [OF D(4)] that by simp
  have owed: "x \<in> set l \<and> om_get x cs = None" if "(k', x) \<in> set (pre @ post)" for k' x
    using D(11,12) [of k' x] that by auto
  show none: "objects_ok b cs ds l (pre @ post)" if "om_get a ds = None"
  proof (rule objects_okI)
    show "x \<in> set l \<and> destroyCompleteCb d \<and> waitAdapterMask d = wait_mask (owed_by x (pre @ post))
       \<and> owed_by x (pre @ post) \<noteq> []" if "om_get x ds = Some d" for x d
      using D(7-10) [OF that] other [of x] that \<open>om_get a ds = None\<close> by (cases "x = a") simp_all
  qed (use D owed in auto)
  show "objects_ok b cs (om_put a (d\<lparr>waitAdapterMask := wait_mask m\<rparr>) ds) l (pre @ post)"
    if d: "om_get a ds = Some d" "m \<noteq> []"
  proof (rule objects_okI)
    let ?ds = "om_put a (d\<lparr>waitAdapterMask := wait_mask m\<rparr>) ds"
    have get: "om_get x ?ds = (if x = a then Some (d\<lparr>waitAdapterMask := wait_mask m\<rparr>) else om_get x ds)" for x
      using D(2) by simp
    show "om_ok ?ds" using D(2) by simp
    show "x \<in> set l \<and> om_get x ?ds = None" if "om_get x cs \<noteq> None" for x
      using D(5,6) [OF that] get [of x] d by (cases "x = a") simp_all
    show "x \<in> set l \<and> destroyCompleteCb e \<and> waitAdapterMask e = wait_mask (owed_by x (pre @ post))
       \<and> owed_by x (pre @ post) \<noteq> []" if "om_get x ?ds = Some e" for x e
    proof (cases "x = a")
      case True
      then show ?thesis using that get [of x] D(7,8) [OF d(1)] d(2) m by auto
    next
      case False
      then have "om_get x ds = Some e" using that get [of x] by simp
      then show ?thesis using D(7-10) [of x e] other [OF False] by simp
    qed
    show "om_get x cs \<noteq> None \<or> om_get x ?ds \<noteq> None" if "b" "x \<in> set l" for x
      using D(13) [OF that] get [of x] by (cases "x = a") simp_all
  qed (use D owed in auto)
  show "objects_ok b (om_erase a cs) (om_erase a ds) (remove1 a l) (pre @ post)"
    if d: "om_get a ds = Some d" "m = []"
  proof (rule objects_okI)
    have l: "set (remove1 a l) = set l - {a}" using D(3) by simp
    have gone: "x \<noteq> a" if "(k', x) \<in> set (pre @ post)" for k' x
      using that d(2) m by (auto simp: owed_by_Nil)
    show "om_ok (om_erase a cs)" "om_ok (om_erase a ds)" "distinct (remove1 a l)" "distinct (pre @ post)"
      using D(1-4) by simp_all
    show "x \<in> set (remove1 a l) \<and> om_get x (om_erase a ds) = None" if "om_get x (om_erase a cs) \<noteq> None" for x
      using that D(5,6) [of x] l by (cases "x = a") simp_all
    show "x \<in> set (remove1 a l) \<and> destroyCompleteCb e \<and> waitAdapterMask e = wait_mask (owed_by x (pre @ post))
       \<and> owed_by x (pre @ post) \<noteq> []" if "om_get x (om_erase a ds) = Some e" for x e
      using that D(7-10) [of x e] other [of x] l by (cases "x = a") simp_all
    show "x \<in> set (remove1 a l) \<and> om_get x (om_erase a cs) = None" if "(k', x) \<in> set (pre @ post)" for k' x
      using owed [OF that] gone [OF that] l by simp
    show "om_get x (om_erase a cs) \<noteq> None \<or> om_get x (om_erase a ds) \<noteq> None"
      if "b" "x \<in> set (remove1 a l)" for x
      using D(13) [OF that(1), of x] that(2) l by simp
  qed
qed

lemma om_erase_none: "om_ok m \<Longrightarrow> om_get a m = None \<Longrightarrow> om_erase a m = m"
  by (rule om_erase_absent)

lemma destroy_inv:
  assumes s: "api_inv b s" and cb: "b \<longrightarrow> cb"
  shows "b \<Longrightarrow> destroy a cb s \<noteq> None" "destroy a cb s = Some s' \<Longrightarrow> api_inv b s'"
proof -
  note ok = s [unfolded api_inv_def]
  note D = objects_okD [OF ok]
  have "(b \<longrightarrow> destroy a cb s \<noteq> None) \<and> (destroy a cb s = Some s' \<longrightarrow> api_inv b s')" for s'
  proof (cases "om_get a (clientData s)")
    case None
    then show ?thesis using s by (auto simp: destroy_def)
  next
    case (Some c)
    define ks where "ks = filter (interface s) adapter_types"
    show ?thesis
    proof (cases "ks = []")
      case True
      have d: "destroy a cb s = finish_destroy cb a (s\<lparr>clientData := om_erase a (clientData s)\<rparr>)"
        using True by (simp add: destroy_def Some ks_def)
      have live: "a \<in> set (live s)" "om_get a (destroyClientData s) = None" "\<forall>k. (k, a) \<notin> set (owed s)"
        using D(5,6) [of a] D(12) [of _ a] Some by auto
      show ?thesis
      proof (cases cb)
        case True
        have "objects_ok b (om_erase a (clientData s)) (destroyClientData s) (remove1 a (live s)) (owed s)"
          using delete_ok [OF ok live(3)] om_erase_none [OF D(2) live(2)] by simp
        then show ?thesis
          using True d live by (auto simp: finish_destroy_def delete_this_def api_inv_def)
      next
        case False
        then show ?thesis using cb d by (simp add: finish_destroy_def invoke_destroy_cb_def)
      qed
    next
      case False
      define s1 where "s1 = (if cb then s\<lparr>destroyClientData := om_put a
         \<lparr>waitAdapterMask = wait_mask ks, destroyCompleteCb = cb\<rparr> (destroyClientData s)\<rparr> else s)"
      define s2 where "s2 = fold (remove_from a) ks s1"
      have s2: "objects s2 = (clientData s1, destroyClientData s1, live s1, owed s1 @ map (\<lambda>k. (k, a)) ks)"
        unfolding s2_def by (rule remove_all_objects)
      have d: "destroy a cb s = Some (s2\<lparr>clientData := om_erase a (clientData s2)\<rparr>)"
        using False by (simp add: destroy_def Some Let_def ks_def [symmetric] s1_def [symmetric] s2_def [symmetric])
      have s1: "clientData s1 = clientData s" "live s1 = live s" "owed s1 = owed s"
        "destroyClientData s1 = (if cb then om_put a \<lparr>waitAdapterMask = wait_mask ks, destroyCompleteCb = cb\<rparr>
            (destroyClientData s) else destroyClientData s)"
        by (simp_all add: s1_def)
      have "om_get a (clientData s) \<noteq> None" using Some by simp
      from destroy_ok [OF ok this cb ks_def False]
      have "api_inv b (s2\<lparr>clientData := om_erase a (clientData s2)\<rparr>)"
        using s2 s1 by (simp add: api_inv_def objects_def)
      then show ?thesis using d by auto
    qed
  qed
  then show "b \<Longrightarrow> destroy a cb s \<noteq> None" "destroy a cb s = Some s' \<Longrightarrow> api_inv b s'" by blast+
qed

lemma split_nth: "n < length xs \<Longrightarrow> xs = take n xs @ xs ! n # drop (Suc n) xs"
  by (rule id_take_nth_drop)

lemma complete_inv:
  assumes s: "api_inv b s" and n: "n < length (owed s)"
  shows "\<exists>s'. onRemoveClientCompleteCb (fst (owed s ! n)) (snd (owed s ! n))
      (s\<lparr>owed := take n (owed s) @ drop (Suc n) (owed s)\<rparr>) = Some s' \<and> api_inv b s'"
proof -
  obtain k a where ka: "owed s ! n = (k, a)" by (cases "owed s ! n")
  define pre post where "pre = take n (owed s)" and "post = drop (Suc n) (owed s)"
  have ow: "owed s = pre @ (k, a) # post" unfolding pre_def post_def ka [symmetric] by (rule split_nth [OF n])
  note ok = s [unfolded api_inv_def ow]
  note D = objects_okD [OF ok]
  note C = completed_ok [OF ok refl]
  let ?s = "s\<lparr>owed := pre @ post\<rparr>"
  have a: "a \<in> set (live s)" using D(11) [of k a] by simp
  have none: "om_get a (clientData s) = None" using D(12) [of k a] by simp
  have "\<exists>s'. onRemoveClientCompleteCb k a ?s = Some s' \<and> api_inv b s'"
  proof (cases "om_get a (destroyClientData s)")
    case None
    then show ?thesis using C(1) a by (simp add: onRemoveClientCompleteCb_def api_inv_def)
  next
    case (Some d)
    define m where "m = owed_by a (pre @ post)"
    have mask: "waitAdapterMask d AND NOT (type_bit k) = wait_mask m"
      using D(9) [OF Some] owed_by_remove [OF D(4), of a] by (simp add: m_def wait_mask_less)
    have cb: "destroyCompleteCb d" by (rule D(8) [OF Some])
    show ?thesis
    proof (cases "m = []")
      case True
      have "objects_ok b (clientData s) (om_erase a (destroyClientData s)) (remove1 a (live s)) (pre @ post)"
        using C(3) [OF Some] True om_erase_none [OF D(1) none] by (simp add: m_def)
      then show ?thesis
        using True mask a cb
        by (simp add: onRemoveClientCompleteCb_def Some wait_mask_0 finish_destroy_def delete_this_def
            api_inv_def)
    next
      case False
      have "objects_ok b (clientData s) (om_put a (d\<lparr>waitAdapterMask := wait_mask m\<rparr>) (destroyClientData s))
         (live s) (pre @ post)"
        using C(2) [OF Some] False by (simp add: m_def)
      then show ?thesis
        using False mask a by (simp add: onRemoveClientCompleteCb_def Some wait_mask_0 api_inv_def)
    qed
  qed
  then show ?thesis by (simp add: ka pre_def post_def)
qed

fun with_callback :: "api_event \<Rightarrow> bool" where
  "with_callback (Destroy a cb) = cb"
| "with_callback e = True"

lemma api_step_inv:
  assumes s: "api_inv b s" and e: "b \<longrightarrow> with_callback e"
  shows "b \<Longrightarrow> api_step env e s \<noteq> None" "api_step env e s = Some s' \<Longrightarrow> api_inv b s'"
proof -
  have "(b \<longrightarrow> api_step env e s \<noteq> None) \<and> (api_step env e s = Some s' \<longrightarrow> api_inv b s')" for s'
  proof (cases e)
    case (Create cb a)
    then show ?thesis using s create_inv [OF s, of a env cb] by (auto simp: api_step_def)
  next
    case (Update a cb)
    then show ?thesis using s update_inv [OF s, of a env cb] by (auto simp: api_step_def)
  next
    case (Destroy a cb)
    then show ?thesis using destroy_inv [OF s, of cb a] e by (simp add: api_step_def)
  next
    case (Complete n)
    then show ?thesis using s complete_inv [OF s, of n] by (auto simp: api_step_def)
  next
    case (Requested x r)
    then show ?thesis using s api_inv_cong [of "request_step x r s" s b] by (auto simp: api_step_def)
  next
    case (ControlGet cb a)
    then show ?thesis using s api_inv_cong [of "snd (control_getInstance env cb a s)" s b]
      by (auto simp: api_step_def)
  next
    case ControlDestroy
    then show ?thesis using s api_inv_cong [of "control_destroy s" s b] by (auto simp: api_step_def)
  qed
  then show "b \<Longrightarrow> api_step env e s \<noteq> None" "api_step env e s = Some s' \<Longrightarrow> api_inv b s'" by blast+
qed

lemma api_inv_init: "api_inv b api_init"
  by (simp add: api_inv_def objects_ok_def api_init_def)

interpretation api: total_system "api_step env" "api_inv True" with_callback for env
proof unfold_locales
  fix s x s'
  assume *: "api_inv True s" "with_callback x"
  show "api_step env x s \<noteq> None" using api_step_inv(1) [OF *(1)] *(2) by blast
  show "api_inv True s'" if "api_step env x s = Some s'"
    using api_step_inv(2) [OF *(1) _ that] *(2) by blast
qed

section \<open>Objects are reclaimed\<close>

definition test_env :: api_env where
  "test_env = \<lparr>lib = (\<lambda>k. k \<noteq> GEOFENCE), gnssDeployment = None, clientApiImpl = NULL, integrationApiImpl = NULL\<rparr>"

definition test_callbacks :: "bool \<Rightarrow> bool \<Rightarrow> api_callbacks" where
  "test_callbacks gnss batch =
     \<lparr>capabilitiesCb = True, responseCb = True, collectiveResponseCb = True, trackingCb = gnss, batchingCb = batch,
      batchingStatusCb = False, geofenceBreachCb = False, geofenceStatusCb = False, gnssNiCb = False,
      gnssLocationInfoCb = False, engineLocationsInfoCb = False, gnssSvCb = False, gnssNmeaCb = False,
      engineNmeaCb = False, gnssDataCb = False, gnssMeasurementsCb = False, gnssNHzMeasurementsCb = False,
      locationSystemInfoCb = False, gnssDcReportCb = False, gnssSignalTypesCb = False\<rparr>"

definition api_run :: "api_env \<Rightarrow> api_event list \<Rightarrow> api option" where
  "api_run env evs = run (api_step env) evs api_init"

text \<open>
  C12: While every destruction gives a callback, no operation throws or touches a deleted object, and an
  object that is still alive belongs to a client or waits for an adapter: nothing leaks.
\<close>

theorem location_objects_are_reclaimed:
  assumes "list_all with_callback evs"
  shows "\<exists>s. api_run env evs = Some s \<and> distinct (live s)
    \<and> (\<forall>a\<in>set (live s). om_get a (clientData s) \<noteq> None \<or> (\<exists>k. (k, a) \<in> set (owed s)))"
proof -
  obtain s where s: "api_run env evs = Some s" "api_inv True s"
    using api.run_total [OF api_inv_init assms, of env] by (auto simp: api_run_def)
  note D = objects_okD [OF s(2) [unfolded api_inv_def]]
  have "om_get a (clientData s) \<noteq> None \<or> (\<exists>k. (k, a) \<in> set (owed s))" if "a \<in> set (live s)" for a
    using D(13) [OF _ that] D(10) [of a] by (auto simp: owed_by_Nil)
  with s(1) D(3) show ?thesis by auto
qed

theorem location_objects_are_reclaimed_witness:
  "\<exists>s. api_run test_env [Create (test_callbacks True True) 7, Destroy 7 True, Complete 1, Complete 0] = Some s
     \<and> distinct (live s) \<and> (\<forall>a\<in>set (live s). om_get a (clientData s) \<noteq> None \<or> (\<exists>k. (k, a) \<in> set (owed s)))"
  by (rule location_objects_are_reclaimed) simp

text \<open>
  Without a callback, the object is never deleted when an adapter had to remove the client, and the
  call of the missing callback throws when no adapter was there.
\<close>

theorem destroy_without_callback_leaks_or_throws:
  "map_option (\<lambda>s. (live s, clientData s, owed s))
     (api_run test_env [Create (test_callbacks True True) 7, Destroy 7 False, Complete 0, Complete 0])
     = Some ([7], [], [])
   \<and> api_run (test_env\<lparr>lib := \<lambda>k. False\<rparr>) [Create (test_callbacks True True) 7, Destroy 7 False] = None"
  by code_simp

section \<open>The callback is never called\<close>

definition uncalled :: "api \<Rightarrow> bool" where
  "uncalled s \<longleftrightarrow> (\<forall>a. DestroyCompleted a \<notin> set (calls s))"

lemma uncalled_call [simp]: "uncalled (call_api x s) \<longleftrightarrow> uncalled s \<and> (\<forall>a. x \<noteq> DestroyCompleted a)"
  by (auto simp: uncalled_def call_api_def)

lemma uncalled_cong: "calls s' = calls s \<Longrightarrow> uncalled s' = uncalled s"
  by (simp add: uncalled_def)

lemma uncalled_fields [simp]:
  "uncalled (s\<lparr>interface := i\<rparr>) = uncalled s" "uncalled (s\<lparr>loadFailed := i\<rparr>) = uncalled s"
  "uncalled (s\<lparr>clientData := c\<rparr>) = uncalled s" "uncalled (s\<lparr>destroyClientData := d\<rparr>) = uncalled s"
  "uncalled (s\<lparr>live := l\<rparr>) = uncalled s" "uncalled (s\<lparr>owed := ow\<rparr>) = uncalled s"
  "uncalled (s\<lparr>controlAPI := x\<rparr>) = uncalled s" "uncalled (s\<lparr>controlCallbacks := y\<rparr>) = uncalled s"
  by (rule uncalled_cong; simp)+

lemma uncalled_config [simp]: "uncalled (snd (isInfotainmentHalConfigured env s)) = uncalled s"
  by (rule uncalled_cong) (simp add: isInfotainmentHalConfigured_def Let_def)

lemma uncalled_load [simp]: "uncalled (loadLib env k s) = uncalled s"
  by (simp add: loadLib_def)

lemma uncalled_join [simp]: "uncalled (snd (join_adapter env a cb k rs)) = uncalled (snd rs)"
  by (simp add: join_adapter_def Let_def)

lemma uncalled_create [simp]: "uncalled (snd (createInstance env cb a s)) = uncalled s"
proof -
  obtain inf s0 where inf: "isInfotainmentHalConfigured env s = (inf, s0)"
    by (cases "isInfotainmentHalConfigured env s")
  then have "uncalled s0 = uncalled s" using uncalled_config [of env s] by simp
  then show ?thesis
    by (cases inf) (simp_all add: createInstance_def inf Let_def loadLibGnss_def)
qed

lemma uncalled_update [simp]: "uncalled (updateCallbacks env a cb s) = uncalled s"
  by (simp add: updateCallbacks_def Let_def update_adapter_def)

lemma uncalled_control [simp]: "uncalled (snd (control_getInstance env cb a s)) = uncalled s"
proof -
  obtain inf s0 where inf: "isInfotainmentHalConfigured env s = (inf, s0)"
    by (cases "isInfotainmentHalConfigured env s")
  then have "uncalled s0 = uncalled s" using uncalled_config [of env s] by simp
  then show ?thesis
    by (cases inf) (simp_all add: control_getInstance_def make_control_def set_control_def inf Let_def loadLibGnss_def)
qed

lemma uncalled_request [simp]: "uncalled (request_step x r s) = uncalled s"
  using request_step_passed [of s x r] by (auto simp: passed_def uncalled_def)

lemma uncalled_finish: "finish_destroy cb a s = Some s' \<Longrightarrow> uncalled s \<Longrightarrow> uncalled s'"
  by (auto simp: finish_destroy_def invoke_destroy_cb_def delete_this_def split: if_splits)

lemma uncalled_remove [simp]: "uncalled (fold (remove_from a) ks s) = uncalled s"
  by (induction ks arbitrary: s) (simp_all add: remove_from_def)

lemma uncalled_step:
  assumes "uncalled s" "api_step env e s = Some s'"
  shows "uncalled s'"
proof (cases e)
  case (Destroy a cb)
  then show ?thesis
    using assms uncalled_finish [of cb a] by (auto simp: api_step_def destroy_def Let_def split: option.splits if_splits)
next
  case (Complete n)
  then show ?thesis
    using assms
    by (auto simp: api_step_def onRemoveClientCompleteCb_def Let_def split: option.splits if_splits
        elim!: uncalled_finish)
next
  case ControlDestroy
  then show ?thesis using assms by (auto simp: api_step_def control_destroy_def)
qed (use assms in \<open>auto simp: api_step_def split: if_splits\<close>)

interpretation uncalled: invariant_system "api_step env" uncalled "\<lambda>e. True" for env
  by unfold_locales (rule uncalled_step)

text \<open>
  No sequence of operations ever calls the callback a client gave to the destruction of its object.
\<close>

theorem destroy_callback_never_called:
  assumes "api_run env evs = Some s"
  shows "DestroyCompleted a \<notin> set (calls s)"
proof -
  have "uncalled api_init" by (simp add: uncalled_def api_init_def)
  moreover have "list_all (\<lambda>e. True) evs" by (induction evs) simp_all
  ultimately have "uncalled s"
    using uncalled.run_inv [of api_init evs env s] assms by (simp add: api_run_def)
  then show ?thesis by (simp add: uncalled_def)
qed

theorem destroy_callback_never_called_witness:
  "\<exists>s. api_run test_env [Create (test_callbacks True True) 7, Destroy 7 True, Complete 0, Complete 0] = Some s
     \<and> live s = [] \<and> DestroyCompleted 7 \<notin> set (calls s)"
proof -
  let ?r = "api_run test_env [Create (test_callbacks True True) 7, Destroy 7 True, Complete 0, Complete 0]"
  have "map_option live ?r = Some []" by code_simp
  then obtain s where s: "?r = Some s" "live s = []" by auto
  from destroy_callback_never_called [OF s(1), of 7] s show ?thesis by blast
qed

section \<open>Which adapters know a client\<close>

text \<open>The table of clients that the calls made leave in an adapter.\<close>

fun register :: "adapter_type \<Rightarrow> api_request api_call \<Rightarrow> (addr \<rightharpoonup> api_callbacks) \<Rightarrow> (addr \<rightharpoonup> api_callbacks)" where
  "register k (AddClient k' a cb) r = (if k' = k then r(a \<mapsto> cb) else r)"
| "register k (RemoveClient k' a w) r = (if k' = k then r(a := None) else r)"
| "register k c r = r"

definition registered :: "adapter_type \<Rightarrow> api \<Rightarrow> (addr \<rightharpoonup> api_callbacks)" where
  "registered k s = fold (register k) (calls s) Map.empty"

text \<open>What concerns one adapter: its interface, whether it failed to load, and its clients.\<close>

type_synonym slot = "bool \<times> bool \<times> (addr \<rightharpoonup> api_callbacks)"

definition slot :: "adapter_type \<Rightarrow> api \<Rightarrow> slot" where
  "slot k s = (interface s k, loadFailed s k, registered k s)"

definition slot_load :: "api_env \<Rightarrow> adapter_type \<Rightarrow> slot \<Rightarrow> slot" where
  "slot_load env k = (\<lambda>(i, f, r). if \<not> i \<and> \<not> f then (lib env k, \<not> lib env k, r) else (i, f, r))"

definition slot_call :: "adapter_type \<Rightarrow> api_request api_call \<Rightarrow> slot \<Rightarrow> slot" where
  "slot_call k c = (\<lambda>(i, f, r). (i, f, register k c r))"

text \<open>What the slot of an adapter says of a client with the callbacks \<open>cb\<close>.\<close>

definition known :: "adapter_type \<Rightarrow> addr \<Rightarrow> api_callbacks \<Rightarrow> slot \<Rightarrow> bool" where
  "known k a cb = (\<lambda>(i, f, r).
     (if is_client k cb then i \<and> r a = Some cb \<or> \<not> i \<and> f \<and> r a = None else k \<noteq> GNSS \<longrightarrow> r a = None)
     \<and> (r a \<noteq> None \<longrightarrow> i))"

definition known_opt :: "adapter_type \<Rightarrow> addr \<Rightarrow> api_callbacks option \<Rightarrow> slot \<Rightarrow> bool" where
  "known_opt k a c sl = (case c of None \<Rightarrow> snd (snd sl) a = None | Some cb \<Rightarrow> known k a cb sl)"

definition registered_ok :: "api \<Rightarrow> bool" where
  "registered_ok s \<longleftrightarrow> (\<forall>k a. known_opt k a (om_get a (clientData s)) (slot k s))"

lemma slot_call_api [simp]:
  "(\<forall>k'. x \<noteq> Initialize k') \<Longrightarrow> slot k (call_api x s) = slot_call k x (slot k s)"
  by (simp add: slot_def slot_call_def registered_def call_api_def)

lemma clientData_call [simp]: "clientData (call_api x s) = clientData s"
  by (simp add: call_api_def)

lemma slot_load_lib [simp]:
  "slot k' (loadLib env k s) = (if k' = k then slot_load env k (slot k s) else slot k' s)"
  by (simp add: loadLib_def slot_def slot_load_def registered_def call_api_def)

lemma slot_cong:
  "interface s' = interface s \<Longrightarrow> loadFailed s' = loadFailed s \<Longrightarrow> calls s' = calls s \<Longrightarrow> slot k s' = slot k s"
  by (simp add: slot_def registered_def)

lemma slot_fields [simp]:
  "slot k (s\<lparr>clientData := c\<rparr>) = slot k s" "slot k (s\<lparr>destroyClientData := d\<rparr>) = slot k s"
  "slot k (s\<lparr>live := l\<rparr>) = slot k s" "slot k (s\<lparr>owed := ow\<rparr>) = slot k s"
  "slot k (s\<lparr>controlAPI := x\<rparr>) = slot k s" "slot k (s\<lparr>controlCallbacks := y\<rparr>) = slot k s"
  by (rule slot_cong; simp)+

lemma slot_config [simp]: "slot k (snd (isInfotainmentHalConfigured env s)) = slot k s"
  by (rule slot_cong) (simp_all add: isInfotainmentHalConfigured_def Let_def)

lemma interface_slot: "interface s k = fst (slot k s)"
  by (simp add: slot_def)

lemma slot_call_other [simp]:
  "k' \<noteq> k \<Longrightarrow> slot_call k' (AddClient k a cb) sl = sl" "k' \<noteq> k \<Longrightarrow> slot_call k' (RemoveClient k a w) sl = sl"
  "slot_call k' (RequestCapabilities k a) sl = sl" "slot_call k' (UpdateCallbacks a cb) sl = sl"
  "slot_call k' (SetControlCallbacks y) sl = sl" "slot_call k' (Pass k r) sl = sl"
  "slot_call k' (DestroyCompleted a) sl = sl"
  by (cases sl; simp add: slot_call_def)+

definition slot_join :: "api_env \<Rightarrow> adapter_type \<Rightarrow> addr \<Rightarrow> api_callbacks \<Rightarrow> slot \<Rightarrow> slot" where
  "slot_join env k a cb sl =
     (let sl1 = slot_load env k sl in if fst sl1 then slot_call k (AddClient k a cb) sl1 else sl1)"

lemma slot_join_adapter [simp]:
  "slot k' (snd (join_adapter env a cb k rs))
   = (if k' = k \<and> is_client k cb then slot_join env k a cb (slot k (snd rs)) else slot k' (snd rs))"
  by (simp add: join_adapter_def Let_def slot_join_def interface_slot)

lemma slot_update_adapter [simp]:
  "slot k' (update_adapter env a cb c k s)
   = (if k' = k then
        (if is_client k cb then slot_join env k a cb (slot k s)
         else if fst (slot k s) \<and> (case c of Some c \<Rightarrow> is_client k c | None \<Rightarrow> False)
         then slot_call k (RemoveClient k a False) (slot k s) else slot k s)
      else slot k' s)"
  by (simp add: update_adapter_def Let_def slot_join_def interface_slot)

lemma known_opt_other: "x \<noteq> a \<Longrightarrow> known_opt k x c sl \<Longrightarrow> known_opt k x c (slot_join env k a cb sl)"
  "x \<noteq> a \<Longrightarrow> known_opt k x c sl \<Longrightarrow> known_opt k x c (slot_call k (RemoveClient k a w) sl)"
  by (cases sl; cases c;
      auto simp: known_opt_def known_def slot_join_def slot_load_def slot_call_def Let_def split: if_splits)+

lemma known_opt_load: "known_opt k x c sl \<Longrightarrow> known_opt k x c (slot_load env k sl)"
  by (cases sl; cases c) (auto simp: known_opt_def known_def slot_load_def split: if_splits)

lemma known_join:
  "known_opt k a c sl \<Longrightarrow> is_client k cb \<or> k = GNSS \<Longrightarrow> known_opt k a (Some cb) (slot_join env k a cb sl)"
  by (cases sl; cases c)
    (auto simp: known_opt_def known_def slot_join_def slot_load_def slot_call_def Let_def split: if_splits)

lemma known_new: "known_opt k a None sl \<Longrightarrow> \<not> is_client k cb \<Longrightarrow> known_opt k a (Some cb) sl"
  by (cases sl) (auto simp: known_opt_def known_def)

lemma known_update:
  "known_opt k a c sl \<Longrightarrow> \<not> is_client k cb \<Longrightarrow> known_opt k a (Some cb)
     (if fst sl \<and> (case c of Some c \<Rightarrow> is_client k c | None \<Rightarrow> False)
      then slot_call k (RemoveClient k a False) sl else sl)"
  by (cases sl; cases c) (auto simp: known_opt_def known_def slot_call_def split: if_splits)

lemma known_removed:
  "known_opt k a c sl \<Longrightarrow> known_opt k a None (if fst sl then slot_call k (RemoveClient k a True) sl else sl)"
  by (cases sl; cases c) (auto simp: known_opt_def known_def slot_call_def split: if_splits)

lemma registered_okI:
  assumes "om_ok (clientData s)" "clientData s' = om_put a cb (clientData s)"
    "\<And>k. known_opt k a (Some cb) (slot k s')"
    "\<And>k x. x \<noteq> a \<Longrightarrow> known_opt k x (om_get x (clientData s)) (slot k s')"
  shows "registered_ok s'"
  unfolding registered_ok_def
proof (intro allI)
  fix k x
  show "known_opt k x (om_get x (clientData s')) (slot k s')"
    using assms by (cases "x = a") simp_all
qed

lemma registered_okD: "registered_ok s \<Longrightarrow> known_opt k a (om_get a (clientData s)) (slot k s)"
  by (simp add: registered_ok_def)

lemma registered_cong:
  "clientData s' = clientData s \<Longrightarrow> (\<And>k. slot k s' = slot k s) \<Longrightarrow> registered_ok s' = registered_ok s"
  by (simp add: registered_ok_def)

lemma create_registered:
  assumes s: "registered_ok s" "om_ok (clientData s)" and new: "om_get a (clientData s) = None"
  shows "registered_ok (snd (createInstance env cb a s))"
proof (cases "mandatory cb")
  case False
  then show ?thesis using s by (simp add: createInstance_def)
next
  case True
  obtain inf s0 where inf: "isInfotainmentHalConfigured env s = (inf, s0)" "objects s0 = objects s"
    by (rule configured)
  have slots: "slot k s0 = slot k s" for k using slot_config [of k env s] inf(1) by simp
  have cd: "clientData s0 = clientData s" using inf(2) by (simp add: objects_def)
  show ?thesis
  proof (cases inf)
    case True
    have "registered_ok (if clientApiImpl env \<noteq> NULL then call_api (UpdateCallbacks (clientApiImpl env) cb) s0 else s0)"
      using s(1) registered_cong [of s0 s] cd slots by (simp add: registered_ok_def call_api_def slot_def registered_def)
    then show ?thesis using True inf(1) \<open>mandatory cb\<close> by (simp add: createInstance_def)
  next
    case False
    define rs where "rs = join_adapter env a cb GEOFENCE (join_adapter env a cb BATCHING
      (join_adapter env a cb GNSS (False, s0\<lparr>live := a # live s0\<rparr>)))"
    define s1 where "s1 = (if \<not> fst rs \<and> capabilitiesCb cb
      then if interface (loadLib env GNSS (snd rs)) GNSS
           then call_api (RequestCapabilities GNSS a) (call_api (AddClient GNSS a cb) (loadLib env GNSS (snd rs)))
           else loadLib env GNSS (snd rs)
      else snd rs)"
    have eq: "snd (createInstance env cb a s) = s1\<lparr>clientData := om_put a cb (clientData s1)\<rparr>"
      using True False inf(1) by (simp add: createInstance_def Let_def loadLibGnss_def rs_def s1_def)
    have "objects s1 = objects (s0\<lparr>live := a # live s0\<rparr>)" by (simp add: s1_def rs_def)
    then have cd1: "clientData s1 = clientData s" using cd by (simp add: objects_def)
    have rs: "slot k (snd rs) = (if is_client k cb then slot_join env k a cb (slot k s) else slot k s)" for k
      by (cases k) (simp_all add: rs_def slots)
    have s1: "slot k s1 = (if k = GNSS \<and> \<not> fst rs \<and> capabilitiesCb cb
       then slot_join env k a cb (slot k (snd rs)) else slot k (snd rs))" for k
      by (simp add: s1_def slot_join_def Let_def interface_slot)
    have known: "known_opt k a (Some cb) (slot k (snd rs))" for k
      using known_join [of k a None "slot k s" cb env] known_new [of k a "slot k s" cb]
        registered_okD [OF s(1), of k a] new by (simp add: rs)
    have other: "known_opt k x c (slot k (snd rs))" if "x \<noteq> a" "known_opt k x c (slot k s)" for k x c
      using that known_opt_other(1) by (simp add: rs)
    have "registered_ok (s1\<lparr>clientData := om_put a cb (clientData s1)\<rparr>)"
    proof (rule registered_okI [OF s(2)])
      show "clientData (s1\<lparr>clientData := om_put a cb (clientData s1)\<rparr>) = om_put a cb (clientData s)"
        by (simp add: cd1)
      show "known_opt k a (Some cb) (slot k (s1\<lparr>clientData := om_put a cb (clientData s1)\<rparr>))" for k
        using known [of k] known_join [of k a "Some cb" "slot k (snd rs)" cb env]
        by (cases "k = GNSS") (simp_all add: s1)
      show "known_opt k x (om_get x (clientData s)) (slot k (s1\<lparr>clientData := om_put a cb (clientData s1)\<rparr>))"
        if "x \<noteq> a" for k x
        using other [OF that registered_okD [OF s(1)]] known_opt_other(1) [OF that] by (simp add: s1)
    qed
    then show ?thesis by (simp add: eq)
  qed
qed

lemma update_registered:
  assumes s: "registered_ok s" "om_ok (clientData s)"
  shows "registered_ok (updateCallbacks env a cb s)"
proof (cases "mandatory cb")
  case False
  then show ?thesis using s by (simp add: updateCallbacks_def)
next
  case True
  define c where "c = om_get a (clientData s)"
  define s3 where "s3 = update_adapter env a cb c GEOFENCE (update_adapter env a cb c BATCHING
     (update_adapter env a cb c GNSS s))"
  have eq: "updateCallbacks env a cb s = s3\<lparr>clientData := om_put a cb (clientData s3)\<rparr>"
    using True by (simp add: updateCallbacks_def Let_def s3_def c_def)
  have "objects s3 = objects s" by (simp add: s3_def)
  then have cd: "clientData s3 = clientData s" by (simp add: objects_def)
  have s3: "slot k s3 = (if is_client k cb then slot_join env k a cb (slot k s)
     else if fst (slot k s) \<and> (case c of Some c \<Rightarrow> is_client k c | None \<Rightarrow> False)
     then slot_call k (RemoveClient k a False) (slot k s) else slot k s)" for k
    by (cases k; cases c; simp add: s3_def)
  have "registered_ok (s3\<lparr>clientData := om_put a cb (clientData s3)\<rparr>)"
  proof (rule registered_okI [OF s(2)])
    show "clientData (s3\<lparr>clientData := om_put a cb (clientData s3)\<rparr>) = om_put a cb (clientData s)"
      by (simp add: cd)
    show "known_opt k a (Some cb) (slot k (s3\<lparr>clientData := om_put a cb (clientData s3)\<rparr>))" for k
      using registered_okD [OF s(1), of k a] known_join [of k a c "slot k s" cb env]
        known_update [of k a c "slot k s" cb] by (simp add: s3 c_def)
    show "known_opt k x (om_get x (clientData s)) (slot k (s3\<lparr>clientData := om_put a cb (clientData s3)\<rparr>))"
      if "x \<noteq> a" for k x
      using known_opt_other [OF that registered_okD [OF s(1)]] registered_okD [OF s(1), of k x] by (simp add: s3)
  qed
  then show ?thesis by (simp add: eq)
qed

lemma slot_remove [simp]:
  "slot k (remove_from a k' s) = (if k = k' then slot_call k (RemoveClient k a True) (slot k s) else slot k s)"
proof -
  have "slot k (t\<lparr>owed := ow\<rparr>) = slot k t" for t ow by simp
  then show ?thesis by (simp add: remove_from_def)
qed

lemma slot_remove_all:
  "slot k (fold (remove_from a) ks s)
   = (if k \<in> set ks then slot_call k (RemoveClient k a True) (slot k s) else slot k s)"
proof (induction ks arbitrary: s)
  case (Cons k' ks)
  have "slot_call k (RemoveClient k a True) (slot_call k (RemoveClient k a True) sl)
      = slot_call k (RemoveClient k a True) sl" for sl
    by (cases sl) (simp add: slot_call_def)
  then show ?case using Cons [of "remove_from a k' s"] by (cases "k = k'") simp_all
qed simp

lemma finish_destroy_same:
  "finish_destroy cb a s = Some s' \<Longrightarrow> clientData s' = clientData s \<and> (\<forall>k. slot k s' = slot k s)"
  by (auto simp: finish_destroy_def invoke_destroy_cb_def delete_this_def split: if_splits)

lemma destroy_registered:
  assumes s: "registered_ok s" and d: "destroy a cb s = Some s'"
  shows "registered_ok s'"
proof (cases "om_get a (clientData s)")
  case None
  then show ?thesis using assms by (simp add: destroy_def)
next
  case (Some c)
  define ks where "ks = filter (interface s) adapter_types"
  define s1 where "s1 = (if cb \<and> ks \<noteq> [] then s\<lparr>destroyClientData := om_put a
     \<lparr>waitAdapterMask = wait_mask ks, destroyCompleteCb = cb\<rparr> (destroyClientData s)\<rparr> else s)"
  define s2 where "s2 = fold (remove_from a) ks s1"
  define s3 where "s3 = s2\<lparr>clientData := om_erase a (clientData s2)\<rparr>"
  have "objects s2 = (clientData s1, destroyClientData s1, live s1, owed s1 @ map (\<lambda>k. (k, a)) ks)"
    unfolding s2_def by (rule remove_all_objects)
  then have cd: "clientData s3 = om_erase a (clientData s)" by (simp add: s3_def s1_def objects_def)
  have "k \<in> set ks \<longleftrightarrow> fst (slot k s)" for k by (simp add: ks_def interface_slot)
  moreover have "slot k s1 = slot k s" for k by (simp add: s1_def)
  ultimately have slots: "slot k s3 = (if fst (slot k s) then slot_call k (RemoveClient k a True) (slot k s)
      else slot k s)" for k
    by (simp add: s3_def s2_def slot_remove_all)
  have ok: "registered_ok s3"
    unfolding registered_ok_def
  proof (intro allI)
    fix k x
    show "known_opt k x (om_get x (clientData s3)) (slot k s3)"
    proof (cases "x = a")
      case True
      then show ?thesis
        using known_removed [OF registered_okD [OF s, of k a]] by (simp add: cd slots)
    next
      case False
      then show ?thesis
        using registered_okD [OF s, of k x] known_opt_other(2) [OF False registered_okD [OF s]]
        by (simp add: cd slots)
    qed
  qed
  have "destroy a cb s = (if ks = [] then finish_destroy cb a s3 else Some s3)"
    by (simp add: destroy_def Some Let_def ks_def s1_def s2_def s3_def)
  then have "s' = s3 \<or> finish_destroy cb a s3 = Some s'" using d by (auto split: if_splits)
  then show ?thesis
    using ok registered_cong [of s' s3] finish_destroy_same [of cb a s3 s'] by blast
qed

lemma slot_passed: "passed s s' \<Longrightarrow> slot k s' = slot k s"
proof -
  assume "passed s s'"
  then obtain xs where xs: "s' = s\<lparr>calls := calls s @ xs\<rparr>" "\<forall>c\<in>set xs. \<exists>k r. c = Pass k r \<and> interface s k"
    by (auto simp: passed_def)
  have "fold (register k) xs r = r" for r
    using xs(2) by (induction xs arbitrary: r) auto
  then show ?thesis by (simp add: xs(1) slot_def registered_def)
qed

lemma load_registered: "registered_ok s \<Longrightarrow> registered_ok (loadLib env k s)"
proof -
  assume s: "registered_ok s"
  have "clientData (loadLib env k s) = clientData s"
    using objects_load [of env k s] by (simp add: objects_def del: objects_load)
  then show ?thesis
    unfolding registered_ok_def using registered_okD [OF s] known_opt_load by simp
qed

lemma control_registered: "registered_ok s \<Longrightarrow> registered_ok (snd (control_getInstance env cb a s))"
proof -
  assume s: "registered_ok s"
  obtain inf s0 where inf: "isInfotainmentHalConfigured env s = (inf, s0)" "objects s0 = objects s"
    by (rule configured)
  have "slot k s0 = slot k s" for k using slot_config [of k env s] inf(1) by simp
  then have s0: "registered_ok s0"
    using s registered_cong [of s0 s] inf(2) by (simp add: objects_def)
  have keep: "registered_ok (r\<lparr>controlAPI := x\<rparr>) = registered_ok r" for r x
    by (rule registered_cong) simp_all
  have make: "registered_ok (make_control env a s)"
    using s0 load_registered [OF s0, of env GNSS]
    by (cases inf) (simp_all add: make_control_def inf(1) loadLibGnss_def Let_def keep)
  have set: "registered_ok (set_control cb r)" if "registered_ok r" for r
  proof -
    have "registered_ok (call_api (SetControlCallbacks c) (r\<lparr>controlCallbacks := c\<rparr>)) = registered_ok r" for c
      by (rule registered_cong) simp_all
    then show ?thesis using that by (simp add: set_control_def)
  qed
  show ?thesis using s make set by (simp add: control_getInstance_def Let_def)
qed

lemma complete_same:
  assumes "onRemoveClientCompleteCb k a s = Some s'"
  shows "clientData s' = clientData s" "slot k' s' = slot k' s"
proof -
  have "clientData s' = clientData s \<and> (\<forall>k'. slot k' s' = slot k' s)"
    using assms finish_destroy_same [of _ a _ s']
    by (auto simp: onRemoveClientCompleteCb_def Let_def split: option.splits if_splits)
  then show "clientData s' = clientData s" "slot k' s' = slot k' s" by simp_all
qed

lemma registered_step:
  assumes inv: "api_inv False s" and s: "registered_ok s" and step: "api_step env e s = Some s'"
  shows "registered_ok s'"
proof -
  note D = objects_okD [OF inv [unfolded api_inv_def]]
  show ?thesis
  proof (cases e)
    case (Create cb a)
    show ?thesis
    proof (cases "a = NULL \<or> a \<in> set (live s)")
      case True
      then show ?thesis using s step Create by (simp add: api_step_def)
    next
      case False
      then have "om_get a (clientData s) = None" using D(5) [of a] by blast
      from create_registered [OF s D(1) this, of env cb] show ?thesis
        using step Create False by (auto simp: api_step_def)
    qed
  next
    case (Update a cb)
    then show ?thesis
      using s step update_registered [OF s D(1), of env a cb] by (auto simp: api_step_def split: if_splits)
  next
    case (Destroy a cb)
    then show ?thesis using step destroy_registered [OF s] by (simp add: api_step_def)
  next
    case (Complete n)
    show ?thesis
    proof (cases "n < length (owed s)")
      case True
      then have c: "onRemoveClientCompleteCb (fst (owed s ! n)) (snd (owed s ! n))
          (s\<lparr>owed := take n (owed s) @ drop (Suc n) (owed s)\<rparr>) = Some s'"
        using step Complete by (simp add: api_step_def)
      show ?thesis using s registered_cong [of s' s] complete_same [OF c] by simp
    next
      case False
      then show ?thesis using s step Complete by (simp add: api_step_def)
    qed
  next
    case (Requested x r)
    have p: "passed s s'" using step Requested request_step_passed [of s x r] by (auto simp: api_step_def)
    then have "clientData s' = clientData s" by (auto simp: passed_def)
    then show ?thesis using s registered_cong [of s' s] slot_passed [OF p] by simp
  next
    case (ControlGet cb a)
    then show ?thesis using step control_registered [OF s, of env cb a] by (auto simp: api_step_def)
  next
    case ControlDestroy
    then show ?thesis
      using s step registered_cong [of s' s] by (auto simp: api_step_def control_destroy_def)
  qed
qed

interpretation registered: invariant_system "api_step env" "\<lambda>s. api_inv False s \<and> registered_ok s" "\<lambda>e. True" for env
proof unfold_locales
  fix s x s'
  assume s: "api_inv False s \<and> registered_ok s" and step: "api_step env x s = Some s'"
  show "api_inv False s' \<and> registered_ok s'"
    using registered_step [of s env x s'] api_step_inv(2) [of False s x env s'] s step by blast
qed

lemma registered_init: "registered_ok api_init"
  by (simp add: registered_ok_def known_opt_def slot_def registered_def api_init_def)

lemma api_run_registered:
  assumes "api_run env evs = Some s"
  shows "registered_ok s"
proof -
  have "list_all (\<lambda>e. True) evs" by (induction evs) simp_all
  then show ?thesis
    using registered.run_inv [of api_init evs env s] assms api_inv_init registered_init by (simp add: api_run_def)
qed

text \<open>
  C16: In every reachable state, an adapter that is there knows a client with callbacks for it, with exactly
  the callbacks the client gave last; and no adapter knows an object that is not a client.
\<close>

theorem adapters_know_the_clients:
  assumes "api_run env evs = Some s"
  shows "case om_get a (clientData s) of
      Some cb \<Rightarrow> is_client k cb \<longrightarrow> registered k s a = (if interface s k then Some cb else None)
    | None \<Rightarrow> registered k s a = None"
proof -
  from registered_okD [OF api_run_registered [OF assms], of k a]
  have "known_opt k a (om_get a (clientData s)) (interface s k, loadFailed s k, registered k s)"
    by (simp add: slot_def)
  then show ?thesis by (auto simp: known_opt_def known_def split: option.splits)
qed

theorem adapters_know_the_clients_witness:
  "\<exists>s. api_run test_env [Create (test_callbacks True False) 7, Update 7 (test_callbacks True True),
      Create (test_callbacks True True) 8, Destroy 8 True] = Some s
    \<and> registered BATCHING s 7 = Some (test_callbacks True True) \<and> registered BATCHING s 8 = None"
proof -
  let ?r = "api_run test_env [Create (test_callbacks True False) 7, Update 7 (test_callbacks True True),
      Create (test_callbacks True True) 8, Destroy 8 True]"
  have "map_option (\<lambda>s. (om_get 7 (clientData s), om_get 8 (clientData s), interface s BATCHING)) ?r
      = Some (Some (test_callbacks True True), None, True)"
    by code_simp
  then obtain s where s: "?r = Some s" "om_get 7 (clientData s) = Some (test_callbacks True True)"
    "om_get 8 (clientData s) = None" "interface s BATCHING" by auto
  have "is_client BATCHING (test_callbacks True True)"
    by (simp add: is_client_def isBatchingClient_def test_callbacks_def)
  with adapters_know_the_clients [where a = 7 and k = BATCHING, OF s(1)]
    adapters_know_the_clients [where a = 8 and k = BATCHING, OF s(1)] s
  show ?thesis by auto
qed

end
