(* ===== verification/BiDict.thy ===== *)
theory BiDict
  imports OrdMap
begin

text \<open>
  The class \<^verbatim>\<open>BiDict\<close> of \<^verbatim>\<open>gps/location/LocationAPIClientBase.h\<close>: numbers of a client and session
  numbers of the API, in both directions, with a value for each session.  Its maps are
  \<^verbatim>\<open>std::map\<close>s, whose index operator inserts the value zero for a missing key.
\<close>

section \<open>Operations\<close>

record 'e bidict =
  mForwardMap :: "(u32, u32) ord_map"
  mBackwardMap :: "(u32, u32) ord_map"
  mExtMap :: "(u32, 'e) ord_map"

definition bd_empty :: "'e bidict" where
  "bd_empty = \<lparr>mForwardMap = [], mBackwardMap = [], mExtMap = []\<rparr>"

text \<open>The index operator: the value, and the map that has it.\<close>

definition om_index :: "u32 \<Rightarrow> (u32, u32) ord_map \<Rightarrow> u32 \<times> (u32, u32) ord_map" where
  "om_index k m = (case om_get k m of Some v \<Rightarrow> (v, m) | None \<Rightarrow> (0, om_put k 0 m))"

definition hasId :: "u32 \<Rightarrow> 'e bidict \<Rightarrow> bool" where
  "hasId i d = (om_get i (mForwardMap d) \<noteq> None)"

definition hasSession :: "u32 \<Rightarrow> 'e bidict \<Rightarrow> bool" where
  "hasSession s d = (om_get s (mBackwardMap d) \<noteq> None)"

definition bd_set :: "u32 \<Rightarrow> u32 \<Rightarrow> 'e \<Rightarrow> 'e bidict \<Rightarrow> 'e bidict" where
  "bd_set i s ext d = d\<lparr>mForwardMap := om_put i s (mForwardMap d),
     mBackwardMap := om_put s i (mBackwardMap d), mExtMap := om_put s ext (mExtMap d)\<rparr>"

definition bd_clear :: "'e bidict \<Rightarrow> 'e bidict" where
  "bd_clear d = d\<lparr>mForwardMap := [], mBackwardMap := [], mExtMap := []\<rparr>"

definition rmById :: "u32 \<Rightarrow> 'e bidict \<Rightarrow> 'e bidict" where
  "rmById i d = (case om_index i (mForwardMap d) of (s, fwd) \<Rightarrow>
     d\<lparr>mBackwardMap := om_erase s (mBackwardMap d), mExtMap := om_erase s (mExtMap d),
       mForwardMap := om_erase i fwd\<rparr>)"

definition rmBySession :: "u32 \<Rightarrow> 'e bidict \<Rightarrow> 'e bidict" where
  "rmBySession s d = (case om_index s (mBackwardMap d) of (i, bwd) \<Rightarrow>
     d\<lparr>mForwardMap := om_erase i (mForwardMap d), mBackwardMap := om_erase s bwd,
       mExtMap := om_erase s (mExtMap d)\<rparr>)"

definition getId :: "u32 \<Rightarrow> 'e bidict \<Rightarrow> u32" where
  "getId s d = (case om_get s (mBackwardMap d) of Some i \<Rightarrow> i | None \<Rightarrow> 0)"

definition getSession :: "u32 \<Rightarrow> 'e bidict \<Rightarrow> u32" where
  "getSession i d = (case om_get i (mForwardMap d) of Some s \<Rightarrow> s | None \<Rightarrow> 0)"

text \<open>\<open>zero\<close> is the value whose bytes are all zero; the look-up may insert the number.\<close>

definition getExtBySession :: "'e \<Rightarrow> u32 \<Rightarrow> 'e bidict \<Rightarrow> 'e" where
  "getExtBySession zero s d = (case om_get s (mExtMap d) of Some e \<Rightarrow> e | None \<Rightarrow> zero)"

definition getExtById :: "'e \<Rightarrow> u32 \<Rightarrow> 'e bidict \<Rightarrow> 'e \<times> 'e bidict" where
  "getExtById zero i d = (case om_index i (mForwardMap d) of (s, fwd) \<Rightarrow>
     (if 0 < s then getExtBySession zero s d else zero, d\<lparr>mForwardMap := fwd\<rparr>))"

definition getAllIds :: "'e bidict \<Rightarrow> u32 list" where
  "getAllIds d = map fst (mForwardMap d)"

section \<open>The directions stay converse\<close>

definition bd_ok :: "'e bidict \<Rightarrow> bool" where
  "bd_ok d \<longleftrightarrow> om_ok (mForwardMap d) \<and> om_ok (mBackwardMap d) \<and> om_ok (mExtMap d)
     \<and> (\<forall>i s. om_get i (mForwardMap d) = Some s \<longleftrightarrow> om_get s (mBackwardMap d) = Some i)
     \<and> (\<forall>s. om_get s (mBackwardMap d) = None \<longleftrightarrow> om_get s (mExtMap d) = None)"

text \<open>The abstraction: the sessions with their numbers and values.\<close>

definition bd_abs :: "'e bidict \<Rightarrow> u32 \<Rightarrow> (u32 \<times> 'e) option" where
  "bd_abs d s = (case om_get s (mBackwardMap d) of
     None \<Rightarrow> None | Some i \<Rightarrow> map_option (\<lambda>e. (i, e)) (om_get s (mExtMap d)))"

lemma bd_okD:
  assumes "bd_ok d"
  shows "om_ok (mForwardMap d)" "om_ok (mBackwardMap d)" "om_ok (mExtMap d)"
    "om_get i (mForwardMap d) = Some s \<longleftrightarrow> om_get s (mBackwardMap d) = Some i"
    "om_get s (mBackwardMap d) = None \<longleftrightarrow> om_get s (mExtMap d) = None"
  using assms by (simp_all add: bd_ok_def)

lemma bd_ok_empty [simp]: "bd_ok bd_empty"
  by (simp add: bd_ok_def bd_empty_def)

lemma bd_ok_clear [simp]: "bd_ok (bd_clear d)"
  by (simp add: bd_ok_def bd_clear_def)

text \<open>A new pair, or a new value for a pair that is there.\<close>

lemma bd_ok_set:
  assumes ok: "bd_ok d" and new: "\<not> hasId i d \<and> \<not> hasSession s d \<or> om_get i (mForwardMap d) = Some s"
  shows "bd_ok (bd_set i s e d)"
proof -
  note D = bd_okD [OF ok]
  have fwd: "om_get j (mForwardMap (bd_set i s e d)) = (if j = i then Some s else om_get j (mForwardMap d))"
    and bwd: "om_get t (mBackwardMap (bd_set i s e d)) = (if t = s then Some i else om_get t (mBackwardMap d))"
    and ext: "om_get t (mExtMap (bd_set i s e d)) = (if t = s then Some e else om_get t (mExtMap d))" for j t
    using D(1-3) by (simp_all add: bd_set_def)
  have "(om_get j (mForwardMap (bd_set i s e d)) = Some t) = (om_get t (mBackwardMap (bd_set i s e d)) = Some j)" for j t
  proof (cases "j = i"; cases "t = s")
    assume "j = i" "t \<noteq> s"
    moreover have "om_get t (mBackwardMap d) \<noteq> Some i"
      using new D(4) [of i t] \<open>t \<noteq> s\<close> by (auto simp: hasId_def)
    ultimately show ?thesis by (simp add: fwd bwd)
  next
    assume "j \<noteq> i" "t = s"
    moreover have "om_get j (mForwardMap d) \<noteq> Some s"
      using new D(4) [of j s] D(4) [of i s] \<open>j \<noteq> i\<close> by (auto simp: hasSession_def)
    ultimately show ?thesis by (simp add: fwd bwd)
  qed (simp_all add: fwd bwd D(4))
  moreover have "om_get t (mBackwardMap (bd_set i s e d)) = None \<longleftrightarrow> om_get t (mExtMap (bd_set i s e d)) = None" for t
    using D(5) [of t] by (simp add: bwd ext)
  ultimately show ?thesis
    using D(1-3) unfolding bd_ok_def by (simp add: bd_set_def)
qed

lemma rm_pair_ok:
  assumes ok: "bd_ok d" and pair: "om_get i (mForwardMap d) = Some s"
  shows "bd_ok (d\<lparr>mForwardMap := om_erase i (mForwardMap d), mBackwardMap := om_erase s (mBackwardMap d),
    mExtMap := om_erase s (mExtMap d)\<rparr>)"
proof -
  note D = bd_okD [OF ok]
  have "(om_get j (om_erase i (mForwardMap d)) = Some t) = (om_get t (om_erase s (mBackwardMap d)) = Some j)" for j t
    using D(4) [of j t] D(4) [of i t] D(4) [of j s] pair by auto
  moreover have "(om_get t (om_erase s (mBackwardMap d)) = None) = (om_get t (om_erase s (mExtMap d)) = None)" for t
    using D(5) [of t] by simp
  ultimately show ?thesis using D(1-3) by (simp add: bd_ok_def)
qed

lemma rm_eq:
  assumes "bd_ok d" "om_get i (mForwardMap d) = Some s"
  shows "rmById i d = rmBySession s d"
    "rmBySession s d = d\<lparr>mForwardMap := om_erase i (mForwardMap d), mBackwardMap := om_erase s (mBackwardMap d),
       mExtMap := om_erase s (mExtMap d)\<rparr>"
proof -
  have bwd: "om_get s (mBackwardMap d) = Some i" using assms bd_okD(4) by blast
  show "rmById i d = rmBySession s d"
    "rmBySession s d = d\<lparr>mForwardMap := om_erase i (mForwardMap d), mBackwardMap := om_erase s (mBackwardMap d),
       mExtMap := om_erase s (mExtMap d)\<rparr>"
    by (simp_all add: rmById_def rmBySession_def om_index_def bwd assms(2))
qed

lemma bd_ok_rmBySession: "bd_ok d \<Longrightarrow> hasSession s d \<Longrightarrow> bd_ok (rmBySession s d)"
proof -
  assume ok: "bd_ok d" and "hasSession s d"
  then obtain i where "om_get s (mBackwardMap d) = Some i" by (auto simp: hasSession_def)
  then have "om_get i (mForwardMap d) = Some s" using bd_okD(4) [OF ok] by blast
  then show ?thesis using rm_eq(2) [OF ok] rm_pair_ok [OF ok] by simp
qed

lemma bd_ok_rmById: "bd_ok d \<Longrightarrow> hasId i d \<Longrightarrow> bd_ok (rmById i d)"
proof -
  assume ok: "bd_ok d" and "hasId i d"
  then obtain s where s: "om_get i (mForwardMap d) = Some s" by (auto simp: hasId_def)
  then show ?thesis using rm_eq [OF ok s] rm_pair_ok [OF ok s] by simp
qed

text \<open>The operations on the abstraction.\<close>

lemma bd_abs_set: "bd_ok d \<Longrightarrow> bd_abs (bd_set i s e d) = (bd_abs d)(s \<mapsto> (i, e))"
  by (rule HOL.ext) (simp add: bd_abs_def bd_set_def bd_okD split: option.split)

lemma bd_abs_rm: "bd_ok d \<Longrightarrow> hasSession s d \<Longrightarrow> bd_abs (rmBySession s d) = (bd_abs d)(s := None)"
proof -
  assume ok: "bd_ok d" and "hasSession s d"
  then obtain i where "om_get s (mBackwardMap d) = Some i" by (auto simp: hasSession_def)
  then have "om_get i (mForwardMap d) = Some s" using bd_okD(4) [OF ok] by blast
  then show ?thesis by (intro HOL.ext) (simp add: rm_eq(2) [OF ok] bd_abs_def split: option.split)
qed

section \<open>The interface\<close>

text \<open>What the users of the class rely on: the two look-ups invert each other on what was set.\<close>

locale two_way =
  fixes inv :: "'d \<Rightarrow> bool"
    and put :: "u32 \<Rightarrow> u32 \<Rightarrow> 'e \<Rightarrow> 'd \<Rightarrow> 'd"
    and remove :: "u32 \<Rightarrow> 'd \<Rightarrow> 'd"
    and id_of :: "u32 \<Rightarrow> 'd \<Rightarrow> u32 option"
    and session_of :: "u32 \<Rightarrow> 'd \<Rightarrow> u32 option"
  assumes put_inv: "inv d \<Longrightarrow> session_of i d = None \<Longrightarrow> id_of s d = None \<Longrightarrow> inv (put i s e d)"
    and put_id: "inv d \<Longrightarrow> id_of t (put i s e d) = (if t = s then Some i else id_of t d)"
    and put_session: "inv d \<Longrightarrow> session_of j (put i s e d) = (if j = i then Some s else session_of j d)"
    and remove_inv: "inv d \<Longrightarrow> id_of s d \<noteq> None \<Longrightarrow> inv (remove s d)"
    and remove_id: "inv d \<Longrightarrow> id_of s d \<noteq> None \<Longrightarrow> id_of t (remove s d) = (if t = s then None else id_of t d)"
    and converse: "inv d \<Longrightarrow> id_of s d = Some i \<longleftrightarrow> session_of i d = Some s"
begin

text \<open>A number that was set and removed again leaves no trace.\<close>

lemma put_remove:
  assumes "inv d" "session_of i d = None" "id_of s d = None"
  shows "id_of t (remove s (put i s e d)) = id_of t d" "session_of j (remove s (put i s e d)) = session_of j d"
proof -
  have inv: "inv (put i s e d)" by (rule put_inv [OF assms])
  have known: "id_of s (put i s e d) \<noteq> None" using assms by (simp add: put_id)
  have inv': "inv (remove s (put i s e d))" by (rule remove_inv [OF inv known])
  have ids: "id_of t (remove s (put i s e d)) = id_of t d" for t
    using remove_id [OF inv known] put_id [OF assms(1)] assms(3) by simp
  then show "id_of t (remove s (put i s e d)) = id_of t d" .
  have "session_of j (remove s (put i s e d)) = Some t \<longleftrightarrow> session_of j d = Some t" for t
    using converse [OF inv', of t j] converse [OF assms(1), of t j] ids by simp
  then show "session_of j (remove s (put i s e d)) = session_of j d"
    by (cases "session_of j d"; cases "session_of j (remove s (put i s e d))") auto
qed

end

interpretation bidict: two_way bd_ok bd_set rmBySession
  "\<lambda>s d. om_get s (mBackwardMap d)" "\<lambda>i d. om_get i (mForwardMap d)"
proof unfold_locales
  fix d :: "'e bidict" and i s t j :: u32 and e
  assume ok: "bd_ok d"
  note D = bd_okD [OF ok]
  show "bd_ok (bd_set i s e d)" if "om_get i (mForwardMap d) = None" "om_get s (mBackwardMap d) = None"
    using bd_ok_set [OF ok] that by (simp add: hasId_def hasSession_def)
  show "om_get t (mBackwardMap (bd_set i s e d)) = (if t = s then Some i else om_get t (mBackwardMap d))"
    "om_get j (mForwardMap (bd_set i s e d)) = (if j = i then Some s else om_get j (mForwardMap d))"
    using D by (simp_all add: bd_set_def)
  show "bd_ok (rmBySession s d)" if "om_get s (mBackwardMap d) \<noteq> None"
    using bd_ok_rmBySession [OF ok] that by (simp add: hasSession_def)
  show "om_get t (mBackwardMap (rmBySession s d)) = (if t = s then None else om_get t (mBackwardMap d))"
    if "om_get s (mBackwardMap d) \<noteq> None"
    using that by (auto simp: rmBySession_def om_index_def split: option.split)
  show "om_get s (mBackwardMap d) = Some i \<longleftrightarrow> om_get i (mForwardMap d) = Some s"
    using D(4) [of i s] by blast
qed

text \<open>
  What is set under a new number and a new session is found in both directions, everything else is found
  as before, and removing it again restores every look-up.
\<close>

theorem bidict_round_trip:
  assumes "bd_ok d" "\<not> hasId i d" "\<not> hasSession s d"
  shows "getId s (bd_set i s e d) = i \<and> getSession i (bd_set i s e d) = s
    \<and> getExtBySession z s (bd_set i s e d) = e
    \<and> getId t (rmBySession s (bd_set i s e d)) = getId t d
    \<and> getSession j (rmBySession s (bd_set i s e d)) = getSession j d
    \<and> rmById i (bd_set i s e d) = rmBySession s (bd_set i s e d)"
proof -
  have none: "om_get i (mForwardMap d) = None" "om_get s (mBackwardMap d) = None"
    using assms by (simp_all add: hasId_def hasSession_def)
  have set: "bd_ok (bd_set i s e d)" "om_get i (mForwardMap (bd_set i s e d)) = Some s"
    using bidict.put_inv [OF assms(1) none] bidict.put_session [OF assms(1), of i i s] by simp_all
  show ?thesis
    using bidict.put_remove [OF assms(1) none] rm_eq(1) [OF set] bd_okD [OF assms(1)]
    by (simp add: getId_def getSession_def getExtBySession_def) (simp add: bd_set_def)
qed

theorem bidict_round_trip_witness:
  "getId 9 (rmBySession 4 (bd_set 3 4 True (bd_set 2 9 False bd_empty))) = 2"
proof -
  have "bd_ok (bd_set 2 9 False bd_empty)" by (rule bd_ok_set [OF bd_ok_empty]) (simp add: hasId_def hasSession_def bd_empty_def)
  moreover have "\<not> hasId 3 (bd_set 2 9 False bd_empty)" "\<not> hasSession 4 (bd_set 2 9 False bd_empty)"
    by (simp_all add: hasId_def hasSession_def bd_empty_def bd_set_def om_get_def)
  ultimately have "getId 9 (rmBySession 4 (bd_set 3 4 True (bd_set 2 9 False bd_empty))) = getId 9 (bd_set 2 9 False bd_empty)"
    by (rule bidict_round_trip [where z = False and j = 0, THEN conjunct2, THEN conjunct2, THEN conjunct2, THEN conjunct1])
  then show ?thesis by (simp add: getId_def bd_set_def bd_empty_def om_get_def)
qed

end
