(* ===== verification/ApiClient.thy ===== *)
theory ApiClient
  imports BiDict BatchingAdapter GeofenceAdapter
begin

text \<open>
  \<^verbatim>\<open>gps/location/LocationAPIClientBase.cpp\<close>: the base class of the clients of the location API.  It
  keeps the requests that are not answered, the sessions of the client under the client's numbers,
  and hands each answer to the request it belongs to.

  What the API returns is an argument of the operations; the calls of the API and of the
  functions a subclass overrides are a log.
\<close>

section \<open>Data\<close>

definition SESSION_MODE_ON_FULL :: u32 where "SESSION_MODE_ON_FULL = 1"
definition SESSION_MODE_ON_FIX :: u32 where "SESSION_MODE_ON_FIX = 2"
definition SESSION_MODE_ON_TRIP_COMPLETED :: u32 where "SESSION_MODE_ON_TRIP_COMPLETED = 3"
definition GEOFENCE_SESSION_ID :: u32 where "GEOFENCE_SESSION_ID = 0xFFFFFFFF"
definition sizeof_BatchingOptions :: u32 where "sizeof_BatchingOptions = 28"

datatype request_type = REQUEST_TRACKING | REQUEST_SESSION | REQUEST_GEOFENCE | REQUEST_NIRESPONSE

datatype api_client_request =
    StartTrackingRequest
  | StopTrackingRequest
  | UpdateTrackingOptionsRequest
  | StartBatchingRequest
  | StopBatchingRequest
  | UpdateBatchingOptionsRequest
  | GetBatchedLocationsRequest
  | AddGeofencesRequest
  | RemoveGeofencesRequest "u32 bidict"
  | ModifyGeofencesRequest
  | PauseGeofencesRequest
  | ResumeGeofencesRequest
  | GnssNiResponseRequest

record 'r request_queue =
  mSession :: u32
  mSessionArrayPtr :: addr
  mQueue :: "'r list"

record session_entity =
  ent_id :: u32
  trackingSession :: u32
  batchingSession :: u32
  sessionMode :: u32

definition zero_entity :: session_entity where
  "zero_entity = \<lparr>ent_id = 0, trackingSession = 0, batchingSession = 0, sessionMode = 0\<rparr>"

text \<open>Calls of the API, and of the functions a subclass overrides.\<close>

datatype client_out =
    CallStartTracking tracking_options
  | CallStopTracking u32
  | CallUpdateTracking u32 tracking_options
  | CallStartBatching batching_options
  | CallStopBatching u32
  | CallUpdateBatching u32 batching_options
  | CallGetBatched u32 nat
  | CallAddGeofences "geofence_option list"
  | CallRemoveGeofences "u32 list"
  | CallModifyGeofences "u32 list" "geofence_option list"
  | CallPauseGeofences "u32 list"
  | CallResumeGeofences "u32 list"
  | CallNiResponse u32 nat
  | CallUpdateCallbacks bool
  | CallDestroy bool
  | OnAnswer api_client_request location_error
  | OnCollective api_client_request "location_error list" "u32 list"
  | OnGeofenceBreach u32 "u32 list"
  | OnBatchingStatus u32 "u32 list"

record api_client =
  mLocationAPI :: bool
  mRequestQueues :: "request_type \<Rightarrow> api_client_request request_queue"
  mGeofenceBiDict :: "u32 bidict"
  mSessionBiDict :: "session_entity bidict"
  mBatchSize :: i32
  mTracking :: bool
  mGeofenceBreachCallback :: bool
  mBatchingStatusCallback :: bool
  client_log :: "client_out list"

definition tell :: "client_out \<Rightarrow> api_client \<Rightarrow> api_client" where
  "tell x s = s\<lparr>client_log := client_log s @ [x]\<rparr>"

section \<open>Request queues\<close>

definition rq_reset :: "u32 \<Rightarrow> 'r request_queue \<Rightarrow> 'r request_queue" where
  "rq_reset session q = q\<lparr>mQueue := [], mSession := session\<rparr>"

definition rq_reset_array :: "addr \<Rightarrow> 'r request_queue \<Rightarrow> 'r request_queue" where
  "rq_reset_array sessionArrayPtr q = (rq_reset 0 q)\<lparr>mSessionArrayPtr := sessionArrayPtr\<rparr>"

definition rq_push :: "'r \<Rightarrow> 'r request_queue \<Rightarrow> 'r request_queue" where
  "rq_push r q = q\<lparr>mQueue := mQueue q @ [r]\<rparr>"

definition rq_pop :: "'r request_queue \<Rightarrow> 'r option \<times> 'r request_queue" where
  "rq_pop q = (case mQueue q of [] \<Rightarrow> (None, q) | r # rs \<Rightarrow> (Some r, q\<lparr>mQueue := rs\<rparr>))"

definition rq_new :: "'r request_queue" where
  "rq_new = \<lparr>mSession = 0, mSessionArrayPtr = NULL, mQueue = []\<rparr>"

definition upd_queue :: "request_type \<Rightarrow> (api_client_request request_queue \<Rightarrow> api_client_request request_queue)
    \<Rightarrow> api_client \<Rightarrow> api_client" where
  "upd_queue k f s = s\<lparr>mRequestQueues := (mRequestQueues s)(k := f (mRequestQueues s k))\<rparr>"

section \<open>Tracking\<close>

definition locAPIUpdateTrackingOptions :: "tracking_options \<Rightarrow> api_client \<Rightarrow> api_client" where
  "locAPIUpdateTrackingOptions options s =
     (if mLocationAPI s then let session = mSession (mRequestQueues s REQUEST_TRACKING)
      in if 0 < session
         then tell (CallUpdateTracking session options)
                (upd_queue REQUEST_TRACKING (rq_push UpdateTrackingOptionsRequest) s)
         else s
      else s)"

definition locAPIStartTracking ::
  "tracking_options \<Rightarrow> u32 \<Rightarrow> api_client \<Rightarrow> location_error \<times> api_client" where
  "locAPIStartTracking options session s =
     (if mLocationAPI s then
        (LOCATION_ERROR_SUCCESS,
         if mTracking s then locAPIUpdateTrackingOptions options s
         else (upd_queue REQUEST_TRACKING (rq_push StartTrackingRequest \<circ> rq_reset session)
                 (tell (CallStartTracking options) s))\<lparr>mTracking := True\<rparr>)
      else (LOCATION_ERROR_GENERAL_FAILURE, s))"

definition locAPIStopTracking :: "api_client \<Rightarrow> api_client" where
  "locAPIStopTracking s =
     (if mLocationAPI s then let session = mSession (mRequestQueues s REQUEST_TRACKING)
      in if 0 < session
         then (tell (CallStopTracking session)
                (upd_queue REQUEST_TRACKING (rq_push StopTrackingRequest) s))\<lparr>mTracking := False\<rparr>
         else s
      else s)"

section \<open>Sessions\<close>

text \<open>\<open>entry\<close> is the entry of the configuration file.\<close>

definition locAPIGetBatchSize :: "i32 option \<Rightarrow> api_client \<Rightarrow> i32 \<times> api_client" where
  "locAPIGetBatchSize entry s =
     (let s1 = (if mBatchSize s = - 1 then let
          v = (case entry of Some v \<Rightarrow> v | None \<Rightarrow> mBatchSize s)
        in s\<lparr>mBatchSize := (if v <s 0 then 0 else v)\<rparr> else s)
      in (mBatchSize s1, s1))"

definition batching_mode_of :: "u32 \<Rightarrow> u32" where
  "batching_mode_of mode =
     (if mode = SESSION_MODE_ON_FULL then BATCHING_MODE_ROUTINE
      else if mode = SESSION_MODE_ON_TRIP_COMPLETED then BATCHING_MODE_TRIP
      else BATCHING_MODE_NO_AUTO_REPORT)"

definition batch_options :: "u32 \<Rightarrow> batching_options" where
  "batch_options mode = default_batching\<lparr>opt_size := sizeof_BatchingOptions, batchingMode := batching_mode_of mode\<rparr>"

definition fill_options :: "tracking_options \<Rightarrow> batching_options \<Rightarrow> batching_options" where
  "fill_options options b = b\<lparr>minDistance := minDistance options, minInterval := minInterval options,
     opt_mode := opt_mode options\<rparr>"

text \<open>\<open>session\<close> is what the start of a session returns; zero when the API has no adapter.\<close>

definition locAPIStartSession ::
  "u32 \<Rightarrow> u32 \<Rightarrow> tracking_options \<Rightarrow> u32 \<Rightarrow> api_client \<Rightarrow> location_error \<times> api_client" where
  "locAPIStartSession sid mode options session s =
     (if mLocationAPI s then
        if hasId sid (mSessionBiDict s) then (LOCATION_ERROR_ALREADY_STARTED, s)
        else let
          s1 = (if mode = SESSION_MODE_ON_FIX
                then upd_queue REQUEST_SESSION (rq_push StartTrackingRequest) (tell (CallStartTracking options) s)
                else upd_queue REQUEST_SESSION (rq_push StartBatchingRequest \<circ> (\<lambda>q. q\<lparr>mSession := session\<rparr>))
                       (tell (CallStartBatching (fill_options options (batch_options mode))) s));
          entity = \<lparr>ent_id = sid, trackingSession = (if mode = SESSION_MODE_ON_FIX then session else 0),
                    batchingSession = (if mode = SESSION_MODE_ON_FIX then 0 else session), sessionMode = mode\<rparr>
        in (LOCATION_ERROR_SUCCESS,
            s1\<lparr>mSessionBiDict := bd_set sid session entity (mSessionBiDict s1)\<rparr>)
      else (LOCATION_ERROR_GENERAL_FAILURE, s))"

definition locAPIStopSession :: "u32 \<Rightarrow> api_client \<Rightarrow> location_error \<times> api_client" where
  "locAPIStopSession sid s =
     (if mLocationAPI s then
        if hasId sid (mSessionBiDict s) then
          case getExtById zero_entity sid (mSessionBiDict s) of (entity, d) \<Rightarrow> let
            s1 = s\<lparr>mSessionBiDict := d\<rparr>
          in (LOCATION_ERROR_SUCCESS,
              if sessionMode entity = SESSION_MODE_ON_FIX
              then tell (CallStopTracking (trackingSession entity))
                     (upd_queue REQUEST_SESSION (rq_push StopTrackingRequest) s1)
              else tell (CallStopBatching (batchingSession entity))
                     (upd_queue REQUEST_SESSION (rq_push StopBatchingRequest) s1))
        else (LOCATION_ERROR_ID_UNKNOWN, s)
      else (LOCATION_ERROR_GENERAL_FAILURE, s))"

definition locAPIRemoveAllSessions :: "api_client \<Rightarrow> api_client" where
  "locAPIRemoveAllSessions s = fold (\<lambda>i s. snd (locAPIStopSession i s)) (getAllIds (mSessionBiDict s)) s"

text \<open>
  A session can change between tracking and batching: one session is stopped, the other started, and
  only one request is queued.  The options are filled in only when tracking becomes batching.
\<close>

definition locAPIUpdateSessionOptions ::
  "u32 \<Rightarrow> u32 \<Rightarrow> tracking_options \<Rightarrow> u32 \<Rightarrow> api_client \<Rightarrow> location_error \<times> api_client" where
  "locAPIUpdateSessionOptions sid mode options newSession s =
     (if mLocationAPI s then
        if hasId sid (mSessionBiDict s) then
          case getExtById zero_entity sid (mSessionBiDict s) of (entity, d) \<Rightarrow> let
            s1 = s\<lparr>mSessionBiDict := d\<rparr>;
            t = trackingSession entity;
            b = batchingSession entity;
            (t', b', s2) =
              (if mode = SESSION_MODE_ON_FIX then let
                 s' = upd_queue REQUEST_SESSION (rq_push UpdateTrackingOptionsRequest) s1
               in if sessionMode entity = SESSION_MODE_ON_FIX
                  then (t, b, tell (CallUpdateTracking t options) s')
                  else (newSession, 0, tell (CallStartTracking options)
                         (upd_queue REQUEST_SESSION (\<lambda>q. q\<lparr>mSession := 0\<rparr>) (tell (CallStopBatching b) s')))
               else let
                 s' = upd_queue REQUEST_SESSION (rq_push UpdateBatchingOptionsRequest) s1
               in if sessionMode entity = SESSION_MODE_ON_FIX
                  then (0, newSession, upd_queue REQUEST_SESSION (\<lambda>q. q\<lparr>mSession := newSession\<rparr>)
                         (tell (CallStartBatching (fill_options options (batch_options mode)))
                           (tell (CallStopTracking t) s')))
                  else (t, b, tell (CallUpdateBatching b (batch_options mode)) s'));
            session = (if mode = SESSION_MODE_ON_FIX then t' else b');
            entity' = entity\<lparr>trackingSession := t', batchingSession := b', sessionMode := mode\<rparr>
          in (LOCATION_ERROR_SUCCESS,
              s2\<lparr>mSessionBiDict := bd_set sid session entity' (rmById sid (mSessionBiDict s2))\<rparr>)
        else (LOCATION_ERROR_ID_UNKNOWN, s)
      else (LOCATION_ERROR_GENERAL_FAILURE, s))"

definition locAPIGetBatchedLocations :: "u32 \<Rightarrow> nat \<Rightarrow> api_client \<Rightarrow> location_error \<times> api_client" where
  "locAPIGetBatchedLocations sid cnt s =
     (if mLocationAPI s then
        if hasId sid (mSessionBiDict s) then
          case getExtById zero_entity sid (mSessionBiDict s) of (entity, d) \<Rightarrow> let
            s1 = s\<lparr>mSessionBiDict := d\<rparr>
          in if sessionMode entity \<noteq> SESSION_MODE_ON_FIX
             then (LOCATION_ERROR_SUCCESS, tell (CallGetBatched (batchingSession entity) cnt)
                     (upd_queue REQUEST_SESSION (rq_push GetBatchedLocationsRequest) s1))
             else (LOCATION_ERROR_NOT_SUPPORTED, s1)
        else (LOCATION_ERROR_ID_UNKNOWN, s)
      else (LOCATION_ERROR_GENERAL_FAILURE, s))"

section \<open>Geofences\<close>

text \<open>\<open>sessions\<close> is the array the API returns, \<open>None\<close> for \<^verbatim>\<open>NULL\<close>.  Allocations succeed.\<close>

definition geofence_queue_ok :: "api_client \<Rightarrow> bool" where
  "geofence_queue_ok s = (mSession (mRequestQueues s REQUEST_GEOFENCE) = GEOFENCE_SESSION_ID)"

definition set_all :: "(u32 \<times> u32 \<times> u32) list \<Rightarrow> u32 bidict \<Rightarrow> u32 bidict" where
  "set_all es d = fold (\<lambda>(i, session, m). bd_set i session m) es d"

definition locAPIAddGeofences ::
  "u32 list \<Rightarrow> geofence_option list \<Rightarrow> u32 list option \<Rightarrow> api_client \<Rightarrow> location_error \<times> api_client" where
  "locAPIAddGeofences ids options sessions s =
     (if mLocationAPI s then let
        s1 = (if \<not> geofence_queue_ok s then upd_queue REQUEST_GEOFENCE (rq_reset GEOFENCE_SESSION_ID) s else s);
        s2 = tell (CallAddGeofences options) s1
      in case sessions of
           None \<Rightarrow> (LOCATION_ERROR_GENERAL_FAILURE, s2)
         | Some ss \<Rightarrow> let s3 = upd_queue REQUEST_GEOFENCE (rq_push AddGeofencesRequest) s2
             in (LOCATION_ERROR_SUCCESS,
                 s3\<lparr>mGeofenceBiDict := set_all (zip ids (zip ss (map breachTypeMask options))) (mGeofenceBiDict s3)\<rparr>)
      else (LOCATION_ERROR_GENERAL_FAILURE, s))"

text \<open>The sessions found, the table without them, and the table of what was removed.\<close>

fun remove_geofences_loop :: "u32 list \<Rightarrow> u32 bidict \<Rightarrow> u32 bidict \<Rightarrow> u32 list \<times> u32 bidict \<times> u32 bidict" where
  "remove_geofences_loop [] d removed = ([], d, removed)"
| "remove_geofences_loop (i # ids) d removed =
     (let session = getSession i d in
      if 0 < session then
        (case remove_geofences_loop ids (rmBySession session d)
                (bd_set i session (getExtBySession 0 session d) removed) of
           (sessions, d', removed') \<Rightarrow> (session # sessions, d', removed'))
      else remove_geofences_loop ids d removed)"

definition locAPIRemoveGeofences :: "u32 list \<Rightarrow> api_client \<Rightarrow> api_client" where
  "locAPIRemoveGeofences ids s =
     (if mLocationAPI s \<and> geofence_queue_ok s then
        case remove_geofences_loop ids (mGeofenceBiDict s) bd_empty of (sessions, d, removed) \<Rightarrow> let
          s1 = s\<lparr>mGeofenceBiDict := d\<rparr>
        in if sessions \<noteq> []
           then tell (CallRemoveGeofences sessions)
                  (upd_queue REQUEST_GEOFENCE (rq_push (RemoveGeofencesRequest removed)) s1)
           else s1
      else s)"

definition locAPIRemoveAllGeofences :: "api_client \<Rightarrow> api_client" where
  "locAPIRemoveAllGeofences s =
     (let ids = getAllIds (mGeofenceBiDict s) in if ids \<noteq> [] then locAPIRemoveGeofences ids s else s)"

text \<open>
  The sessions of the numbers that are known, in their order, and the table with the new masks.  The
  modified options are passed on as the first ones of the array given.
\<close>

fun known_sessions :: "(u32 \<times> u32 option) list \<Rightarrow> u32 bidict \<Rightarrow> u32 list \<times> u32 bidict" where
  "known_sessions [] d = ([], d)"
| "known_sessions ((i, m) # es) d =
     (let session = getSession i d in
      if 0 < session then
        (case known_sessions es (case m of Some m \<Rightarrow> bd_set i session m d | None \<Rightarrow> d) of
           (sessions, d') \<Rightarrow> (session # sessions, d'))
      else known_sessions es d)"

definition locAPIModifyGeofences :: "u32 list \<Rightarrow> geofence_option list \<Rightarrow> api_client \<Rightarrow> api_client" where
  "locAPIModifyGeofences ids options s =
     (if mLocationAPI s \<and> geofence_queue_ok s then
        case known_sessions (zip ids (map (Some \<circ> breachTypeMask) options)) (mGeofenceBiDict s) of (sessions, d) \<Rightarrow> let
          s1 = s\<lparr>mGeofenceBiDict := d\<rparr>
        in if sessions \<noteq> []
           then tell (CallModifyGeofences sessions (take (length sessions) options))
                  (upd_queue REQUEST_GEOFENCE (rq_push ModifyGeofencesRequest) s1)
           else s1
      else s)"

definition locAPIPauseGeofences :: "u32 list \<Rightarrow> api_client \<Rightarrow> api_client" where
  "locAPIPauseGeofences ids s =
     (if mLocationAPI s \<and> geofence_queue_ok s then
        case known_sessions (map (\<lambda>i. (i, None)) ids) (mGeofenceBiDict s) of (sessions, d) \<Rightarrow>
          if sessions \<noteq> []
          then tell (CallPauseGeofences sessions) (upd_queue REQUEST_GEOFENCE (rq_push PauseGeofencesRequest) s)
          else s
      else s)"

definition locAPIResumeGeofences :: "u32 list \<Rightarrow> u32 list option \<Rightarrow> api_client \<Rightarrow> api_client" where
  "locAPIResumeGeofences ids masks s =
     (if mLocationAPI s \<and> geofence_queue_ok s then
        case known_sessions (case masks of None \<Rightarrow> map (\<lambda>i. (i, None)) ids | Some ms \<Rightarrow> zip ids (map Some ms))
               (mGeofenceBiDict s) of (sessions, d) \<Rightarrow> let
          s1 = s\<lparr>mGeofenceBiDict := d\<rparr>
        in if sessions \<noteq> []
           then tell (CallResumeGeofences sessions) (upd_queue REQUEST_GEOFENCE (rq_push ResumeGeofencesRequest) s1)
           else s1
      else s)"

definition locAPIGnssNiResponse :: "u32 \<Rightarrow> nat \<Rightarrow> api_client \<Rightarrow> api_client" where
  "locAPIGnssNiResponse sid response s =
     (if mLocationAPI s
      then upd_queue REQUEST_NIRESPONSE (rq_push GnssNiResponseRequest \<circ> rq_reset sid)
             (tell (CallNiResponse sid response) s)
      else s)"

section \<open>Callbacks of the API\<close>

definition breach_wanted :: "u32 \<Rightarrow> u32 \<Rightarrow> bool" where
  "breach_wanted type m \<longleftrightarrow> type = 0 \<and> m AND 1 \<noteq> 0 \<or> type = 1 \<and> m AND 2 \<noteq> 0"

definition beforeGeofenceBreachCb :: "u32 \<Rightarrow> u32 list \<Rightarrow> api_client \<Rightarrow> api_client" where
  "beforeGeofenceBreachCb type sessions s =
     (if mGeofenceBreachCallback s
      then tell (OnGeofenceBreach type
             (map (\<lambda>x. getId x (mGeofenceBiDict s))
               (filter (\<lambda>x. breach_wanted type (getExtBySession 0 x (mGeofenceBiDict s))) sessions))) s
      else s)"

fun completed_trips :: "u32 list \<Rightarrow> session_entity bidict \<Rightarrow> u32 list \<times> session_entity bidict" where
  "completed_trips [] d = ([], d)"
| "completed_trips (x # xs) d =
     (let e = getExtBySession zero_entity x d in
      if hasSession x d \<and> sessionMode e = SESSION_MODE_ON_TRIP_COMPLETED
      then (case completed_trips xs (rmBySession x d) of (ids, d') \<Rightarrow> (ent_id e # ids, d'))
      else completed_trips xs d)"

definition beforeBatchingStatusCb :: "u32 \<Rightarrow> u32 list \<Rightarrow> api_client \<Rightarrow> api_client" where
  "beforeBatchingStatusCb status trips s =
     (case (if status = 0 then completed_trips trips (mSessionBiDict s) else ([], mSessionBiDict s)) of
        (ids, d) \<Rightarrow> tell (OnBatchingStatus status ids) (s\<lparr>mSessionBiDict := d\<rparr>))"

definition removeSession :: "u32 \<Rightarrow> api_client \<Rightarrow> api_client" where
  "removeSession session s =
     (if hasSession session (mSessionBiDict s)
      then s\<lparr>mSessionBiDict := rmBySession session (mSessionBiDict s)\<rparr> else s)"

definition onResponse :: "api_client_request \<Rightarrow> location_error \<Rightarrow> u32 \<Rightarrow> api_client \<Rightarrow> api_client" where
  "onResponse r err sid s =
     (case r of
        StartTrackingRequest \<Rightarrow> tell (OnAnswer r err)
          (if err \<noteq> LOCATION_ERROR_SUCCESS \<and> err \<noteq> LOCATION_ERROR_TZ_LOCKED then removeSession sid s else s)
      | StartBatchingRequest \<Rightarrow> tell (OnAnswer r err)
          (if err \<noteq> LOCATION_ERROR_SUCCESS \<and> err \<noteq> LOCATION_ERROR_TZ_LOCKED then removeSession sid s else s)
      | StopTrackingRequest \<Rightarrow>
          (if err = LOCATION_ERROR_SUCCESS then removeSession sid (tell (OnAnswer r err) s) else tell (OnAnswer r err) s)
      | StopBatchingRequest \<Rightarrow>
          (if err = LOCATION_ERROR_SUCCESS then removeSession sid (tell (OnAnswer r err) s) else tell (OnAnswer r err) s)
      | UpdateTrackingOptionsRequest \<Rightarrow> tell (OnAnswer r err) s
      | UpdateBatchingOptionsRequest \<Rightarrow> tell (OnAnswer r err) s
      | GetBatchedLocationsRequest \<Rightarrow> tell (OnAnswer r err) s
      | GnssNiResponseRequest \<Rightarrow> tell (OnAnswer r err) s
      | _ \<Rightarrow> s)"

definition onCollectiveResponse ::
  "api_client_request \<Rightarrow> location_error list \<Rightarrow> u32 list \<Rightarrow> api_client \<Rightarrow> api_client" where
  "onCollectiveResponse r errors sessions s =
     (let known = tell (OnCollective r errors (map (\<lambda>x. getId x (mGeofenceBiDict s)) sessions)) s in
      case r of
        AddGeofencesRequest \<Rightarrow> known
      | ModifyGeofencesRequest \<Rightarrow> known
      | PauseGeofencesRequest \<Rightarrow> known
      | ResumeGeofencesRequest \<Rightarrow> known
      | RemoveGeofencesRequest removed \<Rightarrow> tell (OnCollective r errors (map (\<lambda>x. getId x removed) sessions)) s
      | _ \<Rightarrow> s)"

text \<open>The queue is found by the session, the request taken is its first.\<close>

definition pop_queue :: "request_type \<Rightarrow> api_client \<Rightarrow> api_client_request option \<times> api_client" where
  "pop_queue k s = (case rq_pop (mRequestQueues s k) of (r, q) \<Rightarrow> (r, upd_queue k (\<lambda>_. q) s))"

definition getRequestBySession :: "u32 \<Rightarrow> api_client \<Rightarrow> api_client_request option \<times> api_client" where
  "getRequestBySession session s =
     (let (r, s1) = (case find (\<lambda>k. mSession (mRequestQueues s k) = session) [REQUEST_TRACKING, REQUEST_NIRESPONSE] of
                       Some k \<Rightarrow> pop_queue k s | None \<Rightarrow> (None, s))
      in if r = None \<and> hasSession session (mSessionBiDict s1) then pop_queue REQUEST_SESSION s1 else (r, s1))"

definition onResponseCb :: "location_error \<Rightarrow> u32 \<Rightarrow> api_client \<Rightarrow> api_client" where
  "onResponseCb err sid s =
     (case getRequestBySession sid s of (Some r, s1) \<Rightarrow> onResponse r err sid s1 | (None, s1) \<Rightarrow> s1)"

definition onCollectiveResponseCb :: "location_error list \<Rightarrow> u32 list \<Rightarrow> api_client \<Rightarrow> api_client" where
  "onCollectiveResponseCb errors sessions s =
     (if geofence_queue_ok s
      then (case pop_queue REQUEST_GEOFENCE s of
              (Some r, s1) \<Rightarrow> onCollectiveResponse r errors sessions s1 | (None, s1) \<Rightarrow> s1)
      else s)"

definition destroy_client :: "api_client \<Rightarrow> api_client" where
  "destroy_client s =
     (let s1 = s\<lparr>mGeofenceBreachCallback := False, mRequestQueues := \<lambda>k. rq_reset 0 (mRequestQueues s k)\<rparr>
      in if mLocationAPI s1 then tell (CallDestroy True) (s1\<lparr>mLocationAPI := False\<rparr>) else s1)"

text \<open>The destructor: the empty callbacks lack the mandatory ones, so that the API refuses them.\<close>

definition client_destructor :: "api_client \<Rightarrow> api_client" where
  "client_destructor s =
     (if mLocationAPI s
      then tell (CallDestroy False) ((tell (CallUpdateCallbacks False) s)\<lparr>mLocationAPI := False\<rparr>) else s)"

definition api_client_init :: api_client where
  "api_client_init = \<lparr>mLocationAPI = False, mRequestQueues = \<lambda>k. rq_reset 0 rq_new,
     mGeofenceBiDict = bd_empty, mSessionBiDict = bd_empty, mBatchSize = - 1, mTracking = False,
     mGeofenceBreachCallback = False, mBatchingStatusCallback = False, client_log = []\<rparr>"

text \<open>\<open>created\<close> says whether the API returns an instance.\<close>

definition locAPISetCallbacks :: "bool \<Rightarrow> bool \<Rightarrow> bool \<Rightarrow> api_client \<Rightarrow> api_client" where
  "locAPISetCallbacks breachCb statusCb created s =
     (let s1 = s\<lparr>mGeofenceBreachCallback := mGeofenceBreachCallback s \<or> breachCb,
                 mBatchingStatusCallback := mBatchingStatusCallback s \<or> statusCb\<rparr>
      in if \<not> mLocationAPI s1 then s1\<lparr>mLocationAPI := created\<rparr> else tell (CallUpdateCallbacks True) s1)"

text \<open>The capabilities a client sees: those of the infotainment variant are restricted.\<close>

definition client_capabilities :: "bool \<Rightarrow> u64 \<Rightarrow> u64" where
  "client_capabilities infotainment m =
     (if infotainment then m AND (1 OR push_bit 5 1 OR push_bit 8 1 OR push_bit 28 1) else m)"

section \<open>The control client\<close>

datatype ctrl_request_type =
    CTRL_REQUEST_DELETEAIDINGDATA | CTRL_REQUEST_CONTROL | CTRL_REQUEST_CONFIG_UPDATE | CTRL_REQUEST_CONFIG_GET

datatype ctrl_request =
    GnssDeleteAidingDataRequest | EnableRequest | DisableRequest | GnssUpdateConfigRequest | GnssGetConfigRequest

datatype ctrl_out =
    CallDeleteAidingData nat
  | CallEnable nat
  | CallDisable u32
  | CallUpdateConfig nat
  | CallGetConfig u32
  | CallCtrlDestroy
  | OnCtrlAnswer ctrl_request location_error
  | OnCtrlCollective ctrl_request "location_error list" "u32 list"

record control_client =
  mLocationControlAPI :: bool
  ctrlQueues :: "ctrl_request_type \<Rightarrow> ctrl_request request_queue"
  mEnabled :: bool
  ctrl_log :: "ctrl_out list"

definition ctrl_tell :: "ctrl_out \<Rightarrow> control_client \<Rightarrow> control_client" where
  "ctrl_tell x s = s\<lparr>ctrl_log := ctrl_log s @ [x]\<rparr>"

definition upd_ctrl :: "ctrl_request_type \<Rightarrow> (ctrl_request request_queue \<Rightarrow> ctrl_request request_queue)
    \<Rightarrow> control_client \<Rightarrow> control_client" where
  "upd_ctrl k f s = s\<lparr>ctrlQueues := (ctrlQueues s)(k := f (ctrlQueues s k))\<rparr>"

definition control_client_init :: "bool \<Rightarrow> control_client" where
  "control_client_init created = \<lparr>mLocationControlAPI = created, ctrlQueues = \<lambda>k. rq_reset 0 rq_new,
     mEnabled = False, ctrl_log = []\<rparr>"

definition control_client_destructor :: "control_client \<Rightarrow> control_client" where
  "control_client_destructor s =
     (let s1 = (if mLocationControlAPI s then ctrl_tell CallCtrlDestroy (s\<lparr>mLocationControlAPI := False\<rparr>) else s)
      in s1\<lparr>ctrlQueues := \<lambda>k. rq_reset 0 (ctrlQueues s1 k)\<rparr>)"

definition locAPIGnssDeleteAidingData :: "nat \<Rightarrow> u32 \<Rightarrow> control_client \<Rightarrow> location_error \<times> control_client" where
  "locAPIGnssDeleteAidingData data session s =
     (if mLocationControlAPI s
      then (LOCATION_ERROR_SUCCESS,
            upd_ctrl CTRL_REQUEST_DELETEAIDINGDATA (rq_push GnssDeleteAidingDataRequest \<circ> rq_reset session)
              (ctrl_tell (CallDeleteAidingData data) s))
      else (LOCATION_ERROR_GENERAL_FAILURE, s))"

definition locAPIEnable :: "nat \<Rightarrow> u32 \<Rightarrow> control_client \<Rightarrow> location_error \<times> control_client" where
  "locAPIEnable techType session s =
     (if mEnabled s then (LOCATION_ERROR_SUCCESS, s)
      else if mLocationControlAPI s
      then (LOCATION_ERROR_SUCCESS,
            (upd_ctrl CTRL_REQUEST_CONTROL (rq_push EnableRequest \<circ> rq_reset session)
               (ctrl_tell (CallEnable techType) s))\<lparr>mEnabled := True\<rparr>)
      else (LOCATION_ERROR_GENERAL_FAILURE, s))"

definition locAPIDisable :: "control_client \<Rightarrow> control_client" where
  "locAPIDisable s =
     (if mEnabled s \<and> mLocationControlAPI s then let session = mSession (ctrlQueues s CTRL_REQUEST_CONTROL)
      in if 0 < session
         then (ctrl_tell (CallDisable session) (upd_ctrl CTRL_REQUEST_CONTROL (rq_push DisableRequest) s))
                \<lparr>mEnabled := False\<rparr>
         else s
      else s)"

text \<open>\<open>idArray\<close> is the address of the array the API returns; the test of the stored one is inverted.\<close>

definition locAPIGnssUpdateConfig :: "nat \<Rightarrow> addr \<Rightarrow> control_client \<Rightarrow> location_error \<times> control_client" where
  "locAPIGnssUpdateConfig config idArray s =
     (if mLocationControlAPI s then let s1 = ctrl_tell (CallUpdateConfig config) s
      in if idArray \<noteq> NULL
         then (LOCATION_ERROR_SUCCESS,
               upd_ctrl CTRL_REQUEST_CONFIG_UPDATE (\<lambda>q. rq_push GnssUpdateConfigRequest
                 (if mSessionArrayPtr q \<noteq> NULL then rq_reset_array idArray q else q)) s1)
         else (LOCATION_ERROR_GENERAL_FAILURE, s1)
      else (LOCATION_ERROR_GENERAL_FAILURE, s))"

definition locAPIGnssGetConfig :: "u32 \<Rightarrow> addr \<Rightarrow> control_client \<Rightarrow> location_error \<times> control_client" where
  "locAPIGnssGetConfig flags idArray s =
     (if mLocationControlAPI s then let s1 = ctrl_tell (CallGetConfig flags) s
      in if idArray \<noteq> NULL
         then (LOCATION_ERROR_SUCCESS,
               upd_ctrl CTRL_REQUEST_CONFIG_GET (\<lambda>q. rq_push GnssGetConfigRequest
                 (if mSessionArrayPtr q \<noteq> NULL then rq_reset_array idArray q else q)) s1)
         else (LOCATION_ERROR_GENERAL_FAILURE, s1)
      else (LOCATION_ERROR_GENERAL_FAILURE, s))"

definition pop_ctrl :: "ctrl_request_type \<Rightarrow> control_client \<Rightarrow> ctrl_request option \<times> control_client" where
  "pop_ctrl k s = (case rq_pop (ctrlQueues s k) of (r, q) \<Rightarrow> (r, upd_ctrl k (\<lambda>_. q) s))"

definition ctrl_getRequestBySession :: "u32 \<Rightarrow> control_client \<Rightarrow> ctrl_request option \<times> control_client" where
  "ctrl_getRequestBySession session s =
     (if mSession (ctrlQueues s CTRL_REQUEST_DELETEAIDINGDATA) = session
      then pop_ctrl CTRL_REQUEST_DELETEAIDINGDATA s
      else if mSession (ctrlQueues s CTRL_REQUEST_CONTROL) = session
      then pop_ctrl CTRL_REQUEST_CONTROL s
      else (None, s))"

definition getRequestBySessionArrayPtr :: "addr \<Rightarrow> control_client \<Rightarrow> ctrl_request option \<times> control_client" where
  "getRequestBySessionArrayPtr ptr s =
     (if mSessionArrayPtr (ctrlQueues s CTRL_REQUEST_CONFIG_UPDATE) = ptr
      then pop_ctrl CTRL_REQUEST_CONFIG_UPDATE s
      else if mSessionArrayPtr (ctrlQueues s CTRL_REQUEST_CONFIG_GET) = ptr
      then pop_ctrl CTRL_REQUEST_CONFIG_GET s
      else (None, s))"

text \<open>The requests answered one by one, and those answered for an array of numbers at an address.\<close>

definition onCtrlResponseCb :: "location_error \<Rightarrow> u32 \<Rightarrow> control_client \<Rightarrow> control_client" where
  "onCtrlResponseCb err sid s =
     (case ctrl_getRequestBySession sid s of
        (Some r, s1) \<Rightarrow> if r \<in> {GnssDeleteAidingDataRequest, EnableRequest, DisableRequest}
                       then ctrl_tell (OnCtrlAnswer r err) s1 else s1
      | (None, s1) \<Rightarrow> s1)"

definition onCtrlCollectiveResponseCb ::
  "location_error list \<Rightarrow> addr \<Rightarrow> u32 list \<Rightarrow> control_client \<Rightarrow> control_client" where
  "onCtrlCollectiveResponseCb errors ptr ids s =
     (case getRequestBySessionArrayPtr ptr s of
        (Some r, s1) \<Rightarrow> if r \<in> {GnssUpdateConfigRequest, GnssGetConfigRequest}
                       then ctrl_tell (OnCtrlCollective r errors ids) s1 else s1
      | (None, s1) \<Rightarrow> s1)"

section \<open>Removed geofences\<close>

text \<open>The loop moves the sessions of the numbers it knows from one table to the other.\<close>

lemma moved:
  assumes "bd_ok d" "bd_ok r" "om_get i (mForwardMap d) = Some s" "\<forall>t. bd_abs r t \<noteq> None \<longrightarrow> bd_abs d t = None"
    "\<forall>j. hasId j r \<longrightarrow> \<not> hasId j d"
  shows "bd_ok (rmBySession s d)" "bd_ok (bd_set i s (getExtBySession 0 s d) r)"
    "bd_abs (rmBySession s d) = (bd_abs d)(s := None)"
    "bd_abs (bd_set i s (getExtBySession 0 s d) r) = (bd_abs r)(s := bd_abs d s)"
    "om_get j (mForwardMap (rmBySession s d)) = (if j = i then None else om_get j (mForwardMap d))"
    "hasId j (bd_set i s (getExtBySession 0 s d) r) \<longleftrightarrow> j = i \<or> hasId j r"
proof -
  note D = bd_okD [OF assms(1)] and R = bd_okD [OF assms(2)]
  have bwd: "om_get s (mBackwardMap d) = Some i" using assms(3) D(4) by blast
  then obtain e where e: "om_get s (mExtMap d) = Some e" using D(5) [of s] by (cases "om_get s (mExtMap d)") auto
  have abs: "bd_abs d s = Some (i, e)" by (simp add: bd_abs_def bwd e)
  have has: "hasSession s d" by (simp add: hasSession_def bwd)
  then show "bd_ok (rmBySession s d)" "bd_abs (rmBySession s d) = (bd_abs d)(s := None)"
    using bd_ok_rmBySession [OF assms(1)] bd_abs_rm [OF assms(1)] by simp_all
  have "\<not> hasSession s r"
  proof
    assume "hasSession s r"
    then have "bd_abs r s \<noteq> None" using R(5) [of s] by (auto simp: hasSession_def bd_abs_def split: option.splits)
    then show False using assms(4) abs by auto
  qed
  moreover have "\<not> hasId i r" using assms(5) assms(3) by (auto simp: hasId_def)
  ultimately show "bd_ok (bd_set i s (getExtBySession 0 s d) r)" using bd_ok_set [OF assms(2)] by simp
  show "bd_abs (bd_set i s (getExtBySession 0 s d) r) = (bd_abs r)(s := bd_abs d s)"
    using bd_abs_set [OF assms(2)] by (simp add: abs getExtBySession_def e)
  show "om_get j (mForwardMap (rmBySession s d)) = (if j = i then None else om_get j (mForwardMap d))"
    by (simp add: rm_eq(2) [OF assms(1,3)])
  show "hasId j (bd_set i s (getExtBySession 0 s d) r) \<longleftrightarrow> j = i \<or> hasId j r"
    using R(1) by (simp add: hasId_def bd_set_def)
qed

lemma remove_loop_spec:
  assumes "remove_geofences_loop ids d r = (ss, d', r')" "bd_ok d" "bd_ok r"
    "\<forall>t. bd_abs r t \<noteq> None \<longrightarrow> bd_abs d t = None" "\<forall>j. hasId j r \<longrightarrow> \<not> hasId j d"
    "\<forall>j. om_get j (mForwardMap d) \<noteq> Some 0" "distinct ids"
  shows "bd_ok d' \<and> bd_ok r' \<and> map (\<lambda>x. getId x r') ss = filter (\<lambda>i. hasId i d) ids
    \<and> map Some ss = map (\<lambda>i. om_get i (mForwardMap d)) (filter (\<lambda>i. hasId i d) ids)
    \<and> bd_abs d' = (\<lambda>t. if t \<in> set ss then None else bd_abs d t)
    \<and> bd_abs r' = (\<lambda>t. if t \<in> set ss then bd_abs d t else bd_abs r t)"
  using assms
proof (induction ids arbitrary: d r ss)
  case (Cons i ids)
  show ?case
  proof (cases "om_get i (mForwardMap d)")
    case None
    then have "remove_geofences_loop ids d r = (ss, d', r')" "\<not> hasId i d"
      using Cons.prems(1) by (simp_all add: getSession_def hasId_def)
    with Cons.IH [OF this(1) Cons.prems(2-6)] Cons.prems(7) show ?thesis by simp
  next
    case (Some s)
    have s: "0 < s" using Some Cons.prems(6) by (metis word_gt_0)
    define d1 r1 where "d1 = rmBySession s d" and "r1 = bd_set i s (getExtBySession 0 s d) r"
    note M = moved [OF Cons.prems(2,3) Some Cons.prems(4,5), folded d1_def r1_def]
    obtain ss' where ss': "remove_geofences_loop ids d1 r1 = (ss', d', r')" "ss = s # ss'"
      using Cons.prems(1) s Some
      by (cases "remove_geofences_loop ids d1 r1") (auto simp: getSession_def d1_def r1_def Let_def)
    have "bd_ok d' \<and> bd_ok r' \<and> map (\<lambda>x. getId x r') ss' = filter (\<lambda>i. hasId i d1) ids
      \<and> map Some ss' = map (\<lambda>i. om_get i (mForwardMap d1)) (filter (\<lambda>i. hasId i d1) ids)
      \<and> bd_abs d' = (\<lambda>t. if t \<in> set ss' then None else bd_abs d1 t)
      \<and> bd_abs r' = (\<lambda>t. if t \<in> set ss' then bd_abs d1 t else bd_abs r1 t)"
    proof (rule Cons.IH [OF ss'(1) M(1,2)])
      show "\<forall>t. bd_abs r1 t \<noteq> None \<longrightarrow> bd_abs d1 t = None" using Cons.prems(4) M(3,4) by auto
      show "\<forall>j. hasId j r1 \<longrightarrow> \<not> hasId j d1" using Cons.prems(5) M(5,6) by (auto simp: hasId_def)
      show "\<forall>j. om_get j (mForwardMap d1) \<noteq> Some 0" using Cons.prems(6) M(5) by auto
      show "distinct ids" using Cons.prems(7) by simp
    qed
    note IH = this
    have same: "filter (\<lambda>i. hasId i d1) ids = filter (\<lambda>i. hasId i d) ids"
      "map (\<lambda>i. om_get i (mForwardMap d1)) (filter (\<lambda>i. hasId i d1) ids)
       = map (\<lambda>i. om_get i (mForwardMap d)) (filter (\<lambda>i. hasId i d) ids)"
    proof -
      show 1: "filter (\<lambda>i. hasId i d1) ids = filter (\<lambda>i. hasId i d) ids"
        using M(5) Cons.prems(7) by (intro filter_cong) (auto simp: hasId_def)
      show "map (\<lambda>i. om_get i (mForwardMap d1)) (filter (\<lambda>i. hasId i d1) ids)
         = map (\<lambda>i. om_get i (mForwardMap d)) (filter (\<lambda>i. hasId i d) ids)"
        unfolding 1 using M(5) Cons.prems(7) by (intro map_cong) auto
    qed
    have bwd: "om_get s (mBackwardMap d) = Some i" using bd_okD(4) [OF Cons.prems(2)] Some by blast
    then obtain e where e: "bd_abs d s = Some (i, e)"
      using bd_okD(5) [OF Cons.prems(2), of s] by (auto simp: bd_abs_def split: option.splits)
    have "s \<notin> set ss'"
    proof
      assume "s \<in> set ss'"
      then have "Some s \<in> set (map Some ss')" by simp
      then obtain j where "om_get j (mForwardMap d1) = Some s" using IH by auto
      then have "j \<noteq> i" "om_get j (mForwardMap d) = Some s" using M(5) [of j] by (auto split: if_splits)
      then show False using bd_okD(4) [OF Cons.prems(2)] bwd by auto
    qed
    then have "bd_abs r' s = Some (i, e)" using IH M(4) e by simp
    then have "getId s r' = i" by (auto simp: bd_abs_def getId_def split: option.splits)
    moreover have "hasId i d" using Some by (simp add: hasId_def)
    moreover have "bd_abs d' = (\<lambda>t. if t \<in> set ss then None else bd_abs d t)"
      using IH M(3) by (auto simp: ss'(2))
    moreover have "bd_abs r' = (\<lambda>t. if t \<in> set ss then bd_abs d t else bd_abs r t)"
      using IH M(3,4) \<open>s \<notin> set ss'\<close> by (auto simp: ss'(2))
    ultimately show ?thesis using IH same Some by (simp add: ss'(2))
  qed
qed (auto intro!: HOL.ext)

text \<open>
  C30: The removal of geofences asks the API to remove exactly the sessions of the numbers that are known, in
  their order, takes them out of the table, and its answer is reported under the client's numbers again.
\<close>

theorem removed_geofences_are_reported:
  assumes "mLocationAPI s" "geofence_queue_ok s" "bd_ok (mGeofenceBiDict s)"
    "\<forall>j. om_get j (mForwardMap (mGeofenceBiDict s)) \<noteq> Some 0" "distinct ids"
    "filter (\<lambda>i. hasId i (mGeofenceBiDict s)) ids \<noteq> []" "mQueue (mRequestQueues s REQUEST_GEOFENCE) = []"
  shows "\<exists>ss. map Some ss = map (\<lambda>i. om_get i (mForwardMap (mGeofenceBiDict s))) (filter (\<lambda>i. hasId i (mGeofenceBiDict s)) ids)
    \<and> bd_abs (mGeofenceBiDict (locAPIRemoveGeofences ids s))
      = (\<lambda>t. if t \<in> set ss then None else bd_abs (mGeofenceBiDict s) t)
    \<and> (\<exists>r. client_log (onCollectiveResponseCb errors ss (locAPIRemoveGeofences ids s))
       = client_log s @ [CallRemoveGeofences ss,
           OnCollective (RemoveGeofencesRequest r) errors (filter (\<lambda>i. hasId i (mGeofenceBiDict s)) ids)])"
proof -
  let ?d = "mGeofenceBiDict s"
  obtain ss d' r where loop: "remove_geofences_loop ids ?d bd_empty = (ss, d', r)"
    by (cases "remove_geofences_loop ids ?d bd_empty") auto
  have empty: "\<forall>t. bd_abs (bd_empty :: u32 bidict) t \<noteq> None \<longrightarrow> bd_abs ?d t = None" "\<forall>j. hasId j (bd_empty :: u32 bidict) \<longrightarrow> \<not> hasId j ?d"
    by (simp_all add: bd_abs_def bd_empty_def hasId_def)
  note spec = remove_loop_spec [OF loop assms(3) bd_ok_empty empty assms(4,5)]
  have "ss \<noteq> []" using spec assms(6) by auto
  then have rm: "locAPIRemoveGeofences ids s = tell (CallRemoveGeofences ss)
      (upd_queue REQUEST_GEOFENCE (rq_push (RemoveGeofencesRequest r)) (s\<lparr>mGeofenceBiDict := d'\<rparr>))"
    using assms(1,2) by (simp add: locAPIRemoveGeofences_def loop)
  have "client_log (onCollectiveResponseCb errors ss (locAPIRemoveGeofences ids s))
       = client_log s @ [CallRemoveGeofences ss,
           OnCollective (RemoveGeofencesRequest r) errors (filter (\<lambda>i. hasId i ?d) ids)]"
    using assms(2,7) spec
    by (simp add: rm onCollectiveResponseCb_def geofence_queue_ok_def tell_def upd_queue_def rq_push_def
        pop_queue_def rq_pop_def onCollectiveResponse_def Let_def)
  moreover have "mGeofenceBiDict (locAPIRemoveGeofences ids s) = d'"
    by (simp add: rm tell_def upd_queue_def)
  ultimately show ?thesis using spec by auto
qed

definition geofence_client :: "u32 list \<Rightarrow> u32 list \<Rightarrow> api_client" where
  "geofence_client ids sessions = onCollectiveResponseCb [] sessions
     (snd (locAPIAddGeofences ids (map (\<lambda>_. \<lparr>breachTypeMask = 1, opt_responsiveness = 0, opt_dwellTime = 0,
        opt_confidence = 0\<rparr>) ids) (Some sessions) (locAPISetCallbacks True False True api_client_init)))"

lemma two_fences_ok: "bd_ok (bd_set 4 12 1 (bd_set 3 11 (1::u32) bd_empty))"
  by (rule bd_ok_set, rule bd_ok_set, rule bd_ok_empty)
    (simp_all add: hasId_def hasSession_def bd_empty_def bd_set_def om_get_def)

theorem removed_geofences_are_reported_witness:
  "\<exists>ss r. client_log (onCollectiveResponseCb [] ss (locAPIRemoveGeofences [9, 3] (geofence_client [3, 4] [11, 12])))
     = client_log (geofence_client [3, 4] [11, 12])
       @ [CallRemoveGeofences ss, OnCollective (RemoveGeofencesRequest r) [] [3]]"
proof -
  let ?s = "geofence_client [3, 4] [11, 12]"
  have eval: "mGeofenceBiDict ?s = bd_set 4 12 1 (bd_set 3 11 1 bd_empty)" "geofence_queue_ok ?s"
    "mLocationAPI ?s" "mQueue (mRequestQueues ?s REQUEST_GEOFENCE) = []"
    by code_simp+
  have ids: "filter (\<lambda>i. hasId i (mGeofenceBiDict ?s)) [9, 3] = [3]" by code_simp
  have pos: "\<forall>j. om_get j (mForwardMap (mGeofenceBiDict ?s)) \<noteq> Some 0"
    by (simp add: eval(1) bd_set_def bd_empty_def om_get_def)
  show ?thesis
    using removed_geofences_are_reported [of ?s "[9, 3]" "[]"] eval two_fences_ok ids pos by auto
qed

text \<open>
  A report of breached geofences reaches the client with exactly its own numbers of those geofences whose
  mask asks for that kind of breach.
\<close>

theorem geofence_breach_reaches_client:
  assumes "bd_ok (mGeofenceBiDict s)" "mGeofenceBreachCallback s"
  shows "client_log (beforeGeofenceBreachCb type sessions s)
    = client_log s @ [OnGeofenceBreach type (map fst (filter (\<lambda>(i, m). breach_wanted type m)
        (List.map_filter (bd_abs (mGeofenceBiDict s)) sessions)))]"
proof -
  let ?d = "mGeofenceBiDict s"
  have none: "om_get x (mBackwardMap ?d) = None \<longleftrightarrow> om_get x (mExtMap ?d) = None" for x
    by (rule bd_okD(5) [OF assms(1)])
  have "map (\<lambda>x. getId x ?d) (filter (\<lambda>x. breach_wanted type (getExtBySession 0 x ?d)) sessions)
    = map fst (filter (\<lambda>(i, m). breach_wanted type m) (List.map_filter (bd_abs ?d) sessions))"
  proof (induction sessions)
    case (Cons x xs)
    show ?case
    proof (cases "om_get x (mExtMap ?d)")
      case None
      then show ?thesis
        using Cons none [of x]
        by (simp add: bd_abs_def getExtBySession_def breach_wanted_def List.map_filter_def)
    next
      case (Some m)
      then obtain i where "om_get x (mBackwardMap ?d) = Some i" using none [of x] by auto
      then show ?thesis
        using Cons Some by (simp add: bd_abs_def getExtBySession_def getId_def List.map_filter_def)
    qed
  qed (simp add: List.map_filter_def)
  then show ?thesis using assms(2) by (simp add: beforeGeofenceBreachCb_def tell_def)
qed

theorem geofence_breach_reaches_client_witness:
  "client_log (beforeGeofenceBreachCb 0 [12, 99, 11] (geofence_client [3, 4] [11, 12]))
   = client_log (geofence_client [3, 4] [11, 12]) @ [OnGeofenceBreach 0 [4, 3]]"
proof -
  let ?s = "geofence_client [3, 4] [11, 12]"
  have eval: "mGeofenceBiDict ?s = bd_set 4 12 1 (bd_set 3 11 1 bd_empty)" "mGeofenceBreachCallback ?s"
    by code_simp+
  have "map fst (filter (\<lambda>(i, m). breach_wanted 0 m)
      (List.map_filter (bd_abs (bd_set 4 12 1 (bd_set 3 11 1 bd_empty))) [12, 99, 11])) = [4, 3 :: u32]"
    by code_simp
  with geofence_breach_reaches_client [of ?s 0 "[12, 99, 11]"] eval two_fences_ok show ?thesis by simp
qed

section \<open>Answers that go astray\<close>

definition plain_options :: "u32 \<Rightarrow> tracking_options" where
  "plain_options distance = \<lparr>opt_size = 36, minInterval = 1000, minDistance = distance, opt_mode = 0,
     locReqEngTypeMask = 0, qualityLevelAccepted = 0, powerMode = 2, tbm = 0, specialReq = 0\<rparr>"

definition connected_client :: api_client where
  "connected_client = locAPISetCallbacks True False True api_client_init"

definition two_started :: api_client where
  "two_started = snd (locAPIStartSession 2 SESSION_MODE_ON_FULL (plain_options 5) 11
     (snd (locAPIStartSession 1 SESSION_MODE_ON_FIX (plain_options 0) 10 connected_client)))"

text \<open>
  All sessions share one queue of requests.  When the second of two starts fails before the first is
  answered, the failure is reported as that of the first, and the success of the first as the second's.
\<close>

theorem early_answer_goes_to_wrong_request:
  "drop 2 (client_log (onResponseCb LOCATION_ERROR_SUCCESS 10 (onResponseCb LOCATION_ERROR_GENERAL_FAILURE 11 two_started)))
     = [OnAnswer StartTrackingRequest LOCATION_ERROR_GENERAL_FAILURE, OnAnswer StartBatchingRequest LOCATION_ERROR_SUCCESS]
   \<and> drop 2 (client_log (onResponseCb LOCATION_ERROR_GENERAL_FAILURE 11 (onResponseCb LOCATION_ERROR_SUCCESS 10 two_started)))
     = [OnAnswer StartTrackingRequest LOCATION_ERROR_SUCCESS, OnAnswer StartBatchingRequest LOCATION_ERROR_GENERAL_FAILURE]"
  by code_simp

text \<open>
  After a start that failed, every further start only updates the session that does not exist.
\<close>

theorem failed_start_blocks_tracking:
  "client_log (snd (locAPIStartTracking (plain_options 0) 8 (onResponseCb LOCATION_ERROR_GENERAL_FAILURE 7
       (snd (locAPIStartTracking (plain_options 0) 7 connected_client)))))
   = [CallStartTracking (plain_options 0), OnAnswer StartTrackingRequest LOCATION_ERROR_GENERAL_FAILURE,
      CallUpdateTracking 7 (plain_options 0)]"
  by code_simp

text \<open>
  The modification of geofences passes the options on unfiltered: when the first number is not known, its
  options are applied to the second geofence; the table of the client has the right ones.
\<close>

definition masked :: "u32 \<Rightarrow> geofence_option" where
  "masked m = \<lparr>breachTypeMask = m, opt_responsiveness = 0, opt_dwellTime = 0, opt_confidence = 0\<rparr>"

theorem modify_shifts_options:
  "(let s = locAPIModifyGeofences [9, 3] [masked 1, masked 2] (geofence_client [3, 4] [11, 12])
    in (last (client_log s), getExtBySession 0 11 (mGeofenceBiDict s)))
   = (CallModifyGeofences [11] [masked 1], 2)"
  by code_simp

text \<open>
  An update of a batching session that stays one asks the API for a session with no distance and no
  interval, whatever the client asked for.
\<close>

theorem batching_update_drops_options:
  assumes "mLocationAPI s" "om_get sid (mForwardMap (mSessionBiDict s)) = Some session" "0 < session"
    "om_get session (mExtMap (mSessionBiDict s)) = Some e" "sessionMode e \<noteq> SESSION_MODE_ON_FIX"
    "mode \<noteq> SESSION_MODE_ON_FIX"
  shows "client_log (snd (locAPIUpdateSessionOptions sid mode options new s))
    = client_log s @ [CallUpdateBatching (batchingSession e) (batch_options mode)]
    \<and> minDistance (batch_options mode) = 0 \<and> minInterval (batch_options mode) = 0"
  using assms
  by (simp add: locAPIUpdateSessionOptions_def hasId_def getExtById_def om_index_def getExtBySession_def Let_def
      tell_def upd_queue_def batch_options_def default_batching_def)

theorem batching_update_drops_options_witness:
  "client_log (snd (locAPIUpdateSessionOptions 2 SESSION_MODE_ON_FULL (plain_options 70) 0 two_started))
   = client_log two_started @ [CallUpdateBatching 11 (batch_options SESSION_MODE_ON_FULL)]"
proof -
  have "mLocationAPI two_started" "om_get 2 (mForwardMap (mSessionBiDict two_started)) = Some 11"
    "om_get 11 (mExtMap (mSessionBiDict two_started))
     = Some \<lparr>ent_id = 2, trackingSession = 0, batchingSession = 11, sessionMode = SESSION_MODE_ON_FULL\<rparr>"
    by code_simp+
  from batching_update_drops_options [OF this(1,2) _ this(3), of SESSION_MODE_ON_FULL "plain_options 70" 0]
  show ?thesis by (simp add: SESSION_MODE_ON_FULL_def SESSION_MODE_ON_FIX_def)
qed

section \<open>The configuration requests of the control client\<close>

datatype ctrl_event =
    DeleteAidingData nat u32
  | EnableTech nat u32
  | DisableTech
  | UpdateConfig nat addr
  | GetConfig u32 addr
  | CtrlAnswer location_error u32
  | CtrlCollective "location_error list" addr "u32 list"

definition ctrl_step :: "ctrl_event \<Rightarrow> control_client \<Rightarrow> control_client option" where
  "ctrl_step e s = Some (case e of
     DeleteAidingData data session \<Rightarrow> snd (locAPIGnssDeleteAidingData data session s)
   | EnableTech t session \<Rightarrow> snd (locAPIEnable t session s)
   | DisableTech \<Rightarrow> locAPIDisable s
   | UpdateConfig config ptr \<Rightarrow> snd (locAPIGnssUpdateConfig config ptr s)
   | GetConfig flags ptr \<Rightarrow> snd (locAPIGnssGetConfig flags ptr s)
   | CtrlAnswer err sid \<Rightarrow> onCtrlResponseCb err sid s
   | CtrlCollective errors ptr ids \<Rightarrow> onCtrlCollectiveResponseCb errors ptr ids s)"

text \<open>The API returns arrays, and answers with arrays.\<close>

fun arrays_given :: "ctrl_event \<Rightarrow> bool" where
  "arrays_given (UpdateConfig config ptr) = (ptr \<noteq> NULL)"
| "arrays_given (GetConfig flags ptr) = (ptr \<noteq> NULL)"
| "arrays_given (CtrlCollective errors ptr ids) = (ptr \<noteq> NULL)"
| "arrays_given e = True"

definition config_calls :: "ctrl_out list \<Rightarrow> nat" where
  "config_calls l = length (filter (\<lambda>c. case c of CallUpdateConfig _ \<Rightarrow> True | _ \<Rightarrow> False) l)"

definition config_stuck :: "control_client \<Rightarrow> bool" where
  "config_stuck s \<longleftrightarrow> (\<forall>k. mSessionArrayPtr (ctrlQueues s k) = NULL)
     \<and> (\<forall>r errors ids. OnCtrlCollective r errors ids \<notin> set (ctrl_log s))
     \<and> length (mQueue (ctrlQueues s CTRL_REQUEST_CONFIG_UPDATE)) = config_calls (ctrl_log s)"

lemma rq_simps [simp]:
  "mSessionArrayPtr (rq_push r q) = mSessionArrayPtr q" "mSessionArrayPtr (rq_reset n q) = mSessionArrayPtr q"
  "mQueue (rq_push r q) = mQueue q @ [r]" "mQueue (rq_reset n q) = []" "mSession (rq_reset n q) = n"
  "mSession (rq_push r q) = mSession q" "mSessionArrayPtr (snd (rq_pop q)) = mSessionArrayPtr q"
  by (simp_all add: rq_push_def rq_reset_def rq_pop_def split: list.split)

lemma ctrl_tell_simps [simp]: "ctrlQueues (ctrl_tell x s) = ctrlQueues s" "ctrl_log (ctrl_tell x s) = ctrl_log s @ [x]"
  by (simp_all add: ctrl_tell_def)

lemma upd_ctrl_simps [simp]: "ctrlQueues (upd_ctrl k f s) = (ctrlQueues s)(k := f (ctrlQueues s k))"
  "ctrl_log (upd_ctrl k f s) = ctrl_log s"
  by (simp_all add: upd_ctrl_def)

lemma pop_ctrl_simps:
  "pop_ctrl k s = (r, s') \<Longrightarrow> ctrl_log s' = ctrl_log s"
  "pop_ctrl k s = (r, s') \<Longrightarrow> mSessionArrayPtr (ctrlQueues s' k') = mSessionArrayPtr (ctrlQueues s k')"
  "pop_ctrl k s = (r, s') \<Longrightarrow> k' \<noteq> k \<Longrightarrow> ctrlQueues s' k' = ctrlQueues s k'"
  by (auto simp: pop_ctrl_def rq_pop_def split: prod.splits list.splits)

lemma config_calls_simps [simp]: "config_calls (l @ [x]) = config_calls l + (case x of CallUpdateConfig _ \<Rightarrow> 1 | _ \<Rightarrow> 0)"
  by (simp add: config_calls_def split: ctrl_out.split)

lemma config_stuck_popped:
  assumes "config_stuck s" "pop_ctrl k s = (r, s')" "k \<noteq> CTRL_REQUEST_CONFIG_UPDATE"
  shows "config_stuck s'" "config_stuck (ctrl_tell (OnCtrlAnswer x err) s')"
  using assms pop_ctrl_simps [OF assms(2)] by (auto simp: config_stuck_def)

lemma config_stuck_step:
  assumes s: "config_stuck s" and e: "arrays_given e" and step: "ctrl_step e s = Some s'"
  shows "config_stuck s'"
proof (cases e)
  case (CtrlAnswer err sid)
  obtain r t where rt: "ctrl_getRequestBySession sid s = (r, t)" by (cases "ctrl_getRequestBySession sid s") auto
  then have "config_stuck t \<and> config_stuck (ctrl_tell (OnCtrlAnswer x err) t)" for x
    using s config_stuck_popped [OF s, of CTRL_REQUEST_DELETEAIDINGDATA r t]
      config_stuck_popped [OF s, of CTRL_REQUEST_CONTROL r t]
    by (auto simp: ctrl_getRequestBySession_def config_stuck_def split: if_splits)
  then show ?thesis
    using step CtrlAnswer rt by (auto simp: ctrl_step_def onCtrlResponseCb_def split: option.splits if_splits)
next
  case (CtrlCollective errors ptr ids)
  have "getRequestBySessionArrayPtr ptr s = (None, s)"
    using s e CtrlCollective by (simp add: getRequestBySessionArrayPtr_def config_stuck_def)
  then show ?thesis using s step CtrlCollective by (simp add: ctrl_step_def onCtrlCollectiveResponseCb_def)
qed (use s e step in \<open>auto simp: ctrl_step_def config_stuck_def locAPIGnssDeleteAidingData_def locAPIEnable_def
  locAPIDisable_def locAPIGnssUpdateConfig_def locAPIGnssGetConfig_def Let_def split: if_splits\<close>)

interpretation config: invariant_system ctrl_step config_stuck arrays_given
  by unfold_locales (rule config_stuck_step)

text \<open>
  The array of numbers that identifies a configuration request is never stored.  So no answer to such a
  request ever reaches the client, and every request made stays in its queue.
\<close>

theorem config_answers_are_lost:
  assumes "list_all arrays_given evs" "run ctrl_step evs (control_client_init c) = Some s"
  shows "OnCtrlCollective r errors ids \<notin> set (ctrl_log s)
    \<and> length (mQueue (ctrlQueues s CTRL_REQUEST_CONFIG_UPDATE)) = config_calls (ctrl_log s)"
proof -
  have "config_stuck (control_client_init c)"
    by (simp add: config_stuck_def control_client_init_def config_calls_def rq_new_def)
  from config.run_inv [OF this assms] show ?thesis by (simp add: config_stuck_def)
qed

theorem config_answers_are_lost_witness:
  "\<exists>s. run ctrl_step [UpdateConfig 5 100, CtrlCollective [LOCATION_ERROR_SUCCESS] 100 [1]] (control_client_init True) = Some s
     \<and> length (mQueue (ctrlQueues s CTRL_REQUEST_CONFIG_UPDATE)) = 1
     \<and> OnCtrlCollective GnssUpdateConfigRequest [LOCATION_ERROR_SUCCESS] [1] \<notin> set (ctrl_log s)"
proof -
  let ?evs = "[UpdateConfig 5 100, CtrlCollective [LOCATION_ERROR_SUCCESS] 100 [1]]"
  have "map_option (\<lambda>s. config_calls (ctrl_log s)) (run ctrl_step ?evs (control_client_init True)) = Some 1"
    by code_simp
  then obtain s where s: "run ctrl_step ?evs (control_client_init True) = Some s" "config_calls (ctrl_log s) = 1"
    by auto
  from config_answers_are_lost [OF _ s(1), of GnssUpdateConfigRequest "[LOCATION_ERROR_SUCCESS]" "[1]"] s
  show ?thesis by simp
qed

end
