(* ===== verification/ApiSessions.thy ===== *)
theory ApiSessions
  imports ApiClient
begin

text \<open>
  The table of sessions of \<^verbatim>\<open>gps/location/LocationAPIClientBase.cpp\<close> over all runs: an entry names the
  session the API knows, of the kind the client asked for, under the number the client gave; only a
  session that the API did not start, to which it gives the number 0, is not told apart.
\<close>

section \<open>Steps\<close>

text \<open>
  The number the API gives a new session is one that is not in use, as the adapters generate them,
  or 0, as \<open>LocationAPI\<close> returns without the interface of the adapter or without the client.
\<close>

datatype session_event =
    StartTrackingEvent tracking_options u32
  | StopTrackingEvent
  | UpdateTrackingEvent tracking_options
  | StartSession u32 u32 tracking_options u32
  | StopSession u32
  | RemoveAllSessions
  | UpdateSession u32 u32 tracking_options u32
  | GetBatched u32 nat
  | AnswerSession location_error u32
  | TripsCompleted u32 "u32 list"

definition given_session :: "u32 \<Rightarrow> api_client \<Rightarrow> bool" where
  "given_session session s \<longleftrightarrow> session = 0 \<or> \<not> hasSession session (mSessionBiDict s)"

definition session_step :: "session_event \<Rightarrow> api_client \<Rightarrow> api_client option" where
  "session_step e s =
     (case e of
        StartTrackingEvent o' n \<Rightarrow> Some (snd (locAPIStartTracking o' n s))
      | StopTrackingEvent \<Rightarrow> Some (locAPIStopTracking s)
      | UpdateTrackingEvent o' \<Rightarrow> Some (locAPIUpdateTrackingOptions o' s)
      | StartSession i mode o' n \<Rightarrow>
          (if given_session n s then Some (snd (locAPIStartSession i mode o' n s)) else None)
      | StopSession i \<Rightarrow> Some (snd (locAPIStopSession i s))
      | RemoveAllSessions \<Rightarrow> Some (locAPIRemoveAllSessions s)
      | UpdateSession i mode o' n \<Rightarrow>
          (if given_session n s then Some (snd (locAPIUpdateSessionOptions i mode o' n s)) else None)
      | GetBatched i n \<Rightarrow> Some (snd (locAPIGetBatchedLocations i n s))
      | AnswerSession err i \<Rightarrow> Some (onResponseCb err i s)
      | TripsCompleted status xs \<Rightarrow> Some (beforeBatchingStatusCb status xs s))"

section \<open>The table is well-formed\<close>

definition entity_ok :: "u32 \<Rightarrow> session_entity \<Rightarrow> bool" where
  "entity_ok session e \<longleftrightarrow> (if sessionMode e = SESSION_MODE_ON_FIX then trackingSession e = session \<and> batchingSession e = 0
     else batchingSession e = session \<and> trackingSession e = 0)"

text \<open>The directions are converse, and each session has its value, but for the session 0.\<close>

definition sessions_ok :: "session_entity bidict \<Rightarrow> bool" where
  "sessions_ok d \<longleftrightarrow> om_ok (mForwardMap d) \<and> om_ok (mBackwardMap d) \<and> om_ok (mExtMap d)
     \<and> (\<forall>i t. om_get i (mForwardMap d) = Some t \<and> 0 < t \<longrightarrow> om_get t (mBackwardMap d) = Some i)
     \<and> (\<forall>i t. om_get t (mBackwardMap d) = Some i \<longrightarrow> om_get i (mForwardMap d) = Some t)
     \<and> (\<forall>i t. om_get t (mBackwardMap d) = Some i \<and> 0 < t \<longrightarrow> (\<exists>e. om_get t (mExtMap d) = Some e \<and> entity_ok t e))"

lemma sessions_okD:
  assumes "sessions_ok d"
  shows "om_ok (mForwardMap d)" "om_ok (mBackwardMap d)" "om_ok (mExtMap d)"
    "om_get i (mForwardMap d) = Some t \<Longrightarrow> 0 < t \<Longrightarrow> om_get t (mBackwardMap d) = Some i"
    "om_get t (mBackwardMap d) = Some i \<Longrightarrow> om_get i (mForwardMap d) = Some t"
    "om_get t (mBackwardMap d) = Some i \<Longrightarrow> 0 < t \<Longrightarrow> \<exists>e. om_get t (mExtMap d) = Some e \<and> entity_ok t e"
  using assms unfolding sessions_ok_def by blast+

definition session_inv :: "api_client \<Rightarrow> bool" where
  "session_inv s = sessions_ok (mSessionBiDict s)"

lemma session_inv_cong: "mSessionBiDict s' = mSessionBiDict s \<Longrightarrow> session_inv s' = session_inv s"
  by (simp add: session_inv_def)

lemma dict_same [simp]: "mSessionBiDict (tell x s) = mSessionBiDict s" "mSessionBiDict (upd_queue k f s) = mSessionBiDict s"
  "mSessionBiDict (snd (pop_queue k s)) = mSessionBiDict s"
  by (simp_all add: tell_def upd_queue_def pop_queue_def split: prod.split)

lemma sessions_set:
  assumes "sessions_ok d" "\<not> hasId i d" "0 < t \<Longrightarrow> \<not> hasSession t d \<and> entity_ok t e"
  shows "sessions_ok (bd_set i t e d)"
proof -
  note D = sessions_okD [OF assms(1)]
  have i: "om_get i (mForwardMap d) = None" using assms(2) by (simp add: hasId_def)
  have t: "0 < t \<Longrightarrow> om_get t (mBackwardMap d) = None" using assms(3) by (simp add: hasSession_def)
  have fwd: "om_get j (mForwardMap (bd_set i t e d)) = (if j = i then Some t else om_get j (mForwardMap d))"
    and bwd: "om_get u (mBackwardMap (bd_set i t e d)) = (if u = t then Some i else om_get u (mBackwardMap d))"
    and ext: "om_get u (mExtMap (bd_set i t e d)) = (if u = t then Some e else om_get u (mExtMap d))" for j u
    using D(1-3) by (simp_all add: bd_set_def)
  have "om_get u (mBackwardMap (bd_set i t e d)) = Some j"
    if "om_get j (mForwardMap (bd_set i t e d)) = Some u" "0 < u" for j u
    using that D(4) [of j u] t by (auto simp: fwd bwd split: if_splits)
  moreover have "om_get j (mForwardMap (bd_set i t e d)) = Some u" if "om_get u (mBackwardMap (bd_set i t e d)) = Some j" for j u
    using that D(5) [of u j] i by (auto simp: fwd bwd split: if_splits)
  moreover have "\<exists>e'. om_get u (mExtMap (bd_set i t e d)) = Some e' \<and> entity_ok u e'"
    if "om_get u (mBackwardMap (bd_set i t e d)) = Some j" "0 < u" for j u
    using that D(6) [of u j] assms(3) by (auto simp: bwd ext split: if_splits)
  moreover have "om_ok (mForwardMap (bd_set i t e d))" "om_ok (mBackwardMap (bd_set i t e d))" "om_ok (mExtMap (bd_set i t e d))"
    using D(1-3) by (simp_all add: bd_set_def)
  ultimately show ?thesis unfolding sessions_ok_def by blast
qed

lemma rm_by_id:
  assumes "om_get i (mForwardMap d) = Some t"
  shows "rmById i d = d\<lparr>mForwardMap := om_erase i (mForwardMap d), mBackwardMap := om_erase t (mBackwardMap d),
    mExtMap := om_erase t (mExtMap d)\<rparr>"
  using assms by (simp add: rmById_def om_index_def)

lemma sessions_remove_id:
  assumes "sessions_ok d" "om_get i (mForwardMap d) = Some t"
  shows "sessions_ok (rmById i d)" "\<not> hasId i (rmById i d)" "\<not> hasSession t (rmById i d)"
    "hasSession x (rmById i d) \<Longrightarrow> hasSession x d"
proof -
  note D = sessions_okD [OF assms(1)]
  have fwd: "om_get j (mForwardMap (rmById i d)) = (if j = i then None else om_get j (mForwardMap d))"
    and bwd: "om_get u (mBackwardMap (rmById i d)) = (if u = t then None else om_get u (mBackwardMap d))"
    and ext: "om_get u (mExtMap (rmById i d)) = (if u = t then None else om_get u (mExtMap d))" for j u
    using D(1-3) by (simp_all add: rm_by_id [OF assms(2)])
  have "om_get u (mBackwardMap (rmById i d)) = Some j" if "om_get j (mForwardMap (rmById i d)) = Some u" "0 < u" for j u
    using that D(4) [of j u] D(4) [OF assms(2)] by (auto simp: fwd bwd split: if_splits)
  moreover have "om_get j (mForwardMap (rmById i d)) = Some u" if "om_get u (mBackwardMap (rmById i d)) = Some j" for j u
    using that D(5) [of u j] assms(2) by (auto simp: fwd bwd split: if_splits)
  moreover have "\<exists>e. om_get u (mExtMap (rmById i d)) = Some e \<and> entity_ok u e"
    if "om_get u (mBackwardMap (rmById i d)) = Some j" "0 < u" for j u
    using that D(6) [of u j] by (auto simp: bwd ext split: if_splits)
  moreover have "om_ok (mForwardMap (rmById i d))" "om_ok (mBackwardMap (rmById i d))" "om_ok (mExtMap (rmById i d))"
    using D(1-3) by (simp_all add: rm_by_id [OF assms(2)])
  ultimately show "sessions_ok (rmById i d)" unfolding sessions_ok_def by blast
  show "\<not> hasId i (rmById i d)" "\<not> hasSession t (rmById i d)" "hasSession x (rmById i d) \<Longrightarrow> hasSession x d"
    by (auto simp: hasId_def hasSession_def fwd bwd split: if_splits)
qed

lemma sessions_remove:
  assumes "sessions_ok d" "hasSession t d"
  shows "sessions_ok (rmBySession t d)"
proof -
  obtain i where i: "om_get t (mBackwardMap d) = Some i" using assms(2) by (auto simp: hasSession_def)
  then have f: "om_get i (mForwardMap d) = Some t" by (rule sessions_okD(5) [OF assms(1)])
  then have "rmBySession t d = rmById i d" using i by (simp add: rm_by_id rmBySession_def om_index_def)
  with sessions_remove_id(1) [OF assms(1) f] show ?thesis by simp
qed

text \<open>The entry of a number of the client: all zero for the session 0.\<close>

lemma entry:
  assumes "sessions_ok d" "om_get i (mForwardMap d) = Some t"
  shows "t = 0 \<Longrightarrow> getExtById z i d = (z, d)"
    "0 < t \<Longrightarrow> \<exists>e. om_get t (mExtMap d) = Some e \<and> getExtById z i d = (e, d) \<and> entity_ok t e"
proof -
  show "t = 0 \<Longrightarrow> getExtById z i d = (z, d)" using assms(2) by (simp add: getExtById_def om_index_def)
  assume "0 < t"
  from sessions_okD(6) [OF assms(1) sessions_okD(4) [OF assms this] this] obtain e
    where "om_get t (mExtMap d) = Some e" "entity_ok t e" by blast
  with \<open>0 < t\<close> show "\<exists>e. om_get t (mExtMap d) = Some e \<and> getExtById z i d = (e, d) \<and> entity_ok t e"
    using assms(2) by (simp add: getExtById_def om_index_def getExtBySession_def)
qed

lemma entry_same:
  assumes "hasId i d"
  shows "\<exists>e. getExtById z i d = (e, d)"
  using assms by (auto simp: hasId_def getExtById_def om_index_def)

lemma start_session_inv:
  assumes "session_inv s" "given_session n s"
  shows "session_inv (snd (locAPIStartSession i mode o' n s))"
proof (cases "mLocationAPI s \<and> \<not> hasId i (mSessionBiDict s)")
  case True
  let ?e = "\<lparr>ent_id = i, trackingSession = (if mode = SESSION_MODE_ON_FIX then n else 0),
     batchingSession = (if mode = SESSION_MODE_ON_FIX then 0 else n), sessionMode = mode\<rparr>"
  have "sessions_ok (bd_set i n ?e (mSessionBiDict s))"
    using assms True by (intro sessions_set) (auto simp: session_inv_def given_session_def entity_ok_def)
  then show ?thesis
    using True by (cases "mode = SESSION_MODE_ON_FIX") (simp_all add: locAPIStartSession_def Let_def session_inv_def)
next
  case False
  then show ?thesis using assms(1) by (auto simp: locAPIStartSession_def)
qed

lemma stop_session_dict:
  shows "mSessionBiDict (snd (locAPIStopSession i s)) = mSessionBiDict s"
proof (cases "mLocationAPI s \<and> hasId i (mSessionBiDict s)")
  case True
  then obtain e where "getExtById zero_entity i (mSessionBiDict s) = (e, mSessionBiDict s)"
    using entry_same [of i "mSessionBiDict s" zero_entity] by blast
  then show ?thesis using True by (simp add: locAPIStopSession_def)
qed (auto simp: locAPIStopSession_def)

lemma get_batched_dict:
  shows "mSessionBiDict (snd (locAPIGetBatchedLocations i n s)) = mSessionBiDict s"
proof (cases "mLocationAPI s \<and> hasId i (mSessionBiDict s)")
  case True
  then obtain e where "getExtById zero_entity i (mSessionBiDict s) = (e, mSessionBiDict s)"
    using entry_same [of i "mSessionBiDict s" zero_entity] by blast
  then show ?thesis using True by (simp add: locAPIGetBatchedLocations_def)
qed (auto simp: locAPIGetBatchedLocations_def)

lemma remove_all_dict: "mSessionBiDict (locAPIRemoveAllSessions s) = mSessionBiDict s"
proof -
  have "mSessionBiDict (fold (\<lambda>i s. snd (locAPIStopSession i s)) is s) = mSessionBiDict s" for "is"
    by (induction "is" arbitrary: s) (simp_all add: stop_session_dict)
  then show ?thesis by (simp add: locAPIRemoveAllSessions_def)
qed

lemma update_session_inv:
  assumes s: "session_inv s" and n: "given_session n s"
  shows "session_inv (snd (locAPIUpdateSessionOptions i mode o' n s))"
proof (cases "mLocationAPI s \<and> hasId i (mSessionBiDict s)")
  case True
  let ?d = "mSessionBiDict s"
  have ok: "sessions_ok ?d" using s by (simp add: session_inv_def)
  obtain t where t: "om_get i (mForwardMap ?d) = Some t" using True by (auto simp: hasId_def)
  note gone = sessions_remove_id [OF ok t]
  have put: "sessions_ok (bd_set i x e (rmById i ?d))" if "0 < x \<Longrightarrow> entity_ok x e \<and> (x = t \<or> x = n)" for x e
    using gone that n by (intro sessions_set) (auto simp: given_session_def)
  have fix_ne: "sessionMode zero_entity \<noteq> SESSION_MODE_ON_FIX" by (simp add: zero_entity_def SESSION_MODE_ON_FIX_def)
  show ?thesis
  proof (cases "0 < t")
    case False
    then have "t = 0" by (simp add: word_gt_0)
    note e = entry(1) [OF ok t this, of zero_entity]
    have "entity_ok n (zero_entity\<lparr>trackingSession := n, batchingSession := 0, sessionMode := SESSION_MODE_ON_FIX\<rparr>)"
      by (simp add: entity_ok_def)
    with True put e fix_ne show ?thesis
      by (cases "mode = SESSION_MODE_ON_FIX")
        (simp_all add: locAPIUpdateSessionOptions_def Let_def session_inv_def, simp add: zero_entity_def)
  next
    case pos: True
    from entry(2) [OF ok t pos] obtain e where e: "getExtById zero_entity i ?d = (e, ?d)" "entity_ok t e" by blast
    have "entity_ok n (e\<lparr>trackingSession := n, batchingSession := 0, sessionMode := SESSION_MODE_ON_FIX\<rparr>)"
      "mode \<noteq> SESSION_MODE_ON_FIX \<Longrightarrow> entity_ok n (e\<lparr>trackingSession := 0, batchingSession := n, sessionMode := mode\<rparr>)"
      "sessionMode e = SESSION_MODE_ON_FIX \<Longrightarrow> trackingSession e = t
        \<and> entity_ok t (e\<lparr>trackingSession := trackingSession e, batchingSession := batchingSession e,
             sessionMode := SESSION_MODE_ON_FIX\<rparr>)"
      "sessionMode e \<noteq> SESSION_MODE_ON_FIX \<Longrightarrow> mode \<noteq> SESSION_MODE_ON_FIX \<Longrightarrow> batchingSession e = t
        \<and> entity_ok t (e\<lparr>trackingSession := trackingSession e, batchingSession := batchingSession e,
             sessionMode := mode\<rparr>)"
      using e(2) by (simp_all add: entity_ok_def)
    with True put e(1) show ?thesis
      by (cases "mode = SESSION_MODE_ON_FIX"; cases "sessionMode e = SESSION_MODE_ON_FIX")
        (simp_all add: locAPIUpdateSessionOptions_def Let_def session_inv_def)
  qed
next
  case False
  then show ?thesis using s by (auto simp: locAPIUpdateSessionOptions_def)
qed

lemma remove_session_inv: "session_inv s \<Longrightarrow> session_inv (removeSession t s)"
  using sessions_remove [of "mSessionBiDict s" t] by (simp add: removeSession_def session_inv_def)

lemma session_answer_inv: "session_inv s \<Longrightarrow> session_inv (onResponse r err t s)"
proof -
  assume s: "session_inv s"
  have "session_inv (tell x s)" "session_inv (tell x (removeSession t s))" "session_inv (removeSession t (tell x s))" for x
    using s remove_session_inv [OF s] remove_session_inv [of "tell x s"] by (simp_all add: session_inv_def)
  then show ?thesis using s by (simp add: onResponse_def split: api_client_request.split)
qed

lemma request_dict: "mSessionBiDict (snd (getRequestBySession t s)) = mSessionBiDict s"
proof -
  obtain r s1 where rs: "(case find (\<lambda>k. mSession (mRequestQueues s k) = t) [REQUEST_TRACKING, REQUEST_NIRESPONSE] of
      Some k \<Rightarrow> pop_queue k s | None \<Rightarrow> (None, s)) = (r, s1)" by fastforce
  have "mSessionBiDict s1 = mSessionBiDict s"
    using arg_cong [OF rs, of "mSessionBiDict \<circ> snd"] by (auto split: option.splits)
  then show ?thesis using rs by (simp add: getRequestBySession_def)
qed

lemma on_response_inv: "session_inv s \<Longrightarrow> session_inv (onResponseCb err t s)"
proof -
  assume s: "session_inv s"
  obtain r s1 where rs: "getRequestBySession t s = (r, s1)" by fastforce
  then have "session_inv s1" using request_dict [of t s] s by (simp add: session_inv_def)
  then show ?thesis by (cases r) (simp_all add: onResponseCb_def rs session_answer_inv)
qed

lemma ended_sessions_ok: "sessions_ok d \<Longrightarrow> sessions_ok (snd (completed_trips xs d))"
  by (induction xs d rule: completed_trips.induct)
    (auto simp: Let_def sessions_remove split: prod.splits)

lemma trips_inv: "session_inv s \<Longrightarrow> session_inv (beforeBatchingStatusCb status xs s)"
  using ended_sessions_ok [of "mSessionBiDict s" xs]
  by (auto simp: beforeBatchingStatusCb_def session_inv_def split: prod.split)

lemma tracking_dict:
  "mSessionBiDict (locAPIUpdateTrackingOptions o' s) = mSessionBiDict s"
  "mSessionBiDict (snd (locAPIStartTracking o' n s)) = mSessionBiDict s"
  "mSessionBiDict (locAPIStopTracking s) = mSessionBiDict s"
  by (simp_all add: locAPIUpdateTrackingOptions_def locAPIStartTracking_def locAPIStopTracking_def Let_def)

lemma session_step_inv:
  assumes s: "session_inv s" and step: "session_step e s = Some s'"
  shows "session_inv s'"
proof -
  have same: "session_inv t" if "mSessionBiDict t = mSessionBiDict s" for t
    using session_inv_cong [OF that] s by simp
  show ?thesis
  proof (cases e)
    case (StartSession i mode o' n)
    then show ?thesis using step start_session_inv [OF s] by (auto simp: session_step_def split: if_splits)
  next
    case (UpdateSession i mode o' n)
    then show ?thesis using step update_session_inv [OF s] by (auto simp: session_step_def split: if_splits)
  next
    case (AnswerSession err i)
    then show ?thesis using step on_response_inv [OF s] by (auto simp: session_step_def)
  next
    case (TripsCompleted status xs)
    then show ?thesis using step trips_inv [OF s] by (auto simp: session_step_def)
  qed (use step in \<open>auto simp: session_step_def tracking_dict stop_session_dict remove_all_dict
      get_batched_dict intro!: same\<close>)
qed

interpretation sessions: invariant_system session_step session_inv "\<lambda>e. True"
  by unfold_locales (rule session_step_inv)

text \<open>
  C15: In every run in which the API gives each session that is started a number that is not in use,
  or 0 for one that it did not start: a number of the client stands for one session of the API, that
  session leads back to the number, and a stop asks the API to stop exactly that session, and as
  tracking or batching as the mode of its entry says.  A session 0 is stored like the others, and a stop
  of it asks the API to stop the batching of session 0.
\<close>

theorem sessions_are_well_formed:
  assumes "run session_step evs (locAPISetCallbacks b c True api_client_init) = Some s"
    "om_get i (mForwardMap (mSessionBiDict s)) = Some t" "mLocationAPI s"
  shows "(0 < t \<longrightarrow> getId t (mSessionBiDict s) = i)
    \<and> client_log (snd (locAPIStopSession i s)) = client_log s
      @ [if 0 < t \<and> sessionMode (getExtBySession zero_entity t (mSessionBiDict s)) = SESSION_MODE_ON_FIX
         then CallStopTracking t else CallStopBatching t]"
proof -
  let ?d = "mSessionBiDict s"
  have "session_inv (locAPISetCallbacks b c True api_client_init)"
    by (simp add: session_inv_def sessions_ok_def locAPISetCallbacks_def api_client_init_def bd_empty_def)
  moreover have "list_all (\<lambda>e. True) evs" by (induction evs) simp_all
  ultimately have ok: "sessions_ok ?d"
    using sessions.run_inv [of _ evs s] assms(1) by (simp add: session_inv_def)
  have h: "hasId i ?d" using assms(2) by (simp add: hasId_def)
  show ?thesis
  proof (cases "0 < t")
    case True
    from entry(2) [OF ok assms(2) True, of zero_entity] obtain e where e: "om_get t (mExtMap ?d) = Some e"
      "getExtById zero_entity i ?d = (e, ?d)" "entity_ok t e" by blast
    have "getExtBySession zero_entity t ?d = e" using e(1) by (simp add: getExtBySession_def)
    with e sessions_okD(4) [OF ok assms(2) True] True assms(3) h show ?thesis
      by (auto simp: getId_def entity_ok_def locAPIStopSession_def tell_def upd_queue_def)
  next
    case False
    then have "t = 0" by (simp add: word_gt_0)
    then have "getExtById zero_entity i ?d = (zero_entity, ?d)" by (rule entry(1) [OF ok assms(2)])
    with False assms(3) h show ?thesis
      by (simp add: locAPIStopSession_def tell_def upd_queue_def word_gt_0 zero_entity_def SESSION_MODE_ON_FIX_def)
  qed
qed

theorem sessions_are_well_formed_witness:
  "\<exists>s. run session_step [StartSession 1 SESSION_MODE_ON_FIX (plain_options 0) 10,
       UpdateSession 1 SESSION_MODE_ON_FULL (plain_options 0) 11] (locAPISetCallbacks True False True api_client_init) = Some s
     \<and> last (client_log (snd (locAPIStopSession 1 s))) = CallStopBatching 11"
proof -
  let ?r = "run session_step [StartSession 1 SESSION_MODE_ON_FIX (plain_options 0) 10,
       UpdateSession 1 SESSION_MODE_ON_FULL (plain_options 0) 11] (locAPISetCallbacks True False True api_client_init)"
  have "map_option (\<lambda>s. (om_get 1 (mForwardMap (mSessionBiDict s)), mLocationAPI s,
      sessionMode (getExtBySession zero_entity 11 (mSessionBiDict s)) = SESSION_MODE_ON_FIX)) ?r = Some (Some 11, True, False)"
    by code_simp
  then obtain s where s: "?r = Some s" "om_get 1 (mForwardMap (mSessionBiDict s)) = Some 11" "mLocationAPI s"
    "sessionMode (getExtBySession zero_entity 11 (mSessionBiDict s)) \<noteq> SESSION_MODE_ON_FIX" by auto
  from sessions_are_well_formed [OF s(1-3)] s show ?thesis by simp
qed

end
