(* ===== verification/LocText.thy ===== *)
theory LocText
  imports Prelude
begin

unbundle bit_operations_syntax

text \<open>
  The two text helpers of \<^verbatim>\<open>gps/core/LocApiBase.cpp\<close>: the bytes of a message as hexadecimal
  digits, and the number in a GSM address as decimal digits.

  A buffer is the list of its bytes, of the size that the memory really has; the size passed to
  the function is a number of its own.  \<open>None\<close> is a read or a write outside a buffer.
\<close>

section \<open>Buffers\<close>

type_synonym byte = "8 word"

definition put :: "nat \<Rightarrow> byte \<Rightarrow> byte list \<Rightarrow> byte list option" where
  "put i c b = (if i < length b then Some (b[i := c]) else None)"

definition get :: "nat \<Rightarrow> byte list \<Rightarrow> byte option" where
  "get i b = (if i < length b then Some (b ! i) else None)"

lemma put_in [simp]: "i < length b \<Longrightarrow> put i c b = Some (b[i := c])"
  by (simp add: put_def)

lemma get_in [simp]: "i < length b \<Longrightarrow> get i b = Some (b ! i)"
  by (simp add: get_def)

section \<open>Hexadecimal digits\<close>

definition hex_digit :: "byte \<Rightarrow> byte" where
  "hex_digit n = (if n < 10 then n + 48 else n + 55)"

text \<open>
  The first two characters that \<open>%02X\<close> prints for a \<open>char\<close>.  Where \<open>char\<close> is signed
  (\<open>schar\<close>), a byte with the top bit set is promoted to a negative \<open>int\<close> whose eight digits
  start with \<open>FF\<close>.
\<close>

definition hex2 :: "bool \<Rightarrow> byte \<Rightarrow> byte \<times> byte" where
  "hex2 schar ch = (if schar \<and> bit ch 7 then (hex_digit 15, hex_digit 15)
     else (hex_digit (drop_bit 4 ch), hex_digit (ch AND 15)))"

text \<open>One round of the loop writes two digits and the terminator; \<open>n\<close> rounds are left.\<close>

fun hexcode_from :: "bool \<Rightarrow> nat \<Rightarrow> nat \<Rightarrow> byte list \<Rightarrow> int \<Rightarrow> byte list \<Rightarrow> (nat \<times> byte list) option" where
  "hexcode_from schar 0 i hexstring string_size data = Some (i, hexstring)"
| "hexcode_from schar (Suc n) i hexstring string_size data = do {
     ch \<leftarrow> get i data;
     if int i * 2 + 3 \<le> string_size then do {
       let (h, l) = hex2 schar ch;
       b1 \<leftarrow> put (2 * i) h hexstring;
       b2 \<leftarrow> put (2 * i + 1) l b1;
       b3 \<leftarrow> put (2 * i + 2) 0 b2;
       hexcode_from schar n (i + 1) b3 string_size data }
     else Some (i, hexstring) }"

definition hexcode :: "bool \<Rightarrow> byte list \<Rightarrow> int \<Rightarrow> byte list \<Rightarrow> int \<Rightarrow> (nat \<times> byte list) option" where
  "hexcode schar hexstring string_size data data_size =
     hexcode_from schar (nat data_size) 0 hexstring string_size data"

text \<open>The digits of a sequence of bytes.\<close>

definition hex_text :: "bool \<Rightarrow> byte list \<Rightarrow> byte list" where
  "hex_text schar data = concat (map (\<lambda>ch. [fst (hex2 schar ch), snd (hex2 schar ch)]) data)"

lemma hex_text_Nil [simp]: "hex_text schar [] = []"
  and hex_text_append [simp]: "hex_text schar (xs @ ys) = hex_text schar xs @ hex_text schar ys"
  and length_hex_text [simp]: "length (hex_text schar xs) = 2 * length xs"
  by (induction xs) (simp_all add: hex_text_def)

text \<open>Number of bytes that fit into the size given, with the terminator.\<close>

definition hex_room :: "int \<Rightarrow> nat" where
  "hex_room string_size = nat ((string_size - 1) div 2)"

lemma hex_room_iff: "int i * 2 + 3 \<le> string_size \<longleftrightarrow> i < hex_room string_size"
  by (auto simp: hex_room_def)

lemma hexcode_from_spec:
  assumes "int (length hexstring) \<ge> string_size" "i + n \<le> length data" "i \<le> hex_room string_size"
    "hexstring = hex_text schar (take i data) @ rest" "i > 0 \<Longrightarrow> rest ! 0 = 0"
  shows "\<exists>rest'. hexcode_from schar n i hexstring string_size data
      = Some (min (i + n) (hex_room string_size),
              hex_text schar (take (min (i + n) (hex_room string_size)) data) @ rest')
      \<and> (min (i + n) (hex_room string_size) > 0 \<longrightarrow> rest' ! 0 = 0)
      \<and> 2 * min (i + n) (hex_room string_size) + length rest' = length hexstring"
  using assms
proof (induction n arbitrary: i hexstring rest)
  case 0
  then show ?case by (auto simp: min_def)
next
  case (Suc n)
  show ?case
  proof (cases "i < hex_room string_size")
    case True
    let ?c = "hex2 schar (data ! i)"
    have i: "i < length data" using Suc.prems by simp
    have t: "take i data @ [data ! i] = take (Suc i) data" by (simp add: take_Suc_conv_app_nth i)
    have len: "length hexstring = 2 * i + length rest" using Suc.prems i by simp
    with True Suc.prems have r: "length rest \<ge> 3" using hex_room_iff [of i string_size] by linarith
    then obtain a b c r where rest: "rest = a # b # c # r"
      by (metis Suc_le_length_iff numeral_3_eq_3)
    have in3: "2 * i < length hexstring" "2 * i + 1 < length hexstring" "2 * i + 2 < length hexstring"
      using len r by linarith+
    let ?h = "hex_text schar (take (Suc i) data) @ 0 # r"
    have L: "length (hex_text schar (take i data)) = 2 * i" using i by simp
    have w: "hexstring[2 * i := fst ?c, 2 * i + 1 := snd ?c, 2 * i + 2 := 0] = ?h"
      unfolding Suc.prems(4) rest t [symmetric] hex_text_append
      using L by (simp add: list_update_append hex_text_def)
    have "hexcode_from schar (Suc n) i hexstring string_size data
        = hexcode_from schar n (Suc i) ?h string_size data"
      using True in3 i w by (simp add: hex_room_iff split_beta Let_def)
    with Suc.IH [of ?h "Suc i" "0 # r"] Suc.prems True len rest show ?thesis by simp
  next
    case False
    with Suc.prems have "i = hex_room string_size" "i < length data" by auto
    with Suc.prems False show ?thesis
      by (auto simp: hex_room_iff)
  qed
qed

section \<open>Numbers of addresses\<close>

definition addr_prefix :: byte where "addr_prefix = 0x91"

definition put_digit :: "byte \<Rightarrow> int \<Rightarrow> nat \<times> byte list \<Rightarrow> (nat \<times> byte list) option" where
  "put_digit d string_size r = (case r of (idxOutput, addr_string) \<Rightarrow>
     if d \<le> 9 \<and> int idxOutput < string_size - 1
     then do { b \<leftarrow> put idxOutput (d + 48) addr_string; Some (idxOutput + 1, b) }
     else Some (idxOutput, addr_string))"

fun decode_from :: "nat \<Rightarrow> nat \<Rightarrow> int \<Rightarrow> byte list \<Rightarrow> nat \<times> byte list \<Rightarrow> (nat \<times> byte list) option" where
  "decode_from 0 i string_size data r = Some r"
| "decode_from (Suc n) i string_size data r = do {
     ch \<leftarrow> get i data;
     r1 \<leftarrow> put_digit (ch AND 15) string_size r;
     r2 \<leftarrow> put_digit (drop_bit 4 ch) string_size r1;
     decode_from n (i + 1) string_size data r2 }"

definition decodeAddress :: "byte list \<Rightarrow> int \<Rightarrow> byte list \<Rightarrow> int \<Rightarrow> (nat \<times> byte list) option" where
  "decodeAddress addr_string string_size data data_size = do {
     p \<leftarrow> get 0 data;
     if p \<noteq> addr_prefix then do { b \<leftarrow> put 0 0 addr_string; Some (0, b) }
     else do {
       (idxOutput, b) \<leftarrow> decode_from (nat (data_size - 1)) 1 string_size data (0, addr_string);
       b1 \<leftarrow> put idxOutput 0 b;
       Some (idxOutput, b1) } }"

text \<open>The semi-octets of the bytes, low one first; those above nine are fill.\<close>

definition semi_octets :: "byte list \<Rightarrow> byte list" where
  "semi_octets data = concat (map (\<lambda>ch. [ch AND 15, drop_bit 4 ch]) data)"

definition decimal_text :: "byte list \<Rightarrow> byte list" where
  "decimal_text data = map (\<lambda>d. d + 48) (filter (\<lambda>d. d \<le> 9) (semi_octets data))"

text \<open>The state of the loop after \<open>ds\<close> were offered: as many as there is room for are written.\<close>

definition written :: "int \<Rightarrow> byte list \<Rightarrow> byte list \<Rightarrow> nat \<times> byte list" where
  "written string_size buf ds = (let w = take (nat (string_size - 1)) ds
     in (length w, w @ drop (length w) buf))"

lemma put_digit_written:
  assumes "string_size \<le> int (length buf)"
  shows "put_digit d string_size (written string_size buf ds)
    = Some (written string_size buf (ds @ map (\<lambda>d. d + 48) (filter (\<lambda>d. d \<le> 9) [d])))"
proof (cases "d \<le> 9 \<and> int (length (take (nat (string_size - 1)) ds)) < string_size - 1")
  case True
  then have l: "length ds < nat (string_size - 1)" by (auto simp: min_def split: if_splits)
  with assms have b: "length ds < length buf" by linarith
  with l True show ?thesis
    by (simp add: put_digit_def written_def Let_def put_def list_update_append
        Cons_nth_drop_Suc [symmetric] flip: Cons_nth_drop_Suc)
next
  case False
  then show ?thesis
    by (auto simp: put_digit_def written_def Let_def min_def split: if_splits)
qed

lemma decode_from_written:
  assumes "string_size \<le> int (length buf)" "i + n \<le> length data"
  shows "decode_from n i string_size data (written string_size buf ds)
    = Some (written string_size buf (ds @ decimal_text (take n (drop i data))))"
  using assms(2)
proof (induction n arbitrary: i ds)
  case 0
  then show ?case by (simp add: decimal_text_def semi_octets_def)
next
  case (Suc n)
  then have d: "drop i data = data ! i # drop (Suc i) data" by (simp add: Cons_nth_drop_Suc)
  from Suc.prems Suc.IH [of "Suc i"] show ?case
    by (simp add: put_digit_written [OF assms(1)] d decimal_text_def semi_octets_def)
qed

section \<open>What the helpers write\<close>

text \<open>The result of \<open>decodeAddress\<close> on an address with the right prefix.\<close>

lemma decodeAddress_prefix:
  assumes "1 \<le> string_size" "string_size \<le> int (length buf)"
    "1 \<le> data_size" "data_size \<le> int (length data)" "data ! 0 = addr_prefix"
  shows "\<exists>b. decodeAddress buf string_size data data_size
      = Some (length (take (nat (string_size - 1)) (decimal_text (take (nat (data_size - 1)) (drop 1 data)))), b)
    \<and> length b = length buf
    \<and> take (nat (string_size - 1)) (decimal_text (take (nat (data_size - 1)) (drop 1 data))) @ [0]
        = take (Suc (length (take (nat (string_size - 1)) (decimal_text (take (nat (data_size - 1)) (drop 1 data)))))) b"
proof -
  define ds where "ds = decimal_text (take (nat (data_size - 1)) (drop 1 data))"
  define w where "w = take (nat (string_size - 1)) ds"
  have lw: "length w < length buf" using assms(1,2) unfolding w_def length_take by linarith
  have "written string_size buf [] = (0, buf)" by (simp add: written_def)
  moreover have "written string_size buf ds = (length w, w @ drop (length w) buf)"
    by (simp add: written_def w_def Let_def)
  moreover have "1 + nat (data_size - 1) \<le> length data" using assms by linarith
  ultimately have D: "decode_from (nat (data_size - 1)) 1 string_size data (0, buf)
      = Some (length w, w @ drop (length w) buf)"
    using decode_from_written [OF assms(2), of 1 "nat (data_size - 1)" data "[]"] by (simp add: ds_def)
  have "0 < length data" using assms by linarith
  with D assms lw have "decodeAddress buf string_size data data_size
      = Some (length w, (w @ drop (length w) buf)[length w := 0])"
    by (simp add: decodeAddress_def)
  moreover have "length ((w @ drop (length w) buf)[length w := 0]) = length buf" using lw by simp
  moreover have "w @ [0] = take (Suc (length w)) ((w @ drop (length w) buf)[length w := 0])"
    using lw by (simp add: list_update_append Cons_nth_drop_Suc [symmetric])
  ultimately show ?thesis by (simp add: ds_def w_def)
qed

text \<open>A number as an address: two digits in a byte, low one first, and fifteen as the fill.\<close>

fun packed :: "byte list \<Rightarrow> byte list" where
  "packed [] = []"
| "packed [a] = [a OR push_bit 4 15]"
| "packed (a # b # r) = (a OR push_bit 4 b) # packed r"

lemma nibbles:
  assumes "a \<le> 15" "b \<le> 15"
  shows "(a OR push_bit 4 b) AND 15 = (a :: byte)" "drop_bit 4 (a OR push_bit 4 b) = (b :: byte)"
proof -
  have m: "(15 :: byte) = mask 4" by (simp add: mask_eq_exp_minus_1)
  have "take_bit 4 x = x" if "x \<le> 15" for x :: byte
    using that by (simp add: word_unat_eq_iff unsigned_take_bit_eq take_bit_nat_eq_self word_le_nat_alt)
  then have A: "bit a n \<Longrightarrow> n < 4" and B: "bit b n \<Longrightarrow> n < 4" for n
    using assms by (metis bit_take_bit_iff)+
  show "(a OR push_bit 4 b) AND 15 = a" unfolding m
    by (rule bit_eqI) (use A in \<open>auto simp: bit_simps dest: A\<close>)
  show "drop_bit 4 (a OR push_bit 4 b) = b"
    by (rule bit_eqI) (use A B in \<open>auto simp: bit_simps dest: A B\<close>)
qed

lemma decimal_text_packed:
  "\<forall>d\<in>set ds. d \<le> 9 \<Longrightarrow> decimal_text (packed ds) = map (\<lambda>d. d + 48) ds"
proof (induction ds rule: packed.induct)
  case (2 a)
  then have "a \<le> 15" by (auto intro: order_trans)
  with 2 show ?case using nibbles [of a 15] by (simp add: decimal_text_def semi_octets_def)
next
  case (3 a b r)
  then have "a \<le> 15" "b \<le> 15" by (auto intro: order_trans)
  with 3 show ?case using nibbles [of a b] by (simp add: decimal_text_def semi_octets_def)
qed (simp add: decimal_text_def semi_octets_def)

text \<open>
  A number of any length, packed into an address, is read back digit by digit and
  terminated, whatever the buffer held before, if it and the terminator fit into the size given.
\<close>

theorem address_round_trip:
  assumes "\<forall>d\<in>set digits. d \<le> 9" "int (length digits) < string_size" "string_size \<le> int (length buf)"
    "data = addr_prefix # packed digits"
  shows "\<exists>b. decodeAddress buf string_size data (int (length data)) = Some (length digits, b)
    \<and> length b = length buf \<and> take (Suc (length digits)) b = map (\<lambda>d. d + 48) digits @ [0]"
proof -
  have t: "take (nat (int (length data) - 1)) (drop 1 data) = packed digits" using assms(4) by simp
  have f: "take (nat (string_size - 1)) (map (\<lambda>d. d + 48) digits) = map (\<lambda>d. d + (48 :: byte)) digits"
    using assms(2) by simp
  have "1 \<le> string_size" "data ! 0 = addr_prefix" "1 \<le> int (length data)" using assms by simp_all
  from decodeAddress_prefix [OF this(1) assms(3) this(3) order_refl this(2)]
  show ?thesis unfolding t decimal_text_packed [OF assms(1)] f by (metis length_map)
qed

theorem address_round_trip_witness:
  "\<exists>b. decodeAddress (replicate 8 7) 8 (addr_prefix # packed [4, 9, 1, 7, 0])
       (int (length (addr_prefix # packed [4, 9, 1, 7, 0]))) = Some (length [4, 9, 1, 7, 0 :: byte], b)
    \<and> length b = length (replicate 8 (7 :: byte))
    \<and> take (Suc (length [4, 9, 1, 7, 0 :: byte])) b = map (\<lambda>d. d + 48) [4, 9, 1, 7, 0] @ [0]"
  by (rule address_round_trip) simp_all

text \<open>
  C27: With the sizes of the real buffers, \<open>hexcode\<close> never writes outside them: it prints the
  first bytes that fit, two digits each, terminates the text if it printed anything, and
  returns how many bytes these are.
\<close>

theorem hexcode_stays_inside:
  assumes "string_size \<le> int (length hexstring)" "data_size \<le> int (length data)"
  shows "\<exists>b. hexcode schar hexstring string_size data data_size = Some (min (nat data_size) (hex_room string_size), b)
    \<and> length b = length hexstring
    \<and> take (2 * min (nat data_size) (hex_room string_size)) b
        = hex_text schar (take (min (nat data_size) (hex_room string_size)) data)
    \<and> (min (nat data_size) (hex_room string_size) > 0 \<longrightarrow> b ! (2 * min (nat data_size) (hex_room string_size)) = 0)"
proof -
  let ?n = "min (nat data_size) (hex_room string_size)"
  have n: "nat data_size \<le> length data" using assms by linarith
  then have L: "length (hex_text schar (take ?n data)) = 2 * ?n" by (simp add: min_def)
  from hexcode_from_spec [of string_size hexstring 0 "nat data_size" data schar hexstring] assms n
  obtain r where r: "hexcode schar hexstring string_size data data_size
        = Some (?n, hex_text schar (take ?n data) @ r)" "?n > 0 \<longrightarrow> r ! 0 = 0"
      "2 * ?n + length r = length hexstring"
    by (auto simp: hexcode_def)
  with L show ?thesis by (simp add: nth_append)
qed

theorem hexcode_stays_inside_witness:
  "\<exists>b. hexcode False (replicate 6 1) 6 [0x4A, 0xF0, 0x33] 3 = Some (2, b)
    \<and> length b = 6 \<and> take 4 b = [52, 65, 70, 48] \<and> b ! 4 = 0"
  using hexcode_stays_inside [of 6 "replicate 6 1" 3 "[0x4A, 0xF0, 0x33]" False]
  by (simp add: hex_room_def hex_text_def hex2_def hex_digit_def)

text \<open>
  A terminator is written even where the size given leaves no room for one: with size zero the
  byte before the end of nothing is overwritten, and an empty message is read.
\<close>

lemma decodeAddress_ignores_size_zero:
  "decodeAddress (c # cs) 0 [addr_prefix] 1 = Some (0, 0 # cs)"
  "decodeAddress buf string_size [] 0 = None"
  by (simp_all add: decodeAddress_def get_def)

text \<open>Where \<open>char\<close> is signed, all bytes from \<open>0x80\<close> on are printed alike.\<close>

lemma hex2_signed: "bit ch 7 \<Longrightarrow> hex2 True ch = (70, 70)"
  by (simp add: hex2_def hex_digit_def)

end
