(* ===== verification/SwapRemove.thy ===== *)
theory SwapRemove
  imports Prelude
begin

text \<open>
  Removal from an array without holes, as two of the components do it: the last element takes
  the place of the one removed.
\<close>

text \<open>A list without an element, whose place the last one takes.\<close>

fun swap_remove :: "'a \<Rightarrow> 'a list \<Rightarrow> 'a list" where
  "swap_remove a [] = []"
| "swap_remove a (x # xs) =
     (if x = a then (if xs = [] then [] else last xs # butlast xs) else x # swap_remove a xs)"

lemma set_last_butlast: "xs \<noteq> [] \<Longrightarrow> insert (last xs) (set (butlast xs)) = set xs"
  by (metis append_butlast_last_id list.simps(15) rotate1.simps(2) set_rotate1)

lemma set_swap_remove: "distinct xs \<Longrightarrow> set (swap_remove a xs) = set xs - {a}"
proof (induction xs)
  case (Cons x xs)
  then show ?case by (auto simp: set_last_butlast)
qed simp

lemma distinct_swap_remove: "distinct xs \<Longrightarrow> distinct (swap_remove a xs)"
proof (induction xs)
  case (Cons x xs)
  have "distinct (last xs # butlast xs)" if "xs \<noteq> []"
    using that Cons.prems by (metis distinct_append distinct_rev append_butlast_last_id distinct.simps(2)
        distinct_butlast not_distinct_conv_prefix append_Cons append_Nil)
  with Cons show ?case by (auto simp: set_swap_remove)
qed simp

lemma length_swap_remove: "length (swap_remove a xs) = (if a \<in> set xs then length xs - 1 else length xs)"
  by (induction xs) (auto simp: Suc_diff_le length_greater_0_conv neq_Nil_conv)

lemma swap_remove_absent: "a \<notin> set xs \<Longrightarrow> swap_remove a xs = xs"
  by (induction xs) auto

text \<open>The two assignments by which an array does it.\<close>

lemma swap_remove_at:
  assumes "i < length xs" "\<forall>j<i. xs ! j \<noteq> xs ! i"
  shows "butlast (xs[i := last xs]) = swap_remove (xs ! i) xs"
  using assms
proof (induction xs arbitrary: i)
  case (Cons x xs)
  show ?case
  proof (cases i)
    case 0
    then show ?thesis by (cases xs rule: rev_cases) simp_all
  next
    case (Suc k)
    with Cons.prems have k: "k < length xs" "x \<noteq> xs ! k" by auto
    moreover have "\<forall>j<k. xs ! j \<noteq> xs ! k" using Cons.prems Suc by auto
    moreover have "xs \<noteq> []" using k by auto
    ultimately show ?thesis using Cons.IH [of k] Suc by simp
  qed
qed simp

end
