(* ===== verification/LocApiBase.thy ===== *)
theory LocApiBase
  imports LocAdapterBase SwapRemove Steps
begin

text \<open>
  \<^verbatim>\<open>gps/core/LocApiBase.cpp\<close>: the array of the adapters that are registered with the modem
  interface, the messages by which the interface is opened, closed and configured again, and
  the delivery of what the modem reports to the adapters.

  An adapter is its address; its event mask, and whether it is a master or in a session, are
  in the state.  \<open>open\<close> and \<open>close\<close> are virtual and belong to a vendor library: the calls
  made to them are recorded in \<open>api_calls\<close>, and \<open>opens\<close> says which masks they accept.
  \<open>None\<close> is a call into an adapter that has been deleted.
\<close>

section \<open>Data\<close>

definition MAX_ADAPTERS :: nat where "MAX_ADAPTERS = 10"

record adapter_obj =
  ad_mask :: u64
  ad_master :: bool
  ad_session :: bool

text \<open>\<open>NULL\<close> for the message that only opens again.\<close>

datatype api_msg =
    LocOpenMsg addr
  | LocCloseMsg
  | LocSsrMsg
  | LocSetNmeaMsg u32

datatype modem_call =
    Open u64
  | Close
  | SetNmeaTypes u32
  | EngineUp addr
  | EngineDown addr

record loc_api =
  mLocAdapters :: "addr list"
  mExcludedMask :: u64
  adapter_objs :: "addr \<Rightarrow> adapter_obj"
  deleted :: "addr set"
  api_msgs :: "api_msg list"
  api_calls :: "modem_call list"

definition new_api :: "u64 \<Rightarrow> (addr \<Rightarrow> adapter_obj) \<Rightarrow> loc_api" where
  "new_api excludedMask objs = \<lparr>mLocAdapters = replicate MAX_ADAPTERS NULL, mExcludedMask = excludedMask,
     adapter_objs = objs, deleted = {}, api_msgs = [], api_calls = []\<rparr>"

section \<open>Walks over the array\<close>

text \<open>\<open>TO_ALL_ADAPTERS\<close> and \<open>TO_1ST_HANDLING_ADAPTER\<close>; the call changes a state of its own.\<close>

fun to_all :: "(addr \<Rightarrow> 's \<Rightarrow> 's) \<Rightarrow> addr list \<Rightarrow> 's \<Rightarrow> 's" where
  "to_all call [] s = s"
| "to_all call (a # as) s = (if a = NULL then s else to_all call as (call a s))"

fun to_1st_handling :: "(addr \<Rightarrow> 's \<Rightarrow> bool \<times> 's) \<Rightarrow> addr list \<Rightarrow> 's \<Rightarrow> 's" where
  "to_1st_handling call [] s = s"
| "to_1st_handling call (a # as) s =
     (if a = NULL then s
      else let (handled, s') = call a s in if handled then s' else to_1st_handling call as s')"

definition getEvtMask :: "loc_api \<Rightarrow> u64" where
  "getEvtMask api = to_all (\<lambda>a mask. mask OR ad_mask (adapter_objs api a)) (mLocAdapters api) 0
     AND NOT (mExcludedMask api)"

fun isMaster_from :: "(addr \<Rightarrow> adapter_obj) \<Rightarrow> addr list \<Rightarrow> bool" where
  "isMaster_from objs [] = False"
| "isMaster_from objs (a # as) =
     (if a = NULL then False else if ad_master (objs a) then True else isMaster_from objs as)"

definition isMaster :: "loc_api \<Rightarrow> bool" where
  "isMaster api = isMaster_from (adapter_objs api) (mLocAdapters api)"

fun isInSession_from :: "(addr \<Rightarrow> adapter_obj) \<Rightarrow> addr list \<Rightarrow> bool" where
  "isInSession_from objs [] = False"
| "isInSession_from objs (a # as) =
     (if a = NULL then False else if ad_session (objs a) then True else isInSession_from objs as)"

definition isInSession_api :: "loc_api \<Rightarrow> bool" where
  "isInSession_api api = isInSession_from (adapter_objs api) (mLocAdapters api)"

section \<open>Registration\<close>

text \<open>The first slot that holds the adapter or nothing; whether it was empty.\<close>

fun add_slot :: "addr \<Rightarrow> addr list \<Rightarrow> addr list \<times> bool" where
  "add_slot adapter [] = ([], False)"
| "add_slot adapter (x # xs) =
     (if x = adapter then (x # xs, False)
      else if x = NULL then (adapter # xs, True)
      else let (ys, added) = add_slot adapter xs in (x # ys, added))"

definition sendMsg_api :: "api_msg \<Rightarrow> loc_api \<Rightarrow> loc_api" where
  "sendMsg_api msg api = api\<lparr>api_msgs := api_msgs api @ [msg]\<rparr>"

definition addAdapter :: "addr \<Rightarrow> loc_api \<Rightarrow> loc_api" where
  "addAdapter adapter api = (let (arr, added) = add_slot adapter (mLocAdapters api)
     in let api1 = api\<lparr>mLocAdapters := arr\<rparr>
     in if added then sendMsg_api (LocOpenMsg adapter) api1 else api1)"

text \<open>\<open>while (++i < MAX_ADAPTERS && mLocAdapters[i] != NULL);\<close> from the index before.\<close>

fun next_null :: "nat \<Rightarrow> addr list \<Rightarrow> nat" where
  "next_null i [] = i"
| "next_null i (x # xs) = (if x = NULL then i else next_null (Suc i) xs)"

lemma next_null_ge: "i \<le> next_null i xs"
  by (induction i xs rule: next_null.induct) auto

text \<open>
  The loop of \<open>removeAdapter\<close> from index \<open>i\<close>: the array after it and the messages sent.  The
  last adapter moves into the slot of the one removed.
\<close>

function remove_loop :: "addr \<Rightarrow> nat \<Rightarrow> addr list \<Rightarrow> addr list \<times> api_msg list" where
  "remove_loop adapter i arr =
     (if i < length arr \<and> arr ! i \<noteq> NULL then
        if arr ! i = adapter then
          let arr1 = arr[i := NULL]; k = next_null (Suc i) (drop (Suc i) arr1) - 1;
              arr2 = arr1[i := arr1 ! k]; arr3 = arr2[k := NULL];
              (arr4, msgs) = remove_loop adapter (Suc k) arr3
          in (arr4, (if k = 0 then LocCloseMsg else LocOpenMsg NULL) # msgs)
        else remove_loop adapter (Suc i) arr
      else (arr, []))"
  by auto

termination
proof (relation "measure (\<lambda>(adapter, i, arr). length arr - i)", goal_cases)
  case (2 adapter i arr arr1 k arr2 arr3)
  with next_null_ge [of "Suc i" "drop (Suc i) arr1"] show ?case by auto
qed auto

declare remove_loop.simps [simp del]

definition removeAdapter :: "addr \<Rightarrow> loc_api \<Rightarrow> loc_api" where
  "removeAdapter adapter api = (let (arr, msgs) = remove_loop adapter 0 (mLocAdapters api)
     in api\<lparr>mLocAdapters := arr, api_msgs := api_msgs api @ msgs\<rparr>)"

text \<open>The destructor of \<open>LocAdapterBase\<close>.\<close>

definition deleteAdapter :: "addr \<Rightarrow> loc_api \<Rightarrow> loc_api" where
  "deleteAdapter adapter api =
     (let api1 = removeAdapter adapter api in api1\<lparr>deleted := insert adapter (deleted api1)\<rparr>)"

definition updateEvtMask_api :: "loc_api \<Rightarrow> loc_api" where
  "updateEvtMask_api api = sendMsg_api (LocOpenMsg NULL) api"

definition updateNmeaMask :: "u32 \<Rightarrow> loc_api \<Rightarrow> loc_api" where
  "updateNmeaMask m api = sendMsg_api (LocSetNmeaMsg m) api"

text \<open>\<open>LocAdapterBase::updateEvtMask\<close>.\<close>

definition adapter_updateEvtMask :: "addr \<Rightarrow> u64 \<Rightarrow> mask_status \<Rightarrow> loc_api \<Rightarrow> loc_api" where
  "adapter_updateEvtMask adapter event status api =
     updateEvtMask_api (api\<lparr>adapter_objs := (adapter_objs api)(adapter :=
       (adapter_objs api adapter)\<lparr>ad_mask := new_evt_mask event status (ad_mask (adapter_objs api adapter))\<rparr>)\<rparr>)"

section \<open>Messages\<close>

definition record_call :: "modem_call \<Rightarrow> loc_api \<Rightarrow> loc_api" where
  "record_call c api = api\<lparr>api_calls := api_calls api @ [c]\<rparr>"

text \<open>A call of a virtual method of an adapter.\<close>

definition call_adapter :: "(addr \<Rightarrow> modem_call) \<Rightarrow> addr \<Rightarrow> loc_api \<Rightarrow> loc_api option" where
  "call_adapter c a api = (if a \<in> deleted api then None else Some (record_call (c a) api))"

definition handleEngineUpEvent :: "loc_api \<Rightarrow> loc_api option" where
  "handleEngineUpEvent api =
     to_all (\<lambda>a r. Option.bind r (call_adapter EngineUp a)) (mLocAdapters api) (Some api)"

definition handleEngineDownEvent :: "loc_api \<Rightarrow> loc_api option" where
  "handleEngineDownEvent api =
     (let api1 = sendMsg_api LocSsrMsg api
      in to_all (\<lambda>a r. Option.bind r (call_adapter EngineDown a)) (mLocAdapters api1) (Some api1))"

definition proc_api :: "(u64 \<Rightarrow> bool) \<Rightarrow> api_msg \<Rightarrow> loc_api \<Rightarrow> loc_api option" where
  "proc_api opens msg api = (case msg of
       LocOpenMsg adapter \<Rightarrow>
         (let m = getEvtMask api; api1 = record_call (Open m) api
          in if opens m \<and> adapter \<noteq> NULL then call_adapter EngineUp adapter api1 else Some api1)
     | LocCloseMsg \<Rightarrow> Some (record_call Close api)
     | LocSsrMsg \<Rightarrow>
         (let api1 = record_call Close api; m = getEvtMask api1; api2 = record_call (Open m) api1
          in if opens m then handleEngineUpEvent api2 else Some api2)
     | LocSetNmeaMsg m \<Rightarrow> Some (record_call (SetNmeaTypes m) api))"

text \<open>The thread of the interface takes the oldest message; operations of other threads between.\<close>

datatype api_op =
    AddAdapter addr
  | RemoveAdapter addr
  | DeleteAdapter addr
  | UpdateEvtMask addr u64 mask_status
  | UpdateNmeaMask u32
  | EngineUpEvent
  | EngineDownEvent
  | ProcMsg

definition modem_step :: "(u64 \<Rightarrow> bool) \<Rightarrow> api_op \<Rightarrow> loc_api \<Rightarrow> loc_api option" where
  "modem_step opens x api = (case x of
       AddAdapter a \<Rightarrow> Some (addAdapter a api)
     | RemoveAdapter a \<Rightarrow> Some (removeAdapter a api)
     | DeleteAdapter a \<Rightarrow> Some (deleteAdapter a api)
     | UpdateEvtMask a e st \<Rightarrow> Some (adapter_updateEvtMask a e st api)
     | UpdateNmeaMask m \<Rightarrow> Some (updateNmeaMask m api)
     | EngineUpEvent \<Rightarrow> handleEngineUpEvent api
     | EngineDownEvent \<Rightarrow> handleEngineDownEvent api
     | ProcMsg \<Rightarrow> (case api_msgs api of [] \<Rightarrow> Some api
         | msg # q \<Rightarrow> proc_api opens msg (api\<lparr>api_msgs := q\<rparr>)))"

section \<open>The array as a list\<close>

text \<open>The adapters in the array, which has no holes and no adapter twice.\<close>

definition holds :: "addr list \<Rightarrow> addr list \<Rightarrow> bool" where
  "holds arr xs \<longleftrightarrow> arr = xs @ replicate (MAX_ADAPTERS - length xs) NULL \<and> length xs \<le> MAX_ADAPTERS
     \<and> NULL \<notin> set xs \<and> distinct xs"

definition adapters_in :: "loc_api \<Rightarrow> addr list" where
  "adapters_in api = takeWhile (\<lambda>a. a \<noteq> NULL) (mLocAdapters api)"

lemma holds_registered: "holds (mLocAdapters api) xs \<Longrightarrow> adapters_in api = xs"
  by (auto simp: holds_def adapters_in_def takeWhile_append takeWhile_eq_all_conv)

lemma to_all_prefix: "NULL \<notin> set xs \<Longrightarrow> to_all call (xs @ replicate n NULL) s = fold call xs s"
proof (induction xs arbitrary: s)
  case Nil
  then show ?case by (cases n) simp_all
qed auto

lemma to_all_holds: "holds arr xs \<Longrightarrow> to_all call arr s = fold call xs s"
  by (metis holds_def to_all_prefix)

lemma add_slot_prefix:
  "NULL \<notin> set xs \<Longrightarrow> a \<noteq> NULL \<Longrightarrow> add_slot a (xs @ replicate n NULL)
    = (if a \<in> set xs \<or> n = 0 then (xs @ replicate n NULL, False)
       else (xs @ a # replicate (n - 1) NULL, True))"
proof (induction xs)
  case Nil
  then show ?case by (cases n) auto
qed (auto split: if_splits)

lemma add_slot_holds:
  assumes "holds arr xs" "a \<noteq> NULL"
  shows "a \<in> set xs \<or> length xs = MAX_ADAPTERS \<Longrightarrow> add_slot a arr = (arr, False)"
    and "a \<notin> set xs \<Longrightarrow> length xs < MAX_ADAPTERS \<Longrightarrow> \<exists>arr'. add_slot a arr = (arr', True) \<and> holds arr' (xs @ [a])"
proof -
  have arr: "arr = xs @ replicate (MAX_ADAPTERS - length xs) NULL" "NULL \<notin> set xs"
    "length xs \<le> MAX_ADAPTERS" "distinct xs"
    using assms by (auto simp: holds_def)
  show "add_slot a arr = (arr, False)" if "a \<in> set xs \<or> length xs = MAX_ADAPTERS"
    using that unfolding arr(1) by (subst add_slot_prefix [OF arr(2) assms(2)]) auto
  show "\<exists>arr'. add_slot a arr = (arr', True) \<and> holds arr' (xs @ [a])"
    if "a \<notin> set xs" "length xs < MAX_ADAPTERS"
    using that arr assms(2) unfolding arr(1)
    by (subst add_slot_prefix [OF arr(2) assms(2)]) (auto simp: holds_def diff_Suc split: nat.splits)
qed

lemma next_null_prefix: "NULL \<notin> set zs \<Longrightarrow> next_null i (zs @ replicate n NULL) = i + length zs"
proof (induction zs arbitrary: i)
  case Nil
  then show ?case by (cases n) simp_all
qed auto


text \<open>Nothing is removed from the part of the array behind the last adapter.\<close>

lemma remove_from_null: "arr = ys @ replicate n NULL \<Longrightarrow> remove_loop a (length ys) arr = (arr, [])"
  by (cases n) (simp_all add: remove_loop.simps)

lemma remove_from_prefix:
  assumes "NULL \<notin> set zs" "distinct zs"
  shows "remove_loop a (length ys) (ys @ zs @ replicate n NULL)
    = (ys @ swap_remove a zs @ replicate (if a \<in> set zs then Suc n else n) NULL,
       if a \<in> set zs then [if ys = [] \<and> zs = [a] then LocCloseMsg else LocOpenMsg NULL] else [])"
  using assms
proof (induction zs arbitrary: ys)
  case Nil
  then show ?case using remove_from_null [of "ys @ replicate n NULL" ys n a] by simp
next
  case (Cons z zs)
  show ?case
  proof (cases "z = a")
    case False
    with Cons.prems have "remove_loop a (length ys) (ys @ (z # zs) @ replicate n NULL)
        = remove_loop a (length (ys @ [z])) ((ys @ [z]) @ zs @ replicate n NULL)"
      by (subst remove_loop.simps) (auto simp: nth_append)
    also note Cons.IH [of "ys @ [z]"]
    finally show ?thesis using False Cons.prems by auto
  next
    case True
    let ?w = "if zs = [] then [] else last zs # butlast zs"
    have nn: "next_null (Suc (length ys)) (zs @ replicate n NULL) = Suc (length ys + length zs)"
        "next_null i (replicate n NULL) = i" for i
      using next_null_prefix [of zs "Suc (length ys)" n] next_null_prefix [of "[]" i n] Cons.prems by simp_all
    have arr: "((ys @ NULL # zs @ replicate n NULL)[length ys := (ys @ NULL # zs @ replicate n NULL) !
        (length ys + length zs)])[length ys + length zs := NULL] = (ys @ ?w @ [NULL]) @ replicate n NULL"
      by (cases zs rule: rev_cases) (simp_all add: nth_append list_update_append)
    have l: "Suc (length ys + length zs) = length (ys @ ?w @ [NULL])" by simp
    have r: "remove_loop a (Suc (length ys + length zs)) ((ys @ ?w @ [NULL]) @ replicate n NULL)
        = ((ys @ ?w @ [NULL]) @ replicate n NULL, [])"
      unfolding l by (rule remove_from_null) simp
    have "remove_loop a (length ys) (ys @ (z # zs) @ replicate n NULL)
        = ((ys @ ?w @ [NULL]) @ replicate n NULL,
           [if length ys + length zs = 0 then LocCloseMsg else LocOpenMsg NULL])"
      using True Cons.prems nn arr r
      by (subst remove_loop.simps) (simp add: Let_def list_update_append split_beta)
    with True show ?thesis by auto
  qed
qed

lemma remove_from_holds:
  assumes "holds arr xs"
  shows "\<exists>arr'. remove_loop a 0 arr = (arr', if a \<in> set xs then [if xs = [a] then LocCloseMsg else LocOpenMsg NULL] else [])
    \<and> holds arr' (swap_remove a xs)"
proof -
  from assms have arr: "arr = xs @ replicate (MAX_ADAPTERS - length xs) NULL" "NULL \<notin> set xs"
    "length xs \<le> MAX_ADAPTERS" "distinct xs"
    by (auto simp: holds_def)
  have "Suc (MAX_ADAPTERS - length xs) = MAX_ADAPTERS - (length xs - 1)" if "a \<in> set xs"
    using that arr(3) by (cases xs) auto
  with arr remove_from_prefix [of xs a "[]" "MAX_ADAPTERS - length xs"] show ?thesis
    by (auto simp: holds_def set_swap_remove distinct_swap_remove length_swap_remove)
qed

section \<open>The state\<close>

definition api_wf :: "loc_api \<Rightarrow> bool" where
  "api_wf api \<longleftrightarrow> holds (mLocAdapters api) (adapters_in api)"

definition merged_mask :: "(addr \<Rightarrow> adapter_obj) \<Rightarrow> addr list \<Rightarrow> u64" where
  "merged_mask objs xs = foldr (\<lambda>a m. ad_mask (objs a) OR m) xs 0"

lemma fold_or: "fold (\<lambda>a m. m OR ad_mask (objs a)) xs (m0 :: u64) = m0 OR merged_mask objs xs"
  by (induction xs arbitrary: m0) (simp_all add: merged_mask_def or.assoc)

lemma getEvtMask_registered:
  "api_wf api \<Longrightarrow> getEvtMask api = merged_mask (adapter_objs api) (adapters_in api) AND NOT (mExcludedMask api)"
  by (simp add: getEvtMask_def api_wf_def to_all_holds fold_or)

lemma bit_merged_mask: "bit (merged_mask objs xs) n \<longleftrightarrow> (\<exists>a\<in>set xs. bit (ad_mask (objs a)) n)"
  by (induction xs) (auto simp: merged_mask_def bit_or_iff)

lemma holds_unique: "holds arr xs \<Longrightarrow> holds arr ys \<Longrightarrow> xs = ys"
  using holds_registered [of "undefined\<lparr>mLocAdapters := arr\<rparr>"] by auto

lemma wf_new [simp]: "api_wf (new_api m objs)" "adapters_in (new_api m objs) = []"
  by (auto simp: api_wf_def adapters_in_def new_api_def holds_def MAX_ADAPTERS_def takeWhile_eq_Nil_iff)

lemma api_frame [simp]:
  "mLocAdapters (sendMsg_api m api) = mLocAdapters api" "adapters_in (sendMsg_api m api) = adapters_in api"
  "adapter_objs (sendMsg_api m api) = adapter_objs api" "deleted (sendMsg_api m api) = deleted api"
  "api_msgs (sendMsg_api m api) = api_msgs api @ [m]" "api_calls (sendMsg_api m api) = api_calls api"
  "mExcludedMask (sendMsg_api m api) = mExcludedMask api"
  "mLocAdapters (record_call c api) = mLocAdapters api" "adapters_in (record_call c api) = adapters_in api"
  "adapter_objs (record_call c api) = adapter_objs api" "deleted (record_call c api) = deleted api"
  "api_msgs (record_call c api) = api_msgs api" "api_calls (record_call c api) = api_calls api @ [c]"
  "mExcludedMask (record_call c api) = mExcludedMask api"
  by (simp_all add: sendMsg_api_def record_call_def adapters_in_def)

text \<open>Registration appends an adapter that is new and fits, and asks to open for it.\<close>

lemma addAdapter_registered:
  assumes "api_wf api" "a \<noteq> NULL"
  shows "a \<in> set (adapters_in api) \<or> length (adapters_in api) = MAX_ADAPTERS \<Longrightarrow> addAdapter a api = api"
    and "a \<notin> set (adapters_in api) \<Longrightarrow> length (adapters_in api) < MAX_ADAPTERS \<Longrightarrow>
      api_wf (addAdapter a api) \<and> adapters_in (addAdapter a api) = adapters_in api @ [a]
      \<and> api_msgs (addAdapter a api) = api_msgs api @ [LocOpenMsg a]"
proof -
  from assms(1) have h: "holds (mLocAdapters api) (adapters_in api)" by (simp add: api_wf_def)
  show "addAdapter a api = api" if "a \<in> set (adapters_in api) \<or> length (adapters_in api) = MAX_ADAPTERS"
    using add_slot_holds(1) [OF h assms(2) that] by (simp add: addAdapter_def)
  assume "a \<notin> set (adapters_in api)" "length (adapters_in api) < MAX_ADAPTERS"
  from add_slot_holds(2) [OF h assms(2) this] obtain arr' where arr':
    "add_slot a (mLocAdapters api) = (arr', True)" "holds arr' (adapters_in api @ [a])" by auto
  then have "adapters_in (api\<lparr>mLocAdapters := arr'\<rparr>) = adapters_in api @ [a]"
    using holds_registered [of "api\<lparr>mLocAdapters := arr'\<rparr>"] by simp
  with arr' show "api_wf (addAdapter a api) \<and> adapters_in (addAdapter a api) = adapters_in api @ [a]
      \<and> api_msgs (addAdapter a api) = api_msgs api @ [LocOpenMsg a]"
    by (simp add: addAdapter_def api_wf_def)
qed

text \<open>Removal lets the last adapter take the place, and asks to close or to open again.\<close>

lemma removeAdapter_registered:
  assumes "api_wf api"
  shows "api_wf (removeAdapter a api)"
    "adapters_in (removeAdapter a api) = swap_remove a (adapters_in api)"
    "api_msgs (removeAdapter a api) = api_msgs api @
       (if a \<in> set (adapters_in api) then [if adapters_in api = [a] then LocCloseMsg else LocOpenMsg NULL] else [])"
proof -
  from assms remove_from_holds [of "mLocAdapters api" "adapters_in api" a] obtain arr' where arr':
    "remove_loop a 0 (mLocAdapters api) = (arr', if a \<in> set (adapters_in api)
       then [if adapters_in api = [a] then LocCloseMsg else LocOpenMsg NULL] else [])"
    "holds arr' (swap_remove a (adapters_in api))" by (auto simp: api_wf_def)
  have r: "adapters_in (removeAdapter a api) = swap_remove a (adapters_in api)"
    by (rule holds_registered) (simp add: removeAdapter_def arr')
  show "adapters_in (removeAdapter a api) = swap_remove a (adapters_in api)" by (rule r)
  show "api_wf (removeAdapter a api)" using r arr' by (simp add: api_wf_def removeAdapter_def)
  show "api_msgs (removeAdapter a api) = api_msgs api @
       (if a \<in> set (adapters_in api) then [if adapters_in api = [a] then LocCloseMsg else LocOpenMsg NULL] else [])"
    by (simp add: removeAdapter_def arr')
qed

end
