(* ===== verification/LocApiRun.thy ===== *)
theory LocApiRun
  imports LocApiBase
begin

text \<open>
  Runs of the modem interface: registration, deletion, events and the messages of its thread in
  any order.  The array stays without holes, it stands for a bounded set, and once the messages
  are worked off the modem has been opened with the union of the masks of the adapters.
\<close>

section \<open>The array as a bounded set\<close>

fun registry_spec :: "api_op \<Rightarrow> addr set \<Rightarrow> addr set" where
  "registry_spec (AddAdapter a) S = (if card S < MAX_ADAPTERS then insert a S else S)"
| "registry_spec (RemoveAdapter a) S = S - {a}"
| "registry_spec (DeleteAdapter a) S = S - {a}"
| "registry_spec _ S = S"

text \<open>An adapter is an object: its address is not \<open>NULL\<close>.\<close>

definition real_adapter :: "api_op \<Rightarrow> bool" where
  "real_adapter x = (case x of AddAdapter a \<Rightarrow> a \<noteq> NULL | DeleteAdapter a \<Rightarrow> a \<noteq> NULL | _ \<Rightarrow> True)"

lemma fold_call_adapter:
  "fold (\<lambda>a r. Option.bind r (call_adapter c a)) xs r =
     (case r of None \<Rightarrow> None
      | Some api \<Rightarrow> if set xs \<inter> deleted api = {} then Some (api\<lparr>api_calls := api_calls api @ map c xs\<rparr>) else None)"
proof (induction xs arbitrary: r)
  case (Cons a xs)
  then show ?case
    by (cases r) (auto simp: call_adapter_def record_call_def split: option.splits)
qed (simp split: option.split)

lemma handleEngineUp_wf:
  "api_wf api \<Longrightarrow> handleEngineUpEvent api =
    (if set (adapters_in api) \<inter> deleted api = {}
     then Some (api\<lparr>api_calls := api_calls api @ map EngineUp (adapters_in api)\<rparr>) else None)"
  by (simp add: handleEngineUpEvent_def api_wf_def to_all_holds fold_call_adapter)

lemma handleEngineDown_wf:
  "api_wf api \<Longrightarrow> handleEngineDownEvent api =
    (if set (adapters_in api) \<inter> deleted api = {}
     then Some (api\<lparr>api_msgs := api_msgs api @ [LocSsrMsg],
                   api_calls := api_calls api @ map EngineDown (adapters_in api)\<rparr>) else None)"
  by (auto simp: handleEngineDownEvent_def api_wf_def Let_def to_all_holds fold_call_adapter sendMsg_api_def)

lemma registered_frame [simp]:
  "adapters_in (api\<lparr>api_calls := cs\<rparr>) = adapters_in api" "adapters_in (api\<lparr>api_msgs := ms\<rparr>) = adapters_in api"
  "adapters_in (api\<lparr>deleted := d\<rparr>) = adapters_in api" "adapters_in (api\<lparr>adapter_objs := f\<rparr>) = adapters_in api"
  by (simp_all add: adapters_in_def)

lemma wf_frame [simp]:
  "api_wf (api\<lparr>api_calls := cs\<rparr>) = api_wf api" "api_wf (api\<lparr>api_msgs := ms\<rparr>) = api_wf api"
  "api_wf (api\<lparr>deleted := d\<rparr>) = api_wf api" "api_wf (api\<lparr>adapter_objs := f\<rparr>) = api_wf api"
  "api_wf (sendMsg_api m api) = api_wf api" "api_wf (record_call c api) = api_wf api"
  by (simp_all add: api_wf_def)

lemma frame_update [simp]:
  "adapter_objs (removeAdapter a api) = adapter_objs api" "deleted (removeAdapter a api) = deleted api"
  "api_calls (removeAdapter a api) = api_calls api" "mExcludedMask (removeAdapter a api) = mExcludedMask api"
  "adapter_objs (addAdapter a api) = adapter_objs api" "deleted (addAdapter a api) = deleted api"
  "api_calls (addAdapter a api) = api_calls api" "mExcludedMask (addAdapter a api) = mExcludedMask api"
  by (simp_all add: removeAdapter_def addAdapter_def split_beta Let_def)

lemmas step_defs = modem_step_def deleteAdapter_def adapter_updateEvtMask_def updateEvtMask_api_def updateNmeaMask_def

text \<open>What processing a message does to a state without holes.\<close>

lemma proc_api_frame:
  assumes "api_wf api" "proc_api opens msg api = Some api'"
  shows "api_wf api'" "adapters_in api' = adapters_in api" "api_msgs api' = api_msgs api"
    "deleted api' = deleted api" "adapter_objs api' = adapter_objs api" "mExcludedMask api' = mExcludedMask api"
  using assms by (auto simp: proc_api_def Let_def call_adapter_def handleEngineUp_wf
      split: api_msg.splits if_splits)

lemma modem_step_registry:
  assumes "api_wf api" "real_adapter x" "modem_step opens x api = Some api'"
  shows "api_wf api' \<and> set (adapters_in api') = registry_spec x (set (adapters_in api))"
proof (cases x)
  case (AddAdapter a)
  from assms(1) have d: "distinct (adapters_in api)" "length (adapters_in api) \<le> MAX_ADAPTERS"
    by (auto simp: api_wf_def holds_def)
  have a: "a \<noteq> NULL" and s: "api' = addAdapter a api"
    using assms AddAdapter by (auto simp: real_adapter_def step_defs)
  note add = addAdapter_registered [OF assms(1) a]
  show ?thesis
  proof (cases "a \<in> set (adapters_in api) \<or> length (adapters_in api) = MAX_ADAPTERS")
    case True
    with add(1) [OF True] s AddAdapter assms d show ?thesis
      by (auto simp: distinct_card insert_absorb)
  next
    case False
    with add(2) s AddAdapter d show ?thesis by (auto simp: distinct_card)
  qed
next
  case ProcMsg
  with assms proc_api_frame [of "api\<lparr>api_msgs := tl (api_msgs api)\<rparr>" opens "hd (api_msgs api)" api'] show ?thesis
    by (auto simp: modem_step_def split: list.splits)
qed (use assms removeAdapter_registered in \<open>auto simp: step_defs Let_def handleEngineUp_wf handleEngineDown_wf
      set_swap_remove api_wf_def holds_def split: if_splits\<close>)

interpretation registry: invariant_system "modem_step opens" api_wf real_adapter for opens
  by unfold_locales (use modem_step_registry in blast)

lemma registry_run:
  assumes "api_wf api" "list_all real_adapter xs" "run (modem_step opens) xs api = Some api'"
  shows "set (adapters_in api') = fold registry_spec xs (set (adapters_in api))"
  using assms
proof (induction xs arbitrary: api)
  case (Cons x xs)
  from Cons.prems(3) obtain api1 where "modem_step opens x api = Some api1"
    "run (modem_step opens) xs api1 = Some api'" by (rule run_ConsE)
  with Cons.prems Cons.IH [of api1] modem_step_registry [of api x opens api1] show ?case by auto
qed simp

section \<open>The mask the modem is opened with\<close>

text \<open>What the modem was asked last: to open with a mask, or to close.\<close>

fun last_asked :: "modem_call list \<Rightarrow> u64 option \<Rightarrow> u64 option" where
  "last_asked [] e = e"
| "last_asked (c # cs) e = last_asked cs (case c of Open m \<Rightarrow> Some m | Close \<Rightarrow> None | _ \<Rightarrow> e)"

lemma engine_append [simp]: "last_asked (cs @ ds) e = last_asked ds (last_asked cs e)"
  by (induction cs e rule: last_asked.induct) simp_all

lemma engine_events [simp]: "last_asked (map EngineUp xs) e = e" "last_asked (map EngineDown xs) e = e"
  by (induction xs) simp_all

text \<open>How the calls leave the modem, where it opens only with masks it accepts.\<close>

fun modem_state :: "(u64 \<Rightarrow> bool) \<Rightarrow> modem_call list \<Rightarrow> u64 option \<Rightarrow> u64 option" where
  "modem_state opens [] e = e"
| "modem_state opens (c # cs) e = modem_state opens cs
     (case c of Open m \<Rightarrow> if opens m then Some m else e | Close \<Rightarrow> None | _ \<Rightarrow> e)"

lemma accepted_is_open:
  assumes "last_asked cs e = Some m" "opens m" "e = Some m \<Longrightarrow> e' = Some m"
  shows "modem_state opens cs e' = Some m"
  using assms
proof (induction cs arbitrary: e e')
  case (Cons c cs)
  show ?case
    by (simp, rule Cons.IH [of "case c of Open m \<Rightarrow> Some m | Close \<Rightarrow> None | _ \<Rightarrow> e"])
      (use Cons.prems in \<open>auto split: modem_call.splits\<close>)
qed simp

fun is_config :: "api_msg \<Rightarrow> bool" where
  "is_config (LocSetNmeaMsg _) = False"
| "is_config _ = True"

text \<open>
  With adapters registered, either the modem is open with their mask, or a message that will
  open it is the last of those waiting that open or close.
\<close>

definition follows :: "loc_api \<Rightarrow> bool" where
  "follows api \<longleftrightarrow> api_wf api \<and> (adapters_in api \<noteq> [] \<longrightarrow>
     (let q = filter is_config (api_msgs api)
      in if q = [] then last_asked (api_calls api) None = Some (getEvtMask api) else last q \<noteq> LocCloseMsg))"

lemma proc_follows:
  assumes f: "follows api" and q: "api_msgs api = msg # q"
    and p: "proc_api opens msg (api\<lparr>api_msgs := q\<rparr>) = Some api'"
  shows "follows api'"
proof -
  have wf: "api_wf (api\<lparr>api_msgs := q\<rparr>)" using f by (simp add: follows_def)
  note fr = proc_api_frame [OF wf p]
  have m: "getEvtMask api' = getEvtMask api" "getEvtMask (api\<lparr>api_msgs := q\<rparr>) = getEvtMask api"
    "getEvtMask (record_call Close (api\<lparr>api_msgs := q\<rparr>)) = getEvtMask api"
    using fr f by (simp_all add: getEvtMask_registered follows_def)
  show ?thesis
  proof (cases "filter is_config q = []")
    case False
    with f fr q show ?thesis by (auto simp: follows_def Let_def split: if_splits)
  next
    case True
    have "last_asked (api_calls api') None = Some (getEvtMask api)" if "adapters_in api \<noteq> []"
      using that f p q True m wf
      by (cases msg) (auto simp: follows_def Let_def proc_api_def call_adapter_def handleEngineUp_wf
          split: if_splits)
    with True fr m show ?thesis by (simp add: follows_def)
  qed
qed

lemma remove_follows:
  assumes f: "follows api"
  shows "follows (removeAdapter a api)"
proof -
  have wf: "api_wf api" using f by (simp add: follows_def)
  note r = removeAdapter_registered [OF wf, of a]
  show ?thesis
  proof (cases "a \<in> set (adapters_in api)")
    case True
    with f r show ?thesis by (cases "adapters_in api = [a]") (simp_all add: follows_def)
  next
    case False
    with f r wf show ?thesis by (simp add: follows_def Let_def getEvtMask_registered swap_remove_absent)
  qed
qed

lemma follows_deleted [simp]: "follows (api\<lparr>deleted := d\<rparr>) = follows api"
  by (auto simp: follows_def Let_def getEvtMask_registered)

lemma step_follows:
  assumes "follows api" "real_adapter x" "modem_step opens x api = Some api'"
  shows "follows api'"
proof -
  have wf: "api_wf api" using assms by (simp add: follows_def)
  have wf': "api_wf api'" using modem_step_registry [OF wf assms(2,3)] by simp
  show ?thesis
  proof (cases x)
    case (AddAdapter a)
    then have "a \<noteq> NULL" "api' = addAdapter a api" using assms by (auto simp: real_adapter_def step_defs)
    with addAdapter_registered [OF wf, of a] assms(1) wf' show ?thesis
      by (cases "a \<in> set (adapters_in api) \<or> length (adapters_in api) = MAX_ADAPTERS")
        (auto simp: follows_def Let_def api_wf_def holds_def)
  next
    case (RemoveAdapter a)
    with assms remove_follows [of api a] show ?thesis by (auto simp: step_defs)
  next
    case (DeleteAdapter a)
    with assms remove_follows [of api a] show ?thesis by (auto simp: step_defs)
  next
    case ProcMsg
    with assms proc_follows show ?thesis by (auto simp: modem_step_def split: list.splits)
  qed (use assms wf wf' in \<open>auto simp: follows_def Let_def step_defs handleEngineUp_wf handleEngineDown_wf
      getEvtMask_registered split: if_splits\<close>)
qed

interpretation mask_follows: invariant_system "modem_step opens" follows real_adapter for opens
  by unfold_locales (rule step_follows)


section \<open>Runs that respect the waiting messages\<close>

text \<open>
  What a caller must respect: an adapter that was deleted is not registered, and an adapter is
  not deleted while the message that opens for it waits.
\<close>

definition permitted :: "api_op \<Rightarrow> loc_api \<Rightarrow> bool" where
  "permitted x api = (case x of
       AddAdapter a \<Rightarrow> a \<noteq> NULL \<and> a \<notin> deleted api
     | DeleteAdapter a \<Rightarrow> a \<noteq> NULL \<and> LocOpenMsg a \<notin> set (api_msgs api)
     | _ \<Rightarrow> True)"

inductive careful_run :: "(u64 \<Rightarrow> bool) \<Rightarrow> loc_api \<Rightarrow> loc_api \<Rightarrow> bool" for opens where
  start: "careful_run opens api api"
| more: "careful_run opens api0 api \<Longrightarrow> permitted x api \<Longrightarrow> modem_step opens x api = Some api'
     \<Longrightarrow> careful_run opens api0 api'"

definition safe_api :: "loc_api \<Rightarrow> bool" where
  "safe_api api \<longleftrightarrow> follows api \<and> set (adapters_in api) \<inter> deleted api = {}
     \<and> (\<forall>a\<in>deleted api. a \<noteq> NULL \<and> LocOpenMsg a \<notin> set (api_msgs api))"

lemma permitted_real: "permitted x api \<Longrightarrow> real_adapter x"
  by (auto simp: permitted_def real_adapter_def split: api_op.splits)

lemma proc_permitted:
  assumes "safe_api api" "api_msgs api = msg # q"
  shows "\<exists>api'. proc_api opens msg (api\<lparr>api_msgs := q\<rparr>) = Some api'"
proof -
  from assms have "api_wf api" by (simp add: safe_api_def follows_def)
  with assms show ?thesis
    by (cases msg) (auto simp: safe_api_def proc_api_def Let_def call_adapter_def handleEngineUp_wf)
qed

lemma step_never_faults:
  assumes s: "safe_api api" and p: "permitted x api"
  shows "\<exists>api'. modem_step opens x api = Some api'"
proof (cases x)
  case ProcMsg
  with s proc_permitted [of api "hd (api_msgs api)" "tl (api_msgs api)" opens] show ?thesis
    by (cases "api_msgs api") (auto simp: modem_step_def)
qed (use s in \<open>auto simp: safe_api_def follows_def step_defs handleEngineUp_wf handleEngineDown_wf\<close>)

lemma step_safe:
  assumes s: "safe_api api" and p: "permitted x api" and st: "modem_step opens x api = Some api'"
  shows "safe_api api'"
proof -
  have wf: "api_wf api" and f: "follows api" using s by (auto simp: safe_api_def follows_def)
  have f': "follows api'" using step_follows [OF f permitted_real [OF p] st] .
  have d: "distinct (adapters_in api)" using wf by (simp add: api_wf_def holds_def)
  show ?thesis
  proof (cases x)
    case (AddAdapter a)
    with p st have a: "a \<noteq> NULL" "a \<notin> deleted api" "api' = addAdapter a api"
      by (auto simp: permitted_def step_defs)
    with addAdapter_registered [OF wf a(1)] s f' wf show ?thesis
      by (cases "a \<in> set (adapters_in api) \<or> length (adapters_in api) = MAX_ADAPTERS")
        (auto simp: safe_api_def api_wf_def holds_def)
  next
    case (RemoveAdapter a)
    with st s f' removeAdapter_registered [OF wf, of a] show ?thesis
      by (auto simp: safe_api_def step_defs set_swap_remove d split: if_splits)
  next
    case (DeleteAdapter a)
    with p st s f' removeAdapter_registered [OF wf, of a] show ?thesis
      by (auto simp: safe_api_def step_defs Let_def set_swap_remove d permitted_def split: if_splits)
  next
    case ProcMsg
    show ?thesis
    proof (cases "api_msgs api")
      case Nil
      with ProcMsg st s show ?thesis by (simp add: modem_step_def)
    next
      case (Cons msg q)
      with ProcMsg st have "proc_api opens msg (api\<lparr>api_msgs := q\<rparr>) = Some api'" by (simp add: modem_step_def)
      from proc_api_frame [OF _ this] Cons s f' wf show ?thesis by (auto simp: safe_api_def)
    qed
  qed (use s st f' wf in \<open>auto simp: safe_api_def step_defs handleEngineUp_wf handleEngineDown_wf
      split: if_splits\<close>)
qed

lemma new_safe [simp]: "safe_api (new_api m objs)"
  by (simp add: safe_api_def follows_def) (simp add: new_api_def)

lemma careful_safe: "careful_run opens api0 api \<Longrightarrow> safe_api api0 \<Longrightarrow> safe_api api"
  by (induction rule: careful_run.induct) (auto intro: step_safe)

lemma drain:
  "safe_api api \<Longrightarrow> length (api_msgs api) = n \<Longrightarrow>
    \<exists>api'. run (modem_step opens) (replicate n ProcMsg) api = Some api' \<and> api_msgs api' = []
      \<and> safe_api api' \<and> adapters_in api' = adapters_in api \<and> getEvtMask api' = getEvtMask api"
proof (induction n arbitrary: api)
  case (Suc n)
  then obtain msg q where q: "api_msgs api = msg # q" by (cases "api_msgs api") auto
  from proc_permitted [OF Suc.prems(1) q] obtain api1
    where p: "proc_api opens msg (api\<lparr>api_msgs := q\<rparr>) = Some api1" ..
  have wf: "api_wf api" using Suc.prems by (simp add: safe_api_def follows_def)
  have st: "modem_step opens ProcMsg api = Some api1" using p q by (simp add: modem_step_def)
  have s1: "safe_api api1" by (rule step_safe [OF Suc.prems(1) _ st]) (simp add: permitted_def)
  from proc_api_frame [OF _ p] wf have fr: "api_wf api1" "adapters_in api1 = adapters_in api" "api_msgs api1 = q"
    "adapter_objs api1 = adapter_objs api" "mExcludedMask api1 = mExcludedMask api" by simp_all
  then have "getEvtMask api1 = getEvtMask api" using wf by (simp add: getEvtMask_registered)
  moreover have "length (api_msgs api1) = n" using fr q Suc.prems by simp
  ultimately show ?case using Suc.IH [OF s1] st fr by simp
qed simp

section \<open>Properties\<close>

text \<open>
  C13: Whatever is registered and removed in any order, and whatever happens between, the array
  stands for the set of the adapters, of at most ten: one adapters_in twice is in it once, the
  eleventh is ignored, and removal takes out the adapter and no other.
\<close>

theorem adapters_are_a_bounded_set:
  assumes "list_all real_adapter xs" "run (modem_step opens) xs (new_api m objs) = Some api"
  shows "set (adapters_in api) = fold registry_spec xs {}
    \<and> mLocAdapters api = adapters_in api @ replicate (MAX_ADAPTERS - length (adapters_in api)) NULL
    \<and> distinct (adapters_in api) \<and> length (adapters_in api) \<le> MAX_ADAPTERS"
proof -
  have "api_wf api" using registry.run_inv [OF wf_new(1) assms] .
  moreover have "set (adapters_in api) = fold registry_spec xs {}" using registry_run [OF wf_new(1) assms] by simp
  ultimately show ?thesis by (auto simp: api_wf_def holds_def)
qed

definition sample_objs :: "addr \<Rightarrow> adapter_obj" where
  "sample_objs a = \<lparr>ad_mask = of_nat a, ad_master = False, ad_session = False\<rparr>"

text \<open>Three adapters of which the first goes again.\<close>

definition sample_ops :: "api_op list" where
  "sample_ops = [AddAdapter 1, AddAdapter 2, AddAdapter 4, RemoveAdapter 1, AddAdapter 4]"

definition sample_api :: loc_api where
  "sample_api = (new_api 0 sample_objs)\<lparr>
     mLocAdapters := [4, 2, 0, 0, 0, 0, 0, 0, 0, 0],
     api_msgs := [LocOpenMsg 1, LocOpenMsg 2, LocOpenMsg 4, LocOpenMsg 0]\<rparr>"

lemma sample_run: "run (modem_step opens) sample_ops (new_api 0 sample_objs) = Some sample_api"
  by (simp add: sample_ops_def sample_api_def new_api_def modem_step_def addAdapter_def sendMsg_api_def
      removeAdapter_def remove_loop.simps MAX_ADAPTERS_def numeral_eq_Suc Let_def)

theorem adapters_are_a_bounded_set_witness: "set (adapters_in sample_api) = {2, 4}"
proof -
  have "list_all real_adapter sample_ops" "fold registry_spec sample_ops {} = {2, 4}"
    by (auto simp: sample_ops_def real_adapter_def MAX_ADAPTERS_def)
  with adapters_are_a_bounded_set [OF _ sample_run [of "\<lambda>_. True"]] show ?thesis by simp
qed

text \<open>
  C4: In every run in which no adapter is deleted while the message that opens for it waits, no
  permitted operation calls a deleted adapter, and working off the waiting messages ends with the
  modem asked to open with exactly the union of the masks of the adapters registered, without the
  excluded bits; if it accepts that mask, it is open with it.
\<close>

theorem modem_gets_the_merged_mask:
  assumes "careful_run opens (new_api m objs) api" "permitted x api"
  shows "(\<exists>api'. modem_step opens x api = Some api')
    \<and> (\<exists>api'. run (modem_step opens) (replicate (length (api_msgs api)) ProcMsg) api = Some api'
      \<and> api_msgs api' = [] \<and> adapters_in api' = adapters_in api
      \<and> (let mask = merged_mask (adapter_objs api') (adapters_in api) AND NOT (mExcludedMask api')
         in adapters_in api \<noteq> [] \<longrightarrow> last_asked (api_calls api') None = Some mask
           \<and> (opens mask \<longrightarrow> modem_state opens (api_calls api') None = Some mask)))"
proof -
  have s: "safe_api api" using careful_safe [OF assms(1)] by simp
  from drain [OF s refl] obtain api' where d: "run (modem_step opens) (replicate (length (api_msgs api)) ProcMsg) api = Some api'"
    "api_msgs api' = []" "safe_api api'" "adapters_in api' = adapters_in api" by blast
  then have a: "adapters_in api \<noteq> [] \<longrightarrow> last_asked (api_calls api') None = Some (getEvtMask api')" and wf: "api_wf api'"
    by (auto simp: safe_api_def follows_def)
  have mask: "getEvtMask api' = merged_mask (adapter_objs api') (adapters_in api) AND NOT (mExcludedMask api')"
    using getEvtMask_registered [OF wf] d(4) by simp
  from a have "adapters_in api \<noteq> [] \<longrightarrow> opens (getEvtMask api') \<longrightarrow> modem_state opens (api_calls api') None = Some (getEvtMask api')"
    using accepted_is_open [of "api_calls api'" None "getEvtMask api'" opens None] by simp
  with a d step_never_faults [OF s assms(2)] show ?thesis unfolding Let_def mask by blast
qed

lemma careful_add:
  "careful_run opens api0 api \<Longrightarrow> a \<noteq> NULL \<Longrightarrow> a \<notin> deleted api \<Longrightarrow> careful_run opens api0 (addAdapter a api)"
  by (rule careful_run.more [where x = "AddAdapter a"]) (simp_all add: permitted_def modem_step_def)

definition two_adapters :: loc_api where
  "two_adapters = addAdapter 6 (addAdapter 5 (new_api 4 sample_objs))"

lemma two_adapters_run: "careful_run opens (new_api 4 sample_objs) two_adapters"
  unfolding two_adapters_def by (intro careful_add careful_run.start) (simp_all add: new_api_def)

lemma two_adapters_eq: "two_adapters = (new_api 4 sample_objs)\<lparr>
    mLocAdapters := [5, 6, 0, 0, 0, 0, 0, 0, 0, 0], api_msgs := [LocOpenMsg 5, LocOpenMsg 6]\<rparr>"
  by (simp add: two_adapters_def new_api_def addAdapter_def sendMsg_api_def MAX_ADAPTERS_def numeral_eq_Suc)

theorem modem_gets_the_merged_mask_witness:
  "\<exists>api'. run (modem_step (\<lambda>_. True)) (replicate (length (api_msgs two_adapters)) ProcMsg) two_adapters = Some api'
     \<and> adapters_in two_adapters = [5, 6] \<and> modem_state (\<lambda>_. True) (api_calls api') None
       = Some (merged_mask (adapter_objs api') [5, 6] AND NOT (mExcludedMask api'))"
proof -
  have "permitted ProcMsg two_adapters" "adapters_in two_adapters = [5, 6]"
    by (simp_all add: permitted_def two_adapters_eq adapters_in_def)
  with modem_gets_the_merged_mask [OF two_adapters_run] show ?thesis unfolding Let_def by fastforce
qed

text \<open>
  An adapter that is deleted before the thread of the interface gets to the message that
  opens for it is called all the same: the destructor takes the adapter out of the array but
  leaves the message.
\<close>

theorem open_message_outlives_adapter:
  assumes "api_wf api" "a \<noteq> NULL" "a \<notin> set (adapters_in api)" "length (adapters_in api) < MAX_ADAPTERS"
    "api_msgs api = []" "\<forall>mask. opens mask"
  shows "run (modem_step opens) [AddAdapter a, DeleteAdapter a, ProcMsg] api = None"
proof -
  note add = addAdapter_registered(2) [OF assms(1-4)]
  then have "\<exists>q. api_msgs (removeAdapter a (addAdapter a api)) = LocOpenMsg a # q"
    using removeAdapter_registered(3) [of "addAdapter a api" a] assms(5) by simp
  with assms show ?thesis
    by (auto simp: step_defs Let_def proc_api_def call_adapter_def)
qed

theorem open_message_outlives_adapter_witness:
  "run (modem_step (\<lambda>_. True)) [AddAdapter 7, DeleteAdapter 7, ProcMsg] (new_api 0 sample_objs) = None"
  by (rule open_message_outlives_adapter) (simp_all add: MAX_ADAPTERS_def, simp add: new_api_def)

end
