(* ===== verification/LocApiEvents.thy ===== *)
theory LocApiEvents
  imports Complex_Main LocApiBase
begin

text \<open>
  \<^verbatim>\<open>gps/core/LocApiBase.cpp\<close>, upward calls: what the modem reports goes to every adapter, what
  it asks for to the adapters in turn until one handles it; and the filter of position reports.

  What is reported is passed on unchanged and is a type parameter.  The methods of the adapters
  are virtual: \<open>handlers\<close> says for each adapter and call whether it handles it and what
  becomes of the state of the adapters; \<open>default_handler\<close> is the one of \<open>LocAdapterBase\<close>.
\<close>

section \<open>Delivery\<close>

datatype 'p adapter_call =
    ReportPositionEvent 'p
  | ReportWwanZppFix 'p
  | ReportZppBestAvailableFix 'p
  | RequestOdcpiEvent 'p
  | ReportGnssEngEnergyConsumedEvent 'p
  | ReportDeleteAidingDataEvent 'p
  | ReportKlobucharIonoModelEvent 'p
  | ReportGnssAdditionalSystemInfoEvent 'p
  | ReportNfwNotificationEvent 'p
  | ReportSvPolynomialEvent 'p
  | ReportSvEphemerisEvent 'p
  | ReportStatus 'p
  | ReportDataEvent 'p
  | ReportNmeaEvent 'p
  | ReportXtraServer 'p
  | ReportLocationSystemInfoEvent 'p
  | ReportDcMessage 'p
  | ReportSignalTypeCapabilities 'p
  | ReportModemGnssQesdkFeatureStatus 'p
  | RequestXtraData 'p
  | RequestTime 'p
  | RequestLocation 'p
  | RequestATL 'p
  | ReleaseATL 'p
  | RequestNiNotifyEvent 'p
  | ReportGnssMeasurementsEvent 'p
  | ReportGnssSvIdConfigEvent 'p
  | ReportGnssSvTypeConfigEvent 'p
  | GeofenceBreachEvent 'p
  | GeofenceStatusEvent 'p
  | ReportDBTPositionEvent 'p
  | ReportLocationsEvent 'p
  | ReportCompletedTripsEvent 'p
  | ReportBatchStatusChangeEvent 'p
  | ReportGnssConfigEvent 'p
  | ReportLatencyInfoEvent 'p
  | HandleEngineLockStatusEvent 'p
  | ReportEngDebugDataInfoEvent 'p
  | ReportSvEvent 'p
  | ReportQwesCapabilities 'p

type_synonym ('p, 's) handlers = "addr \<Rightarrow> 'p adapter_call \<Rightarrow> 's \<Rightarrow> bool \<times> 's"

definition deliver_all :: "('p, 's) handlers \<Rightarrow> 'p adapter_call \<Rightarrow> loc_api \<Rightarrow> 's \<Rightarrow> 's" where
  "deliver_all h c api s = to_all (\<lambda>a s. snd (h a c s)) (mLocAdapters api) s"

definition deliver_1st :: "('p, 's) handlers \<Rightarrow> 'p adapter_call \<Rightarrow> loc_api \<Rightarrow> 's \<Rightarrow> 's" where
  "deliver_1st h c api s = to_1st_handling (\<lambda>a s. h a c s) (mLocAdapters api) s"

text \<open>
  The methods that an adapter does not override: nothing is done and nothing is handled.  A
  position goes to the proxy of the adapter, where it has one.
\<close>

definition default_handler :: "(addr \<Rightarrow> ('p \<Rightarrow> 's \<Rightarrow> 's) option) \<Rightarrow> ('p, 's) handlers" where
  "default_handler proxy a c s = (case c of
       ReportPositionEvent p \<Rightarrow> (case proxy a of Some f \<Rightarrow> (False, f p s) | None \<Rightarrow> (False, s))
     | _ \<Rightarrow> (False, s))"

section \<open>The calls of the modem\<close>

definition reportPosition :: "('p, 's) handlers \<Rightarrow> 'p \<Rightarrow> loc_api \<Rightarrow> 's \<Rightarrow> 's" where
  "reportPosition h p api s = deliver_all h (ReportPositionEvent p) api s"

definition reportWwanZppFix :: "('p, 's) handlers \<Rightarrow> 'p \<Rightarrow> loc_api \<Rightarrow> 's \<Rightarrow> 's" where
  "reportWwanZppFix h p api s = deliver_1st h (ReportWwanZppFix p) api s"

definition reportZppBestAvailableFix :: "('p, 's) handlers \<Rightarrow> 'p \<Rightarrow> loc_api \<Rightarrow> 's \<Rightarrow> 's" where
  "reportZppBestAvailableFix h p api s = deliver_all h (ReportZppBestAvailableFix p) api s"

definition requestOdcpi :: "('p, 's) handlers \<Rightarrow> 'p \<Rightarrow> loc_api \<Rightarrow> 's \<Rightarrow> 's" where
  "requestOdcpi h p api s = deliver_1st h (RequestOdcpiEvent p) api s"

definition reportGnssEngEnergyConsumedEvent :: "('p, 's) handlers \<Rightarrow> 'p \<Rightarrow> loc_api \<Rightarrow> 's \<Rightarrow> 's" where
  "reportGnssEngEnergyConsumedEvent h p api s = deliver_all h (ReportGnssEngEnergyConsumedEvent p) api s"

definition reportDeleteAidingDataEvent :: "('p, 's) handlers \<Rightarrow> 'p \<Rightarrow> loc_api \<Rightarrow> 's \<Rightarrow> 's" where
  "reportDeleteAidingDataEvent h p api s = deliver_1st h (ReportDeleteAidingDataEvent p) api s"

definition reportKlobucharIonoModel :: "('p, 's) handlers \<Rightarrow> 'p \<Rightarrow> loc_api \<Rightarrow> 's \<Rightarrow> 's" where
  "reportKlobucharIonoModel h p api s = deliver_1st h (ReportKlobucharIonoModelEvent p) api s"

definition reportGnssAdditionalSystemInfo :: "('p, 's) handlers \<Rightarrow> 'p \<Rightarrow> loc_api \<Rightarrow> 's \<Rightarrow> 's" where
  "reportGnssAdditionalSystemInfo h p api s = deliver_1st h (ReportGnssAdditionalSystemInfoEvent p) api s"

definition sendNfwNotification :: "('p, 's) handlers \<Rightarrow> 'p \<Rightarrow> loc_api \<Rightarrow> 's \<Rightarrow> 's" where
  "sendNfwNotification h p api s = deliver_all h (ReportNfwNotificationEvent p) api s"

definition reportSvPolynomial :: "('p, 's) handlers \<Rightarrow> 'p \<Rightarrow> loc_api \<Rightarrow> 's \<Rightarrow> 's" where
  "reportSvPolynomial h p api s = deliver_all h (ReportSvPolynomialEvent p) api s"

definition reportSvEphemeris :: "('p, 's) handlers \<Rightarrow> 'p \<Rightarrow> loc_api \<Rightarrow> 's \<Rightarrow> 's" where
  "reportSvEphemeris h p api s = deliver_all h (ReportSvEphemerisEvent p) api s"

definition reportStatus :: "('p, 's) handlers \<Rightarrow> 'p \<Rightarrow> loc_api \<Rightarrow> 's \<Rightarrow> 's" where
  "reportStatus h p api s = deliver_all h (ReportStatus p) api s"

definition reportData :: "('p, 's) handlers \<Rightarrow> 'p \<Rightarrow> loc_api \<Rightarrow> 's \<Rightarrow> 's" where
  "reportData h p api s = deliver_all h (ReportDataEvent p) api s"

definition reportNmea :: "('p, 's) handlers \<Rightarrow> 'p \<Rightarrow> loc_api \<Rightarrow> 's \<Rightarrow> 's" where
  "reportNmea h p api s = deliver_all h (ReportNmeaEvent p) api s"

definition reportXtraServer :: "('p, 's) handlers \<Rightarrow> 'p \<Rightarrow> loc_api \<Rightarrow> 's \<Rightarrow> 's" where
  "reportXtraServer h p api s = deliver_1st h (ReportXtraServer p) api s"

definition reportLocationSystemInfo :: "('p, 's) handlers \<Rightarrow> 'p \<Rightarrow> loc_api \<Rightarrow> 's \<Rightarrow> 's" where
  "reportLocationSystemInfo h p api s = deliver_all h (ReportLocationSystemInfoEvent p) api s"

definition reportDcMessage :: "('p, 's) handlers \<Rightarrow> 'p \<Rightarrow> loc_api \<Rightarrow> 's \<Rightarrow> 's" where
  "reportDcMessage h p api s = deliver_all h (ReportDcMessage p) api s"

definition reportSignalTypeCapabilities :: "('p, 's) handlers \<Rightarrow> 'p \<Rightarrow> loc_api \<Rightarrow> 's \<Rightarrow> 's" where
  "reportSignalTypeCapabilities h p api s = deliver_all h (ReportSignalTypeCapabilities p) api s"

definition reportModemGnssQesdkFeatureStatus :: "('p, 's) handlers \<Rightarrow> 'p \<Rightarrow> loc_api \<Rightarrow> 's \<Rightarrow> 's" where
  "reportModemGnssQesdkFeatureStatus h p api s = deliver_all h (ReportModemGnssQesdkFeatureStatus p) api s"

definition requestXtraData :: "('p, 's) handlers \<Rightarrow> 'p \<Rightarrow> loc_api \<Rightarrow> 's \<Rightarrow> 's" where
  "requestXtraData h p api s = deliver_1st h (RequestXtraData p) api s"

definition requestTime :: "('p, 's) handlers \<Rightarrow> 'p \<Rightarrow> loc_api \<Rightarrow> 's \<Rightarrow> 's" where
  "requestTime h p api s = deliver_1st h (RequestTime p) api s"

definition requestLocation :: "('p, 's) handlers \<Rightarrow> 'p \<Rightarrow> loc_api \<Rightarrow> 's \<Rightarrow> 's" where
  "requestLocation h p api s = deliver_1st h (RequestLocation p) api s"

definition requestATL_api :: "('p, 's) handlers \<Rightarrow> 'p \<Rightarrow> loc_api \<Rightarrow> 's \<Rightarrow> 's" where
  "requestATL_api h p api s = deliver_1st h (RequestATL p) api s"

definition releaseATL_api :: "('p, 's) handlers \<Rightarrow> 'p \<Rightarrow> loc_api \<Rightarrow> 's \<Rightarrow> 's" where
  "releaseATL_api h p api s = deliver_1st h (ReleaseATL p) api s"

definition requestNiNotify :: "('p, 's) handlers \<Rightarrow> 'p \<Rightarrow> loc_api \<Rightarrow> 's \<Rightarrow> 's" where
  "requestNiNotify h p api s = deliver_1st h (RequestNiNotifyEvent p) api s"

definition reportGnssMeasurements :: "('p, 's) handlers \<Rightarrow> 'p \<Rightarrow> loc_api \<Rightarrow> 's \<Rightarrow> 's" where
  "reportGnssMeasurements h p api s = deliver_all h (ReportGnssMeasurementsEvent p) api s"

definition reportGnssSvIdConfig :: "('p, 's) handlers \<Rightarrow> 'p \<Rightarrow> loc_api \<Rightarrow> 's \<Rightarrow> 's" where
  "reportGnssSvIdConfig h p api s = deliver_all h (ReportGnssSvIdConfigEvent p) api s"

definition reportGnssSvTypeConfig :: "('p, 's) handlers \<Rightarrow> 'p \<Rightarrow> loc_api \<Rightarrow> 's \<Rightarrow> 's" where
  "reportGnssSvTypeConfig h p api s = deliver_all h (ReportGnssSvTypeConfigEvent p) api s"

definition geofenceBreach_api :: "('p, 's) handlers \<Rightarrow> 'p \<Rightarrow> loc_api \<Rightarrow> 's \<Rightarrow> 's" where
  "geofenceBreach_api h p api s = deliver_all h (GeofenceBreachEvent p) api s"

definition geofenceStatus_api :: "('p, 's) handlers \<Rightarrow> 'p \<Rightarrow> loc_api \<Rightarrow> 's \<Rightarrow> 's" where
  "geofenceStatus_api h p api s = deliver_all h (GeofenceStatusEvent p) api s"

definition reportDBTPosition :: "('p, 's) handlers \<Rightarrow> 'p \<Rightarrow> loc_api \<Rightarrow> 's \<Rightarrow> 's" where
  "reportDBTPosition h p api s = deliver_all h (ReportDBTPositionEvent p) api s"

definition reportLocations_api :: "('p, 's) handlers \<Rightarrow> 'p \<Rightarrow> loc_api \<Rightarrow> 's \<Rightarrow> 's" where
  "reportLocations_api h p api s = deliver_all h (ReportLocationsEvent p) api s"

definition reportCompletedTrips :: "('p, 's) handlers \<Rightarrow> 'p \<Rightarrow> loc_api \<Rightarrow> 's \<Rightarrow> 's" where
  "reportCompletedTrips h p api s = deliver_all h (ReportCompletedTripsEvent p) api s"

definition handleBatchStatusEvent :: "('p, 's) handlers \<Rightarrow> 'p \<Rightarrow> loc_api \<Rightarrow> 's \<Rightarrow> 's" where
  "handleBatchStatusEvent h p api s = deliver_all h (ReportBatchStatusChangeEvent p) api s"

definition reportGnssConfig :: "('p, 's) handlers \<Rightarrow> 'p \<Rightarrow> loc_api \<Rightarrow> 's \<Rightarrow> 's" where
  "reportGnssConfig h p api s = deliver_all h (ReportGnssConfigEvent p) api s"

definition reportLatencyInfo :: "('p, 's) handlers \<Rightarrow> 'p \<Rightarrow> loc_api \<Rightarrow> 's \<Rightarrow> 's" where
  "reportLatencyInfo h p api s = deliver_all h (ReportLatencyInfoEvent p) api s"

definition reportEngineLockStatus :: "('p, 's) handlers \<Rightarrow> 'p \<Rightarrow> loc_api \<Rightarrow> 's \<Rightarrow> 's" where
  "reportEngineLockStatus h p api s = deliver_all h (HandleEngineLockStatusEvent p) api s"

definition reportEngDebugDataInfo :: "('p, 's) handlers \<Rightarrow> 'p \<Rightarrow> loc_api \<Rightarrow> 's \<Rightarrow> 's" where
  "reportEngDebugDataInfo h p api s = deliver_all h (ReportEngDebugDataInfoEvent p) api s"

text \<open>A satellite of a type that has no name is reported as one of an unknown type.\<close>

definition GNSS_SV_MAX :: nat where "GNSS_SV_MAX = 144"
definition GNSS_SV_TYPE_UNKNOWN :: u32 where "GNSS_SV_TYPE_UNKNOWN = 0"
definition constellation_names :: nat where "constellation_names = 8"

fun name_svs :: "nat \<Rightarrow> nat \<Rightarrow> u32 list \<Rightarrow> u32 list" where
  "name_svs i count [] = []"
| "name_svs i count (t # types) =
     (if i < count \<and> i < GNSS_SV_MAX
      then (if unat t > constellation_names - 1 then GNSS_SV_TYPE_UNKNOWN else t) # name_svs (Suc i) count types
      else t # types)"

definition reportSv :: "(u32 list, 's) handlers \<Rightarrow> nat \<Rightarrow> u32 list \<Rightarrow> loc_api \<Rightarrow> 's \<Rightarrow> 's" where
  "reportSv h count types api s = deliver_all h (ReportSvEvent (name_svs 0 count types)) api s"

definition reportQwesCapabilities ::
  "((8 word \<times> bool) list, 's) handlers \<Rightarrow> (8 word \<times> bool) list \<Rightarrow> loc_api \<Rightarrow> context_base \<times> 's
     \<Rightarrow> (context_base \<times> 's) option" where
  "reportQwesCapabilities h featureMap api cs = (case cs of (c, s) \<Rightarrow> do {
     c1 \<leftarrow> setQwesFeatureStatus featureMap c;
     Some (c1, deliver_all h (ReportQwesCapabilities featureMap) api s) })"

section \<open>The filter of positions\<close>

datatype loc_sess_status = LOC_SESS_SUCCESS | LOC_SESS_INTERMEDIATE | LOC_SESS_FAILURE

fun loc_sess_status_value :: "loc_sess_status \<Rightarrow> u32" where
  "loc_sess_status_value LOC_SESS_SUCCESS = 0"
| "loc_sess_status_value LOC_SESS_INTERMEDIATE = 1"
| "loc_sess_status_value LOC_SESS_FAILURE = 2"

text \<open>
  The two entries of the configuration, the flags and the accuracy of the position; an accuracy
  that is not a number is \<open>None\<close>, and no comparison with it holds.  \<open>android\<close> is
  \<open>__ANDROID__\<close>.
\<close>

definition needReport :: "bool \<Rightarrow> u32 \<Rightarrow> u32 \<Rightarrow> u32 \<Rightarrow> rat option \<Rightarrow> loc_sess_status \<Rightarrow> u32 \<Rightarrow> bool" where
  "needReport android INTERMEDIATE_POS ACCURACY_THRES flags accuracy status techMask =
     (if loc_sess_status_value LOC_SESS_INTERMEDIATE = INTERMEDIATE_POS then
        status \<noteq> LOC_SESS_FAILURE
        \<and> \<not> (ACCURACY_THRES \<noteq> 0
             \<and> (flags AND 0x10 = 0
                \<or> (case accuracy of Some acc \<Rightarrow> acc \<ge> of_nat (unat ACCURACY_THRES) | None \<Rightarrow> False)))
      else if status = LOC_SESS_SUCCESS then
        (let m = (1 OR 8) OR (if android then 0 else 0x2000) in m AND techMask \<noteq> 0)
      else False)"

section \<open>What the delivery does\<close>

lemma deliver_all_wf:
  "api_wf api \<Longrightarrow> deliver_all h c api s = fold (\<lambda>a s. snd (h a c s)) (adapters_in api) s"
  by (simp add: deliver_all_def api_wf_def to_all_holds)

text \<open>A report reaches every adapter once, in the order of the array.\<close>

lemma deliver_all_log:
  assumes "api_wf api" "\<And>a seen. snd (h a c seen) = seen @ [(a, c)]"
  shows "deliver_all h c api [] = map (\<lambda>a. (a, c)) (adapters_in api)"
proof -
  have "fold (\<lambda>a s. snd (h a c s)) xs seen = seen @ map (\<lambda>a. (a, c)) xs" for xs seen
    by (induction xs arbitrary: seen) (simp_all add: assms)
  then show ?thesis by (simp add: deliver_all_wf assms)
qed

lemma to_1st_prefix:
  assumes "NULL \<notin> set xs" "\<And>a seen. call a seen = (handles a, seen @ [a])"
  shows "to_1st_handling call (xs @ replicate n NULL) seen
    = seen @ (case dropWhile (\<lambda>a. \<not> handles a) xs of [] \<Rightarrow> xs | a # _ \<Rightarrow> takeWhile (\<lambda>a. \<not> handles a) xs @ [a])"
  using assms(1)
proof (induction xs arbitrary: seen)
  case Nil
  then show ?case by (cases n) simp_all
next
  case (Cons x xs)
  have "dropWhile (\<lambda>a. \<not> handles a) xs = b # bs \<Longrightarrow> \<not> (\<forall>a\<in>set xs. \<not> handles a)" for b bs
    by (metis dropWhile_eq_Nil_conv list.distinct(1))
  with Cons show ?case by (cases "handles x") (auto simp: assms(2) simp del: takeWhile_eq_all_conv split: list.split)
qed

text \<open>
  A request of the modem is offered to the adapters in the order of the array, to each at
  most once, up to and including the first that handles it, and to no other; without such an
  adapter it is offered to all and lost.
\<close>

theorem request_goes_to_first_handler:
  assumes "api_wf api" "\<And>a c seen. h a c seen = (handles a c, seen @ [a])"
  shows "deliver_1st h c api [] = (case dropWhile (\<lambda>a. \<not> handles a c) (adapters_in api) of
      [] \<Rightarrow> adapters_in api | a # _ \<Rightarrow> takeWhile (\<lambda>a. \<not> handles a c) (adapters_in api) @ [a])"
proof -
  from assms(1) have "mLocAdapters api = adapters_in api @ replicate (MAX_ADAPTERS - length (adapters_in api)) NULL"
    "NULL \<notin> set (adapters_in api)" by (auto simp: api_wf_def holds_def)
  then show ?thesis
    using to_1st_prefix [of "adapters_in api" "\<lambda>a s. h a c s" "\<lambda>a. handles a c"] assms(2)
    by (simp add: deliver_1st_def)
qed

definition three_adapters :: loc_api where
  "three_adapters = (new_api 0 (\<lambda>_. \<lparr>ad_mask = 0, ad_master = False, ad_session = False\<rparr>))
     \<lparr>mLocAdapters := [3, 5, 8, 0, 0, 0, 0, 0, 0, 0]\<rparr>"

theorem request_goes_to_first_handler_witness:
  "requestATL_api (\<lambda>a c seen. (a = 5, seen @ [a])) () three_adapters [] = [3, 5]"
proof -
  have "adapters_in three_adapters = [3, 5, 8]" by (simp add: three_adapters_def adapters_in_def)
  moreover have "api_wf three_adapters"
    by (simp add: api_wf_def three_adapters_def adapters_in_def holds_def MAX_ADAPTERS_def numeral_eq_Suc)
  ultimately show ?thesis
    using request_goes_to_first_handler [of three_adapters "\<lambda>a c seen. (a = 5, seen @ [a])" "\<lambda>a c. a = 5" "RequestATL ()"]
    by (simp add: requestATL_api_def)
qed

text \<open>Adapters that override nothing leave every request unanswered.\<close>

lemma default_handles_nothing: "fst (default_handler proxy a c s) = False"
  by (auto simp: default_handler_def split: adapter_call.splits option.splits)

lemma name_svs_named:
  "k < length types \<Longrightarrow> i + k < count \<Longrightarrow> i + k < GNSS_SV_MAX
    \<Longrightarrow> unat (name_svs i count types ! k) < constellation_names"
proof (induction i count types arbitrary: k rule: name_svs.induct)
  case (2 i count t types)
  then show ?case by (cases k) (auto simp: constellation_names_def GNSS_SV_TYPE_UNKNOWN_def)
qed simp

lemma name_svs_length [simp]: "length (name_svs i count types) = length types"
  by (induction i count types rule: name_svs.induct) auto

text \<open>Where intermediate fixes are off, only a final fix with a satellite or sensor part is
  reported on Android; where they are on, a failure never is.\<close>

lemma needReport_final:
  "ip \<noteq> 1 \<Longrightarrow> needReport True ip thr flags acc status techMask
    \<longleftrightarrow> status = LOC_SESS_SUCCESS \<and> (bit techMask 0 \<or> bit techMask 3)"
proof -
  have "(9 :: u32) AND techMask \<noteq> 0 \<longleftrightarrow> bit techMask 0 \<or> bit techMask 3"
  proof -
    have "(9 :: u32) = 1 OR push_bit 3 1" by simp
    then have "bit (9 :: u32) n \<longleftrightarrow> n = 0 \<or> n = 3" for n
      by (simp only: bit_or_iff bit_push_bit_iff bit_1_iff) auto
    then have b: "bit ((9 :: u32) AND techMask) n \<longleftrightarrow> (n = 0 \<or> n = 3) \<and> bit techMask n" for n
      by (simp only: bit_and_iff)
    have "w \<noteq> 0 \<longleftrightarrow> (\<exists>n. bit w n)" for w :: u32
      by (auto simp: bit_eq_iff) (use bit_imp_le_length [of w, simplified] in blast)
    with b show ?thesis by auto
  qed
  then show "ip \<noteq> 1 \<Longrightarrow> ?thesis" by (simp add: needReport_def)
qed

lemma needReport_failure: "needReport android ip thr flags acc LOC_SESS_FAILURE techMask = False"
  by (simp add: needReport_def)

text \<open>An accuracy that is not a number passes every threshold.\<close>

lemma needReport_nan: "flags AND 0x10 \<noteq> 0 \<Longrightarrow> needReport android 1 thr flags None LOC_SESS_INTERMEDIATE m"
  by (simp add: needReport_def)

end
