(* ===== verification/RealtimeEstimator.thy ===== *)
theory RealtimeEstimator
  imports Complex_Main Prelude
begin

unbundle bit_operations_syntax

text \<open>
  \<^verbatim>\<open>ElapsedRealtimeEstimator\<close> of \<^verbatim>\<open>gps/core/LocApiBase.cpp\<close>: when, on the clock that runs
  since boot, a fix of the modem applies; and the use \<^verbatim>\<open>GnssAdapter::fillElapsedRealTime\<close>
  makes of it.

  Times are \<open>int\<close>, in nanoseconds, as the code computes them where nothing overflows
  (\<open>int64_t\<close> holds nanoseconds for 292 years); counters of the timer are words, since the code
  compares them as unsigned.  A \<open>float\<close> that is only compared and copied is a \<open>rat\<close>.  The
  readings of the clocks are inputs.
\<close>

section \<open>Data\<close>

record gps_time =
  gpsWeek :: "16 word"
  gpsTimeOfWeekMs :: u32

record time_pair =
  gpsTime :: gps_time
  qtimerTick :: int
  timeUncMsec :: rat

record estimator =
  mCurrentClockDiff :: int
  mPrevUtcTimeNanos :: int
  mPrevBootTimeNanos :: int
  mFixTimeStablizationThreshold :: int
  mInitialTravelTime :: int
  mPrevDataTimeNanos :: int
  mTimePairPVTReport :: time_pair
  mTimePairMeasReport :: time_pair

definition no_pair :: time_pair where
  "no_pair = \<lparr>gpsTime = \<lparr>gpsWeek = 0, gpsTimeOfWeekMs = 0\<rparr>, qtimerTick = 0, timeUncMsec = 0\<rparr>"

definition reset :: "estimator \<Rightarrow> estimator" where
  "reset e = e\<lparr>mCurrentClockDiff := 0, mPrevDataTimeNanos := 0, mPrevUtcTimeNanos := 0,
     mPrevBootTimeNanos := 0, mFixTimeStablizationThreshold := 5,
     mTimePairPVTReport := no_pair, mTimePairMeasReport := no_pair\<rparr>"

text \<open>The constructor; what the members hold before does not matter.\<close>

definition new_estimator :: "int \<Rightarrow> estimator" where
  "new_estimator travelTimeNanosEstimate = reset \<lparr>mCurrentClockDiff = 0, mPrevUtcTimeNanos = 0,
     mPrevBootTimeNanos = 0, mFixTimeStablizationThreshold = 0,
     mInitialTravelTime = travelTimeNanosEstimate, mPrevDataTimeNanos = 0,
     mTimePairPVTReport = no_pair, mTimePairMeasReport = no_pair\<rparr>"

section \<open>Clocks\<close>

type_synonym time_spec = "int \<times> int"

fun nanos :: "time_spec \<Rightarrow> int" where
  "nanos (tv_sec, tv_nsec) = tv_sec * 1000000000 + tv_nsec"

text \<open>
  The readings of each attempt: boot clock, wall clock, boot clock again.  An attempt that was
  interrupted is repeated; a clock that cannot be read ends the loop.
\<close>

fun get_time_loop :: "nat \<Rightarrow> (time_spec option \<times> time_spec option \<times> time_spec option) list
    \<Rightarrow> (time_spec \<times> int) option" where
  "get_time_loop 0 _ = None"
| "get_time_loop (Suc n) [] = None"
| "get_time_loop (Suc n) ((Some b, Some u, Some b') # rest) =
     (if nanos b' - nanos b < 2000000 then Some (u, nanos b) else get_time_loop n rest)"
| "get_time_loop (Suc n) (_ # rest) = None"

definition getCurrentTime ::
  "(time_spec option \<times> time_spec option \<times> time_spec option) list \<Rightarrow> (time_spec \<times> int) option" where
  "getCurrentTime readings = get_time_loop 20 readings"

section \<open>The estimate\<close>

definition getElapsedRealtimeEstimateNanos ::
  "int \<Rightarrow> bool \<Rightarrow> int \<Rightarrow> (time_spec \<times> int) option \<Rightarrow> estimator \<Rightarrow> int \<times> estimator" where
  "getElapsedRealtimeEstimateNanos curDataTimeNanos isCurDataTimeTrustable tbfNanos clock e =
     (case clock of
        None \<Rightarrow> (-1, e)
      | Some (currentTime, sinceBootTimeNanos) \<Rightarrow>
          (let currentTravelTimeNanos = mInitialTravelTime e
           in if isCurDataTimeTrustable then
             (let e1 = (if tbfNanos > 0 \<and> tbfNanos \<noteq> curDataTimeNanos - mPrevDataTimeNanos e
                        then e\<lparr>mFixTimeStablizationThreshold := 5\<rparr> else e);
                  currentTimeNanos = nanos currentTime;
                  (travel, e2) =
                    (if mFixTimeStablizationThreshold e1 = 0 then
                       (mInitialTravelTime e1, e1\<lparr>mCurrentClockDiff :=
                          currentTimeNanos - curDataTimeNanos - mInitialTravelTime e1\<rparr>)
                     else if mFixTimeStablizationThreshold e1 < 0 then
                       (let diff = mCurrentClockDiff e1 + (currentTimeNanos - sinceBootTimeNanos)
                              - (mPrevUtcTimeNanos e1 - mPrevBootTimeNanos e1)
                        in (currentTimeNanos - curDataTimeNanos - diff, e1\<lparr>mCurrentClockDiff := diff\<rparr>))
                     else (currentTravelTimeNanos, e1))
              in (sinceBootTimeNanos - travel,
                  e2\<lparr>mPrevUtcTimeNanos := currentTimeNanos, mPrevBootTimeNanos := sinceBootTimeNanos,
                     mPrevDataTimeNanos := curDataTimeNanos,
                     mFixTimeStablizationThreshold := mFixTimeStablizationThreshold e2 - 1\<rparr>))
             else (sinceBootTimeNanos - currentTravelTimeNanos, e)))"

definition getElapsedRealtimeUncNanos :: int where "getElapsedRealtimeUncNanos = 5000000"

section \<open>The timer of the processors\<close>

text \<open>
  \<open>to_nanos\<close> is \<open>qTimerTicksToNanos\<close>, which computes in \<open>double\<close>; \<open>delta\<close> is the value of
  \<open>getQTimerDeltaNanos\<close>.
\<close>

definition getElapsedRealtimeQtimer ::
  "(u64 \<Rightarrow> u64) \<Rightarrow> (time_spec \<times> int) option \<Rightarrow> u64 \<Rightarrow> u64 \<Rightarrow> int \<Rightarrow> int" where
  "getElapsedRealtimeQtimer to_nanos clock qTimerTickCount delta qtimerTicksAtOrigin =
     (case clock of
        None \<Rightarrow> -1
      | Some (_, sinceBootTimeNanos) \<Rightarrow>
          (let qtimerDiff = (if qTimerTickCount \<ge> word_of_int qtimerTicksAtOrigin
                             then qTimerTickCount - word_of_int qtimerTicksAtOrigin else 0);
               qTimerDiffNanos = to_nanos qtimerDiff;
               qTimerDiffNanos = (if qTimerDiffNanos > 1000000000 \<and> qTimerDiffNanos \<ge> delta
                                  then qTimerDiffNanos - delta else qTimerDiffNanos)
           in if word_of_int sinceBootTimeNanos \<ge> qTimerDiffNanos
              then sint (word_of_int sinceBootTimeNanos - qTimerDiffNanos) else -1))"

text \<open>
  The loop of \<open>getQTimerDeltaNanos\<close> that tries the device nodes; \<open>c\<close> is the code of the
  character \<open>devNode[27]\<close>, which starts as the digit zero, and \<open>opens\<close> the result of
  \<open>open\<close> for the name with that character.
\<close>

function try_nodes :: "(nat \<Rightarrow> int) \<Rightarrow> nat \<Rightarrow> int \<Rightarrow> int" where
  "try_nodes opens c mdm_fd = (if c < 3 \<and> mdm_fd < 0 then try_nodes opens (c + 1) (opens c) else mdm_fd)"
  by auto
termination by (relation "measure (\<lambda>(_, c, _). 3 - c)") auto

declare try_nodes.simps [simp del]

text \<open>Times in the file of the node, in microseconds, as \<open>read\<close> and \<open>atoll\<close> deliver them.\<close>

definition getQTimerDeltaNanos :: "(nat \<Rightarrow> int) \<Rightarrow> (u64 \<times> u64) option \<Rightarrow> u64" where
  "getQTimerDeltaNanos opens node_times =
     (if try_nodes opens 48 (-1) > 0 then
        (case node_times of None \<Rightarrow> 0
         | Some (local_qtimer, remote_qtimer) \<Rightarrow>
             if local_qtimer \<ge> remote_qtimer then (local_qtimer - remote_qtimer) * 1000 else 0)
      else 0)"

section \<open>Association of GPS time and timer\<close>

record system_time =
  validityMask :: u32
  systemWeek :: "16 word"
  systemMsec :: u32
  systemClkTimeBias :: rat
  systemClkTimeUncMs :: rat

definition UNKNOWN_GPS_WEEK_NUM :: "16 word" where "UNKNOWN_GPS_WEEK_NUM = 65535"

definition hasAccurateTime :: "system_time \<Rightarrow> bool" where
  "hasAccurateTime t \<longleftrightarrow> validityMask t AND 1 \<noteq> 0 \<and> systemWeek t \<noteq> UNKNOWN_GPS_WEEK_NUM
     \<and> validityMask t AND 2 \<noteq> 0 \<and> validityMask t AND 4 \<noteq> 0
     \<and> systemClkTimeBias t \<noteq> 0 \<and> systemClkTimeBias t < 20
     \<and> validityMask t AND 8 \<noteq> 0
     \<and> systemClkTimeUncMs t \<noteq> 0 \<and> systemClkTimeUncMs t < 20"

text \<open>The parts of \<open>GpsLocationExtended\<close> that are used; \<open>src_gps\<close> is
  \<open>gnssSystemTimeSrc == GNSS_LOC_SV_SYSTEM_GPS\<close>.\<close>

record location_extended =
  le_flags :: u64
  src_gps :: bool
  gpsSystemTime :: system_time
  le_gpsTime :: gps_time
  systemTick :: u64
  systemTickUnc :: rat

definition GPS_LOCATION_EXTENDED_HAS_GPS_TIME :: u64 where "GPS_LOCATION_EXTENDED_HAS_GPS_TIME = 0x20000"
definition GPS_LOCATION_EXTENDED_HAS_SYSTEM_TICK :: u64 where
  "GPS_LOCATION_EXTENDED_HAS_SYSTEM_TICK = 0x20000000000000"
definition GPS_LOCATION_EXTENDED_HAS_SYSTEM_TICK_UNC :: u64 where
  "GPS_LOCATION_EXTENDED_HAS_SYSTEM_TICK_UNC = 0x40000000000000"

definition hasAccurateGpsTime :: "location_extended \<Rightarrow> bool" where
  "hasAccurateGpsTime l \<longleftrightarrow> src_gps l \<and> hasAccurateTime (gpsSystemTime l)"

definition isReportTimeAccurate :: "location_extended \<Rightarrow> bool" where
  "isReportTimeAccurate l \<longleftrightarrow> hasAccurateGpsTime l
     \<and> le_flags l AND GPS_LOCATION_EXTENDED_HAS_SYSTEM_TICK \<noteq> 0 \<and> systemTick l \<noteq> 0
     \<and> le_flags l AND GPS_LOCATION_EXTENDED_HAS_SYSTEM_TICK_UNC \<noteq> 0 \<and> systemTickUnc l \<noteq> 0"

definition saveGpsTimeAndQtimerPairInPvtReport :: "location_extended \<Rightarrow> estimator \<Rightarrow> estimator" where
  "saveGpsTimeAndQtimerPairInPvtReport l e =
     (if isReportTimeAccurate l \<and> systemMsec (gpsSystemTime l) mod 1000 = 0
      then e\<lparr>mTimePairPVTReport := \<lparr>gpsTime = \<lparr>gpsWeek = systemWeek (gpsSystemTime l),
               gpsTimeOfWeekMs = systemMsec (gpsSystemTime l)\<rparr>,
             qtimerTick = sint (systemTick l), timeUncMsec = systemTickUnc l\<rparr>\<rparr>
      else e)"

record sv_measurement_set =
  isNhz :: bool
  meas_flags :: u64
  meas_gpsSystemTime :: system_time
  refCountTicks :: u64
  refCountTicksUnc :: rat

definition saveGpsTimeAndQtimerPairInMeasReport :: "sv_measurement_set \<Rightarrow> estimator \<Rightarrow> estimator" where
  "saveGpsTimeAndQtimerPairInMeasReport m e =
     (if \<not> isNhz m \<and> meas_flags m AND 0x200 \<noteq> 0 \<and> hasAccurateTime (meas_gpsSystemTime m)
         \<and> meas_flags m AND 0x80000000 \<noteq> 0 \<and> refCountTicks m \<noteq> 0
         \<and> meas_flags m AND 0x1000000000 \<noteq> 0 \<and> refCountTicksUnc m \<noteq> 0
      then e\<lparr>mTimePairMeasReport := \<lparr>gpsTime = \<lparr>gpsWeek = systemWeek (meas_gpsSystemTime m),
               gpsTimeOfWeekMs = systemMsec (meas_gpsSystemTime m)\<rparr>,
             qtimerTick = sint (refCountTicks m), timeUncMsec = refCountTicksUnc m\<rparr>\<rparr>
      else e)"

definition msec_of :: "gps_time \<Rightarrow> int" where
  "msec_of t = uint (gpsWeek t) * 604800000 + uint (gpsTimeOfWeekMs t)"

text \<open>The pair that is used, the one of a measurement report before the one of a position.\<close>

definition chosen_pair :: "estimator \<Rightarrow> time_pair option" where
  "chosen_pair e =
     (if gpsWeek (gpsTime (mTimePairMeasReport e)) \<noteq> 0 then Some (mTimePairMeasReport e)
      else if gpsWeek (gpsTime (mTimePairPVTReport e)) \<noteq> 0 then Some (mTimePairPVTReport e)
      else None)"

text \<open>Whether the call succeeds, and the time and uncertainty where the code has set them; \<open>tdiv\<close>
  cuts off as the division of C does.\<close>

definition tdiv :: "int \<Rightarrow> int \<Rightarrow> int" where
  "tdiv a b = (if a < 0 then - ((- a) div b) else a div b)"

definition getElapsedRealtimeForGpsTime ::
  "location_extended \<Rightarrow> time_spec \<Rightarrow> int \<Rightarrow> estimator \<Rightarrow> bool \<times> (int \<times> rat) option" where
  "getElapsedRealtimeForGpsTime l curBootTime qTimerTickCount e =
     (case chosen_pair e of
        None \<Rightarrow> (False, None)
      | Some timePair \<Rightarrow>
          if \<not> hasAccurateGpsTime l \<or> le_flags l AND GPS_LOCATION_EXTENDED_HAS_GPS_TIME = 0
             \<or> gpsWeek (le_gpsTime l) = UNKNOWN_GPS_WEEK_NUM
          then (False, None)
          else
            (let gpsTimeDiffMsec = msec_of (le_gpsTime l) - msec_of (gpsTime timePair);
                 qtimerNsecAtOrigin = tdiv (qtimerTick timePair * 10000) 192 + gpsTimeDiffMsec * 1000000;
                 curBootTimeNs = nanos curBootTime;
                 curQTimerNSec = qTimerTickCount * 10000 div 192;
                 bootTimeNsAtOrigin = curBootTimeNs - (curQTimerNSec - qtimerNsecAtOrigin)
             in (bootTimeNsAtOrigin > 0, Some (bootTimeNsAtOrigin, timeUncMsec timePair))))"

section \<open>Use by the adapter\<close>

text \<open>
  The elapsed time that a position is given, and whether it is flagged; \<open>nanos_of\<close> is the
  conversion of the uncertainty to an integer.  \<open>None\<close> is the remainder by an interval of
  zero.
\<close>

record elapsed_time =
  has_elapsed :: bool
  elapsedRealTime :: int
  elapsedRealTimeUnc :: int

definition fillElapsedRealTime ::
  "(rat \<Rightarrow> int) \<Rightarrow> location_extended \<Rightarrow> u64 \<Rightarrow> u32 \<Rightarrow> time_spec \<Rightarrow> int \<Rightarrow> (time_spec \<times> int) option \<Rightarrow> int
     \<Rightarrow> elapsed_time \<Rightarrow> estimator \<Rightarrow> (elapsed_time \<times> estimator) option" where
  "fillElapsedRealTime nanos_of l timestamp min_interval bootTime qTicks clock bootTimeMilliSec out e =
     (let at_origin = getElapsedRealtimeForGpsTime l bootTime qTicks e
      in do {
       (out1, e1) \<leftarrow>
         (if le_flags l AND GPS_LOCATION_EXTENDED_HAS_GPS_TIME = 0 then Some (out, e)
          else if fst at_origin then
            Some (case snd at_origin of
                Some (t, unc) \<Rightarrow> out\<lparr>has_elapsed := True, elapsedRealTime := t,
                                    elapsedRealTimeUnc := nanos_of (unc * 1000000)\<rparr>
              | None \<Rightarrow> out, e)
          else if timestamp > 0 \<and> gpsWeek (le_gpsTime l) \<noteq> UNKNOWN_GPS_WEEK_NUM then
            (if min_interval = 0 then None
             else let locationTimeNanos = sint timestamp * 1000000;
                      trust = (unat timestamp mod unat min_interval = 0);
                      (t, e') = getElapsedRealtimeEstimateNanos locationTimeNanos trust
                                  (uint min_interval * 1000000) clock e
                  in Some (if t \<noteq> -1 then out\<lparr>has_elapsed := True, elapsedRealTime := t,
                                             elapsedRealTimeUnc := getElapsedRealtimeUncNanos\<rparr>
                           else out, e'))
          else Some (out, e));
       Some (if \<not> has_elapsed out1
             then out1\<lparr>elapsedRealTime := bootTimeMilliSec * 1000000,
                       elapsedRealTimeUnc := getElapsedRealtimeUncNanos\<rparr>
             else out1, e1) })"


section \<open>Fixes in a row\<close>

record pvt_fix =
  fx_data :: int
  fx_utc :: time_spec
  fx_boot :: int

text \<open>The estimator after fixes that may be trusted, and its answer to the next one.\<close>

definition on_fix :: "int \<Rightarrow> pvt_fix \<Rightarrow> estimator \<Rightarrow> int \<times> estimator" where
  "on_fix tbf f e = getElapsedRealtimeEstimateNanos (fx_data f) True tbf (Some (fx_utc f, fx_boot f)) e"

definition after_fixes :: "int \<Rightarrow> pvt_fix list \<Rightarrow> estimator \<Rightarrow> estimator" where
  "after_fixes tbf fs e = fold (\<lambda>f e. snd (on_fix tbf f e)) fs e"

text \<open>Every fix is one interval after the one before.\<close>

definition steady :: "int \<Rightarrow> pvt_fix list \<Rightarrow> bool" where
  "steady tbf fs \<longleftrightarrow> (\<forall>i. Suc i < length fs \<longrightarrow> fx_data (fs ! Suc i) = fx_data (fs ! i) + tbf)"

definition offset :: "int \<Rightarrow> pvt_fix \<Rightarrow> int" where
  "offset T f = fx_boot f - fx_data f - T"

text \<open>What the members hold after \<open>n\<close> steady fixes from a reset, the last of which was \<open>f\<close>.\<close>

definition tracks :: "int \<Rightarrow> pvt_fix list \<Rightarrow> nat \<Rightarrow> estimator \<Rightarrow> bool" where
  "tracks T fs n e \<longleftrightarrow> mInitialTravelTime e = T
     \<and> mFixTimeStablizationThreshold e = 5 - int n
     \<and> (n > 0 \<longrightarrow> mPrevDataTimeNanos e = fx_data (fs ! (n - 1))
          \<and> mPrevUtcTimeNanos e = nanos (fx_utc (fs ! (n - 1))) \<and> mPrevBootTimeNanos e = fx_boot (fs ! (n - 1)))
     \<and> (n > 5 \<longrightarrow> mCurrentClockDiff e - (mPrevUtcTimeNanos e - mPrevBootTimeNanos e) = offset T (fs ! 5))"

lemma tracks_new: "tracks T fs 0 (new_estimator T)"
  by (simp add: tracks_def new_estimator_def reset_def)

lemma on_fix_tracks:
  assumes t: "tracks T fs n e" and s: "steady tbf fs" and n: "n < length fs"
  shows "tracks T fs (Suc n) (snd (on_fix tbf (fs ! n) e))"
    and "fst (on_fix tbf (fs ! n) e) = (if n \<le> 5 then fx_boot (fs ! n) - T
           else fx_data (fs ! n) + offset T (fs ! 5))"
proof -
  have P: "n > 0 \<longrightarrow> fx_data (fs ! n) - mPrevDataTimeNanos e = tbf"
  proof (cases n)
    case 0
    then show ?thesis by simp
  next
    case (Suc m)
    with s n have "fx_data (fs ! n) = fx_data (fs ! m) + tbf" by (simp add: steady_def)
    with Suc t show ?thesis by (simp add: tracks_def)
  qed
  consider "n < 5" | "n = 5" | "n > 5" by linarith
  then have "tracks T fs (Suc n) (snd (on_fix tbf (fs ! n) e))
    \<and> fst (on_fix tbf (fs ! n) e) = (if n \<le> 5 then fx_boot (fs ! n) - T
           else fx_data (fs ! n) + offset T (fs ! 5))"
    by cases (use t P in \<open>auto simp: on_fix_def getElapsedRealtimeEstimateNanos_def Let_def tracks_def offset_def\<close>)
  then show "tracks T fs (Suc n) (snd (on_fix tbf (fs ! n) e))"
    and "fst (on_fix tbf (fs ! n) e) = (if n \<le> 5 then fx_boot (fs ! n) - T
           else fx_data (fs ! n) + offset T (fs ! 5))" by simp_all
qed

lemma after_fixes_tracks:
  "steady tbf fs \<Longrightarrow> n \<le> length fs \<Longrightarrow> tracks T fs n (after_fixes tbf (take n fs) (new_estimator T))"
proof (induction n)
  case 0
  then show ?case by (simp add: after_fixes_def tracks_new)
next
  case (Suc n)
  then have "after_fixes tbf (take (Suc n) fs) (new_estimator T)
      = snd (on_fix tbf (fs ! n) (after_fixes tbf (take n fs) (new_estimator T)))"
    by (simp add: after_fixes_def take_Suc_conv_app_nth)
  with on_fix_tracks(1) [of T fs n _ tbf] Suc show ?case by simp
qed

section \<open>Properties\<close>

text \<open>
  C21: Of fixes that come at a steady rate, the first six are placed one travel time before they
  arrive; from the seventh on the estimate is the time of the modem plus an offset fixed by the
  sixth, whatever the wall clock and the delays of later fixes are.
\<close>

theorem estimate_follows_the_modem:
  assumes "steady tbf fs" "n < length fs"
  shows "fst (on_fix tbf (fs ! n) (after_fixes tbf (take n fs) (new_estimator T)))
    = (if n \<le> 5 then fx_boot (fs ! n) - T else fx_data (fs ! n) + offset T (fs ! 5))"
  using on_fix_tracks(2) [OF after_fixes_tracks [of tbf fs n T] assms] assms by simp

text \<open>A wall clock that jumps by an hour, and a seventh fix that is late.\<close>

definition sample_fixes :: "pvt_fix list" where
  "sample_fixes = map (\<lambda>i. \<lparr>fx_data = 7000 + 1000 * i, fx_utc = (if i < 3 then i else 3600 + i, 0),
       fx_boot = 500 + 1000 * i + (if i = 6 then 300 else 0)\<rparr>) [0, 1, 2, 3, 4, 5, 6]"

theorem estimate_follows_the_modem_witness:
  "fst (on_fix 1000 (sample_fixes ! 6) (after_fixes 1000 (take 6 sample_fixes) (new_estimator 30))) = 6470"
proof -
  have "steady 1000 sample_fixes"
    by (simp add: steady_def sample_fixes_def nth_Cons split: nat.splits)
  from estimate_follows_the_modem [OF this, of 6 30] show ?thesis
    by (simp add: sample_fixes_def offset_def)
qed

text \<open>
  With a boot clock that is not negative, the time computed from the timer is the error
  value or lies between the boot and now, for all counter values and conversions.
\<close>

theorem qtimer_time_is_in_the_past:
  assumes "0 \<le> boot" "boot < 2 ^ 63"
  shows "getElapsedRealtimeQtimer to_nanos (Some (utc, boot)) ticks delta origin
    \<in> {-1} \<union> {0..boot}"
proof -
  have small: "sint (word_of_int boot - d) = boot - uint d" if "d \<le> word_of_int boot" for d :: u64
  proof -
    have b: "uint (word_of_int boot :: u64) = boot" using assms by (simp add: uint_word_of_int)
    with that have le: "uint d \<le> boot" by (simp add: word_le_def)
    have "uint (word_of_int boot - d) = boot - uint d"
      using that b by (simp add: uint_sub_if' word_le_def)
    then show ?thesis
      using assms le signed_take_bit_int_eq_self [of 63 "boot - uint d"] uint_ge_0 [of d]
      by (simp add: sint_uint del: uint_ge_0)
  qed
  have "uint d \<le> boot" if "d \<le> (word_of_int boot :: u64)" for d
    using that assms by (simp add: word_le_def uint_word_of_int)
  then show ?thesis by (auto simp: getElapsedRealtimeQtimer_def Let_def small)
qed

theorem qtimer_time_is_in_the_past_witness:
  "getElapsedRealtimeQtimer (\<lambda>t. t * 52) (Some ((0, 0), 5000)) 40 0 10 \<in> {-1} \<union> {0..5000}"
  by (rule qtimer_time_is_in_the_past) simp_all

text \<open>
  Two fixes that use the same association of GPS time and timer are placed as far apart as
  their GPS times are, and where the boot clock runs with the timer it does not matter when the
  question is asked.
\<close>

theorem gps_time_is_mapped_rigidly:
  assumes "getElapsedRealtimeForGpsTime l1 boot1 q1 e = (True, Some (t1, u1))"
    "getElapsedRealtimeForGpsTime l2 boot2 q2 e = (True, Some (t2, u2))"
    "nanos boot2 - nanos boot1 = q2 * 10000 div 192 - q1 * 10000 div 192"
  shows "t2 - t1 = (msec_of (le_gpsTime l2) - msec_of (le_gpsTime l1)) * 1000000"
  using assms by (auto simp: getElapsedRealtimeForGpsTime_def Let_def algebra_simps split: option.splits if_splits)

definition sample_time :: "u32 \<Rightarrow> system_time" where
  "sample_time ms = \<lparr>validityMask = 15, systemWeek = 2300, systemMsec = ms, systemClkTimeBias = 1,
     systemClkTimeUncMs = 2\<rparr>"

definition sample_location :: "u32 \<Rightarrow> location_extended" where
  "sample_location ms = \<lparr>le_flags = 0x60000000020000, src_gps = True, gpsSystemTime = sample_time ms,
     le_gpsTime = \<lparr>gpsWeek = 2300, gpsTimeOfWeekMs = ms\<rparr>, systemTick = 192000, systemTickUnc = 1\<rparr>"

definition paired :: estimator where
  "paired = saveGpsTimeAndQtimerPairInPvtReport (sample_location 5000) (new_estimator 30)"

lemma paired_mapping:
  "getElapsedRealtimeForGpsTime (sample_location 5250) (1, 0) 192000 paired = (True, Some (1250000000, 1))"
  "getElapsedRealtimeForGpsTime (sample_location 6000) (2, 0) 19392000 paired = (True, Some (2000000000, 1))"
  by (simp_all add: getElapsedRealtimeForGpsTime_def paired_def saveGpsTimeAndQtimerPairInPvtReport_def
      sample_location_def sample_time_def isReportTimeAccurate_def hasAccurateGpsTime_def hasAccurateTime_def
      UNKNOWN_GPS_WEEK_NUM_def GPS_LOCATION_EXTENDED_HAS_SYSTEM_TICK_def Let_def chosen_pair_def
      GPS_LOCATION_EXTENDED_HAS_SYSTEM_TICK_UNC_def GPS_LOCATION_EXTENDED_HAS_GPS_TIME_def
      new_estimator_def reset_def no_pair_def tdiv_def msec_of_def)

theorem gps_time_is_mapped_rigidly_witness:
  "(2000000000 :: int) - 1250000000
    = (msec_of (le_gpsTime (sample_location 6000)) - msec_of (le_gpsTime (sample_location 5250))) * 1000000"
  by (rule gps_time_is_mapped_rigidly [OF paired_mapping]) simp

text \<open>The loop over the device nodes never tries one: the code of a digit is not below three.\<close>

lemma delta_is_always_zero: "getQTimerDeltaNanos opens node_times = 0"
  by (simp add: getQTimerDeltaNanos_def try_nodes.simps)

text \<open>The bias is bounded on one side only.\<close>

lemma negative_bias_is_accurate: "hasAccurateTime \<lparr>validityMask = 15, systemWeek = 2300, systemMsec = 0,
    systemClkTimeBias = - 1000, systemClkTimeUncMs = 1\<rparr>"
  by (simp add: hasAccurateTime_def UNKNOWN_GPS_WEEK_NUM_def)

text \<open>An interval of zero is divided by, where no association of times is known.\<close>

lemma fillElapsedRealTime_interval_zero:
  assumes "le_flags l AND GPS_LOCATION_EXTENDED_HAS_GPS_TIME \<noteq> 0" "gpsWeek (le_gpsTime l) \<noteq> UNKNOWN_GPS_WEEK_NUM"
    "timestamp > 0" "chosen_pair e = None"
  shows "fillElapsedRealTime nanos_of l timestamp 0 bt q clock ms out e = None"
  using assms by (simp add: fillElapsedRealTime_def getElapsedRealtimeForGpsTime_def)

end
