(* ===== verification/SsCache.thy ===== *)
theory SsCache
  imports Prelude
begin

unbundle bit_operations_syntax

text \<open>
  The caches of \<^verbatim>\<open>gps/core/SystemStatus.cpp\<close>: for every kind of item a short history of its
  changes.  Kinds differ in what they ignore, how they merge with the last item and which
  members they compare; that is a parameter (\<open>item_class\<close>), and the locale
  \<open>keyed_history\<close> is the contract of a kind that merges nothing and compares by a key.
\<close>

section \<open>Items and histories\<close>

record 'a item =
  mUtcTime :: int
  mUtcReported :: int
  payload :: 'a

record 'a item_class =
  ignore_item :: "'a \<Rightarrow> bool"
  collate_item :: "'a \<Rightarrow> 'a \<Rightarrow> 'a"
  equals_item :: "'a \<Rightarrow> 'a \<Rightarrow> bool"

text \<open>The methods of \<open>SystemStatusItemBase\<close> that a kind does not override.\<close>

definition item_base :: "('a \<Rightarrow> 'a \<Rightarrow> bool) \<Rightarrow> 'a item_class" where
  "item_base eq = \<lparr>ignore_item = (\<lambda>_. False), collate_item = (\<lambda>s _. s), equals_item = eq\<rparr>"

definition maxItem :: nat where "maxItem = 5"

definition push_item :: "'a list \<Rightarrow> 'a \<Rightarrow> 'a list" where
  "push_item report s = (let r = report @ [s] in if length r > maxItem then tl r else r)"

definition setIteminReport :: "'a item_class \<Rightarrow> 'a item list \<Rightarrow> 'a item \<Rightarrow> bool \<times> 'a item list" where
  "setIteminReport k report s =
     (if ignore_item k (payload s) then (False, report)
      else if report = [] then (True, push_item report s)
      else let s1 = s\<lparr>payload := collate_item k (payload s) (payload (last report))\<rparr>
        in if equals_item k (payload (last report)) (payload s1)
           then (False, butlast report @ [(last report)\<lparr>mUtcReported := mUtcReported s1\<rparr>])
           else (True, push_item report s1))"

definition setDefaultIteminReport :: "'a item list \<Rightarrow> 'a item \<Rightarrow> 'a item list" where
  "setDefaultIteminReport report s = push_item report s"

definition getIteminReport :: "'a item list \<Rightarrow> 'a item list" where
  "getIteminReport c = (if length c \<ge> 1 then [last c] else [])"

lemma push_item_bound: "length r \<le> maxItem \<Longrightarrow> length (push_item r s) \<le> maxItem"
  by (simp add: push_item_def maxItem_def Let_def)

lemma push_item_last [simp]: "push_item r s \<noteq> [] \<and> last (push_item r s) = s"
  by (cases r) (auto simp: push_item_def maxItem_def Let_def)

lemma setItem_bound:
  "length report \<le> maxItem \<Longrightarrow> length (snd (setIteminReport k report s)) \<le> maxItem"
  by (auto simp: setIteminReport_def Let_def push_item_bound)

lemma getItem_bound: "length (getIteminReport c) \<le> 1"
  by (simp add: getIteminReport_def)

section \<open>Histories as the last changes\<close>

definition last_n :: "nat \<Rightarrow> 'a list \<Rightarrow> 'a list" where
  "last_n n xs = drop (length xs - n) xs"

lemma last_n_snoc: "0 < n \<Longrightarrow> last_n n (xs @ [x]) = (let r = last_n n xs @ [x] in if length r > n then tl r else r)"
  by (auto simp: last_n_def Let_def Suc_diff_le drop_Suc tl_drop)

lemma last_n_empty [simp]: "0 < n \<Longrightarrow> last_n n xs = [] \<longleftrightarrow> xs = []"
  by (cases xs) (auto simp: last_n_def)

lemma last_last_n [simp]: "0 < n \<Longrightarrow> xs \<noteq> [] \<Longrightarrow> last (last_n n xs) = last xs"
  by (auto simp: last_n_def)

lemma remdups_adj_snoc:
  "remdups_adj (xs @ [x]) = (if xs \<noteq> [] \<and> last xs = x then remdups_adj xs else remdups_adj xs @ [x])"
  by (induction xs rule: remdups_adj.induct) auto

lemma last_remdups_adj [simp]: "last (remdups_adj xs) = last xs"
  by (induction xs rule: remdups_adj.induct) auto

definition history :: "'a item_class \<Rightarrow> 'a item list \<Rightarrow> 'a item list" where
  "history k xs = fold (\<lambda>s r. snd (setIteminReport k r s)) xs []"

lemma history_snoc: "history k (xs @ [s]) = snd (setIteminReport k (history k xs) s)"
  by (simp add: history_def)

locale keyed_history =
  fixes k :: "'a item_class"
    and key :: "'a \<Rightarrow> 'b"
  assumes collates: "collate_item k s p = s"
    and compares: "equals_item k a b \<longleftrightarrow> key a = key b"
begin

abbreviation keys :: "'a item list \<Rightarrow> 'b list" where
  "keys xs \<equiv> map (\<lambda>s. key (payload s)) xs"

abbreviation considered :: "'a item list \<Rightarrow> 'a item list" where
  "considered xs \<equiv> filter (\<lambda>s. \<not> ignore_item k (payload s)) xs"

lemma keys_push: "keys (push_item r s) = (let ks = keys r @ [key (payload s)] in if length ks > maxItem then tl ks else ks)"
  by (cases r) (auto simp: push_item_def Let_def map_tl)

text \<open>The history holds the last five of the values reported, runs of equal ones as one.\<close>

lemma history_is_last_changes: "keys (history k xs) = last_n maxItem (remdups_adj (keys (considered xs)))"
proof (induction xs rule: rev_induct)
  case Nil
  then show ?case by (simp add: history_def last_n_def)
next
  case (snoc s xs)
  let ?h = "history k xs" and ?ks = "keys (considered xs)"
  have m: "0 < maxItem" by (simp add: maxItem_def)
  have e: "?h = [] \<longleftrightarrow> ?ks = []"
    using snoc m by (metis last_n_empty list.map_disc_iff remdups_adj_Nil_iff)
  show ?case
  proof (cases "ignore_item k (payload s)")
    case True
    with snoc show ?thesis by (simp add: history_snoc setIteminReport_def)
  next
    case False
    show ?thesis
    proof (cases "?h = []")
      case True
      with False e have "?ks = []" by simp
      with False True m show ?thesis
        by (simp add: history_snoc setIteminReport_def keys_push maxItem_def last_n_def)
    next
      case ne: False
      with e have ks: "?ks \<noteq> []" by simp
      have l: "key (payload (last ?h)) = last ?ks"
        using snoc ne ks m by (metis (no_types, lifting) last_last_n last_map last_remdups_adj remdups_adj_Nil_iff)
      show ?thesis
      proof (cases "last ?ks = key (payload s)")
        case True
        have "keys (butlast ?h @ [(last ?h)\<lparr>mUtcReported := mUtcReported s\<rparr>]) = keys ?h"
          by (subst append_butlast_last_id [OF ne, symmetric]) simp
        with True False ne ks l snoc show ?thesis
          by (simp add: history_snoc setIteminReport_def collates compares remdups_adj_snoc)
      next
        case neq: False
        with False ne ks l snoc m show ?thesis
          by (simp add: history_snoc setIteminReport_def collates compares remdups_adj_snoc keys_push
              last_n_snoc Let_def)
      qed
    qed
  qed
qed

lemma history_changes: "distinct_adj (keys (history k xs))"
  unfolding history_is_last_changes last_n_def
  by (metis append_take_drop_id distinct_adj_appendD2 distinct_adj_remdups_adj)

end

section \<open>The enhanced provider\<close>

datatype enh_field = FIELD_CONSENT | FIELD_REGION | FIELD_MAX
datatype enh_action = NO_OP | SET | CLEAR

record enh_item =
  mEnhFields :: u32
  mAction :: enh_action
  mFieldUpdate :: enh_field

fun enh_bit :: "enh_field \<Rightarrow> nat" where
  "enh_bit FIELD_CONSENT = 0"
| "enh_bit FIELD_REGION = 1"
| "enh_bit FIELD_MAX = 2"

definition updateFields :: "enh_item \<Rightarrow> enh_item" where
  "updateFields e =
     (if enh_bit FIELD_MAX > enh_bit (mFieldUpdate e) then
        (case mAction e of
           SET \<Rightarrow> e\<lparr>mEnhFields := mEnhFields e OR push_bit (enh_bit (mFieldUpdate e)) 1\<rparr>
         | CLEAR \<Rightarrow> e\<lparr>mEnhFields := mEnhFields e AND NOT (push_bit (enh_bit (mFieldUpdate e)) 1)\<rparr>
         | NO_OP \<Rightarrow> e)
      else e)"

definition setAction :: "enh_action \<Rightarrow> enh_item \<Rightarrow> enh_item" where
  "setAction act e = (let e1 = e\<lparr>mAction := act\<rparr> in if act \<noteq> NO_OP then updateFields e1 else e1)"

definition new_enh :: "bool \<Rightarrow> enh_field \<Rightarrow> enh_item" where
  "new_enh enabled updateBit =
     setAction (if enabled then SET else CLEAR) \<lparr>mEnhFields = 0, mAction = NO_OP, mFieldUpdate = updateBit\<rparr>"

definition enh_isEnabled :: "enh_item \<Rightarrow> bool" where
  "enh_isEnabled e = (let combinedBits = 3 in mEnhFields e AND combinedBits = combinedBits)"

definition enh_class :: "enh_item item_class" where
  "enh_class = (item_base (\<lambda>a b. mEnhFields a = mEnhFields b))\<lparr>
     collate_item := (\<lambda>s peer. updateFields (s\<lparr>mEnhFields := mEnhFields peer\<rparr>))\<rparr>"

text \<open>What a sequence of events leaves of a field.\<close>

fun last_value :: "enh_field \<Rightarrow> (bool \<times> enh_field) list \<Rightarrow> bool \<Rightarrow> bool" where
  "last_value f [] b = b"
| "last_value f ((v, g) # es) b = last_value f es (if f = g then v else b)"

lemma last_value_snoc: "last_value f (es @ [(v, g)]) b = (if f = g then v else last_value f es b)"
  by (induction es arbitrary: b) auto

definition enh_event :: "int \<Rightarrow> bool \<times> enh_field \<Rightarrow> enh_item item" where
  "enh_event t e = \<lparr>mUtcTime = t, mUtcReported = t, payload = new_enh (fst e) (snd e)\<rparr>"

lemma enh_bit_less [simp]: "enh_bit f < 2 \<longleftrightarrow> f \<noteq> FIELD_MAX"
  by (cases f) simp_all

lemma enh_bit_inj [simp]: "enh_bit f = enh_bit g \<longleftrightarrow> f = g"
  by (cases f; cases g) simp_all

lemma updateFields_bits:
  "f \<noteq> FIELD_MAX \<Longrightarrow> mFieldUpdate e \<noteq> FIELD_MAX \<Longrightarrow> bit (mEnhFields (updateFields e)) (enh_bit f) \<longleftrightarrow>
     (case mAction e of SET \<Rightarrow> f = mFieldUpdate e \<or> bit (mEnhFields e) (enh_bit f)
      | CLEAR \<Rightarrow> f \<noteq> mFieldUpdate e \<and> bit (mEnhFields e) (enh_bit f)
      | NO_OP \<Rightarrow> bit (mEnhFields e) (enh_bit f))"
  by (cases "mAction e"; cases f; cases "mFieldUpdate e")
    (simp_all add: updateFields_def bit_or_iff bit_and_iff bit_not_iff bit_push_bit_iff bit_1_iff)

lemma new_enh_bits:
  "f \<noteq> FIELD_MAX \<Longrightarrow> g \<noteq> FIELD_MAX \<Longrightarrow>
    bit (mEnhFields (new_enh v g)) (enh_bit f) \<longleftrightarrow> f = g \<and> v"
  "mFieldUpdate (new_enh v g) = g" "mAction (new_enh v g) = (if v then SET else CLEAR)"
proof -
  have f: "mFieldUpdate (updateFields e) = mFieldUpdate e" "mAction (updateFields e) = mAction e" for e
    by (auto simp: updateFields_def split: enh_action.splits)
  show "mFieldUpdate (new_enh v g) = g" "mAction (new_enh v g) = (if v then SET else CLEAR)"
    by (simp_all add: new_enh_def setAction_def Let_def f)
  show "f \<noteq> FIELD_MAX \<Longrightarrow> g \<noteq> FIELD_MAX \<Longrightarrow> bit (mEnhFields (new_enh v g)) (enh_bit f) \<longleftrightarrow> f = g \<and> v"
    by (simp add: new_enh_def setAction_def Let_def updateFields_bits)
qed

text \<open>
  C31: Consent and region come as separate events, in any order and as often as they like: the
  newest item of the cache holds the last value of each field, false for one never reported.
\<close>

theorem enh_fields_are_the_last_reported:
  assumes "es \<noteq> []" "\<forall>e\<in>set es. snd e \<noteq> FIELD_MAX" "f \<noteq> FIELD_MAX"
  shows "bit (mEnhFields (payload (last (history enh_class (map (enh_event t) es))))) (enh_bit f)
    = last_value f es False"
  using assms(1,2)
proof (induction es rule: rev_nonempty_induct)
  case (single e)
  with assms(3) show ?case
    by (cases e) (simp add: history_def setIteminReport_def enh_class_def item_base_def enh_event_def new_enh_bits)
next
  case (snoc e es)
  obtain v g where e: "e = (v, g)" by (cases e)
  let ?h = "history enh_class (map (enh_event t) es)"
  have "?h \<noteq> []"
  proof -
    have "history enh_class (xs @ [x]) \<noteq> []" for xs x
      by (auto simp: history_snoc setIteminReport_def enh_class_def item_base_def Let_def)
    with snoc(1) show ?thesis by (metis append_butlast_last_id map_is_Nil_conv)
  qed
  then have "mEnhFields (payload (last (history enh_class (map (enh_event t) (es @ [(v, g)])))))
      = mEnhFields (updateFields ((new_enh v g)\<lparr>mEnhFields := mEnhFields (payload (last ?h))\<rparr>))"
    by (simp add: history_snoc setIteminReport_def enh_class_def item_base_def Let_def enh_event_def)
  moreover have "bit (mEnhFields (updateFields ((new_enh v g)\<lparr>mEnhFields := m\<rparr>))) (enh_bit f)
      \<longleftrightarrow> (if f = g then v else bit m (enh_bit f))" for m
    using snoc.prems e assms(3) by (simp add: updateFields_bits new_enh_bits)
  moreover have "bit (mEnhFields (payload (last ?h))) (enh_bit f) = last_value f es False"
    using snoc by simp
  ultimately show ?case unfolding e by (simp only: last_value_snoc)
qed

theorem enh_fields_are_the_last_reported_witness:
  "bit (mEnhFields (payload (last (history enh_class (map (enh_event 3)
     [(True, FIELD_CONSENT), (True, FIELD_REGION), (False, FIELD_CONSENT), (True, FIELD_CONSENT)]))))) 0"
  using enh_fields_are_the_last_reported [of "[(True, FIELD_CONSENT), (True, FIELD_REGION),
      (False, FIELD_CONSENT), (True, FIELD_CONSENT)]" FIELD_CONSENT 3] by simp

end
