(* ===== verification/SsReports.thy ===== *)
theory SsReports
  imports Complex_Main SsCache CNumber
begin

text \<open>
  The values of \<^verbatim>\<open>gps/core/SystemStatus.cpp\<close>: what the engine reports about itself, from
  its debug sentences (\<open>$PQWM1\<close> and others) or as one structure, and the items made of it.

  Members keep their widths.  A \<open>float\<close> is a rational, or \<open>None\<close> where it is not a number;
  the reading of one is the parameter \<open>atof\<close>.  The parsers and the constructors from the
  structure leave some members as the memory was before: that memory is an argument.
\<close>

section \<open>Sentences\<close>

type_synonym flt = "rat option"

definition feq :: "flt \<Rightarrow> flt \<Rightarrow> bool" where
  "feq a b \<longleftrightarrow> a \<noteq> None \<and> a = b"

definition DEBUG_NMEA_MINSIZE :: nat where "DEBUG_NMEA_MINSIZE = 6"
definition DEBUG_NMEA_MAXSIZE :: nat where "DEBUG_NMEA_MAXSIZE = 4096"

text \<open>The text up to its terminator, and the length passed with it.\<close>

definition loc_nmea_is_debug :: "string \<Rightarrow> nat \<Rightarrow> bool" where
  "loc_nmea_is_debug nmea length' \<longleftrightarrow> length' \<ge> DEBUG_NMEA_MINSIZE \<and> length' \<le> DEBUG_NMEA_MAXSIZE
     \<and> take 4 nmea = ''$PQW''"

text \<open>The fields of a sentence: the first star becomes a comma, and each comma ends a field.\<close>

definition nmea_fields :: "string \<Rightarrow> nat \<Rightarrow> string list" where
  "nmea_fields str_in len_in =
     (if loc_nmea_is_debug str_in len_in then
        (if CHR ''*'' \<in> set str_in
         then split_fields [] (takeWhile (\<lambda>c. c \<noteq> CHR ''*'') str_in @ CHR '','' #
                tl (dropWhile (\<lambda>c. c \<noteq> CHR ''*'') str_in))
         else [])
      else [])"

section \<open>Navigation data\<close>

definition GPS_MIN :: nat where "GPS_MIN = 1"
definition GLO_MIN :: nat where "GLO_MIN = 65"
definition QZSS_MIN :: nat where "QZSS_MIN = 193"
definition BDS_MIN :: nat where "BDS_MIN = 201"
definition GAL_MIN :: nat where "GAL_MIN = 301"
definition NAVIC_MIN :: nat where "NAVIC_MIN = 401"
definition GPS_NUM :: nat where "GPS_NUM = 32"
definition GLO_NUM :: nat where "GLO_NUM = 24"
definition QZSS_NUM :: nat where "QZSS_NUM = 5"
definition BDS_NUM :: nat where "BDS_NUM = 37"
definition GAL_NUM :: nat where "GAL_NUM = 36"
definition NAVIC_NUM :: nat where "NAVIC_NUM = 14"
definition SV_ALL_NUM_MIN :: nat where "SV_ALL_NUM_MIN = GPS_NUM + GLO_NUM + QZSS_NUM + BDS_NUM + GAL_NUM"
definition SV_ALL_NUM :: nat where "SV_ALL_NUM = SV_ALL_NUM_MIN + NAVIC_NUM"

lemmas sv_defs = GPS_MIN_def GLO_MIN_def QZSS_MIN_def BDS_MIN_def GAL_MIN_def NAVIC_MIN_def
  GPS_NUM_def GLO_NUM_def QZSS_NUM_def BDS_NUM_def GAL_NUM_def NAVIC_NUM_def SV_ALL_NUM_MIN_def SV_ALL_NUM_def

text \<open>Type and source are the values of their enumerations.\<close>

record nav =
  mNavType :: u32
  mNavSource :: u32
  mAgeSec :: u32

definition zero_nav :: nav where "zero_nav = \<lparr>mNavType = 0, mNavSource = 0, mAgeSec = 0\<rparr>"

definition zero_navs :: "nat \<Rightarrow> nav list" where "zero_navs n = replicate n zero_nav"

record nav_info =
  gnssSvId :: "16 word"
  nav_type :: "8 word"
  nav_src :: "8 word"
  nav_age :: u32

text \<open>The structure \<open>GnssEngineDebugDataInfo\<close>, without the times of the day in it.\<close>

record debug_info =
  timeValid :: "8 word"
  gpsWeek :: "16 word"
  gpsTowMs :: u32
  sourceOfTime :: "8 word"
  clkTimeUnc :: flt
  clkFreqBias :: flt
  clkFreqUnc :: flt
  xoState :: "8 word"
  rcvrErrRecovery :: u32
  leapSec :: "8 word"
  leapSecUnc :: "8 word"
  jammerInd :: "u32 list"
  jammedSignalsMask :: u64
  epiValidity :: "8 word"
  epiLat :: flt
  epiLon :: flt
  epiAlt :: flt
  epiHepe :: flt
  epiAltUnc :: flt
  epiSrc :: "8 word"
  bestPosLat :: flt
  bestPosLon :: flt
  bestPosAlt :: flt
  bestPosHepe :: flt
  bestPosAltUnc :: flt
  xtraValidMask :: "8 word"
  gpsXtraAge :: u32
  gloXtraAge :: u32
  bdsXtraAge :: u32
  galXtraAge :: u32
  qzssXtraAge :: u32
  navicXtraAge :: u32
  gpsXtraMask :: u32
  gloXtraMask :: u32
  bdsXtraMask :: u64
  galXtraMask :: u64
  qzssXtraMask :: "8 word"
  navicXtraMask :: u32
  gpsEphMask :: u32
  gloEphMask :: u32
  bdsEphMask :: u64
  galEphMask :: u64
  qzssEphMask :: "8 word"
  gpsHealthUnknownMask :: u32
  gloHealthUnknownMask :: u32
  bdsHealthUnknownMask :: u64
  galHealthUnknownMask :: u64
  qzssHealthUnknownMask :: "8 word"
  navicHealthUnknownMask :: u32
  gpsHealthGoodMask :: u32
  gloHealthGoodMask :: u32
  bdsHealthGoodMask :: u64
  galHealthGoodMask :: u64
  qzssHealthGoodMask :: "8 word"
  navicHealthGoodMask :: u32
  gpsHealthBadMask :: u32
  gloHealthBadMask :: u32
  bdsHealthBadMask :: u64
  galHealthBadMask :: u64
  qzssHealthBadMask :: "8 word"
  navicHealthBadMask :: u32
  fixInfoMask :: u32
  navData :: "nav_info list" \<comment> \<open>the array of \<open>GNSS_MAX_SV_INFO_LIST_SIZE\<close> entries\<close>
  fixStatusMask :: u32
  fixHepeLimit :: u32

section \<open>Parsed sentences\<close>

record pqwm1 =
  m1_mGpsWeek :: "16 word"
  m1_mGpsTowMs :: u32
  m1_mTimeValid :: "8 word"
  m1_mTimeSource :: "8 word"
  m1_mTimeUnc :: u32
  m1_mClockFreqBias :: u32
  m1_mClockFreqBiasUnc :: u32
  m1_mXoState :: "8 word"
  m1_mPgaGain :: u32
  m1_mGpsBpAmpI :: u32
  m1_mGpsBpAmpQ :: u32
  m1_mAdcI :: u32
  m1_mAdcQ :: u32
  m1_mJammerGps :: u32
  m1_mJammerGlo :: u32
  m1_mJammerBds :: u32
  m1_mJammerGal :: u32
  m1_mRecErrorRecovery :: u32
  m1_mLeapSeconds :: u32
  m1_mLeapSecUnc :: u32
  m1_mGloBpAmpI :: u32
  m1_mGloBpAmpQ :: u32
  m1_mBdsBpAmpI :: u32
  m1_mBdsBpAmpQ :: u32
  m1_mGalBpAmpI :: u32
  m1_mGalBpAmpQ :: u32
  m1_mTimeUncNs :: u64
  m1_mJammedSignalsMask :: u32
  m1_mJammerInd :: "u32 list"

definition zero_m1 :: pqwm1 where
  "zero_m1 = \<lparr>m1_mGpsWeek = 0, m1_mGpsTowMs = 0, m1_mTimeValid = 0, m1_mTimeSource = 0, m1_mTimeUnc = 0,
     m1_mClockFreqBias = 0, m1_mClockFreqBiasUnc = 0, m1_mXoState = 0, m1_mPgaGain = 0,
     m1_mGpsBpAmpI = 0, m1_mGpsBpAmpQ = 0, m1_mAdcI = 0, m1_mAdcQ = 0, m1_mJammerGps = 0,
     m1_mJammerGlo = 0, m1_mJammerBds = 0, m1_mJammerGal = 0, m1_mRecErrorRecovery = 0,
     m1_mLeapSeconds = 0, m1_mLeapSecUnc = 0, m1_mGloBpAmpI = 0, m1_mGloBpAmpQ = 0,
     m1_mBdsBpAmpI = 0, m1_mBdsBpAmpQ = 0, m1_mGalBpAmpI = 0, m1_mGalBpAmpQ = 0,
     m1_mTimeUncNs = 0, m1_mJammedSignalsMask = 0, m1_mJammerInd = []\<rparr>"

definition parse_PQWM1 :: "string list \<Rightarrow> pqwm1" where
  "parse_PQWM1 mField =
     (if length mField \<le> 22 then zero_m1\<lparr>m1_mTimeValid := 0\<rparr>
      else let
        a = (\<lambda>i. atoi (mField ! i));
        m1 = zero_m1\<lparr>m1_mGpsWeek := int_to (a 1), m1_mGpsTowMs := a 2, m1_mTimeValid := int_to (a 3),
          m1_mTimeSource := int_to (a 4), m1_mTimeUnc := a 5, m1_mClockFreqBias := a 6,
          m1_mClockFreqBiasUnc := a 7, m1_mXoState := int_to (a 8), m1_mPgaGain := a 9,
          m1_mGpsBpAmpI := a 10, m1_mGpsBpAmpQ := a 11, m1_mAdcI := a 12, m1_mAdcQ := a 13,
          m1_mJammerGps := a 14, m1_mJammerGlo := a 15, m1_mJammerBds := a 16,
          m1_mJammerGal := a 17, m1_mRecErrorRecovery := a 18\<rparr>;
        m2 = (if length mField > 24
              then m1\<lparr>m1_mLeapSeconds := a 23, m1_mLeapSecUnc := a 24\<rparr> else m1);
        m3 = (if length mField > 30
              then m2\<lparr>m1_mGloBpAmpI := a 25, m1_mGloBpAmpQ := a 26, m1_mBdsBpAmpI := a 27,
                      m1_mBdsBpAmpQ := a 28, m1_mGalBpAmpI := a 29, m1_mGalBpAmpQ := a 30\<rparr> else m2)
      in if length mField > 31 then m3\<lparr>m1_mTimeUncNs := strtoull 10 (mField ! 31)\<rparr> else m3)"

text \<open>
  From the structure.  The conversions of a \<open>float\<close> to an \<open>int32_t\<close>, and of its product with
  a million to a \<open>uint64_t\<close>, are parameters.  \<open>None\<close> is an access behind the jammer values.
\<close>

definition PQWM1_from :: "(flt \<Rightarrow> u32) \<Rightarrow> (flt \<Rightarrow> u64) \<Rightarrow> pqwm1 \<Rightarrow> debug_info \<Rightarrow> pqwm1 option" where
  "PQWM1_from to_int unc_ns mem info =
     (if 0 < length (jammerInd info) \<and> length (jammerInd info) \<le> 9 then None
      else let
        m1 = mem\<lparr>m1_mGpsWeek := gpsWeek info, m1_mGpsTowMs := gpsTowMs info, m1_mTimeValid := timeValid info,
          m1_mTimeSource := sourceOfTime info, m1_mTimeUnc := to_int (clkTimeUnc info),
          m1_mClockFreqBias := to_int (clkFreqBias info), m1_mClockFreqBiasUnc := to_int (clkFreqUnc info),
          m1_mXoState := xoState info, m1_mRecErrorRecovery := rcvrErrRecovery info\<rparr>;
        m2 = (if 0 < length (jammerInd info)
              then m1\<lparr>m1_mJammerGps := jammerInd info ! 0, m1_mJammerGlo := jammerInd info ! 4,
                      m1_mJammerBds := jammerInd info ! 9, m1_mJammerGal := jammerInd info ! 6\<rparr> else m1)
      in Some (m2\<lparr>m1_mLeapSeconds := ucast (leapSec info), m1_mLeapSecUnc := ucast (leapSecUnc info),
          m1_mTimeUncNs := unc_ns (clkTimeUnc info), m1_mJammedSignalsMask := ucast (jammedSignalsMask info),
          m1_mJammerInd := jammerInd info\<rparr>))"

record pqwp1 =
  p1_mEpiValidity :: "8 word"
  p1_mEpiLat :: flt
  p1_mEpiLon :: flt
  p1_mEpiAlt :: flt
  p1_mEpiHepe :: flt
  p1_mEpiAltUnc :: flt
  p1_mEpiSrc :: "8 word"

definition parse_PQWP1 :: "(string \<Rightarrow> flt) \<Rightarrow> pqwp1 \<Rightarrow> string list \<Rightarrow> pqwp1" where
  "parse_PQWP1 atof mem mField =
     (if length mField < 9 then mem
      else \<lparr>p1_mEpiValidity = word_of_int (strtol 16 (mField ! 2)),
            p1_mEpiLat = atof (mField ! 3), p1_mEpiLon = atof (mField ! 4),
            p1_mEpiAlt = atof (mField ! 5),
            p1_mEpiHepe = Some (of_int (sint (atoi (mField ! 6)))),
            p1_mEpiAltUnc = atof (mField ! 7), p1_mEpiSrc = int_to (atoi (mField ! 8))\<rparr>)"

definition PQWP1_from :: "debug_info \<Rightarrow> pqwp1" where
  "PQWP1_from info = \<lparr>p1_mEpiValidity = epiValidity info, p1_mEpiLat = epiLat info, p1_mEpiLon = epiLon info,
     p1_mEpiAlt = epiAlt info, p1_mEpiHepe = epiHepe info, p1_mEpiAltUnc = epiAltUnc info,
     p1_mEpiSrc = epiSrc info\<rparr>"

record pqwp2 =
  p2_mBestLat :: flt
  p2_mBestLon :: flt
  p2_mBestAlt :: flt
  p2_mBestHepe :: flt
  p2_mBestAltUnc :: flt

definition parse_PQWP2 :: "(string \<Rightarrow> flt) \<Rightarrow> pqwp2 \<Rightarrow> string list \<Rightarrow> pqwp2" where
  "parse_PQWP2 atof mem mField =
     (if length mField < 7 then mem
      else \<lparr>p2_mBestLat = atof (mField ! 2), p2_mBestLon = atof (mField ! 3),
            p2_mBestAlt = atof (mField ! 4), p2_mBestHepe = atof (mField ! 5),
            p2_mBestAltUnc = atof (mField ! 6)\<rparr>)"

definition PQWP2_from :: "debug_info \<Rightarrow> pqwp2" where
  "PQWP2_from info = \<lparr>p2_mBestLat = bestPosLat info, p2_mBestLon = bestPosLon info,
     p2_mBestAlt = bestPosAlt info, p2_mBestHepe = bestPosHepe info,
     p2_mBestAltUnc = bestPosAltUnc info\<rparr>"

record pqwp3 =
  p3_mXtraValidMask :: "8 word"
  p3_mGpsXtraAge :: u32
  p3_mGloXtraAge :: u32
  p3_mBdsXtraAge :: u32
  p3_mGalXtraAge :: u32
  p3_mQzssXtraAge :: u32
  p3_mNavicXtraAge :: u32
  p3_mGpsXtraValid :: u32
  p3_mGloXtraValid :: u32
  p3_mBdsXtraValid :: u64
  p3_mGalXtraValid :: u64
  p3_mQzssXtraValid :: "8 word"
  p3_mNavicXtraValid :: u32

definition parse_PQWP3 :: "pqwp3 \<Rightarrow> string list \<Rightarrow> pqwp3" where
  "parse_PQWP3 mem mField =
     (if length mField < 13 then mem
      else \<lparr>p3_mXtraValidMask = word_of_int (strtol 16 (mField ! 2)),
            p3_mGpsXtraAge = atoi (mField ! 3), p3_mGloXtraAge = atoi (mField ! 4),
            p3_mBdsXtraAge = atoi (mField ! 5), p3_mGalXtraAge = atoi (mField ! 6),
            p3_mQzssXtraAge = atoi (mField ! 7), p3_mNavicXtraAge = 0,
            p3_mGpsXtraValid = word_of_int (strtol 16 (mField ! 8)),
            p3_mGloXtraValid = word_of_int (strtol 16 (mField ! 9)),
            p3_mBdsXtraValid = word_of_int (strtol 16 (mField ! 10)),
            p3_mGalXtraValid = word_of_int (strtol 16 (mField ! 11)),
            p3_mQzssXtraValid = word_of_int (strtol 16 (mField ! 12)), p3_mNavicXtraValid = 0\<rparr>)"

definition PQWP3_from :: "debug_info \<Rightarrow> pqwp3" where
  "PQWP3_from info = \<lparr>p3_mXtraValidMask = xtraValidMask info, p3_mGpsXtraAge = gpsXtraAge info,
     p3_mGloXtraAge = gloXtraAge info, p3_mBdsXtraAge = bdsXtraAge info,
     p3_mGalXtraAge = galXtraAge info, p3_mQzssXtraAge = qzssXtraAge info,
     p3_mNavicXtraAge = navicXtraAge info, p3_mGpsXtraValid = gpsXtraMask info,
     p3_mGloXtraValid = gloXtraMask info, p3_mBdsXtraValid = ucast (gloXtraMask info),
     p3_mGalXtraValid = galXtraMask info, p3_mQzssXtraValid = qzssXtraMask info,
     p3_mNavicXtraValid = navicXtraMask info\<rparr>"

record pqwp4 =
  p4_mGpsEpheValid :: u32
  p4_mGloEpheValid :: u32
  p4_mBdsEpheValid :: u64
  p4_mGalEpheValid :: u64
  p4_mQzssEpheValid :: "8 word"

definition parse_PQWP4 :: "pqwp4 \<Rightarrow> string list \<Rightarrow> pqwp4" where
  "parse_PQWP4 mem mField =
     (if length mField < 7 then mem
      else \<lparr>p4_mGpsEpheValid = word_of_int (strtol 16 (mField ! 2)),
            p4_mGloEpheValid = word_of_int (strtol 16 (mField ! 3)),
            p4_mBdsEpheValid = word_of_int (strtol 16 (mField ! 4)),
            p4_mGalEpheValid = word_of_int (strtol 16 (mField ! 5)),
            p4_mQzssEpheValid = word_of_int (strtol 16 (mField ! 6))\<rparr>)"

definition PQWP4_from :: "debug_info \<Rightarrow> pqwp4" where
  "PQWP4_from info = \<lparr>p4_mGpsEpheValid = gpsEphMask info, p4_mGloEpheValid = gloEphMask info,
     p4_mBdsEpheValid = bdsEphMask info, p4_mGalEpheValid = galEphMask info,
     p4_mQzssEpheValid = qzssEphMask info\<rparr>"

record pqwp5 =
  p5_mGpsUnknownMask :: u32
  p5_mGloUnknownMask :: u32
  p5_mBdsUnknownMask :: u64
  p5_mGalUnknownMask :: u64
  p5_mQzssUnknownMask :: "8 word"
  p5_mNavicUnknownMask :: u32
  p5_mGpsGoodMask :: u32
  p5_mGloGoodMask :: u32
  p5_mBdsGoodMask :: u64
  p5_mGalGoodMask :: u64
  p5_mQzssGoodMask :: "8 word"
  p5_mNavicGoodMask :: u32
  p5_mGpsBadMask :: u32
  p5_mGloBadMask :: u32
  p5_mBdsBadMask :: u64
  p5_mGalBadMask :: u64
  p5_mQzssBadMask :: "8 word"
  p5_mNavicBadMask :: u32

definition parse_PQWP5 :: "pqwp5 \<Rightarrow> string list \<Rightarrow> pqwp5" where
  "parse_PQWP5 mem mField =
     (if length mField < 17 then mem
      else \<lparr>p5_mGpsUnknownMask = word_of_int (strtol 16 (mField ! 2)),
            p5_mGloUnknownMask = word_of_int (strtol 16 (mField ! 3)),
            p5_mBdsUnknownMask = word_of_int (strtol 16 (mField ! 4)),
            p5_mGalUnknownMask = word_of_int (strtol 16 (mField ! 5)),
            p5_mQzssUnknownMask = word_of_int (strtol 16 (mField ! 6)),
            p5_mNavicUnknownMask = 0, p5_mGpsGoodMask = word_of_int (strtol 16 (mField ! 7)),
            p5_mGloGoodMask = word_of_int (strtol 16 (mField ! 8)),
            p5_mBdsGoodMask = word_of_int (strtol 16 (mField ! 9)),
            p5_mGalGoodMask = word_of_int (strtol 16 (mField ! 10)),
            p5_mQzssGoodMask = word_of_int (strtol 16 (mField ! 11)), p5_mNavicGoodMask = 0,
            p5_mGpsBadMask = word_of_int (strtol 16 (mField ! 12)),
            p5_mGloBadMask = word_of_int (strtol 16 (mField ! 13)),
            p5_mBdsBadMask = word_of_int (strtol 16 (mField ! 14)),
            p5_mGalBadMask = word_of_int (strtol 16 (mField ! 15)),
            p5_mQzssBadMask = word_of_int (strtol 16 (mField ! 16)), p5_mNavicBadMask = 0\<rparr>)"

definition PQWP5_from :: "debug_info \<Rightarrow> pqwp5" where
  "PQWP5_from info = \<lparr>p5_mGpsUnknownMask = gpsHealthUnknownMask info,
     p5_mGloUnknownMask = gloHealthUnknownMask info,
     p5_mBdsUnknownMask = bdsHealthUnknownMask info,
     p5_mGalUnknownMask = galHealthUnknownMask info,
     p5_mQzssUnknownMask = qzssHealthUnknownMask info,
     p5_mNavicUnknownMask = navicHealthUnknownMask info,
     p5_mGpsGoodMask = gpsHealthGoodMask info, p5_mGloGoodMask = gloHealthGoodMask info,
     p5_mBdsGoodMask = bdsHealthGoodMask info, p5_mGalGoodMask = galHealthGoodMask info,
     p5_mQzssGoodMask = qzssHealthGoodMask info, p5_mNavicGoodMask = navicHealthGoodMask info,
     p5_mGpsBadMask = gpsHealthBadMask info, p5_mGloBadMask = gloHealthBadMask info,
     p5_mBdsBadMask = bdsHealthBadMask info, p5_mGalBadMask = galHealthBadMask info,
     p5_mQzssBadMask = qzssHealthBadMask info, p5_mNavicBadMask = navicHealthBadMask info\<rparr>"

record pqwp6 =
  p6_mFixInfoMask :: u32

definition parse_PQWP6 :: "pqwp6 \<Rightarrow> string list \<Rightarrow> pqwp6" where
  "parse_PQWP6 mem mField =
     (if length mField < 3 then mem
      else \<lparr>p6_mFixInfoMask = word_of_int (strtol 16 (mField ! 2))\<rparr>)"

definition PQWP6_from :: "debug_info \<Rightarrow> pqwp6" where
  "PQWP6_from info = \<lparr>p6_mFixInfoMask = fixInfoMask info\<rparr>"

text \<open>The sentence of the navigation data may lack the satellites of NavIC.\<close>

definition parse_nav :: "string list \<Rightarrow> nat \<Rightarrow> nav" where
  "parse_nav mField i = \<lparr>mNavType = atoi (mField ! (i * 3 + 2)), mNavSource = atoi (mField ! (i * 3 + 3)),
     mAgeSec = atoi (mField ! (i * 3 + 4))\<rparr>"

definition parse_PQWP7 :: "nav list \<Rightarrow> string list \<Rightarrow> nav list" where
  "parse_PQWP7 mem mField =
     (if length mField < 2 + SV_ALL_NUM_MIN * 3 then mem
      else let svLimit = (if length mField < 2 + SV_ALL_NUM * 3 then SV_ALL_NUM_MIN else SV_ALL_NUM)
        in map (parse_nav mField) [0..<svLimit] @ zero_navs (SV_ALL_NUM - svLimit))"

text \<open>Where the entry of a satellite is written: the tests are one after the other.\<close>

definition nav_offset :: "nat \<Rightarrow> nat" where
  "nav_offset svId =
     (let offset = 0;
          offset = (if svId \<ge> GPS_MIN \<and> svId < GPS_MIN + GPS_NUM then svId - GPS_MIN else offset);
          offset = (if svId \<ge> GLO_MIN \<and> svId < GLO_MIN + GLO_NUM then GPS_NUM + svId - GLO_MIN else offset);
          offset = (if svId \<ge> BDS_MIN \<and> svId < BDS_MIN + BDS_NUM
                    then GPS_NUM + GLO_NUM + svId - BDS_MIN else offset);
          offset = (if svId \<ge> GAL_MIN \<and> svId < GAL_MIN + GAL_NUM
                    then GPS_NUM + GLO_NUM + BDS_NUM + svId - GAL_MIN else offset);
          offset = (if svId \<ge> QZSS_MIN \<and> svId < QZSS_MIN + QZSS_NUM
                    then GPS_NUM + GLO_NUM + BDS_NUM + GAL_NUM + svId - QZSS_MIN else offset)
      in if svId \<ge> NAVIC_MIN \<and> svId < NAVIC_MIN + NAVIC_NUM
         then GPS_NUM + GLO_NUM + BDS_NUM + GAL_NUM + QZSS_NUM + svId - NAVIC_MIN else offset)"

definition put_nav :: "nav_info \<Rightarrow> nav list \<Rightarrow> nav list" where
  "put_nav n navs = (if gnssSvId n = 0 then navs
     else navs[nav_offset (unat (gnssSvId n)) := \<lparr>mNavType = ucast (nav_type n),
            mNavSource = ucast (nav_src n), mAgeSec = nav_age n\<rparr>])"

text \<open>The loop over the whole array, of which the entries with satellite 0 are skipped.\<close>

definition GNSS_MAX_SV_INFO_LIST_SIZE :: nat where "GNSS_MAX_SV_INFO_LIST_SIZE = 176"

definition PQWP7_from :: "nav list \<Rightarrow> debug_info \<Rightarrow> nav list" where
  "PQWP7_from mem info = fold (\<lambda>i. put_nav (navData info ! i)) [0..<GNSS_MAX_SV_INFO_LIST_SIZE]
     (zero_navs SV_ALL_NUM_MIN @ drop SV_ALL_NUM_MIN mem)"

record pqws1 =
  s1_mFixInfoMask :: u32
  s1_mHepeLimit :: u32

definition parse_PQWS1 :: "pqws1 \<Rightarrow> string list \<Rightarrow> pqws1" where
  "parse_PQWS1 mem mField =
     (if length mField < 4 then mem
      else \<lparr>s1_mFixInfoMask = atoi (mField ! 2), s1_mHepeLimit = atoi (mField ! 3)\<rparr>)"

definition PQWS1_from :: "debug_info \<Rightarrow> pqws1" where
  "PQWS1_from info = \<lparr>s1_mFixInfoMask = fixStatusMask info, s1_mHepeLimit = fixHepeLimit info\<rparr>"

section \<open>Items\<close>

record time_and_clock =
  tc_mGpsWeek :: "16 word"
  tc_mGpsTowMs :: u32
  tc_mTimeValid :: "8 word"
  tc_mTimeSource :: "8 word"
  tc_mTimeUnc :: u32
  tc_mClockFreqBias :: u32
  tc_mClockFreqBiasUnc :: u32
  tc_mLeapSeconds :: u32
  tc_mLeapSecUnc :: u32
  tc_mTimeUncNs :: u64

definition SystemStatusTimeAndClock :: "pqwm1 \<Rightarrow> time_and_clock" where
  "SystemStatusTimeAndClock nmea = \<lparr>tc_mGpsWeek = m1_mGpsWeek nmea, tc_mGpsTowMs = m1_mGpsTowMs nmea,
     tc_mTimeValid = m1_mTimeValid nmea, tc_mTimeSource = m1_mTimeSource nmea,
     tc_mTimeUnc = m1_mTimeUnc nmea, tc_mClockFreqBias = m1_mClockFreqBias nmea,
     tc_mClockFreqBiasUnc = m1_mClockFreqBiasUnc nmea, tc_mLeapSeconds = m1_mLeapSeconds nmea,
     tc_mLeapSecUnc = m1_mLeapSecUnc nmea, tc_mTimeUncNs = m1_mTimeUncNs nmea\<rparr>"

definition default_time_and_clock :: time_and_clock where
  "default_time_and_clock = \<lparr>tc_mGpsWeek = 0, tc_mGpsTowMs = 0, tc_mTimeValid = 0, tc_mTimeSource = 0, tc_mTimeUnc = 0,
     tc_mClockFreqBias = 0, tc_mClockFreqBiasUnc = 0, tc_mLeapSeconds = 0, tc_mLeapSecUnc = 0,
     tc_mTimeUncNs = 0\<rparr>"

definition equals_time_and_clock :: "time_and_clock \<Rightarrow> time_and_clock \<Rightarrow> bool" where
  "equals_time_and_clock a b \<longleftrightarrow> tc_mGpsWeek a = tc_mGpsWeek b \<and> tc_mGpsTowMs a = tc_mGpsTowMs b
     \<and> tc_mTimeValid a = tc_mTimeValid b \<and> tc_mTimeSource a = tc_mTimeSource b
     \<and> tc_mTimeUnc a = tc_mTimeUnc b \<and> tc_mClockFreqBias a = tc_mClockFreqBias b
     \<and> tc_mClockFreqBiasUnc a = tc_mClockFreqBiasUnc b
     \<and> tc_mLeapSeconds a = tc_mLeapSeconds b \<and> tc_mLeapSecUnc a = tc_mLeapSecUnc b
     \<and> tc_mTimeUncNs a = tc_mTimeUncNs b"

record xo_state =
  xo_mXoState :: "8 word"

definition SystemStatusXoState :: "pqwm1 \<Rightarrow> xo_state" where
  "SystemStatusXoState nmea = \<lparr>xo_mXoState = m1_mXoState nmea\<rparr>"

definition default_xo_state :: xo_state where
  "default_xo_state = \<lparr>xo_mXoState = 0\<rparr>"

definition equals_xo_state :: "xo_state \<Rightarrow> xo_state \<Rightarrow> bool" where
  "equals_xo_state a b \<longleftrightarrow> xo_mXoState a = xo_mXoState b"

record rf_and_params =
  rf_mPgaGain :: u32
  rf_mGpsBpAmpI :: u32
  rf_mGpsBpAmpQ :: u32
  rf_mAdcI :: u32
  rf_mAdcQ :: u32
  rf_mJammerGps :: u32
  rf_mJammerGlo :: u32
  rf_mJammerBds :: u32
  rf_mJammerGal :: u32
  rf_mGloBpAmpI :: u32
  rf_mGloBpAmpQ :: u32
  rf_mBdsBpAmpI :: u32
  rf_mBdsBpAmpQ :: u32
  rf_mGalBpAmpI :: u32
  rf_mGalBpAmpQ :: u32
  rf_mJammedSignalsMask :: u32
  rf_mJammerInd :: "u32 list"

definition SystemStatusRfAndParams :: "pqwm1 \<Rightarrow> rf_and_params" where
  "SystemStatusRfAndParams nmea = \<lparr>rf_mPgaGain = m1_mPgaGain nmea, rf_mGpsBpAmpI = m1_mGpsBpAmpI nmea,
     rf_mGpsBpAmpQ = m1_mGpsBpAmpQ nmea, rf_mAdcI = m1_mAdcI nmea, rf_mAdcQ = m1_mAdcQ nmea,
     rf_mJammerGps = m1_mJammerGps nmea, rf_mJammerGlo = m1_mJammerGlo nmea,
     rf_mJammerBds = m1_mJammerBds nmea, rf_mJammerGal = m1_mJammerGal nmea,
     rf_mGloBpAmpI = m1_mGloBpAmpI nmea, rf_mGloBpAmpQ = m1_mGloBpAmpQ nmea,
     rf_mBdsBpAmpI = m1_mBdsBpAmpI nmea, rf_mBdsBpAmpQ = m1_mBdsBpAmpQ nmea,
     rf_mGalBpAmpI = m1_mGalBpAmpI nmea, rf_mGalBpAmpQ = m1_mGalBpAmpQ nmea,
     rf_mJammedSignalsMask = m1_mJammedSignalsMask nmea, rf_mJammerInd = m1_mJammerInd nmea\<rparr>"

definition default_rf_and_params :: rf_and_params where
  "default_rf_and_params = \<lparr>rf_mPgaGain = 0x80000000, rf_mGpsBpAmpI = 0x80000000, rf_mGpsBpAmpQ = 0x80000000,
     rf_mAdcI = 0x80000000, rf_mAdcQ = 0x80000000, rf_mJammerGps = 0, rf_mJammerGlo = 0,
     rf_mJammerBds = 0, rf_mJammerGal = 0, rf_mGloBpAmpI = 0x80000000,
     rf_mGloBpAmpQ = 0x80000000, rf_mBdsBpAmpI = 0x80000000, rf_mBdsBpAmpQ = 0x80000000,
     rf_mGalBpAmpI = 0x80000000, rf_mGalBpAmpQ = 0x80000000, rf_mJammedSignalsMask = 0,
     rf_mJammerInd = []\<rparr>"

definition equals_rf_and_params :: "rf_and_params \<Rightarrow> rf_and_params \<Rightarrow> bool" where
  "equals_rf_and_params a b \<longleftrightarrow> rf_mPgaGain a = rf_mPgaGain b \<and> rf_mGpsBpAmpI a = rf_mGpsBpAmpI b
     \<and> rf_mGpsBpAmpQ a = rf_mGpsBpAmpQ b \<and> rf_mAdcI a = rf_mAdcI b
     \<and> rf_mAdcQ a = rf_mAdcQ b \<and> rf_mJammerGps a = rf_mJammerGps b
     \<and> rf_mJammerGlo a = rf_mJammerGlo b \<and> rf_mJammerBds a = rf_mJammerBds b
     \<and> rf_mJammerGal a = rf_mJammerGal b \<and> rf_mGloBpAmpI a = rf_mGloBpAmpI b
     \<and> rf_mGloBpAmpQ a = rf_mGloBpAmpQ b \<and> rf_mBdsBpAmpI a = rf_mBdsBpAmpI b
     \<and> rf_mBdsBpAmpQ a = rf_mBdsBpAmpQ b \<and> rf_mGalBpAmpI a = rf_mGalBpAmpI b
     \<and> rf_mGalBpAmpQ a = rf_mGalBpAmpQ b
     \<and> rf_mJammedSignalsMask a = rf_mJammedSignalsMask b"

record err_recovery =
  er_mRecErrorRecovery :: u32

definition SystemStatusErrRecovery :: "pqwm1 \<Rightarrow> err_recovery" where
  "SystemStatusErrRecovery nmea = \<lparr>er_mRecErrorRecovery = m1_mRecErrorRecovery nmea\<rparr>"

definition default_err_recovery :: err_recovery where
  "default_err_recovery = \<lparr>er_mRecErrorRecovery = 0\<rparr>"

definition equals_err_recovery :: "err_recovery \<Rightarrow> err_recovery \<Rightarrow> bool" where
  "equals_err_recovery a b \<longleftrightarrow> er_mRecErrorRecovery a = er_mRecErrorRecovery b"

definition ignore_err_recovery :: "err_recovery \<Rightarrow> bool" where
  "ignore_err_recovery e \<longleftrightarrow> er_mRecErrorRecovery e = 0"

record injected_position =
  ip_mEpiValidity :: "8 word"
  ip_mEpiLat :: flt
  ip_mEpiLon :: flt
  ip_mEpiAlt :: flt
  ip_mEpiHepe :: flt
  ip_mEpiAltUnc :: flt
  ip_mEpiSrc :: "8 word"

definition SystemStatusInjectedPosition :: "pqwp1 \<Rightarrow> injected_position" where
  "SystemStatusInjectedPosition nmea = \<lparr>ip_mEpiValidity = p1_mEpiValidity nmea, ip_mEpiLat = p1_mEpiLat nmea,
     ip_mEpiLon = p1_mEpiLon nmea, ip_mEpiAlt = p1_mEpiAlt nmea,
     ip_mEpiHepe = p1_mEpiHepe nmea, ip_mEpiAltUnc = p1_mEpiAltUnc nmea,
     ip_mEpiSrc = p1_mEpiSrc nmea\<rparr>"

definition default_injected_position :: injected_position where
  "default_injected_position = \<lparr>ip_mEpiValidity = 0, ip_mEpiLat = Some 0, ip_mEpiLon = Some 0, ip_mEpiAlt = Some 0,
     ip_mEpiHepe = Some 0, ip_mEpiAltUnc = Some 0, ip_mEpiSrc = 0\<rparr>"

definition equals_injected_position :: "injected_position \<Rightarrow> injected_position \<Rightarrow> bool" where
  "equals_injected_position a b \<longleftrightarrow> ip_mEpiValidity a = ip_mEpiValidity b \<and> feq (ip_mEpiLat a) (ip_mEpiLat b)
     \<and> feq (ip_mEpiLon a) (ip_mEpiLon b) \<and> feq (ip_mEpiAlt a) (ip_mEpiAlt b)
     \<and> feq (ip_mEpiHepe a) (ip_mEpiHepe b) \<and> feq (ip_mEpiAltUnc a) (ip_mEpiAltUnc b)
     \<and> ip_mEpiSrc a = ip_mEpiSrc b"

record best_position =
  bp_mValid :: bool
  bp_mBestLat :: flt
  bp_mBestLon :: flt
  bp_mBestAlt :: flt
  bp_mBestHepe :: flt
  bp_mBestAltUnc :: flt

definition SystemStatusBestPosition :: "pqwp2 \<Rightarrow> best_position" where
  "SystemStatusBestPosition nmea = \<lparr>bp_mValid = True, bp_mBestLat = p2_mBestLat nmea, bp_mBestLon = p2_mBestLon nmea,
     bp_mBestAlt = p2_mBestAlt nmea, bp_mBestHepe = p2_mBestHepe nmea,
     bp_mBestAltUnc = p2_mBestAltUnc nmea\<rparr>"

definition default_best_position :: best_position where
  "default_best_position = \<lparr>bp_mValid = False, bp_mBestLat = Some 0, bp_mBestLon = Some 0, bp_mBestAlt = Some 0,
     bp_mBestHepe = Some 0, bp_mBestAltUnc = Some 0\<rparr>"

definition equals_best_position :: "best_position \<Rightarrow> best_position \<Rightarrow> bool" where
  "equals_best_position a b \<longleftrightarrow> feq (bp_mBestLat a) (bp_mBestLat b) \<and> feq (bp_mBestLon a) (bp_mBestLon b)
     \<and> feq (bp_mBestAlt a) (bp_mBestAlt b) \<and> feq (bp_mBestHepe a) (bp_mBestHepe b)
     \<and> feq (bp_mBestAltUnc a) (bp_mBestAltUnc b)"

record xtra =
  xt_mXtraValidMask :: "8 word"
  xt_mGpsXtraAge :: u32
  xt_mGloXtraAge :: u32
  xt_mBdsXtraAge :: u32
  xt_mGalXtraAge :: u32
  xt_mQzssXtraAge :: u32
  xt_mNavicXtraAge :: u32
  xt_mGpsXtraValid :: u32
  xt_mGloXtraValid :: u32
  xt_mBdsXtraValid :: u64
  xt_mGalXtraValid :: u64
  xt_mQzssXtraValid :: "8 word"
  xt_mNavicXtraValid :: u32

definition SystemStatusXtra :: "pqwp3 \<Rightarrow> xtra" where
  "SystemStatusXtra nmea = \<lparr>xt_mXtraValidMask = p3_mXtraValidMask nmea, xt_mGpsXtraAge = p3_mGpsXtraAge nmea,
     xt_mGloXtraAge = p3_mGloXtraAge nmea, xt_mBdsXtraAge = p3_mBdsXtraAge nmea,
     xt_mGalXtraAge = p3_mGalXtraAge nmea, xt_mQzssXtraAge = p3_mQzssXtraAge nmea,
     xt_mNavicXtraAge = p3_mNavicXtraAge nmea, xt_mGpsXtraValid = p3_mGpsXtraValid nmea,
     xt_mGloXtraValid = p3_mGloXtraValid nmea, xt_mBdsXtraValid = p3_mBdsXtraValid nmea,
     xt_mGalXtraValid = p3_mGalXtraValid nmea, xt_mQzssXtraValid = p3_mQzssXtraValid nmea,
     xt_mNavicXtraValid = p3_mNavicXtraValid nmea\<rparr>"

definition default_xtra :: xtra where
  "default_xtra = \<lparr>xt_mXtraValidMask = 0, xt_mGpsXtraAge = 0, xt_mGloXtraAge = 0, xt_mBdsXtraAge = 0,
     xt_mGalXtraAge = 0, xt_mQzssXtraAge = 0, xt_mNavicXtraAge = 0, xt_mGpsXtraValid = 0,
     xt_mGloXtraValid = 0, xt_mBdsXtraValid = 0, xt_mGalXtraValid = 0, xt_mQzssXtraValid = 0,
     xt_mNavicXtraValid = 0\<rparr>"

definition equals_xtra :: "xtra \<Rightarrow> xtra \<Rightarrow> bool" where
  "equals_xtra a b \<longleftrightarrow> xt_mXtraValidMask a = xt_mXtraValidMask b \<and> xt_mGpsXtraAge a = xt_mGpsXtraAge b
     \<and> xt_mGloXtraAge a = xt_mGloXtraAge b \<and> xt_mBdsXtraAge a = xt_mBdsXtraAge b
     \<and> xt_mGalXtraAge a = xt_mGalXtraAge b \<and> xt_mQzssXtraAge a = xt_mQzssXtraAge b
     \<and> xt_mNavicXtraAge a = xt_mNavicXtraAge b \<and> xt_mGpsXtraValid a = xt_mGpsXtraValid b
     \<and> xt_mGloXtraValid a = xt_mGloXtraValid b \<and> xt_mBdsXtraValid a = xt_mBdsXtraValid b
     \<and> xt_mGalXtraValid a = xt_mGalXtraValid b \<and> xt_mQzssXtraValid a = xt_mQzssXtraValid b
     \<and> xt_mNavicXtraValid a = xt_mNavicXtraValid b"

record ephemeris =
  ep_mGpsEpheValid :: u32
  ep_mGloEpheValid :: u32
  ep_mBdsEpheValid :: u64
  ep_mGalEpheValid :: u64
  ep_mQzssEpheValid :: "8 word"

definition SystemStatusEphemeris :: "pqwp4 \<Rightarrow> ephemeris" where
  "SystemStatusEphemeris nmea = \<lparr>ep_mGpsEpheValid = p4_mGpsEpheValid nmea, ep_mGloEpheValid = p4_mGloEpheValid nmea,
     ep_mBdsEpheValid = p4_mBdsEpheValid nmea, ep_mGalEpheValid = p4_mGalEpheValid nmea,
     ep_mQzssEpheValid = p4_mQzssEpheValid nmea\<rparr>"

definition default_ephemeris :: ephemeris where
  "default_ephemeris = \<lparr>ep_mGpsEpheValid = 0, ep_mGloEpheValid = 0, ep_mBdsEpheValid = 0, ep_mGalEpheValid = 0,
     ep_mQzssEpheValid = 0\<rparr>"

definition equals_ephemeris :: "ephemeris \<Rightarrow> ephemeris \<Rightarrow> bool" where
  "equals_ephemeris a b \<longleftrightarrow> ep_mGpsEpheValid a = ep_mGpsEpheValid b \<and> ep_mGloEpheValid a = ep_mGloEpheValid b
     \<and> ep_mBdsEpheValid a = ep_mBdsEpheValid b \<and> ep_mGalEpheValid a = ep_mGalEpheValid b
     \<and> ep_mQzssEpheValid a = ep_mQzssEpheValid b"

record sv_health =
  sh_mGpsUnknownMask :: u32
  sh_mGloUnknownMask :: u32
  sh_mBdsUnknownMask :: u64
  sh_mGalUnknownMask :: u64
  sh_mQzssUnknownMask :: "8 word"
  sh_mNavicUnknownMask :: u32
  sh_mGpsGoodMask :: u32
  sh_mGloGoodMask :: u32
  sh_mBdsGoodMask :: u64
  sh_mGalGoodMask :: u64
  sh_mQzssGoodMask :: "8 word"
  sh_mNavicGoodMask :: u32
  sh_mGpsBadMask :: u32
  sh_mGloBadMask :: u32
  sh_mBdsBadMask :: u64
  sh_mGalBadMask :: u64
  sh_mQzssBadMask :: "8 word"
  sh_mNavicBadMask :: u32

definition SystemStatusSvHealth :: "pqwp5 \<Rightarrow> sv_health" where
  "SystemStatusSvHealth nmea = \<lparr>sh_mGpsUnknownMask = p5_mGpsUnknownMask nmea,
     sh_mGloUnknownMask = p5_mGloUnknownMask nmea,
     sh_mBdsUnknownMask = p5_mBdsUnknownMask nmea,
     sh_mGalUnknownMask = p5_mGalUnknownMask nmea,
     sh_mQzssUnknownMask = p5_mQzssUnknownMask nmea,
     sh_mNavicUnknownMask = p5_mNavicUnknownMask nmea, sh_mGpsGoodMask = p5_mGpsGoodMask nmea,
     sh_mGloGoodMask = p5_mGloGoodMask nmea, sh_mBdsGoodMask = p5_mBdsGoodMask nmea,
     sh_mGalGoodMask = p5_mGalGoodMask nmea, sh_mQzssGoodMask = p5_mQzssGoodMask nmea,
     sh_mNavicGoodMask = p5_mNavicGoodMask nmea, sh_mGpsBadMask = p5_mGpsBadMask nmea,
     sh_mGloBadMask = p5_mGloBadMask nmea, sh_mBdsBadMask = p5_mBdsBadMask nmea,
     sh_mGalBadMask = p5_mGalBadMask nmea, sh_mQzssBadMask = p5_mQzssBadMask nmea,
     sh_mNavicBadMask = p5_mNavicBadMask nmea\<rparr>"

definition default_sv_health :: sv_health where
  "default_sv_health = \<lparr>sh_mGpsUnknownMask = 0, sh_mGloUnknownMask = 0, sh_mBdsUnknownMask = 0,
     sh_mGalUnknownMask = 0, sh_mQzssUnknownMask = 0, sh_mNavicUnknownMask = 0,
     sh_mGpsGoodMask = 0, sh_mGloGoodMask = 0, sh_mBdsGoodMask = 0, sh_mGalGoodMask = 0,
     sh_mQzssGoodMask = 0, sh_mNavicGoodMask = 0, sh_mGpsBadMask = 0, sh_mGloBadMask = 0,
     sh_mBdsBadMask = 0, sh_mGalBadMask = 0, sh_mQzssBadMask = 0, sh_mNavicBadMask = 0\<rparr>"

definition equals_sv_health :: "sv_health \<Rightarrow> sv_health \<Rightarrow> bool" where
  "equals_sv_health a b \<longleftrightarrow> sh_mGpsUnknownMask a = sh_mGpsUnknownMask b \<and> sh_mGloUnknownMask a = sh_mGloUnknownMask b
     \<and> sh_mBdsUnknownMask a = sh_mBdsUnknownMask b
     \<and> sh_mGalUnknownMask a = sh_mGalUnknownMask b
     \<and> sh_mQzssUnknownMask a = sh_mQzssUnknownMask b
     \<and> sh_mGpsGoodMask a = sh_mGpsGoodMask b \<and> sh_mGloGoodMask a = sh_mGloGoodMask b
     \<and> sh_mBdsGoodMask a = sh_mBdsGoodMask b \<and> sh_mGalGoodMask a = sh_mGalGoodMask b
     \<and> sh_mQzssGoodMask a = sh_mQzssGoodMask b \<and> sh_mGpsBadMask a = sh_mGpsBadMask b
     \<and> sh_mGloBadMask a = sh_mGloBadMask b \<and> sh_mBdsBadMask a = sh_mBdsBadMask b
     \<and> sh_mGalBadMask a = sh_mGalBadMask b \<and> sh_mQzssBadMask a = sh_mQzssBadMask b"

record pdr =
  pd_mFixInfoMask :: u32

definition SystemStatusPdr :: "pqwp6 \<Rightarrow> pdr" where
  "SystemStatusPdr nmea = \<lparr>pd_mFixInfoMask = p6_mFixInfoMask nmea\<rparr>"

definition default_pdr :: pdr where
  "default_pdr = \<lparr>pd_mFixInfoMask = 0\<rparr>"

definition equals_pdr :: "pdr \<Rightarrow> pdr \<Rightarrow> bool" where
  "equals_pdr a b \<longleftrightarrow> pd_mFixInfoMask a = pd_mFixInfoMask b"

text \<open>The navigation data are the array of entries itself.\<close>

definition SystemStatusNavData :: "nav list \<Rightarrow> nav list" where
  "SystemStatusNavData nmea = take SV_ALL_NUM nmea"

definition default_nav_data :: "nav list" where "default_nav_data = zero_navs SV_ALL_NUM"

definition equals_nav_data :: "nav list \<Rightarrow> nav list \<Rightarrow> bool" where
  "equals_nav_data a b \<longleftrightarrow> (\<forall>i\<in>{0..<SV_ALL_NUM}. mNavType (a ! i) = mNavType (b ! i)
     \<and> mNavSource (a ! i) = mNavSource (b ! i) \<and> mAgeSec (a ! i) = mAgeSec (b ! i))"

record position_failure =
  pf_mFixInfoMask :: u32
  pf_mHepeLimit :: u32

definition SystemStatusPositionFailure :: "pqws1 \<Rightarrow> position_failure" where
  "SystemStatusPositionFailure nmea = \<lparr>pf_mFixInfoMask = s1_mFixInfoMask nmea, pf_mHepeLimit = s1_mHepeLimit nmea\<rparr>"

definition default_position_failure :: position_failure where
  "default_position_failure = \<lparr>pf_mFixInfoMask = 0, pf_mHepeLimit = 0\<rparr>"

definition equals_position_failure :: "position_failure \<Rightarrow> position_failure \<Rightarrow> bool" where
  "equals_position_failure a b \<longleftrightarrow> pf_mFixInfoMask a = pf_mFixInfoMask b \<and> pf_mHepeLimit a = pf_mHepeLimit b"

text \<open>A position: the coordinates are compared, the rest is carried along.\<close>

record 'l loc_item =
  lo_mValid :: bool
  lo_latitude :: flt
  lo_longitude :: flt
  lo_altitude :: flt
  lo_rest :: "'l option"

definition SystemStatusLocation :: "flt \<Rightarrow> flt \<Rightarrow> flt \<Rightarrow> 'l \<Rightarrow> 'l loc_item" where
  "SystemStatusLocation latitude longitude altitude rest = \<lparr>lo_mValid = True, lo_latitude = latitude,
     lo_longitude = longitude, lo_altitude = altitude, lo_rest = Some rest\<rparr>"

definition equals_location :: "'l loc_item \<Rightarrow> 'l loc_item \<Rightarrow> bool" where
  "equals_location a b \<longleftrightarrow> feq (lo_latitude a) (lo_latitude b) \<and> feq (lo_longitude a) (lo_longitude b)
     \<and> feq (lo_altitude a) (lo_altitude b)"

end
