(* ===== verification/NetworkInfo.thy ===== *)
theory NetworkInfo
  imports SsCache SwapRemove
begin

text \<open>
  The item \<open>SystemStatusNetworkInfo\<close> of \<^verbatim>\<open>gps/core/SystemStatus.h\<close> over
  \<open>NetworkInfoDataItem\<close> of \<^verbatim>\<open>gps/core/data-items/DataItemConcreteTypes.h\<close>: the table of
  the networks that are up, which every event of one network is merged into.

  Types of networks are the \<open>int32_t\<close> that the code casts to the enumeration.
\<close>

section \<open>Data\<close>

type_synonym handle_entry = "u64 \<times> int"

definition NETWORK_HANDLE_UNKNOWN :: u64 where "NETWORK_HANDLE_UNKNOWN = - 1"
definition MAX_NETWORK_HANDLES :: nat where "MAX_NETWORK_HANDLES = 10"
definition TYPE_MOBILE :: int where "TYPE_MOBILE = 0"
definition TYPE_UNKNOWN :: int where "TYPE_UNKNOWN = 10"

record network_info =
  mAllTypes :: u64
  mType :: int
  mTypeName :: string
  mSubTypeName :: string
  mAvailable :: bool
  mConnected :: bool
  mRoaming :: bool
  mAllNetworkHandles :: "handle_entry list"
  mNetworkHandle :: u64
  mApn :: string

definition getNormalizedType :: "int \<Rightarrow> int" where
  "getNormalizedType type =
     (if type = 100 then 1 else if type = 101 then 2 else if type = 102 then 3
      else if type = 201 then TYPE_MOBILE else if type = 202 then 6 else if type = 203 then 7
      else if type = 204 then 4 else if type = 205 then 5 else if type = 220 then 8
      else TYPE_UNKNOWN)"

definition typeToAllTypes :: "int \<Rightarrow> u64" where
  "typeToAllTypes type = (if type \<ge> TYPE_UNKNOWN \<or> type < TYPE_MOBILE then 0 else push_bit (nat type) 1)"

definition no_handle :: handle_entry where "no_handle = (NETWORK_HANDLE_UNKNOWN, TYPE_UNKNOWN)"

definition new_network_info ::
  "int \<Rightarrow> int \<Rightarrow> string \<Rightarrow> string \<Rightarrow> bool \<Rightarrow> bool \<Rightarrow> bool \<Rightarrow> u64 \<Rightarrow> string \<Rightarrow> network_info" where
  "new_network_info initialType type typeName subTypeName available connected roaming networkHandle apn =
     \<lparr>mAllTypes = typeToAllTypes initialType, mType = type, mTypeName = typeName,
      mSubTypeName = subTypeName, mAvailable = available, mConnected = connected, mRoaming = roaming,
      mAllNetworkHandles = (networkHandle, initialType) # replicate (MAX_NETWORK_HANDLES - 1) no_handle,
      mNetworkHandle = networkHandle, mApn = apn\<rparr>"

definition status_network_info :: "int \<Rightarrow> string \<Rightarrow> string \<Rightarrow> bool \<Rightarrow> bool \<Rightarrow> u64 \<Rightarrow> string \<Rightarrow> network_info" where
  "status_network_info type typeName subTypeName connected roaming networkHandle apn =
     new_network_info type type typeName subTypeName (connected \<and> \<not> roaming) connected roaming networkHandle apn"

section \<open>Merging\<close>

text \<open>The loop that enters a network that came up.\<close>

fun add_handle :: "u64 \<Rightarrow> int \<Rightarrow> handle_entry list \<Rightarrow> handle_entry list" where
  "add_handle h t [] = []"
| "add_handle h t ((h', t') # tb) =
     (if h = h' then (h', t') # tb
      else if h' = NETWORK_HANDLE_UNKNOWN then (h, t) # tb
      else (h', t') # add_handle h t tb)"

text \<open>
  The loop over the valid entries when a network went down: the index of its entry (or the size
  of the table), the number of valid entries, and how many other networks have the type.
\<close>

fun scan_handles :: "int \<Rightarrow> u64 \<Rightarrow> nat \<Rightarrow> nat \<Rightarrow> nat \<Rightarrow> handle_entry list \<Rightarrow> nat \<times> nat \<times> nat" where
  "scan_handles t h i deletedIndex typeCount [] = (deletedIndex, i, typeCount)"
| "scan_handles t h i deletedIndex typeCount ((h', t') # tb) =
     (if h' = NETWORK_HANDLE_UNKNOWN then (deletedIndex, i, typeCount)
      else scan_handles t h (Suc i)
        (if t = t' \<and> h = h' then i else deletedIndex)
        (if t = t' \<and> h \<noteq> h' then Suc typeCount else typeCount) tb)"

definition delete_handle :: "nat \<Rightarrow> nat \<Rightarrow> handle_entry list \<Rightarrow> handle_entry list" where
  "delete_handle deletedIndex lastValidIndex tb =
     (if deletedIndex \<noteq> MAX_NETWORK_HANDLES
      then tb[deletedIndex := tb ! lastValidIndex, lastValidIndex := no_handle] else tb)"

definition collate_network :: "network_info \<Rightarrow> network_info \<Rightarrow> network_info" where
  "collate_network s curInfo =
     (let allTypes = mAllTypes curInfo;
          s1 = s\<lparr>mAllNetworkHandles := mAllNetworkHandles curInfo\<rparr>;
          s2 = (if mType s1 \<noteq> TYPE_MOBILE \<and> mApn curInfo \<noteq> [] then s1\<lparr>mApn := mApn curInfo\<rparr> else s1)
      in if mConnected s2 then
           s2\<lparr>mAllTypes := mAllTypes s2 OR allTypes,
              mAllNetworkHandles := add_handle (mNetworkHandle s2) (mType s2) (mAllNetworkHandles s2)\<rparr>
         else if mAllTypes s2 \<noteq> 0 then
           (let (deletedIndex, valid, typeCount) =
                  scan_handles (mType s2) (mNetworkHandle s2) 0 MAX_NETWORK_HANDLES 0 (mAllNetworkHandles s2);
                lastValidIndex = (if valid > 0 then valid - 1 else valid);
                s3 = s2\<lparr>mAllNetworkHandles := delete_handle deletedIndex lastValidIndex (mAllNetworkHandles s2)\<rparr>
            in if typeCount = 0 then s3\<lparr>mAllTypes := allTypes AND NOT (mAllTypes s3)\<rparr> else s3)
         else s2)"

definition equals_network :: "network_info \<Rightarrow> network_info \<Rightarrow> bool" where
  "equals_network a peer \<longleftrightarrow> mAllTypes a = mAllTypes peer \<and> mConnected a = mConnected peer
     \<and> mAllNetworkHandles a = mAllNetworkHandles peer \<and> mApn peer = mApn a"

definition network_class :: "network_info item_class" where
  "network_class = (item_base equals_network)\<lparr>collate_item := collate_network\<rparr>"

section \<open>The table\<close>

text \<open>The networks in the table: the entries before the first unknown handle.\<close>

definition networks :: "handle_entry list \<Rightarrow> handle_entry list" where
  "networks tb = takeWhile (\<lambda>p. fst p \<noteq> NETWORK_HANDLE_UNKNOWN) tb"

text \<open>The table lists each handle once, and nothing behind the first unknown one.\<close>

definition table_holds :: "handle_entry list \<Rightarrow> handle_entry list \<Rightarrow> bool" where
  "table_holds tb vs \<longleftrightarrow> length tb = MAX_NETWORK_HANDLES \<and> (\<exists>rest. tb = vs @ rest \<and> (\<forall>p\<in>set rest. fst p = NETWORK_HANDLE_UNKNOWN))
     \<and> (\<forall>p\<in>set vs. fst p \<noteq> NETWORK_HANDLE_UNKNOWN) \<and> distinct (map fst vs)"

lemma table_holds_networks: "table_holds tb vs \<Longrightarrow> networks tb = vs"
proof -
  assume "table_holds tb vs"
  then obtain rest where "tb = vs @ rest" "\<forall>p\<in>set rest. fst p = NETWORK_HANDLE_UNKNOWN"
    "\<forall>p\<in>set vs. fst p \<noteq> NETWORK_HANDLE_UNKNOWN" by (auto simp: table_holds_def)
  then show ?thesis by (cases rest) (auto simp: networks_def takeWhile_append takeWhile_eq_all_conv)
qed

lemma add_handle_append:
  "\<forall>p\<in>set vs. fst p \<noteq> NETWORK_HANDLE_UNKNOWN \<Longrightarrow> \<forall>p\<in>set rest. fst p = NETWORK_HANDLE_UNKNOWN \<Longrightarrow>
   h \<noteq> NETWORK_HANDLE_UNKNOWN \<Longrightarrow>
   add_handle h t (vs @ rest) = (if h \<in> fst ` set vs \<or> rest = [] then vs @ rest else vs @ (h, t) # tl rest)"
proof (induction vs)
  case Nil
  then show ?case by (cases rest) auto
next
  case (Cons v vs)
  then show ?case by (cases v) auto
qed

lemma add_handle_holds:
  assumes "table_holds tb vs" "h \<noteq> NETWORK_HANDLE_UNKNOWN"
  shows "table_holds (add_handle h t tb)
    (if h \<in> fst ` set vs \<or> length vs = MAX_NETWORK_HANDLES then vs else vs @ [(h, t)])"
proof -
  from assms obtain rest where r: "tb = vs @ rest" "\<forall>p\<in>set rest. fst p = NETWORK_HANDLE_UNKNOWN"
    "\<forall>p\<in>set vs. fst p \<noteq> NETWORK_HANDLE_UNKNOWN" "distinct (map fst vs)" "length tb = MAX_NETWORK_HANDLES"
    by (auto simp: table_holds_def)
  have full: "rest = [] \<longleftrightarrow> length vs = MAX_NETWORK_HANDLES" using r by auto
  note a = add_handle_append [OF r(3,2) assms(2), of t]
  show ?thesis
  proof (cases "h \<in> fst ` set vs \<or> rest = []")
    case True
    with a full assms(1) r(1) show ?thesis by auto
  next
    case False
    then obtain x xs where "rest = x # xs" by (cases rest) auto
    with False a full r assms(2) show ?thesis by (auto simp: table_holds_def)
  qed
qed

lemma scan_append:
  assumes "\<forall>p\<in>set vs. fst p \<noteq> NETWORK_HANDLE_UNKNOWN" "\<forall>p\<in>set rest. fst p = NETWORK_HANDLE_UNKNOWN"
    "distinct (map fst vs)"
  shows "scan_handles t h i d c (vs @ rest) =
    (if (h, t) \<in> set vs then i + (LEAST j. j < length vs \<and> vs ! j = (h, t)) else d, i + length vs,
     c + length (filter (\<lambda>p. snd p = t \<and> fst p \<noteq> h) vs))"
  using assms
proof (induction vs arbitrary: i d c)
  case Nil
  then show ?case by (cases rest) auto
next
  case (Cons v vs)
  obtain h' t' where v: "v = (h', t')" by (cases v)
  have L0: "(LEAST j. j < length (v # vs) \<and> (v # vs) ! j = (h, t)) = 0" if "v = (h, t)"
    by (rule Least_eq_0) (use that in simp)
  have LS: "(LEAST j. j < length (v # vs) \<and> (v # vs) ! j = (h, t)) = Suc (LEAST j. j < length vs \<and> vs ! j = (h, t))"
    if "v \<noteq> (h, t)" "(h, t) \<in> set vs"
  proof -
    from that obtain n where "n < length vs \<and> vs ! n = (h, t)" by (auto simp: in_set_conv_nth)
    then have "Suc n < length (v # vs) \<and> (v # vs) ! Suc n = (h, t)" by simp
    from Least_Suc [where P = "\<lambda>j. j < length (v # vs) \<and> (v # vs) ! j = (h, t)", OF this] that
    show ?thesis by simp
  qed
  have "(h, t) \<notin> set vs" if "v = (h, t)" using that Cons.prems by (auto simp: rev_image_eqI)
  moreover have "fst v \<noteq> NETWORK_HANDLE_UNKNOWN" using Cons.prems by simp
  moreover have IH: "scan_handles t h (Suc i) d' c' (vs @ rest) =
      (if (h, t) \<in> set vs then Suc i + (LEAST j. j < length vs \<and> vs ! j = (h, t)) else d', Suc i + length vs,
       c' + length (filter (\<lambda>p. snd p = t \<and> fst p \<noteq> h) vs))" for d' c'
    using Cons.IH Cons.prems by simp
  ultimately show ?case
  proof (cases "v = (h, t)")
    case True
    with \<open>v = (h, t) \<Longrightarrow> (h, t) \<notin> set vs\<close> \<open>fst v \<noteq> _\<close> L0 show ?thesis by (simp add: IH del: length_Cons)
  next
    case False
    with \<open>fst v \<noteq> _\<close> LS v show ?thesis by (simp add: IH del: length_Cons) auto
  qed
qed


lemma delete_handle_holds:
  assumes "table_holds tb vs"
  shows "table_holds (let (d, n, c) = scan_handles t h 0 MAX_NETWORK_HANDLES 0 tb
      in delete_handle d (if n > 0 then n - 1 else n) tb) (swap_remove (h, t) vs)"
proof -
  from assms obtain rest where r: "tb = vs @ rest" "\<forall>p\<in>set rest. fst p = NETWORK_HANDLE_UNKNOWN"
    "\<forall>p\<in>set vs. fst p \<noteq> NETWORK_HANDLE_UNKNOWN" "distinct (map fst vs)" "length tb = MAX_NETWORK_HANDLES"
    by (auto simp: table_holds_def)
  note sc = scan_append [OF r(3,2,4), of t h 0 MAX_NETWORK_HANDLES 0]
  show ?thesis
  proof (cases "(h, t) \<in> set vs")
    case False
    with sc r assms show ?thesis by (simp add: delete_handle_def swap_remove_absent)
  next
    case True
    define j where "j = (LEAST j. j < length vs \<and> vs ! j = (h, t))"
    from True have "\<exists>j. j < length vs \<and> vs ! j = (h, t)" by (auto simp: in_set_conv_nth)
    then have "j < length vs \<and> vs ! j = (h, t)" unfolding j_def by (rule LeastI_ex)
    then have j: "j < length vs" "vs ! j = (h, t)" by simp_all
    have m: "\<forall>k<j. vs ! k \<noteq> (h, t)"
    proof (intro allI impI)
      fix k assume "k < j"
      with not_less_Least [of k "\<lambda>j. j < length vs \<and> vs ! j = (h, t)"] j(1)
      show "vs ! k \<noteq> (h, t)" by (simp add: j_def)
    qed
    have jm: "j \<noteq> MAX_NETWORK_HANDLES" using j r by auto
    have lv: "length vs > 0" using j by auto
    let ?tb = "tb[j := tb ! (length vs - 1), length vs - 1 := no_handle]"
    have last: "tb ! (length vs - 1) = last vs" using lv r by (simp add: nth_append last_conv_nth)
    have "?tb = (vs[j := last vs])[length vs - 1 := no_handle] @ rest"
      using j lv unfolding last by (simp add: r(1) list_update_append)
    also have "(vs[j := last vs])[length vs - 1 := no_handle] = butlast (vs[j := last vs]) @ [no_handle]"
      using lv by (cases "vs[j := last vs]" rule: rev_cases) (auto simp: list_update_append dest: arg_cong [where f = length])
    also have "butlast (vs[j := last vs]) = swap_remove (h, t) vs"
      using swap_remove_at [OF j(1)] m j(2) by simp
    finally have tb: "?tb = swap_remove (h, t) vs @ no_handle # rest" by simp
    have d: "distinct vs" using r(4) by (simp add: distinct_map)
    then have s: "set (swap_remove (h, t) vs) = set vs - {(h, t)}" "distinct (swap_remove (h, t) vs)"
      by (simp_all add: set_swap_remove distinct_swap_remove)
    moreover have "inj_on fst (set vs)" using r(4) by (simp add: distinct_map)
    ultimately have "distinct (map fst (swap_remove (h, t) vs))"
      by (auto simp: distinct_map intro: inj_on_subset)
    moreover have "length ?tb = MAX_NETWORK_HANDLES" using r by simp
    moreover have len: "Suc (length (swap_remove (h, t) vs)) = length vs"
      using lv True by (simp add: length_swap_remove)
    ultimately have "table_holds ?tb (swap_remove (h, t) vs)"
      using tb r s len by (auto simp: table_holds_def no_handle_def)
    moreover have "(let (d, n, c) = scan_handles t h 0 MAX_NETWORK_HANDLES 0 tb
        in delete_handle d (if n > 0 then n - 1 else n) tb) = ?tb"
      using sc True lv jm by (simp add: r(1) delete_handle_def flip: j_def)
    ultimately show ?thesis by simp
  qed
qed

section \<open>Events\<close>

record network_event =
  ev_connected :: bool
  ev_type :: int
  ev_handle :: u64
  ev_apn :: string
  ev_roaming :: bool

definition network_item :: "int \<Rightarrow> network_event \<Rightarrow> network_info item" where
  "network_item now e = \<lparr>mUtcTime = now, mUtcReported = now,
     payload = status_network_info (ev_type e) [] [] (ev_connected e) (ev_roaming e) (ev_handle e) (ev_apn e)\<rparr>"

definition cached_network :: "network_info item list \<Rightarrow> network_info" where
  "cached_network r = payload (last r)"

text \<open>What an event makes of the set of the entries, peculiarities of the code included.\<close>

definition event_spec :: "network_event \<Rightarrow> handle_entry set \<Rightarrow> handle_entry set" where
  "event_spec e S =
     (if ev_connected e then
        (if ev_handle e \<in> fst ` S \<or> card S = MAX_NETWORK_HANDLES then S else insert (ev_handle e, ev_type e) S)
      else if typeToAllTypes (ev_type e) \<noteq> 0 then S - {(ev_handle e, ev_type e)}
      else S)"

lemma collate_table:
  assumes "table_holds (mAllNetworkHandles cur) vs" "ev_handle e \<noteq> NETWORK_HANDLE_UNKNOWN"
  shows "\<exists>ws. table_holds (mAllNetworkHandles (collate_network (payload (network_item now e)) cur)) ws
    \<and> set ws = event_spec e (set vs)"
proof -
  have d: "distinct vs" using assms(1) by (simp add: table_holds_def distinct_map)
  note add = add_handle_holds [OF assms, of "ev_type e"]
  note del = delete_handle_holds [OF assms(1), of "ev_type e" "ev_handle e"]
  consider "ev_connected e" | "\<not> ev_connected e" "typeToAllTypes (ev_type e) \<noteq> 0"
    | "\<not> ev_connected e" "typeToAllTypes (ev_type e) = 0" by blast
  then show ?thesis
  proof cases
    case 1
    let ?ws = "if ev_handle e \<in> fst ` set vs \<or> length vs = MAX_NETWORK_HANDLES then vs else vs @ [(ev_handle e, ev_type e)]"
    have "mAllNetworkHandles (collate_network (payload (network_item now e)) cur)
        = add_handle (ev_handle e) (ev_type e) (mAllNetworkHandles cur)"
      using 1 by (simp add: collate_network_def network_item_def status_network_info_def
          new_network_info_def Let_def)
    moreover have "set ?ws = event_spec e (set vs)" using 1 d by (auto simp: event_spec_def distinct_card)
    ultimately show ?thesis using add by auto
  next
    case 2
    have "mAllNetworkHandles (collate_network (payload (network_item now e)) cur)
        = (let (d, n, c) = scan_handles (ev_type e) (ev_handle e) 0 MAX_NETWORK_HANDLES 0 (mAllNetworkHandles cur)
           in delete_handle d (if n > 0 then n - 1 else n) (mAllNetworkHandles cur))"
      using 2 by (simp add: collate_network_def network_item_def status_network_info_def
          new_network_info_def Let_def split_beta)
    with 2 del d show ?thesis by (auto simp: event_spec_def set_swap_remove)
  next
    case 3
    with assms(1) show ?thesis
      by (intro exI [of _ vs]) (simp add: collate_network_def network_item_def status_network_info_def
          new_network_info_def Let_def event_spec_def)
  qed
qed

lemma network_step:
  assumes "r \<noteq> []" "table_holds (mAllNetworkHandles (cached_network r)) vs"
    "ev_handle e \<noteq> NETWORK_HANDLE_UNKNOWN"
  shows "snd (setIteminReport network_class r (network_item now e)) \<noteq> []
    \<and> (\<exists>ws. table_holds (mAllNetworkHandles (cached_network (snd (setIteminReport network_class r (network_item now e))))) ws
         \<and> set ws = event_spec e (set vs))"
proof -
  from collate_table [OF assms(2,3), of now] obtain ws where
    w: "table_holds (mAllNetworkHandles (collate_network (payload (network_item now e)) (cached_network r))) ws"
      "set ws = event_spec e (set vs)" by blast
  show ?thesis
  proof (cases "equals_network (cached_network r) (collate_network (payload (network_item now e)) (cached_network r))")
    case True
    with w assms(1) show ?thesis
      by (auto simp: setIteminReport_def network_class_def item_base_def cached_network_def Let_def equals_network_def)
  next
    case False
    with w assms(1) show ?thesis
      by (auto simp: setIteminReport_def network_class_def item_base_def cached_network_def Let_def)
  qed
qed

lemma network_table_entries:
  assumes "ev_connected e0" "\<forall>e\<in>set (e0 # es). ev_handle e \<noteq> NETWORK_HANDLE_UNKNOWN"
  shows "let tb = mAllNetworkHandles (cached_network (history network_class (map (network_item now) (e0 # es))))
    in set (networks tb) = fold event_spec (e0 # es) {} \<and> distinct (map fst (networks tb))"
proof -
  let ?h = "\<lambda>es. history network_class (map (network_item now) (e0 # es))"
  have "?h es \<noteq> [] \<and> (\<exists>vs. table_holds (mAllNetworkHandles (cached_network (?h es))) vs
      \<and> set vs = fold event_spec (e0 # es) {})"
    using assms(2)
  proof (induction es rule: rev_induct)
    case Nil
    have "table_holds (mAllNetworkHandles (cached_network (?h []))) [(ev_handle e0, ev_type e0)]"
      using Nil by (auto simp: history_def setIteminReport_def network_class_def item_base_def cached_network_def
          network_item_def status_network_info_def new_network_info_def table_holds_def no_handle_def
          MAX_NETWORK_HANDLES_def)
    moreover have "?h [] \<noteq> []"
      by (simp add: history_def setIteminReport_def network_class_def item_base_def)
    moreover have "event_spec e0 {} = {(ev_handle e0, ev_type e0)}"
      using assms(1) by (simp add: event_spec_def MAX_NETWORK_HANDLES_def)
    ultimately show ?case by (intro conjI exI [of _ "[(ev_handle e0, ev_type e0)]"]) simp_all
  next
    case (snoc e es)
    then obtain vs where vs: "?h es \<noteq> []" "table_holds (mAllNetworkHandles (cached_network (?h es))) vs"
      "set vs = fold event_spec (e0 # es) {}" by auto
    have "?h (es @ [e]) = snd (setIteminReport network_class (?h es) (network_item now e))"
      using history_snoc [of network_class "map (network_item now) (e0 # es)" "network_item now e"] by simp
    with network_step [OF vs(1,2), of e now] snoc.prems vs(3) show ?case by simp
  qed
  then obtain vs where vs: "table_holds (mAllNetworkHandles (cached_network (?h es))) vs"
    "set vs = fold event_spec (e0 # es) {}" by blast
  then show ?thesis using table_holds_networks [OF vs(1)] by (auto simp: Let_def table_holds_def)
qed

section \<open>The networks that are up\<close>

text \<open>A network is up when the last of its events says that it is connected.\<close>

definition is_up :: "u64 \<Rightarrow> network_event list \<Rightarrow> bool" where
  "is_up h es \<longleftrightarrow> (case rev (filter (\<lambda>e. ev_handle e = h) es) of [] \<Rightarrow> False | e # _ \<Rightarrow> ev_connected e)"

lemma is_up_simps [simp]:
  "\<not> is_up h []" "is_up h (es @ [e]) = (if ev_handle e = h then ev_connected e else is_up h es)"
  by (simp_all add: is_up_def)

lemma is_up_known: "is_up h es \<Longrightarrow> h \<in> ev_handle ` set es"
  by (induction es rule: rev_induct) (auto split: if_splits)

lemma finite_up: "finite {h. is_up h es}"
  by (rule finite_subset [of _ "ev_handle ` set es"]) (auto dest: is_up_known)

lemma entries_are_up:
  assumes "\<forall>e\<in>set es. ev_type e = ty (ev_handle e) \<and> typeToAllTypes (ev_type e) \<noteq> 0"
    "\<forall>n. card {h. is_up h (take n es)} \<le> MAX_NETWORK_HANDLES"
  shows "fold event_spec es {} = (\<lambda>h. (h, ty h)) ` {h. is_up h es}"
  using assms
proof (induction es rule: rev_induct)
  case (snoc e es)
  let ?up = "{h. is_up h es}" and ?S = "(\<lambda>h. (h, ty h)) ` {h. is_up h es}"
  have "card {h. is_up h (take n es)} \<le> MAX_NETWORK_HANDLES" for n
    using snoc.prems(2) [rule_format, of "min n (length es)"] by (simp add: min_def take_append split: if_splits)
  moreover have "\<forall>e\<in>set es. ev_type e = ty (ev_handle e) \<and> typeToAllTypes (ev_type e) \<noteq> 0"
    using snoc.prems(1) unfolding set_append by blast
  ultimately have IH: "fold event_spec es {} = ?S" using snoc.IH by blast
  have e: "ev_type e = ty (ev_handle e)" "typeToAllTypes (ev_type e) \<noteq> 0" using snoc.prems(1) by (meson in_set_conv_decomp)+
  have card: "card ?S = card ?up" by (intro card_image inj_onI) simp
  have fst: "fst ` ?S = ?up" by force
  have "event_spec e ?S = (\<lambda>h. (h, ty h)) ` {h. is_up h (es @ [e])}"
  proof (cases "ev_connected e")
    case True
    then have u: "{h. is_up h (es @ [e])} = insert (ev_handle e) ?up" by auto
    have "card ?up \<noteq> MAX_NETWORK_HANDLES" if "ev_handle e \<notin> ?up"
      using snoc.prems(2) [rule_format, of "Suc (length es)"] that finite_up [of es] by (simp add: u del: is_up_simps(2))
    then show ?thesis unfolding u event_spec_def fst card using True e(1) by auto
  next
    case False
    then have u: "{h. is_up h (es @ [e])} = ?up - {ev_handle e}" by auto
    show ?thesis unfolding u event_spec_def using False e by auto
  qed
  with IH show ?case by simp
qed simp

text \<open>
  C7: After a first event that a network is connected, the table of the cached item holds exactly
  the networks that are up, those whose last event says so, each once and with its type, as
  long as no event has the unknown handle, every network keeps its type and has one of the ten
  known types, and no more than ten are up at a time.  (An event of an unknown type never removes
  an entry, an eleventh network is dropped, and a first event of a network that is down is
  entered.)
\<close>

theorem network_table_has_networks_up:
  assumes "ev_connected e0" "\<forall>e\<in>set (e0 # es). ev_handle e \<noteq> NETWORK_HANDLE_UNKNOWN"
    "\<forall>e\<in>set (e0 # es). ev_type e = ty (ev_handle e) \<and> TYPE_MOBILE \<le> ev_type e \<and> ev_type e < TYPE_UNKNOWN"
    "\<forall>n. card {h. is_up h (take n (e0 # es))} \<le> MAX_NETWORK_HANDLES"
  shows "let tb = mAllNetworkHandles (cached_network (history network_class (map (network_item now) (e0 # es))))
    in (\<forall>h t. (h, t) \<in> set (networks tb) \<longleftrightarrow> is_up h (e0 # es) \<and> t = ty h) \<and> distinct (map fst (networks tb))"
proof -
  have "push_bit n (1 :: u64) \<noteq> 0" if "n < 10" for n
  proof -
    have b: "bit (push_bit n (1 :: u64)) n" using that by (simp add: push_bit_eq_mult bit_exp_iff)
    show ?thesis
    proof
      assume "push_bit n (1 :: u64) = 0"
      with b show False unfolding \<open>push_bit n (1 :: u64) = 0\<close> by simp
    qed
  qed
  then have "\<forall>e\<in>set (e0 # es). ev_type e = ty (ev_handle e) \<and> typeToAllTypes (ev_type e) \<noteq> 0"
    using assms(3) by (auto simp: typeToAllTypes_def TYPE_UNKNOWN_def TYPE_MOBILE_def)
  from entries_are_up [OF this assms(4)] network_table_entries [OF assms(1,2), of now] show ?thesis
    by (auto simp: Let_def)
qed

definition up :: "int \<Rightarrow> u64 \<Rightarrow> network_event" where
  "up t h = \<lparr>ev_connected = True, ev_type = t, ev_handle = h, ev_apn = [], ev_roaming = False\<rparr>"

definition down :: "int \<Rightarrow> u64 \<Rightarrow> network_event" where
  "down t h = \<lparr>ev_connected = False, ev_type = t, ev_handle = h, ev_apn = [], ev_roaming = False\<rparr>"

theorem network_table_has_networks_up_witness:
  "\<forall>h t. (h, t) \<in> set (networks (mAllNetworkHandles (cached_network (history network_class
     (map (network_item 9) [up 1 11, up 0 12, up 0 13, down 1 11]))))) \<longleftrightarrow> (h, t) \<in> {(12, 0), (13, 0)}"
proof -
  let ?es = "[up 1 11, up 0 12, up 0 13, down 1 11]" and ?ty = "\<lambda>h :: u64. if h = 11 then 1 else 0 :: int"
  have "card {h. is_up h (take n ?es)} \<le> MAX_NETWORK_HANDLES" for n
  proof -
    have "{h. is_up h (take n ?es)} \<subseteq> {11, 12, 13}"
      using in_set_takeD [of _ n ?es] by (fastforce dest!: is_up_known simp: up_def down_def)
    from card_mono [OF _ this] show ?thesis by (simp add: MAX_NETWORK_HANDLES_def)
  qed
  moreover have "is_up h ?es \<longleftrightarrow> h = 12 \<or> h = 13" for h by (auto simp: is_up_def up_def down_def)
  ultimately show ?thesis
    using network_table_has_networks_up [of "up 1 11" "[up 0 12, up 0 13, down 1 11]" ?ty 9]
    by (simp add: up_def down_def NETWORK_HANDLE_UNKNOWN_def TYPE_MOBILE_def TYPE_UNKNOWN_def Let_def) auto
qed

text \<open>
  When one of several networks of a type goes down, the mask of all types becomes the type
  of that network alone: the types of the other networks that are up are lost.
\<close>

theorem disconnect_forgets_other_types:
  assumes "table_holds (mAllNetworkHandles cur) vs" "typeToAllTypes t \<noteq> 0" "(h', t) \<in> set vs" "h' \<noteq> h"
  shows "mAllTypes (collate_network (status_network_info t tn sn False roaming h apn) cur) = typeToAllTypes t"
proof -
  from assms(1) obtain rest where r: "mAllNetworkHandles cur = vs @ rest"
    "\<forall>p\<in>set rest. fst p = NETWORK_HANDLE_UNKNOWN"
    "\<forall>p\<in>set vs. fst p \<noteq> NETWORK_HANDLE_UNKNOWN" "distinct (map fst vs)"
    by (auto simp: table_holds_def)
  have "filter (\<lambda>p. snd p = t \<and> fst p \<noteq> h) vs \<noteq> []" using assms(3,4) by (force simp: filter_empty_conv)
  then have "snd (snd (scan_handles t h 0 MAX_NETWORK_HANDLES 0 (vs @ rest))) \<noteq> 0"
    by (simp add: scan_append [OF r(3,2,4)])
  with assms(2) show ?thesis
    by (cases "t = TYPE_MOBILE")
      (simp_all add: collate_network_def status_network_info_def new_network_info_def Let_def r(1) split_beta)
qed

definition wifi_and_two_mobile :: network_info where
  "wifi_and_two_mobile = (status_network_info 0 [] [] True False 13 [])\<lparr>mAllTypes := 3,
     mAllNetworkHandles := [(11, 1), (12, 0), (13, 0)] @ replicate 7 no_handle\<rparr>"

theorem disconnect_forgets_other_types_witness:
  "mAllTypes (collate_network (status_network_info 0 [] [] False False 13 []) wifi_and_two_mobile) = 1"
proof -
  have "table_holds (mAllNetworkHandles wifi_and_two_mobile) [(11, 1), (12, 0), (13, 0)]"
    by (auto simp: table_holds_def wifi_and_two_mobile_def MAX_NETWORK_HANDLES_def no_handle_def
        NETWORK_HANDLE_UNKNOWN_def)
  from disconnect_forgets_other_types [OF this, of 0 12 13] show ?thesis
    by (simp add: typeToAllTypes_def TYPE_UNKNOWN_def TYPE_MOBILE_def)
qed

text \<open>A network whose first event says that it is down is entered into the empty cache as if it
  were up.\<close>

lemma first_disconnect_is_entered:
  "networks (mAllNetworkHandles (cached_network (history network_class [network_item now (down 1 11)]))) = [(11, 1)]"
  by (simp add: history_def setIteminReport_def network_class_def item_base_def cached_network_def networks_def
      network_item_def status_network_info_def new_network_info_def no_handle_def MAX_NETWORK_HANDLES_def down_def
      NETWORK_HANDLE_UNKNOWN_def)

section \<open>What the history keeps\<close>

definition enter_network :: "int \<Rightarrow> network_event \<Rightarrow> network_info item list \<Rightarrow> network_info item list" where
  "enter_network now e r = snd (setIteminReport network_class r (network_item now e))"

text \<open>A network stays in the table through the events of other networks.\<close>

lemma networks_kept:
  assumes "r \<noteq> []" "table_holds (mAllNetworkHandles (cached_network r)) vs" "(h, t) \<in> set vs"
    "\<forall>e\<in>set es. ev_handle e \<noteq> h \<and> ev_handle e \<noteq> NETWORK_HANDLE_UNKNOWN"
  shows "(h, t) \<in> set (networks (mAllNetworkHandles (cached_network (fold (enter_network now) es r))))"
  using assms
proof (induction es arbitrary: r vs)
  case Nil
  then show ?case by (simp add: table_holds_networks)
next
  case (Cons e es)
  from network_step [OF Cons.prems(1,2), of e now] Cons.prems(4) obtain ws where
    w: "enter_network now e r \<noteq> []" "table_holds (mAllNetworkHandles (cached_network (enter_network now e r))) ws"
      "set ws = event_spec e (set vs)" by (auto simp: enter_network_def)
  then have "(h, t) \<in> set ws" using Cons.prems(3,4) by (auto simp: event_spec_def)
  from Cons.IH [OF w(1,2) this] Cons.prems(4) show ?case by simp
qed

text \<open>Networks that come up one after the other: the table has all, the history the last five.\<close>

lemma ups_history:
  fixes now t
  assumes "hs \<noteq> []" "distinct hs" "length hs \<le> MAX_NETWORK_HANDLES" "NETWORK_HANDLE_UNKNOWN \<notin> set hs"
  defines "r \<equiv> fold (enter_network now) (map (up t) hs) []"
  shows "map (\<lambda>i. mNetworkHandle (payload i)) r = last_n maxItem hs \<and>
    (\<exists>vs. table_holds (mAllNetworkHandles (cached_network r)) vs \<and> set vs = (\<lambda>h. (h, t)) ` set hs)"
  using assms(1-4) unfolding r_def
proof (induction hs rule: rev_nonempty_induct)
  case (single h)
  then have "table_holds (mAllNetworkHandles (cached_network (enter_network now (up t h) []))) [(h, t)]"
    by (auto simp: enter_network_def setIteminReport_def network_class_def item_base_def cached_network_def
        network_item_def status_network_info_def new_network_info_def table_holds_def no_handle_def
        MAX_NETWORK_HANDLES_def up_def)
  moreover have "map (\<lambda>i. mNetworkHandle (payload i)) (enter_network now (up t h) []) = [h]"
    by (simp add: enter_network_def setIteminReport_def network_class_def item_base_def push_item_def maxItem_def
        network_item_def status_network_info_def new_network_info_def up_def)
  ultimately show ?case by (simp add: last_n_def maxItem_def) (metis list.set(1) list.simps(15))
next
  case (snoc h hs)
  let ?r = "fold (enter_network now) (map (up t) hs) []" and ?new = "payload (network_item now (up t h))"
  from snoc obtain vs where vs: "map (\<lambda>i. mNetworkHandle (payload i)) ?r = last_n maxItem hs"
    "table_holds (mAllNetworkHandles (cached_network ?r)) vs" "set vs = (\<lambda>h. (h, t)) ` set hs" by auto
  have m: "0 < maxItem" by (simp add: maxItem_def)
  have ne: "?r \<noteq> []" using vs(1) snoc.hyps m by (metis last_n_empty list.map_disc_iff)
  have hu: "ev_handle (up t h) \<noteq> NETWORK_HANDLE_UNKNOWN" using snoc.prems by (auto simp: up_def)
  have "card (set vs) = length hs"
    using vs(3) snoc.prems by (simp add: card_image inj_on_def distinct_card)
  then have spec: "event_spec (up t h) (set vs) = insert (h, t) (set vs)" and new: "(h, t) \<notin> set vs"
    using vs(3) snoc.prems by (auto simp: event_spec_def up_def)
  from network_step [OF ne vs(2) hu, of now] spec obtain ws where
    w: "table_holds (mAllNetworkHandles (cached_network (enter_network now (up t h) ?r))) ws"
      "set ws = insert (h, t) (set vs)" by (auto simp: enter_network_def)
  have "mAllNetworkHandles (cached_network (enter_network now (up t h) ?r)) \<noteq> mAllNetworkHandles (cached_network ?r)"
    using w vs(2) new by (metis insertI1 table_holds_networks)
  then have "\<not> equals_network (cached_network ?r) (collate_network ?new (cached_network ?r))"
    using ne by (auto simp: enter_network_def setIteminReport_def network_class_def item_base_def cached_network_def Let_def)
  moreover have "mNetworkHandle (collate_network ?new c) = h" for c
    by (simp add: collate_network_def network_item_def status_network_info_def new_network_info_def up_def Let_def
        split_beta)
  ultimately have "map (\<lambda>i. mNetworkHandle (payload i)) (enter_network now (up t h) ?r) = last_n maxItem (hs @ [h])"
    using ne vs(1) m by (simp add: enter_network_def setIteminReport_def network_class_def item_base_def
        cached_network_def Let_def push_item_def last_n_snoc map_tl flip: vs(1))
  with w vs(3) show ?case by auto
qed

end
