(* ===== verification/SystemStatus.thy ===== *)
theory SystemStatus
  imports SsReports NetworkInfo Steps
begin

text \<open>
  \<^verbatim>\<open>gps/core/SystemStatus.cpp\<close>, class \<open>SystemStatus\<close>: the cache of what the engine and the
  framework reported, one bounded history per kind of item, and its operations.

  \<open>clk\<close> gives the time at which each of the items of an operation is made.  The data items that
  an operation hands to the OS observer are its result; the observer calls
  \<open>eventDataItemNotify\<close> with each of them.  The mutex makes each operation one step.
\<close>

section \<open>Data\<close>

type_synonym time_change = "int \<times> u32 \<times> u32"

record wifi_status =
  mState :: nat
  mApMacAddressValid :: bool
  mApMacAddress :: "8 word list"
  mWifiApSsidValid :: bool
  mWifiApSsid :: string

definition wifi_class :: "wifi_status item_class" where
  "wifi_class = item_base (\<lambda>a b. mState a = mState b \<and> mApMacAddressValid a = mApMacAddressValid b
     \<and> mWifiApSsidValid a = mWifiApSsidValid b \<and> mWifiApSsid a = mWifiApSsid b)"

text \<open>Items that hold one value and compare it.\<close>

definition value_class :: "'a item_class" where "value_class = item_base (=)"

definition err_class :: "err_recovery item_class" where
  "err_class = (item_base equals_err_recovery)\<lparr>ignore_item := ignore_err_recovery\<rparr>"

text \<open>The reports of the engine, and those of the observer of data items.  The services and cells
  of the radio are compared by the address of their data.\<close>

record 'l engine_reports =
  mLocation :: "'l loc_item item list"
  mTimeAndClock :: "time_and_clock item list"
  mXoState :: "xo_state item list"
  mRfAndParams :: "rf_and_params item list"
  mErrRecovery :: "err_recovery item list"
  mInjectedPosition :: "injected_position item list"
  mBestPosition :: "best_position item list"
  mXtra :: "xtra item list"
  mEphemeris :: "ephemeris item list"
  mSvHealth :: "sv_health item list"
  mPdr :: "pdr item list"
  mNavData :: "nav list item list"
  mPositionFailure :: "position_failure item list"

record 'l reports = "'l engine_reports" +
  mAirplaneMode :: "bool item list"
  mENH :: "enh_item item list"
  mGPSState :: "bool item list"
  mNLPStatus :: "bool item list"
  mWifiHardwareState :: "bool item list"
  mNetworkInfo :: "network_info item list"
  mRilServiceInfo :: "addr item list"
  mRilCellInfo :: "addr item list"
  mServiceStatus :: "u32 item list"
  mModel :: "string item list"
  mManufacturer :: "string item list"
  mInEmergencyCall :: "bool item list"
  mAssistedGps :: "bool item list"
  mScreenState :: "bool item list"
  mPowerConnectState :: "bool item list"
  mTimeZoneChange :: "time_change item list"
  mTimeChange :: "time_change item list"
  mWifiSupplicantStatus :: "wifi_status item list"
  mShutdownState :: "bool item list"
  mTac :: "string item list"
  mMccMnc :: "string item list"
  mPreciseLocationEnabled :: "bool item list"
  mTrackingStarted :: "bool item list"
  mNtripStarted :: "bool item list"
  mLocFeatureStatus :: "int set item list"
  mNlpSessionStarted :: "bool item list"

record 'l system_status =
  mCache :: "'l reports"
  mTracking :: bool

text \<open>The memory in which the parsers and the structures are made.\<close>

record memory =
  mem_m1 :: pqwm1
  mem_p1 :: pqwp1
  mem_p2 :: pqwp2
  mem_p3 :: pqwp3
  mem_p4 :: pqwp4
  mem_p5 :: pqwp5
  mem_p6 :: pqwp6
  mem_p7 :: "nav list"
  mem_s1 :: pqws1

datatype data_item =
    AirplaneModeItem bool
  | ENHItem enh_item
  | GPSStateItem bool
  | NLPStatusItem bool
  | WifiHardwareStateItem bool
  | NetworkInfoItem network_info
  | RilServiceInfoItem addr
  | RilCellInfoItem addr
  | ServiceStatusItem u32
  | ModelItem string
  | ManufacturerItem string
  | InEmergencyCallItem bool
  | AssistedGpsItem bool
  | ScreenStateItem bool
  | PowerConnectStateItem bool
  | TimeZoneChangeItem time_change
  | TimeChangeItem time_change
  | WifiSupplicantStatusItem wifi_status
  | ShutdownStateItem bool
  | TacItem string
  | MccMncItem string
  | TrackingStartedItem bool
  | NtripStartedItem bool
  | PreciseLocationEnabledItem bool
  | LocFeatureStatusItem "int set"
  | NlpSessionStartedItem bool

definition new_system_status :: "'l system_status" where
  "new_system_status = \<lparr>mCache = \<lparr>mLocation = [], mTimeAndClock = [], mXoState = [], mRfAndParams = [], mErrRecovery = [],
     mInjectedPosition = [], mBestPosition = [], mXtra = [], mEphemeris = [], mSvHealth = [],
     mPdr = [], mNavData = [], mPositionFailure = [], mAirplaneMode = [], mENH = [],
     mGPSState = [], mNLPStatus = [], mWifiHardwareState = [], mNetworkInfo = [],
     mRilServiceInfo = [], mRilCellInfo = [], mServiceStatus = [], mModel = [],
     mManufacturer = [], mInEmergencyCall = [], mAssistedGps = [], mScreenState = [],
     mPowerConnectState = [], mTimeZoneChange = [], mTimeChange = [],
     mWifiSupplicantStatus = [], mShutdownState = [], mTac = [], mMccMnc = [],
     mPreciseLocationEnabled = [], mTrackingStarted = [], mNtripStarted = [],
     mLocFeatureStatus = [], mNlpSessionStarted = []\<rparr>, mTracking = False\<rparr>"

section \<open>Storing\<close>

text \<open>An item made now is entered into one history of the cache.\<close>

definition set_in :: "('c \<Rightarrow> 'a item list) \<Rightarrow> (('a item list \<Rightarrow> 'a item list) \<Rightarrow> 'c \<Rightarrow> 'c) \<Rightarrow> 'a item_class
    \<Rightarrow> int \<Rightarrow> 'a \<Rightarrow> 'c \<Rightarrow> bool \<times> 'c" where
  "set_in get_field update_field k now x c =
     (let (ret, r) = setIteminReport k (get_field c) \<lparr>mUtcTime = now, mUtcReported = now, payload = x\<rparr>
      in (ret, update_field (\<lambda>_. r) c))"

definition set_default :: "('c \<Rightarrow> 'a item list) \<Rightarrow> (('a item list \<Rightarrow> 'a item list) \<Rightarrow> 'c \<Rightarrow> 'c) \<Rightarrow> int \<Rightarrow> 'a \<Rightarrow> 'c \<Rightarrow> 'c" where
  "set_default get_field update_field now x c =
     update_field (\<lambda>_. setDefaultIteminReport (get_field c) \<lparr>mUtcTime = now, mUtcReported = now, payload = x\<rparr>) c"

text \<open>The four items of the first sentence.\<close>

definition set_m1 :: "(nat \<Rightarrow> int) \<Rightarrow> pqwm1 \<Rightarrow> 'l reports \<Rightarrow> 'l reports" where
  "set_m1 clk s c =
     (let c = snd (set_in mTimeAndClock mTimeAndClock_update (item_base equals_time_and_clock) (clk 0) (SystemStatusTimeAndClock s) c);
          c = snd (set_in mXoState mXoState_update (item_base equals_xo_state) (clk 1) (SystemStatusXoState s) c);
          c = snd (set_in mRfAndParams mRfAndParams_update (item_base equals_rf_and_params) (clk 2) (SystemStatusRfAndParams s) c)
      in snd (set_in mErrRecovery mErrRecovery_update err_class (clk 3) (SystemStatusErrRecovery s) c))"

text \<open>Whether the text starts with the six characters of a sentence.\<close>

definition is_sentence :: "string \<Rightarrow> string \<Rightarrow> bool" where
  "is_sentence data name \<longleftrightarrow> take DEBUG_NMEA_MINSIZE data = name"

definition setNmeaString :: "(string \<Rightarrow> flt) \<Rightarrow> (nat \<Rightarrow> int) \<Rightarrow> memory \<Rightarrow> string \<Rightarrow> nat \<Rightarrow> 'l system_status
    \<Rightarrow> bool \<times> 'l system_status" where
  "setNmeaString atof clk mem data len s =
     (if \<not> loc_nmea_is_debug data len then (False, s)
      else let
        buf = take DEBUG_NMEA_MAXSIZE data;
        fields = nmea_fields buf len;
        c = mCache s
      in (True, s\<lparr>mCache :=
        (if is_sentence data ''$PQWM1'' then set_m1 clk (parse_PQWM1 fields) c
         else if is_sentence data ''$PQWP1'' then
           snd (set_in mInjectedPosition mInjectedPosition_update (item_base equals_injected_position) (clk 0)
             (SystemStatusInjectedPosition (parse_PQWP1 atof (mem_p1 mem) fields)) c)
         else if is_sentence data ''$PQWP2'' then
           snd (set_in mBestPosition mBestPosition_update (item_base equals_best_position) (clk 0)
             (SystemStatusBestPosition (parse_PQWP2 atof (mem_p2 mem) fields)) c)
         else if is_sentence data ''$PQWP3'' then
           snd (set_in mXtra mXtra_update (item_base equals_xtra) (clk 0)
             (SystemStatusXtra (parse_PQWP3 (mem_p3 mem) fields)) c)
         else if is_sentence data ''$PQWP4'' then
           snd (set_in mEphemeris mEphemeris_update (item_base equals_ephemeris) (clk 0)
             (SystemStatusEphemeris (parse_PQWP4 (mem_p4 mem) fields)) c)
         else if is_sentence data ''$PQWP5'' then
           snd (set_in mSvHealth mSvHealth_update (item_base equals_sv_health) (clk 0)
             (SystemStatusSvHealth (parse_PQWP5 (mem_p5 mem) fields)) c)
         else if is_sentence data ''$PQWP6'' then
           snd (set_in mPdr mPdr_update (item_base equals_pdr) (clk 0)
             (SystemStatusPdr (parse_PQWP6 (mem_p6 mem) fields)) c)
         else if is_sentence data ''$PQWP7'' then
           snd (set_in mNavData mNavData_update (item_base equals_nav_data) (clk 0)
             (SystemStatusNavData (parse_PQWP7 (mem_p7 mem) fields)) c)
         else if is_sentence data ''$PQWS1'' then
           snd (set_in mPositionFailure mPositionFailure_update (item_base equals_position_failure) (clk 0)
             (SystemStatusPositionFailure (parse_PQWS1 (mem_s1 mem) fields)) c)
         else c)\<rparr>))"

text \<open>\<open>None\<close> is the access behind the jammer values.\<close>

definition setEngineDebugDataInfo :: "(flt \<Rightarrow> u32) \<Rightarrow> (flt \<Rightarrow> u64) \<Rightarrow> (nat \<Rightarrow> int) \<Rightarrow> memory \<Rightarrow> debug_info
    \<Rightarrow> 'l system_status \<Rightarrow> 'l system_status option" where
  "setEngineDebugDataInfo to_int unc_ns clk mem info s = do {
     m1 \<leftarrow> PQWM1_from to_int unc_ns (mem_m1 mem) info;
     let c = set_m1 clk m1 (mCache s);
     let c = snd (set_in mInjectedPosition mInjectedPosition_update (item_base equals_injected_position) (clk 4) (SystemStatusInjectedPosition (PQWP1_from info)) c);
     let c = snd (set_in mBestPosition mBestPosition_update (item_base equals_best_position) (clk 5) (SystemStatusBestPosition (PQWP2_from info)) c);
     let c = snd (set_in mXtra mXtra_update (item_base equals_xtra) (clk 6) (SystemStatusXtra (PQWP3_from info)) c);
     let c = snd (set_in mEphemeris mEphemeris_update (item_base equals_ephemeris) (clk 7) (SystemStatusEphemeris (PQWP4_from info)) c);
     let c = snd (set_in mSvHealth mSvHealth_update (item_base equals_sv_health) (clk 8) (SystemStatusSvHealth (PQWP5_from info)) c);
     let c = snd (set_in mPdr mPdr_update (item_base equals_pdr) (clk 9) (SystemStatusPdr (PQWP6_from info)) c);
     let c = snd (set_in mNavData mNavData_update (item_base equals_nav_data) (clk 10) (SystemStatusNavData (PQWP7_from (mem_p7 mem) info)) c);
     let c = snd (set_in mPositionFailure mPositionFailure_update (item_base equals_position_failure) (clk 11) (SystemStatusPositionFailure (PQWS1_from info)) c);
     Some (s\<lparr>mCache := c\<rparr>) }"

definition eventPosition :: "(nat \<Rightarrow> int) \<Rightarrow> 'l loc_item \<Rightarrow> 'l system_status \<Rightarrow> bool \<times> 'l system_status" where
  "eventPosition clk item s =
     (let (ret, c) = set_in mLocation mLocation_update (item_base equals_location) (clk 0) item (mCache s)
      in (ret, s\<lparr>mCache := c\<rparr>))"

definition store_item :: "(nat \<Rightarrow> int) \<Rightarrow> data_item \<Rightarrow> 'l reports \<Rightarrow> bool \<times> 'l reports" where
  "store_item clk di c = (case di of
       AirplaneModeItem x \<Rightarrow> set_in mAirplaneMode mAirplaneMode_update value_class (clk 0) x c
     | ENHItem x \<Rightarrow> set_in mENH mENH_update enh_class (clk 0) x c
     | GPSStateItem x \<Rightarrow> set_in mGPSState mGPSState_update value_class (clk 0) x c
     | NLPStatusItem x \<Rightarrow> set_in mNLPStatus mNLPStatus_update value_class (clk 0) x c
     | WifiHardwareStateItem x \<Rightarrow> set_in mWifiHardwareState mWifiHardwareState_update value_class (clk 0) x c
     | NetworkInfoItem x \<Rightarrow> set_in mNetworkInfo mNetworkInfo_update network_class (clk 0) x c
     | RilServiceInfoItem x \<Rightarrow> set_in mRilServiceInfo mRilServiceInfo_update value_class (clk 0) x c
     | RilCellInfoItem x \<Rightarrow> set_in mRilCellInfo mRilCellInfo_update value_class (clk 0) x c
     | ServiceStatusItem x \<Rightarrow> set_in mServiceStatus mServiceStatus_update value_class (clk 0) x c
     | ModelItem x \<Rightarrow> set_in mModel mModel_update value_class (clk 0) x c
     | ManufacturerItem x \<Rightarrow> set_in mManufacturer mManufacturer_update value_class (clk 0) x c
     | InEmergencyCallItem x \<Rightarrow> set_in mInEmergencyCall mInEmergencyCall_update value_class (clk 0) x c
     | AssistedGpsItem x \<Rightarrow> set_in mAssistedGps mAssistedGps_update value_class (clk 0) x c
     | ScreenStateItem x \<Rightarrow> set_in mScreenState mScreenState_update value_class (clk 0) x c
     | PowerConnectStateItem x \<Rightarrow> set_in mPowerConnectState mPowerConnectState_update value_class (clk 0) x c
     | TimeZoneChangeItem x \<Rightarrow> set_in mTimeZoneChange mTimeZoneChange_update value_class (clk 0) x c
     | TimeChangeItem x \<Rightarrow> set_in mTimeChange mTimeChange_update value_class (clk 0) x c
     | WifiSupplicantStatusItem x \<Rightarrow> set_in mWifiSupplicantStatus mWifiSupplicantStatus_update wifi_class (clk 0) x c
     | ShutdownStateItem x \<Rightarrow> set_in mShutdownState mShutdownState_update value_class (clk 0) x c
     | TacItem x \<Rightarrow> set_in mTac mTac_update value_class (clk 0) x c
     | MccMncItem x \<Rightarrow> set_in mMccMnc mMccMnc_update value_class (clk 0) x c
     | TrackingStartedItem x \<Rightarrow> set_in mTrackingStarted mTrackingStarted_update value_class (clk 0) x c
     | NtripStartedItem x \<Rightarrow> set_in mNtripStarted mNtripStarted_update value_class (clk 0) x c
     | PreciseLocationEnabledItem x \<Rightarrow> set_in mPreciseLocationEnabled mPreciseLocationEnabled_update value_class (clk 0) x c
     | LocFeatureStatusItem x \<Rightarrow> set_in mLocFeatureStatus mLocFeatureStatus_update value_class (clk 0) x c
     | NlpSessionStartedItem x \<Rightarrow> set_in mNlpSessionStarted mNlpSessionStarted_update value_class (clk 0) x c)"

text \<open>The item notified, which for a network gets the merged table, and whether it was recorded.\<close>

definition eventDataItemNotify :: "(nat \<Rightarrow> int) \<Rightarrow> data_item \<Rightarrow> 'l system_status
    \<Rightarrow> (bool \<times> data_item) \<times> 'l system_status" where
  "eventDataItemNotify clk di s =
     (let (ret, c) = store_item clk di (mCache s);
          di' = (case di of
              NetworkInfoItem n \<Rightarrow>
                if ret then NetworkInfoItem (n\<lparr>mAllTypes := mAllTypes (payload (last (mNetworkInfo c))),
                    mAllNetworkHandles := mAllNetworkHandles (payload (last (mNetworkInfo c)))\<rparr>) else di
            | _ \<Rightarrow> di)
      in ((ret, di'), s\<lparr>mCache := c\<rparr>))"

text \<open>The default items; a position without values keeps what the memory held.\<close>

definition setDefaultGnssEngineStates :: "(nat \<Rightarrow> int) \<Rightarrow> 'l loc_item \<Rightarrow> 'l system_status \<Rightarrow> 'l system_status" where
  "setDefaultGnssEngineStates clk mem_lo s =
     (let c = mCache s;
          c = set_default mLocation mLocation_update (clk 0) (mem_lo\<lparr>lo_mValid := False\<rparr>) c;
          c = set_default mTimeAndClock mTimeAndClock_update (clk 1) default_time_and_clock c;
          c = set_default mXoState mXoState_update (clk 2) default_xo_state c;
          c = set_default mRfAndParams mRfAndParams_update (clk 3) default_rf_and_params c;
          c = set_default mErrRecovery mErrRecovery_update (clk 4) default_err_recovery c;
          c = set_default mInjectedPosition mInjectedPosition_update (clk 5) default_injected_position c;
          c = set_default mBestPosition mBestPosition_update (clk 6) default_best_position c;
          c = set_default mXtra mXtra_update (clk 7) default_xtra c;
          c = set_default mEphemeris mEphemeris_update (clk 8) default_ephemeris c;
          c = set_default mSvHealth mSvHealth_update (clk 9) default_sv_health c;
          c = set_default mPdr mPdr_update (clk 10) default_pdr c;
          c = set_default mNavData mNavData_update (clk 11) default_nav_data c;
          c = set_default mPositionFailure mPositionFailure_update (clk 12) default_position_failure c
      in s\<lparr>mCache := c\<rparr>)"

section \<open>Reading\<close>

text \<open>The latest item of most histories; the members not named keep what the caller's report had.\<close>

definition latest_reports :: "'l reports \<Rightarrow> 'l reports \<Rightarrow> 'l reports" where
  "latest_reports report c = report\<lparr>mLocation := getIteminReport (mLocation c),
     mTimeAndClock := getIteminReport (mTimeAndClock c),
     mXoState := getIteminReport (mXoState c),
     mRfAndParams := getIteminReport (mRfAndParams c),
     mErrRecovery := getIteminReport (mErrRecovery c),
     mInjectedPosition := getIteminReport (mInjectedPosition c),
     mBestPosition := getIteminReport (mBestPosition c), mXtra := getIteminReport (mXtra c),
     mEphemeris := getIteminReport (mEphemeris c), mSvHealth := getIteminReport (mSvHealth c),
     mPdr := getIteminReport (mPdr c), mNavData := getIteminReport (mNavData c),
     mPositionFailure := getIteminReport (mPositionFailure c),
     mAirplaneMode := getIteminReport (mAirplaneMode c), mENH := getIteminReport (mENH c),
     mGPSState := getIteminReport (mGPSState c), mNLPStatus := getIteminReport (mNLPStatus c),
     mWifiHardwareState := getIteminReport (mWifiHardwareState c),
     mNetworkInfo := getIteminReport (mNetworkInfo c),
     mRilServiceInfo := getIteminReport (mRilServiceInfo c),
     mRilCellInfo := getIteminReport (mRilCellInfo c),
     mServiceStatus := getIteminReport (mServiceStatus c),
     mModel := getIteminReport (mModel c), mManufacturer := getIteminReport (mManufacturer c),
     mAssistedGps := getIteminReport (mAssistedGps c),
     mScreenState := getIteminReport (mScreenState c),
     mPowerConnectState := getIteminReport (mPowerConnectState c),
     mTimeZoneChange := getIteminReport (mTimeZoneChange c),
     mTimeChange := getIteminReport (mTimeChange c),
     mWifiSupplicantStatus := getIteminReport (mWifiSupplicantStatus c),
     mShutdownState := getIteminReport (mShutdownState c), mTac := getIteminReport (mTac c),
     mMccMnc := getIteminReport (mMccMnc c)\<rparr>"

definition getReport :: "'l reports \<Rightarrow> bool \<Rightarrow> bool \<Rightarrow> 'l system_status \<Rightarrow> bool \<times> 'l reports" where
  "getReport report isLatestOnly inSessionOnly s =
     (if inSessionOnly \<and> \<not> mTracking s then (True, report)
      else if isLatestOnly then (True, latest_reports report (mCache s))
      else (True, mCache s))"

section \<open>Events of the services\<close>

definition eventConnectionStatus :: "bool \<Rightarrow> int \<Rightarrow> bool \<Rightarrow> u64 \<Rightarrow> string \<Rightarrow> data_item list" where
  "eventConnectionStatus isConnected type roaming networkHandle apn =
     [NetworkInfoItem (status_network_info type [] [] isConnected roaming networkHandle apn)]"

text \<open>The type is an \<open>int8_t\<close>.\<close>

definition resetNetworkInfo :: "'l system_status \<Rightarrow> data_item list" where
  "resetNetworkInfo s = concat (map (\<lambda>i. let n = payload i in
     eventConnectionStatus False (sint (word_of_int (mType n) :: 8 word)) (mRoaming n) (mNetworkHandle n) (mApn n))
     (mNetworkInfo (mCache s)))"

definition updatePowerConnectState :: "bool \<Rightarrow> data_item list" where
  "updatePowerConnectState charging = [PowerConnectStateItem charging]"

definition eventOptInStatus :: "bool \<Rightarrow> data_item list" where
  "eventOptInStatus userConsent = [ENHItem (new_enh userConsent FIELD_CONSENT)]"

definition eventRegionStatus :: "bool \<Rightarrow> data_item list" where
  "eventRegionStatus region = [ENHItem (new_enh region FIELD_REGION)]"

definition eventInEmergencyCall :: "bool \<Rightarrow> data_item list" where
  "eventInEmergencyCall isEmergency = [InEmergencyCallItem isEmergency]"

definition eventPreciseLocation :: "bool \<Rightarrow> data_item list" where
  "eventPreciseLocation preciseLocation = [PreciseLocationEnabledItem preciseLocation]"

definition eventNtripStarted :: "bool \<Rightarrow> data_item list" where
  "eventNtripStarted ntripStarted = [NtripStartedItem ntripStarted]"

definition eventSetTracking :: "bool \<Rightarrow> bool \<Rightarrow> 'l system_status \<Rightarrow> data_item list \<times> 'l system_status" where
  "eventSetTracking tracking updateSysStatusTrkState s =
     ([TrackingStartedItem tracking],
      if updateSysStatusTrkState then s\<lparr>mTracking := tracking\<rparr> else s)"

definition eventLocFeatureStatus :: "int set \<Rightarrow> data_item list" where
  "eventLocFeatureStatus fids = [LocFeatureStatusItem fids]"

definition eventNlpSessionStatus :: "bool \<Rightarrow> data_item list" where
  "eventNlpSessionStatus nlpStarted = [NlpSessionStartedItem nlpStarted]"

definition eventGpsEnabled :: "bool \<Rightarrow> data_item list" where
  "eventGpsEnabled gpsEnabled = [GPSStateItem gpsEnabled]"

section \<open>Runs\<close>

datatype 'l ss_op =
    SetNmeaString "string \<Rightarrow> flt" "nat \<Rightarrow> int" memory string nat
  | SetEngineDebugDataInfo "flt \<Rightarrow> u32" "flt \<Rightarrow> u64" "nat \<Rightarrow> int" memory debug_info
  | EventPosition "nat \<Rightarrow> int" "'l loc_item"
  | EventDataItemNotify "nat \<Rightarrow> int" data_item
  | SetDefaultStates "nat \<Rightarrow> int" "'l loc_item"
  | EventSetTracking bool bool

definition ss_step :: "'l ss_op \<Rightarrow> 'l system_status \<Rightarrow> 'l system_status option" where
  "ss_step x s = (case x of
       SetNmeaString atof clk mem data len \<Rightarrow> Some (snd (setNmeaString atof clk mem data len s))
     | SetEngineDebugDataInfo to_int unc_ns clk mem info \<Rightarrow> setEngineDebugDataInfo to_int unc_ns clk mem info s
     | EventPosition clk item \<Rightarrow> Some (snd (eventPosition clk item s))
     | EventDataItemNotify clk di \<Rightarrow> Some (snd (eventDataItemNotify clk di s))
     | SetDefaultStates clk mem_lo \<Rightarrow> Some (setDefaultGnssEngineStates clk mem_lo s)
     | EventSetTracking tracking upd \<Rightarrow> Some (snd (eventSetTracking tracking upd s)))"

definition fits :: "'a list \<Rightarrow> bool" where "fits r \<longleftrightarrow> length r \<le> maxItem"

definition bounded_engine :: "('l, 'm) engine_reports_scheme \<Rightarrow> bool" where
  "bounded_engine c \<longleftrightarrow> fits (mLocation c) \<and> fits (mTimeAndClock c) \<and> fits (mXoState c) \<and>
     fits (mRfAndParams c) \<and> fits (mErrRecovery c) \<and> fits (mInjectedPosition c) \<and>
     fits (mBestPosition c) \<and> fits (mXtra c) \<and> fits (mEphemeris c) \<and>
     fits (mSvHealth c) \<and> fits (mPdr c) \<and> fits (mNavData c) \<and> fits (mPositionFailure c)"

definition bounded_items :: "'l reports \<Rightarrow> bool" where
  "bounded_items c \<longleftrightarrow> fits (mAirplaneMode c) \<and> fits (mENH c) \<and> fits (mGPSState c) \<and>
     fits (mNLPStatus c) \<and> fits (mWifiHardwareState c) \<and> fits (mNetworkInfo c) \<and>
     fits (mRilServiceInfo c) \<and> fits (mRilCellInfo c) \<and> fits (mServiceStatus c) \<and>
     fits (mModel c) \<and> fits (mManufacturer c) \<and> fits (mInEmergencyCall c) \<and>
     fits (mAssistedGps c) \<and> fits (mScreenState c) \<and> fits (mPowerConnectState c) \<and>
     fits (mTimeZoneChange c) \<and> fits (mTimeChange c) \<and> fits (mWifiSupplicantStatus c) \<and>
     fits (mShutdownState c) \<and> fits (mTac c) \<and> fits (mMccMnc c) \<and>
     fits (mPreciseLocationEnabled c) \<and> fits (mTrackingStarted c) \<and>
     fits (mNtripStarted c) \<and> fits (mLocFeatureStatus c) \<and> fits (mNlpSessionStarted c)"

definition bounded :: "'l system_status \<Rightarrow> bool" where
  "bounded s \<longleftrightarrow> bounded_engine (mCache s) \<and> bounded_items (mCache s)"

end
