(* ===== verification/SsRun.thy ===== *)
theory SsRun
  imports SystemStatus
begin

text \<open>
  What runs of the operations of \<open>SystemStatus\<close> leave in its cache: no history grows beyond its
  bound (an interpretation of \<open>invariant_system\<close>), the history of a kind that is compared by value
  is the last changes of what was reported (interpretations of \<open>keyed_history\<close>), and what a
  sentence of the engine says is what is cached.
\<close>

section \<open>Bounds\<close>

definition bounded_cache :: "'l reports \<Rightarrow> bool" where
  "bounded_cache c \<longleftrightarrow> bounded_engine c \<and> bounded_items c"

lemma set_in_eq:
  "snd (set_in g u k now x c) = u (\<lambda>_. snd (setIteminReport k (g c) \<lparr>mUtcTime = now, mUtcReported = now, payload = x\<rparr>)) c"
  by (simp add: set_in_def split_beta)

lemma set_in_bounded:
  assumes "bounded_cache c" "\<And>r. bounded_cache c \<Longrightarrow> fits r \<Longrightarrow> bounded_cache (u (\<lambda>_. r) c)"
    "bounded_cache c \<Longrightarrow> fits (g c)"
  shows "bounded_cache (snd (set_in g u k now x c))"
  unfolding set_in_eq using assms setItem_bound by (metis fits_def)

lemma set_default_bounded:
  assumes "bounded_cache c" "\<And>r. bounded_cache c \<Longrightarrow> fits r \<Longrightarrow> bounded_cache (u (\<lambda>_. r) c)"
    "bounded_cache c \<Longrightarrow> fits (g c)"
  shows "bounded_cache (set_default g u now x c)"
  unfolding set_default_def setDefaultIteminReport_def using assms push_item_bound by (metis fits_def)

lemma bounded_update:
  "bounded_cache c \<Longrightarrow> fits r0 \<Longrightarrow> bounded_cache (c\<lparr>mLocation := r0\<rparr>)"
  "bounded_cache c \<Longrightarrow> fits r1 \<Longrightarrow> bounded_cache (c\<lparr>mTimeAndClock := r1\<rparr>)"
  "bounded_cache c \<Longrightarrow> fits r2 \<Longrightarrow> bounded_cache (c\<lparr>mXoState := r2\<rparr>)"
  "bounded_cache c \<Longrightarrow> fits r3 \<Longrightarrow> bounded_cache (c\<lparr>mRfAndParams := r3\<rparr>)"
  "bounded_cache c \<Longrightarrow> fits r4 \<Longrightarrow> bounded_cache (c\<lparr>mErrRecovery := r4\<rparr>)"
  "bounded_cache c \<Longrightarrow> fits r5 \<Longrightarrow> bounded_cache (c\<lparr>mInjectedPosition := r5\<rparr>)"
  "bounded_cache c \<Longrightarrow> fits r6 \<Longrightarrow> bounded_cache (c\<lparr>mBestPosition := r6\<rparr>)"
  "bounded_cache c \<Longrightarrow> fits r7 \<Longrightarrow> bounded_cache (c\<lparr>mXtra := r7\<rparr>)"
  "bounded_cache c \<Longrightarrow> fits r8 \<Longrightarrow> bounded_cache (c\<lparr>mEphemeris := r8\<rparr>)"
  "bounded_cache c \<Longrightarrow> fits r9 \<Longrightarrow> bounded_cache (c\<lparr>mSvHealth := r9\<rparr>)"
  "bounded_cache c \<Longrightarrow> fits r10 \<Longrightarrow> bounded_cache (c\<lparr>mPdr := r10\<rparr>)"
  "bounded_cache c \<Longrightarrow> fits r11 \<Longrightarrow> bounded_cache (c\<lparr>mNavData := r11\<rparr>)"
  "bounded_cache c \<Longrightarrow> fits r12 \<Longrightarrow> bounded_cache (c\<lparr>mPositionFailure := r12\<rparr>)"
  "bounded_cache c \<Longrightarrow> fits r13 \<Longrightarrow> bounded_cache (c\<lparr>mAirplaneMode := r13\<rparr>)"
  "bounded_cache c \<Longrightarrow> fits r14 \<Longrightarrow> bounded_cache (c\<lparr>mENH := r14\<rparr>)"
  "bounded_cache c \<Longrightarrow> fits r15 \<Longrightarrow> bounded_cache (c\<lparr>mGPSState := r15\<rparr>)"
  "bounded_cache c \<Longrightarrow> fits r16 \<Longrightarrow> bounded_cache (c\<lparr>mNLPStatus := r16\<rparr>)"
  "bounded_cache c \<Longrightarrow> fits r17 \<Longrightarrow> bounded_cache (c\<lparr>mWifiHardwareState := r17\<rparr>)"
  "bounded_cache c \<Longrightarrow> fits r18 \<Longrightarrow> bounded_cache (c\<lparr>mNetworkInfo := r18\<rparr>)"
  "bounded_cache c \<Longrightarrow> fits r19 \<Longrightarrow> bounded_cache (c\<lparr>mRilServiceInfo := r19\<rparr>)"
  "bounded_cache c \<Longrightarrow> fits r20 \<Longrightarrow> bounded_cache (c\<lparr>mRilCellInfo := r20\<rparr>)"
  "bounded_cache c \<Longrightarrow> fits r21 \<Longrightarrow> bounded_cache (c\<lparr>mServiceStatus := r21\<rparr>)"
  "bounded_cache c \<Longrightarrow> fits r22 \<Longrightarrow> bounded_cache (c\<lparr>mModel := r22\<rparr>)"
  "bounded_cache c \<Longrightarrow> fits r23 \<Longrightarrow> bounded_cache (c\<lparr>mManufacturer := r23\<rparr>)"
  "bounded_cache c \<Longrightarrow> fits r24 \<Longrightarrow> bounded_cache (c\<lparr>mInEmergencyCall := r24\<rparr>)"
  "bounded_cache c \<Longrightarrow> fits r25 \<Longrightarrow> bounded_cache (c\<lparr>mAssistedGps := r25\<rparr>)"
  "bounded_cache c \<Longrightarrow> fits r26 \<Longrightarrow> bounded_cache (c\<lparr>mScreenState := r26\<rparr>)"
  "bounded_cache c \<Longrightarrow> fits r27 \<Longrightarrow> bounded_cache (c\<lparr>mPowerConnectState := r27\<rparr>)"
  "bounded_cache c \<Longrightarrow> fits r28 \<Longrightarrow> bounded_cache (c\<lparr>mTimeZoneChange := r28\<rparr>)"
  "bounded_cache c \<Longrightarrow> fits r29 \<Longrightarrow> bounded_cache (c\<lparr>mTimeChange := r29\<rparr>)"
  "bounded_cache c \<Longrightarrow> fits r30 \<Longrightarrow> bounded_cache (c\<lparr>mWifiSupplicantStatus := r30\<rparr>)"
  "bounded_cache c \<Longrightarrow> fits r31 \<Longrightarrow> bounded_cache (c\<lparr>mShutdownState := r31\<rparr>)"
  "bounded_cache c \<Longrightarrow> fits r32 \<Longrightarrow> bounded_cache (c\<lparr>mTac := r32\<rparr>)"
  "bounded_cache c \<Longrightarrow> fits r33 \<Longrightarrow> bounded_cache (c\<lparr>mMccMnc := r33\<rparr>)"
  "bounded_cache c \<Longrightarrow> fits r34 \<Longrightarrow> bounded_cache (c\<lparr>mPreciseLocationEnabled := r34\<rparr>)"
  "bounded_cache c \<Longrightarrow> fits r35 \<Longrightarrow> bounded_cache (c\<lparr>mTrackingStarted := r35\<rparr>)"
  "bounded_cache c \<Longrightarrow> fits r36 \<Longrightarrow> bounded_cache (c\<lparr>mNtripStarted := r36\<rparr>)"
  "bounded_cache c \<Longrightarrow> fits r37 \<Longrightarrow> bounded_cache (c\<lparr>mLocFeatureStatus := r37\<rparr>)"
  "bounded_cache c \<Longrightarrow> fits r38 \<Longrightarrow> bounded_cache (c\<lparr>mNlpSessionStarted := r38\<rparr>)"
  by (simp_all add: bounded_cache_def bounded_engine_def bounded_items_def)

lemma bounded_member:
  assumes "bounded_cache c"
  shows "fits (mLocation c)"
    "fits (mTimeAndClock c)"
    "fits (mXoState c)"
    "fits (mRfAndParams c)"
    "fits (mErrRecovery c)"
    "fits (mInjectedPosition c)"
    "fits (mBestPosition c)"
    "fits (mXtra c)"
    "fits (mEphemeris c)"
    "fits (mSvHealth c)"
    "fits (mPdr c)"
    "fits (mNavData c)"
    "fits (mPositionFailure c)"
    "fits (mAirplaneMode c)"
    "fits (mENH c)"
    "fits (mGPSState c)"
    "fits (mNLPStatus c)"
    "fits (mWifiHardwareState c)"
    "fits (mNetworkInfo c)"
    "fits (mRilServiceInfo c)"
    "fits (mRilCellInfo c)"
    "fits (mServiceStatus c)"
    "fits (mModel c)"
    "fits (mManufacturer c)"
    "fits (mInEmergencyCall c)"
    "fits (mAssistedGps c)"
    "fits (mScreenState c)"
    "fits (mPowerConnectState c)"
    "fits (mTimeZoneChange c)"
    "fits (mTimeChange c)"
    "fits (mWifiSupplicantStatus c)"
    "fits (mShutdownState c)"
    "fits (mTac c)"
    "fits (mMccMnc c)"
    "fits (mPreciseLocationEnabled c)"
    "fits (mTrackingStarted c)"
    "fits (mNtripStarted c)"
    "fits (mLocFeatureStatus c)"
    "fits (mNlpSessionStarted c)"
  using assms by (simp_all add: bounded_cache_def bounded_engine_def bounded_items_def)

lemmas set_in_keeps =
  set_in_bounded [where g = mLocation and u = mLocation_update,
    OF _ bounded_update(1) bounded_member(1)]
  set_in_bounded [where g = mTimeAndClock and u = mTimeAndClock_update,
    OF _ bounded_update(2) bounded_member(2)]
  set_in_bounded [where g = mXoState and u = mXoState_update,
    OF _ bounded_update(3) bounded_member(3)]
  set_in_bounded [where g = mRfAndParams and u = mRfAndParams_update,
    OF _ bounded_update(4) bounded_member(4)]
  set_in_bounded [where g = mErrRecovery and u = mErrRecovery_update,
    OF _ bounded_update(5) bounded_member(5)]
  set_in_bounded [where g = mInjectedPosition and u = mInjectedPosition_update,
    OF _ bounded_update(6) bounded_member(6)]
  set_in_bounded [where g = mBestPosition and u = mBestPosition_update,
    OF _ bounded_update(7) bounded_member(7)]
  set_in_bounded [where g = mXtra and u = mXtra_update,
    OF _ bounded_update(8) bounded_member(8)]
  set_in_bounded [where g = mEphemeris and u = mEphemeris_update,
    OF _ bounded_update(9) bounded_member(9)]
  set_in_bounded [where g = mSvHealth and u = mSvHealth_update,
    OF _ bounded_update(10) bounded_member(10)]
  set_in_bounded [where g = mPdr and u = mPdr_update,
    OF _ bounded_update(11) bounded_member(11)]
  set_in_bounded [where g = mNavData and u = mNavData_update,
    OF _ bounded_update(12) bounded_member(12)]
  set_in_bounded [where g = mPositionFailure and u = mPositionFailure_update,
    OF _ bounded_update(13) bounded_member(13)]
  set_in_bounded [where g = mAirplaneMode and u = mAirplaneMode_update,
    OF _ bounded_update(14) bounded_member(14)]
  set_in_bounded [where g = mENH and u = mENH_update,
    OF _ bounded_update(15) bounded_member(15)]
  set_in_bounded [where g = mGPSState and u = mGPSState_update,
    OF _ bounded_update(16) bounded_member(16)]
  set_in_bounded [where g = mNLPStatus and u = mNLPStatus_update,
    OF _ bounded_update(17) bounded_member(17)]
  set_in_bounded [where g = mWifiHardwareState and u = mWifiHardwareState_update,
    OF _ bounded_update(18) bounded_member(18)]
  set_in_bounded [where g = mNetworkInfo and u = mNetworkInfo_update,
    OF _ bounded_update(19) bounded_member(19)]
  set_in_bounded [where g = mRilServiceInfo and u = mRilServiceInfo_update,
    OF _ bounded_update(20) bounded_member(20)]
  set_in_bounded [where g = mRilCellInfo and u = mRilCellInfo_update,
    OF _ bounded_update(21) bounded_member(21)]
  set_in_bounded [where g = mServiceStatus and u = mServiceStatus_update,
    OF _ bounded_update(22) bounded_member(22)]
  set_in_bounded [where g = mModel and u = mModel_update,
    OF _ bounded_update(23) bounded_member(23)]
  set_in_bounded [where g = mManufacturer and u = mManufacturer_update,
    OF _ bounded_update(24) bounded_member(24)]
  set_in_bounded [where g = mInEmergencyCall and u = mInEmergencyCall_update,
    OF _ bounded_update(25) bounded_member(25)]
  set_in_bounded [where g = mAssistedGps and u = mAssistedGps_update,
    OF _ bounded_update(26) bounded_member(26)]
  set_in_bounded [where g = mScreenState and u = mScreenState_update,
    OF _ bounded_update(27) bounded_member(27)]
  set_in_bounded [where g = mPowerConnectState and u = mPowerConnectState_update,
    OF _ bounded_update(28) bounded_member(28)]
  set_in_bounded [where g = mTimeZoneChange and u = mTimeZoneChange_update,
    OF _ bounded_update(29) bounded_member(29)]
  set_in_bounded [where g = mTimeChange and u = mTimeChange_update,
    OF _ bounded_update(30) bounded_member(30)]
  set_in_bounded [where g = mWifiSupplicantStatus and u = mWifiSupplicantStatus_update,
    OF _ bounded_update(31) bounded_member(31)]
  set_in_bounded [where g = mShutdownState and u = mShutdownState_update,
    OF _ bounded_update(32) bounded_member(32)]
  set_in_bounded [where g = mTac and u = mTac_update,
    OF _ bounded_update(33) bounded_member(33)]
  set_in_bounded [where g = mMccMnc and u = mMccMnc_update,
    OF _ bounded_update(34) bounded_member(34)]
  set_in_bounded [where g = mPreciseLocationEnabled and u = mPreciseLocationEnabled_update,
    OF _ bounded_update(35) bounded_member(35)]
  set_in_bounded [where g = mTrackingStarted and u = mTrackingStarted_update,
    OF _ bounded_update(36) bounded_member(36)]
  set_in_bounded [where g = mNtripStarted and u = mNtripStarted_update,
    OF _ bounded_update(37) bounded_member(37)]
  set_in_bounded [where g = mLocFeatureStatus and u = mLocFeatureStatus_update,
    OF _ bounded_update(38) bounded_member(38)]
  set_in_bounded [where g = mNlpSessionStarted and u = mNlpSessionStarted_update,
    OF _ bounded_update(39) bounded_member(39)]

lemmas set_default_keeps =
  set_default_bounded [where g = mLocation and u = mLocation_update,
    OF _ bounded_update(1) bounded_member(1)]
  set_default_bounded [where g = mTimeAndClock and u = mTimeAndClock_update,
    OF _ bounded_update(2) bounded_member(2)]
  set_default_bounded [where g = mXoState and u = mXoState_update,
    OF _ bounded_update(3) bounded_member(3)]
  set_default_bounded [where g = mRfAndParams and u = mRfAndParams_update,
    OF _ bounded_update(4) bounded_member(4)]
  set_default_bounded [where g = mErrRecovery and u = mErrRecovery_update,
    OF _ bounded_update(5) bounded_member(5)]
  set_default_bounded [where g = mInjectedPosition and u = mInjectedPosition_update,
    OF _ bounded_update(6) bounded_member(6)]
  set_default_bounded [where g = mBestPosition and u = mBestPosition_update,
    OF _ bounded_update(7) bounded_member(7)]
  set_default_bounded [where g = mXtra and u = mXtra_update,
    OF _ bounded_update(8) bounded_member(8)]
  set_default_bounded [where g = mEphemeris and u = mEphemeris_update,
    OF _ bounded_update(9) bounded_member(9)]
  set_default_bounded [where g = mSvHealth and u = mSvHealth_update,
    OF _ bounded_update(10) bounded_member(10)]
  set_default_bounded [where g = mPdr and u = mPdr_update,
    OF _ bounded_update(11) bounded_member(11)]
  set_default_bounded [where g = mNavData and u = mNavData_update,
    OF _ bounded_update(12) bounded_member(12)]
  set_default_bounded [where g = mPositionFailure and u = mPositionFailure_update,
    OF _ bounded_update(13) bounded_member(13)]

lemma set_m1_bounded: "bounded_cache c \<Longrightarrow> bounded_cache (set_m1 clk m c)"
  by (simp add: set_m1_def Let_def set_in_keeps)

lemma store_item_bounded: "bounded_cache c \<Longrightarrow> bounded_cache (snd (store_item clk di c))"
  by (cases di) (simp_all add: store_item_def set_in_keeps)

lemma bounded_cache: "bounded s \<longleftrightarrow> bounded_cache (mCache s)"
  by (simp add: bounded_def bounded_cache_def)

lemma setNmeaString_bounded:
  "bounded_cache (mCache s) \<Longrightarrow> bounded_cache (mCache (snd (setNmeaString atof clk mem data len s)))"
  by (simp add: setNmeaString_def Let_def set_m1_bounded set_in_keeps)

lemma setEngineDebugDataInfo_bounded:
  "bounded_cache (mCache s) \<Longrightarrow> setEngineDebugDataInfo to_int unc_ns clk mem info s = Some s'
    \<Longrightarrow> bounded_cache (mCache s')"
  by (auto simp: setEngineDebugDataInfo_def Let_def set_m1_bounded set_in_keeps bind_eq_Some_conv)

lemma setDefault_bounded:
  "bounded_cache (mCache s) \<Longrightarrow> bounded_cache (mCache (setDefaultGnssEngineStates clk mem_lo s))"
  by (simp add: setDefaultGnssEngineStates_def Let_def set_default_keeps)

lemma ss_step_bounded: "bounded s \<Longrightarrow> ss_step x s = Some s' \<Longrightarrow> bounded s'"
  unfolding bounded_cache
  by (cases x) (auto simp: ss_step_def setNmeaString_bounded setEngineDebugDataInfo_bounded setDefault_bounded
      eventPosition_def eventDataItemNotify_def eventSetTracking_def split_beta Let_def store_item_bounded
      set_in_keeps)

interpretation ss: invariant_system ss_step bounded "\<lambda>_. True"
  by unfold_locales (simp add: ss_step_bounded)

lemma new_bounded: "bounded new_system_status"
  by (simp add: bounded_def bounded_engine_def bounded_items_def new_system_status_def fits_def)

text \<open>
  C17: Whatever sequence of sentences, reports, positions, data items and resets is processed, no
  history of the cache ever holds more than five items.
\<close>

theorem caches_stay_bounded:
  assumes "run ss_step xs new_system_status = Some s"
  shows "bounded s"
  using ss.run_inv [OF new_bounded _ assms] by (simp add: list_all_iff)

definition notify_gps :: "bool \<Rightarrow> unit ss_op" where
  "notify_gps b = EventDataItemNotify (\<lambda>_. 7) (GPSStateItem b)"

theorem caches_stay_bounded_witness:
  "\<exists>s. run ss_step [notify_gps True, notify_gps False, notify_gps True, notify_gps False, notify_gps True,
     notify_gps False, EventSetTracking True True] new_system_status = Some s \<and> bounded s"
proof -
  let ?xs = "[notify_gps True, notify_gps False, notify_gps True, notify_gps False, notify_gps True,
     notify_gps False, EventSetTracking True True]"
  obtain s where "run ss_step ?xs new_system_status = Some s" by (simp add: ss_step_def notify_gps_def)
  with caches_stay_bounded [of ?xs s] show ?thesis by blast
qed

section \<open>Histories of values\<close>

interpretation by_value: keyed_history value_class id
  by unfold_locales (auto simp: value_class_def item_base_def)

text \<open>The masks of NavIC are not compared.\<close>

definition sv_health_key :: "sv_health \<Rightarrow> sv_health" where
  "sv_health_key h = h\<lparr>sh_mNavicUnknownMask := 0, sh_mNavicGoodMask := 0, sh_mNavicBadMask := 0\<rparr>"

lemma equals_health_key: "equals_sv_health a b \<longleftrightarrow> sv_health_key a = sv_health_key b"
  by (cases a; cases b) (simp add: equals_sv_health_def sv_health_key_def)

interpretation by_health: keyed_history "item_base equals_sv_health" sv_health_key
  by unfold_locales (simp_all add: item_base_def equals_health_key)

interpretation by_recovery: keyed_history err_class id
  by unfold_locales (auto simp: err_class_def item_base_def equals_err_recovery_def intro!: err_recovery.equality)

text \<open>The values of one kind that a run of operations reports.\<close>

fun gps_state_of :: "'l ss_op \<Rightarrow> bool item list" where
  "gps_state_of (EventDataItemNotify clk (GPSStateItem x)) =
     [\<lparr>mUtcTime = clk 0, mUtcReported = clk 0, payload = x\<rparr>]"
| "gps_state_of _ = []"

lemma set_in_gps:
  "(\<And>r c. mGPSState (u (\<lambda>_. r) c) = mGPSState c) \<Longrightarrow> mGPSState (snd (set_in g u k now x c)) = mGPSState c"
  by (simp add: set_in_eq)

lemma set_default_gps:
  "(\<And>r c. mGPSState (u (\<lambda>_. r) c) = mGPSState c) \<Longrightarrow> mGPSState (set_default g u now x c) = mGPSState c"
  by (simp add: set_default_def)

lemma set_m1_gps: "mGPSState (set_m1 clk m c) = mGPSState c"
  by (simp add: set_m1_def Let_def set_in_gps)

lemmas gps_unchanged = set_in_gps set_default_gps set_m1_gps

lemma setNmeaString_gps: "mGPSState (mCache (snd (setNmeaString atof clk mem data len s))) = mGPSState (mCache s)"
  by (simp add: setNmeaString_def Let_def gps_unchanged)

lemma setEngineDebugDataInfo_gps:
  "setEngineDebugDataInfo to_int unc_ns clk mem info s = Some s' \<Longrightarrow> mGPSState (mCache s') = mGPSState (mCache s)"
  by (auto simp: setEngineDebugDataInfo_def Let_def gps_unchanged bind_eq_Some_conv)

lemma setDefault_gps: "mGPSState (mCache (setDefaultGnssEngineStates clk mem_lo s)) = mGPSState (mCache s)"
  by (simp add: setDefaultGnssEngineStates_def Let_def gps_unchanged)

lemma ss_step_gps:
  assumes "ss_step x s = Some s'"
  shows "mGPSState (mCache s') = fold (\<lambda>i r. snd (setIteminReport value_class r i)) (gps_state_of x) (mGPSState (mCache s))"
proof (cases x)
  case (EventDataItemNotify clk di)
  with assms have "s' = snd (eventDataItemNotify clk di s)" by (simp add: ss_step_def)
  then have "mCache s' = snd (store_item clk di (mCache s))" by (simp add: eventDataItemNotify_def split_beta Let_def)
  then show ?thesis unfolding EventDataItemNotify by (cases di) (simp_all add: store_item_def set_in_eq)
qed (use assms in \<open>auto simp: ss_step_def setNmeaString_gps setEngineDebugDataInfo_gps setDefault_gps
      eventPosition_def eventSetTracking_def split_beta Let_def gps_unchanged\<close>)

lemma run_gps:
  "run ss_step xs s = Some s' \<Longrightarrow> mGPSState (mCache s') =
     fold (\<lambda>i r. snd (setIteminReport value_class r i)) (concat (map gps_state_of xs)) (mGPSState (mCache s))"
proof (induction xs arbitrary: s)
  case (Cons x xs)
  from Cons.prems obtain s1 where "ss_step x s = Some s1" "run ss_step xs s1 = Some s'" by (rule run_ConsE)
  with Cons.IH ss_step_gps show ?case by fastforce
qed simp

text \<open>
  C19: Whatever else is reported between, the history of the GPS state holds its last five changes
  of value, oldest first, each change once.
\<close>

theorem gps_history_is_last_changes:
  assumes "run ss_step xs new_system_status = Some s"
  shows "map payload (mGPSState (mCache s)) = last_n 5 (remdups_adj (map payload (concat (map gps_state_of xs))))"
proof -
  have e: "mGPSState (mCache s) = history value_class (concat (map gps_state_of xs))"
    using run_gps [OF assms] by (simp add: history_def new_system_status_def)
  have "filter (\<lambda>s. \<not> ignore_item value_class (payload s)) is = is" for "is" :: "bool item list"
    by (simp add: value_class_def item_base_def)
  with by_value.history_is_last_changes [of "concat (map gps_state_of xs)"] show ?thesis
    by (simp add: e maxItem_def id_def)
qed

theorem gps_history_is_last_changes_witness:
  "\<exists>s. run ss_step [notify_gps True, EventSetTracking True True, notify_gps True, notify_gps False]
     new_system_status = Some s \<and> map payload (mGPSState (mCache s)) = [True, False]"
proof -
  let ?xs = "[notify_gps True, EventSetTracking True True, notify_gps True, notify_gps False]"
  obtain s where s: "run ss_step ?xs new_system_status = Some s" by (simp add: ss_step_def notify_gps_def)
  with gps_history_is_last_changes [OF s] show ?thesis by (simp add: notify_gps_def last_n_def)
qed

text \<open>
  The history of the health of the satellites holds the last five changes of the masks
  without those of NavIC: a report that differs from the last one only there is not recorded.
\<close>

theorem health_history_ignores_navic:
  "map (\<lambda>i. sv_health_key (payload i)) (history (item_base equals_sv_health) xs)
    = last_n 5 (remdups_adj (map (\<lambda>i. sv_health_key (payload i)) xs))"
  using by_health.history_is_last_changes [of xs] by (simp add: item_base_def maxItem_def)

text \<open>
  The history of the recoveries from errors skips the reports of no recovery, and holds the
  last five changes among the others.
\<close>

theorem recovery_history_skips_none:
  "map payload (history err_class xs)
    = last_n 5 (remdups_adj (filter (\<lambda>e. er_mRecErrorRecovery e \<noteq> 0) (map payload xs)))"
  using by_recovery.history_is_last_changes [of xs]
  by (simp add: err_class_def ignore_err_recovery_def maxItem_def id_def filter_map comp_def)

section \<open>Sentences\<close>

text \<open>Fields with commas between them, as a sentence has them before its star.\<close>

fun commas :: "string list \<Rightarrow> string" where
  "commas [] = []"
| "commas [f] = f"
| "commas (f # fs) = f @ CHR '','' # commas fs"

definition sentence :: "string list \<Rightarrow> string \<Rightarrow> string" where
  "sentence fs checksum = commas fs @ CHR ''*'' # checksum"

lemma commas_join: "fs \<noteq> [] \<Longrightarrow> commas fs @ [CHR '','' ] = join_fields fs"
  by (induction fs rule: commas.induct) (auto simp: join_fields_def)

lemma commas_set: "set (commas fs) \<subseteq> insert (CHR '','') (\<Union>f\<in>set fs. set f)"
  by (induction fs rule: commas.induct) auto

lemma fields_of_sentence:
  assumes "fs \<noteq> []" "\<forall>f\<in>set fs. CHR '','' \<notin> set f \<and> CHR ''*'' \<notin> set f" "CHR '','' \<notin> set cs"
    "loc_nmea_is_debug (sentence fs cs) len"
  shows "nmea_fields (sentence fs cs) len = fs"
proof -
  have "CHR ''*'' \<notin> set (commas fs)" using commas_set [of fs] assms(2) by auto
  then have "takeWhile (\<lambda>c. c \<noteq> CHR ''*'') (sentence fs cs) = commas fs"
    "dropWhile (\<lambda>c. c \<noteq> CHR ''*'') (sentence fs cs) = CHR ''*'' # cs"
    by (auto simp: sentence_def takeWhile_append dropWhile_append)
  moreover have "CHR ''*'' \<in> set (sentence fs cs)" by (simp add: sentence_def)
  ultimately have "nmea_fields (sentence fs cs) len = split_fields [] (commas fs @ CHR '','' # cs)"
    using assms(4) by (simp add: nmea_fields_def)
  also have "commas fs @ CHR '','' # cs = (commas fs @ [CHR '','']) @ cs" by simp
  also have "split_fields [] \<dots> = fs" unfolding commas_join [OF assms(1)] using assms(2,3) by (simp add: split_join)
  finally show ?thesis .
qed

text \<open>
  A sentence of numbers: its name and numerals in decimal.  A numeral in the range of \<open>int\<close> is read
  as its value, reduced to the width of the member it is stored in.
\<close>

definition number_fields :: "string \<Rightarrow> int list \<Rightarrow> string list" where
  "number_fields name vs = name # map show_int vs"

definition in_int :: "int \<Rightarrow> bool" where
  "in_int v \<longleftrightarrow> - (2 ^ 31) \<le> v \<and> v < 2 ^ 31"

lemma atoi_number: "in_int v \<Longrightarrow> atoi (show_int v) = word_of_int v"
  by (simp add: atoi_def strtol_def read_signed_show in_int_def)

lemma int_to_number: "in_int v \<Longrightarrow> int_to (word_of_int v) = word_of_int v"
  using atoi_show [of v] atoi_number [of v] by (simp add: int_to_def in_int_def scast_eq)

lemma strtoull_number: "0 \<le> v \<Longrightarrow> v < 2 ^ 64 \<Longrightarrow> strtoull 10 (show_int v) = word_of_int v"
  by (simp add: strtoull_def read_signed_show)

lemma number_fields_plain:
  "CHR '','' \<notin> set name \<Longrightarrow> CHR ''*'' \<notin> set name \<Longrightarrow>
    \<forall>f\<in>set (number_fields name vs). CHR '','' \<notin> set f \<and> CHR ''*'' \<notin> set f"
  by (auto simp: number_fields_def show_int_plain)

lemma sentence_start: "length name = 6 \<Longrightarrow> vs \<noteq> [] \<Longrightarrow> take 6 (sentence (number_fields name vs) cs) = name"
  by (cases vs) (simp_all add: sentence_def number_fields_def)

lemma parse_m1_numbers:
  assumes "length vs = 31" "\<forall>i<30. in_int (vs ! i)" "0 \<le> vs ! 30" "vs ! 30 < 2 ^ 64"
  shows "SystemStatusTimeAndClock (parse_PQWM1 (number_fields name vs)) =
      \<lparr>tc_mGpsWeek = word_of_int (vs ! 0), tc_mGpsTowMs = word_of_int (vs ! 1), tc_mTimeValid = word_of_int (vs ! 2),
       tc_mTimeSource = word_of_int (vs ! 3), tc_mTimeUnc = word_of_int (vs ! 4), tc_mClockFreqBias = word_of_int (vs ! 5),
       tc_mClockFreqBiasUnc = word_of_int (vs ! 6), tc_mLeapSeconds = word_of_int (vs ! 22),
       tc_mLeapSecUnc = word_of_int (vs ! 23), tc_mTimeUncNs = word_of_int (vs ! 30)\<rparr>"
    "SystemStatusXoState (parse_PQWM1 (number_fields name vs)) = \<lparr>xo_mXoState = word_of_int (vs ! 7)\<rparr>"
  using assms by (simp_all add: SystemStatusTimeAndClock_def SystemStatusXoState_def parse_PQWM1_def Let_def
      number_fields_def atoi_number int_to_number strtoull_number)

lemma set_in_last:
  assumes "\<And>r. g (u (\<lambda>_. r) c) = r" "\<And>a b. eq a b \<Longrightarrow> a = b"
  shows "g (snd (set_in g u (item_base eq) now x c)) \<noteq> []
    \<and> payload (last (g (snd (set_in g u (item_base eq) now x c)))) = x"
  using assms by (auto simp: set_in_eq setIteminReport_def item_base_def Let_def)

lemma set_in_clock:
  "(\<And>r c. mTimeAndClock (u (\<lambda>_. r) c) = mTimeAndClock c) \<Longrightarrow>
    mTimeAndClock (snd (set_in g u k now x c)) = mTimeAndClock c"
  by (simp add: set_in_eq)

lemma set_in_xo:
  "(\<And>r c. mXoState (u (\<lambda>_. r) c) = mXoState c) \<Longrightarrow> mXoState (snd (set_in g u k now x c)) = mXoState c"
  by (simp add: set_in_eq)

lemma m1_clock: "payload (last (mTimeAndClock (set_m1 clk m (c :: 'a reports)))) = SystemStatusTimeAndClock m"
proof -
  have eq: "equals_time_and_clock a b \<Longrightarrow> a = b" for a b by (cases a; cases b) (simp add: equals_time_and_clock_def)
  have last: "payload (last (mTimeAndClock (snd (set_in mTimeAndClock mTimeAndClock_update (item_base equals_time_and_clock) now x c)))) = x" for now x and c :: "'a reports"
    using set_in_last [where g = mTimeAndClock and u = mTimeAndClock_update and eq = equals_time_and_clock, of c now x] eq by simp
  show ?thesis by (simp add: set_m1_def Let_def last set_in_clock)
qed

lemma m1_oscillator: "payload (last (mXoState (set_m1 clk m (c :: 'a reports)))) = SystemStatusXoState m"
proof -
  have eq: "equals_xo_state a b \<Longrightarrow> a = b" for a b by (cases a; cases b) (simp add: equals_xo_state_def)
  have last: "payload (last (mXoState (snd (set_in mXoState mXoState_update (item_base equals_xo_state) now x c)))) = x" for now x and c :: "'a reports"
    using set_in_last [where g = mXoState and u = mXoState_update and eq = equals_xo_state, of c now x] eq by simp
  show ?thesis by (simp add: set_m1_def Let_def last set_in_xo)
qed

text \<open>
  C10: A sentence \<open>$PQWM1\<close> with all its 31 fields as numerals in decimal, the first thirty in the
  range of \<open>int\<close> and the last in that of \<open>uint64_t\<close>, is accepted, and the newest items of the clock
  and of its oscillator hold the values of their fields, each reduced to the width of its member:
  so the values themselves, negative ones included, where they fit it.
\<close>

theorem clock_sentence_is_cached:
  assumes "length vs = 31" "\<forall>i<30. in_int (vs ! i)" "0 \<le> vs ! 30" "vs ! 30 < 2 ^ 64"
    "CHR '','' \<notin> set cs" "data = sentence (number_fields ''$PQWM1'' vs) cs" "length data \<le> 4096"
  shows "let (ok, s') = setNmeaString atof clk mem data (length data) s
    in ok \<and> payload (last (mTimeAndClock (mCache s'))) =
        \<lparr>tc_mGpsWeek = word_of_int (vs ! 0), tc_mGpsTowMs = word_of_int (vs ! 1), tc_mTimeValid = word_of_int (vs ! 2),
         tc_mTimeSource = word_of_int (vs ! 3), tc_mTimeUnc = word_of_int (vs ! 4), tc_mClockFreqBias = word_of_int (vs ! 5),
         tc_mClockFreqBiasUnc = word_of_int (vs ! 6), tc_mLeapSeconds = word_of_int (vs ! 22),
         tc_mLeapSecUnc = word_of_int (vs ! 23), tc_mTimeUncNs = word_of_int (vs ! 30)\<rparr>
     \<and> payload (last (mXoState (mCache s'))) = \<lparr>xo_mXoState = word_of_int (vs ! 7)\<rparr>"
proof -
  let ?m = "parse_PQWM1 (number_fields ''$PQWM1'' vs)"
  have "vs \<noteq> []" using assms(1) by auto
  then have st: "take 6 data = ''$PQWM1''" unfolding assms(6) by (intro sentence_start) simp_all
  have "take 4 data = take 4 (take 6 data)" by (simp add: take_take)
  then have "take 4 data = ''$PQW''" unfolding st by simp
  moreover have "6 \<le> length data" using arg_cong [OF st, of length] by simp
  ultimately have d: "loc_nmea_is_debug data (length data)"
    using assms(7) by (simp add: loc_nmea_is_debug_def DEBUG_NMEA_MINSIZE_def DEBUG_NMEA_MAXSIZE_def)
  have f: "nmea_fields data (length data) = number_fields ''$PQWM1'' vs"
    using fields_of_sentence [OF _ number_fields_plain assms(5), of "''$PQWM1''" vs "length data"] d
    by (simp add: assms(6) number_fields_def)
  have b: "take DEBUG_NMEA_MAXSIZE data = data" using assms(7) by (simp add: DEBUG_NMEA_MAXSIZE_def)
  have i: "is_sentence data ''$PQWM1''" using st by (simp add: is_sentence_def DEBUG_NMEA_MINSIZE_def)
  have "setNmeaString atof clk mem data (length data) s = (True, s\<lparr>mCache := set_m1 clk ?m (mCache s)\<rparr>)"
    unfolding setNmeaString_def Let_def b f using d i by (simp only: if_True not_True_eq_False if_False)
  then show ?thesis by (simp add: m1_clock m1_oscillator parse_m1_numbers [OF assms(1-4)])
qed

definition clock_numbers :: "int list" where
  "clock_numbers = [2300, 345600000, 1, 2, 5, - 12, 3, 2, 0, 0, 0, 0, 0, 0, 0, 0, 0, 0, 0, 0, 0, 0, 18, 0,
     0, 0, 0, 0, 0, 0, 5000000000]"

theorem clock_sentence_is_cached_witness:
  "\<forall>atof clk mem. \<exists>s'. setNmeaString atof clk mem (sentence (number_fields ''$PQWM1'' clock_numbers) ''4F'')
      (length (sentence (number_fields ''$PQWM1'' clock_numbers) ''4F'')) (new_system_status :: unit system_status) = (True, s')
    \<and> sint (tc_mClockFreqBias (payload (last (mTimeAndClock (mCache s'))))) = - 12"
proof (intro allI)
  fix atof clk mem
  let ?d = "sentence (number_fields ''$PQWM1'' clock_numbers) ''4F''"
  have l: "length ?d \<le> 4096"
    by (simp add: sentence_def number_fields_def clock_numbers_def show_int_def show_nat.simps)
  have n: "length clock_numbers = 31" "\<forall>v\<in>set (take 30 clock_numbers). in_int v" "clock_numbers ! 30 = 5000000000"
    "clock_numbers ! 5 = - 12"
    by (simp_all add: clock_numbers_def in_int_def nth_append)
  have r: "\<forall>i<30. in_int (clock_numbers ! i)"
  proof (intro allI impI)
    fix i :: nat assume "i < 30"
    then have "clock_numbers ! i \<in> set (take 30 clock_numbers)"
      using n(1) by (auto simp: in_set_conv_nth intro!: exI [of _ i])
    with n(2) show "in_int (clock_numbers ! i)" by blast
  qed
  obtain ok s' where s': "setNmeaString atof clk mem ?d (length ?d) (new_system_status :: unit system_status) = (ok, s')" by fastforce
  with clock_sentence_is_cached [OF n(1) r, of "''4F''" ?d atof clk mem "new_system_status :: unit system_status"]
    l n show "\<exists>s'. setNmeaString atof clk mem ?d (length ?d) (new_system_status :: unit system_status) = (True, s')
      \<and> sint (tc_mClockFreqBias (payload (last (mTimeAndClock (mCache s'))))) = - 12" by simp
qed

text \<open>
  C35: A sentence \<open>$PQWP6\<close> that is cut short is accepted all the same, and the item entered holds
  what the memory of the parser held before: nothing of the sentence, and no zeros either.
\<close>

theorem short_sentence_caches_memory:
  assumes "loc_nmea_is_debug data len" "is_sentence data ''$PQWP6''"
    "length (nmea_fields (take DEBUG_NMEA_MAXSIZE data) len) < 3"
  shows "\<exists>s'. setNmeaString atof clk mem data len s = (True, s')
    \<and> payload (last (mPdr (mCache s'))) = \<lparr>pd_mFixInfoMask = p6_mFixInfoMask (mem_p6 mem)\<rparr>"
proof -
  have n: "\<not> is_sentence data name" if "name \<noteq> ''$PQWP6''" for name
    using assms(2) that by (simp add: is_sentence_def)
  have eq: "equals_pdr a b \<Longrightarrow> a = b" for a b by (cases a; cases b) (simp add: equals_pdr_def)
  have last: "payload (last (mPdr (snd (set_in mPdr mPdr_update (item_base equals_pdr) now x c)))) = x"
    for now x and c :: "'a reports"
    using set_in_last [where g = mPdr and u = mPdr_update and eq = equals_pdr, of c now x] eq by simp
  have "snd (setNmeaString atof clk mem data len s) = s\<lparr>mCache := snd (set_in mPdr mPdr_update (item_base equals_pdr)
      (clk 0) (SystemStatusPdr (mem_p6 mem)) (mCache s))\<rparr>" "fst (setNmeaString atof clk mem data len s)"
    using assms n by (simp_all add: setNmeaString_def Let_def parse_PQWP6_def)
  then show ?thesis
    by (intro exI [of _ "snd (setNmeaString atof clk mem data len s)"])
      (simp add: prod_eq_iff last SystemStatusPdr_def)
qed

theorem short_sentence_caches_memory_witness:
  "\<forall>atof clk mem. \<exists>s'. setNmeaString atof clk mem ''$PQWP6,12'' 9 (new_system_status :: unit system_status) = (True, s')
    \<and> payload (last (mPdr (mCache s'))) = \<lparr>pd_mFixInfoMask = p6_mFixInfoMask (mem_p6 mem)\<rparr>"
  by (intro allI, rule short_sentence_caches_memory)
    (simp_all add: loc_nmea_is_debug_def is_sentence_def nmea_fields_def DEBUG_NMEA_MINSIZE_def DEBUG_NMEA_MAXSIZE_def)

section \<open>Networks\<close>

definition notify_all :: "(nat \<Rightarrow> int) \<Rightarrow> data_item list \<Rightarrow> 'l system_status \<Rightarrow> 'l system_status" where
  "notify_all clk dis s = fold (\<lambda>di s. snd (eventDataItemNotify clk di s)) dis s"

definition bring_up :: "(nat \<Rightarrow> int) \<Rightarrow> int \<Rightarrow> u64 list \<Rightarrow> 'l system_status \<Rightarrow> 'l system_status" where
  "bring_up clk t hs s = notify_all clk (concat (map (\<lambda>h. eventConnectionStatus True t False h []) hs)) s"

definition up_networks :: "'l system_status \<Rightarrow> handle_entry list" where
  "up_networks s = networks (mAllNetworkHandles (cached_network (mNetworkInfo (mCache s))))"

definition network_data_item :: "network_event \<Rightarrow> data_item" where
  "network_data_item e = NetworkInfoItem (status_network_info (ev_type e) [] [] (ev_connected e) (ev_roaming e) (ev_handle e) (ev_apn e))"

lemma notify_networks:
  "mNetworkInfo (mCache (notify_all clk (map network_data_item es) s)) = fold (enter_network (clk 0)) es (mNetworkInfo (mCache s))"
  by (induction es arbitrary: s)
    (simp_all add: notify_all_def eventDataItemNotify_def network_data_item_def store_item_def split_beta Let_def
      set_in_eq enter_network_def network_item_def)

lemma bring_up_events: "concat (map (\<lambda>h. eventConnectionStatus True t False h []) hs) = map network_data_item (map (up t) hs)"
  by (induction hs) (simp_all add: eventConnectionStatus_def network_data_item_def up_def)

text \<open>The event that the reset makes of an item.\<close>

definition reset_event :: "network_info item \<Rightarrow> network_event" where
  "reset_event i = (let n = payload i in \<lparr>ev_connected = False, ev_type = sint (word_of_int (mType n) :: 8 word),
     ev_handle = mNetworkHandle n, ev_apn = mApn n, ev_roaming = mRoaming n\<rparr>)"

lemma reset_event_handle: "ev_handle (reset_event i) = mNetworkHandle (payload i)"
  by (simp add: reset_event_def Let_def)

lemma reset_handles: "ev_handle ` set (map reset_event r) = set (map (\<lambda>i. mNetworkHandle (payload i)) r)"
  by (simp add: image_image reset_event_handle)

lemma image_avoids: "f ` E = L \<Longrightarrow> x \<notin> L \<Longrightarrow> L \<subseteq> H \<Longrightarrow> u \<notin> H \<Longrightarrow> \<forall>e\<in>E. f e \<noteq> x \<and> f e \<noteq> u"
  by auto

lemma reset_events: "resetNetworkInfo s = map network_data_item (map reset_event (mNetworkInfo (mCache s)))"
proof -
  have "concat (map (\<lambda>i. let n = payload i in
     eventConnectionStatus False (sint (word_of_int (mType n) :: 8 word)) (mRoaming n) (mNetworkHandle n) (mApn n)) r)
     = map network_data_item (map reset_event r)" for r
    by (induction r) (simp_all add: eventConnectionStatus_def network_data_item_def reset_event_def Let_def)
  then show ?thesis by (simp add: resetNetworkInfo_def)
qed

text \<open>
  C33: The reset of the networks sends a disconnect for each item of the history, not for each
  network of the table: of up to ten networks that came up, those before the last five are
  still in the table after every event of the reset has been processed.
\<close>

theorem reset_leaves_older_networks:
  assumes "distinct hs" "length hs \<le> MAX_NETWORK_HANDLES" "NETWORK_HANDLE_UNKNOWN \<notin> set hs"
    "i < length hs - maxItem"
  shows "let s = bring_up clk t hs new_system_status
    in (hs ! i, t) \<in> set (up_networks (notify_all clk (resetNetworkInfo s) s))"
proof -
  define s :: "'a system_status" where "s = bring_up clk t hs new_system_status"
  let ?r = "mNetworkInfo (mCache s)"
  have r: "?r = fold (enter_network (clk 0)) (map (up t) hs) []"
    unfolding s_def bring_up_def bring_up_events notify_networks by (simp add: new_system_status_def)
  have ne: "hs \<noteq> []" using assms(4) by auto
  from ups_history [OF ne assms(1-3), where now = "clk 0" and t = t] obtain vs where
    vs: "map (\<lambda>i. mNetworkHandle (payload i)) ?r = last_n maxItem hs"
      "table_holds (mAllNetworkHandles (cached_network ?r)) vs" "set vs = (\<lambda>h. (h, t)) ` set hs"
    unfolding r by blast
  have m: "0 < maxItem" by (simp add: maxItem_def)
  have rne: "?r \<noteq> []" using vs(1) ne m by (metis last_n_empty list.map_disc_iff)
  have "hs ! i \<in> set (take (length hs - maxItem) hs)" using assms(4) by (auto simp: in_set_conv_nth)
  moreover have "set (take (length hs - maxItem) hs) \<inter> set (drop (length hs - maxItem) hs) = {}"
    using assms(1) by (rule set_take_disj_set_drop_if_distinct) simp
  ultimately have h: "hs ! i \<notin> set (last_n maxItem hs)" by (auto simp: last_n_def)
  have "set (last_n maxItem hs) \<subseteq> set hs" by (auto simp: last_n_def dest: in_set_dropD)
  note image_avoids [OF _ h this assms(3), of ev_handle "set (map reset_event ?r)"]
  from networks_kept [OF rne vs(2) _ this [OF reset_handles [of ?r, unfolded vs(1)]]] have "(hs ! i, t) \<in> set (networks (mAllNetworkHandles (cached_network
      (fold (enter_network (clk 0)) (map reset_event ?r) ?r))))"
    using vs(3) assms(4) by simp
  then show ?thesis unfolding Let_def s_def [symmetric] up_networks_def reset_events notify_networks .
qed

theorem reset_leaves_older_networks_witness:
  "let s = bring_up (\<lambda>_. 7) 1 [11, 12, 13, 14, 15, 16] (new_system_status :: unit system_status)
    in (11, 1) \<in> set (up_networks (notify_all (\<lambda>_. 7) (resetNetworkInfo s) s))"
proof -
  have "distinct [11, 12, 13, 14, 15, 16 :: u64]" "length [11, 12, 13, 14, 15, 16 :: u64] \<le> MAX_NETWORK_HANDLES"
    "NETWORK_HANDLE_UNKNOWN \<notin> set [11, 12, 13, 14, 15, 16]" "0 < length [11, 12, 13, 14, 15, 16 :: u64] - maxItem"
    by (simp_all add: MAX_NETWORK_HANDLES_def NETWORK_HANDLE_UNKNOWN_def maxItem_def)
  from reset_leaves_older_networks [where 'a = unit and clk = "\<lambda>_. 7" and t = 1, OF this]
  show ?thesis unfolding nth_Cons_0 .
qed

end
