(* ===== verification/NavData.thy ===== *)
theory NavData
  imports SsReports
begin

text \<open>
  Where the engine's list of satellites goes in the table of navigation data of
  \<^verbatim>\<open>gps/core/SystemStatus.cpp\<close>.
\<close>

definition known_sv :: "nat \<Rightarrow> bool" where
  "known_sv i \<longleftrightarrow> (GPS_MIN \<le> i \<and> i < GPS_MIN + GPS_NUM) \<or> (GLO_MIN \<le> i \<and> i < GLO_MIN + GLO_NUM)
     \<or> (QZSS_MIN \<le> i \<and> i < QZSS_MIN + QZSS_NUM) \<or> (BDS_MIN \<le> i \<and> i < BDS_MIN + BDS_NUM)
     \<or> (GAL_MIN \<le> i \<and> i < GAL_MIN + GAL_NUM) \<or> (NAVIC_MIN \<le> i \<and> i < NAVIC_MIN + NAVIC_NUM)"

lemma nav_offset_inside: "nav_offset i < SV_ALL_NUM"
  unfolding nav_offset_def Let_def sv_defs by auto

lemma nav_offset_inj: "known_sv i \<Longrightarrow> known_sv j \<Longrightarrow> nav_offset i = nav_offset j \<Longrightarrow> i = j"
  unfolding known_sv_def nav_offset_def Let_def sv_defs by (elim disjE conjE; simp)

lemma length_put_navs [simp]: "length (fold put_nav ns navs) = length navs"
  by (induction ns arbitrary: navs) (simp_all add: put_nav_def)

lemma put_navs_other:
  "\<forall>n\<in>set ns. gnssSvId n \<noteq> 0 \<longrightarrow> nav_offset (unat (gnssSvId n)) \<noteq> k \<Longrightarrow> fold put_nav ns navs ! k = navs ! k"
  by (induction ns arbitrary: navs) (simp_all add: put_nav_def)

lemma put_navs_at:
  assumes "n \<in> set ns" "gnssSvId n \<noteq> 0" "\<forall>m\<in>set ns. gnssSvId m \<noteq> 0 \<longrightarrow> known_sv (unat (gnssSvId m))"
    "distinct (map gnssSvId (filter (\<lambda>m. gnssSvId m \<noteq> 0) ns))" "nav_offset (unat (gnssSvId n)) < length navs"
  shows "fold put_nav ns navs ! nav_offset (unat (gnssSvId n))
    = \<lparr>mNavType = ucast (nav_type n), mNavSource = ucast (nav_src n), mAgeSec = nav_age n\<rparr>"
proof -
  obtain xs ys where x: "ns = xs @ n # ys" using assms(1) by (auto dest: split_list)
  let ?k = "nav_offset (unat (gnssSvId n))"
  have "nav_offset (unat (gnssSvId m)) \<noteq> ?k" if m: "m \<in> set ys" "gnssSvId m \<noteq> 0" for m
  proof
    assume "nav_offset (unat (gnssSvId m)) = ?k"
    moreover have "known_sv (unat (gnssSvId m))" "known_sv (unat (gnssSvId n))" using assms(1,2,3) m x by auto
    ultimately have "unat (gnssSvId m) = unat (gnssSvId n)" using nav_offset_inj by blast
    then have "gnssSvId m = gnssSvId n" by (rule word_unat_eq_iff [THEN iffD2])
    moreover have "gnssSvId n \<notin> gnssSvId ` set (filter (\<lambda>m. gnssSvId m \<noteq> 0) ys)" using assms(2,4) x by simp
    moreover have "m \<in> set (filter (\<lambda>m. gnssSvId m \<noteq> 0) ys)" using m by simp
    ultimately show False by (metis imageI)
  qed
  then have "fold put_nav ys navs' ! ?k = navs' ! ?k" for navs' by (intro put_navs_other) blast
  then have "fold put_nav ns navs ! ?k = put_nav n (fold put_nav xs navs) ! ?k"
    unfolding x by (simp only: fold_append fold_simps comp_apply)
  with assms(2,5) show ?thesis by (simp add: put_nav_def)
qed

text \<open>
  C25: The engine's array of 176 satellites, of which the entries with number 0 are skipped, is
  entered without writing outside the table of 148 entries.  When the others are known and
  listed once, the entry of each holds what was listed for it; every entry that none is written
  to is zero, except that those of NavIC hold what the memory of the table held before.
\<close>

theorem nav_data_is_entered:
  assumes "length mem = SV_ALL_NUM" "length (navData info) = GNSS_MAX_SV_INFO_LIST_SIZE"
  shows "(\<forall>n\<in>set (navData info). nav_offset (unat (gnssSvId n)) < SV_ALL_NUM) \<and>
    (distinct (map gnssSvId (filter (\<lambda>n. gnssSvId n \<noteq> 0) (navData info))) \<and>
     (\<forall>n\<in>set (navData info). gnssSvId n \<noteq> 0 \<longrightarrow> known_sv (unat (gnssSvId n))) \<longrightarrow>
     (\<forall>n\<in>set (navData info). gnssSvId n \<noteq> 0 \<longrightarrow> PQWP7_from mem info ! nav_offset (unat (gnssSvId n))
        = \<lparr>mNavType = ucast (nav_type n), mNavSource = ucast (nav_src n), mAgeSec = nav_age n\<rparr>)) \<and>
    (\<forall>k<SV_ALL_NUM. (\<forall>n\<in>set (navData info). gnssSvId n \<noteq> 0 \<longrightarrow> nav_offset (unat (gnssSvId n)) \<noteq> k) \<longrightarrow>
      PQWP7_from mem info ! k = (if k < SV_ALL_NUM_MIN then zero_nav else mem ! k))"
proof -
  let ?navs = "zero_navs SV_ALL_NUM_MIN @ drop SV_ALL_NUM_MIN mem"
  have l: "length ?navs = SV_ALL_NUM" by (simp add: assms(1) zero_navs_def sv_defs)
  have "fold (\<lambda>i. put_nav (navData info ! i)) [0..<GNSS_MAX_SV_INFO_LIST_SIZE] ?navs
      = fold put_nav (map ((!) (navData info)) [0..<length (navData info)]) ?navs"
    unfolding assms(2) by (simp add: fold_map comp_def)
  then have eq: "PQWP7_from mem info = fold put_nav (navData info) ?navs" by (simp add: PQWP7_from_def map_nth)
  have m: "?navs ! k = (if k < SV_ALL_NUM_MIN then zero_nav else mem ! k)" if "k < SV_ALL_NUM" for k
    using that assms(1) by (auto simp: nth_append zero_navs_def sv_defs)
  show ?thesis
    unfolding eq
  proof (intro conjI impI ballI allI)
    fix k assume "k < SV_ALL_NUM" "\<forall>n\<in>set (navData info). gnssSvId n \<noteq> 0 \<longrightarrow> nav_offset (unat (gnssSvId n)) \<noteq> k"
    with m [of k] put_navs_other [of "navData info" k ?navs]
    show "fold put_nav (navData info) ?navs ! k = (if k < SV_ALL_NUM_MIN then zero_nav else mem ! k)" by simp
  qed (use nav_offset_inside l in \<open>auto intro!: put_navs_at\<close>)
qed

definition two_satellites :: "debug_info \<Rightarrow> debug_info" where
  "two_satellites info = info\<lparr>navData := [\<lparr>gnssSvId = 5, nav_type = 1, nav_src = 2, nav_age = 30\<rparr>,
     \<lparr>gnssSvId = 301, nav_type = 2, nav_src = 1, nav_age = 60\<rparr>]
     @ replicate 174 \<lparr>gnssSvId = 0, nav_type = 0, nav_src = 0, nav_age = 0\<rparr>\<rparr>"

theorem nav_data_is_entered_witness:
  "\<forall>info. mAgeSec (PQWP7_from (zero_navs SV_ALL_NUM) (two_satellites info) ! nav_offset 301) = 60
    \<and> PQWP7_from (zero_navs SV_ALL_NUM) (two_satellites info) ! 0 = zero_nav"
proof
  fix info
  let ?n = "\<lparr>gnssSvId = 301, nav_type = 2, nav_src = 1, nav_age = 60 :: u32\<rparr>"
  have s: "set (navData (two_satellites info)) = {\<lparr>gnssSvId = 5, nav_type = 1, nav_src = 2, nav_age = 30\<rparr>, ?n,
      \<lparr>gnssSvId = 0, nav_type = 0, nav_src = 0, nav_age = 0\<rparr>}" by (simp add: two_satellites_def)
  have d: "distinct (map gnssSvId (filter (\<lambda>n. gnssSvId n \<noteq> 0) (navData (two_satellites info))))"
    by (simp add: two_satellites_def filter_replicate)
  have k: "\<forall>n\<in>set (navData (two_satellites info)). gnssSvId n \<noteq> 0 \<longrightarrow> known_sv (unat (gnssSvId n))"
    unfolding s by (simp add: known_sv_def sv_defs)
  have l: "length (zero_navs SV_ALL_NUM) = SV_ALL_NUM" "length (navData (two_satellites info)) = GNSS_MAX_SV_INFO_LIST_SIZE"
    by (simp_all add: zero_navs_def two_satellites_def GNSS_MAX_SV_INFO_LIST_SIZE_def)
  have o: "nav_offset 5 \<noteq> 0" "nav_offset 301 \<noteq> 0" by (simp_all add: nav_offset_def Let_def sv_defs)
  note t = nav_data_is_entered [OF l, THEN conjunct2]
  from t [THEN conjunct1, rule_format, OF conjI [OF d k], of ?n] have "PQWP7_from (zero_navs SV_ALL_NUM) (two_satellites info) ! nav_offset 301
      = \<lparr>mNavType = 2, mNavSource = 1, mAgeSec = 60\<rparr>" unfolding s by simp
  moreover have "\<forall>n\<in>set (navData (two_satellites info)). gnssSvId n \<noteq> 0 \<longrightarrow> nav_offset (unat (gnssSvId n)) \<noteq> 0"
    unfolding s using o by simp
  with t [THEN conjunct2, rule_format, of 0] have "PQWP7_from (zero_navs SV_ALL_NUM) (two_satellites info) ! 0 = zero_nav"
    by (simp add: sv_defs)
  ultimately show "mAgeSec (PQWP7_from (zero_navs SV_ALL_NUM) (two_satellites info) ! nav_offset 301) = 60
    \<and> PQWP7_from (zero_navs SV_ALL_NUM) (two_satellites info) ! 0 = zero_nav" by simp
qed

text \<open>A satellite of an unknown number is written over the first entry, that of the first GPS one.\<close>

lemma unknown_satellite_overwrites_first: "\<not> known_sv i \<Longrightarrow> nav_offset i = nav_offset GPS_MIN"
  unfolding known_sv_def nav_offset_def Let_def sv_defs by auto

end
