(* ===== verification/LocCfg.thy ===== *)
theory LocCfg
  imports CNumber
begin

text \<open>
  \<^verbatim>\<open>utils/loc_cfg.cpp\<close> and the text helpers of \<^verbatim>\<open>utils/loc_misc_utils.cpp\<close>: lines of
  configuration files read into the entries of a table.

  A string is the characters before its terminator.  The pointers of a table are addresses of any type, and
  the memory maps them to a string, an integer or a floating number; the flags of validity have
  addresses of their own.  A file is the text that is left to read.  \<open>None\<close> is a loop that does
  not end, or an access outside a buffer.
\<close>

section \<open>Text helpers\<close>

text \<open>
  The loop of \<open>loc_util_trim_space\<close>: whether a character that is no space was seen, the
  characters written so far, and the number of them up to the last that is no space.
\<close>

fun trim_loop :: "bool \<Rightarrow> string \<Rightarrow> nat \<Rightarrow> string \<Rightarrow> string" where
  "trim_loop first_nonspace w last_nonspace [] = take last_nonspace w"
| "trim_loop first_nonspace w last_nonspace (c # cs) =
     (let first = first_nonspace \<or> \<not> is_space c;
          w' = (if first then w @ [c] else w);
          l' = (if first \<and> \<not> is_space c then length w' else last_nonspace)
      in trim_loop first w' l' cs)"

definition loc_util_trim_space :: "string \<Rightarrow> string" where
  "loc_util_trim_space s = trim_loop False [] 0 s"

text \<open>\<open>loc_util_split_string\<close>: the parts between delimiters, and at most \<open>max_num\<close> of them.\<close>

fun split_loop :: "nat \<Rightarrow> char \<Rightarrow> string \<Rightarrow> string \<Rightarrow> string list" where
  "split_loop room d part [] = [part]"
| "split_loop room d part (c # cs) =
     (if c = d then (if room \<le> 1 then [part] else part # split_loop (room - 1) d [] cs)
      else split_loop room d (part @ [c]) cs)"

definition loc_util_split_string :: "string \<Rightarrow> nat \<Rightarrow> char \<Rightarrow> string list" where
  "loc_util_split_string raw_string max_num_substrings delimiter =
     split_loop max_num_substrings delimiter [] raw_string"

text \<open>What trimming means: no spaces at either end.\<close>

definition strip :: "string \<Rightarrow> string" where
  "strip s = rev (dropWhile is_space (rev (dropWhile is_space s)))"

lemma rstrip_snoc: "rev (dropWhile is_space (rev (xs @ [c]))) = (if is_space c then rev (dropWhile is_space (rev xs)) else xs @ [c])"
  by simp

lemma trim_loop_seen:
  "trim_loop True w (length (rev (dropWhile is_space (rev w)))) s = rev (dropWhile is_space (rev (w @ s)))"
proof (induction s arbitrary: w)
  case Nil
  have "take (length (dropWhile is_space (rev w))) w = rev (dropWhile is_space (rev w))"
    by (metis append_take_drop_id append_eq_conv_conj length_rev rev_append rev_rev_ident takeWhile_dropWhile_id)
  then show ?case by simp
next
  case (Cons c cs)
  show ?case using Cons [of "w @ [c]"] by (cases "is_space c") simp_all
qed

lemma trim_loop_unseen: "trim_loop False [] 0 s = strip s"
proof (induction s)
  case Nil
  then show ?case by (simp add: strip_def)
next
  case (Cons c cs)
  show ?case
  proof (cases "is_space c")
    case True
    with Cons show ?thesis by (simp add: strip_def)
  next
    case False
    with trim_loop_seen [of "[c]" cs] show ?thesis by (simp add: strip_def)
  qed
qed

lemma trim_space_strip: "loc_util_trim_space s = strip s"
  by (simp add: loc_util_trim_space_def trim_loop_unseen)

text \<open>
  The loop that shifts the characters of a string to its start and remembers the last one
  that is no space computes the string without the spaces at both ends.
\<close>

theorem trim_space_is_strip: "loc_util_trim_space s = strip s"
  by (rule trim_space_strip)

fun joined :: "char \<Rightarrow> string list \<Rightarrow> string" where
  "joined d [] = []"
| "joined d [x] = x"
| "joined d (x # xs) = x @ d # joined d xs"

lemma split_loop_part: "d \<notin> set xs \<Longrightarrow> split_loop room d part (xs @ ys) = split_loop room d (part @ xs) ys"
  by (induction xs arbitrary: part) auto

lemma split_loop_joined:
  "\<forall>x\<in>set parts. d \<notin> set x \<Longrightarrow> parts \<noteq> [] \<Longrightarrow> length parts \<le> room \<Longrightarrow> split_loop room d [] (joined d parts) = parts"
proof (induction d parts arbitrary: room rule: joined.induct)
  case (2 d x)
  then show ?case using split_loop_part [of d x room "[]" "[]"] by simp
next
  case (3 d x y ys)
  then show ?case using split_loop_part [of d x room "[]" "d # joined d (y # ys)"] by simp
qed simp

text \<open>
  Parts joined by the delimiter are taken apart into the same parts, as long as they are
  not more than the caller has room for.
\<close>

theorem split_joined:
  assumes "\<forall>x\<in>set parts. d \<notin> set x" "parts \<noteq> []" "length parts \<le> room"
  shows "loc_util_split_string (joined d parts) room d = parts"
  using assms by (simp add: loc_util_split_string_def split_loop_joined)

theorem split_joined_witness:
  "loc_util_split_string (joined (CHR '' '') [''all'', ''exclude'', ''sm8650'']) 20 (CHR '' '') = [''all'', ''exclude'', ''sm8650'']"
  by (rule split_joined) simp_all

lemma split_loop_take:
  "\<forall>x\<in>set ps. d \<notin> set x \<Longrightarrow> ps \<noteq> [] \<Longrightarrow> 0 < room \<Longrightarrow> split_loop room d [] (joined d ps) = take room ps"
proof (induction d ps arbitrary: room rule: joined.induct)
  case (2 d x)
  then show ?case using split_loop_part [of d x room "[]" "[]"] by simp
next
  case (3 d x y ys)
  then show ?case using split_loop_part [of d x room "[]" "d # joined d (y # ys)"]
    by (cases "room = 1") (auto simp: take_Cons')
qed simp

lemma split_loop_length: "split_loop room d part s \<noteq> [] \<and> length (split_loop room d part s) \<le> max 1 room"
proof (induction s arbitrary: room part)
  case (Cons c cs)
  from Cons [of "room - 1" "[]"] Cons [of room "part @ [c]"] show ?case by auto
qed simp

section \<open>Tables\<close>

datatype param_type = StringParam | NumberParam | DoubleParam | OtherParam

record 'a loc_param_s =
  param_name :: string
  param_ptr :: "'a option"
  param_set :: "'a option"
  param_kind :: param_type

text \<open>The value of a line: its text, its integer, and its floating number.\<close>

record 'f loc_param_v =
  pv_name :: string
  param_str_value :: string
  param_int_value :: u32
  param_double_value :: 'f

record ('a, 'f) cfg_mem =
  strs :: "'a \<Rightarrow> string"
  nums :: "'a \<Rightarrow> u32"
  dbls :: "'a \<Rightarrow> 'f"
  flags :: "'a \<Rightarrow> bool"

definition LOC_MAX_PARAM_STRING :: nat where "LOC_MAX_PARAM_STRING = 172"

text \<open>\<open>strlcpy\<close>: nothing is written into a buffer of no size.\<close>

definition strlcpy :: "string \<Rightarrow> string \<Rightarrow> nat \<Rightarrow> string" where
  "strlcpy old s n = (if n = 0 then old else take (n - 1) s)"

definition set_flag :: "'a option \<Rightarrow> bool \<Rightarrow> ('a, 'f) cfg_mem \<Rightarrow> ('a, 'f) cfg_mem" where
  "set_flag p b mem = (case p of None \<Rightarrow> mem | Some a \<Rightarrow> mem\<lparr>flags := (flags mem)(a := b)\<rparr>)"

definition loc_set_config_entry :: "'a loc_param_s \<Rightarrow> 'f loc_param_v \<Rightarrow> nat \<Rightarrow> ('a, 'f) cfg_mem \<Rightarrow> bool \<times> ('a, 'f) cfg_mem" where
  "loc_set_config_entry entry v string_len mem =
     (case param_ptr entry of
        None \<Rightarrow> (False, mem)
      | Some a \<Rightarrow>
          if param_name entry \<noteq> pv_name v then (False, mem)
          else case param_kind entry of
            StringParam \<Rightarrow> (True, set_flag (param_set entry) True
              (mem\<lparr>strs := (strs mem)(a := if param_str_value v = ''NULL'' then []
                 else strlcpy (strs mem a) (param_str_value v) string_len)\<rparr>))
          | NumberParam \<Rightarrow> (True, set_flag (param_set entry) True (mem\<lparr>nums := (nums mem)(a := param_int_value v)\<rparr>))
          | DoubleParam \<Rightarrow> (True, set_flag (param_set entry) True (mem\<lparr>dbls := (dbls mem)(a := param_double_value v)\<rparr>))
          | OtherParam \<Rightarrow> (False, mem))"

text \<open>The entries from first to last, with the number of those that took the value.\<close>

fun fill_entries :: "'a loc_param_s list \<Rightarrow> 'f loc_param_v \<Rightarrow> nat \<Rightarrow> nat \<times> ('a, 'f) cfg_mem \<Rightarrow> nat \<times> ('a, 'f) cfg_mem" where
  "fill_entries [] v n s = s"
| "fill_entries (e # es) v n (ret, mem) =
     (let (ok, mem') = loc_set_config_entry e v n mem
      in fill_entries es v n (if ok then Suc ret else ret, mem'))"

text \<open>\<open>strtok_r\<close> with one delimiter: the token and what follows it.\<close>

definition strtok :: "char \<Rightarrow> string \<Rightarrow> (string \<times> string) option" where
  "strtok d s = (let t = dropWhile (\<lambda>c. c = d) s in
     if t = [] then None else Some (takeWhile (\<lambda>c. c \<noteq> d) t, tl (dropWhile (\<lambda>c. c \<noteq> d) t)))"

definition is_hex :: "string \<Rightarrow> bool" where
  "is_hex s \<longleftrightarrow> length s \<ge> 3 \<and> s ! 0 = CHR ''0'' \<and> (s ! 1 = CHR ''x'' \<or> s ! 1 = CHR ''X'')"

definition config_value :: "(string \<Rightarrow> 'f) \<Rightarrow> 'f \<Rightarrow> string \<Rightarrow> string \<Rightarrow> 'f loc_param_v" where
  "config_value atof zero name str =
     (let n = loc_util_trim_space name; s = loc_util_trim_space str
      in if is_hex s then \<lparr>pv_name = n, param_str_value = s,
             param_int_value = word_of_int (strtol 16 (drop 2 s)), param_double_value = zero\<rparr>
         else \<lparr>pv_name = n, param_str_value = s, param_int_value = atoi s, param_double_value = atof s\<rparr>)"

definition loc_fill_conf_item :: "(string \<Rightarrow> 'f) \<Rightarrow> 'f \<Rightarrow> 'a loc_param_s list \<Rightarrow> nat \<Rightarrow> string \<Rightarrow> ('a, 'f) cfg_mem \<Rightarrow> nat \<times> ('a, 'f) cfg_mem" where
  "loc_fill_conf_item atof zero table string_len input_buf mem =
     (case strtok (CHR ''='') input_buf of
        None \<Rightarrow> (0, mem)
      | Some (name, rest) \<Rightarrow>
          if rest = [] then (0, mem)
          else fill_entries table (config_value atof zero name rest) string_len (0, mem))"

section \<open>Files and buffers\<close>

text \<open>\<open>fgets\<close> with a buffer of \<open>n\<close>: up to the newline, and at most \<open>n - 1\<close> characters.\<close>

fun read_line :: "nat \<Rightarrow> string \<Rightarrow> string \<times> string" where
  "read_line 0 s = ([], s)"
| "read_line (Suc n) [] = ([], [])"
| "read_line (Suc n) (c # cs) =
     (if c = CHR 10 then ([c], cs) else let (l, r) = read_line n cs in (c # l, r))"

lemma read_line_append: "read_line n s = (l, r) \<Longrightarrow> s = l @ r"
  by (induction n s arbitrary: l r rule: read_line.induct) (auto split: if_splits prod.splits)

lemma read_line_shorter: "0 < n \<Longrightarrow> s \<noteq> [] \<Longrightarrow> length (snd (read_line n s)) < length s"
proof -
  assume "0 < n" "s \<noteq> []"
  then obtain m c cs where "n = Suc m" "s = c # cs" by (metis gr0_implies_Suc list.exhaust)
  then show ?thesis using read_line_append [of m cs] by (cases "read_line m cs") auto
qed

lemma read_line_rest:
  "(line, rest) = read_line (n - Suc 0) s \<Longrightarrow> \<not> n < 2 \<Longrightarrow> s \<noteq> [] \<Longrightarrow> length rest < length s"
  using read_line_shorter [of "n - 1" s] by (cases "read_line (n - 1) s") auto

text \<open>A buffer is read as a string: up to a character that is zero.\<close>

definition c_string :: "string \<Rightarrow> string" where
  "c_string s = takeWhile (\<lambda>c. c \<noteq> CHR 0x00) s"

text \<open>
  The loop of \<open>loc_read_conf_r_long\<close>.  The number of parameters still expected is an
  \<open>unsigned int\<close>: it wraps when a line fills more entries than are expected.  With a buffer of
  one character nothing is ever read, and the loop does not end.
\<close>

function read_params :: "(string \<Rightarrow> 'f) \<Rightarrow> 'f \<Rightarrow> 'a loc_param_s list \<Rightarrow> nat \<Rightarrow> u32 \<Rightarrow> string \<Rightarrow> ('a, 'f) cfg_mem
    \<Rightarrow> (string \<times> ('a, 'f) cfg_mem) option" where
  "read_params atof zero table string_len num_params s mem =
     (if num_params = 0 then Some (s, mem)
      else if string_len < 2 then None
      else if s = [] then Some (s, mem)
      else let (line, rest) = read_line (string_len - 1) s;
               (filled, mem') = loc_fill_conf_item atof zero table string_len (c_string line) mem
        in read_params atof zero table string_len (num_params - of_nat filled) rest mem')"
  by pat_completeness auto
termination read_params
  by (relation "measure (\<lambda>(_, _, _, _, _, s, _). length s)") (auto dest: read_line_rest)

declare read_params.simps [simp del]

definition clear_flags :: "'a loc_param_s list \<Rightarrow> ('a, 'f) cfg_mem \<Rightarrow> ('a, 'f) cfg_mem" where
  "clear_flags table mem = fold (\<lambda>e m. set_flag (param_set e) False m) table mem"

definition loc_read_conf_r_long :: "(string \<Rightarrow> 'f) \<Rightarrow> 'f \<Rightarrow> 'a loc_param_s list \<Rightarrow> nat \<Rightarrow> string option \<Rightarrow> ('a, 'f) cfg_mem
    \<Rightarrow> (int \<times> string option \<times> ('a, 'f) cfg_mem) option" where
  "loc_read_conf_r_long atof zero table string_len conf_fp mem =
     (case conf_fp of
        None \<Rightarrow> Some (-1, None, mem)
      | Some s \<Rightarrow> (case read_params atof zero table string_len (of_nat (length table)) s (clear_flags table mem) of
            None \<Rightarrow> None
          | Some (rest, mem') \<Rightarrow> Some (0, Some rest, mem')))"

text \<open>
  The loop of \<open>loc_update_conf_long\<close> over the lines of a buffer, with the number of lines taken.
\<close>

function update_lines :: "(string \<Rightarrow> 'f) \<Rightarrow> 'f \<Rightarrow> 'a loc_param_s list \<Rightarrow> nat \<Rightarrow> u32 \<Rightarrow> int \<Rightarrow> string \<Rightarrow> ('a, 'f) cfg_mem
    \<Rightarrow> int \<times> ('a, 'f) cfg_mem" where
  "update_lines atof zero table string_len num_params ret s mem =
     (case strtok (CHR 10) s of
        None \<Rightarrow> (ret, mem)
      | Some (line, rest) \<Rightarrow>
          if num_params = 0 then (ret, mem)
          else let (filled, mem') = loc_fill_conf_item atof zero table string_len line mem
            in update_lines atof zero table string_len (num_params - of_nat filled) (ret + 1) rest mem')"
  by pat_completeness auto

lemma strtok_shorter:
  assumes "strtok d s = Some (t, rest)"
  shows "length rest < length s"
proof -
  let ?u = "dropWhile (\<lambda>c. c = d) s"
  from assms have u: "?u \<noteq> []" "rest = tl (dropWhile (\<lambda>c. c \<noteq> d) ?u)"
    by (auto simp: strtok_def Let_def split: if_splits)
  then obtain x xs where x: "?u = x # xs" by (cases ?u) auto
  have "x \<noteq> d" using hd_dropWhile [of "\<lambda>c. c = d" s] u(1) x by simp
  then have "length rest \<le> length xs" using u(2) x length_dropWhile_le [of "\<lambda>c. c \<noteq> d" xs] by simp
  also have "\<dots> < length ?u" using x by simp
  also have "\<dots> \<le> length s" by (rule length_dropWhile_le)
  finally show ?thesis .
qed

termination update_lines
  by (relation "measure (\<lambda>(_, _, _, _, _, _, s, _). length s)") (auto dest: strtok_shorter)

declare update_lines.simps [simp del]

text \<open>
  The length is passed with the data.  A negative one makes \<open>malloc\<close> fail, except that of minus
  one, with which the copy runs over everything; one that is too long reads behind the data.
\<close>

definition loc_update_conf_long :: "(string \<Rightarrow> 'f) \<Rightarrow> 'f \<Rightarrow> 'a loc_param_s list \<Rightarrow> nat \<Rightarrow> string option \<Rightarrow> int \<Rightarrow> ('a, 'f) cfg_mem
    \<Rightarrow> (int \<times> ('a, 'f) cfg_mem) option" where
  "loc_update_conf_long atof zero table string_len conf_data len mem =
     (case conf_data of
        None \<Rightarrow> Some (-1, mem)
      | Some data \<Rightarrow>
          if len = 0 \<or> table = [] then Some (-1, mem)
          else if len < -1 then Some (-1, mem)
          else if len = -1 \<or> int (length data) < len then None
          else Some (update_lines atof zero table string_len (of_nat (length table) - 1) 0
                 (c_string (take (nat len) data)) mem))"

section \<open>Lines and entries\<close>

definition blanks :: "string \<Rightarrow> bool" where
  "blanks s \<longleftrightarrow> list_all is_space s"

lemma dropWhile_blanks [simp]: "blanks b \<Longrightarrow> dropWhile is_space (b @ s) = dropWhile is_space s"
  by (induction b) (auto simp: blanks_def)

lemma blanks_rev [simp]: "blanks (rev b) = blanks b"
  by (simp add: blanks_def)

definition trimmed :: "string \<Rightarrow> bool" where
  "trimmed x \<longleftrightarrow> x \<noteq> [] \<and> \<not> is_space (hd x) \<and> \<not> is_space (last x)"

lemma trimmed_ends: "trimmed x \<Longrightarrow> dropWhile is_space (x @ s) = x @ s \<and> dropWhile is_space (rev x @ t) = rev x @ t"
proof
  assume x: "trimmed x"
  then obtain c cs where "x = c # cs" "\<not> is_space c" by (cases x) (auto simp: trimmed_def)
  then show "dropWhile is_space (x @ s) = x @ s" by simp
  from x have "rev x \<noteq> []" "\<not> is_space (hd (rev x))" by (auto simp: trimmed_def hd_rev)
  then obtain d ds where "rev x = d # ds" "\<not> is_space d" by (cases "rev x") auto
  then show "dropWhile is_space (rev x @ t) = rev x @ t" by simp
qed

lemma strip_blanks: "blanks b \<Longrightarrow> blanks c \<Longrightarrow> trimmed x \<Longrightarrow> strip (b @ x @ c) = x"
  using trimmed_ends [of x c "[]"] by (simp add: strip_def)

lemma not_in_blanks: "blanks b \<Longrightarrow> \<not> is_space c \<Longrightarrow> c \<notin> set b"
  by (auto simp: blanks_def list_all_iff)

text \<open>A line of a configuration file, with spaces wherever they may stand.\<close>

definition conf_line :: "string \<Rightarrow> string \<Rightarrow> string \<Rightarrow> string \<Rightarrow> string \<Rightarrow> string \<Rightarrow> string" where
  "conf_line b1 name b2 b3 v b4 = b1 @ name @ b2 @ CHR ''='' # b3 @ v @ b4"

lemma strtok_first: "d \<notin> set t \<Longrightarrow> t \<noteq> [] \<Longrightarrow> strtok d (t @ d # rest) = Some (t, rest)"
  by (cases t) (auto simp: strtok_def Let_def takeWhile_append dropWhile_append)

lemma fill_conf_line:
  assumes "blanks b1" "blanks b2" "blanks b3" "blanks b4" "trimmed name" "CHR ''='' \<notin> set name" "trimmed v"
  shows "loc_fill_conf_item atof zero table n (conf_line b1 name b2 b3 v b4) mem
    = fill_entries table (config_value atof zero name v) n (0, mem)"
proof -
  have sp: "\<not> is_space CHR ''=''" by (simp add: is_space_def)
  have "CHR ''='' \<notin> set (b1 @ name @ b2)" using assms not_in_blanks [OF _ sp] by simp
  moreover have "name \<noteq> []" "v \<noteq> []" using assms by (auto simp: trimmed_def)
  ultimately have "strtok (CHR ''='') (conf_line b1 name b2 b3 v b4) = Some (b1 @ name @ b2, b3 @ v @ b4)"
    using strtok_first [of "CHR ''=''" "b1 @ name @ b2" "b3 @ v @ b4"] by (simp add: conf_line_def)
  moreover have "config_value atof zero (b1 @ name @ b2) (b3 @ v @ b4) = config_value atof zero name v"
    using assms strip_blanks [of "[]" "[]" name] strip_blanks [of "[]" "[]" v]
    by (simp add: config_value_def trim_space_strip strip_blanks blanks_def)
  ultimately show ?thesis using \<open>v \<noteq> []\<close> by (simp add: loc_fill_conf_item_def)
qed

lemma fill_other_names: "pv_name v \<notin> param_name ` set table \<Longrightarrow> fill_entries table v n s = s"
  by (induction table v n s rule: fill_entries.induct) (auto simp: loc_set_config_entry_def split: option.splits)

lemma fill_one_entry:
  "distinct (map param_name table) \<Longrightarrow> e \<in> set table \<Longrightarrow> param_name e = pv_name v \<Longrightarrow>
    fill_entries table v n (k, mem) = (let (ok, mem') = loc_set_config_entry e v n mem in (if ok then Suc k else k, mem'))"
proof (induction table arbitrary: k mem)
  case (Cons x xs)
  show ?case
  proof (cases "x = e")
    case True
    with Cons.prems show ?thesis by (auto simp: fill_other_names split: prod.splits)
  next
    case False
    with Cons.prems have "param_name x \<noteq> pv_name v" by (metis distinct.simps(2) image_eqI list.set_map list.simps(9) set_ConsD)
    then have "loc_set_config_entry x v n mem = (False, mem)" by (simp add: loc_set_config_entry_def split: option.splits)
    with Cons False show ?thesis by simp
  qed
qed simp

lemma show_int_edges: "trimmed (show_int i)" "\<not> is_hex (show_int i)"
proof -
  have sp: "\<not> is_space c" if "c = CHR ''-'' \<or> is_digit c" for c
    using that by (auto simp: is_space_def is_digit_def)
  have "show_int i \<noteq> []" by (simp add: show_int_def)
  then show "trimmed (show_int i)" using show_int_chars [of "hd (show_int i)" i] show_int_chars [of "last (show_int i)" i] sp
    by (simp add: trimmed_def)
  show "\<not> is_hex (show_int i)"
  proof
    assume h: "is_hex (show_int i)"
    then have "show_int i ! 1 \<in> set (show_int i)" by (simp add: is_hex_def)
    with show_int_chars have "show_int i ! 1 = CHR ''-'' \<or> is_digit (show_int i ! 1)" by blast
    with h show False by (auto simp: is_hex_def is_digit_def)
  qed
qed

lemma atoi_show_word: "atoi (show_int (sint w)) = w"
proof (rule signed_word_eqI)
  show "sint (atoi (show_int (sint w))) = sint w"
    using atoi_show [of "sint w"] sint_greater_eq [of w] sint_less [of w] by simp
qed

lemma fill_text_entry:
  assumes "blanks b1" "blanks b2" "blanks b3" "blanks b4" "trimmed (param_name e)" "CHR ''='' \<notin> set (param_name e)"
    "distinct (map param_name table)" "e \<in> set table" "param_ptr e = Some a"
    "param_kind e = StringParam" "trimmed v" "v \<noteq> ''NULL''" "length v < n"
  shows "loc_fill_conf_item atof zero table n (conf_line b1 (param_name e) b2 b3 v b4) mem
    = (1, set_flag (param_set e) True (mem\<lparr>strs := (strs mem)(a := v)\<rparr>))"
proof -
  let ?v = "config_value atof zero (param_name e) v"
  have v: "pv_name ?v = param_name e" "param_str_value ?v = v"
    using assms strip_blanks [of "[]" "[]"] by (simp_all add: config_value_def trim_space_strip blanks_def Let_def)
  show ?thesis
    using assms v by (simp add: fill_conf_line fill_one_entry [of table e ?v] loc_set_config_entry_def strlcpy_def)
qed

text \<open>
  A line with a name of the table, an equals sign and a text sets exactly the entry of that
  name to that text, with the spaces around both ignored: nothing else of the memory changes
  but the flag of the entry.
\<close>

theorem line_sets_text_entry:
  assumes "blanks b1" "blanks b2" "blanks b3" "blanks b4" "trimmed (param_name e)" "CHR ''='' \<notin> set (param_name e)"
    "distinct (map param_name table)" "e \<in> set table" "param_ptr e = Some a"
    "param_kind e = StringParam" "trimmed v" "v \<noteq> ''NULL''" "length v < n"
  shows "loc_fill_conf_item atof zero table n (conf_line b1 (param_name e) b2 b3 v b4) mem
    = (1, set_flag (param_set e) True (mem\<lparr>strs := (strs mem)(a := v)\<rparr>))"
  using assms by (rule fill_text_entry)

text \<open>Any value that is no space at its ends is taken by an entry for a text or a number.\<close>

lemma fill_takes:
  assumes "trimmed (param_name e)" "CHR ''='' \<notin> set (param_name e)" "distinct (map param_name table)" "e \<in> set table"
    "param_ptr e = Some a" "param_kind e = StringParam \<or> param_kind e = NumberParam" "trimmed v" "blanks b"
  shows "fst (loc_fill_conf_item atof zero table n (conf_line [] (param_name e) [] [] v b) m) = 1"
proof -
  let ?v = "config_value atof zero (param_name e) v"
  have "pv_name ?v = param_name e"
    using assms strip_blanks [of "[]" "[]"] by (simp add: config_value_def trim_space_strip blanks_def Let_def)
  moreover have "blanks []" by (simp add: blanks_def)
  ultimately show ?thesis
    using assms by (auto simp: fill_conf_line fill_one_entry [of table e ?v] loc_set_config_entry_def)
qed

text \<open>
  C29: The same for a number: the entry gets the 32-bit value that was printed in decimal.
\<close>

theorem line_sets_number_entry:
  assumes "blanks b1" "blanks b2" "blanks b3" "blanks b4" "trimmed (param_name e)" "CHR ''='' \<notin> set (param_name e)"
    "distinct (map param_name table)" "e \<in> set table" "param_ptr e = Some a" "param_kind e = NumberParam"
  shows "loc_fill_conf_item atof zero table n (conf_line b1 (param_name e) b2 b3 (show_int (sint w)) b4) mem
    = (1, set_flag (param_set e) True (mem\<lparr>nums := (nums mem)(a := w)\<rparr>))"
proof -
  let ?v = "config_value atof zero (param_name e) (show_int (sint w))"
  have v: "pv_name ?v = param_name e" "param_int_value ?v = w"
    using assms strip_blanks [of "[]" "[]"] show_int_edges
    by (simp_all add: config_value_def trim_space_strip blanks_def Let_def atoi_show_word)
  show ?thesis
    using assms v show_int_edges(1)
    by (simp add: fill_conf_line fill_one_entry [of table e ?v] loc_set_config_entry_def)
qed

text \<open>The witnesses: a table of two entries.\<close>

definition two_entries :: "nat loc_param_s list" where
  "two_entries = [\<lparr>param_name = ''NMEA_PROVIDER'', param_ptr = Some 1, param_set = None, param_kind = NumberParam\<rparr>,
     \<lparr>param_name = ''SUPL_HOST'', param_ptr = Some 2, param_set = Some 3, param_kind = StringParam\<rparr>]"

definition empty_mem :: "(nat, unit) cfg_mem" where
  "empty_mem = \<lparr>strs = (\<lambda>_. []), nums = (\<lambda>_. 0), dbls = (\<lambda>_. ()), flags = (\<lambda>_. False)\<rparr>"

theorem line_sets_text_entry_witness:
  "strs (snd (loc_fill_conf_item (\<lambda>_. ()) () two_entries 172
     (conf_line '' '' ''SUPL_HOST'' '' '' [] ''supl.qxwz.com'' [CHR 10]) empty_mem)) 2 = ''supl.qxwz.com''"
  using line_sets_text_entry [of "'' ''" "'' ''" "[]" "[CHR 10]" "two_entries ! 1" two_entries 2 "''supl.qxwz.com''" 172
      "\<lambda>_. ()" "()" empty_mem]
  by (simp add: two_entries_def trimmed_def blanks_def is_space_def set_flag_def)

theorem line_sets_number_entry_witness:
  "nums (snd (loc_fill_conf_item (\<lambda>_. ()) () two_entries 172
     (conf_line [] ''NMEA_PROVIDER'' '' '' [] (show_int (sint (- 5 :: u32))) []) empty_mem)) 1 = - 5"
  using line_sets_number_entry [of "[]" "'' ''" "[]" "[]" "two_entries ! 0" two_entries 1 "\<lambda>_. ()" "()" 172
      "- 5" empty_mem]
  by (simp add: two_entries_def trimmed_def blanks_def is_space_def set_flag_def)

section \<open>Reading a block\<close>

text \<open>Lines of a file, each with its newline and short enough for the buffer.\<close>

definition file_line :: "nat \<Rightarrow> string \<Rightarrow> bool" where
  "file_line n l \<longleftrightarrow> (\<exists>t. l = t @ [CHR 10] \<and> CHR 10 \<notin> set t \<and> CHR 0x00 \<notin> set t \<and> length l < n)"

lemma read_whole_line: "CHR 10 \<notin> set t \<Longrightarrow> length t < n \<Longrightarrow> read_line n (t @ CHR 10 # rest) = (t @ [CHR 10], rest)"
proof (induction t arbitrary: n)
  case Nil
  then show ?case by (cases n) auto
next
  case (Cons c cs)
  then show ?case by (cases n) (auto simp: Cons.IH)
qed

lemma read_file_line: "file_line n l \<Longrightarrow> read_line (n - 1) (l @ rest) = (l, rest) \<and> c_string l = l \<and> l \<noteq> [] \<and> 2 \<le> n"
proof -
  assume "file_line n l"
  then obtain t where t: "l = t @ [CHR 10]" "CHR 10 \<notin> set t" "CHR 0x00 \<notin> set t" "length l < n"
    by (auto simp: file_line_def)
  have "CHR 10 \<noteq> CHR 0x00" by simp
  with t have "c_string l = l" by (auto simp: c_string_def takeWhile_eq_all_conv)
  with t read_whole_line [of t "n - 1" rest] show ?thesis by auto
qed

lemma params_of_block:
  assumes "\<forall>l\<in>set ls. file_line n l \<and> (\<forall>m. fst (loc_fill_conf_item atof zero table n l m) = of_bool (l \<in> P))"
    "ls \<noteq> []" "last ls \<in> P" "length (filter (\<lambda>l. l \<in> P) ls) < 2 ^ 32"
  shows "read_params atof zero table n (of_nat (length (filter (\<lambda>l. l \<in> P) ls))) (concat ls @ rest) mem
    = Some (rest, fold (\<lambda>l m. snd (loc_fill_conf_item atof zero table n l m)) ls mem)"
  using assms
proof (induction ls arbitrary: mem)
  case (Cons l ls)
  let ?f = "\<lambda>l. loc_fill_conf_item atof zero table n l" and ?c = "length (filter (\<lambda>l. l \<in> P) ls)"
  have l: "read_line (n - 1) (l @ concat ls @ rest) = (l, concat ls @ rest)" "c_string l = l" "l \<noteq> []" "2 \<le> n"
    using read_file_line [of n l "concat ls @ rest"] Cons.prems(1) by auto
  obtain m' where f: "?f l mem = (of_bool (l \<in> P), m')"
    using Cons.prems(1) by (metis list.set_intros(1) prod.collapse)
  have pos: "filter (\<lambda>l. l \<in> P) (l # ls) \<noteq> []" using Cons.prems(2,3) last_in_set [of "l # ls"] by (metis filter_empty_conv)
  then have nz: "(of_nat (length (filter (\<lambda>l. l \<in> P) (l # ls))) :: u32) \<noteq> 0"
    using Cons.prems(4) by (auto simp: word_of_nat_eq_0_iff simp del: of_nat_Suc dest!: dvd_imp_le split: if_splits)
  have step: "read_params atof zero table n (of_nat (length (filter (\<lambda>l. l \<in> P) (l # ls)))) (concat (l # ls) @ rest) mem
      = read_params atof zero table n (of_nat ?c) (concat ls @ rest) (snd (?f l mem))"
    using l nz f by (subst read_params.simps) (cases "l \<in> P", auto simp: Let_def)
  show ?case
  proof (cases "ls = []")
    case True
    with step show ?thesis by (simp add: read_params.simps)
  next
    case False
    moreover have "?c < 2 ^ 32" using Cons.prems(4) by (simp split: if_splits)
    ultimately show ?thesis using Cons.IH Cons.prems(1,3) step by simp
  qed
qed simp

lemma params_return:
  assumes "2 \<le> n"
  shows "\<exists>rest mem'. read_params atof zero table n k s mem = Some (rest, mem') \<and> (\<exists>pre. s = pre @ rest)
    \<and> (k \<noteq> 0 \<and> s \<noteq> [] \<longrightarrow> length rest < length s)"
  using assms
proof (induction atof zero table n k s mem rule: read_params.induct)
  case (1 atof zero table n k s mem)
  show ?case
  proof (cases "k = 0 \<or> s = []")
    case True
    with 1 show ?thesis by (subst read_params.simps) auto
  next
    case False
    obtain line rest where l: "read_line (n - 1) s = (line, rest)" by fastforce
    obtain c m where c: "loc_fill_conf_item atof zero table n (c_string line) mem = (c, m)" by fastforce
    have a: "s = line @ rest" using read_line_append l by blast
    have "length rest < length s" using read_line_shorter [of "n - 1" s] l False 1 by simp
    moreover from 1(1) [OF _ _ _ l [symmetric] refl c [symmetric] refl] False 1(2)
    obtain rest' mem' where r: "read_params atof zero table n (k - of_nat c) rest m = Some (rest', mem')"
      "\<exists>pre. rest = pre @ rest'" by auto
    ultimately have "length rest' < length s" by auto
    with r a False 1(2) l c show ?thesis by (subst read_params.simps) auto
  qed
qed

text \<open>
  Reading a block stops right after the line that fills the last entry expected: with lines
  that fill one entry each or none, whatever the memory holds, all of them are taken and the
  rest of the file is left for the next block.
\<close>

theorem block_is_read:
  assumes "\<forall>l\<in>set ls. file_line n l \<and> (\<forall>m. fst (loc_fill_conf_item atof zero table n l m) = of_bool (l \<in> P))"
    "ls \<noteq> []" "last ls \<in> P" "length (filter (\<lambda>l. l \<in> P) ls) < 2 ^ 32"
  shows "read_params atof zero table n (of_nat (length (filter (\<lambda>l. l \<in> P) ls))) (concat ls @ rest) mem
    = Some (rest, fold (\<lambda>l m. snd (loc_fill_conf_item atof zero table n l m)) ls mem)"
  using assms by (rule params_of_block)

lemma fill_entries_nothing: "fst (fill_entries table v n (k, mem)) = k \<Longrightarrow> fill_entries table v n (k, mem) = (k, mem)"
proof (induction table arbitrary: k mem)
  case (Cons e es)
  have le: "k \<le> fst (fill_entries es v n (k, mem))" for k mem
    by (induction es arbitrary: k mem) (auto simp: Let_def split: prod.splits intro: Suc_leD)
  show ?case
  proof (cases "loc_set_config_entry e v n mem")
    case (Pair ok m)
    show ?thesis
    proof (cases ok)
      case True
      with Pair Cons.prems le [of "Suc k" m] show ?thesis by simp
    next
      case False
      with Pair have "m = mem" by (auto simp: loc_set_config_entry_def split: option.splits if_splits param_type.splits)
      with Pair False Cons show ?thesis by simp
    qed
  qed
qed simp

lemma fills_nothing:
  "fst (loc_fill_conf_item atof zero table n l m) = 0 \<Longrightarrow> loc_fill_conf_item atof zero table n l m = (0, m)"
  by (auto simp: loc_fill_conf_item_def fill_entries_nothing split: option.splits if_splits)

lemma nothing_is_read:
  assumes "\<forall>l\<in>set ls. file_line n l \<and> (\<forall>m. loc_fill_conf_item atof zero table n l m = (0, m))" "2 \<le> n"
  shows "read_params atof zero table n k (concat ls) mem = Some (if k = 0 then concat ls else [], mem)"
  using assms
proof (induction ls)
  case Nil
  then show ?case by (simp add: read_params.simps)
next
  case (Cons l ls)
  have "read_line (n - 1) (l @ concat ls) = (l, concat ls)" "c_string l = l" "l \<noteq> []"
    using read_file_line [of n l "concat ls"] Cons.prems(1) by auto
  with Cons show ?case by (subst read_params.simps) (simp add: Let_def)
qed

text \<open>
  C39: Reading returns for every file and every table, with the unread end of the file, and takes
  something from a file that is not empty: a caller that reads block after block comes to an end.
\<close>

theorem reading_returns:
  assumes "2 \<le> n"
  shows "\<exists>rest mem'. read_params atof zero table n k s mem = Some (rest, mem') \<and> (\<exists>pre. s = pre @ rest)
    \<and> (k \<noteq> 0 \<and> s \<noteq> [] \<longrightarrow> length rest < length s)"
  using assms by (rule params_return)

theorem reading_returns_witness:
  "\<exists>rest mem'. read_params (\<lambda>_. ()) () two_entries 172 2 ''# no entry'' empty_mem = Some (rest, mem') \<and> length rest < 10"
  using reading_returns [of 172 "\<lambda>_. ()" "()" two_entries 2 "''# no entry''" empty_mem] by auto

definition unlines :: "string list \<Rightarrow> string" where
  "unlines ls = concat (map (\<lambda>l. l @ [CHR 10]) ls)"

lemma update_lines_fill:
  assumes "\<forall>l\<in>set ls. l \<noteq> [] \<and> CHR 10 \<notin> set l \<and> (\<forall>m. fst (loc_fill_conf_item atof zero table n l m) = 1)"
    "k < 2 ^ 32"
  shows "update_lines atof zero table n (of_nat k) ret (unlines ls) mem
    = (ret + int (min k (length ls)), fold (\<lambda>l m. snd (loc_fill_conf_item atof zero table n l m)) (take k ls) mem)"
  using assms
proof (induction ls arbitrary: k ret mem)
  case Nil
  then show ?case by (subst update_lines.simps) (simp add: unlines_def strtok_def)
next
  case (Cons l ls)
  let ?f = "\<lambda>l. loc_fill_conf_item atof zero table n l"
  have t: "strtok (CHR 10) (unlines (l # ls)) = Some (l, unlines ls)"
    using strtok_first [of "CHR 10" l "unlines ls"] Cons.prems(1) by (simp add: unlines_def)
  show ?case
  proof (cases k)
    case 0
    with t show ?thesis by (subst update_lines.simps) simp
  next
    case (Suc k')
    then have "(of_nat k :: u32) \<noteq> 0"
      using Cons.prems(2) by (auto simp: word_of_nat_eq_0_iff simp del: of_nat_Suc dest!: dvd_imp_le)
    moreover obtain m' where f: "?f l mem = (1, m')"
      using Cons.prems(1) by (metis list.set_intros(1) prod.collapse)
    moreover have "update_lines atof zero table n (of_nat k') (ret + 1) (unlines ls) m'
        = (ret + 1 + int (min k' (length ls)), fold (\<lambda>l m. snd (?f l m)) (take k' ls) m')"
      using Cons.prems Suc by (intro Cons.IH) auto
    ultimately show ?thesis using t Suc by (subst update_lines.simps) auto
  qed
qed

text \<open>
  C38: An update from a buffer of lines that each fill one entry processes at most one line
  less than the table has entries: with as many such lines as entries the last one is not
  processed, and a table of one entry is never updated; fewer lines than entries are all processed.
\<close>

theorem update_stops_one_short:
  assumes "\<forall>l\<in>set ls. l \<noteq> [] \<and> CHR 10 \<notin> set l \<and> CHR 0x00 \<notin> set l
      \<and> (\<forall>m. fst (loc_fill_conf_item atof zero table n l m) = 1)"
    "ls \<noteq> []" "table \<noteq> []" "length table < 2 ^ 32"
  shows "loc_update_conf_long atof zero table n (Some (unlines ls)) (int (length (unlines ls))) mem
    = Some (int (min (length table - 1) (length ls)),
        fold (\<lambda>l m. snd (loc_fill_conf_item atof zero table n l m)) (take (length table - 1) ls) mem)"
proof -
  obtain k where k: "length table = Suc k" using assms(3) by (cases table) auto
  have "c_string (unlines ls) = unlines ls"
    using assms(1) by (auto simp: c_string_def unlines_def takeWhile_eq_all_conv)
  moreover have "unlines ls \<noteq> []" using assms(2) by (cases ls) (auto simp: unlines_def)
  moreover have "(of_nat (length table) - 1 :: u32) = of_nat k" using k by simp
  moreover have "update_lines atof zero table n (of_nat k) 0 (unlines ls) mem
      = (0 + int (min k (length ls)), fold (\<lambda>l m. snd (loc_fill_conf_item atof zero table n l m)) (take k ls) mem)"
    using assms(1,4) k by (intro update_lines_fill) auto
  ultimately show ?thesis using k assms(3) by (simp add: loc_update_conf_long_def)
qed

text \<open>The host is set by the first line, the number of the second line never.\<close>

definition two_lines :: "string list" where
  "two_lines = [''SUPL_HOST = supl.qxwz.com'', ''NMEA_PROVIDER=1'']"

theorem update_stops_one_short_witness:
  "\<exists>mem. loc_update_conf_long (\<lambda>_. ()) () two_entries 172 (Some (unlines two_lines)) (int (length (unlines two_lines))) empty_mem
     = Some (1, mem) \<and> strs mem 2 = ''supl.qxwz.com'' \<and> nums mem 1 = 0"
proof -
  have "\<forall>l\<in>set two_lines. l \<noteq> [] \<and> CHR 10 \<notin> set l \<and> CHR 0x00 \<notin> set l
      \<and> (\<forall>m. fst (loc_fill_conf_item (\<lambda>_. ()) () two_entries 172 l m) = 1)"
    by (simp add: two_lines_def two_entries_def loc_fill_conf_item_def strtok_def config_value_def
        loc_util_trim_space_def is_space_def loc_set_config_entry_def Let_def is_hex_def)
  from update_stops_one_short [OF this, of empty_mem] show ?thesis
    by (simp add: two_lines_def two_entries_def loc_fill_conf_item_def strtok_def config_value_def
        loc_util_trim_space_def is_space_def loc_set_config_entry_def Let_def is_hex_def set_flag_def strlcpy_def
        empty_mem_def)
qed

theorem block_is_read_witness:
  "read_params (\<lambda>_. ()) () two_entries 172 1 (concat [''# comment'' @ [CHR 10], ''NMEA_PROVIDER=1'' @ [CHR 10]] @ ''SUPL_HOST=x'') empty_mem
    = Some (''SUPL_HOST=x'', empty_mem\<lparr>nums := (nums empty_mem)(1 := 1)\<rparr>)"
proof -
  let ?ls = "[''# comment'' @ [CHR 10], ''NMEA_PROVIDER=1'' @ [CHR 10]]" and ?P = "{''NMEA_PROVIDER=1'' @ [CHR 10]}"
  have l: "file_line 172 (t @ [CHR 10])" if "CHR 10 \<notin> set t" "CHR 0x00 \<notin> set t" "length t < 171" for t
    using that by (auto simp: file_line_def)
  have "\<forall>l\<in>set ?ls. file_line 172 l \<and> (\<forall>m. fst (loc_fill_conf_item (\<lambda>_. ()) () two_entries 172 l m) = of_bool (l \<in> ?P))"
    using l [of "''# comment''"] l [of "''NMEA_PROVIDER=1''"]
    by (simp add: two_entries_def loc_fill_conf_item_def strtok_def config_value_def
        loc_util_trim_space_def is_space_def loc_set_config_entry_def Let_def is_hex_def)
  from block_is_read [OF this, of "''SUPL_HOST=x''" empty_mem] show ?thesis
    by (simp add: two_entries_def loc_fill_conf_item_def strtok_def config_value_def
        loc_util_trim_space_def is_space_def loc_set_config_entry_def Let_def is_hex_def set_flag_def
        empty_mem_def atoi_def strtol_def read_signed_def digit_of_def)
qed

end
