(* ===== verification/ProcessConf.thy ===== *)
theory ProcessConf
  imports LocCfg "HOL-Library.Monad_Syntax"
begin

unbundle bit_operations_syntax

text \<open>
  \<open>loc_read_process_conf\<close> of \<^verbatim>\<open>utils/loc_cfg.cpp\<close>: the processes that a configuration file
  describes block by block, whether each is to be started on this device, and its arguments.

  The members of the static structure \<open>conf\<close> are the addresses of the tables.  They keep their
  values from one block to the next.  Taking a list apart cuts the member to its first part.
  The properties of the system and the table of groups are the environment.
\<close>

section \<open>Data\<close>

datatype conf_addr =
    A_proc_name | A_proc_argument | A_proc_status | A_group_list | A_premium_feature
  | A_loc_feature_mask | A_platform_list | A_baseband | A_low_ram_targets | A_soc_id_list
  | A_sglte_target | A_feature_gtp_mode | A_feature_gtp_waa | A_feature_odcpi
  | A_feature_free_wifi_scan_inject | A_feature_supl_wifi | A_feature_wifi_supplicant_info
  | A_auto_platform | A_vendor_enhanced_process | A_launch_trigger_mask

definition entry :: "string \<Rightarrow> conf_addr \<Rightarrow> param_type \<Rightarrow> conf_addr loc_param_s" where
  "entry name a k = \<lparr>param_name = name, param_ptr = Some a, param_set = None, param_kind = k\<rparr>"

definition gps_conf_parameter_table :: "conf_addr loc_param_s list" where
  "gps_conf_parameter_table = [entry ''SGLTE_TARGET'' A_sglte_target NumberParam]"

definition loc_feature_conf_table :: "conf_addr loc_param_s list" where
  "loc_feature_conf_table = [
     entry ''GTP_MODE'' A_feature_gtp_mode StringParam,
     entry ''GTP_WAA'' A_feature_gtp_waa StringParam,
     entry ''ODCPI'' A_feature_odcpi StringParam,
     entry ''FREE_WIFI_SCAN_INJECT'' A_feature_free_wifi_scan_inject StringParam,
     entry ''SUPL_WIFI'' A_feature_supl_wifi StringParam,
     entry ''WIFI_SUPPLICANT_INFO'' A_feature_wifi_supplicant_info StringParam]"

definition loc_process_conf_parameter_table :: "conf_addr loc_param_s list" where
  "loc_process_conf_parameter_table = [
     entry ''PROCESS_NAME'' A_proc_name StringParam,
     entry ''PROCESS_ARGUMENT'' A_proc_argument StringParam,
     entry ''PROCESS_STATE'' A_proc_status StringParam,
     entry ''PROCESS_GROUPS'' A_group_list StringParam,
     entry ''PREMIUM_FEATURE'' A_premium_feature NumberParam,
     entry ''IZAT_FEATURE_MASK'' A_loc_feature_mask NumberParam,
     entry ''PLATFORMS'' A_platform_list StringParam,
     entry ''SOC_IDS'' A_soc_id_list StringParam,
     entry ''BASEBAND'' A_baseband StringParam,
     entry ''LOW_RAM_TARGETS'' A_low_ram_targets StringParam,
     entry ''HARDWARE_TYPE'' A_auto_platform StringParam,
     entry ''VENDOR_ENHANCED_PROCESS'' A_vendor_enhanced_process NumberParam,
     entry ''LAUNCH_TRIGGER_MASK'' A_launch_trigger_mask NumberParam]"

datatype process_status = ENABLED | RUNNING | DISABLED | DISABLED_FROM_CONF | DISABLED_VIA_VENDOR_ENHANCED_CHECK

record process_info =
  proc_status :: process_status
  pr_name :: string
  group_list :: "nat list"
  pr_args :: "string list"
  argumentString :: string
  pr_launch_trigger_mask :: u32

definition new_process :: process_info where
  "new_process = \<lparr>proc_status = DISABLED, pr_name = [], group_list = [], pr_args = [], argumentString = [],
     pr_launch_trigger_mask = 0\<rparr>"

text \<open>What the process is started on, and the functions of the system that are asked.\<close>

record device =
  platform_name :: string
  baseband_name :: string
  autoplatform_name :: string
  socid_value :: string
  low_ram_target :: bool
  xtra_daemon_enabled :: bool
  vendor_enhanced :: bool
  getgrnam :: "string \<Rightarrow> nat option"

type_synonym 'f conf = "(conf_addr, 'f) cfg_mem"

definition MAX_NUM_STRINGS :: nat where "MAX_NUM_STRINGS = 20"
definition LOC_PROCESS_MAX_NUM_ARGS :: nat where "LOC_PROCESS_MAX_NUM_ARGS = 25"
definition LOC_PROCESS_MAX_ARG_STR_LENGTH :: nat where "LOC_PROCESS_MAX_ARG_STR_LENGTH = 64"

section \<open>Features\<close>

definition LOC_FEATURE_MASK_GTP_WIFI_BASIC :: u32 where "LOC_FEATURE_MASK_GTP_WIFI_BASIC = 0x01"
definition LOC_FEATURE_MASK_GTP_WIFI_PREMIUM :: u32 where "LOC_FEATURE_MASK_GTP_WIFI_PREMIUM = 0x02"
definition LOC_FEATURE_MASK_GTP_CELL_BASIC :: u32 where "LOC_FEATURE_MASK_GTP_CELL_BASIC = 0x04"
definition LOC_FEATURE_MASK_GTP_CELL_PREMIUM :: u32 where "LOC_FEATURE_MASK_GTP_CELL_PREMIUM = 0x08"
definition LOC_FEATURE_MASK_GTP_WAA_BASIC :: u32 where "LOC_FEATURE_MASK_GTP_WAA_BASIC = 0x100"
definition LOC_FEATURE_MASK_GTP_MODEM_CELL_BASIC :: u32 where "LOC_FEATURE_MASK_GTP_MODEM_CELL_BASIC = 0x400"
definition LOC_FEATURE_MASK_ODCPI :: u32 where "LOC_FEATURE_MASK_ODCPI = 0x1000"
definition LOC_FEATURE_MASK_FREE_WIFI_SCAN_INJECT :: u32 where "LOC_FEATURE_MASK_FREE_WIFI_SCAN_INJECT = 0x2000"
definition LOC_FEATURE_MASK_SUPL_WIFI :: u32 where "LOC_FEATURE_MASK_SUPL_WIFI = 0x4000"
definition LOC_FEATURE_MASK_WIFI_SUPPLICANT_INFO :: u32 where "LOC_FEATURE_MASK_WIFI_SUPPLICANT_INFO = 0x8000"

lemmas feature_masks = LOC_FEATURE_MASK_GTP_WIFI_BASIC_def LOC_FEATURE_MASK_GTP_WIFI_PREMIUM_def
  LOC_FEATURE_MASK_GTP_CELL_BASIC_def LOC_FEATURE_MASK_GTP_CELL_PREMIUM_def LOC_FEATURE_MASK_GTP_WAA_BASIC_def
  LOC_FEATURE_MASK_GTP_MODEM_CELL_BASIC_def LOC_FEATURE_MASK_ODCPI_def LOC_FEATURE_MASK_FREE_WIFI_SCAN_INJECT_def
  LOC_FEATURE_MASK_SUPL_WIFI_def LOC_FEATURE_MASK_WIFI_SUPPLICANT_INFO_def

definition gtp_mode_mask :: "string \<Rightarrow> u32" where
  "gtp_mode_mask m =
     (if m = ''DISABLED'' then 0
      else if m = ''LEGACY_WWAN'' then LOC_FEATURE_MASK_GTP_MODEM_CELL_BASIC
      else if m = ''SDK'' then LOC_FEATURE_MASK_GTP_WIFI_BASIC
      else if m = ''SDK_WIFI'' then LOC_FEATURE_MASK_GTP_WIFI_BASIC
      else 0)"

definition gtp_waa_mask :: "string \<Rightarrow> u32" where
  "gtp_waa_mask m = (if m = ''BASIC'' then LOC_FEATURE_MASK_GTP_WAA_BASIC else 0)"

definition feature_mask :: "string \<Rightarrow> u32 \<Rightarrow> u32" where
  "feature_mask m fm =
     (if m = ''BASIC'' then fm else if m = ''DISABLED'' then 0 else if m = ''PREMIUM'' then fm else 0)"

definition service_mask :: "'f conf \<Rightarrow> u32" where
  "service_mask c = gtp_mode_mask (strs c A_feature_gtp_mode)
     OR gtp_waa_mask (strs c A_feature_gtp_waa)
     OR feature_mask (strs c A_feature_odcpi) LOC_FEATURE_MASK_ODCPI
     OR feature_mask (strs c A_feature_free_wifi_scan_inject) LOC_FEATURE_MASK_FREE_WIFI_SCAN_INJECT
     OR feature_mask (strs c A_feature_supl_wifi) LOC_FEATURE_MASK_SUPL_WIFI
     OR feature_mask (strs c A_feature_wifi_supplicant_info) LOC_FEATURE_MASK_WIFI_SUPPLICANT_INFO"

section \<open>Whether a process is to be started\<close>

text \<open>A member is taken apart at its spaces; the member itself keeps the first part.\<close>

definition split_member :: "conf_addr \<Rightarrow> 'f conf \<Rightarrow> string list \<times> 'f conf" where
  "split_member a c = (let parts = loc_util_split_string (strs c a) MAX_NUM_STRINGS (CHR '' '')
     in (parts, c\<lparr>strs := (strs c)(a := hd parts)\<rparr>))"

text \<open>
  The check of a list of names: all, all but some, or some.  The result says whether one of the
  two bits of the list is set.
\<close>

definition matches_all_but :: "string \<Rightarrow> string list \<Rightarrow> bool" where
  "matches_all_but name ps =
     (if length ps = 1 \<or> (length ps = 2 \<and> ps ! 1 = ''exclude'') then True
      else if length ps > 2 \<and> ps ! 1 = ''exclude'' then name \<notin> set (drop 2 ps)
      else False)"

definition name_check :: "string \<Rightarrow> string list \<Rightarrow> bool" where
  "name_check name ps = (if hd ps = ''all'' then matches_all_but name ps else name \<in> set ps)"

definition baseband_check :: "string \<Rightarrow> bool \<Rightarrow> string list \<Rightarrow> bool" where
  "baseband_check name sglte ps =
     (if hd ps = ''all'' then matches_all_but name ps
      else list_ex (\<lambda>p. name = p \<or> (p = ''sglte'' \<and> sglte)) ps)"

definition autoplatform_check :: "string \<Rightarrow> string list \<Rightarrow> bool" where
  "autoplatform_check name ps \<longleftrightarrow> hd ps = ''all'' \<or> name \<in> set ps"

section \<open>Arguments\<close>

text \<open>An argument is cut to the size of its array.\<close>

definition arg_of :: "string \<Rightarrow> string" where
  "arg_of s = take (LOC_PROCESS_MAX_ARG_STR_LENGTH - 1) s"

definition base_name :: "string \<Rightarrow> string" where
  "base_name s = (if s \<noteq> [] \<and> hd s = CHR ''/'' then rev (takeWhile (\<lambda>c. c \<noteq> CHR ''/'') (rev s)) else s)"

definition premium_args :: "u32 \<Rightarrow> u32 \<Rightarrow> string list" where
  "premium_args fm sm =
     (if fm AND (LOC_FEATURE_MASK_GTP_WIFI_BASIC OR LOC_FEATURE_MASK_GTP_WIFI_PREMIUM) \<noteq> 0 then
        (if sm AND LOC_FEATURE_MASK_GTP_WIFI_BASIC \<noteq> 0 then [''--gtp-wifi'', ''BASIC'']
         else if sm AND LOC_FEATURE_MASK_GTP_WIFI_PREMIUM \<noteq> 0 then [''--gtp-wifi'', ''PREMIUM'']
         else [''--gtp-wifi'', ''DISABLED''])
      else []) @
     (if fm AND (LOC_FEATURE_MASK_GTP_CELL_BASIC OR LOC_FEATURE_MASK_GTP_CELL_PREMIUM) \<noteq> 0 then
        (if sm AND LOC_FEATURE_MASK_GTP_MODEM_CELL_BASIC \<noteq> 0 then [''--gtp-modem-cell'', ''BASIC'']
         else [''--gtp-modem-cell'', ''DISABLED''])
      else []) @
     (if fm AND LOC_FEATURE_MASK_GTP_WAA_BASIC \<noteq> 0 then
        (if sm AND LOC_FEATURE_MASK_GTP_WAA_BASIC \<noteq> 0 then [''--gtp-waa'', ''BASIC'']
         else [''--gtp-waa'', ''DISABLED''])
      else [])"

text \<open>\<^verbatim>\<open>%x\<close>.\<close>

fun show_hex :: "nat \<Rightarrow> string" where
  "show_hex n = (let d = n mod 16; c = char_of (if d < 10 then 48 + d else 87 + d)
     in if n < 16 then [c] else show_hex (n div 16) @ [c])"

declare show_hex.simps [simp del]

text \<open>
  The arguments of a process that passed the checks.  \<open>None\<close> is a write behind the array of
  arguments: the two of the launch trigger are stored without a test.
\<close>

definition start_process :: "u32 \<Rightarrow> 'f conf \<Rightarrow> process_info \<Rightarrow> process_info option" where
  "start_process sm c p =
     (let fm = nums c A_loc_feature_mask;
          premium = nums c A_premium_feature \<noteq> 0;
          args0 = arg_of (base_name (pr_name p)) # (if premium \<and> fm AND sm \<noteq> 0 then premium_args fm sm else []);
          p1 = (if premium \<and> fm AND sm = 0 then p else p\<lparr>proc_status := ENABLED\<rparr>);
          raw = take (LOC_MAX_PARAM_STRING - 1) (strs c A_proc_argument);
          parts = (if strs c A_proc_argument = [] then []
                   else loc_util_split_string raw (LOC_PROCESS_MAX_NUM_ARGS - length args0) (CHR '' ''));
          p2 = (if strs c A_proc_argument = [] then p1 else p1\<lparr>argumentString := hd parts\<rparr>);
          args1 = args0 @ map arg_of parts;
          trigger = nums c A_launch_trigger_mask
      in if trigger = 0 then Some (p2\<lparr>pr_args := args1\<rparr>)
         else if length args1 + 2 > LOC_PROCESS_MAX_NUM_ARGS then None
         else Some (p2\<lparr>pr_args := args1 @ [''--launch-trigger-mask'', arg_of (''0x'' @ show_hex (unat trigger))],
                pr_launch_trigger_mask := trigger\<rparr>))"

section \<open>A block\<close>

text \<open>What is made of the members once a block was read.\<close>

definition process_block :: "device \<Rightarrow> u32 \<Rightarrow> 'f conf \<Rightarrow> (process_info \<times> 'f conf) option" where
  "process_block dev sm c =
     (let name = strs c A_proc_name in
      if name = [] \<or> strs c A_group_list = [] \<or> strs c A_platform_list = [] \<or> strs c A_baseband = []
         \<or> strs c A_proc_status = [] \<or> strs c A_auto_platform = [] \<or> strs c A_soc_id_list = []
      then Some (new_process, c)
      else if name = ''xtra-daemon'' \<and> \<not> xtra_daemon_enabled dev
      then Some (new_process\<lparr>proc_status := DISABLED_FROM_CONF\<rparr>, c)
      else if \<not> vendor_enhanced dev \<and> nums c A_vendor_enhanced_process \<noteq> 0
      then Some (new_process\<lparr>proc_status := DISABLED_VIA_VENDOR_ENHANCED_CHECK\<rparr>, c)
      else if strs c A_proc_status = ''DISABLED''
      then Some (new_process\<lparr>proc_status := DISABLED_FROM_CONF\<rparr>, c)
      else if length name + 1 > LOC_MAX_PARAM_STRING then Some (new_process, c)
      else let
        (groups, c) = split_member A_group_list c;
        p = new_process\<lparr>pr_name := name, group_list := List.map_filter (getgrnam dev) groups\<rparr>;
        (platforms, c) = split_member A_platform_list c;
        (socs, c) = split_member A_soc_id_list c;
        (basebands, c) = split_member A_baseband c;
        (autos, c) = split_member A_auto_platform c;
        (rams, c) = split_member A_low_ram_targets c
      in if hd rams = ''DISABLED'' \<and> low_ram_target dev then Some (p, c)
         else if name_check (platform_name dev) platforms
            \<and> baseband_check (baseband_name dev) (nums c A_sglte_target \<noteq> 0) basebands
            \<and> autoplatform_check (autoplatform_name dev) autos
            \<and> name_check (socid_value dev) socs
         then (case start_process sm c p of None \<Rightarrow> None | Some p' \<Rightarrow> Some (p', c))
         else Some (p, c))"

section \<open>The file\<close>

text \<open>The part of \<open>loc_read_conf_long\<close> that fills the caller's table; a file is \<open>None\<close> where it
  cannot be opened.\<close>

definition loc_read_conf :: "(string \<Rightarrow> 'f) \<Rightarrow> 'f \<Rightarrow> 'a loc_param_s list \<Rightarrow> string option \<Rightarrow> ('a, 'f) cfg_mem
    \<Rightarrow> ('a, 'f) cfg_mem option" where
  "loc_read_conf atof zero table file mem =
     (case file of
        None \<Rightarrow> Some mem
      | Some s \<Rightarrow> if table = [] then Some mem
          else map_option (\<lambda>(_, _, mem'). mem') (loc_read_conf_r_long atof zero table LOC_MAX_PARAM_STRING (Some s) mem))"

text \<open>One block of the file: the text that is left and the members.\<close>

definition read_block :: "(string \<Rightarrow> 'f) \<Rightarrow> 'f \<Rightarrow> conf_addr loc_param_s list \<Rightarrow> string \<Rightarrow> 'f conf \<Rightarrow> (string \<times> 'f conf) option" where
  "read_block atof zero table s c =
     (case loc_read_conf_r_long atof zero table LOC_MAX_PARAM_STRING (Some s) c of
        Some (_, Some rest, c') \<Rightarrow> Some (rest, c') | _ \<Rightarrow> None)"

lemma read_block_params:
  "read_block atof zero table s c = read_params atof zero table LOC_MAX_PARAM_STRING (of_nat (length table)) s (clear_flags table c)"
  by (auto simp: read_block_def loc_read_conf_r_long_def split: option.splits)

lemma read_block_returns:
  "\<exists>rest c'. read_block atof zero table s c = Some (rest, c') \<and> (\<exists>pre. s = pre @ rest)
    \<and> ((of_nat (length table) :: u32) \<noteq> 0 \<and> s \<noteq> [] \<longrightarrow> length rest < length s)"
  unfolding read_block_params by (rule params_return) (simp add: LOC_MAX_PARAM_STRING_def)

text \<open>
  The loop that counts the names: a block of one entry, the first of the table, until no name
  is found.  The counter is an \<open>unsigned char\<close>.
\<close>

definition name_table :: "conf_addr loc_param_s list" where
  "name_table = take 1 loc_process_conf_parameter_table"

function count_names :: "(string \<Rightarrow> 'f) \<Rightarrow> 'f \<Rightarrow> string \<Rightarrow> 'f conf \<Rightarrow> 8 word \<Rightarrow> (8 word \<times> 'f conf) option" where
  "count_names atof zero s c n =
     (case read_block atof zero name_table s (c\<lparr>strs := (strs c)(A_proc_name := [])\<rparr>) of
        None \<Rightarrow> None
      | Some (rest, c') \<Rightarrow>
          if strs c' A_proc_name = [] then Some (n, c') else count_names atof zero rest c' (n + 1))"
  by pat_completeness auto

lemma nothing_named: "read_block atof zero name_table [] (c\<lparr>strs := (strs c)(A_proc_name := [])\<rparr>) = Some (rest, c')
    \<Longrightarrow> strs c' A_proc_name = []"
  by (auto simp: read_block_params read_params.simps name_table_def loc_process_conf_parameter_table_def entry_def
      clear_flags_def set_flag_def LOC_MAX_PARAM_STRING_def)

lemma names_shrink:
  assumes "read_block atof zero name_table s (c\<lparr>strs := (strs c)(A_proc_name := [])\<rparr>) = Some (rest, c')"
    "strs c' A_proc_name \<noteq> []"
  shows "length rest < length s"
proof -
  have "s \<noteq> []" using assms nothing_named by metis
  moreover have "(of_nat (length name_table) :: u32) \<noteq> 0"
    by (simp add: name_table_def loc_process_conf_parameter_table_def)
  ultimately show ?thesis
    using read_block_returns [of atof zero name_table s "c\<lparr>strs := (strs c)(A_proc_name := [])\<rparr>"] assms(1) by auto
qed

termination count_names
  by (relation "measure (\<lambda>(_, _, s, _, _). length s)") (auto dest: names_shrink)

declare count_names.simps [simp del]

text \<open>The loop over the blocks.\<close>

fun read_processes :: "(string \<Rightarrow> 'f) \<Rightarrow> 'f \<Rightarrow> device \<Rightarrow> u32 \<Rightarrow> nat \<Rightarrow> string \<Rightarrow> 'f conf
    \<Rightarrow> (process_info list \<times> 'f conf) option" where
  "read_processes atof zero dev sm 0 s c = Some ([], c)"
| "read_processes atof zero dev sm (Suc n) s c =
     (case read_block atof zero loc_process_conf_parameter_table s c of
        None \<Rightarrow> None
      | Some (rest, c1) \<Rightarrow> (case process_block dev sm c1 of
            None \<Rightarrow> None
          | Some (p, c2) \<Rightarrow> (case read_processes atof zero dev sm n rest c2 of
                None \<Rightarrow> None
              | Some (ps, c3) \<Rightarrow> Some (p # ps, c3))))"

text \<open>The result, and the table on success.\<close>

definition loc_read_process_conf :: "(string \<Rightarrow> 'f) \<Rightarrow> 'f \<Rightarrow> device \<Rightarrow> string option \<Rightarrow> string option \<Rightarrow> 'f conf
    \<Rightarrow> (int \<times> process_info list \<times> 'f conf) option" where
  "loc_read_process_conf atof zero dev gps_conf conf_file c = do {
     c \<leftarrow> loc_read_conf atof zero gps_conf_parameter_table gps_conf c;
     c \<leftarrow> loc_read_conf atof zero loc_feature_conf_table conf_file c;
     let sm = service_mask c;
     case conf_file of
       None \<Rightarrow> Some (-1, [], c)
     | Some s \<Rightarrow> do {
         (n, c) \<leftarrow> count_names atof zero s c 0;
         (ps, c) \<leftarrow> read_processes atof zero dev sm (unat n) s c;
         Some (0, ps, c) } }"

section \<open>Arguments that fit\<close>

text \<open>
  The arguments of a process that is no premium feature run over their array of 25 exactly
  when its launch is delayed and the configuration gives it 23 words or more.
\<close>

theorem launch_trigger_overflows:
  assumes "\<forall>w\<in>set ws. CHR '' '' \<notin> set w" "ws \<noteq> []" "strs c A_proc_argument = joined (CHR '' '') ws"
    "joined (CHR '' '') ws \<noteq> []" "length (joined (CHR '' '') ws) < LOC_MAX_PARAM_STRING" "nums c A_premium_feature = 0"
  shows "start_process sm c p = None \<longleftrightarrow> nums c A_launch_trigger_mask \<noteq> 0 \<and> 23 \<le> length ws"
proof -
  have "take (LOC_MAX_PARAM_STRING - 1) (strs c A_proc_argument) = joined (CHR '' '') ws"
    using assms(3,5) by simp
  moreover have "loc_util_split_string (joined (CHR '' '') ws) 24 (CHR '' '') = take 24 ws"
    using split_loop_take [OF assms(1,2), of 24] by (simp add: loc_util_split_string_def)
  ultimately show ?thesis
    using assms(3,4,6) by (auto simp: start_process_def Let_def LOC_PROCESS_MAX_NUM_ARGS_def)
qed

lemma premium_args_length: "length (premium_args fm sm) \<le> 6"
  by (simp add: premium_args_def)

text \<open>
  Whatever the file says, the arguments that are stored are at most 25, each short enough for
  its array with the terminator.
\<close>

theorem arguments_fit:
  assumes "start_process sm c p = Some p'"
  shows "length (pr_args p') \<le> LOC_PROCESS_MAX_NUM_ARGS \<and> (\<forall>a\<in>set (pr_args p'). length a < LOC_PROCESS_MAX_ARG_STR_LENGTH)"
proof -
  define fm where "fm = nums c A_loc_feature_mask"
  define args0 where "args0 = arg_of (base_name (pr_name p))
    # (if nums c A_premium_feature \<noteq> 0 \<and> fm AND sm \<noteq> 0 then premium_args fm sm else [])"
  define parts where "parts = (if strs c A_proc_argument = [] then []
    else loc_util_split_string (take (LOC_MAX_PARAM_STRING - 1) (strs c A_proc_argument))
      (LOC_PROCESS_MAX_NUM_ARGS - length args0) (CHR '' ''))"
  have l0: "length args0 \<le> 7" using premium_args_length [of fm sm] by (simp add: args0_def)
  have "length parts \<le> max 1 (LOC_PROCESS_MAX_NUM_ARGS - length args0)"
    using split_loop_length by (simp add: parts_def loc_util_split_string_def)
  with l0 have l1: "length (args0 @ map arg_of parts) \<le> LOC_PROCESS_MAX_NUM_ARGS" by (simp add: LOC_PROCESS_MAX_NUM_ARGS_def)
  have a: "length (arg_of x) < LOC_PROCESS_MAX_ARG_STR_LENGTH" for x by (simp add: arg_of_def LOC_PROCESS_MAX_ARG_STR_LENGTH_def)
  have s0: "\<forall>x\<in>set (premium_args fm sm). length x < LOC_PROCESS_MAX_ARG_STR_LENGTH"
    by (auto simp: premium_args_def LOC_PROCESS_MAX_ARG_STR_LENGTH_def)
  have "pr_args p' = args0 @ map arg_of parts \<or> (pr_args p' = args0 @ map arg_of parts @
      [''--launch-trigger-mask'', arg_of (''0x'' @ show_hex (unat (nums c A_launch_trigger_mask)))]
      \<and> length (args0 @ map arg_of parts) + 2 \<le> LOC_PROCESS_MAX_NUM_ARGS)"
    using assms by (auto simp: start_process_def Let_def fm_def args0_def parts_def split: if_splits)
  moreover have "\<forall>x\<in>set (args0 @ map arg_of parts). length x < LOC_PROCESS_MAX_ARG_STR_LENGTH"
    using s0 a by (auto simp: args0_def)
  moreover have "length ''--launch-trigger-mask'' < LOC_PROCESS_MAX_ARG_STR_LENGTH"
    by (simp add: LOC_PROCESS_MAX_ARG_STR_LENGTH_def)
  ultimately show ?thesis using l1 a by auto
qed

section \<open>Blocks of a file\<close>

text \<open>
  Lines for a table: each fills one entry, or none and is a comment or a parameter of another
  table; those that fill are in \<open>P\<close>.
\<close>

definition lines_for :: "(string \<Rightarrow> 'f) \<Rightarrow> 'f \<Rightarrow> conf_addr loc_param_s list \<Rightarrow> string set \<Rightarrow> string list \<Rightarrow> bool" where
  "lines_for atof zero table P ls \<longleftrightarrow> (\<forall>l\<in>set ls. file_line LOC_MAX_PARAM_STRING l
     \<and> (\<forall>m. fst (loc_fill_conf_item atof zero table LOC_MAX_PARAM_STRING l m) = of_bool (l \<in> P)))"

definition block_for :: "(string \<Rightarrow> 'f) \<Rightarrow> 'f \<Rightarrow> conf_addr loc_param_s list \<Rightarrow> string set \<Rightarrow> string list \<Rightarrow> bool" where
  "block_for atof zero table P ls \<longleftrightarrow> lines_for atof zero table P ls \<and> ls \<noteq> [] \<and> last ls \<in> P
     \<and> length (filter (\<lambda>l. l \<in> P) ls) = length table"

definition take_lines :: "(string \<Rightarrow> 'f) \<Rightarrow> 'f \<Rightarrow> conf_addr loc_param_s list \<Rightarrow> string list \<Rightarrow> 'f conf \<Rightarrow> 'f conf" where
  "take_lines atof zero table ls c = fold (\<lambda>l m. snd (loc_fill_conf_item atof zero table LOC_MAX_PARAM_STRING l m)) ls c"

definition no_flags :: "conf_addr loc_param_s list \<Rightarrow> bool" where
  "no_flags table \<longleftrightarrow> list_all (\<lambda>e. param_set e = None) table"

lemma clear_no_flags: "no_flags table \<Longrightarrow> clear_flags table c = c"
  by (induction table) (auto simp: clear_flags_def no_flags_def set_flag_def)

lemma tables_have_no_flags: "no_flags loc_process_conf_parameter_table" "no_flags name_table"
  by (simp_all add: no_flags_def loc_process_conf_parameter_table_def name_table_def entry_def)

lemma table_lengths: "length loc_process_conf_parameter_table = 13" "length name_table = 1"
  by (simp_all add: loc_process_conf_parameter_table_def name_table_def)

lemma block_for_read:
  assumes "block_for atof zero table P b" "no_flags table" "length table < 2 ^ 32"
  shows "read_block atof zero table (concat b @ rest) c = Some (rest, take_lines atof zero table b c)"
  using params_of_block [of b LOC_MAX_PARAM_STRING atof zero table P rest c] assms
  by (simp add: read_block_params clear_no_flags block_for_def lines_for_def take_lines_def)

text \<open>What is made of the blocks one after the other.\<close>

fun processes_of :: "(string \<Rightarrow> 'f) \<Rightarrow> 'f \<Rightarrow> device \<Rightarrow> u32 \<Rightarrow> string list list \<Rightarrow> 'f conf \<Rightarrow> process_info list option" where
  "processes_of atof zero dev sm [] c = Some []"
| "processes_of atof zero dev sm (b # bs) c =
     (case process_block dev sm (take_lines atof zero loc_process_conf_parameter_table b c) of
        None \<Rightarrow> None
      | Some (p, c') \<Rightarrow> map_option ((#) p) (processes_of atof zero dev sm bs c'))"

text \<open>
  A file in which every block gives all the parameters of the table is read block by block:
  the n-th process is made of the lines of the n-th block, with whatever comments between.
\<close>

theorem complete_blocks_are_read:
  assumes "\<forall>b\<in>set bs. block_for atof zero loc_process_conf_parameter_table P b"
  shows "map_option fst (read_processes atof zero dev sm (length bs) (concat (map concat bs) @ rest) c)
    = processes_of atof zero dev sm bs c"
  using assms
proof (induction bs arbitrary: c)
  case (Cons b bs)
  have "read_block atof zero loc_process_conf_parameter_table (concat b @ concat (map concat bs) @ rest) c
      = Some (concat (map concat bs) @ rest, take_lines atof zero loc_process_conf_parameter_table b c)"
    using Cons.prems by (intro block_for_read [of _ _ _ P]) (simp_all add: tables_have_no_flags table_lengths)
  moreover have "processes_of atof zero dev sm bs c'
      = map_option fst (read_processes atof zero dev sm (length bs) (concat (map concat bs) @ rest) c')" for c'
    using Cons by simp
  ultimately show ?case by (auto split: option.splits)
qed simp

text \<open>
  C40: A block that leaves one parameter out takes the next parameter of the file instead, the name
  of the following process: that process gives its name away and is not read as a block.
\<close>

theorem missing_parameter_takes_next_name:
  assumes "lines_for atof zero loc_process_conf_parameter_table P (b @ [nl])"
    "length (filter (\<lambda>l. l \<in> P) b) = 12" "nl = conf_line [] ''PROCESS_NAME'' [] [] name [CHR 10]" "nl \<in> P"
    "trimmed name" "name \<noteq> ''NULL''" "length name < LOC_MAX_PARAM_STRING"
  shows "\<exists>c'. read_block atof zero loc_process_conf_parameter_table (concat b @ nl @ rest) c = Some (rest, c')
    \<and> strs c' A_proc_name = name"
proof -
  let ?t = loc_process_conf_parameter_table and ?e = "entry ''PROCESS_NAME'' A_proc_name StringParam"
  have "block_for atof zero ?t P (b @ [nl])" using assms(1,2,4) by (simp add: block_for_def table_lengths)
  from block_for_read [OF this tables_have_no_flags(1), of rest c]
  have r: "read_block atof zero ?t (concat b @ nl @ rest) c = Some (rest, take_lines atof zero ?t (b @ [nl]) c)"
    by (simp add: table_lengths)
  have e: "?e \<in> set ?t" "distinct (map param_name ?t)"
    by (simp_all add: loc_process_conf_parameter_table_def entry_def)
  have "loc_fill_conf_item atof zero ?t LOC_MAX_PARAM_STRING (conf_line [] (param_name ?e) [] [] name [CHR 10]) m
      = (1, set_flag (param_set ?e) True (m\<lparr>strs := (strs m)(A_proc_name := name)\<rparr>))" for m :: "'a conf"
    using assms(5-7) e by (intro fill_text_entry) (simp_all add: entry_def blanks_def is_space_def trimmed_def)
  then have "strs (take_lines atof zero ?t (b @ [nl]) c) A_proc_name = name"
    by (simp add: take_lines_def assms(3) entry_def set_flag_def)
  with r show ?thesis by blast
qed

text \<open>
  The processes of a file are counted by their names, in one byte: a file with 256 of them
  counts as one with none.
\<close>

theorem names_are_counted_in_a_byte:
  assumes "\<forall>b\<in>set bs. block_for atof zero name_table P b"
    "\<forall>l\<in>P. \<forall>m. strs (snd (loc_fill_conf_item atof zero name_table LOC_MAX_PARAM_STRING l m)) A_proc_name \<noteq> []"
    "lines_for atof zero name_table {} ls"
  shows "map_option fst (count_names atof zero (concat (map concat bs) @ concat ls) c n) = Some (n + of_nat (length bs))"
  using assms(1)
proof (induction bs arbitrary: c n)
  case Nil
  have "\<forall>l\<in>set ls. file_line LOC_MAX_PARAM_STRING l \<and> (\<forall>m. loc_fill_conf_item atof zero name_table LOC_MAX_PARAM_STRING l m = (0, m))"
    using assms(3) by (auto simp: lines_for_def intro: fills_nothing)
  from nothing_is_read [OF this, of 1] have "read_block atof zero name_table (concat ls) c = Some ([], c)" for c
    by (simp add: read_block_params clear_no_flags tables_have_no_flags table_lengths LOC_MAX_PARAM_STRING_def)
  then show ?case by (simp add: count_names.simps)
next
  case (Cons b bs)
  let ?c = "c\<lparr>strs := (strs c)(A_proc_name := [])\<rparr>"
  have b: "block_for atof zero name_table P b" using Cons.prems by simp
  from block_for_read [OF this tables_have_no_flags(2)]
  have r: "read_block atof zero name_table (concat b @ concat (map concat bs) @ concat ls) ?c
      = Some (concat (map concat bs) @ concat ls, take_lines atof zero name_table b ?c)"
    by (simp add: table_lengths)
  have "b = butlast b @ [last b]" "last b \<in> P" using b by (simp_all add: block_for_def)
  then have "take_lines atof zero name_table b ?c
      = snd (loc_fill_conf_item atof zero name_table LOC_MAX_PARAM_STRING (last b) (take_lines atof zero name_table (butlast b) ?c))"
    by (metis (no_types, lifting) take_lines_def fold_simps fold_append comp_apply)
  with assms(2) \<open>last b \<in> P\<close> have "strs (take_lines atof zero name_table b ?c) A_proc_name \<noteq> []" by simp
  with r Cons.IH [of "take_lines atof zero name_table b ?c" "n + 1"] Cons.prems show ?case
    by (subst count_names.simps) (simp add: ac_simps)
qed

section \<open>When a process is started\<close>

text \<open>
  The conditions on the members, written over the words of the lists and not over the checks of
  the code: a list admits a name when it says all, all but some that do not include it, or when
  it does not start with all and has the name.
\<close>

definition complete :: "'f conf \<Rightarrow> bool" where
  "complete c \<longleftrightarrow> (\<forall>a\<in>{A_proc_name, A_group_list, A_platform_list, A_baseband, A_proc_status, A_auto_platform, A_soc_id_list}. strs c a \<noteq> [])"

definition switched_on :: "device \<Rightarrow> 'f conf \<Rightarrow> bool" where
  "switched_on dev c \<longleftrightarrow> length (strs c A_proc_name) < LOC_MAX_PARAM_STRING \<and> strs c A_proc_status \<noteq> ''DISABLED''
    \<and> (strs c A_proc_name = ''xtra-daemon'' \<longrightarrow> xtra_daemon_enabled dev)
    \<and> (nums c A_vendor_enhanced_process \<noteq> 0 \<longrightarrow> vendor_enhanced dev)"

definition all_but :: "string \<Rightarrow> string list \<Rightarrow> bool" where
  "all_but name ws \<longleftrightarrow> ws = [''all''] \<or> (\<exists>names. ws = ''all'' # ''exclude'' # names \<and> name \<notin> set names)"

definition admits :: "string \<Rightarrow> string list \<Rightarrow> bool" where
  "admits name ws \<longleftrightarrow> all_but name ws \<or> hd ws \<noteq> ''all'' \<and> name \<in> set ws"

definition on_device :: "device \<Rightarrow> bool \<Rightarrow> (conf_addr \<Rightarrow> string list) \<Rightarrow> bool" where
  "on_device dev sglte ws \<longleftrightarrow> \<not> (hd (ws A_low_ram_targets) = ''DISABLED'' \<and> low_ram_target dev)
    \<and> admits (platform_name dev) (ws A_platform_list) \<and> admits (socid_value dev) (ws A_soc_id_list)
    \<and> (all_but (baseband_name dev) (ws A_baseband) \<or> hd (ws A_baseband) \<noteq> ''all''
        \<and> (baseband_name dev \<in> set (ws A_baseband) \<or> sglte \<and> ''sglte'' \<in> set (ws A_baseband)))
    \<and> (hd (ws A_auto_platform) = ''all'' \<or> autoplatform_name dev \<in> set (ws A_auto_platform))"

definition has_words :: "'f conf \<Rightarrow> conf_addr \<Rightarrow> string list \<Rightarrow> bool" where
  "has_words c a ws \<longleftrightarrow> ws \<noteq> [] \<and> length ws \<le> 20 \<and> (\<forall>w\<in>set ws. CHR '' '' \<notin> set w) \<and> strs c a = joined (CHR '' '') ws"

lemma split_has_words: "has_words c a ws \<Longrightarrow> split_member a c = (ws, c\<lparr>strs := (strs c)(a := hd ws)\<rparr>)"
  using split_loop_take [of ws "CHR '' ''" 20]
  by (simp add: split_member_def has_words_def loc_util_split_string_def MAX_NUM_STRINGS_def)

lemma has_words_kept: "a \<noteq> b \<Longrightarrow> has_words (c\<lparr>strs := (strs c)(a := x)\<rparr>) b ws = has_words c b ws"
  by (simp add: has_words_def)

lemma matches_all_but_words:
  assumes "ws \<noteq> []" "hd ws = ''all''"
  shows "matches_all_but name ws = all_but name ws"
proof (cases ws)
  case (Cons w rest)
  with assms show ?thesis by (cases rest) (auto simp: matches_all_but_def all_but_def)
qed (use assms in simp)

lemma all_but_starts: "all_but name ws \<Longrightarrow> hd ws = ''all''"
  by (auto simp: all_but_def)

lemma checks_are_admits:
  assumes "ws \<noteq> []"
  shows "name_check name ws = admits name ws"
    and "baseband_check name sglte ws = (all_but name ws \<or> hd ws \<noteq> ''all'' \<and> (name \<in> set ws \<or> sglte \<and> ''sglte'' \<in> set ws))"
  using matches_all_but_words [OF assms] all_but_starts [of name ws]
  by (auto simp: name_check_def admits_def baseband_check_def list_ex_iff)

lemma early_exits:
  assumes "\<not> (complete c \<and> switched_on dev c)"
  shows "\<exists>s. process_block dev sm c = Some (new_process\<lparr>proc_status := s\<rparr>, c) \<and> s \<noteq> ENABLED"
proof -
  have "\<exists>s. Some (new_process, c) = Some (new_process\<lparr>proc_status := s\<rparr>, c) \<and> s \<noteq> ENABLED"
    by (intro exI [of _ DISABLED]) (simp add: new_process_def)
  with assms show ?thesis
    unfolding process_block_def Let_def complete_def switched_on_def by (simp only: split: if_split) force
qed

lemma ready_block:
  assumes "complete c" "switched_on dev c" "\<And>a. a \<in> {A_group_list, A_platform_list, A_soc_id_list, A_baseband, A_auto_platform, A_low_ram_targets}
    \<Longrightarrow> has_words c a (ws a)"
  shows "\<exists>q c'. proc_status q = DISABLED \<and> nums c' = nums c \<and> process_block dev sm c
    = (if on_device dev (nums c A_sglte_target \<noteq> 0) ws then map_option (\<lambda>p. (p, c')) (start_process sm c' q) else Some (q, c'))"
proof -
  define cut where "cut = (\<lambda>a (x :: 'a conf). x\<lparr>strs := (strs x)(a := hd (ws a))\<rparr>)"
  have cut: "nums (cut a x) = nums x" "a \<noteq> b \<Longrightarrow> has_words (cut a x) b vs = has_words x b vs" for a b x vs
    by (simp_all add: cut_def has_words_kept)
  have sp: "has_words x a (ws a) \<Longrightarrow> split_member a x = (ws a, cut a x)" for a x
    by (simp add: cut_def split_has_words)
  let ?g = "cut A_group_list c"
  let ?p = "cut A_platform_list ?g"
  let ?s = "cut A_soc_id_list ?p"
  let ?b = "cut A_baseband ?s"
  let ?a = "cut A_auto_platform ?b"
  let ?r = "cut A_low_ram_targets ?a"
  have h: "has_words c A_group_list (ws A_group_list)" "has_words c A_platform_list (ws A_platform_list)"
    "has_words c A_soc_id_list (ws A_soc_id_list)" "has_words c A_baseband (ws A_baseband)"
    "has_words c A_auto_platform (ws A_auto_platform)" "has_words c A_low_ram_targets (ws A_low_ram_targets)"
    by (intro assms(3); simp)+
  have s: "split_member A_group_list c = (ws A_group_list, ?g)" "split_member A_platform_list ?g = (ws A_platform_list, ?p)"
    "split_member A_soc_id_list ?p = (ws A_soc_id_list, ?s)" "split_member A_baseband ?s = (ws A_baseband, ?b)"
    "split_member A_auto_platform ?b = (ws A_auto_platform, ?a)" "split_member A_low_ram_targets ?a = (ws A_low_ram_targets, ?r)"
    by (intro sp; simp add: cut h)+
  define q where "q = new_process\<lparr>pr_name := strs c A_proc_name, group_list := List.map_filter (getgrnam dev) (ws A_group_list)\<rparr>"
  have n1: "\<not> (strs c A_proc_name = [] \<or> strs c A_group_list = [] \<or> strs c A_platform_list = [] \<or> strs c A_baseband = []
       \<or> strs c A_proc_status = [] \<or> strs c A_auto_platform = [] \<or> strs c A_soc_id_list = [])"
    using assms(1) by (simp add: complete_def)
  have n2: "\<not> (strs c A_proc_name = ''xtra-daemon'' \<and> \<not> xtra_daemon_enabled dev)"
    and n3: "\<not> (\<not> vendor_enhanced dev \<and> nums c A_vendor_enhanced_process \<noteq> 0)" and n4: "\<not> strs c A_proc_status = ''DISABLED''"
    and n5: "\<not> length (strs c A_proc_name) + 1 > LOC_MAX_PARAM_STRING"
    using assms(2) by (auto simp: switched_on_def)
  have ne: "ws A_platform_list \<noteq> []" "ws A_soc_id_list \<noteq> []" "ws A_baseband \<noteq> []" using h by (simp_all add: has_words_def)
  have "process_block dev sm c
      = (if on_device dev (nums c A_sglte_target \<noteq> 0) ws then map_option (\<lambda>p. (p, ?r)) (start_process sm ?r q) else Some (q, ?r))"
    unfolding process_block_def Let_def if_not_P [OF n1] if_not_P [OF n2] if_not_P [OF n3] if_not_P [OF n4] if_not_P [OF n5]
      s prod.case q_def [symmetric] cut(1) checks_are_admits [OF ne(1)] checks_are_admits [OF ne(2)] checks_are_admits [OF ne(3)]
      autoplatform_check_def on_device_def map_option_case
    by (auto split: if_split)
  moreover have "proc_status q = DISABLED" "nums ?r = nums c" by (simp_all add: q_def new_process_def cut)
  ultimately show ?thesis by blast
qed

text \<open>
  C34: A process whose lists are of at most 20 words each is enabled exactly when the members that
  were read so far are complete, it is not switched off by its state, by the property of the XTRA
  daemon, by the vendor check or for devices with little memory, its lists of platforms, chips
  and basebands admit the device, the hardware type is all or is listed, and it is no premium
  feature or one that is on.  A list admits a name when it says all, all but some that do not
  include it, or has the name and does not start with all; a baseband list also when it has sglte
  and the device is an SGLTE target.
\<close>

theorem enabled_iff:
  assumes "process_block dev sm c = Some (p, c')"
    "\<And>a. a \<in> {A_group_list, A_platform_list, A_soc_id_list, A_baseband, A_auto_platform, A_low_ram_targets}
      \<Longrightarrow> has_words c a (ws a)"
  shows "proc_status p = ENABLED \<longleftrightarrow> complete c \<and> switched_on dev c \<and> on_device dev (nums c A_sglte_target \<noteq> 0) ws
    \<and> (nums c A_premium_feature \<noteq> 0 \<longrightarrow> nums c A_loc_feature_mask AND sm \<noteq> 0)"
proof (cases "complete c \<and> switched_on dev c")
  case False
  with early_exits [OF False, of sm] assms(1) show ?thesis by auto
next
  case True
  let ?on = "on_device dev (nums c A_sglte_target \<noteq> 0) ws"
  have st: "start_process sm x q = Some p \<Longrightarrow> proc_status q = DISABLED \<Longrightarrow>
      proc_status p = ENABLED \<longleftrightarrow> (nums x A_premium_feature \<noteq> 0 \<longrightarrow> nums x A_loc_feature_mask AND sm \<noteq> 0)" for x q
    by (auto simp: start_process_def Let_def split: if_splits)
  from True obtain q c2 where q: "proc_status q = DISABLED" "nums c2 = nums c"
    "process_block dev sm c = (if ?on then map_option (\<lambda>p. (p, c2)) (start_process sm c2 q) else Some (q, c2))"
    using ready_block [of c dev ws sm] assms(2) by blast
  show ?thesis
  proof (cases ?on)
    case False
    with q assms(1) have "p = q" by simp
    with False q(1) show ?thesis by simp
  next
    case on: True
    with q assms(1) have "start_process sm c2 q = Some p" by (cases "start_process sm c2 q") auto
    from st [OF this q(1)] q(2) True on show ?thesis by simp
  qed
qed

lemma block_without_trigger: "nums c A_launch_trigger_mask = 0 \<Longrightarrow> process_block dev sm c \<noteq> None"
  by (simp add: process_block_def split_member_def start_process_def Let_def)

section \<open>Examples\<close>

definition sample_device :: device where
  "sample_device = \<lparr>platform_name = ''pineapple'', baseband_name = ''msm'', autoplatform_name = [], socid_value = ''557'',
     low_ram_target = False, xtra_daemon_enabled = False, vendor_enhanced = True, getgrnam = (\<lambda>_. None)\<rparr>"

definition empty_conf :: "unit conf" where
  "empty_conf = \<lparr>strs = (\<lambda>_. []), nums = (\<lambda>_. 0), dbls = (\<lambda>_. ()), flags = (\<lambda>_. False)\<rparr>"

definition plain_line :: "string \<times> string \<Rightarrow> string" where
  "plain_line x = conf_line [] (fst x) [] [] (snd x) [CHR 10]"

definition short_block :: "string \<Rightarrow> (string \<times> string) list" where
  "short_block name = [(''PROCESS_NAME'', name), (''PROCESS_ARGUMENT'', ''-v''), (''PROCESS_STATE'', ''ENABLED''),
     (''PROCESS_GROUPS'', ''gps''), (''PREMIUM_FEATURE'', ''0''), (''IZAT_FEATURE_MASK'', ''0''), (''PLATFORMS'', ''all''),
     (''SOC_IDS'', ''all''), (''BASEBAND'', ''all''), (''LOW_RAM_TARGETS'', ''ENABLED''), (''HARDWARE_TYPE'', ''all''),
     (''VENDOR_ENHANCED_PROCESS'', ''0'')]"

definition full_block :: "string \<Rightarrow> (string \<times> string) list" where
  "full_block name = short_block name @ [(''LAUNCH_TRIGGER_MASK'', ''0'')]"

definition good_line :: "string \<times> string \<Rightarrow> bool" where
  "good_line x \<longleftrightarrow> fst x \<in> param_name ` set loc_process_conf_parameter_table \<and> trimmed (snd x)
     \<and> CHR 10 \<notin> set (snd x) \<and> CHR 0x00 \<notin> set (snd x) \<and> length (fst x) + length (snd x) < 170"

lemma table_names:
  "e \<in> set loc_process_conf_parameter_table \<Longrightarrow> trimmed (param_name e) \<and> CHR ''='' \<notin> set (param_name e)
    \<and> CHR 10 \<notin> set (param_name e) \<and> CHR 0x00 \<notin> set (param_name e) \<and> param_ptr e \<noteq> None
    \<and> (param_kind e = StringParam \<or> param_kind e = NumberParam)"
  "distinct (map param_name loc_process_conf_parameter_table)"
  by (auto simp: loc_process_conf_parameter_table_def entry_def trimmed_def is_space_def)

lemma good_lines_for:
  assumes "\<forall>x\<in>set xs. good_line x" "plain_line ` set xs \<subseteq> P"
  shows "lines_for atof zero loc_process_conf_parameter_table P (map plain_line xs)"
  unfolding lines_for_def
proof (intro ballI conjI allI)
  fix l m assume "l \<in> set (map plain_line xs)"
  then obtain x where x: "x \<in> set xs" "l = plain_line x" by auto
  with assms(1) have g: "good_line x" by blast
  then obtain e where e: "e \<in> set loc_process_conf_parameter_table" "fst x = param_name e" by (auto simp: good_line_def)
  from table_names(1) [OF e(1)] obtain a where n: "param_ptr e = Some a" by auto
  have "fst (loc_fill_conf_item atof zero loc_process_conf_parameter_table LOC_MAX_PARAM_STRING l m) = 1"
    unfolding x(2) plain_line_def e(2) using table_names(1) [of e] table_names(2) e(1) n g
    by (intro fill_takes) (auto simp: good_line_def blanks_def is_space_def)
  with x assms(2) show "fst (loc_fill_conf_item atof zero loc_process_conf_parameter_table LOC_MAX_PARAM_STRING l m) = of_bool (l \<in> P)"
    by auto
  show "file_line LOC_MAX_PARAM_STRING l"
    unfolding file_line_def using table_names(1) [OF e(1)] g e(2)
    by (intro exI [of _ "fst x @ CHR ''='' # snd x"])
      (auto simp: x(2) plain_line_def conf_line_def good_line_def LOC_MAX_PARAM_STRING_def)
qed

lemma good_name: "trimmed name \<Longrightarrow> CHR 10 \<notin> set name \<Longrightarrow> CHR 0x00 \<notin> set name \<Longrightarrow> length name < 100
    \<Longrightarrow> \<forall>x\<in>set (full_block name). good_line x"
  by (auto simp: full_block_def short_block_def good_line_def loc_process_conf_parameter_table_def entry_def
      trimmed_def is_space_def)

lemma short_good: "trimmed name \<Longrightarrow> CHR 10 \<notin> set name \<Longrightarrow> CHR 0x00 \<notin> set name \<Longrightarrow> length name < 100
    \<Longrightarrow> \<forall>x\<in>set (short_block name). good_line x"
  using good_name [of name] by (simp add: full_block_def)

lemma good_line_name: "trimmed name \<Longrightarrow> CHR 10 \<notin> set name \<Longrightarrow> CHR 0x00 \<notin> set name \<Longrightarrow> length name < 100
    \<Longrightarrow> good_line (''PROCESS_NAME'', name)"
  using short_good [of name] by (simp add: short_block_def)

definition two_processes :: "string list list" where
  "two_processes = [map plain_line (full_block ''slim_daemon''), map plain_line (full_block ''xtra-daemon'')]"

definition full_lines :: "string set" where
  "full_lines = plain_line ` (set (full_block ''slim_daemon'') \<union> set (full_block ''xtra-daemon''))"

lemma full_block_for:
  assumes "trimmed name" "CHR 10 \<notin> set name" "CHR 0x00 \<notin> set name" "length name < 100"
    "plain_line ` set (full_block name) \<subseteq> P"
  shows "block_for atof zero loc_process_conf_parameter_table P (map plain_line (full_block name))"
proof -
  have "lines_for atof zero loc_process_conf_parameter_table P (map plain_line (full_block name))"
    using good_name [OF assms(1-4)] assms(5) by (rule good_lines_for)
  moreover have "filter (\<lambda>l. l \<in> P) (map plain_line (full_block name)) = map plain_line (full_block name)"
    using assms(5) by (intro filter_True) auto
  moreover have "length (full_block name) = 13" "full_block name \<noteq> []" by (simp_all add: full_block_def short_block_def)
  moreover have "last (map plain_line (full_block name)) \<in> P"
    using assms(5) calculation(4) by (auto simp: last_map)
  ultimately show ?thesis by (simp add: block_for_def table_lengths)
qed

theorem complete_blocks_are_read_witness:
  "map_option fst (read_processes (\<lambda>_. ()) () sample_device 0 2 (concat (map concat two_processes) @ []) empty_conf)
    = processes_of (\<lambda>_. ()) () sample_device 0 two_processes empty_conf"
proof -
  have "\<forall>b\<in>set two_processes. block_for (\<lambda>_. ()) () loc_process_conf_parameter_table full_lines b"
    unfolding two_processes_def by (auto intro!: full_block_for simp: trimmed_def is_space_def full_lines_def)
  moreover have "length two_processes = 2" by (simp add: two_processes_def)
  ultimately show ?thesis using complete_blocks_are_read [of two_processes "\<lambda>_. ()" "()" full_lines sample_device 0 "[]" empty_conf]
    by metis
qed

text \<open>The first block has no launch trigger, and the name of the second process is taken.\<close>

theorem missing_parameter_takes_next_name_witness:
  "\<exists>c'. read_block (\<lambda>_. ()) () loc_process_conf_parameter_table
      (concat (map plain_line (short_block ''slim_daemon'')) @ conf_line [] ''PROCESS_NAME'' [] [] ''lowi-server'' [CHR 10] @ ''PROCESS_STATE=ENABLED'')
      empty_conf = Some (''PROCESS_STATE=ENABLED'', c') \<and> strs c' A_proc_name = ''lowi-server''"
proof -
  let ?b = "map plain_line (short_block ''slim_daemon'')" and ?nl = "conf_line [] ''PROCESS_NAME'' [] [] ''lowi-server'' [CHR 10]"
  have nl: "?nl = plain_line (''PROCESS_NAME'', ''lowi-server'')" by (simp add: plain_line_def)
  have "\<forall>x\<in>set (short_block ''slim_daemon'' @ [(''PROCESS_NAME'', ''lowi-server'')]). good_line x"
    using short_good [of "''slim_daemon''"] good_line_name [of "''lowi-server''"]
    by (simp add: trimmed_def is_space_def del: set_append) auto
  from good_lines_for [OF this, of UNIV "\<lambda>_. ()" "()"]
  have l: "lines_for (\<lambda>_. ()) () loc_process_conf_parameter_table UNIV (?b @ [?nl])" by (simp add: nl)
  have "length (filter (\<lambda>l. l \<in> UNIV) ?b) = 12" by (simp add: short_block_def)
  from missing_parameter_takes_next_name [OF l this refl, of "''PROCESS_STATE=ENABLED''" empty_conf] show ?thesis
    by (simp add: trimmed_def is_space_def LOC_MAX_PARAM_STRING_def)
qed

theorem launch_trigger_overflows_witness:
  "start_process 0 (empty_conf\<lparr>strs := (strs empty_conf)(A_proc_argument := joined (CHR '' '') (replicate 23 ''a'')),
      nums := (nums empty_conf)(A_launch_trigger_mask := 2)\<rparr>) new_process = None"
proof -
  have n: "replicate 23 ''a'' \<noteq> []" "joined (CHR '' '') (replicate 23 ''a'') \<noteq> []"
    "length (joined (CHR '' '') (replicate 23 ''a'')) < LOC_MAX_PARAM_STRING"
    by (simp_all add: numeral_eq_Suc LOC_MAX_PARAM_STRING_def)
  show ?thesis
    by (subst launch_trigger_overflows [OF _ n(1) _ n(2,3)]) (simp_all add: empty_conf_def)
qed

theorem arguments_fit_witness:
  "\<exists>p'. start_process 0 empty_conf new_process = Some p' \<and> length (pr_args p') \<le> 25"
proof -
  obtain p' where p: "start_process 0 empty_conf new_process = Some p'"
    by (simp add: start_process_def empty_conf_def Let_def)
  with arguments_fit [OF p] show ?thesis by (auto simp: LOC_PROCESS_MAX_NUM_ARGS_def)
qed

text \<open>256 names, and a comment at the end.\<close>

definition name_lines :: "string set" where
  "name_lines = {plain_line (''PROCESS_NAME'', ''x'')}"

theorem names_are_counted_in_a_byte_witness:
  "map_option fst (count_names (\<lambda>_. ()) () (concat (map concat (replicate 256 [plain_line (''PROCESS_NAME'', ''x'')]))
     @ concat [''# end'' @ [CHR 10]]) empty_conf 0) = Some 0"
proof -
  let ?l = "plain_line (''PROCESS_NAME'', ''x'')"
  have nt: "name_table = [entry ''PROCESS_NAME'' A_proc_name StringParam]"
    by (simp add: name_table_def loc_process_conf_parameter_table_def)
  have f: "loc_fill_conf_item (\<lambda>_. ()) () name_table LOC_MAX_PARAM_STRING ?l m
      = (1, m\<lparr>strs := (strs m)(A_proc_name := ''x'')\<rparr>)" for m :: "unit conf"
    using fill_text_entry [of "[]" "[]" "[]" "[CHR 10]" "entry ''PROCESS_NAME'' A_proc_name StringParam" name_table A_proc_name "''x''" LOC_MAX_PARAM_STRING "\<lambda>_. ()" "()" m]
    by (simp add: nt entry_def plain_line_def blanks_def is_space_def trimmed_def LOC_MAX_PARAM_STRING_def set_flag_def)
  have fl: "file_line LOC_MAX_PARAM_STRING ?l" "file_line LOC_MAX_PARAM_STRING (''# end'' @ [CHR 10])"
    by (auto simp: file_line_def plain_line_def conf_line_def LOC_MAX_PARAM_STRING_def)
  have "lines_for (\<lambda>_. ()) () name_table {} [''# end'' @ [CHR 10]]"
    using fl(2) by (simp add: lines_for_def loc_fill_conf_item_def strtok_def)
  moreover have "\<forall>b\<in>set (replicate 256 [?l]). block_for (\<lambda>_. ()) () name_table name_lines b"
    using fl(1) f by (simp add: block_for_def lines_for_def name_lines_def nt)
  moreover have "\<forall>l\<in>name_lines. \<forall>m. strs (snd (loc_fill_conf_item (\<lambda>_. ()) () name_table LOC_MAX_PARAM_STRING l m)) A_proc_name \<noteq> []"
    using f by (simp add: name_lines_def)
  ultimately have "map_option fst (count_names (\<lambda>_. ()) () (concat (map concat (replicate 256 [?l]))
     @ concat [''# end'' @ [CHR 10]]) empty_conf 0) = Some (0 + of_nat (length (replicate 256 [?l])))"
    by (intro names_are_counted_in_a_byte [of _ _ _ name_lines]) simp_all
  moreover have "(0 + of_nat (length (replicate 256 [?l])) :: 8 word) = 0"
    unfolding length_replicate by (simp add: word_of_nat_eq_0_iff)
  ultimately show ?thesis by metis
qed

definition ready_conf :: "unit conf" where
  "ready_conf = empty_conf\<lparr>strs := (\<lambda>a. if a = A_proc_name then ''slim_daemon'' else if a = A_proc_argument then []
     else if a = A_proc_status then ''ENABLED'' else if a = A_platform_list then ''all exclude sm8550'' else ''all'')\<rparr>"

theorem enabled_iff_witness:
  "\<exists>p c'. process_block sample_device 0 ready_conf = Some (p, c') \<and> proc_status p = ENABLED"
proof -
  define ws where "ws = (\<lambda>a. if a = A_platform_list then [''all'', ''exclude'', ''sm8550''] else [''all''])"
  have w: "has_words ready_conf a (ws a)"
    if "a \<in> {A_group_list, A_platform_list, A_soc_id_list, A_baseband, A_auto_platform, A_low_ram_targets}" for a
    using that by (auto simp: has_words_def ws_def ready_conf_def)
  have "nums ready_conf A_launch_trigger_mask = 0" by (simp add: ready_conf_def empty_conf_def)
  then obtain p c' where p: "process_block sample_device 0 ready_conf = Some (p, c')"
    using block_without_trigger [of ready_conf sample_device 0] by fastforce
  have "on_device sample_device (nums ready_conf A_sglte_target \<noteq> 0) ws"
    by (simp add: on_device_def admits_def all_but_def ws_def sample_device_def)
  moreover have "complete ready_conf" "switched_on sample_device ready_conf" "nums ready_conf A_premium_feature = 0"
    by (simp_all add: complete_def switched_on_def sample_device_def ready_conf_def empty_conf_def LOC_MAX_PARAM_STRING_def)
  ultimately have "proc_status p = ENABLED" using enabled_iff [OF p w] by blast
  with p show ?thesis by blast
qed

end
