(* ===== verification/Spec2Isabelle.thy ===== *)
theory Spec2Isabelle
  imports MsgQueue LocTimer OsObserver Agps FpSession LogBuffer GeofenceAdapter GnssTracking BatchingAdapter LocationClients ApiSessions LocText LocApiRun LocApiEvents RealtimeEstimator SsRun NavData ProcessConf
begin

text \<open>
  The native services of the device tree of the Nubia phones with the SM8650 chip: the location
  HAL (\<^verbatim>\<open>src/gps\<close>) and the fingerprint HAL (\<^verbatim>\<open>src/fingerprint\<close>).

  \<^bold>\<open>The parts of the program.\<close>  The location HAL is a set of adapters (\<^verbatim>\<open>gnss\<close>, \<^verbatim>\<open>geofence\<close>,
  \<^verbatim>\<open>batching\<close>), each a class over \<^verbatim>\<open>core/LocAdapterBase\<close> that serves clients of the framework and
  talks to a modem interface loaded from a vendor library.  A command of a client becomes a
  message in the queue of one thread (\<^verbatim>\<open>utils/msg_q.c\<close>, \<^verbatim>\<open>utils/MsgTask.cpp\<close>); the message changes the
  tables of the adapter and makes requests to the modem; an answer of the modem is again a
  message.  Timers (\<^verbatim>\<open>utils/LocTimer.cpp\<close>) run over a heap, the state of the framework comes through
  an observer (\<^verbatim>\<open>core/SystemStatusOsObserver.cpp\<close>), and data connections for assistance are shared
  by a state machine (\<^verbatim>\<open>gnss/Agps.cpp\<close>).  The fingerprint HAL is a session over an engine with a
  lockout counter, driven by a worker thread and the messages of a vendor device.

  \<^bold>\<open>Theories and sources.\<close>
    \<^item> \<open>Prelude\<close>, \<open>Fifo\<close>, \<open>Steps\<close>, \<open>OrdMap\<close>, \<open>Decimal\<close>: shared lemmas, the interface of a queue, runs of
      operations with the contracts \<open>invariant_system\<close> and \<open>total_system\<close>, \<^verbatim>\<open>std::map\<close>, and the
      decimal conversions of the C library.
    \<^item> \<open>LinkedList\<close> (\<^verbatim>\<open>utils/linked_list.c\<close>): the doubly linked list over an explicit memory;
      \<open>MsgQueue\<close> (\<^verbatim>\<open>utils/msg_q.c\<close>, \<^verbatim>\<open>utils/MsgTask.cpp\<close>): the queue with its mutex and the thread loop.
    \<^item> \<open>LocHeap\<close>, \<open>LocTimer\<close> (\<^verbatim>\<open>utils/LocHeap.cpp\<close>, \<^verbatim>\<open>utils/LocTimer.cpp\<close>): the ranked heap, and the timer
      service as the interleavings of clients, expirations and messages.
    \<^item> \<open>SetMap\<close>, \<open>OsObserver\<close> (\<^verbatim>\<open>utils/LocUnorderedSetMap.h\<close>, \<^verbatim>\<open>core/SystemStatusOsObserver.cpp\<close>): the
      subscriptions to data items and their notification.
    \<^item> \<open>Agps\<close> (\<^verbatim>\<open>gnss/Agps.cpp\<close>): the state machines of the data connections.
    \<^item> \<open>SkipList\<close>, \<open>LogBuffer\<close> (\<^verbatim>\<open>utils/SkipList.h\<close>, \<^verbatim>\<open>utils/LogBuffer.cpp\<close>): the log kept in memory.
    \<^item> \<open>ContextBase\<close>, \<open>LocAdapterBase\<close> (\<^verbatim>\<open>core/\<close>): capabilities and licences, clients and numbers.
    \<^item> \<open>GeofenceAdapter\<close> (\<^verbatim>\<open>geofence/GeofenceAdapter.cpp\<close>): geofences with the arrays a command shares
      between its items.
    \<^item> \<open>TrackingOptions\<close>, \<open>Ntrip\<close>, \<open>GnssTracking\<close> (\<^verbatim>\<open>gnss/GnssAdapter.cpp\<close>, \<^verbatim>\<open>gnss/XtraSystemStatusObserver.cpp\<close>):
      the options of sessions and their multiplexing, the correction stream, the sessions.
    \<^item> \<open>BatchingAdapter\<close> (\<^verbatim>\<open>batching/BatchingAdapter.cpp\<close>): sessions that collect positions, and trips.
    \<^item> \<open>LocationApi\<close>, \<open>LocationRequests\<close>, \<open>LocationClients\<close> (\<^verbatim>\<open>location/LocationAPI.cpp\<close>): the objects of the
      clients, the requests they pass on, and their life with the adapters.
    \<^item> \<open>BiDict\<close>, \<open>ApiClient\<close>, \<open>ApiSessions\<close> (\<^verbatim>\<open>location/LocationAPIClientBase.cpp\<close>): the dictionary in two
      directions, the queues of requests and the tables of a client, and its sessions over all runs.
    \<^item> \<open>SwapRemove\<close>, \<open>LocApiBase\<close>, \<open>LocApiRun\<close>, \<open>LocApiEvents\<close>, \<open>LocText\<close> (\<^verbatim>\<open>core/LocApiBase.cpp\<close>,
      \<^verbatim>\<open>core/LocAdapterBase.cpp\<close>): the array of adapters under the modem interface with the messages
      that open and close it, the delivery of reports and requests to the adapters, and the text
      helpers; \<open>RealtimeEstimator\<close> (\<^verbatim>\<open>core/LocApiBase.cpp\<close>): the time since boot of a fix.
    \<^item> \<open>SsCache\<close>, \<open>NetworkInfo\<close>, \<open>CNumber\<close>, \<open>SsReports\<close>, \<open>NavData\<close>, \<open>SystemStatus\<close>, \<open>SsRun\<close>
      (\<^verbatim>\<open>core/SystemStatus.cpp\<close>): the histories of items, the merging of networks, numerals of the C
      library, the debug sentences of the engine and the items made of them, and the cache with
      its operations and its runs.
    \<^item> \<open>LocCfg\<close>, \<open>ProcessConf\<close> (\<^verbatim>\<open>utils/loc_cfg.cpp\<close>, \<^verbatim>\<open>utils/loc_misc_utils.cpp\<close>): lines of configuration
      files read into tables, and the processes that a file lists with their conditions and
      arguments.
    \<^item> \<open>Lockout\<close>, \<open>FingerprintEngine\<close>, \<open>FpSession\<close> (\<^verbatim>\<open>src/fingerprint\<close>): the lockout, the engine with its
      message loop, the session with its worker.

  \<^bold>\<open>How the model reads.\<close>  A class is a record, a function a definition of the same name (with
  a suffix such as \<open>_gnss\<close>, \<open>_batching\<close> or \<open>_api\<close> where another class has one of that name), a message or lambda
  a constructor with a definition for its body.  An operation that may touch freed memory, read an
  indeterminate value, throw, or not return, is \<open>None\<close> there.  What the adapters call on others
  is a log or a list of outstanding requests.  The vendor libraries are not in the sources:
  their answers are events with any content in any order.  Machine integers are words of their
  width.

  \<^bold>\<open>What the lemmas show.\<close>  Each component has its invariant with one preservation lemma per
  operation, composed by an interpretation of \<open>invariant_system\<close> or \<open>total_system\<close> over all runs; the
  functional behaviour of its operations; and, where the code fails, the run that shows it.
  The manifest lists the properties in the order of their importance.

  \<^bold>\<open>Bounds.\<close>  Loops over pointers that may not end are \<open>partial_function (option)\<close> with lemmas that they
  return on well-formed lists; the comma loop of \<open>Ntrip\<close> is bounded by the code.  No result rests on
  fuel.  Histories hold five items, the table of networks ten, the array of adapters ten: the
  constants of the code.  Numbers of sessions are assumed not to wrap only in the runs of \<open>engine_follows_sessions\<close>.

  \<^bold>\<open>Not modelled.\<close>  Code that only moves data between structures of generated types (the AIDL
  glue), reads files or sockets of the operating system, prints enumerations or dumps, or computes
  with floating-point numbers (System status only stores and compares them, as rationals or the
  value that is not a number); the requests to the modem, which are empty defaults; the parts of \<^verbatim>\<open>GnssAdapter.cpp\<close> beside its sessions and the correction
  stream; and everything that is not C or C++ (overlays, policy, the Kotlin application).
\<close>

end
